(* ===== verification/Smtp_Prelude.thy ===== *)
theory Smtp_Prelude
  imports Main "HOL-Library.List_Lexorder" "HOL-Library.Char_ord"
begin

text \<open>
  Shared vocabulary of the development: the outcome of running a piece of C code
  (a value, or a memory or control fault), \<^verbatim>\<open>malloc\<close> as an explicit sequence of
  answers, C strings inside byte arrays, the string functions of the C library that
  the sources use, decimal printing for \<^verbatim>\<open>printf\<close>-style formats, and generic list
  lemmas.
\<close>

section \<open>Outcomes of C code\<close>

text \<open>
  A C function either returns (\<open>Done\<close>) or does something the C language gives no
  meaning to, calls \<^verbatim>\<open>exit\<close>, fails an \<^verbatim>\<open>assert\<close> or waits for ever (\<open>Fault\<close>).
\<close>

datatype fault =
    Null_Deref          \<comment> \<open>a null pointer is dereferenced\<close>
  | Out_Of_Bounds       \<comment> \<open>an array is accessed outside its block\<close>
  | Dangling            \<comment> \<open>a freed or never allocated block is accessed\<close>
  | Uninit_Read         \<comment> \<open>an object that was never written is read\<close>
  | Lock_Error          \<comment> \<open>a mutex is unlocked by a thread that does not hold it\<close>
  | Assert_Failed       \<comment> \<open>a failed \<^verbatim>\<open>assert\<close> aborts the process\<close>
  | Exit_Called         \<comment> \<open>the process calls \<^verbatim>\<open>exit\<close>\<close>
  | Waits_Forever       \<comment> \<open>the function waits for something that is not going to happen\<close>

datatype 'a run = Done 'a | Fault fault

primrec rbind :: "'a run \<Rightarrow> ('a \<Rightarrow> 'b run) \<Rightarrow> 'b run" where
  "rbind (Done x) f = f x"
| "rbind (Fault e) f = Fault e"

named_theorems run_simps \<open>unfolding of the outcome plumbing\<close>
named_theorems wf_intros \<open>operations keep the well-formedness of their component\<close>
named_theorems content_simps \<open>what an operation does to the abstract content\<close>

lemma rbind_Done_iff [run_simps]:
  "rbind m f = Done y \<longleftrightarrow> (\<exists>x. m = Done x \<and> f x = Done y)"
  by (cases m) auto

lemma rbind_Fault_iff [run_simps]:
  "rbind m f = Fault e \<longleftrightarrow> m = Fault e \<or> (\<exists>x. m = Done x \<and> f x = Fault e)"
  by (cases m) auto

lemma rbind_Done_right [simp]: "rbind m Done = m"
  by (cases m) auto

lemma rbind_assoc: "rbind (rbind m f) g = rbind m (\<lambda>x. rbind (f x) g)"
  by (cases m) auto

lemma rbind_cong [fundef_cong]:
  "m = m' \<Longrightarrow> (\<And>x. m' = Done x \<Longrightarrow> f x = g x) \<Longrightarrow> rbind m f = rbind m' g"
  by (cases m') auto

section \<open>Allocation\<close>

text \<open>
  The allocator is an oracle: each call of \<^verbatim>\<open>malloc\<close> or \<^verbatim>\<open>calloc\<close> consumes one
  answer, \<open>False\<close> standing for a null result. When the answers are used up every
  further call succeeds, so \<open>[]\<close> is the machine with enough memory.
\<close>

type_synonym mem = "bool list"

fun malloc :: "mem \<Rightarrow> bool \<times> mem" where
  "malloc [] = (True, [])"
| "malloc (b # bs) = (b, bs)"

section \<open>Byte arrays and C strings\<close>

abbreviation NUL :: char where "NUL \<equiv> CHR 0x00"
abbreviation CR :: char where "CR \<equiv> CHR 0x0D"
abbreviation LF :: char where "LF \<equiv> CHR 0x0A"
abbreviation CRLF :: string where "CRLF \<equiv> [CR, LF]"

definition c_str :: "string \<Rightarrow> string" where
  "c_str bs = takeWhile (\<lambda>c. c \<noteq> NUL) bs"

definition strlen :: "string \<Rightarrow> nat" where
  "strlen bs = length (c_str bs)"

text \<open>A NUL-free string stored as a C array.\<close>

definition as_array :: "string \<Rightarrow> string" where
  "as_array s = s @ [NUL]"

text \<open>
  Reading a byte array as a C string (\<^verbatim>\<open>%s\<close>, \<^verbatim>\<open>strlen\<close>): the terminator has to be
  inside the array.
\<close>

definition read_c_str :: "string \<Rightarrow> string run" where
  "read_c_str bs = (if NUL \<in> set bs then Done (c_str bs) else Fault Out_Of_Bounds)"

lemma c_str_no_NUL [simp]: "NUL \<notin> set (c_str bs)"
  by (auto simp: c_str_def dest: set_takeWhileD)

lemma c_str_id: "NUL \<notin> set s \<Longrightarrow> c_str s = s"
  by (auto simp: c_str_def takeWhile_eq_all_conv)

lemma c_str_append: "NUL \<notin> set s \<Longrightarrow> c_str (s @ t) = s @ c_str t"
  by (auto simp: c_str_def takeWhile_append)

lemma c_str_NUL_Cons [simp]: "c_str (NUL # t) = []"
  by (simp add: c_str_def)

lemma c_str_Nil [simp]: "c_str [] = []"
  by (simp add: c_str_def)

lemma c_str_replicate_NUL [simp]: "c_str (replicate n NUL) = []"
  by (cases n) simp_all

lemma c_str_as_array [simp]: "NUL \<notin> set s \<Longrightarrow> c_str (as_array s) = s"
  by (simp add: as_array_def c_str_append)

lemma strlen_as_array [simp]: "NUL \<notin> set s \<Longrightarrow> strlen (as_array s) = length s"
  by (simp add: strlen_def)

lemma length_c_str_le: "length (c_str bs) \<le> length bs"
  by (simp add: c_str_def length_takeWhile_le)

text \<open>
  \<^verbatim>\<open>memcpy\<close> of \<open>src\<close> into \<open>dst\<close> at an offset, faulting outside the destination.
\<close>

definition blit :: "'a list \<Rightarrow> nat \<Rightarrow> 'a list \<Rightarrow> 'a list" where
  "blit dst off src = take off dst @ src @ drop (off + length src) dst"

definition memcpy_at :: "string \<Rightarrow> nat \<Rightarrow> string \<Rightarrow> nat \<Rightarrow> string run" where
  "memcpy_at dst off src n =
     (if n \<le> length src \<and> off + n \<le> length dst
      then Done (blit dst off (take n src)) else Fault Out_Of_Bounds)"

lemma length_blit [simp]: "off + length src \<le> length dst \<Longrightarrow> length (blit dst off src) = length dst"
  by (simp add: blit_def)

lemma take_blit: "off + length src \<le> length dst \<Longrightarrow> take (off + length src) (blit dst off src) = take off dst @ src"
  by (simp add: blit_def)

lemma drop_blit: "off + length src \<le> length dst \<Longrightarrow> drop (off + length src) (blit dst off src) = drop (off + length src) dst"
  by (simp add: blit_def)

text \<open>
  \<^verbatim>\<open>snprintf\<close> with a buffer of \<open>n\<close> bytes keeps at most \<open>n - 1\<close> bytes and
  terminates them; the model keeps the resulting C string.
\<close>

definition snprintf :: "nat \<Rightarrow> string \<Rightarrow> string" where
  "snprintf n s = take (n - 1) s"

lemma snprintf_fits: "length s < n \<Longrightarrow> snprintf n s = s"
  by (simp add: snprintf_def)

lemma length_snprintf: "0 < n \<Longrightarrow> length (snprintf n s) < n"
  by (simp add: snprintf_def)

lemma snprintf_no_NUL: "NUL \<notin> set s \<Longrightarrow> NUL \<notin> set (snprintf n s)"
  by (auto simp: snprintf_def dest: in_set_takeD)

text \<open>
  \<^verbatim>\<open>memcmp(a, b, n) == 0\<close> on two byte arrays: equality of the first \<open>n\<close> bytes. Where
  one array ends before a difference is found the call reads outside it.
\<close>

definition memcmp_eq :: "string \<Rightarrow> string \<Rightarrow> nat \<Rightarrow> bool" where
  "memcmp_eq a b n = (take n a = take n b)"

text \<open>
  \<^verbatim>\<open>strcmp\<close> on C strings compares bytes as \<^verbatim>\<open>unsigned char\<close>; only the sign of the
  result is used.
\<close>

fun strcmp :: "string \<Rightarrow> string \<Rightarrow> int" where
  "strcmp [] [] = 0"
| "strcmp [] (y # ys) = -1"
| "strcmp (x # xs) [] = 1"
| "strcmp (x # xs) (y # ys) =
     (if x = y then strcmp xs ys
      else if (of_char x :: nat) < of_char y then -1 else 1)"

lemma strcmp_eq_0_iff [simp]: "strcmp a b = 0 \<longleftrightarrow> a = b"
  by (induction a b rule: strcmp.induct) auto

lemma strcmp_less_0_iff [simp]: "strcmp a b < 0 \<longleftrightarrow> a < b"
  by (induction a b rule: strcmp.induct) (auto simp: less_char_def)

section \<open>Decimal output\<close>

fun show_nat :: "nat \<Rightarrow> string" where
  "show_nat n = (if n < 10 then [char_of (48 + n)]
                 else show_nat (n div 10) @ [char_of (48 + n mod 10)])"

declare show_nat.simps [simp del]

lemma char_of_digit_inj:
  assumes "(a::nat) < 10" "b < 10" "(char_of (48 + a) :: char) = char_of (48 + b)"
  shows "a = b"
proof -
  have "(of_char (char_of (48 + a) :: char) :: nat) = of_char (char_of (48 + b) :: char)"
    using assms(3) by simp
  with assms(1,2) show ?thesis by simp
qed

lemma show_nat_not_Nil [simp]: "show_nat n \<noteq> []"
  by (subst show_nat.simps) simp

lemma Nil_neq_show_nat [simp]: "[] \<noteq> show_nat n"
  by (metis show_nat_not_Nil)

lemma show_nat_inj: "show_nat m = show_nat n \<Longrightarrow> m = n"
proof (induction m arbitrary: n rule: show_nat.induct)
  case (1 m)
  show ?case
  proof (cases "m < 10")
    case True
    then show ?thesis
      using "1.prems" by (cases "n < 10")
        (auto simp: show_nat.simps [of m] show_nat.simps [of n] dest: char_of_digit_inj)
  next
    case False
    show ?thesis
    proof (cases "n < 10")
      case True
      then show ?thesis using "1.prems" False
        by (simp add: show_nat.simps [of m] show_nat.simps [of n])
    next
      case n: False
      from "1.prems" False n
      have q: "show_nat (m div 10) = show_nat (n div 10)"
        and r: "(char_of (48 + m mod 10) :: char) = char_of (48 + n mod 10)"
        by (simp_all add: show_nat.simps [of m] show_nat.simps [of n])
      from q False have "m div 10 = n div 10" by (rule "1.IH"[rotated])
      moreover from r have "m mod 10 = n mod 10"
        by (rule char_of_digit_inj [rotated 2]) simp_all
      ultimately show ?thesis by (metis div_mult_mod_eq)
    qed
  qed
qed

lemma show_nat_digits: "c \<in> set (show_nat n) \<Longrightarrow> 48 \<le> (of_char c :: nat) \<and> (of_char c :: nat) < 58"
proof (induction n rule: show_nat.induct)
  case (1 n)
  then show ?case
    by (cases "n < 10") (auto simp: show_nat.simps [of n])
qed

end
