(* ===== verification/Server_Base.thy ===== *)
theory Server_Base
  imports Smtp_Prelude
begin

text \<open>
  What the server's components share: the error codes of \<^verbatim>\<open>custom_errors.h\<close>, the
  protocol constants of \<^verbatim>\<open>smtp_definitions.h\<close>, and the part of the operating system
  the server uses as one explicit record \<open>world\<close>: the allocator, the clock, the
  file system, the log and the per-thread mail counter.
\<close>

section \<open>Error codes and protocol constants\<close>

datatype error_code =
    CE_SUCCESS | CE_COMMON | CE_NOT_INITED | CE_ALLOC | CE_INIT_3RD
  | CE_LOCK | CE_SIZE | CE_MAX_SIZE | CE_INVALID_ARG

definition SMTP_TEXT_LINE_MAX_SIZE :: nat where "SMTP_TEXT_LINE_MAX_SIZE = 1000"
definition SMTP_RCPT_MAX_SIZE :: nat where "SMTP_RCPT_MAX_SIZE = 100"

definition SMTP_OPENING_MSG :: string where
  "SMTP_OPENING_MSG = ''220 Service ready'' @ CRLF"
definition SMTP_SUCCESS_ANSWER :: string where
  "SMTP_SUCCESS_ANSWER = ''250 OK'' @ CRLF"
definition SMTP_DATA_ACCEPTED_ANSWER :: string where
  "SMTP_DATA_ACCEPTED_ANSWER = ''354 Start mail input'' @ CRLF"
definition SMTP_QUIT_SUCCESS_ANSWER :: string where
  "SMTP_QUIT_SUCCESS_ANSWER = ''221 Bye'' @ CRLF"
definition SMTP_UNKNOWN_CMD_ANSWER :: string where
  "SMTP_UNKNOWN_CMD_ANSWER = ''500 Syntax error, command unrecognized'' @ CRLF"
definition SMTP_NOT_IMPLEMENTED_ANSWER :: string where
  "SMTP_NOT_IMPLEMENTED_ANSWER = ''502 Command not implemented'' @ CRLF"
definition SMTP_BAD_SEQUENCE_ANSWER :: string where
  "SMTP_BAD_SEQUENCE_ANSWER = ''503 Bad sequence of command'' @ CRLF"

lemmas smtp_answers =
  SMTP_OPENING_MSG_def SMTP_SUCCESS_ANSWER_def SMTP_DATA_ACCEPTED_ANSWER_def
  SMTP_QUIT_SUCCESS_ANSWER_def SMTP_UNKNOWN_CMD_ANSWER_def
  SMTP_NOT_IMPLEMENTED_ANSWER_def SMTP_BAD_SEQUENCE_ANSWER_def

lemma smtp_answers_no_NUL [simp]:
  "NUL \<notin> set SMTP_OPENING_MSG" "NUL \<notin> set SMTP_SUCCESS_ANSWER"
  "NUL \<notin> set SMTP_DATA_ACCEPTED_ANSWER" "NUL \<notin> set SMTP_QUIT_SUCCESS_ANSWER"
  "NUL \<notin> set SMTP_UNKNOWN_CMD_ANSWER" "NUL \<notin> set SMTP_NOT_IMPLEMENTED_ANSWER"
  "NUL \<notin> set SMTP_BAD_SEQUENCE_ANSWER"
  by (simp_all add: smtp_answers)

lemma smtp_answers_not_Nil [simp]:
  "SMTP_OPENING_MSG \<noteq> []" "SMTP_SUCCESS_ANSWER \<noteq> []"
  "SMTP_DATA_ACCEPTED_ANSWER \<noteq> []" "SMTP_QUIT_SUCCESS_ANSWER \<noteq> []"
  "SMTP_UNKNOWN_CMD_ANSWER \<noteq> []" "SMTP_NOT_IMPLEMENTED_ANSWER \<noteq> []"
  "SMTP_BAD_SEQUENCE_ANSWER \<noteq> []"
  by (simp_all add: smtp_answers)

section \<open>The world of one server thread\<close>

text \<open>
  \<^item> \<open>oom\<close>: answers of the allocator; \<open>clock\<close>: values successive calls of
    \<^verbatim>\<open>time(NULL)\<close> return (the last value is repeated);
  \<^item> \<open>files\<close>: the file system, a map from paths to contents; \<open>creatable\<close>: the paths
    at which the process may create a file (its directory exists and is writable);
  \<^item> \<open>logs\<close>: level and subsystem of each record handed to the logger (the texts are
    not kept);
  \<^item> \<open>mailN\<close>: the integer \<^verbatim>\<open>server_info.N\<close> that every \<^verbatim>\<open>mail_writer_t\<close> of a thread
    points to.
\<close>

datatype log_level = CRITICAL | WARNING | INFO

record world =
  oom :: mem
  clock :: "nat list"
  files :: "string \<rightharpoonup> string"
  creatable :: "string \<Rightarrow> bool"
  logs :: "(log_level \<times> string) list"
  mailN :: nat

definition alloc :: "world \<Rightarrow> bool \<times> world" where
  "alloc w = (let (b, m) = malloc (oom w) in (b, w\<lparr>oom := m\<rparr>))"

fun next_time :: "nat list \<Rightarrow> nat \<times> nat list" where
  "next_time [] = (0, [])"
| "next_time [t] = (t, [t])"
| "next_time (t # ts) = (t, ts)"

definition time_now :: "world \<Rightarrow> nat \<times> world" where
  "time_now w = (let (t, ts) = next_time (clock w) in (t, w\<lparr>clock := ts\<rparr>))"

definition log_msg :: "log_level \<Rightarrow> string \<Rightarrow> world \<Rightarrow> world" where
  "log_msg l sys w = w\<lparr>logs := logs w @ [(l, sys)]\<rparr>"

text \<open>
  The system calls on files: \<^verbatim>\<open>fopen(path, "w")\<close> creates or truncates, \<^verbatim>\<open>link\<close> adds a
  second name for an existing file and never replaces one, \<^verbatim>\<open>remove\<close> drops a name.
\<close>

definition fopen_w :: "string \<Rightarrow> world \<Rightarrow> bool \<times> world" where
  "fopen_w p w = (if creatable w p then (True, w\<lparr>files := (files w)(p \<mapsto> [])\<rparr>) else (False, w))"

definition fwrite :: "string \<Rightarrow> string \<Rightarrow> world \<Rightarrow> world" where
  "fwrite p s w = (case files w p of None \<Rightarrow> w | Some c \<Rightarrow> w\<lparr>files := (files w)(p \<mapsto> c @ s)\<rparr>)"

definition link_file :: "string \<Rightarrow> string \<Rightarrow> world \<Rightarrow> world" where
  "link_file old new w =
     (case files w old of
        None \<Rightarrow> w
      | Some c \<Rightarrow> if files w new = None \<and> creatable w new
                  then w\<lparr>files := (files w)(new \<mapsto> c)\<rparr> else w)"

definition remove_file :: "string \<Rightarrow> world \<Rightarrow> world" where
  "remove_file p w = w\<lparr>files := (files w)(p := None)\<rparr>"

definition plenty :: world where
  "plenty = \<lparr>oom = [], clock = [], files = Map.empty, creatable = (\<lambda>_. True), logs = [], mailN = 0\<rparr>"

lemma alloc_oom_Nil [simp]: "oom w = [] \<Longrightarrow> alloc w = (True, w)"
  by (simp add: alloc_def)

text \<open>Most operations touch nothing of the world but the allocator.\<close>

definition only_oom :: "world \<Rightarrow> world \<Rightarrow> bool" where
  "only_oom w w' \<longleftrightarrow> (\<exists>m. w' = w\<lparr>oom := m\<rparr>)"

lemma only_oom_refl [simp]: "only_oom w w"
  unfolding only_oom_def by (rule exI [of _ "oom w"]) simp

lemma only_oom_trans [trans]: "only_oom w w' \<Longrightarrow> only_oom w' w'' \<Longrightarrow> only_oom w w''"
  by (auto simp: only_oom_def)

lemma only_oom_frame:
  "only_oom w w' \<Longrightarrow> clock w' = clock w \<and> files w' = files w \<and> creatable w' = creatable w
     \<and> logs w' = logs w \<and> mailN w' = mailN w"
  by (auto simp: only_oom_def)

lemma alloc_only_oom: "alloc w = (b, w') \<Longrightarrow> only_oom w w'"
  by (auto simp: alloc_def only_oom_def split: prod.splits)

lemma alloc_keeps_plenty: "alloc w = (b, w') \<Longrightarrow> oom w = [] \<Longrightarrow> b \<and> w' = w"
  by simp

end
