(* ===== verification/Server_Msg.thy ===== *)
theory Server_Msg
  imports Server_Base
begin

text \<open>
  Growing text buffers, \<^verbatim>\<open>server/src/msg.c\<close>: the byte block, the number of bytes in
  use and the size of the block. Every operation of the file is here, with each
  allocation failure and each access outside the block as a branch. The invariant
  \<open>msg_wf\<close> says that the block is there and has the recorded size; \<open>content\<close> is the
  text in use. The contract other components rely on is the locale \<open>text_buffer\<close>,
  interpreted on these operations.
\<close>

section \<open>The buffer and its operations\<close>

record msg_t =
  mtext :: "string option"
  msize :: nat
  max_size :: nat

definition msg_null :: msg_t where
  "msg_null = \<lparr>mtext = None, msize = 0, max_size = 0\<rparr>"

definition msg_init :: "nat \<Rightarrow> world \<Rightarrow> error_code \<times> msg_t \<times> world" where
  "msg_init n w =
     (let (ok, w') = alloc w in
      if \<not> ok then (CE_ALLOC, msg_null, w')
      else (CE_SUCCESS, \<lparr>mtext = Some (replicate n NUL), msize = 0, max_size = n\<rparr>, w'))"

definition msg_resize :: "msg_t \<Rightarrow> nat \<Rightarrow> world \<Rightarrow> (error_code \<times> msg_t \<times> world) run" where
  "msg_resize m n w =
     (if n \<le> max_size m then Done (CE_SUCCESS, m, w)
      else let (ok, w') = alloc w in
        if \<not> ok then Done (CE_ALLOC, m, w')
        else let new_buf = replicate n NUL in
          rbind (case mtext m of None \<Rightarrow> Done new_buf
                 | Some t \<Rightarrow> memcpy_at new_buf 0 t (msize m))
            (\<lambda>b. Done (CE_SUCCESS, m\<lparr>mtext := Some b, max_size := n\<rparr>, w')))"

definition msg_add_text :: "msg_t \<Rightarrow> string \<Rightarrow> nat \<Rightarrow> world \<Rightarrow> (error_code \<times> msg_t \<times> world) run" where
  "msg_add_text m buf n w =
     (let new_size = msize m + n in
      rbind (if max_size m < new_size then msg_resize m (new_size + 50) w
             else Done (CE_SUCCESS, m, w))
        (\<lambda>(cerr, m', w').
           if cerr \<noteq> CE_SUCCESS then Done (cerr, m', w')
           else case mtext m' of None \<Rightarrow> Fault Null_Deref
                | Some t \<Rightarrow> rbind (memcpy_at t (msize m') buf n)
                    (\<lambda>b. Done (CE_SUCCESS, m'\<lparr>mtext := Some b, msize := new_size\<rparr>, w'))))"

text \<open>
  \<^verbatim>\<open>strncpy(dst, src, n)\<close> copies up to the first NUL of \<^verbatim>\<open>src\<close> and fills the rest of the
  \<open>n\<close> bytes with NUL. In \<open>msg_rm_text\<close> source and destination lie in one block with the
  destination first; copying byte by byte from the front never reads a byte it has
  already overwritten, so the result is that of disjoint blocks.
\<close>

definition strncpy_bytes :: "string \<Rightarrow> nat \<Rightarrow> string" where
  "strncpy_bytes src n = (let s = take n (c_str src) in s @ replicate (n - length s) NUL)"

definition msg_rm_text :: "msg_t \<Rightarrow> nat \<Rightarrow> (error_code \<times> msg_t) run" where
  "msg_rm_text m n =
     (case mtext m of None \<Rightarrow> Fault Null_Deref
      | Some t \<Rightarrow>
          if msize m \<le> n
          then Done (CE_SUCCESS, m\<lparr>mtext := Some (replicate (max_size m) NUL), msize := 0\<rparr>)
          else let k = msize m - n in
            Done (CE_SUCCESS, m\<lparr>mtext := Some (blit t 0 (strncpy_bytes (drop n t) k)), msize := k\<rparr>))"

definition msg_clean :: "msg_t \<Rightarrow> msg_t run" where
  "msg_clean m =
     (case mtext m of None \<Rightarrow> Fault Null_Deref
      | Some t \<Rightarrow> Done (m\<lparr>mtext := Some (replicate (max_size m) NUL), msize := 0\<rparr>))"

definition msg_destroy :: "msg_t \<Rightarrow> msg_t" where
  "msg_destroy m = msg_null"

text \<open>
  \<^verbatim>\<open>msg_recv_one\<close> calls \<^verbatim>\<open>recv\<close> at most 100 times with a buffer of 1000 bytes. The
  results of successive calls are an input: a non-empty chunk, an orderly close (0),
  \<^verbatim>\<open>EWOULDBLOCK\<close> or another error; after the listed results the socket would block.
\<close>

datatype recv_res = Recv_bytes string | Recv_closed | Recv_wouldblock | Recv_error

fun recv_loop :: "nat \<Rightarrow> msg_t \<Rightarrow> recv_res list \<Rightarrow> world
    \<Rightarrow> (error_code \<times> bool \<times> msg_t \<times> recv_res list \<times> world) run" where
  "recv_loop 0 m rs w = Done (CE_SUCCESS, False, m, rs, w)"
| "recv_loop (Suc i) m [] w = Done (CE_SUCCESS, False, m, [], w)"
| "recv_loop (Suc i) m (Recv_closed # rs) w = Done (CE_SUCCESS, True, m, rs, w)"
| "recv_loop (Suc i) m (Recv_wouldblock # rs) w = Done (CE_SUCCESS, False, m, rs, w)"
| "recv_loop (Suc i) m (Recv_error # rs) w = Done (CE_COMMON, False, m, rs, w)"
| "recv_loop (Suc i) m (Recv_bytes b # rs) w =
     rbind (msg_add_text m b (length b) w) (\<lambda>(_, m', w'). recv_loop i m' rs w')"

definition msg_recv_one :: "msg_t \<Rightarrow> recv_res list \<Rightarrow> world
    \<Rightarrow> (error_code \<times> bool \<times> msg_t \<times> recv_res list \<times> world) run" where
  "msg_recv_one m rs w = recv_loop 100 m rs w"

text \<open>
  \<^verbatim>\<open>msg_send_one\<close> calls \<^verbatim>\<open>send\<close> at most 500 times while bytes are left. \<open>Sent k\<close> is a
  call that accepted \<open>k\<close> bytes (\<^verbatim>\<open>send\<close> never accepts more than it is offered). The
  bytes handed to the socket are the last component of the result.
\<close>

datatype send_res = Sent nat | Send_wouldblock | Send_error

fun send_loop :: "nat \<Rightarrow> msg_t \<Rightarrow> send_res list \<Rightarrow> (error_code \<times> msg_t \<times> send_res list \<times> string) run" where
  "send_loop 0 m ss = Done (CE_SUCCESS, m, ss, [])"
| "send_loop (Suc i) m ss =
     (if msize m = 0 then Done (CE_SUCCESS, m, ss, [])
      else case mtext m of None \<Rightarrow> Fault Null_Deref
      | Some t \<Rightarrow>
        (case ss of
           [] \<Rightarrow> Done (CE_SUCCESS, m, [], [])
         | Send_wouldblock # ss' \<Rightarrow> Done (CE_SUCCESS, m, ss', [])
         | Send_error # ss' \<Rightarrow> Done (CE_COMMON, m, ss', [])
         | Sent k0 # ss' \<Rightarrow>
             (let k = min k0 (msize m) in
              if k = 0 then Done (CE_SUCCESS, m, ss', [])
              else rbind (msg_rm_text m k)
                (\<lambda>(_, m'). rbind (send_loop i m' ss')
                   (\<lambda>(cerr, m'', ss'', out). Done (cerr, m'', ss'', take k t @ out))))))"

definition msg_send_one :: "msg_t \<Rightarrow> send_res list \<Rightarrow> (error_code \<times> msg_t \<times> send_res list \<times> string) run" where
  "msg_send_one m ss = send_loop 500 m ss"

section \<open>Invariant and content\<close>

definition msg_wf :: "msg_t \<Rightarrow> bool" where
  "msg_wf m \<longleftrightarrow> (\<exists>t. mtext m = Some t \<and> length t = max_size m) \<and> msize m \<le> max_size m"

definition content :: "msg_t \<Rightarrow> string" where
  "content m = (case mtext m of None \<Rightarrow> [] | Some t \<Rightarrow> take (msize m) t)"

lemma msg_wfE:
  assumes "msg_wf m"
  obtains t where "mtext m = Some t" "length t = max_size m" "msize m \<le> max_size m" "content m = take (msize m) t"
  using assms by (auto simp: msg_wf_def content_def)

lemma length_content [simp]: "msg_wf m \<Longrightarrow> length (content m) = msize m"
  by (erule msg_wfE) simp

lemma msg_init_cases:
  "msg_init n w = (e, m, w') \<Longrightarrow>
     (e = CE_SUCCESS \<and> msg_wf m \<and> content m = [] \<and> msize m = 0 \<and> max_size m = n)
   \<or> (e = CE_ALLOC \<and> m = msg_null)"
  by (auto simp: msg_init_def msg_wf_def content_def split: prod.splits if_splits)

lemma msg_init_plenty [simp]:
  "oom w = [] \<Longrightarrow> msg_init n w = (CE_SUCCESS, \<lparr>mtext = Some (replicate n NUL), msize = 0, max_size = n\<rparr>, w)"
  by (simp add: msg_init_def)

lemma msg_resize_ok:
  assumes "msg_wf m"
  obtains e m' w' where "msg_resize m n w = Done (e, m', w')"
    "e = CE_SUCCESS \<or> e = CE_ALLOC \<and> m' = m"
    "e = CE_SUCCESS \<Longrightarrow> msg_wf m' \<and> content m' = content m \<and> msize m' = msize m \<and> max_size m' = max n (max_size m)"
    "oom w = [] \<Longrightarrow> e = CE_SUCCESS \<and> w' = w" "only_oom w w'"
proof (cases "n \<le> max_size m")
  case True
  then show thesis using assms by (intro that [of CE_SUCCESS m w]) (auto simp: msg_resize_def max_def)
next
  case False
  from assms obtain t where t: "mtext m = Some t" "length t = max_size m" "msize m \<le> max_size m"
    "content m = take (msize m) t" by (rule msg_wfE)
  obtain ok w1 where a: "alloc w = (ok, w1)" by force
  show thesis
  proof (cases ok)
    case ok: True
    let ?m = "m\<lparr>mtext := Some (blit (replicate n NUL) 0 (take (msize m) t)), max_size := n\<rparr>"
    have r: "msg_resize m n w = Done (CE_SUCCESS, ?m, w1)"
      using False a ok t by (simp add: msg_resize_def memcpy_at_def)
    have "msg_wf ?m" "content ?m = content m"
      using t False by (auto simp: msg_wf_def content_def blit_def)
    with r False a show thesis
      by (intro that [OF r]) (auto simp: max_def dest: alloc_keeps_plenty alloc_only_oom)
  next
    case nok: False
    have r: "msg_resize m n w = Done (CE_ALLOC, m, w1)"
      using False a nok by (simp add: msg_resize_def)
    show thesis using a nok by (intro that [OF r]) (auto dest: alloc_keeps_plenty alloc_only_oom)
  qed
qed

text \<open>
  Appending: either the bytes are appended, or the block could not grow and the buffer
  is unchanged. No access leaves the block.
\<close>

lemma msg_add_text_ok:
  assumes wf: "msg_wf m" and n: "n \<le> length buf"
  obtains e m' w' where "msg_add_text m buf n w = Done (e, m', w')"
    "msg_wf m'" "e = CE_SUCCESS \<or> e = CE_ALLOC \<and> m' = m"
    "e = CE_SUCCESS \<Longrightarrow> content m' = content m @ take n buf \<and> msize m' = msize m + n"
    "oom w = [] \<Longrightarrow> e = CE_SUCCESS \<and> w' = w" "only_oom w w'"
proof -
  obtain e1 m1 w1 where r: "(if max_size m < msize m + n then msg_resize m (msize m + n + 50) w
             else Done (CE_SUCCESS, m, w)) = Done (e1, m1, w1)"
    and e1: "e1 = CE_SUCCESS \<or> e1 = CE_ALLOC \<and> m1 = m"
    and s1: "e1 = CE_SUCCESS \<Longrightarrow> msg_wf m1 \<and> content m1 = content m \<and> msize m1 = msize m \<and> msize m + n \<le> max_size m1"
    and p1: "oom w = [] \<Longrightarrow> e1 = CE_SUCCESS \<and> w1 = w" and f1: "only_oom w w1"
    using wf by (cases "max_size m < msize m + n")
      (erule msg_resize_ok [of m "msize m + n + 50" w], auto)
  show thesis
  proof (cases "e1 = CE_SUCCESS")
    case True
    with s1 obtain t where t: "mtext m1 = Some t" "length t = max_size m1" "content m1 = take (msize m1) t"
      by (blast elim: msg_wfE)
    let ?m = "m1\<lparr>mtext := Some (blit t (msize m1) (take n buf)), msize := msize m + n\<rparr>"
    have r': "msg_add_text m buf n w = Done (CE_SUCCESS, ?m, w1)"
      using r True t s1 n by (simp add: msg_add_text_def memcpy_at_def Let_def)
    have l: "length (take n buf) = n" using n by simp
    have "msg_wf ?m" "content ?m = content m @ take n buf"
      using t s1 True take_blit [of "msize m1" "take n buf" t, unfolded l]
      by (auto simp: msg_wf_def content_def l)
    with p1 f1 show thesis by (intro that [OF r']) auto
  next
    case False
    with e1 r have "msg_add_text m buf n w = Done (CE_ALLOC, m, w1)"
      by (simp add: msg_add_text_def Let_def)
    from that [OF this] wf p1 f1 e1 False show thesis by auto
  qed
qed


lemma msg_clean_ok:
  assumes "msg_wf m"
  shows "msg_clean m = Done (m\<lparr>mtext := Some (replicate (max_size m) NUL), msize := 0\<rparr>)"
    and "msg_wf (m\<lparr>mtext := Some (replicate (max_size m) NUL), msize := 0\<rparr>)"
    and "content (m\<lparr>mtext := Some (replicate (max_size m) NUL), msize := 0\<rparr>) = []"
  using assms by (auto simp: msg_clean_def msg_wf_def content_def)

lemma take_c_str: "NUL \<notin> set (take n xs) \<Longrightarrow> take n (c_str xs) = take n xs"
  by (induction xs arbitrary: n) (auto simp: c_str_def take_Cons' split: if_splits)

lemma msg_rm_text_ok:
  assumes wf: "msg_wf m" and nul: "NUL \<notin> set (content m)"
  obtains m' where "msg_rm_text m k = Done (CE_SUCCESS, m')" "msg_wf m'"
    "content m' = drop k (content m)" "msize m' = msize m - k"
proof -
  from wf obtain t where t: "mtext m = Some t" "length t = max_size m" "msize m \<le> max_size m"
    "content m = take (msize m) t" by (rule msg_wfE)
  show thesis
  proof (cases "msize m \<le> k")
    case True
    with t show thesis
      by (intro that [of "m\<lparr>mtext := Some (replicate (max_size m) NUL), msize := 0\<rparr>"])
        (auto simp: msg_rm_text_def msg_wf_def content_def)
  next
    case False
    let ?n = "msize m - k"
    have rest: "take ?n (drop k t) = drop k (content m)"
      by (simp add: t(4) take_drop [symmetric] drop_take)
    have "NUL \<notin> set (take ?n (drop k t))"
      using nul by (auto simp: rest dest: in_set_dropD)
    then have c: "strncpy_bytes (drop k t) ?n = drop k (content m)"
      using t False by (simp add: strncpy_bytes_def take_c_str rest Let_def)
    have l: "length (drop k (content m)) = ?n" using wf by simp
    let ?m = "m\<lparr>mtext := Some (blit t 0 (drop k (content m))), msize := ?n\<rparr>"
    have "msg_rm_text m k = Done (CE_SUCCESS, ?m)"
      using False t c by (simp add: msg_rm_text_def)
    moreover have "msg_wf ?m" "content ?m = drop k (content m)"
      using t l False by (auto simp: msg_wf_def content_def blit_def)
    ultimately show thesis by (intro that [of ?m]) auto
  qed
qed

section \<open>The contract of a text buffer\<close>

text \<open>
  What the session code relies on: appending is total on well-formed buffers and either
  appends or changes nothing; cleaning empties. The two compositions the code uses,
  replacing the text and appending chunk after chunk, are derived once.
\<close>

locale text_buffer =
  fixes wf :: "'m \<Rightarrow> bool"
    and text_of :: "'m \<Rightarrow> string"
    and add :: "'m \<Rightarrow> string \<Rightarrow> nat \<Rightarrow> 'w \<Rightarrow> ('e \<times> 'm \<times> 'w) run"
    and clean :: "'m \<Rightarrow> 'm run"
    and ok :: 'e
    and enough :: "'w \<Rightarrow> bool"
  assumes add_law: "wf m \<Longrightarrow> n \<le> length buf \<Longrightarrow>
      \<exists>e m' w'. add m buf n w = Done (e, m', w') \<and> wf m' \<and>
        (if e = ok then text_of m' = text_of m @ take n buf else m' = m) \<and>
        (enough w \<longrightarrow> e = ok \<and> w' = w)"
    and clean_law: "wf m \<Longrightarrow> \<exists>m'. clean m = Done m' \<and> wf m' \<and> text_of m' = []"
begin

lemma replace_law:
  assumes "wf m" "n \<le> length buf"
  shows "\<exists>e m' w'. rbind (clean m) (\<lambda>m1. add m1 buf n w) = Done (e, m', w') \<and> wf m' \<and>
           text_of m' = (if e = ok then take n buf else []) \<and> (enough w \<longrightarrow> e = ok \<and> w' = w)"
proof -
  from clean_law [OF assms(1)] obtain m1 where m1: "clean m = Done m1" "wf m1" "text_of m1 = []"
    by blast
  from add_law [OF m1(2) assms(2), of w] m1 show ?thesis by (auto split: if_splits)
qed

fun add_all :: "'m \<Rightarrow> string list \<Rightarrow> 'w \<Rightarrow> ('m \<times> 'w) run" where
  "add_all m [] w = Done (m, w)"
| "add_all m (b # bs) w = rbind (add m b (length b) w) (\<lambda>(_, m', w'). add_all m' bs w')"

lemma add_all_total: "wf m \<Longrightarrow> \<exists>m' w'. add_all m bs w = Done (m', w') \<and> wf m'"
proof (induction bs arbitrary: m w)
  case (Cons b bs)
  from add_law [OF Cons.prems order_refl, of b w] obtain e m1 w1
    where "add m b (length b) w = Done (e, m1, w1)" "wf m1" by blast
  with Cons.IH [of m1 w1] show ?case by simp
qed simp

lemma add_all_concat:
  "wf m \<Longrightarrow> enough w \<Longrightarrow> \<exists>m'. add_all m bs w = Done (m', w) \<and> wf m' \<and> text_of m' = text_of m @ concat bs"
proof (induction bs arbitrary: m)
  case (Cons b bs)
  from add_law [OF Cons.prems(1) order_refl, of b w] Cons.prems(2) obtain m1
    where m1: "add m b (length b) w = Done (ok, m1, w)" "wf m1" "text_of m1 = text_of m @ b" by auto
  with Cons.IH [of m1] Cons.prems(2) show ?case by simp
qed simp

end

interpretation mb: text_buffer msg_wf content msg_add_text msg_clean CE_SUCCESS "\<lambda>w. oom w = []"
proof unfold_locales
  fix m :: msg_t and n :: nat and buf :: string and w :: world
  assume "msg_wf m" "n \<le> length buf"
  then show "\<exists>e m' w'. msg_add_text m buf n w = Done (e, m', w') \<and> msg_wf m' \<and>
        (if e = CE_SUCCESS then content m' = content m @ take n buf else m' = m) \<and>
        (oom w = [] \<longrightarrow> e = CE_SUCCESS \<and> w' = w)"
    by (rule msg_add_text_ok [where w = w]) auto
next
  fix m
  assume "msg_wf m"
  then show "\<exists>m'. msg_clean m = Done m' \<and> msg_wf m' \<and> content m' = []"
    by (meson msg_clean_ok)
qed

lemma msg_add_text_only_oom:
  "msg_wf m \<Longrightarrow> n \<le> length buf \<Longrightarrow> msg_add_text m buf n w = Done (e, m', w') \<Longrightarrow> only_oom w w'"
  by (erule msg_add_text_ok [where w = w]) auto

section \<open>Receiving\<close>

text \<open>The chunks the loop appends: those before the first result that is no data.\<close>

fun recv_chunks :: "nat \<Rightarrow> recv_res list \<Rightarrow> string list" where
  "recv_chunks (Suc i) (Recv_bytes b # rs) = b # recv_chunks i rs"
| "recv_chunks _ _ = []"

lemma recv_loop_add_all:
  "recv_loop i m rs w = Done (e, c, m', rs', w') \<Longrightarrow> mb.add_all m (recv_chunks i rs) w = Done (m', w')"
  by (induction i m rs w rule: recv_loop.induct) (auto simp: rbind_Done_iff)

lemma recv_loop_total: "msg_wf m \<Longrightarrow> \<exists>r. recv_loop i m rs w = Done r"
proof (induction i m rs w rule: recv_loop.induct)
  case (6 i m b rs w)
  from mb.add_law [OF "6.prems" order_refl, of b w] obtain e m1 w1
    where "msg_add_text m b (length b) w = Done (e, m1, w1)" "msg_wf m1" by blast
  with "6.IH" show ?case by auto
qed auto

text \<open>
  C34: reading a socket never fails inside the program, keeps the buffer well formed and,
  with memory available, appends exactly the received bytes in order.
\<close>

theorem msg_recv_one_appends:
  assumes "msg_wf m" and "oom w = []"
  shows "\<exists>e c m' rs'. msg_recv_one m rs w = Done (e, c, m', rs', w) \<and> msg_wf m' \<and>
           content m' = content m @ concat (recv_chunks 100 rs)"
proof -
  obtain e c m' rs' w' where r: "recv_loop 100 m rs w = Done (e, c, m', rs', w')"
    using recv_loop_total [OF assms(1)] by (metis prod_cases5)
  with mb.add_all_concat [OF assms, of "recv_chunks 100 rs"] recv_loop_add_all [OF r]
  show ?thesis by (auto simp: msg_recv_one_def)
qed

theorem msg_recv_one_appends_witness:
  "\<exists>e c m' rs'. msg_recv_one \<lparr>mtext = Some [NUL, NUL], msize = 0, max_size = 2\<rparr>
      [Recv_bytes ''QU'', Recv_bytes (''IT'' @ CRLF), Recv_wouldblock] plenty = Done (e, c, m', rs', plenty) \<and>
     msg_wf m' \<and> content m' = ''QUIT'' @ CRLF"
  using msg_recv_one_appends [of "\<lparr>mtext = Some [NUL, NUL], msize = 0, max_size = 2\<rparr>" plenty
      "[Recv_bytes ''QU'', Recv_bytes (''IT'' @ CRLF), Recv_wouldblock]"]
  by (simp add: msg_wf_def content_def plenty_def eval_nat_numeral)

section \<open>Sending\<close>

lemma send_loop_conserves:
  "msg_wf m \<Longrightarrow> NUL \<notin> set (content m) \<Longrightarrow>
     \<exists>e m' ss' out. send_loop i m ss = Done (e, m', ss', out) \<and> msg_wf m' \<and> out @ content m' = content m"
proof (induction i arbitrary: m ss)
  case 0
  then show ?case by simp
next
  case (Suc i)
  from Suc.prems(1) obtain t where t: "mtext m = Some t" "msize m \<le> max_size m" "length t = max_size m"
    "content m = take (msize m) t" by (rule msg_wfE)
  show ?case
  proof (cases "\<exists>k ss'. ss = Sent k # ss' \<and> msize m \<noteq> 0 \<and> k \<noteq> 0")
    case False
    with t Suc.prems show ?thesis
      by (cases ss) (auto split: send_res.splits)
  next
    case True
    then obtain k0 ss' where ss: "ss = Sent k0 # ss'" "msize m \<noteq> 0" "k0 \<noteq> 0" by blast
    define k where "k = min k0 (msize m)"
    obtain m1 where m1: "msg_rm_text m k = Done (CE_SUCCESS, m1)" "msg_wf m1"
      "content m1 = drop k (content m)" by (rule msg_rm_text_ok [OF Suc.prems])
    have "NUL \<notin> set (content m1)" using Suc.prems(2) m1(3) by (auto dest: in_set_dropD)
    then obtain e m2 ss2 out where r: "send_loop i m1 ss' = Done (e, m2, ss2, out)" "msg_wf m2"
      "out @ content m2 = content m1" using Suc.IH [OF m1(2)] by blast
    have "k \<noteq> 0" "take k t = take k (content m)" using ss t by (auto simp: k_def min_def)
    with r m1 ss t have "send_loop (Suc i) m ss = Done (e, m2, ss2, take k (content m) @ out)"
      by (simp add: k_def [symmetric] Let_def)
    with r m1 show ?thesis by simp
  qed
qed

text \<open>
  Whatever the socket accepts, the bytes handed to it followed by the bytes still
  buffered are exactly the reply: nothing is lost, repeated or reordered. (Replies hold
  no NUL byte; \<open>strncpy\<close> in \<open>msg_rm_text\<close> would stop at one.)
\<close>

theorem msg_send_one_conserves:
  assumes "msg_wf m" and "NUL \<notin> set (content m)"
  shows "\<exists>e m' ss' out. msg_send_one m ss = Done (e, m', ss', out) \<and> msg_wf m' \<and> out @ content m' = content m"
  unfolding msg_send_one_def using send_loop_conserves [OF assms] .

theorem msg_send_one_conserves_witness:
  "\<exists>e m' ss' out. msg_send_one \<lparr>mtext = Some (''250 OK'' @ CRLF), msize = 8, max_size = 8\<rparr>
      [Sent 3, Sent 1, Send_wouldblock] = Done (e, m', ss', out) \<and> msg_wf m' \<and>
      out @ content m' = ''250 OK'' @ CRLF"
  using msg_send_one_conserves [of "\<lparr>mtext = Some (''250 OK'' @ CRLF), msize = 8, max_size = 8\<rparr>"
      "[Sent 3, Sent 1, Send_wouldblock]"]
  by (simp add: msg_wf_def content_def)

text \<open>With an embedded NUL the rest of the text is lost: \<open>strncpy\<close> stops there.\<close>

lemma msg_rm_text_embedded_NUL:
  "\<exists>m'. msg_rm_text \<lparr>mtext = Some [CHR ''a'', CHR ''b'', NUL, CHR ''c''], msize = 4, max_size = 4\<rparr> 1
     = Done (CE_SUCCESS, m') \<and> content m' = [CHR ''b'', NUL, NUL]"
  by (simp add: msg_rm_text_def strncpy_bytes_def c_str_def blit_def content_def eval_nat_numeral)


section \<open>Buffers read as C strings\<close>

text \<open>
  Several callers print \<^verbatim>\<open>msg.text\<close> with \<^verbatim>\<open>%s\<close>. The block is zero filled when it is
  allocated, and \<open>zero_padded\<close> is kept by the operations those buffers see; the text is
  then terminated inside the block exactly when one byte is left over.
\<close>

definition msg_c_str :: "msg_t \<Rightarrow> string run" where
  "msg_c_str m = (case mtext m of None \<Rightarrow> Fault Null_Deref | Some t \<Rightarrow> read_c_str t)"

definition zero_padded :: "msg_t \<Rightarrow> bool" where
  "zero_padded m \<longleftrightarrow> (\<exists>t. mtext m = Some t \<and> drop (msize m) t = replicate (length t - msize m) NUL)"

lemma msg_c_str_content:
  assumes "msg_wf m" "zero_padded m" "NUL \<notin> set (content m)" "msize m < max_size m"
  shows "msg_c_str m = Done (content m)"
proof -
  from assms(1) obtain t where t: "mtext m = Some t" "length t = max_size m" "content m = take (msize m) t"
    by (rule msg_wfE)
  have "t = content m @ replicate (max_size m - msize m) NUL"
    using assms(2) t append_take_drop_id [of "msize m" t] by (simp add: zero_padded_def)
  moreover have "max_size m - msize m \<noteq> 0" using assms(4) by simp
  ultimately show ?thesis
    using assms(3) t(1) by (auto simp: msg_c_str_def read_c_str_def c_str_append)
qed

lemma msg_c_str_full:
  assumes "msg_wf m" "NUL \<notin> set (content m)" "msize m = max_size m"
  shows "msg_c_str m = Fault Out_Of_Bounds"
  using assms by (auto simp: msg_wf_def content_def msg_c_str_def read_c_str_def)

lemma msg_init_zero_padded: "msg_init n w = (CE_SUCCESS, m, w') \<Longrightarrow> zero_padded m"
  by (auto simp: msg_init_def zero_padded_def split: prod.splits if_splits)

lemma msg_clean_zero_padded: "msg_clean m = Done m' \<Longrightarrow> zero_padded m'"
  by (auto simp: msg_clean_def zero_padded_def split: option.splits)

lemma msg_resize_zero_padded:
  assumes "msg_wf m" "zero_padded m" "msg_resize m n w = Done (e, m', w')"
  shows "zero_padded m'"
  using assms by (auto simp: msg_resize_def memcpy_at_def zero_padded_def msg_wf_def blit_def
      split: if_splits prod.splits option.splits)

lemma zero_padded_blit:
  assumes "drop k t = replicate (length t - k) NUL" "k + length b \<le> length t"
  shows "drop (k + length b) (blit t k b) = replicate (length t - (k + length b)) NUL"
proof -
  have "drop (k + length b) t = drop (length b) (drop k t)" by (simp add: add.commute)
  also have "\<dots> = replicate (length t - (k + length b)) NUL" by (simp add: assms(1))
  finally show ?thesis using assms(2) by (simp add: drop_blit)
qed

lemma msg_add_text_zero_padded:
  assumes wf: "msg_wf m" and zp: "zero_padded m" and n: "n \<le> length buf"
    and r: "msg_add_text m buf n w = Done (e, m', w')"
  shows "zero_padded m'"
proof -
  obtain e1 m1 w1 where r1: "(if max_size m < msize m + n then msg_resize m (msize m + n + 50) w
             else Done (CE_SUCCESS, m, w)) = Done (e1, m1, w1)"
    and s1: "e1 = CE_SUCCESS \<Longrightarrow> msize m1 = msize m"
    using wf by (cases "max_size m < msize m + n")
      (erule msg_resize_ok [of m "msize m + n + 50" w], auto)
  have zp1: "zero_padded m1"
    using r1 zp msg_resize_zero_padded [OF wf zp] by (auto split: if_splits)
  then obtain t where t: "mtext m1 = Some t" "drop (msize m1) t = replicate (length t - msize m1) NUL"
    by (auto simp: zero_padded_def)
  show ?thesis
  proof (cases "e1 = CE_SUCCESS")
    case True
    with r r1 t s1 have b: "msize m + n \<le> length t"
      and m': "m' = m1\<lparr>mtext := Some (blit t (msize m) (take n buf)), msize := msize m + n\<rparr>"
      by (auto simp: msg_add_text_def Let_def memcpy_at_def split: if_splits)
    have l: "length (take n buf) = n" using n by simp
    show ?thesis
      using zero_padded_blit [of "msize m" t "take n buf", unfolded l] t s1 True b l
      by (auto simp: zero_padded_def m')
  next
    case False
    with r r1 zp1 show ?thesis by (auto simp: msg_add_text_def Let_def)
  qed
qed

end
