(* ===== verification/Server_Mail_Writer.thy ===== *)
theory Server_Mail_Writer
  imports Server_Msg
begin

text \<open>
  Delivery of an accepted mail, \<^verbatim>\<open>server/src/mail_writer.c\<close>: the mail is written once to
  \<^verbatim>\<open><local_maildir>tmp/\<close> and then hard-linked, into \<^verbatim>\<open><user>/new/\<close> for every local
  recipient and once per remote domain into the directory the client process polls.
  The recipients array is changed on the way: the domain of a recipient served by an
  earlier link is emptied.
\<close>

section \<open>Types\<close>

datatype DOMAIN_TYPE = DOMAIN_TYPE_IPV4 | DOMAIN_TYPE_IPV6 | DOMAIN_TYPE_HOST

fun domain_type_no :: "DOMAIN_TYPE \<Rightarrow> nat" where
  "domain_type_no DOMAIN_TYPE_IPV4 = 0"
| "domain_type_no DOMAIN_TYPE_IPV6 = 1"
| "domain_type_no DOMAIN_TYPE_HOST = 2"

record receiver_t =
  local_part :: msg_t
  rdomain :: msg_t
  domain_type :: DOMAIN_TYPE

record mail_writer_t =
  domain :: string
  local_maildir :: string
  client_maildir :: string
  pid :: nat
  tid :: nat
  hostname :: string

section \<open>Names\<close>

text \<open>
  \<^verbatim>\<open>is_to_local\<close> compares over the length of the recipient's domain, so every prefix of
  the server's domain counts as local; the second test compares the server's own domain,
  not the recipient's, with the loopback literal.
\<close>

definition is_to_local :: "mail_writer_t \<Rightarrow> string \<Rightarrow> bool" where
  "is_to_local mw d =
     (if memcmp_eq (as_array (domain mw)) d (length d) then True
      else if memcmp_eq (as_array (domain mw)) (as_array ''[127.0.0.1]'') (length d) then True
      else False)"

definition generate_local_file_name :: "mail_writer_t \<Rightarrow> nat \<Rightarrow> world \<Rightarrow> string \<times> world" where
  "generate_local_file_name mw filename_size w =
     (let (t, w') = time_now w in
      (snprintf filename_size
         (show_nat t @ ''.P'' @ show_nat (pid mw) @ ''T'' @ show_nat (tid mw) @ ''N'' @ show_nat (mailN w)
            @ ''.'' @ hostname mw), w'))"

definition generate_for_client_file_name ::
    "mail_writer_t \<Rightarrow> receiver_t \<Rightarrow> nat \<Rightarrow> world \<Rightarrow> (string \<times> world) run" where
  "generate_for_client_file_name mw r filename_size w =
     (let (t, w') = time_now w in
      rbind (msg_c_str (rdomain r))
        (\<lambda>d. Done (snprintf filename_size
            (d @ ''.'' @ show_nat (domain_type_no (domain_type r)) @ ''.T'' @ show_nat (tid mw)
               @ ''N'' @ show_nat (mailN w) @ ''M'' @ show_nat t), w')))"

definition generate_file_path :: "string \<Rightarrow> string \<Rightarrow> string \<Rightarrow> nat \<Rightarrow> string" where
  "generate_file_path path folder filename filepath_size = snprintf filepath_size (path @ folder @ filename)"

definition create_link_to_file ::
    "mail_writer_t \<Rightarrow> string \<Rightarrow> string \<Rightarrow> receiver_t \<Rightarrow> world \<Rightarrow> world run" where
  "create_link_to_file mw old_file_path local_filename r w =
     rbind (msg_c_str (rdomain r))
       (\<lambda>d. if is_to_local mw d
            then rbind (msg_c_str (local_part r))
              (\<lambda>l. let local_filepath = snprintf 256 (l @ ''/new/'' @ local_filename) in
                   Done (link_file old_file_path
                           (generate_file_path (local_maildir mw) [] local_filepath 1000) w))
            else rbind (generate_for_client_file_name mw r 256 w)
              (\<lambda>(client_filename, w').
                   Done (link_file old_file_path
                           (generate_file_path (client_maildir mw) [] client_filename 1000) w')))"

section \<open>Writing the mail\<close>

text \<open>One entry of the \<^verbatim>\<open>X-mysmtp-to:\<close> header, in a buffer of 200 bytes.\<close>

definition x_to_entry :: "string \<Rightarrow> receiver_t \<Rightarrow> string run" where
  "x_to_entry end_mark r =
     rbind (msg_c_str (local_part r)) (\<lambda>l. rbind (msg_c_str (rdomain r)) (\<lambda>d.
       Done (snprintf 200
         (case domain_type r of
            DOMAIN_TYPE_IPV4 \<Rightarrow> '' <'' @ l @ ''@['' @ d @ '']>'' @ end_mark
          | DOMAIN_TYPE_IPV6 \<Rightarrow> '' <'' @ l @ ''@[IPv6'' @ d @ '']>'' @ end_mark
          | DOMAIN_TYPE_HOST \<Rightarrow> '' <'' @ l @ ''@'' @ d @ ''>'' @ end_mark))))"

text \<open>
  The loop bound \<^verbatim>\<open>to_count - 1\<close> is computed in \<^verbatim>\<open>size_t\<close> and wraps for an empty list.
  Entries of the array from \<^verbatim>\<open>to_count\<close> on were never initialised.
\<close>

definition size_pred :: "nat \<Rightarrow> nat" where
  "size_pred n = (n + 2 ^ 64 - 1) mod 2 ^ 64"

function x_to_loop :: "receiver_t list \<Rightarrow> nat \<Rightarrow> nat \<Rightarrow> string run" where
  "x_to_loop to i bound =
     (if i < bound
      then if i < length to
           then rbind (x_to_entry '','' (to ! i))
                  (\<lambda>s. rbind (x_to_loop to (Suc i) bound) (\<lambda>rest. Done (s @ rest)))
           else Fault Uninit_Read
      else Done [])"
  by pat_completeness auto
termination
  by (relation "measure (\<lambda>(to, i, bound). bound - i)") auto

declare x_to_loop.simps [simp del]

definition x_to_header :: "receiver_t list \<Rightarrow> string run" where
  "x_to_header to =
     rbind (x_to_loop to 0 (size_pred (length to)))
       (\<lambda>s. if size_pred (length to) < length to
            then rbind (x_to_entry CRLF (to ! size_pred (length to)))
                   (\<lambda>last_entry. Done (''X-mysmtp-to:'' @ s @ last_entry))
            else Fault Out_Of_Bounds)"

definition same_remote_domain :: "mail_writer_t \<Rightarrow> receiver_t \<Rightarrow> receiver_t \<Rightarrow> bool run" where
  "same_remote_domain mw ri rj =
     rbind (msg_c_str (rdomain ri)) (\<lambda>d.
       if is_to_local mw d then Done False
       else if msize (rdomain ri) \<noteq> msize (rdomain rj) then Done False
       else case (mtext (rdomain ri), mtext (rdomain rj)) of
              (Some ti, Some tj) \<Rightarrow> Done (memcmp_eq ti tj (msize (rdomain ri)))
            | _ \<Rightarrow> Fault Null_Deref)"

function dedup_loop :: "mail_writer_t \<Rightarrow> nat \<Rightarrow> nat \<Rightarrow> nat \<Rightarrow> receiver_t list \<Rightarrow> receiver_t list run" where
  "dedup_loop mw i j to_count to =
     (if j < to_count
      then rbind (same_remote_domain mw (to ! i) (to ! j))
        (\<lambda>same. if same
           then rbind (msg_clean (rdomain (to ! j)))
                  (\<lambda>m. dedup_loop mw i (Suc j) to_count (to[j := (to ! j)\<lparr>rdomain := m\<rparr>]))
           else dedup_loop mw i (Suc j) to_count to)
      else Done to)"
  by pat_completeness auto
termination
  by (relation "measure (\<lambda>(mw, i, j, n, to). n - j)") auto

declare dedup_loop.simps [simp del]

function link_loop :: "mail_writer_t \<Rightarrow> string \<Rightarrow> string \<Rightarrow> nat \<Rightarrow> nat \<Rightarrow> receiver_t list \<Rightarrow> world
    \<Rightarrow> (receiver_t list \<times> world) run" where
  "link_loop mw tmp_path local_filename i to_count to w =
     (if i < to_count
      then if msize (rdomain (to ! i)) = 0
           then link_loop mw tmp_path local_filename (Suc i) to_count to w
           else rbind (create_link_to_file mw tmp_path local_filename (to ! i) w)
             (\<lambda>w'. rbind (dedup_loop mw i (Suc i) to_count to)
               (\<lambda>to'. link_loop mw tmp_path local_filename (Suc i) to_count to' w'))
      else Done (to, w))"
  by pat_completeness auto
termination
  by (relation "measure (\<lambda>(mw, tmp, lf, i, n, to, w). n - i)") auto

declare link_loop.simps [simp del]

definition write_mail :: "mail_writer_t \<Rightarrow> receiver_t list \<Rightarrow> msg_t \<Rightarrow> world
    \<Rightarrow> (error_code \<times> receiver_t list \<times> world) run" where
  "write_mail mw to txt w =
     (let (local_filename, w1) = generate_local_file_name mw 256 w;
          tmp_path = generate_file_path (local_maildir mw) ''tmp/'' local_filename 1000;
          (opened, w2) = fopen_w tmp_path w1 in
      if \<not> opened then Done (CE_COMMON, to, w2)
      else rbind (x_to_header to) (\<lambda>header.
        case mtext txt of None \<Rightarrow> Fault Null_Deref
        | Some t \<Rightarrow>
            let w3 = fwrite tmp_path (header @ take (msize txt) t) w2 in
            rbind (link_loop mw tmp_path local_filename 0 (length to) to w3)
              (\<lambda>(to', w4). Done (CE_SUCCESS, to', remove_file tmp_path (w4\<lparr>mailN := Suc (mailN w4)\<rparr>)))))"


section \<open>Local domains\<close>

lemma take_as_array_eq: "NUL \<notin> set d \<Longrightarrow> take (length d) (as_array s) = d \<longleftrightarrow> take (length d) s = d"
proof (cases "length d \<le> length s")
  case False
  assume "NUL \<notin> set d"
  with False have "take (length d) (as_array s) \<noteq> d"
    by (auto simp: as_array_def)
  moreover have "take (length d) s \<noteq> d" using False by (metis length_take min.absorb_iff2 linorder_linear)
  ultimately show ?thesis by simp
qed (simp add: as_array_def)

lemma is_to_local_Nil [simp]: "is_to_local mw []"
  by (simp add: is_to_local_def memcmp_eq_def)

text \<open>
  For a server domain that does not start like the loopback literal, the domains
  treated as local are exactly the prefixes of the server's domain.
\<close>

theorem is_to_local_iff_prefix:
  assumes "domain mw = c # cs" and "c \<noteq> CHR ''[''" and "NUL \<notin> set d"
  shows "is_to_local mw d \<longleftrightarrow> (\<exists>rest. domain mw = d @ rest)"
proof -
  have a: "memcmp_eq (as_array (domain mw)) d (length d) \<longleftrightarrow> take (length d) (domain mw) = d"
    using take_as_array_eq [OF assms(3)] by (simp add: memcmp_eq_def)
  have b: "d \<noteq> [] \<Longrightarrow> \<not> memcmp_eq (as_array (domain mw)) (as_array ''[127.0.0.1]'') (length d)"
    using assms(1,2) by (cases d) (auto simp: memcmp_eq_def as_array_def)
  have c: "take (length d) (domain mw) = d \<longleftrightarrow> (\<exists>rest. domain mw = d @ rest)"
    by (metis append_eq_conv_conj append_take_drop_id)
  show ?thesis
  proof (cases "d = []")
    case False
    with a b c show ?thesis by (simp add: is_to_local_def)
  qed simp
qed

definition mw_example :: mail_writer_t where
  "mw_example = \<lparr>domain = ''mysmtp.ru'', local_maildir = ''/m/'', client_maildir = ''/q/'', pid = 7, tid = 5,
     hostname = ''h''\<rparr>"

theorem is_to_local_iff_prefix_witness:
  "is_to_local mw_example ''mysmtp'' \<longleftrightarrow> (\<exists>rest. domain mw_example = ''mysmtp'' @ rest)"
  by (rule is_to_local_iff_prefix [where c = "CHR ''m''" and cs = "''ysmtp.ru''"]) (simp_all add: mw_example_def)

section \<open>One link per remote domain\<close>

definition cstr_ok :: "msg_t \<Rightarrow> bool" where
  "cstr_ok m \<longleftrightarrow> msg_wf m \<and> msg_c_str m = Done (content m)"

definition rcv_ok :: "receiver_t \<Rightarrow> bool" where
  "rcv_ok r \<longleftrightarrow> cstr_ok (local_part r) \<and> cstr_ok (rdomain r)"

abbreviation dom_of :: "receiver_t \<Rightarrow> string" where
  "dom_of r \<equiv> content (rdomain r)"

definition clear_domain :: "receiver_t \<Rightarrow> receiver_t" where
  "clear_domain r = r\<lparr>rdomain := (rdomain r)\<lparr>mtext := Some (replicate (max_size (rdomain r)) NUL), msize := 0\<rparr>\<rparr>"

lemma dom_of_clear [simp]: "dom_of (clear_domain r) = []"
  by (simp add: clear_domain_def content_def)

lemma clear_domain_msize [simp]: "msize (rdomain (clear_domain r)) = 0"
  by (simp add: clear_domain_def)

lemma rcv_okD: "rcv_ok r \<Longrightarrow> msg_wf (rdomain r) \<and> msg_c_str (rdomain r) = Done (dom_of r) \<and> length (dom_of r) = msize (rdomain r)"
  by (simp add: rcv_ok_def cstr_ok_def)

lemma rcv_ok_msize: "rcv_ok r \<Longrightarrow> msize (rdomain r) = 0 \<longleftrightarrow> dom_of r = []"
  by (metis rcv_okD length_0_conv)

lemma rcv_ok_clear: "rcv_ok r \<Longrightarrow> dom_of r \<noteq> [] \<Longrightarrow> rcv_ok (clear_domain r)"
  unfolding rcv_ok_def cstr_ok_def
  by (auto simp: clear_domain_def msg_wf_def msg_c_str_def read_c_str_def content_def)

lemma same_remote_domain_ok:
  assumes "rcv_ok ri" "rcv_ok rj"
  shows "same_remote_domain mw ri rj = Done (\<not> is_to_local mw (dom_of ri) \<and> dom_of rj = dom_of ri)"
proof -
  from rcv_okD [OF assms(1)] obtain ti where ti: "mtext (rdomain ri) = Some ti"
    and ci: "dom_of ri = take (msize (rdomain ri)) ti"
    and ri: "msg_c_str (rdomain ri) = Done (dom_of ri)" "length (dom_of ri) = msize (rdomain ri)"
    by (auto elim: msg_wfE)
  from rcv_okD [OF assms(2)] obtain tj where tj: "mtext (rdomain rj) = Some tj"
    and cj: "dom_of rj = take (msize (rdomain rj)) tj" and lj: "length (dom_of rj) = msize (rdomain rj)"
    by (auto elim: msg_wfE)
  show ?thesis
    using ti tj ri lj unfolding same_remote_domain_def memcmp_eq_def
    by (auto simp: ci [symmetric] cj [symmetric]) (metis ci cj)+
qed

lemma dedup_loop_ok:
  assumes "\<forall>r \<in> set to. rcv_ok r" "i < j" "j \<le> length to" "dom_of (to ! i) = d" "d \<noteq> []"
  shows "dedup_loop mw i j (length to) to =
    Done (map (\<lambda>k. if j \<le> k \<and> \<not> is_to_local mw d \<and> dom_of (to ! k) = d then clear_domain (to ! k) else to ! k)
            [0..<length to])"
  using assms
proof (induction "length to - j" arbitrary: j to)
  case 0
  then have "j = length to" by simp
  then show ?case
    by (subst dedup_loop.simps) (auto intro!: nth_equalityI)
next
  case (Suc n)
  then have j: "j < length to" by simp
  have ok: "rcv_ok (to ! i)" "rcv_ok (to ! j)" using Suc.prems j by auto
  let ?same = "\<not> is_to_local mw d \<and> dom_of (to ! j) = d"
  show ?case
  proof (cases ?same)
    case True
    have cl: "msg_clean (rdomain (to ! j)) = Done (rdomain (clear_domain (to ! j)))"
      using rcv_okD [OF ok(2)] msg_clean_ok by (auto simp: clear_domain_def)
    let ?to = "to[j := clear_domain (to ! j)]"
    have "(to ! j)\<lparr>rdomain := rdomain (clear_domain (to ! j))\<rparr> = clear_domain (to ! j)"
      by (simp add: clear_domain_def)
    then have step: "dedup_loop mw i j (length to) to = dedup_loop mw i (Suc j) (length ?to) ?to"
      using j True cl same_remote_domain_ok [OF ok, of mw] Suc.prems(4) by (subst dedup_loop.simps) simp
    have "\<forall>r \<in> set ?to. rcv_ok r"
      using Suc.prems ok True by (auto dest!: set_update_subset_insert [THEN subsetD] intro: rcv_ok_clear)
    then have "dedup_loop mw i (Suc j) (length ?to) ?to = Done (map (\<lambda>k. if Suc j \<le> k \<and>
        \<not> is_to_local mw d \<and> dom_of (?to ! k) = d then clear_domain (?to ! k) else ?to ! k) [0..<length ?to])"
      using Suc.hyps(2) Suc.prems(2-5) j by (intro Suc.hyps(1)) auto
    also have "\<dots> = Done (map (\<lambda>k. if j \<le> k \<and> \<not> is_to_local mw d \<and> dom_of (to ! k) = d
        then clear_domain (to ! k) else to ! k) [0..<length to])"
      using True Suc.prems(5) j by (auto intro!: map_cong simp: nth_list_update)
    finally show ?thesis using step by simp
  next
    case False
    then have step: "dedup_loop mw i j (length to) to = dedup_loop mw i (Suc j) (length to) to"
      using j same_remote_domain_ok [OF ok, of mw] Suc.prems(4) by (subst dedup_loop.simps) auto
    have "dedup_loop mw i (Suc j) (length to) to = Done (map (\<lambda>k. if Suc j \<le> k \<and>
        \<not> is_to_local mw d \<and> dom_of (to ! k) = d then clear_domain (to ! k) else to ! k) [0..<length to])"
      using Suc.hyps(2) Suc.prems j by (intro Suc.hyps(1)) auto
    also have "\<dots> = Done (map (\<lambda>k. if j \<le> k \<and> \<not> is_to_local mw d \<and> dom_of (to ! k) = d
        then clear_domain (to ! k) else to ! k) [0..<length to])"
      using False by (auto intro!: map_cong dest: le_neq_implies_less)
    finally show ?thesis using step by simp
  qed
qed


text \<open>
  The recipients that get a link of their own: those with a domain that is local, or
  remote and not the domain of an earlier recipient.
\<close>

definition is_target :: "mail_writer_t \<Rightarrow> receiver_t list \<Rightarrow> nat \<Rightarrow> bool" where
  "is_target mw to k \<longleftrightarrow> dom_of (to ! k) \<noteq> [] \<and>
     (is_to_local mw (dom_of (to ! k)) \<or> dom_of (to ! k) \<notin> dom_of ` set (take k to))"

definition link_targets :: "mail_writer_t \<Rightarrow> receiver_t list \<Rightarrow> receiver_t list" where
  "link_targets mw to = map (nth to) (filter (is_target mw to) [0..<length to])"

fun link_all :: "mail_writer_t \<Rightarrow> string \<Rightarrow> string \<Rightarrow> receiver_t list \<Rightarrow> world \<Rightarrow> world run" where
  "link_all mw tmp lf [] w = Done w"
| "link_all mw tmp lf (r # rs) w = rbind (create_link_to_file mw tmp lf r w) (link_all mw tmp lf rs)"

text \<open>The array when the loop has reached index \<open>i\<close>.\<close>

definition served :: "mail_writer_t \<Rightarrow> receiver_t list \<Rightarrow> nat \<Rightarrow> nat \<Rightarrow> bool" where
  "served mw to i k \<longleftrightarrow> \<not> is_to_local mw (dom_of (to ! k)) \<and> dom_of (to ! k) \<in> dom_of ` set (take (min i k) to)"

definition served_upto :: "mail_writer_t \<Rightarrow> receiver_t list \<Rightarrow> nat \<Rightarrow> receiver_t list" where
  "served_upto mw to i = map (\<lambda>k. if served mw to i k then clear_domain (to ! k) else to ! k) [0..<length to]"

lemma length_served_upto [simp]: "length (served_upto mw to i) = length to"
  by (simp add: served_upto_def)

lemma served_upto_0 [simp]: "served_upto mw to 0 = to"
  by (auto simp: served_upto_def served_def intro: nth_equalityI)

lemma nth_served_upto: "k < length to \<Longrightarrow>
    served_upto mw to i ! k = (if served mw to i k then clear_domain (to ! k) else to ! k)"
  by (simp add: served_upto_def)

lemma not_local_not_Nil: "\<not> is_to_local mw d \<Longrightarrow> d \<noteq> []"
  by auto

lemma served_upto_ok: "\<forall>r \<in> set to. rcv_ok r \<Longrightarrow> r \<in> set (served_upto mw to i) \<Longrightarrow> rcv_ok r"
  by (auto simp: served_upto_def served_def intro!: rcv_ok_clear dest: not_local_not_Nil)

lemma take_Suc_doms: "i < length to \<Longrightarrow>
    dom_of ` set (take (Suc i) to) = insert (dom_of (to ! i)) (dom_of ` set (take i to))"
  by (simp add: take_Suc_conv_app_nth)

lemma served_Suc:
  assumes "i < length to"
  shows "served mw to (Suc i) k \<longleftrightarrow> served mw to i k \<or>
    (i < k \<and> \<not> is_to_local mw (dom_of (to ! k)) \<and> dom_of (to ! k) = dom_of (to ! i))"
proof (cases "i < k")
  case True
  then have "min (Suc i) k = Suc i" "min i k = i" by auto
  with True assms show ?thesis by (auto simp: served_def take_Suc_doms)
next
  case False
  then have "min (Suc i) k = k" "min i k = k" by auto
  with False show ?thesis by (auto simp: served_def)
qed

lemma served_upto_skip:
  assumes i: "i < length to" and d: "dom_of (to ! i) = [] \<or> served mw to i i"
  shows "served_upto mw to (Suc i) = served_upto mw to i"
proof -
  have "served mw to (Suc i) k = served mw to i k" if "k < length to" for k
  proof (cases "i < k")
    case True
    with d show ?thesis by (auto simp: served_Suc [OF i]) (auto simp: served_def)
  qed (simp add: served_Suc [OF i])
  then show ?thesis by (simp add: served_upto_def)
qed

lemma served_upto_dedup:
  assumes ok: "\<forall>r \<in> set to. rcv_ok r" and i: "i < length to"
    and d: "dom_of (to ! i) \<noteq> []" and ns: "\<not> served mw to i i"
  shows "dedup_loop mw i (Suc i) (length to) (served_upto mw to i) = Done (served_upto mw to (Suc i))"
proof -
  let ?st = "served_upto mw to i" and ?d = "dom_of (to ! i)"
  have di: "dom_of (?st ! i) = ?d" using i ns by (simp add: nth_served_upto)
  have "dedup_loop mw i (Suc i) (length ?st) ?st =
    Done (map (\<lambda>k. if Suc i \<le> k \<and> \<not> is_to_local mw ?d \<and> dom_of (?st ! k) = ?d
            then clear_domain (?st ! k) else ?st ! k) [0..<length ?st])"
    using served_upto_ok [OF ok] i d di by (intro dedup_loop_ok) auto
  also have "\<dots> = Done (served_upto mw to (Suc i))"
    using i d ns by (auto simp: served_upto_def served_Suc [OF i] intro!: map_cong)
  finally show ?thesis by simp
qed

lemma link_loop_spec:
  assumes ok: "\<forall>r \<in> set to. rcv_ok r" and "i \<le> length to"
  shows "link_loop mw tmp lf i (length to) (served_upto mw to i) w =
    rbind (link_all mw tmp lf (map (nth to) (filter (is_target mw to) [i..<length to])) w)
      (\<lambda>w'. Done (served_upto mw to (length to), w'))"
  using assms(2)
proof (induction "length to - i" arbitrary: i w)
  case 0
  then have "i = length to" by simp
  then show ?case by (subst link_loop.simps) simp
next
  case (Suc n)
  then have i: "i < length to" by simp
  let ?st = "served_upto mw to i"
  have upt: "[i..<length to] = i # [Suc i..<length to]" using i by (simp add: upt_rec)
  have IH: "link_loop mw tmp lf (Suc i) (length to) (served_upto mw to (Suc i)) w' =
    rbind (link_all mw tmp lf (map (nth to) (filter (is_target mw to) [Suc i..<length to])) w')
      (\<lambda>w''. Done (served_upto mw to (length to), w''))" for w'
    using Suc.hyps(2) i by (intro Suc.hyps(1)) auto
  have ri: "rcv_ok (to ! i)" using ok i by simp
  show ?case
  proof (cases "is_target mw to i")
    case True
    then have d: "dom_of (to ! i) \<noteq> []" and ns: "\<not> served mw to i i"
      by (auto simp: is_target_def served_def)
    then have "?st ! i = to ! i" "msize (rdomain (?st ! i)) \<noteq> 0"
      using i rcv_ok_msize [OF ri] by (auto simp: nth_served_upto)
    then have "link_loop mw tmp lf i (length to) ?st w =
      rbind (create_link_to_file mw tmp lf (to ! i) w)
        (\<lambda>w'. link_loop mw tmp lf (Suc i) (length to) (served_upto mw to (Suc i)) w')"
      using i served_upto_dedup [OF ok i d ns] by (subst link_loop.simps) simp
    then show ?thesis using True by (simp add: upt IH rbind_assoc)
  next
    case False
    then have d: "dom_of (to ! i) = [] \<or> served mw to i i"
      by (auto simp: is_target_def served_def)
    then have "msize (rdomain (?st ! i)) = 0"
      using i rcv_ok_msize [OF ri] by (auto simp: nth_served_upto)
    then have "link_loop mw tmp lf i (length to) ?st w = link_loop mw tmp lf (Suc i) (length to) ?st w"
      using i by (subst link_loop.simps) simp
    then show ?thesis using False by (simp add: upt IH served_upto_skip [OF i d, symmetric])
  qed
qed

lemma link_loop_targets:
  "\<forall>r \<in> set to. rcv_ok r \<Longrightarrow> link_loop mw tmp lf 0 (length to) to w =
    rbind (link_all mw tmp lf (link_targets mw to) w) (\<lambda>w'. Done (served_upto mw to (length to), w'))"
  using link_loop_spec [of to 0 mw tmp lf w] by (simp add: link_targets_def)

text \<open>Each remote domain occurs among the targets exactly once.\<close>

lemma link_targets_remote_distinct:
  "distinct (map dom_of (filter (\<lambda>r. \<not> is_to_local mw (dom_of r)) (link_targets mw to)))"
proof -
  have "distinct (map (\<lambda>k. dom_of (to ! k))
      (filter (\<lambda>k. is_target mw to k \<and> \<not> is_to_local mw (dom_of (to ! k))) [0..<length to]))"
  proof (subst distinct_map, intro conjI inj_onI)
    fix a b
    assume a: "a \<in> set (filter (\<lambda>k. is_target mw to k \<and> \<not> is_to_local mw (dom_of (to ! k))) [0..<length to])"
      and b: "b \<in> set (filter (\<lambda>k. is_target mw to k \<and> \<not> is_to_local mw (dom_of (to ! k))) [0..<length to])"
      and eq: "dom_of (to ! a) = dom_of (to ! b)"
    have "\<not> x < y" if "x < length to" "y < length to" "dom_of (to ! x) = dom_of (to ! y)"
      "dom_of (to ! y) \<notin> dom_of ` set (take y to)" for x y
      using that by (metis image_eqI in_set_conv_nth length_take min_less_iff_conj nth_take)
    with a b eq show "a = b"
      by (auto simp: is_target_def) (metis linorder_neqE_nat)
  qed simp
  then show ?thesis by (simp add: link_targets_def filter_map comp_def conj_commute)
qed

lemma link_targets_remote_cover:
  assumes "r \<in> set to" "\<not> is_to_local mw (dom_of r)"
  shows "dom_of r \<in> dom_of ` set (link_targets mw to)"
proof -
  let ?P = "\<lambda>k. k < length to \<and> dom_of (to ! k) = dom_of r"
  obtain k where k: "?P k" using assms(1) by (metis in_set_conv_nth)
  define m where "m = (LEAST k. ?P k)"
  have m: "?P m" unfolding m_def using k by (rule LeastI)
  have "dom_of (to ! m) \<notin> dom_of ` set (take m to)"
  proof
    assume "dom_of (to ! m) \<in> dom_of ` set (take m to)"
    then obtain j where "j < m" "j < length to" "dom_of (to ! j) = dom_of (to ! m)"
      by (auto simp: in_set_conv_nth)
    with m have "?P j" by simp
    with \<open>j < m\<close> show False unfolding m_def using not_less_Least by blast
  qed
  with m assms(2) have "is_target mw to m" by (auto simp: is_target_def dest: not_local_not_Nil)
  with m have "to ! m \<in> set (link_targets mw to)" by (simp add: link_targets_def)
  then show ?thesis using m by (metis image_eqI)
qed


section \<open>The header line\<close>

definition x_to_text :: "string \<Rightarrow> receiver_t \<Rightarrow> string" where
  "x_to_text end_mark r = snprintf 200
     (case domain_type r of
        DOMAIN_TYPE_IPV4 \<Rightarrow> '' <'' @ content (local_part r) @ ''@['' @ dom_of r @ '']>'' @ end_mark
      | DOMAIN_TYPE_IPV6 \<Rightarrow> '' <'' @ content (local_part r) @ ''@[IPv6'' @ dom_of r @ '']>'' @ end_mark
      | DOMAIN_TYPE_HOST \<Rightarrow> '' <'' @ content (local_part r) @ ''@'' @ dom_of r @ ''>'' @ end_mark)"

lemma x_to_entry_ok: "rcv_ok r \<Longrightarrow> x_to_entry e r = Done (x_to_text e r)"
  by (simp add: x_to_entry_def x_to_text_def rcv_ok_def cstr_ok_def)

lemma size_pred_Suc: "Suc n < 2 ^ 64 \<Longrightarrow> size_pred (Suc n) = n"
  by (simp add: size_pred_def)

lemma size_pred_0 [simp]: "size_pred 0 = 2 ^ 64 - 1"
  by (simp add: size_pred_def)

lemma x_to_loop_ok:
  "\<forall>r \<in> set to. rcv_ok r \<Longrightarrow> i \<le> bound \<Longrightarrow> bound \<le> length to \<Longrightarrow>
     x_to_loop to i bound = Done (concat (map (x_to_text '','') (take (bound - i) (drop i to))))"
proof (induction to i bound rule: x_to_loop.induct)
  case (1 to i bound)
  show ?case
  proof (cases "i < bound")
    case True
    with "1.prems" have i: "i < length to" by simp
    with "1.prems" have e: "x_to_entry '','' (to ! i) = Done (x_to_text '','' (to ! i))"
      by (simp add: x_to_entry_ok)
    have "take (bound - i) (drop i to) = to ! i # take (bound - Suc i) (drop (Suc i) to)"
      using True i by (simp add: Cons_nth_drop_Suc [symmetric] take_Cons' Suc_diff_Suc)
    with "1.IH" [OF True i e] "1.prems" True i e show ?thesis
      by (subst x_to_loop.simps) simp
  next
    case False
    then show ?thesis by (subst x_to_loop.simps) simp
  qed
qed

lemma x_to_header_ok:
  assumes "\<forall>r \<in> set to. rcv_ok r" "to \<noteq> []" "length to < 2 ^ 64"
  shows "x_to_header to = Done (''X-mysmtp-to:'' @ concat (map (x_to_text '','') (butlast to))
           @ x_to_text CRLF (last to))"
proof -
  from assms(2,3) have p: "size_pred (length to) = length to - 1"
    using size_pred_Suc [of "length to - 1"] by (cases to) auto
  have "x_to_loop to 0 (length to - 1) = Done (concat (map (x_to_text '','') (butlast to)))"
    using x_to_loop_ok [OF assms(1), of 0 "length to - 1"] by (simp add: butlast_conv_take)
  moreover have "x_to_entry CRLF (last to) = Done (x_to_text CRLF (last to))"
    using assms(1,2) by (simp add: x_to_entry_ok)
  ultimately show ?thesis
    using assms(2) by (simp add: x_to_header_def p last_conv_nth)
qed

section \<open>Delivery\<close>

definition tmp_path_of :: "mail_writer_t \<Rightarrow> nat \<Rightarrow> nat \<Rightarrow> string \<times> string" where
  "tmp_path_of mw t n =
     (let lf = snprintf 256 (show_nat t @ ''.P'' @ show_nat (pid mw) @ ''T'' @ show_nat (tid mw) @ ''N''
                 @ show_nat n @ ''.'' @ hostname mw)
      in (lf, generate_file_path (local_maildir mw) ''tmp/'' lf 1000))"

definition delivery_path :: "mail_writer_t \<Rightarrow> nat \<Rightarrow> nat \<Rightarrow> receiver_t \<Rightarrow> string" where
  "delivery_path mw t n r =
     (if is_to_local mw (dom_of r)
      then generate_file_path (local_maildir mw) []
             (snprintf 256 (content (local_part r) @ ''/new/'' @ fst (tmp_path_of mw t n))) 1000
      else generate_file_path (client_maildir mw) []
             (snprintf 256 (dom_of r @ ''.'' @ show_nat (domain_type_no (domain_type r)) @ ''.T''
                @ show_nat (tid mw) @ ''N'' @ show_nat n @ ''M'' @ show_nat t)) 1000)"

lemma time_now_const: "clock w = [t] \<Longrightarrow> time_now w = (t, w)"
  by (simp add: time_now_def)

lemma create_link_ok:
  assumes "rcv_ok r" "clock w = [t]" "mailN w = n"
  shows "create_link_to_file mw tmp (fst (tmp_path_of mw t n)) r w = Done (link_file tmp (delivery_path mw t n r) w)"
  using assms by (auto simp: create_link_to_file_def delivery_path_def generate_for_client_file_name_def
      rcv_ok_def cstr_ok_def time_now_const)

lemma link_file_frame [simp]:
  "clock (link_file a b w) = clock w" "mailN (link_file a b w) = mailN w"
  "creatable (link_file a b w) = creatable w"
  by (auto simp: link_file_def split: option.splits)

lemma link_file_files:
  assumes "files w tmp = Some mail" "creatable w p" "files w p \<in> {None, Some mail}"
  shows "files (link_file tmp p w) = (files w)(p \<mapsto> mail)"
  using assms by (auto simp: link_file_def split: option.splits)

lemma link_all_ok:
  assumes "\<forall>r \<in> set rs. rcv_ok r" "clock w = [t]" "mailN w = n" "files w tmp = Some mail"
    and "\<forall>r \<in> set rs. creatable w (delivery_path mw t n r)"
    and "\<forall>r \<in> set rs. files w (delivery_path mw t n r) \<in> {None, Some mail}"
  shows "\<exists>w'. link_all mw tmp (fst (tmp_path_of mw t n)) rs w = Done w' \<and> mailN w' = n \<and>
    (\<forall>r \<in> set rs. files w' (delivery_path mw t n r) = Some mail) \<and>
    (\<forall>p. files w p = Some mail \<longrightarrow> files w' p = Some mail)"
  using assms
proof (induction rs arbitrary: w)
  case (Cons r rs)
  let ?p = "delivery_path mw t n r" and ?w = "link_file tmp (delivery_path mw t n r) w"
  have f: "files ?w = (files w)(?p \<mapsto> mail)" using Cons.prems by (intro link_file_files) auto
  obtain w' where w': "link_all mw tmp (fst (tmp_path_of mw t n)) rs ?w = Done w'" "mailN w' = n"
    "\<forall>r \<in> set rs. files w' (delivery_path mw t n r) = Some mail"
    "\<forall>p. files ?w p = Some mail \<longrightarrow> files w' p = Some mail"
  proof -
    have "\<exists>w'. link_all mw tmp (fst (tmp_path_of mw t n)) rs ?w = Done w' \<and> mailN w' = n \<and>
      (\<forall>r \<in> set rs. files w' (delivery_path mw t n r) = Some mail) \<and>
      (\<forall>p. files ?w p = Some mail \<longrightarrow> files w' p = Some mail)"
      using Cons.prems by (intro Cons.IH) (auto simp: f)
    with that show thesis by blast
  qed
  have "create_link_to_file mw tmp (fst (tmp_path_of mw t n)) r w = Done ?w"
    using Cons.prems by (intro create_link_ok) auto
  with w' show ?case by (intro exI [of _ w']) (auto simp: f)
qed simp

lemma write_mail_writes:
  assumes to: "to \<noteq> []" "length to < 2 ^ 64" "\<forall>r \<in> set to. rcv_ok r"
    and body: "msg_wf txt" and clk: "clock w = [t]"
    and tmp: "creatable w (snd (tmp_path_of mw t (mailN w)))"
    and dst: "\<forall>r \<in> set to. creatable w (delivery_path mw t (mailN w) r)
        \<and> files w (delivery_path mw t (mailN w) r) = None
        \<and> delivery_path mw t (mailN w) r \<noteq> snd (tmp_path_of mw t (mailN w))"
  shows "\<exists>w'. write_mail mw to txt w = Done (CE_SUCCESS, served_upto mw to (length to), w')
    \<and> mailN w' = Suc (mailN w) \<and> files w' (snd (tmp_path_of mw t (mailN w))) = None
    \<and> (\<forall>r \<in> set (link_targets mw to). files w' (delivery_path mw t (mailN w) r) =
         Some (''X-mysmtp-to:'' @ concat (map (x_to_text '','') (butlast to)) @ x_to_text CRLF (last to)
                 @ content txt))"
proof -
  define n where "n = mailN w"
  define lf where "lf = fst (tmp_path_of mw t n)"
  define tp where "tp = snd (tmp_path_of mw t n)"
  define header where "header = ''X-mysmtp-to:'' @ concat (map (x_to_text '','') (butlast to))
           @ x_to_text CRLF (last to)"
  obtain tx where tx: "mtext txt = Some tx" "content txt = take (msize txt) tx"
    using body by (auto elim: msg_wfE)
  define mail where "mail = header @ content txt"
  define w3 where "w3 = w\<lparr>files := (files w)(tp \<mapsto> mail)\<rparr>"
  have lfn: "generate_local_file_name mw 256 w = (lf, w)"
    using clk by (simp add: generate_local_file_name_def time_now_const lf_def tmp_path_of_def n_def Let_def)
  have tpn: "generate_file_path (local_maildir mw) ''tmp/'' lf 1000 = tp"
    by (simp add: tp_def lf_def tmp_path_of_def Let_def)
  have w3: "fwrite tp (header @ take (msize txt) tx) (w\<lparr>files := (files w)(tp \<mapsto> [])\<rparr>) = w3"
    by (simp add: fwrite_def w3_def mail_def tx)
  have hdr: "x_to_header to = Done header"
    using x_to_header_ok [OF to(3,1,2)] by (simp add: header_def)
  have tmpc: "creatable w tp" using tmp by (simp add: tp_def n_def)
  have sub: "set (link_targets mw to) \<subseteq> set to" by (auto simp: link_targets_def)
  have dst': "\<forall>r \<in> set (link_targets mw to). creatable w (delivery_path mw t n r)
      \<and> files w (delivery_path mw t n r) = None \<and> delivery_path mw t n r \<noteq> tp"
    using dst sub by (auto simp: n_def tp_def)
  have rs: "\<forall>r \<in> set (link_targets mw to). rcv_ok r" using to(3) sub by blast
  obtain w4 where w4: "link_all mw tp lf (link_targets mw to) w3 = Done w4" "mailN w4 = n"
    "\<forall>r \<in> set (link_targets mw to). files w4 (delivery_path mw t n r) = Some mail"
    using link_all_ok [OF rs, of w3 t n tp mail mw] clk dst' by (auto simp: w3_def n_def lf_def)
  have "write_mail mw to txt w = Done (CE_SUCCESS, served_upto mw to (length to),
      remove_file tp (w4\<lparr>mailN := Suc (mailN w4)\<rparr>))"
    using w4(1) hdr tmpc lfn tpn tx(1) w3
    by (simp add: write_mail_def fopen_w_def Let_def link_loop_targets [OF to(3)])
  with w4 dst' show ?thesis
    by (auto simp: remove_file_def n_def [symmetric] tp_def [symmetric] mail_def header_def)
qed


text \<open>
  C26: a mail with recipients is delivered. Under a clock that does not advance during the
  call and with free, writable names, every recipient that gets a link of its own finds
  at its path the header line naming all recipients followed by the mail text; the
  temporary file is gone and the mail counter has advanced.
\<close>

theorem write_mail_delivers:
  assumes to: "to \<noteq> []" "length to < 2 ^ 64" "\<forall>r \<in> set to. rcv_ok r"
    and body: "msg_wf txt" and clk: "clock w = [t]"
    and tmp: "creatable w (snd (tmp_path_of mw t (mailN w)))"
    and dst: "\<forall>r \<in> set to. creatable w (delivery_path mw t (mailN w) r)
        \<and> files w (delivery_path mw t (mailN w) r) = None
        \<and> delivery_path mw t (mailN w) r \<noteq> snd (tmp_path_of mw t (mailN w))"
  shows "\<exists>w'. write_mail mw to txt w = Done (CE_SUCCESS, served_upto mw to (length to), w')
    \<and> mailN w' = Suc (mailN w) \<and> files w' (snd (tmp_path_of mw t (mailN w))) = None
    \<and> (\<forall>r \<in> set (link_targets mw to). files w' (delivery_path mw t (mailN w) r) =
         Some (''X-mysmtp-to:'' @ concat (map (x_to_text '','') (butlast to)) @ x_to_text CRLF (last to)
                 @ content txt))"
  using assms by (rule write_mail_writes)

definition buffer_with :: "string \<Rightarrow> msg_t" where
  "buffer_with s = \<lparr>mtext = Some (s @ [NUL, NUL]), msize = length s, max_size = length s + 2\<rparr>"

lemma buffer_with_cstr_ok: "NUL \<notin> set s \<Longrightarrow> cstr_ok (buffer_with s)"
  by (simp add: cstr_ok_def buffer_with_def msg_wf_def msg_c_str_def read_c_str_def content_def c_str_append)

lemma content_buffer_with [simp]: "content (buffer_with s) = s"
  by (simp add: buffer_with_def content_def)

definition rcpt_example :: "receiver_t list" where
  "rcpt_example = [\<lparr>local_part = buffer_with ''a'', rdomain = buffer_with ''ya.ru'', domain_type = DOMAIN_TYPE_HOST\<rparr>,
                   \<lparr>local_part = buffer_with ''b'', rdomain = buffer_with ''mysmtp.ru'', domain_type = DOMAIN_TYPE_HOST\<rparr>]"

lemma rcpt_example_ok: "\<forall>r \<in> set rcpt_example. rcv_ok r"
  by (simp add: rcpt_example_def rcv_ok_def buffer_with_cstr_ok)

definition world_example :: world where
  "world_example = plenty\<lparr>clock := [9], creatable := (\<lambda>_. True)\<rparr>"

lemma rcpt_example_paths:
  "r \<in> set rcpt_example \<Longrightarrow> delivery_path mw_example 9 n r \<noteq> snd (tmp_path_of mw_example 9 n)"
proof -
  have "take 4 (snd (tmp_path_of mw_example 9 n)) = ''/m/t''"
    by (simp add: tmp_path_of_def generate_file_path_def snprintf_def mw_example_def Let_def)
  moreover have "take 4 (delivery_path mw_example 9 n (rcpt_example ! 0)) = ''/q/y''"
    "take 4 (delivery_path mw_example 9 n (rcpt_example ! 1)) = ''/m/b''"
    by (simp_all add: delivery_path_def generate_file_path_def snprintf_def mw_example_def rcpt_example_def
        is_to_local_def memcmp_eq_def as_array_def)
  moreover assume "r \<in> set rcpt_example"
  ultimately show ?thesis by (auto simp: rcpt_example_def)
qed

theorem write_mail_delivers_witness:
  "\<exists>w'. write_mail mw_example rcpt_example (buffer_with ''hi'') world_example =
       Done (CE_SUCCESS, served_upto mw_example rcpt_example (length rcpt_example), w')
    \<and> mailN w' = Suc (mailN world_example)
    \<and> files w' (snd (tmp_path_of mw_example 9 (mailN world_example))) = None
    \<and> (\<forall>r \<in> set (link_targets mw_example rcpt_example).
         files w' (delivery_path mw_example 9 (mailN world_example) r) =
         Some (''X-mysmtp-to:'' @ concat (map (x_to_text '','') (butlast rcpt_example))
                 @ x_to_text CRLF (last rcpt_example) @ content (buffer_with ''hi'')))"
proof (rule write_mail_delivers)
  show "msg_wf (buffer_with ''hi'')" using buffer_with_cstr_ok [of "''hi''"] by (simp add: cstr_ok_def)
  show "clock world_example = [9]" "creatable world_example (snd (tmp_path_of mw_example 9 (mailN world_example)))"
    by (simp_all add: world_example_def)
  show "\<forall>r \<in> set rcpt_example. creatable world_example (delivery_path mw_example 9 (mailN world_example) r)
      \<and> files world_example (delivery_path mw_example 9 (mailN world_example) r) = None
      \<and> delivery_path mw_example 9 (mailN world_example) r \<noteq> snd (tmp_path_of mw_example 9 (mailN world_example))"
    using rcpt_example_paths by (simp add: world_example_def plenty_def)
qed (use rcpt_example_ok in \<open>simp_all add: rcpt_example_def\<close>)

lemma write_mail_no_rcpt:
  assumes "clock w = [t]" and "creatable w (snd (tmp_path_of mw t (mailN w)))"
  shows "write_mail mw [] txt w = Fault Uninit_Read"
proof -
  have h: "x_to_header [] = Fault Uninit_Read"
    unfolding x_to_header_def by (subst x_to_loop.simps) simp
  have "generate_local_file_name mw 256 w = (fst (tmp_path_of mw t (mailN w)), w)"
    using assms(1) by (simp add: generate_local_file_name_def time_now_const tmp_path_of_def Let_def)
  moreover have "generate_file_path (local_maildir mw) ''tmp/'' (fst (tmp_path_of mw t (mailN w))) 1000
      = snd (tmp_path_of mw t (mailN w))" by (simp add: tmp_path_of_def Let_def)
  ultimately show ?thesis
    using assms(2) h by (simp add: write_mail_def fopen_w_def Let_def)
qed

text \<open>
  For an empty recipient list the unsigned loop bound wraps around and the writer reads
  an array entry that was never initialised.
\<close>

theorem write_mail_empty_faults:
  assumes "clock w = [t]" and "creatable w (snd (tmp_path_of mw t (mailN w)))"
  shows "write_mail mw [] txt w = Fault Uninit_Read"
  by (rule write_mail_no_rcpt [OF assms])

theorem write_mail_empty_faults_witness:
  "write_mail mw_example [] (buffer_with ''hi'') world_example = Fault Uninit_Read"
  by (rule write_mail_empty_faults [where t = 9]) (simp_all add: world_example_def plenty_def)

lemma link_targets_remote_doms:
  "dom_of ` {r \<in> set (link_targets mw to). \<not> is_to_local mw (dom_of r)}
       = dom_of ` {r \<in> set to. \<not> is_to_local mw (dom_of r)}" (is "?L = ?R")
proof (rule equalityI)
  show "?L \<subseteq> ?R" by (rule image_mono) (auto simp: link_targets_def)
  show "?R \<subseteq> ?L"
  proof
    fix d assume "d \<in> ?R"
    then obtain r where r: "r \<in> set to" "\<not> is_to_local mw (dom_of r)" "d = dom_of r" by auto
    from link_targets_remote_cover [OF r(1,2)] obtain r' where
      r': "r' \<in> set (link_targets mw to)" "dom_of r' = dom_of r" by (metis imageE)
    with r show "d \<in> ?L" by (intro image_eqI [of _ _ r']) auto
  qed
qed

text \<open>
  The linking loop, which empties the domains of recipients as it goes, creates one link
  after the other for a fixed list of recipients of the original array; in that list every
  remote domain occurs exactly once and no remote domain is left out. The clock and the
  file system are arbitrary.
\<close>

theorem link_loop_one_link_per_remote_domain:
  assumes "\<forall>r \<in> set to. rcv_ok r"
  shows "link_loop mw tmp lf 0 (length to) to w =
      rbind (link_all mw tmp lf (link_targets mw to) w) (\<lambda>w'. Done (served_upto mw to (length to), w'))
    \<and> distinct (map dom_of (filter (\<lambda>r. \<not> is_to_local mw (dom_of r)) (link_targets mw to)))
    \<and> dom_of ` {r \<in> set (link_targets mw to). \<not> is_to_local mw (dom_of r)}
       = dom_of ` {r \<in> set to. \<not> is_to_local mw (dom_of r)}"
  using link_loop_targets [OF assms] link_targets_remote_distinct link_targets_remote_doms by blast

theorem link_loop_one_link_per_remote_domain_witness:
  "distinct (map dom_of (filter (\<lambda>r. \<not> is_to_local mw_example (dom_of r))
      (link_targets mw_example (rcpt_example @ rcpt_example))))"
proof -
  have "\<forall>r \<in> set (rcpt_example @ rcpt_example). rcv_ok r" using rcpt_example_ok by simp
  from link_loop_one_link_per_remote_domain [OF this, of mw_example] show ?thesis by blast
qed

section \<open>Writing never faults on readable recipients\<close>

text \<open>
  The weakest condition under which every access of \<open>write_mail\<close> is inside its block: there
  is a recipient, and the texts of all recipients are terminated inside their buffers. A
  buffer of exactly 50 bytes is not.
\<close>

definition readable :: "msg_t \<Rightarrow> bool" where
  "readable m \<longleftrightarrow> msg_wf m \<and> (\<exists>s. msg_c_str m = Done s)"

definition rcv_readable :: "receiver_t \<Rightarrow> bool" where
  "rcv_readable r \<longleftrightarrow> readable (local_part r) \<and> readable (rdomain r)"

lemma readable_clean:
  assumes "readable m"
  obtains m' where "msg_clean m = Done m'" "readable m'"
proof -
  from assms obtain t where "mtext m = Some t" "length t = max_size m" "NUL \<in> set t"
    by (auto simp: readable_def msg_wf_def msg_c_str_def read_c_str_def split: if_splits)
  moreover from this have "0 < max_size m" by (cases t) auto
  ultimately show thesis
    by (intro that [of "m\<lparr>mtext := Some (replicate (max_size m) NUL), msize := 0\<rparr>"])
      (auto simp: readable_def msg_clean_def msg_wf_def msg_c_str_def read_c_str_def)
qed

lemma x_to_entry_readable: "rcv_readable r \<Longrightarrow> \<exists>s. x_to_entry e r = Done s"
  by (auto simp: rcv_readable_def readable_def x_to_entry_def)

lemma x_to_loop_readable:
  "\<forall>r \<in> set to. rcv_readable r \<Longrightarrow> bound \<le> length to \<Longrightarrow> \<exists>s. x_to_loop to i bound = Done s"
proof (induction to i bound rule: x_to_loop.induct)
  case (1 to i bound)
  show ?case
  proof (cases "i < bound")
    case True
    with "1.prems" have i: "i < length to" by simp
    with "1.prems" obtain s where s: "x_to_entry '','' (to ! i) = Done s" using x_to_entry_readable by (metis nth_mem)
    from "1.IH" [OF True i s] "1.prems" obtain s' where "x_to_loop to (Suc i) bound = Done s'" by blast
    with True i s show ?thesis by (subst x_to_loop.simps) simp
  qed (subst x_to_loop.simps, simp)
qed

lemma x_to_header_readable:
  assumes "\<forall>r \<in> set to. rcv_readable r" "to \<noteq> []" "length to < 2 ^ 64"
  shows "\<exists>s. x_to_header to = Done s"
proof -
  from assms(2,3) have p: "size_pred (length to) = length to - 1"
    using size_pred_Suc [of "length to - 1"] by (cases to) auto
  have "to ! (length to - 1) \<in> set to" using assms(2) by simp
  then obtain s where "x_to_entry CRLF (to ! (length to - 1)) = Done s" using assms(1) x_to_entry_readable by blast
  moreover obtain s' where "x_to_loop to 0 (length to - 1) = Done s'"
    using x_to_loop_readable [OF assms(1), of "length to - 1" 0] by auto
  ultimately show ?thesis using assms(2) by (simp add: x_to_header_def p)
qed

lemma create_link_readable: "rcv_readable r \<Longrightarrow> \<exists>w'. create_link_to_file mw tp lf r w = Done w'"
  by (auto simp: rcv_readable_def readable_def create_link_to_file_def generate_for_client_file_name_def Let_def
      split: prod.splits)

lemma same_remote_domain_readable:
  "rcv_readable ri \<Longrightarrow> rcv_readable rj \<Longrightarrow> \<exists>b. same_remote_domain mw ri rj = Done b"
  by (auto simp: rcv_readable_def readable_def same_remote_domain_def msg_wf_def)

lemma dedup_loop_readable:
  "\<forall>r \<in> set to. rcv_readable r \<Longrightarrow> i < n \<Longrightarrow> n = length to \<Longrightarrow>
     \<exists>to'. dedup_loop mw i j n to = Done to' \<and> length to' = n \<and> (\<forall>r \<in> set to'. rcv_readable r)"
proof (induction mw i j n to rule: dedup_loop.induct)
  case (1 mw i j n to)
  show ?case
  proof (cases "j < n")
    case True
    have r: "rcv_readable (to ! i)" "rcv_readable (to ! j)" using "1.prems" True by auto
    then obtain b where b: "same_remote_domain mw (to ! i) (to ! j) = Done b"
      using same_remote_domain_readable by blast
    show ?thesis
    proof (cases b)
      case t: True
      from r(2) obtain m where m: "msg_clean (rdomain (to ! j)) = Done m" "readable m"
        unfolding rcv_readable_def by (blast elim: readable_clean)
      let ?to = "to[j := (to ! j)\<lparr>rdomain := m\<rparr>]"
      have "\<forall>r \<in> set ?to. rcv_readable r"
        using "1.prems"(1) r(2) m(2) set_update_subset_insert [of to j]
        by (fastforce simp: rcv_readable_def)
      with "1.IH"(1) [OF True b t m(1)] "1.prems" show ?thesis
        using True b t m(1) by (subst dedup_loop.simps) simp
    next
      case f: False
      with "1.IH"(2) [OF True b] "1.prems" b True show ?thesis by (subst dedup_loop.simps) simp
    qed
  qed (use "1.prems" in \<open>subst dedup_loop.simps, simp\<close>)
qed

lemma link_loop_readable:
  "\<forall>r \<in> set to. rcv_readable r \<Longrightarrow> n = length to \<Longrightarrow>
     \<exists>to' w'. link_loop mw tp lf i n to w = Done (to', w') \<and> (\<forall>r \<in> set to'. rcv_readable r)"
proof (induction mw tp lf i n to w rule: link_loop.induct)
  case (1 mw tp lf i n to w)
  show ?case
  proof (cases "i < n")
    case True
    show ?thesis
    proof (cases "msize (rdomain (to ! i)) = 0")
      case z: True
      with "1.IH"(1) [OF True z] "1.prems" True show ?thesis by (subst link_loop.simps) simp
    next
      case nz: False
      from "1.prems" True obtain w1 where w1: "create_link_to_file mw tp lf (to ! i) w = Done w1"
        using create_link_readable by (metis nth_mem)
      from dedup_loop_readable [OF "1.prems"(1) True "1.prems"(2), of mw "Suc i"] obtain to1
        where to1: "dedup_loop mw i (Suc i) n to = Done to1" "length to1 = n" "\<forall>r \<in> set to1. rcv_readable r" by blast
      from "1.IH"(2) [OF True nz w1 to1(1)] to1 True nz w1 show ?thesis by (subst link_loop.simps) simp
    qed
  qed (use "1.prems" in \<open>subst link_loop.simps, simp\<close>)
qed

lemma write_mail_total:
  assumes "to \<noteq> []" "length to < 2 ^ 64" "\<forall>r \<in> set to. rcv_readable r" "msg_wf txt"
  shows "\<exists>e to' w'. write_mail mw to txt w = Done (e, to', w') \<and> (\<forall>r \<in> set to'. rcv_readable r)"
proof -
  obtain h where h: "x_to_header to = Done h" using x_to_header_readable assms by blast
  obtain t where t: "mtext txt = Some t" using assms(4) by (auto elim: msg_wfE)
  obtain lf w1 where lf: "generate_local_file_name mw 256 w = (lf, w1)" by force
  define tp where "tp = generate_file_path (local_maildir mw) ''tmp/'' lf 1000"
  obtain op w2 where op: "fopen_w tp w1 = (op, w2)" by force
  from link_loop_readable [OF assms(3) refl, of mw tp lf 0 "fwrite tp (h @ take (msize txt) t) w2"]
  obtain to' w' where "link_loop mw tp lf 0 (length to) to (fwrite tp (h @ take (msize txt) t) w2) = Done (to', w')"
    "\<forall>r \<in> set to'. rcv_readable r" by blast
  with h t lf op assms(3) show ?thesis by (cases op) (simp_all add: write_mail_def tp_def [symmetric] Let_def)
qed

end
