(* ===== verification/Server_Smtp_Cmd.thy ===== *)
theory Server_Smtp_Cmd
  imports Server_Base
begin

text \<open>
  Command recognition, \<^verbatim>\<open>server/src/smtp_cmd.c\<close>, with the regular expressions of
  \<^verbatim>\<open>re_definitions.h\<close>. The PCRE library is a parameter of the model (\<open>pcre_lib\<close>): its
  matcher, given a pattern and a subject, and its substring extraction. What is proved of
  the patterns themselves is that the group numbers of \<^verbatim>\<open>smtp_cmd.h\<close> select the groups
  they are named after.
\<close>

section \<open>The regular expressions\<close>

abbreviation BS :: char where "BS \<equiv> CHR 0x5C"
abbreviation DQ :: char where "DQ \<equiv> CHR 0x22"

definition RE_CRLF :: string where
  "RE_CRLF = ''( ?'' @ [BS] @ ''x0D'' @ [BS] @ ''x0A)''"
definition RE_LET_DIG :: string where
  "RE_LET_DIG = ''[a-zA-Z0-9]''"
definition RE_LDH_STR :: string where
  "RE_LDH_STR = ''([a-zA-Z0-9'' @ [BS] @ ''-]*'' @ RE_LET_DIG @ '')''"
definition RE_SUB_DOMAIN :: string where
  "RE_SUB_DOMAIN = ''('' @ RE_LET_DIG @ RE_LDH_STR @ ''?)''"
definition RE_DOMAIN :: string where
  "RE_DOMAIN = ''('' @ RE_SUB_DOMAIN @ ''('' @ [BS] @ ''.'' @ RE_SUB_DOMAIN @ '')*)''"
definition RE_0_255 :: string where
  "RE_0_255 = ''((25[0-5])|(2[0-4][1-9])|([01]?[0-9][0-9]?))''"
definition RE_IPV4_ADDRESS_LITERAL :: string where
  "RE_IPV4_ADDRESS_LITERAL = ''('' @ RE_0_255 @ ''(.'' @ RE_0_255 @ ''){3})''"
definition RE_HEXDIGIT :: string where
  "RE_HEXDIGIT = ''[0-9A-Fa-f]''"
definition RE_IPV6_HEX :: string where
  "RE_IPV6_HEX = ''('' @ RE_HEXDIGIT @ ''{1,4})''"
definition RE_IPV6_HEX_WITH_COLON :: string where
  "RE_IPV6_HEX_WITH_COLON = ''(:'' @ RE_IPV6_HEX @ '')''"
definition RE_IPV6_FULL :: string where
  "RE_IPV6_FULL = ''('' @ RE_IPV6_HEX @ RE_IPV6_HEX_WITH_COLON @ ''{7})''"
definition RE_IPV6_COMP0 :: string where
  "RE_IPV6_COMP0 = ''(('' @ RE_IPV6_HEX @ RE_IPV6_HEX_WITH_COLON @ ''{0,5})?::)''"
definition RE_IPV6_COMP1 :: string where
  "RE_IPV6_COMP1 = ''(('' @ RE_IPV6_HEX @ RE_IPV6_HEX_WITH_COLON @ ''{0,4})?::'' @ RE_IPV6_HEX @ '')''"
definition RE_IPV6_COMP2 :: string where
  "RE_IPV6_COMP2 = ''(('' @ RE_IPV6_HEX @ RE_IPV6_HEX_WITH_COLON @ ''{0,3})?::'' @ RE_IPV6_HEX
     @ RE_IPV6_HEX_WITH_COLON @ '')''"
definition RE_IPV6_COMP3 :: string where
  "RE_IPV6_COMP3 = ''(('' @ RE_IPV6_HEX @ RE_IPV6_HEX_WITH_COLON @ ''{0,2})?::'' @ RE_IPV6_HEX
     @ RE_IPV6_HEX_WITH_COLON @ ''{2})''"
definition RE_IPV6_COMP4 :: string where
  "RE_IPV6_COMP4 = ''(('' @ RE_IPV6_HEX @ RE_IPV6_HEX_WITH_COLON @ ''?)?::'' @ RE_IPV6_HEX
     @ RE_IPV6_HEX_WITH_COLON @ ''{3})''"
definition RE_IPV6_COMP5 :: string where
  "RE_IPV6_COMP5 = ''('' @ RE_IPV6_HEX @ ''?::'' @ RE_IPV6_HEX @ RE_IPV6_HEX_WITH_COLON @ ''{4})''"
definition RE_IPV6_COMP6 :: string where
  "RE_IPV6_COMP6 = ''(::'' @ RE_IPV6_HEX @ RE_IPV6_HEX_WITH_COLON @ ''{5})''"
definition RE_IPV6_COMP :: string where
  "RE_IPV6_COMP = ''('' @ RE_IPV6_COMP0 @ ''|'' @ RE_IPV6_COMP1 @ ''|'' @ RE_IPV6_COMP2 @ ''|''
     @ RE_IPV6_COMP3 @ ''|'' @ RE_IPV6_COMP4 @ ''|'' @ RE_IPV6_COMP5 @ ''|'' @ RE_IPV6_COMP6 @ '')''"
definition RE_IPV6V4_FULL :: string where
  "RE_IPV6V4_FULL = ''('' @ RE_IPV6_HEX @ RE_IPV6_HEX_WITH_COLON @ ''{5}:'' @ RE_IPV4_ADDRESS_LITERAL @ '')''"
definition RE_IPV6V4_COMP0 :: string where
  "RE_IPV6V4_COMP0 = ''(('' @ RE_IPV6_HEX @ RE_IPV6_HEX_WITH_COLON @ ''{0,3})?::''
     @ RE_IPV4_ADDRESS_LITERAL @ '')''"
definition RE_IPV6V4_COMP1 :: string where
  "RE_IPV6V4_COMP1 = ''(('' @ RE_IPV6_HEX @ RE_IPV6_HEX_WITH_COLON @ ''{0,2})?::'' @ RE_IPV6_HEX
     @ '':'' @ RE_IPV4_ADDRESS_LITERAL @ '')''"
definition RE_IPV6V4_COMP2 :: string where
  "RE_IPV6V4_COMP2 = ''(('' @ RE_IPV6_HEX @ RE_IPV6_HEX_WITH_COLON @ ''?)?::'' @ RE_IPV6_HEX
     @ RE_IPV6_HEX_WITH_COLON @ '':'' @ RE_IPV4_ADDRESS_LITERAL @ '')''"
definition RE_IPV6V4_COMP3 :: string where
  "RE_IPV6V4_COMP3 = ''('' @ RE_IPV6_HEX @ ''?::'' @ RE_IPV6_HEX @ RE_IPV6_HEX_WITH_COLON @ ''{2}:''
     @ RE_IPV4_ADDRESS_LITERAL @ '')''"
definition RE_IPV6V4_COMP4 :: string where
  "RE_IPV6V4_COMP4 = ''(::'' @ RE_IPV6_HEX @ RE_IPV6_HEX_WITH_COLON @ ''{3}:''
     @ RE_IPV4_ADDRESS_LITERAL @ '')''"
definition RE_IPV6V4_COMP :: string where
  "RE_IPV6V4_COMP = ''('' @ RE_IPV6V4_COMP0 @ ''|'' @ RE_IPV6V4_COMP1 @ ''|'' @ RE_IPV6V4_COMP2 @ ''|''
     @ RE_IPV6V4_COMP3 @ ''|'' @ RE_IPV6V4_COMP4 @ '')''"
definition RE_IPV6_ADDR :: string where
  "RE_IPV6_ADDR = ''('' @ RE_IPV6_FULL @ ''|'' @ RE_IPV6_COMP @ ''|'' @ RE_IPV6V4_FULL @ ''|''
     @ RE_IPV6V4_COMP @ '')''"
definition RE_IPV6_ADDRESS_LITERAL :: string where
  "RE_IPV6_ADDRESS_LITERAL = ''(IPv6:'' @ RE_IPV6_ADDR @ '')''"
definition RE_DCONTENT :: string where
  "RE_DCONTENT = ''(['' @ [BS] @ ''x21-'' @ [BS] @ ''x5A'' @ [BS] @ ''x5E-'' @ [BS] @ ''x7C])''"
definition RE_GENERAL_ADDRESS_LITERAL :: string where
  "RE_GENERAL_ADDRESS_LITERAL = ''('' @ RE_LDH_STR @ '':'' @ RE_DCONTENT @ ''+)''"
definition RE_ADDRES_LITERAL :: string where
  "RE_ADDRES_LITERAL = ''('' @ [BS] @ ''[('' @ RE_IPV4_ADDRESS_LITERAL @ ''|'' @ RE_IPV6_ADDRESS_LITERAL
     @ ''|'' @ RE_GENERAL_ADDRESS_LITERAL @ '')])''"
definition RE_AT_DOMAIN :: string where
  "RE_AT_DOMAIN = ''(@'' @ RE_DOMAIN @ '')''"
definition RE_A_D_L :: string where
  "RE_A_D_L = ''('' @ RE_AT_DOMAIN @ ''(,'' @ RE_AT_DOMAIN @ '')?)''"
definition RE_ATEXT :: string where
  "RE_ATEXT = ''[a-zA-Z0-9!#$%&'' @ [CHR 0x27] @ ''*+-=/?^_`{}|~]''"
definition RE_ATOM :: string where
  "RE_ATOM = ''('' @ RE_ATEXT @ ''+)''"
definition RE_DOT_STRING :: string where
  "RE_DOT_STRING = ''('' @ RE_ATOM @ ''(.'' @ RE_ATOM @ '')*)''"
definition RE_QTEXT_SMTP :: string where
  "RE_QTEXT_SMTP = ''(['' @ [BS] @ ''x20'' @ [BS] @ ''x21]|['' @ [BS] @ ''x23'' @ [BS] @ ''x5b]|[''
     @ [BS] @ ''x5d'' @ [BS] @ ''x7c])''"
definition RE_QUOTED_PAIRSMTP :: string where
  "RE_QUOTED_PAIRSMTP = ''('' @ [BS] @ ''x5c['' @ [BS] @ ''x17-'' @ [BS] @ ''x7c])''"
definition RE_QCONTENTSMTP :: string where
  "RE_QCONTENTSMTP = ''('' @ RE_QTEXT_SMTP @ ''|'' @ RE_QUOTED_PAIRSMTP @ '')''"
definition RE_QUOTED_STRING :: string where
  "RE_QUOTED_STRING = ''('' @ [DQ] @ RE_QCONTENTSMTP @ ''*'' @ [DQ] @ '')''"
definition RE_LOCAL_PART :: string where
  "RE_LOCAL_PART = ''('' @ RE_DOT_STRING @ ''|'' @ RE_QUOTED_STRING @ '')''"
definition RE_MAILBOX :: string where
  "RE_MAILBOX = ''('' @ RE_LOCAL_PART @ ''@('' @ RE_DOMAIN @ ''|'' @ RE_ADDRES_LITERAL @ ''))''"
definition RE_PATH :: string where
  "RE_PATH = ''(<('' @ RE_A_D_L @ '':)?'' @ RE_MAILBOX @ ''>)''"
definition RE_REVERSE_PATH :: string where
  "RE_REVERSE_PATH = ''('' @ RE_PATH @ ''|(<>))''"
definition RE_ESMTP_KEYWORD :: string where
  "RE_ESMTP_KEYWORD = ''([a-zA-Z0-9][a-zA-Z0-9'' @ [BS] @ ''-]*)''"
definition RE_ESMTP_VALUE :: string where
  "RE_ESMTP_VALUE = ''((['' @ [BS] @ ''x21-'' @ [BS] @ ''x3c]|['' @ [BS] @ ''x3e-'' @ [BS] @ ''x7c])+)''"
definition RE_ESMTP_PARAM :: string where
  "RE_ESMTP_PARAM = ''('' @ RE_ESMTP_KEYWORD @ ''(='' @ RE_ESMTP_VALUE @ '')?)''"
definition RE_MAIL_PARAMETERS :: string where
  "RE_MAIL_PARAMETERS = ''('' @ RE_ESMTP_PARAM @ ''( '' @ RE_ESMTP_PARAM @ '')*)''"
definition RE_RCPT_PARAMETERS :: string where
  "RE_RCPT_PARAMETERS = ''('' @ RE_ESMTP_PARAM @ ''( '' @ RE_ESMTP_PARAM @ '')*)''"
definition RE_FORWARD_PATH :: string where
  "RE_FORWARD_PATH = RE_PATH"
definition RE_STRING :: string where
  "RE_STRING = ''('' @ RE_ATOM @ ''|'' @ RE_QUOTED_STRING @ '')''"
definition RE_END_DATA :: string where
  "RE_END_DATA = ''^.'' @ [BS] @ ''x0D'' @ [BS] @ ''x0A$''"
definition RE_HELO :: string where
  "RE_HELO = ''^helo '' @ RE_DOMAIN @ RE_CRLF"
definition RE_EHLO :: string where
  "RE_EHLO = ''^ehlo ('' @ RE_DOMAIN @ ''|'' @ RE_ADDRES_LITERAL @ '')'' @ RE_CRLF"
definition RE_MAIL :: string where
  "RE_MAIL = ''^mail from: ?'' @ RE_REVERSE_PATH @ ''( '' @ RE_MAIL_PARAMETERS @ '')?'' @ RE_CRLF"
definition RE_RCPT :: string where
  "RE_RCPT = ''^rcpt to: ?((<Postmaster@'' @ RE_DOMAIN @ ''>)|(<Postmaster>)|'' @ RE_FORWARD_PATH
     @ '')( '' @ RE_RCPT_PARAMETERS @ '')?'' @ RE_CRLF"
definition RE_DATA :: string where
  "RE_DATA = ''^data'' @ RE_CRLF"
definition RE_RSET :: string where
  "RE_RSET = ''^rset'' @ RE_CRLF"
definition RE_QUIT :: string where
  "RE_QUIT = ''^quit'' @ RE_CRLF"
definition RE_VRFY :: string where
  "RE_VRFY = ''^vrfy '' @ RE_STRING @ RE_CRLF"

section \<open>Commands and matching\<close>

datatype SMTP_CMD =
    SMTP_CMD_HELO | SMTP_CMD_EHLO | SMTP_CMD_MAIL | SMTP_CMD_RCPT | SMTP_CMD_VRFY
  | SMTP_CMD_RSET | SMTP_CMD_QUIT | SMTP_CMD_DATA | SMTP_CMD_END_DATA

fun smtp_cmds :: "SMTP_CMD \<Rightarrow> string" where
  "smtp_cmds SMTP_CMD_HELO = RE_HELO"
| "smtp_cmds SMTP_CMD_EHLO = RE_EHLO"
| "smtp_cmds SMTP_CMD_MAIL = RE_MAIL"
| "smtp_cmds SMTP_CMD_RCPT = RE_RCPT"
| "smtp_cmds SMTP_CMD_VRFY = RE_VRFY"
| "smtp_cmds SMTP_CMD_RSET = RE_RSET"
| "smtp_cmds SMTP_CMD_QUIT = RE_QUIT"
| "smtp_cmds SMTP_CMD_DATA = RE_DATA"
| "smtp_cmds SMTP_CMD_END_DATA = RE_END_DATA"

definition MI_MAIL_FROM_REVERSE_PATH_INDEX :: nat where "MI_MAIL_FROM_REVERSE_PATH_INDEX = 1"
definition MI_RCPT_TO_POSTMASTER_FULL_DOMAIN_INDEX :: nat where "MI_RCPT_TO_POSTMASTER_FULL_DOMAIN_INDEX = 3"
definition MI_RCPT_TO_POSTMASTER_INDEX :: nat where "MI_RCPT_TO_POSTMASTER_INDEX = 9"
definition MI_RCPT_TO_FORWARD_PATH_LOCAL_PART_INDEX :: nat where "MI_RCPT_TO_FORWARD_PATH_LOCAL_PART_INDEX = 29"
definition MI_RCPT_TO_FORWARD_PATH_DOMAIN_INDEX :: nat where "MI_RCPT_TO_FORWARD_PATH_DOMAIN_INDEX = 38"
definition MI_RCPT_TO_FORWARD_PATH_DOMAIN_IPV4_INDEX :: nat where "MI_RCPT_TO_FORWARD_PATH_DOMAIN_IPV4_INDEX = 47"
definition MI_RCPT_TO_FORWARD_PATH_DOMAIN_IPV6_INDEX :: nat where "MI_RCPT_TO_FORWARD_PATH_DOMAIN_IPV6_INDEX = 58"
definition MI_EHLO_INFO_INDEX :: nat where "MI_EHLO_INFO_INDEX = 1"
definition MI_HELO_INFO_INDEX :: nat where "MI_HELO_INFO_INDEX = 1"

definition SUB_STR_COUNT :: nat where "SUB_STR_COUNT = 250"

record match_info =
  cmd :: SMTP_CMD
  tested_line :: string
  sub_str :: "int list"
  sub_str_count :: int

text \<open>
  PCRE as the code uses it. \<open>pcre_exec pattern subject\<close> is the return code and the offset
  vector of a search with the flags of \<^verbatim>\<open>SMTP_CMD_RE_FLAGS\<close> (negative: no match or an
  error; 0: the vector was too small). \<open>pcre_copy_substring subject vector count index
  size\<close> is the text stored in the caller's buffer, \<open>None\<close> when the call reports an error
  and leaves the buffer alone.
\<close>

record pcre_lib =
  pcre_exec :: "string \<Rightarrow> string \<Rightarrow> int \<times> int list"
  pcre_copy_substring :: "string \<Rightarrow> int list \<Rightarrow> int \<Rightarrow> nat \<Rightarrow> nat \<Rightarrow> string option"

text \<open>
  \<^verbatim>\<open>smtp_cmd_check\<close>: the compiled expressions are those of the table; every negative
  return code becomes \<open>CE_COMMON\<close>. The argument range check of the source cannot fail on
  the enumeration's nine commands.
\<close>

definition smtp_cmd_check :: "pcre_lib \<Rightarrow> SMTP_CMD \<Rightarrow> string \<Rightarrow> error_code \<times> match_info" where
  "smtp_cmd_check P c line =
     (let (rc, ov) = pcre_exec P (smtp_cmds c) (c_str line) in
      if rc < 0 then (CE_COMMON, \<lparr>cmd = c, tested_line = line, sub_str = ov, sub_str_count = rc\<rparr>)
      else if rc = 0
      then (CE_SUCCESS, \<lparr>cmd = c, tested_line = line, sub_str = ov,
                         sub_str_count = int (SUB_STR_COUNT div 3)\<rparr>)
      else (CE_SUCCESS, \<lparr>cmd = c, tested_line = line, sub_str = ov, sub_str_count = rc\<rparr>))"

text \<open>
  \<^verbatim>\<open>smtp_cmd_get_substring\<close> copies a group into the caller's buffer and reports success
  when the buffer then starts with a byte other than NUL. The buffer is its C string, or
  \<open>None\<close> while it has never been written: testing such a buffer reads indeterminate bytes.
\<close>

definition smtp_cmd_get_substring ::
    "pcre_lib \<Rightarrow> match_info \<Rightarrow> nat \<Rightarrow> string option \<Rightarrow> nat \<Rightarrow> (error_code \<times> string) run" where
  "smtp_cmd_get_substring P mi idx buf buf_size =
     (case pcre_copy_substring P (tested_line mi) (sub_str mi) (sub_str_count mi) idx buf_size of
        Some s \<Rightarrow> Done (if c_str s = [] then CE_COMMON else CE_SUCCESS, c_str s)
      | None \<Rightarrow> (case buf of None \<Rightarrow> Fault Uninit_Read
                 | Some b \<Rightarrow> Done (if c_str b = [] then CE_COMMON else CE_SUCCESS, c_str b)))"

lemma smtp_cmd_check_success:
  "smtp_cmd_check P c line = (CE_SUCCESS, mi) \<Longrightarrow>
     0 \<le> fst (pcre_exec P (smtp_cmds c) (c_str line)) \<and> cmd mi = c \<and> tested_line mi = line
     \<and> 0 < sub_str_count mi"
  by (auto simp: smtp_cmd_check_def SUB_STR_COUNT_def split: prod.splits if_splits)

lemma smtp_cmd_check_err: "fst (smtp_cmd_check P c line) \<in> {CE_SUCCESS, CE_COMMON}"
  by (auto simp: smtp_cmd_check_def split: prod.splits)

lemma smtp_cmd_get_substring_text:
  "smtp_cmd_get_substring P mi i b n = Done (e, s) \<Longrightarrow>
     NUL \<notin> set s \<and> (e = CE_SUCCESS \<longleftrightarrow> s \<noteq> []) \<and> e \<in> {CE_SUCCESS, CE_COMMON}"
  by (auto simp: smtp_cmd_get_substring_def split: option.splits if_splits)

lemma smtp_cmd_get_substring_total:
  "\<exists>e s. smtp_cmd_get_substring P mi i (Some b) n = Done (e, s)"
  by (auto simp: smtp_cmd_get_substring_def split: option.splits)

section \<open>Capture groups\<close>

text \<open>
  PCRE numbers capturing groups by their opening parenthesis, from 1. In these patterns a
  backslash makes the next character literal, a bracket expression holds no parenthesis,
  and no group is of the form \<^verbatim>\<open>(?...)\<close>.
\<close>

fun count_groups :: "string \<Rightarrow> nat" where
  "count_groups [] = 0"
| "count_groups (c # cs) =
     (if c = BS then count_groups (tl cs)
      else if c = CHR ''('' then Suc (count_groups cs) else count_groups cs)"

fun group_at :: "nat \<Rightarrow> string \<Rightarrow> string option" where
  "group_at n [] = None"
| "group_at n (c # cs) =
     (if c = BS then group_at n (tl cs)
      else if c = CHR ''('' then (if n = 1 then Some (c # cs) else group_at (n - 1) cs)
      else group_at n cs)"

definition prefix_of :: "string \<Rightarrow> string \<Rightarrow> bool" where
  "prefix_of p s = (take (length p) s = p)"

definition group_is :: "string \<Rightarrow> nat \<Rightarrow> string \<Rightarrow> bool" where
  "group_is re n g = (case group_at n re of None \<Rightarrow> False | Some s \<Rightarrow> prefix_of g s)"

text \<open>
  A piece of a pattern is closed when no backslash at its end reaches into the next piece;
  group counts then add up along concatenation.
\<close>

fun closed_re :: "string \<Rightarrow> bool" where
  "closed_re [] = True"
| "closed_re (c # cs) = (if c = BS then cs \<noteq> [] \<and> closed_re (tl cs) else closed_re cs)"

lemma closed_re_append [simp]: "closed_re s \<Longrightarrow> closed_re (s @ t) = closed_re t"
  by (induction s rule: closed_re.induct) (auto split: if_splits)

lemma count_groups_append [simp]:
  "closed_re s \<Longrightarrow> count_groups (s @ t) = count_groups s + count_groups t"
  by (induction s rule: closed_re.induct) (auto split: if_splits)

lemma group_at_append:
  "closed_re s \<Longrightarrow> count_groups s < n \<Longrightarrow> group_at n (s @ t) = group_at (n - count_groups s) t"
  by (induction s arbitrary: n rule: closed_re.induct) (auto split: if_splits)

lemma group_isI:
  assumes "re = pre @ g @ post" and "closed_re pre" and "count_groups pre + 1 = n"
    and "g \<noteq> [] \<and> hd g = CHR ''(''"
  shows "group_is re n g"
proof -
  from assms(4) obtain g' where g: "g = CHR ''('' # g'" by (cases g) auto
  have "n - count_groups pre = 1" using assms(3) by simp
  with assms(1-3) g show ?thesis by (simp add: group_is_def prefix_of_def group_at_append)
qed

lemma groups_DOMAIN [simp]: "closed_re RE_DOMAIN" "count_groups RE_DOMAIN = 6"
  by (simp_all add: RE_DOMAIN_def RE_SUB_DOMAIN_def RE_LDH_STR_def RE_LET_DIG_def)

lemma groups_IPV4 [simp]: "closed_re RE_IPV4_ADDRESS_LITERAL" "count_groups RE_IPV4_ADDRESS_LITERAL = 10"
  by (simp_all add: RE_IPV4_ADDRESS_LITERAL_def RE_0_255_def)

lemma groups_LOCAL_PART [simp]: "closed_re RE_LOCAL_PART" "count_groups RE_LOCAL_PART = 9"
  by (simp_all add: RE_LOCAL_PART_def RE_DOT_STRING_def RE_ATOM_def RE_ATEXT_def RE_QUOTED_STRING_def
      RE_QCONTENTSMTP_def RE_QTEXT_SMTP_def RE_QUOTED_PAIRSMTP_def)

lemma groups_A_D_L [simp]: "closed_re RE_A_D_L" "count_groups RE_A_D_L = 16"
  by (simp_all add: RE_A_D_L_def RE_AT_DOMAIN_def)

lemma RE_RCPT_split:
  "RE_RCPT = ''^rcpt to: ?((<Postmaster@'' @ RE_DOMAIN @ ''>)|(<Postmaster>)|(<('' @ RE_A_D_L @ '':)?(''
     @ RE_LOCAL_PART @ ''@('' @ RE_DOMAIN @ ''|('' @ [BS] @ ''[('' @ RE_IPV4_ADDRESS_LITERAL @ ''|(IPv6:''
     @ RE_IPV6_ADDR @ '')|'' @ RE_GENERAL_ADDRESS_LITERAL @ '')])))>))( '' @ RE_RCPT_PARAMETERS @ '')?'' @ RE_CRLF"
  by (simp add: RE_RCPT_def RE_FORWARD_PATH_def RE_PATH_def RE_MAILBOX_def RE_ADDRES_LITERAL_def
      RE_IPV6_ADDRESS_LITERAL_def)

lemma groups_heads [simp]:
  "RE_DOMAIN \<noteq> [] \<and> hd RE_DOMAIN = CHR ''(''"
  "RE_LOCAL_PART \<noteq> [] \<and> hd RE_LOCAL_PART = CHR ''(''"
  "RE_IPV4_ADDRESS_LITERAL \<noteq> [] \<and> hd RE_IPV4_ADDRESS_LITERAL = CHR ''(''"
  "RE_IPV6_ADDR \<noteq> [] \<and> hd RE_IPV6_ADDR = CHR ''(''"
  "RE_REVERSE_PATH \<noteq> [] \<and> hd RE_REVERSE_PATH = CHR ''(''"
  by (simp_all add: RE_DOMAIN_def RE_LOCAL_PART_def RE_IPV4_ADDRESS_LITERAL_def RE_IPV6_ADDR_def
      RE_REVERSE_PATH_def)

lemma hd_append_groups [simp]: "g \<noteq> [] \<and> hd g = c \<Longrightarrow> hd (g @ h) = c"
  by simp

lemma group_reverse_path: "group_is RE_MAIL 1 RE_REVERSE_PATH"
  by (rule group_isI [where pre = "''^mail from: ?'' " and post = "''( '' @ RE_MAIL_PARAMETERS @ '')?'' @ RE_CRLF"])
    (simp_all add: RE_MAIL_def)

lemma group_ehlo: "group_is RE_EHLO 1 (''('' @ RE_DOMAIN @ ''|'' @ RE_ADDRES_LITERAL @ '')'')"
  by (rule group_isI [where pre = "''^ehlo ''" and post = RE_CRLF]) (simp_all add: RE_EHLO_def)

lemma group_helo: "group_is RE_HELO 1 RE_DOMAIN"
  by (rule group_isI [where pre = "''^helo ''" and post = RE_CRLF]) (simp_all add: RE_HELO_def)

lemma group_postmaster_domain: "group_is RE_RCPT 3 (RE_DOMAIN @ ''>)'')"
  by (rule group_isI [where pre = "''^rcpt to: ?((<Postmaster@''" and
        post = "''|(<Postmaster>)|'' @ RE_FORWARD_PATH @ '')( '' @ RE_RCPT_PARAMETERS @ '')?'' @ RE_CRLF"])
    (simp_all add: RE_RCPT_def)

lemma group_postmaster: "group_is RE_RCPT 9 ''(<Postmaster>)''"
  by (rule group_isI [where pre = "''^rcpt to: ?((<Postmaster@'' @ RE_DOMAIN @ ''>)|''" and
        post = "''|'' @ RE_FORWARD_PATH @ '')( '' @ RE_RCPT_PARAMETERS @ '')?'' @ RE_CRLF"])
    (simp_all add: RE_RCPT_def)

definition rcpt_pre_local :: string where
  "rcpt_pre_local = ''^rcpt to: ?((<Postmaster@'' @ RE_DOMAIN @ ''>)|(<Postmaster>)|(<('' @ RE_A_D_L @ '':)?(''"

definition rcpt_pre_ipv4 :: string where
  "rcpt_pre_ipv4 = rcpt_pre_local @ RE_LOCAL_PART @ ''@('' @ RE_DOMAIN @ ''|('' @ [BS] @ ''[(''"

lemma groups_rcpt_pre [simp]:
  "closed_re rcpt_pre_local" "count_groups rcpt_pre_local = 28"
  "closed_re rcpt_pre_ipv4" "count_groups rcpt_pre_ipv4 = 46"
  by (simp_all add: rcpt_pre_local_def rcpt_pre_ipv4_def)

lemma group_local_part: "group_is RE_RCPT 29 (RE_LOCAL_PART @ ''@'')"
  by (rule group_isI [where pre = rcpt_pre_local and
        post = "''('' @ RE_DOMAIN @ ''|'' @ RE_ADDRES_LITERAL @ ''))>))( '' @ RE_RCPT_PARAMETERS @ '')?'' @ RE_CRLF"])
    (simp_all add: RE_RCPT_def RE_FORWARD_PATH_def RE_PATH_def RE_MAILBOX_def rcpt_pre_local_def)

lemma group_domain: "group_is RE_RCPT 38 (''('' @ RE_DOMAIN @ ''|'' @ RE_ADDRES_LITERAL @ '')'')"
  by (rule group_isI [where pre = "rcpt_pre_local @ RE_LOCAL_PART @ ''@''" and
        post = "'')>))( '' @ RE_RCPT_PARAMETERS @ '')?'' @ RE_CRLF"])
    (simp_all add: RE_RCPT_def RE_FORWARD_PATH_def RE_PATH_def RE_MAILBOX_def rcpt_pre_local_def)

lemma group_ipv4: "group_is RE_RCPT 47 RE_IPV4_ADDRESS_LITERAL"
  by (rule group_isI [where pre = rcpt_pre_ipv4 and
        post = "''|(IPv6:'' @ RE_IPV6_ADDR @ '')|'' @ RE_GENERAL_ADDRESS_LITERAL @ '')])))>))( ''
           @ RE_RCPT_PARAMETERS @ '')?'' @ RE_CRLF"])
    (simp_all add: RE_RCPT_split rcpt_pre_ipv4_def rcpt_pre_local_def)

lemma group_ipv6: "group_is RE_RCPT 58 RE_IPV6_ADDR"
  by (rule group_isI [where pre = "rcpt_pre_ipv4 @ RE_IPV4_ADDRESS_LITERAL @ ''|(IPv6:''" and
        post = "'')|'' @ RE_GENERAL_ADDRESS_LITERAL @ '')])))>))( '' @ RE_RCPT_PARAMETERS @ '')?'' @ RE_CRLF"])
    (simp_all add: RE_RCPT_split rcpt_pre_ipv4_def rcpt_pre_local_def)

lemmas capture_groups = group_reverse_path group_ehlo group_helo group_postmaster_domain group_postmaster
  group_local_part group_domain group_ipv4 group_ipv6

lemmas capture_indices = MI_MAIL_FROM_REVERSE_PATH_INDEX_def MI_EHLO_INFO_INDEX_def MI_HELO_INFO_INDEX_def
  MI_RCPT_TO_POSTMASTER_FULL_DOMAIN_INDEX_def MI_RCPT_TO_POSTMASTER_INDEX_def
  MI_RCPT_TO_FORWARD_PATH_LOCAL_PART_INDEX_def MI_RCPT_TO_FORWARD_PATH_DOMAIN_INDEX_def
  MI_RCPT_TO_FORWARD_PATH_DOMAIN_IPV4_INDEX_def MI_RCPT_TO_FORWARD_PATH_DOMAIN_IPV6_INDEX_def

text \<open>
  Every group number the server extracts from a matched command selects the part of
  the pattern it is named after: the reverse path of MAIL, and for RCPT the Postmaster
  forms, the local part, the domain, the IPv4 literal and the IPv6 address.
\<close>

theorem capture_indices_select_named_groups:
  "group_is RE_MAIL MI_MAIL_FROM_REVERSE_PATH_INDEX RE_REVERSE_PATH
   \<and> group_is RE_EHLO MI_EHLO_INFO_INDEX (''('' @ RE_DOMAIN @ ''|'' @ RE_ADDRES_LITERAL @ '')'')
   \<and> group_is RE_HELO MI_HELO_INFO_INDEX RE_DOMAIN
   \<and> group_is RE_RCPT MI_RCPT_TO_POSTMASTER_FULL_DOMAIN_INDEX (RE_DOMAIN @ ''>)'')
   \<and> group_is RE_RCPT MI_RCPT_TO_POSTMASTER_INDEX ''(<Postmaster>)''
   \<and> group_is RE_RCPT MI_RCPT_TO_FORWARD_PATH_LOCAL_PART_INDEX (RE_LOCAL_PART @ ''@'')
   \<and> group_is RE_RCPT MI_RCPT_TO_FORWARD_PATH_DOMAIN_INDEX (''('' @ RE_DOMAIN @ ''|'' @ RE_ADDRES_LITERAL @ '')'')
   \<and> group_is RE_RCPT MI_RCPT_TO_FORWARD_PATH_DOMAIN_IPV4_INDEX RE_IPV4_ADDRESS_LITERAL
   \<and> group_is RE_RCPT MI_RCPT_TO_FORWARD_PATH_DOMAIN_IPV6_INDEX RE_IPV6_ADDR"
  unfolding capture_indices using capture_groups by blast

end
