(* ===== verification/Server_Session.thy ===== *)
theory Server_Session
  imports Server_Mail_Writer Server_Smtp_Cmd
begin

text \<open>
  The state of one SMTP session on the server, \<^verbatim>\<open>server/include/client.h\<close>, with the
  operations of \<^verbatim>\<open>server/src/client.c\<close> that the protocol automaton calls back:
  initialisation, storing greeting, sender, recipients and text, preparing a reply,
  handing the mail over, and clean-up. The automaton itself is in \<open>Server_Fsm\<close>, the entry
  points that drive it in \<open>Server_Client\<close>.
\<close>

section \<open>States and events of the automaton\<close>

datatype te_client_state =
    CLIENT_ST_INIT | CLIENT_ST_WAIT_HELLO_OR_EHLO | CLIENT_ST_HELLO_RECEIVED
  | CLIENT_ST_EHLO_RECEIVED | CLIENT_ST_CLIENT_INITED | CLIENT_ST_MAIL_RECEIVED
  | CLIENT_ST_EXPECTED_RCPT_OR_DATA | CLIENT_ST_RCPT_RECEIVED | CLIENT_ST_DATA_RECEIVED
  | CLIENT_ST_EXPECTED_MSG_TEXT_OR_END_MSG | CLIENT_ST_END_DATA_RECEIVED
  | CLIENT_ST_QUIT_RECEIVED | CLIENT_ST_RSET_RECEIVED | CLIENT_ST_VRFY_RECEIVED
  | CLIENT_ST_TIMEOUT | CLIENT_ST_SHUTDOWN | CLIENT_ST_INVALID | CLIENT_ST_DONE

datatype te_client_event =
    CLIENT_EV_RESPONSE | CLIENT_EV_EHLO | CLIENT_EV_HELO | CLIENT_EV_MAIL | CLIENT_EV_RCPT
  | CLIENT_EV_DATA | CLIENT_EV_MSG_TEXT | CLIENT_EV_END_DATA | CLIENT_EV_RSET | CLIENT_EV_QUIT
  | CLIENT_EV_VRFY | CLIENT_EV_TIMEOUT | CLIENT_EV_SHUTDOWN | CLIENT_EV_UNKNOWN | CLIENT_EV_INVALID

section \<open>The session record\<close>

text \<open>
  \<open>rcpts\<close> is the used part of the array \<^verbatim>\<open>to\<close>, so \<^verbatim>\<open>to_count\<close> is its length. The block is
  obtained from \<^verbatim>\<open>malloc\<close>: \<open>stale_type i\<close> is what the \<^verbatim>\<open>domain_type\<close> of array entry \<open>i\<close>
  happens to hold before it is written, and \<open>timeout_start_time\<close> is likewise arbitrary
  until the first command.
\<close>

record client_t =
  current_state :: te_client_state
  ehlo :: bool
  need_send :: bool
  greating_info :: msg_t
  msg_for_sending :: msg_t
  mail_from :: msg_t
  rcpts :: "receiver_t list"
  stale_type :: "nat \<Rightarrow> DOMAIN_TYPE"
  msg_text :: msg_t
  closed :: bool
  mail_writer :: mail_writer_t
  timeout_start_time :: nat

definition client_init :: "client_t \<Rightarrow> mail_writer_t \<Rightarrow> world \<Rightarrow> (error_code \<times> client_t \<times> world) run" where
  "client_init raw mw w =
     (let c = raw\<lparr>current_state := CLIENT_ST_INIT, need_send := False, closed := False, ehlo := False,
                  rcpts := [], mail_writer := mw\<rparr>;
          (e1, m1, w1) = msg_init 100 w; c1 = c\<lparr>greating_info := m1\<rparr> in
      if e1 \<noteq> CE_SUCCESS then Done (CE_INIT_3RD, c1, w1)
      else let (e2, m2, w2) = msg_init 100 w1; c2 = c1\<lparr>mail_from := m2\<rparr> in
      if e2 \<noteq> CE_SUCCESS then Done (CE_INIT_3RD, c2\<lparr>greating_info := msg_destroy m1\<rparr>, w2)
      else let (e3, m3, w3) = msg_init 100 w2; c3 = c2\<lparr>msg_text := m3\<rparr> in
      if e3 \<noteq> CE_SUCCESS
      then Done (CE_INIT_3RD, c3\<lparr>greating_info := msg_destroy m1, mail_from := msg_destroy m2\<rparr>, w3)
      else let (e4, m4, w4) = msg_init 100 w3; c4 = c3\<lparr>msg_for_sending := m4\<rparr> in
      if e4 \<noteq> CE_SUCCESS
      then Done (CE_INIT_3RD, c4\<lparr>greating_info := msg_destroy m1, mail_from := msg_destroy m2,
                                 msg_text := msg_destroy m3\<rparr>, w4)
      else rbind (msg_add_text m4 (as_array SMTP_OPENING_MSG) (length SMTP_OPENING_MSG) w4)
        (\<lambda>(e5, m5, w5).
           if e5 \<noteq> CE_SUCCESS
           then Done (CE_COMMON, c4\<lparr>greating_info := msg_destroy m1, mail_from := msg_destroy m2,
                                    msg_for_sending := msg_destroy m5\<rparr>, w5)
           else Done (CE_SUCCESS, c4\<lparr>msg_for_sending := m5, need_send := True\<rparr>, w5)))"

definition client_start_timeout :: "client_t \<Rightarrow> world \<Rightarrow> client_t \<times> world" where
  "client_start_timeout c w = (let (t, w') = time_now w in (c\<lparr>timeout_start_time := t\<rparr>, w'))"

text \<open>Text arguments are the byte array the code passes and the number of bytes to take.\<close>

definition client_add_greating_info :: "client_t \<Rightarrow> string \<Rightarrow> nat \<Rightarrow> world \<Rightarrow> (error_code \<times> client_t \<times> world) run" where
  "client_add_greating_info c buf n w =
     rbind (msg_add_text (greating_info c) buf n w)
       (\<lambda>(e, m, w'). Done (if e \<noteq> CE_SUCCESS then CE_COMMON else CE_SUCCESS, c\<lparr>greating_info := m\<rparr>, w'))"

definition client_add_mail_from :: "client_t \<Rightarrow> string \<Rightarrow> nat \<Rightarrow> world \<Rightarrow> (error_code \<times> client_t \<times> world) run" where
  "client_add_mail_from c buf n w =
     rbind (msg_clean (mail_from c)) (\<lambda>f0. rbind (msg_add_text f0 buf n w)
       (\<lambda>(e, f, w1).
          let c1 = c\<lparr>mail_from := f\<rparr> in
          if e \<noteq> CE_SUCCESS then Done (CE_COMMON, c1, w1)
          else rbind (msg_clean (msg_text c1)) (\<lambda>t0. rbind (msg_c_str f)
            (\<lambda>s. let x_from = snprintf 200 (''X-mysmtp-from: '' @ s @ CRLF) in
                 rbind (msg_add_text t0 (as_array x_from) (length x_from) w1)
                   (\<lambda>(_, t, w2). Done (CE_SUCCESS, c1\<lparr>msg_text := t\<rparr>, w2))))))"

text \<open>
  The three ways a recipient is written. \<open>postmaster\<close> covers \<^verbatim>\<open><Postmaster>\<close> (domain of the
  server, copied with its terminating NUL) and \<^verbatim>\<open><Postmaster@domain>\<close>; neither sets the
  domain type. \<open>forward_path\<close> extracts local part and domain of an ordinary path.
\<close>

definition add_postmaster :: "msg_t \<Rightarrow> msg_t \<Rightarrow> string \<Rightarrow> nat \<Rightarrow> world \<Rightarrow> (msg_t \<times> msg_t \<times> world) run" where
  "add_postmaster l d dm n w =
     rbind (msg_add_text l (as_array ''Postmaster'') (length ''Postmaster'') w)
       (\<lambda>(_, l', w1). rbind (msg_add_text d dm n w1) (\<lambda>(_, d', w2). Done (l', d', w2)))"

definition add_forward_path ::
    "pcre_lib \<Rightarrow> match_info \<Rightarrow> string \<Rightarrow> msg_t \<Rightarrow> msg_t \<Rightarrow> world \<Rightarrow> (msg_t \<times> msg_t \<times> DOMAIN_TYPE \<times> world) run" where
  "add_forward_path P mi buf l d w =
     rbind (smtp_cmd_get_substring P mi MI_RCPT_TO_FORWARD_PATH_LOCAL_PART_INDEX (Some buf) 1000)
     (\<lambda>(_, b1). rbind (msg_add_text l (as_array b1) (strlen b1) w)
     (\<lambda>(_, l', w1). rbind (smtp_cmd_get_substring P mi MI_RCPT_TO_FORWARD_PATH_DOMAIN_IPV4_INDEX (Some []) 1000)
     (\<lambda>(e4, b4). rbind
        (if e4 = CE_SUCCESS then Done (DOMAIN_TYPE_IPV4, b4)
         else rbind (smtp_cmd_get_substring P mi MI_RCPT_TO_FORWARD_PATH_DOMAIN_IPV6_INDEX (Some b4) 1000)
           (\<lambda>(e6, b6). if e6 = CE_SUCCESS then Done (DOMAIN_TYPE_IPV6, b6)
              else rbind (smtp_cmd_get_substring P mi MI_RCPT_TO_FORWARD_PATH_DOMAIN_INDEX (Some b6) 1000)
                (\<lambda>(_, bd). Done (DOMAIN_TYPE_HOST, bd))))
     (\<lambda>(ty, b). rbind (msg_add_text d (as_array b) (strlen b) w1)
        (\<lambda>(_, d', w2). Done (l', d', ty, w2))))))"

definition client_add_rcpt_to :: "pcre_lib \<Rightarrow> client_t \<Rightarrow> match_info \<Rightarrow> world \<Rightarrow> (error_code \<times> client_t \<times> world) run" where
  "client_add_rcpt_to P c mi w =
     (if length (rcpts c) = SMTP_RCPT_MAX_SIZE then Done (CE_MAX_SIZE, c, w)
      else let (e1, l, w1) = msg_init 50 w in
      if e1 \<noteq> CE_SUCCESS then Done (CE_INIT_3RD, c, w1)
      else let (e2, d, w2) = msg_init 50 w1 in
      if e2 \<noteq> CE_SUCCESS then Done (CE_INIT_3RD, c, w2)
      else let stale = stale_type c (length (rcpts c)) in
      rbind (smtp_cmd_get_substring P mi MI_RCPT_TO_POSTMASTER_INDEX (Some []) 1000)
      (\<lambda>(ep, b). rbind
         (if ep = CE_SUCCESS
          then rbind (add_postmaster l d (as_array (domain (mail_writer c))) (strlen (as_array (domain (mail_writer c))) + 1) w2)
                 (\<lambda>(l', d', w'). Done (l', d', stale, w'))
          else rbind (smtp_cmd_get_substring P mi MI_RCPT_TO_POSTMASTER_FULL_DOMAIN_INDEX (Some b) 1000)
            (\<lambda>(ed, b'). if ed = CE_SUCCESS
               then rbind (add_postmaster l d (as_array b') (strlen b') w2) (\<lambda>(l', d', w'). Done (l', d', stale, w'))
               else add_forward_path P mi b' l d w2))
         (\<lambda>(l', d', ty, w'). Done (CE_SUCCESS,
            c\<lparr>rcpts := rcpts c @ [\<lparr>local_part = l', rdomain = d', domain_type = ty\<rparr>]\<rparr>, w'))))"

definition client_add_msg_txt :: "client_t \<Rightarrow> string \<Rightarrow> nat \<Rightarrow> world \<Rightarrow> (error_code \<times> client_t \<times> world) run" where
  "client_add_msg_txt c buf n w =
     rbind (msg_add_text (msg_text c) buf n w)
       (\<lambda>(e, m, w'). Done (if e \<noteq> CE_SUCCESS then CE_COMMON else CE_SUCCESS, c\<lparr>msg_text := m\<rparr>, w'))"

definition client_set_response :: "client_t \<Rightarrow> string \<Rightarrow> nat \<Rightarrow> world \<Rightarrow> (error_code \<times> client_t \<times> world) run" where
  "client_set_response c buf n w =
     rbind (msg_clean (msg_for_sending c)) (\<lambda>m0. rbind (msg_add_text m0 buf n w)
       (\<lambda>(e, m, w'). if e \<noteq> CE_SUCCESS then Done (CE_COMMON, c\<lparr>msg_for_sending := m\<rparr>, w')
                     else Done (CE_SUCCESS, c\<lparr>msg_for_sending := m, need_send := True\<rparr>, w')))"

definition client_data_end_process :: "client_t \<Rightarrow> world \<Rightarrow> (error_code \<times> client_t \<times> world) run" where
  "client_data_end_process c w =
     rbind (write_mail (mail_writer c) (rcpts c) (msg_text c) w)
       (\<lambda>(e, to, w'). Done (e, c\<lparr>rcpts := to\<rparr>, w'))"

definition client_destroy :: "client_t \<Rightarrow> client_t" where
  "client_destroy c =
     c\<lparr>rcpts := [], current_state := CLIENT_ST_INIT, need_send := False, ehlo := False, closed := True,
       greating_info := msg_destroy (greating_info c), mail_from := msg_destroy (mail_from c),
       msg_text := msg_destroy (msg_text c), msg_for_sending := msg_destroy (msg_for_sending c)\<rparr>"

section \<open>Well-formed sessions\<close>

text \<open>
  The four buffers of a live session are allocated, the reply buffer holds no NUL byte,
  sender and text buffers are zero padded, and the recipient array is within its bounds.
\<close>

definition session_wf :: "client_t \<Rightarrow> bool" where
  "session_wf c \<longleftrightarrow> msg_wf (greating_info c) \<and> msg_wf (msg_for_sending c) \<and> msg_wf (mail_from c)
     \<and> msg_wf (msg_text c) \<and> zero_padded (mail_from c) \<and> NUL \<notin> set (content (msg_for_sending c))
     \<and> length (rcpts c) \<le> SMTP_RCPT_MAX_SIZE"

lemma session_wfD:
  "session_wf c \<Longrightarrow> msg_wf (greating_info c)" "session_wf c \<Longrightarrow> msg_wf (msg_for_sending c)"
  "session_wf c \<Longrightarrow> msg_wf (mail_from c)" "session_wf c \<Longrightarrow> msg_wf (msg_text c)"
  "session_wf c \<Longrightarrow> NUL \<notin> set (content (msg_for_sending c))"
  by (simp_all add: session_wf_def)

lemma session_wf_frame [simp]:
  "session_wf (c\<lparr>current_state := s\<rparr>) = session_wf c" "session_wf (c\<lparr>closed := b\<rparr>) = session_wf c"
  "session_wf (c\<lparr>need_send := b\<rparr>) = session_wf c" "session_wf (c\<lparr>timeout_start_time := t\<rparr>) = session_wf c"
  by (simp_all add: session_wf_def)

lemma length_as_array [simp]: "length (as_array s) = Suc (length s)"
  by (simp add: as_array_def)

lemma take_as_array [simp]: "take (length s) (as_array s) = s"
  by (simp add: as_array_def)

text \<open>Preparing a reply replaces the reply buffer; it fails only when memory runs out.\<close>

lemma client_set_response_ok:
  assumes wf: "session_wf c" and s: "NUL \<notin> set s"
  obtains e c' w' where "client_set_response c (as_array s) (length s) w = Done (e, c', w')" "session_wf c'"
    "c' = c\<lparr>msg_for_sending := msg_for_sending c', need_send := need_send c'\<rparr>"
    "e = CE_SUCCESS \<Longrightarrow> content (msg_for_sending c') = s \<and> need_send c'"
    "e \<noteq> CE_SUCCESS \<Longrightarrow> content (msg_for_sending c') = [] \<and> need_send c' = need_send c"
    "oom w = [] \<Longrightarrow> e = CE_SUCCESS \<and> w' = w"
proof -
  from mb.replace_law [of "msg_for_sending c" "length s" "as_array s" w] session_wfD(2) [OF wf]
  obtain e m w' where r: "rbind (msg_clean (msg_for_sending c)) (\<lambda>m1. msg_add_text m1 (as_array s) (length s) w) = Done (e, m, w')"
    and m: "msg_wf m" "content m = (if e = CE_SUCCESS then s else [])"
    and p: "oom w = [] \<longrightarrow> e = CE_SUCCESS \<and> w' = w"
    by auto
  from r obtain m0 where m0: "msg_clean (msg_for_sending c) = Done m0"
    "msg_add_text m0 (as_array s) (length s) w = Done (e, m, w')" by (auto simp: rbind_Done_iff)
  show thesis
  proof (cases "e = CE_SUCCESS")
    case True
    with m0 m wf s p show thesis
      by (intro that [of CE_SUCCESS "c\<lparr>msg_for_sending := m, need_send := True\<rparr>" w'])
        (auto simp: client_set_response_def session_wf_def)
  next
    case False
    with m0 m wf p show thesis
      by (intro that [of CE_COMMON "c\<lparr>msg_for_sending := m\<rparr>" w'])
        (auto simp: client_set_response_def session_wf_def)
  qed
qed


lemma strlen_le: "strlen b \<le> length (as_array b)" "strlen b \<le> length b" "strlen (as_array b) + 1 \<le> length (as_array b)"
proof -
  show b: "strlen b \<le> length b" by (simp add: strlen_def length_c_str_le)
  then show "strlen b \<le> length (as_array b)" by simp
  have "c_str (as_array b) = c_str b" by (induction b) (auto simp: as_array_def c_str_def)
  with b show "strlen (as_array b) + 1 \<le> length (as_array b)" by (simp add: strlen_def)
qed

lemma take_strlen: "NUL \<notin> set b \<Longrightarrow> take (strlen b) (as_array b) = b"
  by (simp add: strlen_def c_str_id)

text \<open>The contract of the text buffer with everything the session code needs in one fact.\<close>

lemma msg_add_text_total:
  assumes "msg_wf m" and "n \<le> length buf"
  shows "\<exists>e m' w'. msg_add_text m buf n w = Done (e, m', w') \<and> msg_wf m' \<and> only_oom w w'
    \<and> (e \<noteq> CE_SUCCESS \<longrightarrow> m' = m) \<and> (e = CE_SUCCESS \<longrightarrow> content m' = content m @ take n buf)
    \<and> (oom w = [] \<longrightarrow> e = CE_SUCCESS \<and> w' = w) \<and> (zero_padded m \<longrightarrow> zero_padded m')"
proof -
  obtain e m' w' where "msg_add_text m buf n w = Done (e, m', w')"
    "msg_wf m'" "e = CE_SUCCESS \<or> e = CE_ALLOC \<and> m' = m"
    "e = CE_SUCCESS \<Longrightarrow> content m' = content m @ take n buf \<and> msize m' = msize m + n"
    "oom w = [] \<Longrightarrow> e = CE_SUCCESS \<and> w' = w" "only_oom w w'"
    by (rule msg_add_text_ok [OF assms, of w]) auto
  moreover from this have "zero_padded m \<longrightarrow> zero_padded m'"
    using msg_add_text_zero_padded [OF assms(1) _ assms(2)] by blast
  ultimately show ?thesis by blast
qed

text \<open>
  A text put into an empty, zero padded buffer can be read back as a C string, unless it
  fills the buffer exactly and leaves no room for the terminator.
\<close>

lemma msg_add_text_cstr:
  assumes "msg_wf m" "zero_padded m" "content m = []" "n \<le> length buf" "NUL \<notin> set (take n buf)" "n \<noteq> max_size m"
    and r: "msg_add_text m buf n w = Done (CE_SUCCESS, m', w')"
  shows "cstr_ok m'"
proof -
  obtain e f w1 where f: "msg_add_text m buf n w = Done (e, f, w1)" "msg_wf f" "e = CE_SUCCESS \<longrightarrow> content f = content m @ take n buf"
    "zero_padded m \<longrightarrow> zero_padded f"
    using msg_add_text_total [OF assms(1,4), of w] by blast
  then have c: "msg_wf m'" "content m' = take n buf" "zero_padded m'" using r assms(2,3) by auto
  have m0: "msize m = 0" using length_content [OF assms(1)] assms(3) by simp
  have n: "msize m' = n" using length_content [OF c(1)] c(2) assms(4) by simp
  have "max_size m' = (if max_size m < n then n + 50 else max_size m)"
    using r m0 assms(1) by (auto simp: msg_add_text_def msg_resize_def Let_def memcpy_at_def split: if_splits prod.splits option.splits)
  then have "msize m' < max_size m'" using n c(1) assms(6) by (auto simp: msg_wf_def split: if_splits)
  with c assms(5) show ?thesis by (simp add: cstr_ok_def msg_c_str_content)
qed

lemma client_add_greating_info_ok:
  assumes wf: "session_wf c" and n: "n \<le> length buf"
  shows "\<exists>e g w'. client_add_greating_info c buf n w = Done (e, c\<lparr>greating_info := g\<rparr>, w')
    \<and> session_wf (c\<lparr>greating_info := g\<rparr>) \<and> only_oom w w'
    \<and> (oom w = [] \<longrightarrow> e = CE_SUCCESS \<and> w' = w \<and> content g = content (greating_info c) @ take n buf)"
proof -
  from msg_add_text_total [OF session_wfD(1) [OF wf] n, of w] obtain e m' w' where
    r: "msg_add_text (greating_info c) buf n w = Done (e, m', w')" "msg_wf m'" "only_oom w w'"
    "e = CE_SUCCESS \<longrightarrow> content m' = content (greating_info c) @ take n buf"
    "oom w = [] \<longrightarrow> e = CE_SUCCESS \<and> w' = w" by blast
  have "client_add_greating_info c buf n w
      = Done (if e \<noteq> CE_SUCCESS then CE_COMMON else CE_SUCCESS, c\<lparr>greating_info := m'\<rparr>, w')"
    using r(1) by (simp add: client_add_greating_info_def)
  moreover have "session_wf (c\<lparr>greating_info := m'\<rparr>)" using wf r(2) by (simp add: session_wf_def)
  ultimately show ?thesis using r(3-5) by auto
qed

lemma client_add_msg_txt_ok:
  assumes wf: "session_wf c" and n: "n \<le> length buf"
  shows "\<exists>e t w'. client_add_msg_txt c buf n w = Done (e, c\<lparr>msg_text := t\<rparr>, w')
    \<and> session_wf (c\<lparr>msg_text := t\<rparr>) \<and> only_oom w w'
    \<and> (oom w = [] \<longrightarrow> e = CE_SUCCESS \<and> w' = w \<and> content t = content (msg_text c) @ take n buf)"
proof -
  from msg_add_text_total [OF session_wfD(4) [OF wf] n, of w] obtain e m' w' where
    r: "msg_add_text (msg_text c) buf n w = Done (e, m', w')" "msg_wf m'" "only_oom w w'"
    "e = CE_SUCCESS \<longrightarrow> content m' = content (msg_text c) @ take n buf"
    "oom w = [] \<longrightarrow> e = CE_SUCCESS \<and> w' = w" by blast
  have "client_add_msg_txt c buf n w
      = Done (if e \<noteq> CE_SUCCESS then CE_COMMON else CE_SUCCESS, c\<lparr>msg_text := m'\<rparr>, w')"
    using r(1) by (simp add: client_add_msg_txt_def)
  moreover have "session_wf (c\<lparr>msg_text := m'\<rparr>)" using wf r(2) by (simp add: session_wf_def)
  ultimately show ?thesis using r(3-5) by auto
qed

text \<open>
  Storing the sender empties the text buffer and starts it with the \<^verbatim>\<open>X-mysmtp-from\<close>
  line. The sender is printed from the buffer with \<^verbatim>\<open>%s\<close>, which needs a free byte behind it.
\<close>

lemma client_add_mail_from_ok:
  assumes wf: "session_wf c" and n: "n \<le> length buf" and nul: "NUL \<notin> set (take n buf)"
    and room: "n \<noteq> max_size (mail_from c)"
  shows "\<exists>e f t w'. client_add_mail_from c buf n w = Done (e, c\<lparr>mail_from := f, msg_text := t\<rparr>, w')
    \<and> session_wf (c\<lparr>mail_from := f, msg_text := t\<rparr>) \<and> only_oom w w'
    \<and> (oom w = [] \<longrightarrow> e = CE_SUCCESS \<and> w' = w \<and> content f = take n buf
         \<and> content t = snprintf 200 (''X-mysmtp-from: '' @ take n buf @ CRLF))"
proof -
  define f0 where "f0 = (mail_from c)\<lparr>mtext := Some (replicate (max_size (mail_from c)) NUL), msize := 0\<rparr>"
  define t0 where "t0 = (msg_text c)\<lparr>mtext := Some (replicate (max_size (msg_text c)) NUL), msize := 0\<rparr>"
  have f0: "msg_clean (mail_from c) = Done f0" "msg_wf f0" "content f0 = []" "zero_padded f0"
    using msg_clean_ok [OF session_wfD(3) [OF wf]] msg_clean_zero_padded by (auto simp: f0_def)
  have t0: "msg_clean (msg_text c) = Done t0" "msg_wf t0" "content t0 = []"
    using msg_clean_ok [OF session_wfD(4) [OF wf]] by (auto simp: t0_def)
  from msg_add_text_total [OF f0(2) n, of w] f0 obtain e f w1 where f: "msg_add_text f0 buf n w = Done (e, f, w1)"
    "msg_wf f" "only_oom w w1" "e \<noteq> CE_SUCCESS \<longrightarrow> f = f0" "e = CE_SUCCESS \<longrightarrow> content f = take n buf"
    "oom w = [] \<longrightarrow> e = CE_SUCCESS \<and> w1 = w" "zero_padded f" by auto
  show ?thesis
  proof (cases "e = CE_SUCCESS")
    case False
    with f f0 wf have "client_add_mail_from c buf n w = Done (CE_COMMON, c\<lparr>mail_from := f, msg_text := msg_text c\<rparr>, w1)"
      "session_wf (c\<lparr>mail_from := f, msg_text := msg_text c\<rparr>)"
      by (auto simp: client_add_mail_from_def session_wf_def)
    with f False show ?thesis by blast
  next
    case True
    with f have cf: "content f = take n buf" by simp
    have "msize f = n" using length_content [OF f(2)] cf n by simp
    moreover have "max_size f = (if max_size f0 < n then n + 50 else max_size f0)"
      using f(1) True f0(2) by (auto simp: msg_add_text_def msg_resize_def f0_def Let_def memcpy_at_def
          split: if_splits prod.splits)
    ultimately have "msize f < max_size f"
      using f(2) room by (auto simp: msg_wf_def f0_def split: if_splits)
    with f cf nul have rd: "msg_c_str f = Done (take n buf)" by (simp add: msg_c_str_content)
    define x where "x = snprintf 200 (''X-mysmtp-from: '' @ take n buf @ CRLF)"
    from msg_add_text_total [OF t0(2), of "length x" "as_array x" w1] t0(3) obtain e2 t w2 where
      t: "msg_add_text t0 (as_array x) (length x) w1 = Done (e2, t, w2)" "msg_wf t" "only_oom w1 w2"
      "e2 = CE_SUCCESS \<longrightarrow> content t = x" "oom w1 = [] \<longrightarrow> e2 = CE_SUCCESS \<and> w2 = w1" by auto
    have "client_add_mail_from c buf n w = Done (CE_SUCCESS, c\<lparr>mail_from := f, msg_text := t\<rparr>, w2)"
      using f0(1) t0(1) f(1) True rd t(1) by (simp add: client_add_mail_from_def Let_def x_def)
    moreover have "session_wf (c\<lparr>mail_from := f, msg_text := t\<rparr>)"
      using f t wf by (simp add: session_wf_def)
    moreover have "only_oom w w2" using f(3) t(3) by (rule only_oom_trans)
    moreover have "oom w = [] \<longrightarrow> w2 = w \<and> content t = x" using f(6) t(4,5) by auto
    ultimately show ?thesis using cf unfolding x_def by blast
  qed
qed

section \<open>Recipients\<close>

text \<open>
  What a matched RCPT line names: the captured text of each group (empty when the group
  took no part in the match) decides between the three forms.
\<close>

definition capture :: "pcre_lib \<Rightarrow> match_info \<Rightarrow> nat \<Rightarrow> string" where
  "capture P mi i = (case pcre_copy_substring P (tested_line mi) (sub_str mi) (sub_str_count mi) i 1000 of
     None \<Rightarrow> [] | Some s \<Rightarrow> c_str s)"

definition parsed_rcpt :: "pcre_lib \<Rightarrow> match_info \<Rightarrow> string \<Rightarrow> DOMAIN_TYPE \<Rightarrow> string \<times> string \<times> DOMAIN_TYPE" where
  "parsed_rcpt P mi server_domain stale =
     (if capture P mi MI_RCPT_TO_POSTMASTER_INDEX \<noteq> [] then (''Postmaster'', as_array server_domain, stale)
      else if capture P mi MI_RCPT_TO_POSTMASTER_FULL_DOMAIN_INDEX \<noteq> []
      then (''Postmaster'', capture P mi MI_RCPT_TO_POSTMASTER_FULL_DOMAIN_INDEX, stale)
      else (capture P mi MI_RCPT_TO_FORWARD_PATH_LOCAL_PART_INDEX,
            if capture P mi MI_RCPT_TO_FORWARD_PATH_DOMAIN_IPV4_INDEX \<noteq> []
            then (capture P mi MI_RCPT_TO_FORWARD_PATH_DOMAIN_IPV4_INDEX, DOMAIN_TYPE_IPV4)
            else if capture P mi MI_RCPT_TO_FORWARD_PATH_DOMAIN_IPV6_INDEX \<noteq> []
            then (capture P mi MI_RCPT_TO_FORWARD_PATH_DOMAIN_IPV6_INDEX, DOMAIN_TYPE_IPV6)
            else (capture P mi MI_RCPT_TO_FORWARD_PATH_DOMAIN_INDEX, DOMAIN_TYPE_HOST)))"

lemma capture_no_NUL [simp]: "NUL \<notin> set (capture P mi i)"
  by (simp add: capture_def split: option.splits)

lemma get_substring_capture [simp]:
  "smtp_cmd_get_substring P mi i (Some []) 1000
     = Done (if capture P mi i = [] then CE_COMMON else CE_SUCCESS, capture P mi i)"
  by (simp add: smtp_cmd_get_substring_def capture_def split: option.splits)

text \<open>Both buffers of a recipient: appended to one after the other.\<close>

definition grown :: "msg_t \<Rightarrow> string \<Rightarrow> msg_t \<Rightarrow> world \<Rightarrow> bool" where
  "grown m s m' w \<longleftrightarrow> msg_wf m' \<and> (oom w = [] \<longrightarrow> content m' = content m @ s)
     \<and> (oom w = [] \<and> zero_padded m \<and> content m = [] \<and> NUL \<notin> set s \<and> length s \<noteq> max_size m \<longrightarrow> cstr_ok m')"

lemma grownI:
  assumes "msg_wf m" "n \<le> length b" "msg_add_text m b n w = Done (e, m', w')" "oom w = [] \<longrightarrow> e = CE_SUCCESS"
    "msg_wf m'" "e = CE_SUCCESS \<longrightarrow> content m' = content m @ take n b" "oom v = [] \<longrightarrow> oom w = []"
  shows "grown m (take n b) m' v"
  using assms msg_add_text_cstr [OF assms(1) _ _ assms(2), of w m' w'] by (auto simp: grown_def)

lemma add_two_ok:
  assumes "msg_wf l" "msg_wf d" "n1 \<le> length b1" "n2 \<le> length b2"
  shows "\<exists>e1 l' w1 e2 d' w2. msg_add_text l b1 n1 w = Done (e1, l', w1) \<and> msg_add_text d b2 n2 w1 = Done (e2, d', w2)
    \<and> grown l (take n1 b1) l' w \<and> grown d (take n2 b2) d' w \<and> only_oom w w2 \<and> (oom w = [] \<longrightarrow> w2 = w)"
proof -
  from msg_add_text_total [OF assms(1,3), of w] obtain e1 l' w1 where
    l: "msg_add_text l b1 n1 w = Done (e1, l', w1)" "msg_wf l'" "only_oom w w1"
      "e1 = CE_SUCCESS \<longrightarrow> content l' = content l @ take n1 b1" "oom w = [] \<longrightarrow> e1 = CE_SUCCESS \<and> w1 = w" by blast
  from msg_add_text_total [OF assms(2,4), of w1] obtain e2 d' w2 where
    d: "msg_add_text d b2 n2 w1 = Done (e2, d', w2)" "msg_wf d'" "only_oom w1 w2"
      "e2 = CE_SUCCESS \<longrightarrow> content d' = content d @ take n2 b2" "oom w1 = [] \<longrightarrow> e2 = CE_SUCCESS \<and> w2 = w1" by blast
  have "grown l (take n1 b1) l' w" by (rule grownI [OF assms(1,3) l(1) _ l(2,4)]) (use l(5) in auto)
  moreover have "grown d (take n2 b2) d' w" by (rule grownI [OF assms(2,4) d(1) _ d(2,4)]) (use l(5) d(5) in auto)
  moreover have "oom w = [] \<longrightarrow> w2 = w" using l(5) d(5) by auto
  ultimately show ?thesis using l(1) d(1) only_oom_trans [OF l(3) d(3)] by blast
qed

lemma add_postmaster_ok:
  assumes "msg_wf l" "msg_wf d" "n \<le> length dm"
  shows "\<exists>l' d' w'. add_postmaster l d dm n w = Done (l', d', w') \<and> grown l ''Postmaster'' l' w
    \<and> grown d (take n dm) d' w \<and> only_oom w w' \<and> (oom w = [] \<longrightarrow> w' = w)"
proof -
  from add_two_ok [OF assms(1,2) _ assms(3), of "length ''Postmaster''" "as_array ''Postmaster''" w]
  show ?thesis unfolding add_postmaster_def take_as_array by auto
qed

lemma add_forward_path_ok:
  assumes "msg_wf l" "msg_wf d"
    "capture P mi MI_RCPT_TO_POSTMASTER_INDEX = []" "capture P mi MI_RCPT_TO_POSTMASTER_FULL_DOMAIN_INDEX = []"
  shows "\<exists>l' d' ty w'. add_forward_path P mi [] l d w = Done (l', d', ty, w')
    \<and> grown l (fst (parsed_rcpt P mi s t)) l' w \<and> grown d (fst (snd (parsed_rcpt P mi s t))) d' w
    \<and> ty = snd (snd (parsed_rcpt P mi s t)) \<and> only_oom w w' \<and> (oom w = [] \<longrightarrow> w' = w)"
proof -
  define lp where "lp = fst (parsed_rcpt P mi s t)"
  define dp where "dp = fst (snd (parsed_rcpt P mi s t))"
  have nul: "NUL \<notin> set lp" "NUL \<notin> set dp" using assms(3,4) by (auto simp: lp_def dp_def parsed_rcpt_def)
  from add_two_ok [OF assms(1,2) strlen_le(1) [of lp] strlen_le(1) [of dp], of w]
  obtain e1 l' w1 e2 d' w2 where r: "msg_add_text l (as_array lp) (strlen lp) w = Done (e1, l', w1)"
    "msg_add_text d (as_array dp) (strlen dp) w1 = Done (e2, d', w2)"
    "grown l lp l' w" "grown d dp d' w" "only_oom w w2" "oom w = [] \<longrightarrow> w2 = w"
    by (auto simp: take_strlen nul)
  have "add_forward_path P mi [] l d w = Done (l', d', snd (snd (parsed_rcpt P mi s t)), w2)"
    using r(1,2) assms(3,4) by (simp add: add_forward_path_def lp_def dp_def parsed_rcpt_def split: if_splits)
  with r show ?thesis by (simp add: lp_def dp_def)
qed

lemma take_domain: "NUL \<notin> set s \<Longrightarrow> take (strlen (as_array s) + 1) (as_array s) = as_array s"
  by simp

lemma client_add_rcpt_to_stored:
  fixes P :: pcre_lib and mi :: match_info
  assumes dn: "NUL \<notin> set (domain (mail_writer c))" and free: "length (rcpts c) \<noteq> SMTP_RCPT_MAX_SIZE"
    and l: "msg_init 50 w = (CE_SUCCESS, l, w1)" and d: "msg_init 50 w1 = (CE_SUCCESS, d, w2)"
    and ini: "msg_wf l" "msg_wf d"
  defines "ld \<equiv> parsed_rcpt P mi (domain (mail_writer c)) (stale_type c (length (rcpts c)))"
  shows "\<exists>l' d' w'. client_add_rcpt_to P c mi w = Done (CE_SUCCESS, c\<lparr>rcpts := rcpts c @
          [\<lparr>local_part = l', rdomain = d', domain_type = snd (snd ld)\<rparr>]\<rparr>, w')
        \<and> grown l (fst ld) l' w2 \<and> grown d (fst (snd ld)) d' w2 \<and> only_oom w2 w' \<and> (oom w2 = [] \<longrightarrow> w' = w2)"
proof (cases "capture P mi MI_RCPT_TO_POSTMASTER_INDEX = []")
  case False
  obtain l' d' w' where "add_postmaster l d (as_array (domain (mail_writer c)))
      (strlen (as_array (domain (mail_writer c))) + 1) w2 = Done (l', d', w')"
    "grown l ''Postmaster'' l' w2" "grown d (as_array (domain (mail_writer c))) d' w2"
    "only_oom w2 w'" "oom w2 = [] \<longrightarrow> w' = w2"
    using add_postmaster_ok [OF ini strlen_le(3) [of "domain (mail_writer c)"], of w2]
    unfolding take_domain [OF dn] by blast
  with False free l d show ?thesis by (intro exI [of _ l'] exI [of _ d'] exI [of _ w']) (simp add: client_add_rcpt_to_def Let_def parsed_rcpt_def ld_def)
next
  case p: True
  show ?thesis
  proof (cases "capture P mi MI_RCPT_TO_POSTMASTER_FULL_DOMAIN_INDEX = []")
    case False
    define b where "b = capture P mi MI_RCPT_TO_POSTMASTER_FULL_DOMAIN_INDEX"
    obtain l' d' w' where "add_postmaster l d (as_array b) (strlen b) w2 = Done (l', d', w')"
      "grown l ''Postmaster'' l' w2" "grown d b d' w2" "only_oom w2 w'" "oom w2 = [] \<longrightarrow> w' = w2"
      using add_postmaster_ok [OF ini strlen_le(1) [of b], of w2]
      by (auto simp: take_strlen b_def)
    with p False free l d show ?thesis
      by (intro exI [of _ l'] exI [of _ d'] exI [of _ w']) (simp add: client_add_rcpt_to_def Let_def parsed_rcpt_def b_def ld_def)
  next
    case True
    obtain l' d' ty w' where "add_forward_path P mi [] l d w2 = Done (l', d', ty, w')"
      "grown l (fst ld) l' w2" "grown d (fst (snd ld)) d' w2" "ty = snd (snd ld)"
      "only_oom w2 w'" "oom w2 = [] \<longrightarrow> w' = w2"
      using add_forward_path_ok [OF ini p True, of w2] unfolding ld_def by blast
    with p True free l d show ?thesis
      by (intro exI [of _ l'] exI [of _ d'] exI [of _ w']) (simp add: client_add_rcpt_to_def Let_def)
  qed
qed

text \<open>
  Adding a recipient never faults, keeps the session well formed and stores what the line
  names; the hundred-and-first recipient is refused with \<open>CE_MAX_SIZE\<close>.
\<close>

lemma client_add_rcpt_to_ok:
  assumes wf: "session_wf c" and dn: "NUL \<notin> set (domain (mail_writer c))"
  shows "\<exists>e rs w'. client_add_rcpt_to P c mi w = Done (e, c\<lparr>rcpts := rs\<rparr>, w') \<and> session_wf (c\<lparr>rcpts := rs\<rparr>)
    \<and> only_oom w w'
    \<and> (e \<noteq> CE_SUCCESS \<longrightarrow> rs = rcpts c)
    \<and> (e = CE_SUCCESS \<longrightarrow> length (rcpts c) < SMTP_RCPT_MAX_SIZE \<and> (\<exists>r. rs = rcpts c @ [r]))
    \<and> (oom w = [] \<longrightarrow> w' = w \<and> (if length (rcpts c) = SMTP_RCPT_MAX_SIZE then e = CE_MAX_SIZE
         else e = CE_SUCCESS \<and> (content (local_part (last rs)), content (rdomain (last rs)), domain_type (last rs))
                = parsed_rcpt P mi (domain (mail_writer c)) (stale_type c (length (rcpts c)))))"
    (is "\<exists>e rs w'. ?Q e rs w'")
proof (cases "length (rcpts c) = SMTP_RCPT_MAX_SIZE")
  case True
  then have "client_add_rcpt_to P c mi w = Done (CE_MAX_SIZE, c, w)"
    by (simp add: client_add_rcpt_to_def)
  with wf True have "?Q CE_MAX_SIZE (rcpts c) w" by simp
  then show ?thesis by blast
next
  case free: False
  with wf have lt: "length (rcpts c) < SMTP_RCPT_MAX_SIZE" by (simp add: session_wf_def)
  obtain e1 l w1 where l: "msg_init 50 w = (e1, l, w1)" by (cases "msg_init 50 w")
  obtain e2 d w2 where d: "msg_init 50 w1 = (e2, d, w2)" by (cases "msg_init 50 w1")
  have oo: "only_oom w w1" "only_oom w1 w2"
    using l d by (auto simp: msg_init_def split: prod.splits if_splits dest: alloc_only_oom)
  show ?thesis
  proof (cases "e1 = CE_SUCCESS \<and> e2 = CE_SUCCESS")
    case False
    have np: "oom w \<noteq> []" using False l d by (cases "oom w = []") auto
    obtain w' where "client_add_rcpt_to P c mi w = Done (CE_INIT_3RD, c, w')" "only_oom w w'"
      using free l d oo False only_oom_trans by (cases "e1 = CE_SUCCESS") (auto simp: client_add_rcpt_to_def Let_def)
    with wf np have "?Q CE_INIT_3RD (rcpts c) w'" by simp
    then show ?thesis by blast
  next
    case ok: True
    let ?ld = "parsed_rcpt P mi (domain (mail_writer c)) (stale_type c (length (rcpts c)))"
    have ini: "msg_wf l" "content l = []" "msg_wf d" "content d = []"
      using msg_init_cases [OF l] msg_init_cases [OF d] ok by auto
    have "\<exists>l' d' w'. client_add_rcpt_to P c mi w = Done (CE_SUCCESS, c\<lparr>rcpts := rcpts c @
          [\<lparr>local_part = l', rdomain = d', domain_type = snd (snd ?ld)\<rparr>]\<rparr>, w')
        \<and> grown l (fst ?ld) l' w2 \<and> grown d (fst (snd ?ld)) d' w2 \<and> only_oom w2 w' \<and> (oom w2 = [] \<longrightarrow> w' = w2)"
      using client_add_rcpt_to_stored [OF dn free] l d ok ini by blast
    then obtain l' d' w' where r: "client_add_rcpt_to P c mi w = Done (CE_SUCCESS, c\<lparr>rcpts := rcpts c @
          [\<lparr>local_part = l', rdomain = d', domain_type = snd (snd ?ld)\<rparr>]\<rparr>, w')"
      "grown l (fst ?ld) l' w2" "grown d (fst (snd ?ld)) d' w2" "only_oom w2 w'" "oom w2 = [] \<longrightarrow> w' = w2" by blast
    have "oom w = [] \<longrightarrow> w2 = w" using l d by auto
    with r ini lt wf only_oom_trans [OF only_oom_trans [OF oo] r(4)]
    have "?Q CE_SUCCESS (rcpts c @ [\<lparr>local_part = l', rdomain = d', domain_type = snd (snd ?ld)\<rparr>]) w'"
      by (auto simp: grown_def session_wf_def)
    then show ?thesis by blast
  qed
qed

text \<open>
  With memory to spare a recipient that is not the bare postmaster is stored so that both of
  its parts can be read as C strings, unless a part has exactly the 50 characters of a new
  buffer.
\<close>

definition rcpt_names :: "receiver_t \<Rightarrow> string \<times> string \<times> DOMAIN_TYPE" where
  "rcpt_names r = (content (local_part r), content (rdomain r), domain_type r)"

definition storable :: "string \<times> string \<times> DOMAIN_TYPE \<Rightarrow> bool" where
  "storable q \<longleftrightarrow> NUL \<notin> set (fst q) \<and> NUL \<notin> set (fst (snd q)) \<and> length (fst q) \<noteq> 50 \<and> length (fst (snd q)) \<noteq> 50"

lemma client_add_rcpt_to_readable:
  assumes wf: "session_wf c" and dn: "NUL \<notin> set (domain (mail_writer c))" and w: "oom w = []"
    and room: "length (rcpts c) < SMTP_RCPT_MAX_SIZE"
    and q: "parsed_rcpt P mi (domain (mail_writer c)) (stale_type c (length (rcpts c))) = q" "storable q"
  shows "\<exists>r. client_add_rcpt_to P c mi w = Done (CE_SUCCESS, c\<lparr>rcpts := rcpts c @ [r]\<rparr>, w) \<and> rcpt_names r = q \<and> rcv_ok r
    \<and> session_wf (c\<lparr>rcpts := rcpts c @ [r]\<rparr>)"
proof -
  let ?m = "\<lparr>mtext = Some (replicate 50 NUL), msize = 0, max_size = 50\<rparr>"
  have m: "msg_wf ?m" "zero_padded ?m" "content ?m = []" by (simp_all add: msg_wf_def zero_padded_def content_def)
  from client_add_rcpt_to_stored [OF dn _ msg_init_plenty [OF w] msg_init_plenty [OF w] m(1,1), of P mi] room
  obtain l' d' where r: "client_add_rcpt_to P c mi w = Done (CE_SUCCESS, c\<lparr>rcpts := rcpts c @
      [\<lparr>local_part = l', rdomain = d', domain_type = snd (snd q)\<rparr>]\<rparr>, w)" "grown ?m (fst q) l' w" "grown ?m (fst (snd q)) d' w"
    using w by (auto simp: q(1))
  let ?r = "\<lparr>local_part = l', rdomain = d', domain_type = snd (snd q)\<rparr>"
  have "rcpt_names ?r = q" using r(2,3) w m(3) by (simp add: grown_def rcpt_names_def)
  moreover have "rcv_ok ?r" using r(2,3) w m q(2) by (simp add: grown_def rcv_ok_def storable_def)
  moreover have "session_wf (c\<lparr>rcpts := rcpts c @ [?r]\<rparr>)" using wf room by (simp add: session_wf_def)
  ultimately show ?thesis using r(1) by blast
qed

end
