(* ===== verification/Table_Fsm.thy ===== *)
theory Table_Fsm
  imports Smtp_Prelude
begin

text \<open>
  The contract of an automaton generated by AutoFSM: a step function that runs a callback
  and returns the next state. Server and client each have one; both interpret this locale
  with the transition list of their \<^verbatim>\<open>.def\<close> file as the target function.
\<close>

locale table_fsm =
  fixes step :: "'s \<Rightarrow> 'e \<Rightarrow> 'x \<Rightarrow> ('s \<times> 'x) run"
    and target :: "'s \<Rightarrow> 'e \<Rightarrow> 's"
    and live :: "'s \<Rightarrow> bool"
    and start :: 's
  assumes live_step: "live s \<Longrightarrow> step s e x = Done (s', x') \<Longrightarrow> s' = target s e"
    and dead_step: "\<not> live s \<Longrightarrow> step s e x = Done (start, x)"
begin

definition next_state :: "'s \<Rightarrow> 'e \<Rightarrow> 's" where
  "next_state s e = (if live s then target s e else start)"

fun run_events :: "'s \<Rightarrow> 'e list \<Rightarrow> 'x \<Rightarrow> ('s \<times> 'x) run" where
  "run_events s [] x = Done (s, x)"
| "run_events s (e # es) x = rbind (step s e x) (\<lambda>(s', x'). run_events s' es x')"

lemma step_next: "step s e x = Done (s', x') \<Longrightarrow> s' = next_state s e"
  unfolding next_state_def using live_step [of s e x s' x'] dead_step [of s e x] by (cases "live s") simp_all

lemma run_events_state:
  "run_events s es x = Done (s', x') \<Longrightarrow> s' = fold (\<lambda>e s. next_state s e) es s"
proof (induction es arbitrary: s x)
  case (Cons e es)
  then obtain s1 x1 where s1: "step s e x = Done (s1, x1)" "run_events s1 es x1 = Done (s', x')"
    by (auto simp: rbind_Done_iff)
  with Cons.IH step_next show ?case by fastforce
qed simp

text \<open>A set of states closed under the events of a run is never left.\<close>

lemma run_events_closed:
  assumes "\<And>s e. s \<in> S \<Longrightarrow> e \<in> E \<Longrightarrow> next_state s e \<in> S" and "s \<in> S" and "set es \<subseteq> E"
    and "run_events s es x = Done (s', x')"
  shows "s' \<in> S"
proof -
  have "fold (\<lambda>e s. next_state s e) es s \<in> S" using assms(2,3)
    by (induction es arbitrary: s) (auto intro: assms(1))
  with run_events_state [OF assms(4)] show ?thesis by simp
qed

text \<open>What every step keeps of the data, every run keeps.\<close>

lemma run_events_inv:
  assumes "\<And>s e x s' x'. I x \<Longrightarrow> step s e x = Done (s', x') \<Longrightarrow> I x'"
    and "I x" and "run_events s es x = Done (s', x')"
  shows "I x'"
  using assms(2,3) by (induction es arbitrary: s x) (auto simp: rbind_Done_iff dest: assms(1))

end

end
