(* ===== verification/Server_Fsm.thy ===== *)
theory Server_Fsm
  imports Server_Session Table_Fsm
begin

text \<open>
  The protocol automaton of the server, \<^verbatim>\<open>server/src/client-fsm.c\<close>: one definition per
  callback, one per row of the transition table, and the step function. The transition
  list of \<^verbatim>\<open>server/src/client.def\<close>, from which the table was generated, is the
  specification; the table is shown to implement it and every callback to return the
  table's next state, \<open>client_do_invalid\<close> excepted, which stays in the current state.
\<close>

section \<open>Callbacks\<close>

type_synonym client_callback_t =
  "pcre_lib \<Rightarrow> client_t \<Rightarrow> match_info option \<Rightarrow> te_client_state \<Rightarrow> te_client_state \<Rightarrow> te_client_event
     \<Rightarrow> world \<Rightarrow> (te_client_state \<times> client_t \<times> world) run"

definition client_do_CLIENT_INITED_quit :: client_callback_t where
  "client_do_CLIENT_INITED_quit P c mi initial maybe_next trans_evt w =
     rbind (client_set_response c (as_array SMTP_QUIT_SUCCESS_ANSWER) (length SMTP_QUIT_SUCCESS_ANSWER) w)
       (\<lambda>(_, c', w'). Done (maybe_next, c', w'))"

definition client_do_CLIENT_INITED_shutdown :: client_callback_t where
  "client_do_CLIENT_INITED_shutdown P c mi initial maybe_next trans_evt w = Done (maybe_next, c, w)"

definition client_do_CLIENT_INITED_timeout :: client_callback_t where
  "client_do_CLIENT_INITED_timeout P c mi initial maybe_next trans_evt w = Done (maybe_next, c, w)"

definition client_do_CLIENT_INITED_unknown :: client_callback_t where
  "client_do_CLIENT_INITED_unknown P c mi initial maybe_next trans_evt w = Done (maybe_next, c, w)"

definition client_do_DATA_RECEIVED_quit :: client_callback_t where
  "client_do_DATA_RECEIVED_quit P c mi initial maybe_next trans_evt w =
     rbind (client_set_response c (as_array SMTP_QUIT_SUCCESS_ANSWER) (length SMTP_QUIT_SUCCESS_ANSWER) w)
       (\<lambda>(_, c', w'). Done (maybe_next, c', w'))"

definition client_do_DATA_RECEIVED_shutdown :: client_callback_t where
  "client_do_DATA_RECEIVED_shutdown P c mi initial maybe_next trans_evt w = Done (maybe_next, c, w)"

definition client_do_DATA_RECEIVED_timeout :: client_callback_t where
  "client_do_DATA_RECEIVED_timeout P c mi initial maybe_next trans_evt w = Done (maybe_next, c, w)"

definition client_do_DATA_RECEIVED_unknown :: client_callback_t where
  "client_do_DATA_RECEIVED_unknown P c mi initial maybe_next trans_evt w = Done (maybe_next, c, w)"

definition client_do_EHLO_RECEIVED_quit :: client_callback_t where
  "client_do_EHLO_RECEIVED_quit P c mi initial maybe_next trans_evt w =
     rbind (client_set_response c (as_array SMTP_QUIT_SUCCESS_ANSWER) (length SMTP_QUIT_SUCCESS_ANSWER) w)
       (\<lambda>(_, c', w'). Done (maybe_next, c', w'))"

definition client_do_EHLO_RECEIVED_shutdown :: client_callback_t where
  "client_do_EHLO_RECEIVED_shutdown P c mi initial maybe_next trans_evt w = Done (maybe_next, c, w)"

definition client_do_EHLO_RECEIVED_timeout :: client_callback_t where
  "client_do_EHLO_RECEIVED_timeout P c mi initial maybe_next trans_evt w = Done (maybe_next, c, w)"

definition client_do_EHLO_RECEIVED_unknown :: client_callback_t where
  "client_do_EHLO_RECEIVED_unknown P c mi initial maybe_next trans_evt w = Done (maybe_next, c, w)"

definition client_do_END_DATA_RECEIVED_quit :: client_callback_t where
  "client_do_END_DATA_RECEIVED_quit P c mi initial maybe_next trans_evt w = Done (maybe_next, c, w)"

definition client_do_END_DATA_RECEIVED_shutdown :: client_callback_t where
  "client_do_END_DATA_RECEIVED_shutdown P c mi initial maybe_next trans_evt w = Done (maybe_next, c, w)"

definition client_do_END_DATA_RECEIVED_timeout :: client_callback_t where
  "client_do_END_DATA_RECEIVED_timeout P c mi initial maybe_next trans_evt w = Done (maybe_next, c, w)"

definition client_do_END_DATA_RECEIVED_unknown :: client_callback_t where
  "client_do_END_DATA_RECEIVED_unknown P c mi initial maybe_next trans_evt w = Done (maybe_next, c, w)"

definition client_do_EXPECTED_MSG_TEXT_OR_END_MSG_quit :: client_callback_t where
  "client_do_EXPECTED_MSG_TEXT_OR_END_MSG_quit P c mi initial maybe_next trans_evt w = Done (maybe_next, c, w)"

definition client_do_EXPECTED_MSG_TEXT_OR_END_MSG_shutdown :: client_callback_t where
  "client_do_EXPECTED_MSG_TEXT_OR_END_MSG_shutdown P c mi initial maybe_next trans_evt w = Done (maybe_next, c, w)"

definition client_do_EXPECTED_MSG_TEXT_OR_END_MSG_timeout :: client_callback_t where
  "client_do_EXPECTED_MSG_TEXT_OR_END_MSG_timeout P c mi initial maybe_next trans_evt w = Done (maybe_next, c, w)"

definition client_do_EXPECTED_MSG_TEXT_OR_END_MSG_unknown :: client_callback_t where
  "client_do_EXPECTED_MSG_TEXT_OR_END_MSG_unknown P c mi initial maybe_next trans_evt w = Done (maybe_next, c, w)"

definition client_do_EXPECTED_RCPT_OR_DATA_quit :: client_callback_t where
  "client_do_EXPECTED_RCPT_OR_DATA_quit P c mi initial maybe_next trans_evt w =
     rbind (client_set_response c (as_array SMTP_QUIT_SUCCESS_ANSWER) (length SMTP_QUIT_SUCCESS_ANSWER) w)
       (\<lambda>(_, c', w'). Done (maybe_next, c', w'))"

definition client_do_EXPECTED_RCPT_OR_DATA_shutdown :: client_callback_t where
  "client_do_EXPECTED_RCPT_OR_DATA_shutdown P c mi initial maybe_next trans_evt w = Done (maybe_next, c, w)"

definition client_do_EXPECTED_RCPT_OR_DATA_timeout :: client_callback_t where
  "client_do_EXPECTED_RCPT_OR_DATA_timeout P c mi initial maybe_next trans_evt w = Done (maybe_next, c, w)"

definition client_do_EXPECTED_RCPT_OR_DATA_unknown :: client_callback_t where
  "client_do_EXPECTED_RCPT_OR_DATA_unknown P c mi initial maybe_next trans_evt w = Done (maybe_next, c, w)"

definition client_do_HELLO_RECEIVED_quit :: client_callback_t where
  "client_do_HELLO_RECEIVED_quit P c mi initial maybe_next trans_evt w = Done (maybe_next, c, w)"

definition client_do_HELLO_RECEIVED_shutdown :: client_callback_t where
  "client_do_HELLO_RECEIVED_shutdown P c mi initial maybe_next trans_evt w = Done (maybe_next, c, w)"

definition client_do_HELLO_RECEIVED_timeout :: client_callback_t where
  "client_do_HELLO_RECEIVED_timeout P c mi initial maybe_next trans_evt w = Done (maybe_next, c, w)"

definition client_do_HELLO_RECEIVED_unknown :: client_callback_t where
  "client_do_HELLO_RECEIVED_unknown P c mi initial maybe_next trans_evt w = Done (maybe_next, c, w)"

definition client_do_INIT_quit :: client_callback_t where
  "client_do_INIT_quit P c mi initial maybe_next trans_evt w = Done (maybe_next, c, w)"

definition client_do_INIT_shutdown :: client_callback_t where
  "client_do_INIT_shutdown P c mi initial maybe_next trans_evt w = Done (maybe_next, c, w)"

definition client_do_INIT_timeout :: client_callback_t where
  "client_do_INIT_timeout P c mi initial maybe_next trans_evt w = Done (maybe_next, c, w)"

definition client_do_INIT_unknown :: client_callback_t where
  "client_do_INIT_unknown P c mi initial maybe_next trans_evt w = Done (maybe_next, c, w)"

definition client_do_MAIL_RECEIVED_quit :: client_callback_t where
  "client_do_MAIL_RECEIVED_quit P c mi initial maybe_next trans_evt w = Done (maybe_next, c, w)"

definition client_do_MAIL_RECEIVED_shutdown :: client_callback_t where
  "client_do_MAIL_RECEIVED_shutdown P c mi initial maybe_next trans_evt w = Done (maybe_next, c, w)"

definition client_do_MAIL_RECEIVED_timeout :: client_callback_t where
  "client_do_MAIL_RECEIVED_timeout P c mi initial maybe_next trans_evt w = Done (maybe_next, c, w)"

definition client_do_MAIL_RECEIVED_unknown :: client_callback_t where
  "client_do_MAIL_RECEIVED_unknown P c mi initial maybe_next trans_evt w = Done (maybe_next, c, w)"

definition client_do_QUIT_RECEIVED_quit :: client_callback_t where
  "client_do_QUIT_RECEIVED_quit P c mi initial maybe_next trans_evt w = Done (maybe_next, c, w)"

definition client_do_QUIT_RECEIVED_shutdown :: client_callback_t where
  "client_do_QUIT_RECEIVED_shutdown P c mi initial maybe_next trans_evt w = Done (maybe_next, c, w)"

definition client_do_QUIT_RECEIVED_timeout :: client_callback_t where
  "client_do_QUIT_RECEIVED_timeout P c mi initial maybe_next trans_evt w = Done (maybe_next, c, w)"

definition client_do_QUIT_RECEIVED_unknown :: client_callback_t where
  "client_do_QUIT_RECEIVED_unknown P c mi initial maybe_next trans_evt w = Done (maybe_next, c, w)"

definition client_do_RCPT_RECEIVED_quit :: client_callback_t where
  "client_do_RCPT_RECEIVED_quit P c mi initial maybe_next trans_evt w = Done (maybe_next, c, w)"

definition client_do_RCPT_RECEIVED_shutdown :: client_callback_t where
  "client_do_RCPT_RECEIVED_shutdown P c mi initial maybe_next trans_evt w = Done (maybe_next, c, w)"

definition client_do_RCPT_RECEIVED_timeout :: client_callback_t where
  "client_do_RCPT_RECEIVED_timeout P c mi initial maybe_next trans_evt w = Done (maybe_next, c, w)"

definition client_do_RCPT_RECEIVED_unknown :: client_callback_t where
  "client_do_RCPT_RECEIVED_unknown P c mi initial maybe_next trans_evt w = Done (maybe_next, c, w)"

definition client_do_RSET_RECEIVED_quit :: client_callback_t where
  "client_do_RSET_RECEIVED_quit P c mi initial maybe_next trans_evt w = Done (maybe_next, c, w)"

definition client_do_RSET_RECEIVED_shutdown :: client_callback_t where
  "client_do_RSET_RECEIVED_shutdown P c mi initial maybe_next trans_evt w = Done (maybe_next, c, w)"

definition client_do_RSET_RECEIVED_timeout :: client_callback_t where
  "client_do_RSET_RECEIVED_timeout P c mi initial maybe_next trans_evt w = Done (maybe_next, c, w)"

definition client_do_RSET_RECEIVED_unknown :: client_callback_t where
  "client_do_RSET_RECEIVED_unknown P c mi initial maybe_next trans_evt w = Done (maybe_next, c, w)"

definition client_do_SHUTDOWN_quit :: client_callback_t where
  "client_do_SHUTDOWN_quit P c mi initial maybe_next trans_evt w = Done (maybe_next, c, w)"

definition client_do_SHUTDOWN_shutdown :: client_callback_t where
  "client_do_SHUTDOWN_shutdown P c mi initial maybe_next trans_evt w = Done (maybe_next, c, w)"

definition client_do_SHUTDOWN_timeout :: client_callback_t where
  "client_do_SHUTDOWN_timeout P c mi initial maybe_next trans_evt w = Done (maybe_next, c, w)"

definition client_do_SHUTDOWN_unknown :: client_callback_t where
  "client_do_SHUTDOWN_unknown P c mi initial maybe_next trans_evt w = Done (maybe_next, c, w)"

definition client_do_TIMEOUT_quit :: client_callback_t where
  "client_do_TIMEOUT_quit P c mi initial maybe_next trans_evt w = Done (maybe_next, c, w)"

definition client_do_TIMEOUT_shutdown :: client_callback_t where
  "client_do_TIMEOUT_shutdown P c mi initial maybe_next trans_evt w = Done (maybe_next, c, w)"

definition client_do_TIMEOUT_timeout :: client_callback_t where
  "client_do_TIMEOUT_timeout P c mi initial maybe_next trans_evt w = Done (maybe_next, c, w)"

definition client_do_TIMEOUT_unknown :: client_callback_t where
  "client_do_TIMEOUT_unknown P c mi initial maybe_next trans_evt w = Done (maybe_next, c, w)"

definition client_do_VRFY_RECEIVED_quit :: client_callback_t where
  "client_do_VRFY_RECEIVED_quit P c mi initial maybe_next trans_evt w = Done (maybe_next, c, w)"

definition client_do_VRFY_RECEIVED_shutdown :: client_callback_t where
  "client_do_VRFY_RECEIVED_shutdown P c mi initial maybe_next trans_evt w = Done (maybe_next, c, w)"

definition client_do_VRFY_RECEIVED_timeout :: client_callback_t where
  "client_do_VRFY_RECEIVED_timeout P c mi initial maybe_next trans_evt w = Done (maybe_next, c, w)"

definition client_do_VRFY_RECEIVED_unknown :: client_callback_t where
  "client_do_VRFY_RECEIVED_unknown P c mi initial maybe_next trans_evt w = Done (maybe_next, c, w)"

definition client_do_WAIT_HELLO_OR_EHLO_quit :: client_callback_t where
  "client_do_WAIT_HELLO_OR_EHLO_quit P c mi initial maybe_next trans_evt w = Done (maybe_next, c, w)"

definition client_do_WAIT_HELLO_OR_EHLO_shutdown :: client_callback_t where
  "client_do_WAIT_HELLO_OR_EHLO_shutdown P c mi initial maybe_next trans_evt w = Done (maybe_next, c, w)"

definition client_do_WAIT_HELLO_OR_EHLO_timeout :: client_callback_t where
  "client_do_WAIT_HELLO_OR_EHLO_timeout P c mi initial maybe_next trans_evt w = Done (maybe_next, c, w)"

definition client_do_WAIT_HELLO_OR_EHLO_unknown :: client_callback_t where
  "client_do_WAIT_HELLO_OR_EHLO_unknown P c mi initial maybe_next trans_evt w = Done (maybe_next, c, w)"

definition client_do_client_inited_mail :: client_callback_t where
  "client_do_client_inited_mail P c mi initial maybe_next trans_evt w =
     (case mi of None \<Rightarrow> Fault Null_Deref
      | Some match_info \<Rightarrow>
          rbind (smtp_cmd_get_substring P match_info MI_MAIL_FROM_REVERSE_PATH_INDEX None 1000)
          (\<lambda>(e, buf). rbind (if e = CE_SUCCESS then client_add_mail_from c (as_array buf) (strlen buf) w
                            else Done (e, c, w))
          (\<lambda>(_, c1, w1). rbind (client_set_response c1 (as_array SMTP_SUCCESS_ANSWER) (length SMTP_SUCCESS_ANSWER) w1)
          (\<lambda>(_, c2, w2). Done (maybe_next, c2, w2)))))"

definition client_do_client_inited_rset :: client_callback_t where
  "client_do_client_inited_rset P c mi initial maybe_next trans_evt w = Done (maybe_next, c, w)"

definition client_do_client_inited_vrfy :: client_callback_t where
  "client_do_client_inited_vrfy P c mi initial maybe_next trans_evt w =
     rbind (client_set_response c (as_array SMTP_NOT_IMPLEMENTED_ANSWER) (length SMTP_NOT_IMPLEMENTED_ANSWER) w)
       (\<lambda>(_, c', w'). Done (maybe_next, c', w'))"

definition client_do_data_received_response :: client_callback_t where
  "client_do_data_received_response P c mi initial maybe_next trans_evt w = Done (maybe_next, c, w)"

definition client_do_ehlo_received_response :: client_callback_t where
  "client_do_ehlo_received_response P c mi initial maybe_next trans_evt w = Done (maybe_next, c, w)"

definition client_do_end_data_received_response :: client_callback_t where
  "client_do_end_data_received_response P c mi initial maybe_next trans_evt w = Done (maybe_next, c, w)"

definition client_do_expected_msg_text_or_end_msg_end_data :: client_callback_t where
  "client_do_expected_msg_text_or_end_msg_end_data P c mi initial maybe_next trans_evt w =
     (case mi of None \<Rightarrow> Fault Null_Deref
      | Some match_info \<Rightarrow>
          rbind (case sub_str match_info of [] \<Rightarrow> Fault Uninit_Read
                 | s0 # _ \<Rightarrow> if s0 = 0 then Done (CE_SUCCESS, c, w)
                             else if s0 < 0 then Fault Out_Of_Bounds
                             else client_add_msg_txt c (tested_line match_info) (nat s0) w)
          (\<lambda>(_, c1, w1). rbind (client_data_end_process c1 w1)
          (\<lambda>(_, c2, w2). rbind (client_set_response c2 (as_array SMTP_SUCCESS_ANSWER) (length SMTP_SUCCESS_ANSWER) w2)
          (\<lambda>(_, c3, w3). Done (maybe_next, c3, w3)))))"

definition client_do_expected_msg_text_or_end_msg_msg_text :: client_callback_t where
  "client_do_expected_msg_text_or_end_msg_msg_text P c mi initial maybe_next trans_evt w =
     (case mi of None \<Rightarrow> Fault Null_Deref
      | Some match_info \<Rightarrow>
          rbind (client_add_msg_txt c (tested_line match_info) (strlen (tested_line match_info)) w)
          (\<lambda>(_, c1, w1). Done (maybe_next, c1, w1)))"

definition client_do_expected_rcpt_or_data_data :: client_callback_t where
  "client_do_expected_rcpt_or_data_data P c mi initial maybe_next trans_evt w =
     rbind (client_set_response c (as_array SMTP_DATA_ACCEPTED_ANSWER) (length SMTP_DATA_ACCEPTED_ANSWER) w)
       (\<lambda>(_, c', w'). Done (maybe_next, c', w'))"

definition client_do_expected_rcpt_or_data_rcpt :: client_callback_t where
  "client_do_expected_rcpt_or_data_rcpt P c mi initial maybe_next trans_evt w =
     (case mi of None \<Rightarrow> Fault Null_Deref
      | Some match_info \<Rightarrow>
          rbind (client_add_rcpt_to P c match_info w)
          (\<lambda>(_, c1, w1). rbind (client_set_response c1 (as_array SMTP_SUCCESS_ANSWER) (length SMTP_SUCCESS_ANSWER) w1)
          (\<lambda>(_, c2, w2). Done (maybe_next, c2, w2))))"

definition client_do_hello_received_response :: client_callback_t where
  "client_do_hello_received_response P c mi initial maybe_next trans_evt w = Done (maybe_next, c, w)"

definition client_do_init_response :: client_callback_t where
  "client_do_init_response P c mi initial maybe_next trans_evt w = Done (maybe_next, c, w)"

definition client_do_invalid :: client_callback_t where
  "client_do_invalid P c mi initial maybe_next trans_evt w =
     (case trans_evt of
        CLIENT_EV_RESPONSE \<Rightarrow> Done (initial, c, w)
      | CLIENT_EV_UNKNOWN \<Rightarrow>
          rbind (client_set_response c (as_array SMTP_UNKNOWN_CMD_ANSWER) (length SMTP_UNKNOWN_CMD_ANSWER)
                   (log_msg WARNING ''client_fsm'' w))
          (\<lambda>(_, c', w'). Done (initial, c', w'))
      | _ \<Rightarrow>
          rbind (client_set_response c (as_array SMTP_BAD_SEQUENCE_ANSWER) (length SMTP_BAD_SEQUENCE_ANSWER)
                   (log_msg WARNING ''client_fsm'' w))
          (\<lambda>(_, c', w'). Done (initial, c', w')))"

definition client_do_mail_received_response :: client_callback_t where
  "client_do_mail_received_response P c mi initial maybe_next trans_evt w = Done (maybe_next, c, w)"

definition client_do_quit_received_response :: client_callback_t where
  "client_do_quit_received_response P c mi initial maybe_next trans_evt w = Done (maybe_next, c, w)"

definition client_do_rcpt_received_response :: client_callback_t where
  "client_do_rcpt_received_response P c mi initial maybe_next trans_evt w = Done (maybe_next, c, w)"

definition client_do_rset_received_response :: client_callback_t where
  "client_do_rset_received_response P c mi initial maybe_next trans_evt w = Done (maybe_next, c, w)"

definition client_do_shutdown_response :: client_callback_t where
  "client_do_shutdown_response P c mi initial maybe_next trans_evt w = Done (maybe_next, c, w)"

definition client_do_timeout_response :: client_callback_t where
  "client_do_timeout_response P c mi initial maybe_next trans_evt w = Done (maybe_next, c, w)"

definition client_do_vrfy_received_response :: client_callback_t where
  "client_do_vrfy_received_response P c mi initial maybe_next trans_evt w = Done (maybe_next, c, w)"

definition client_do_wait_hello_or_ehlo_ehlo :: client_callback_t where
  "client_do_wait_hello_or_ehlo_ehlo P c mi initial maybe_next trans_evt w =
     (case mi of None \<Rightarrow> Fault Null_Deref
      | Some match_info \<Rightarrow>
          rbind (smtp_cmd_get_substring P match_info MI_EHLO_INFO_INDEX None 1000)
          (\<lambda>(e, buf). rbind (if e = CE_SUCCESS then client_add_greating_info c (as_array buf) (strlen buf) w
                            else Done (e, c, w))
          (\<lambda>(_, c1, w1). rbind (client_set_response c1 (as_array SMTP_SUCCESS_ANSWER) (length SMTP_SUCCESS_ANSWER) w1)
          (\<lambda>(_, c2, w2). Done (maybe_next, c2, w2)))))"

definition client_do_wait_hello_or_ehlo_helo :: client_callback_t where
  "client_do_wait_hello_or_ehlo_helo P c mi initial maybe_next trans_evt w =
     (case mi of None \<Rightarrow> Fault Null_Deref
      | Some match_info \<Rightarrow>
          rbind (smtp_cmd_get_substring P match_info MI_HELO_INFO_INDEX None 1000)
          (\<lambda>(e, buf). rbind (if e = CE_SUCCESS then client_add_greating_info c (as_array buf) (strlen buf) w
                            else Done (e, c, w))
          (\<lambda>(_, c1, w1). rbind (client_set_response c1 (as_array SMTP_SUCCESS_ANSWER) (length SMTP_SUCCESS_ANSWER) w1)
          (\<lambda>(_, c2, w2). Done (maybe_next, c2, w2)))))"

section \<open>The transition table\<close>

definition client_trans_INIT :: "(te_client_state \<times> client_callback_t) list" where
  "client_trans_INIT =
     [(CLIENT_ST_WAIT_HELLO_OR_EHLO, client_do_init_response),
      (CLIENT_ST_INVALID, client_do_invalid),
      (CLIENT_ST_INVALID, client_do_invalid),
      (CLIENT_ST_INVALID, client_do_invalid),
      (CLIENT_ST_INVALID, client_do_invalid),
      (CLIENT_ST_INVALID, client_do_invalid),
      (CLIENT_ST_INVALID, client_do_invalid),
      (CLIENT_ST_INVALID, client_do_invalid),
      (CLIENT_ST_INVALID, client_do_invalid),
      (CLIENT_ST_QUIT_RECEIVED, client_do_INIT_quit),
      (CLIENT_ST_INVALID, client_do_invalid),
      (CLIENT_ST_TIMEOUT, client_do_INIT_timeout),
      (CLIENT_ST_TIMEOUT, client_do_INIT_shutdown),
      (CLIENT_ST_INVALID, client_do_INIT_unknown)]"

definition client_trans_WAIT_HELLO_OR_EHLO :: "(te_client_state \<times> client_callback_t) list" where
  "client_trans_WAIT_HELLO_OR_EHLO =
     [(CLIENT_ST_INVALID, client_do_invalid),
      (CLIENT_ST_EHLO_RECEIVED, client_do_wait_hello_or_ehlo_ehlo),
      (CLIENT_ST_HELLO_RECEIVED, client_do_wait_hello_or_ehlo_helo),
      (CLIENT_ST_INVALID, client_do_invalid),
      (CLIENT_ST_INVALID, client_do_invalid),
      (CLIENT_ST_INVALID, client_do_invalid),
      (CLIENT_ST_INVALID, client_do_invalid),
      (CLIENT_ST_INVALID, client_do_invalid),
      (CLIENT_ST_INVALID, client_do_invalid),
      (CLIENT_ST_QUIT_RECEIVED, client_do_WAIT_HELLO_OR_EHLO_quit),
      (CLIENT_ST_INVALID, client_do_invalid),
      (CLIENT_ST_TIMEOUT, client_do_WAIT_HELLO_OR_EHLO_timeout),
      (CLIENT_ST_TIMEOUT, client_do_WAIT_HELLO_OR_EHLO_shutdown),
      (CLIENT_ST_INVALID, client_do_WAIT_HELLO_OR_EHLO_unknown)]"

definition client_trans_HELLO_RECEIVED :: "(te_client_state \<times> client_callback_t) list" where
  "client_trans_HELLO_RECEIVED =
     [(CLIENT_ST_CLIENT_INITED, client_do_hello_received_response),
      (CLIENT_ST_INVALID, client_do_invalid),
      (CLIENT_ST_INVALID, client_do_invalid),
      (CLIENT_ST_INVALID, client_do_invalid),
      (CLIENT_ST_INVALID, client_do_invalid),
      (CLIENT_ST_INVALID, client_do_invalid),
      (CLIENT_ST_INVALID, client_do_invalid),
      (CLIENT_ST_INVALID, client_do_invalid),
      (CLIENT_ST_INVALID, client_do_invalid),
      (CLIENT_ST_QUIT_RECEIVED, client_do_HELLO_RECEIVED_quit),
      (CLIENT_ST_INVALID, client_do_invalid),
      (CLIENT_ST_TIMEOUT, client_do_HELLO_RECEIVED_timeout),
      (CLIENT_ST_TIMEOUT, client_do_HELLO_RECEIVED_shutdown),
      (CLIENT_ST_INVALID, client_do_HELLO_RECEIVED_unknown)]"

definition client_trans_EHLO_RECEIVED :: "(te_client_state \<times> client_callback_t) list" where
  "client_trans_EHLO_RECEIVED =
     [(CLIENT_ST_CLIENT_INITED, client_do_ehlo_received_response),
      (CLIENT_ST_INVALID, client_do_invalid),
      (CLIENT_ST_INVALID, client_do_invalid),
      (CLIENT_ST_INVALID, client_do_invalid),
      (CLIENT_ST_INVALID, client_do_invalid),
      (CLIENT_ST_INVALID, client_do_invalid),
      (CLIENT_ST_INVALID, client_do_invalid),
      (CLIENT_ST_INVALID, client_do_invalid),
      (CLIENT_ST_INVALID, client_do_invalid),
      (CLIENT_ST_QUIT_RECEIVED, client_do_EHLO_RECEIVED_quit),
      (CLIENT_ST_INVALID, client_do_invalid),
      (CLIENT_ST_TIMEOUT, client_do_EHLO_RECEIVED_timeout),
      (CLIENT_ST_TIMEOUT, client_do_EHLO_RECEIVED_shutdown),
      (CLIENT_ST_INVALID, client_do_EHLO_RECEIVED_unknown)]"

definition client_trans_CLIENT_INITED :: "(te_client_state \<times> client_callback_t) list" where
  "client_trans_CLIENT_INITED =
     [(CLIENT_ST_INVALID, client_do_invalid),
      (CLIENT_ST_INVALID, client_do_invalid),
      (CLIENT_ST_INVALID, client_do_invalid),
      (CLIENT_ST_MAIL_RECEIVED, client_do_client_inited_mail),
      (CLIENT_ST_INVALID, client_do_invalid),
      (CLIENT_ST_INVALID, client_do_invalid),
      (CLIENT_ST_INVALID, client_do_invalid),
      (CLIENT_ST_INVALID, client_do_invalid),
      (CLIENT_ST_RSET_RECEIVED, client_do_client_inited_rset),
      (CLIENT_ST_QUIT_RECEIVED, client_do_CLIENT_INITED_quit),
      (CLIENT_ST_VRFY_RECEIVED, client_do_client_inited_vrfy),
      (CLIENT_ST_TIMEOUT, client_do_CLIENT_INITED_timeout),
      (CLIENT_ST_TIMEOUT, client_do_CLIENT_INITED_shutdown),
      (CLIENT_ST_INVALID, client_do_CLIENT_INITED_unknown)]"

definition client_trans_MAIL_RECEIVED :: "(te_client_state \<times> client_callback_t) list" where
  "client_trans_MAIL_RECEIVED =
     [(CLIENT_ST_EXPECTED_RCPT_OR_DATA, client_do_mail_received_response),
      (CLIENT_ST_INVALID, client_do_invalid),
      (CLIENT_ST_INVALID, client_do_invalid),
      (CLIENT_ST_INVALID, client_do_invalid),
      (CLIENT_ST_INVALID, client_do_invalid),
      (CLIENT_ST_INVALID, client_do_invalid),
      (CLIENT_ST_INVALID, client_do_invalid),
      (CLIENT_ST_INVALID, client_do_invalid),
      (CLIENT_ST_INVALID, client_do_invalid),
      (CLIENT_ST_QUIT_RECEIVED, client_do_MAIL_RECEIVED_quit),
      (CLIENT_ST_INVALID, client_do_invalid),
      (CLIENT_ST_TIMEOUT, client_do_MAIL_RECEIVED_timeout),
      (CLIENT_ST_TIMEOUT, client_do_MAIL_RECEIVED_shutdown),
      (CLIENT_ST_INVALID, client_do_MAIL_RECEIVED_unknown)]"

definition client_trans_EXPECTED_RCPT_OR_DATA :: "(te_client_state \<times> client_callback_t) list" where
  "client_trans_EXPECTED_RCPT_OR_DATA =
     [(CLIENT_ST_INVALID, client_do_invalid),
      (CLIENT_ST_INVALID, client_do_invalid),
      (CLIENT_ST_INVALID, client_do_invalid),
      (CLIENT_ST_INVALID, client_do_invalid),
      (CLIENT_ST_RCPT_RECEIVED, client_do_expected_rcpt_or_data_rcpt),
      (CLIENT_ST_DATA_RECEIVED, client_do_expected_rcpt_or_data_data),
      (CLIENT_ST_INVALID, client_do_invalid),
      (CLIENT_ST_INVALID, client_do_invalid),
      (CLIENT_ST_INVALID, client_do_invalid),
      (CLIENT_ST_QUIT_RECEIVED, client_do_EXPECTED_RCPT_OR_DATA_quit),
      (CLIENT_ST_INVALID, client_do_invalid),
      (CLIENT_ST_TIMEOUT, client_do_EXPECTED_RCPT_OR_DATA_timeout),
      (CLIENT_ST_TIMEOUT, client_do_EXPECTED_RCPT_OR_DATA_shutdown),
      (CLIENT_ST_INVALID, client_do_EXPECTED_RCPT_OR_DATA_unknown)]"

definition client_trans_RCPT_RECEIVED :: "(te_client_state \<times> client_callback_t) list" where
  "client_trans_RCPT_RECEIVED =
     [(CLIENT_ST_EXPECTED_RCPT_OR_DATA, client_do_rcpt_received_response),
      (CLIENT_ST_INVALID, client_do_invalid),
      (CLIENT_ST_INVALID, client_do_invalid),
      (CLIENT_ST_INVALID, client_do_invalid),
      (CLIENT_ST_INVALID, client_do_invalid),
      (CLIENT_ST_INVALID, client_do_invalid),
      (CLIENT_ST_INVALID, client_do_invalid),
      (CLIENT_ST_INVALID, client_do_invalid),
      (CLIENT_ST_INVALID, client_do_invalid),
      (CLIENT_ST_QUIT_RECEIVED, client_do_RCPT_RECEIVED_quit),
      (CLIENT_ST_INVALID, client_do_invalid),
      (CLIENT_ST_TIMEOUT, client_do_RCPT_RECEIVED_timeout),
      (CLIENT_ST_TIMEOUT, client_do_RCPT_RECEIVED_shutdown),
      (CLIENT_ST_INVALID, client_do_RCPT_RECEIVED_unknown)]"

definition client_trans_DATA_RECEIVED :: "(te_client_state \<times> client_callback_t) list" where
  "client_trans_DATA_RECEIVED =
     [(CLIENT_ST_EXPECTED_MSG_TEXT_OR_END_MSG, client_do_data_received_response),
      (CLIENT_ST_INVALID, client_do_invalid),
      (CLIENT_ST_INVALID, client_do_invalid),
      (CLIENT_ST_INVALID, client_do_invalid),
      (CLIENT_ST_INVALID, client_do_invalid),
      (CLIENT_ST_INVALID, client_do_invalid),
      (CLIENT_ST_INVALID, client_do_invalid),
      (CLIENT_ST_INVALID, client_do_invalid),
      (CLIENT_ST_INVALID, client_do_invalid),
      (CLIENT_ST_QUIT_RECEIVED, client_do_DATA_RECEIVED_quit),
      (CLIENT_ST_INVALID, client_do_invalid),
      (CLIENT_ST_TIMEOUT, client_do_DATA_RECEIVED_timeout),
      (CLIENT_ST_TIMEOUT, client_do_DATA_RECEIVED_shutdown),
      (CLIENT_ST_INVALID, client_do_DATA_RECEIVED_unknown)]"

definition client_trans_EXPECTED_MSG_TEXT_OR_END_MSG :: "(te_client_state \<times> client_callback_t) list" where
  "client_trans_EXPECTED_MSG_TEXT_OR_END_MSG =
     [(CLIENT_ST_INVALID, client_do_invalid),
      (CLIENT_ST_INVALID, client_do_invalid),
      (CLIENT_ST_INVALID, client_do_invalid),
      (CLIENT_ST_INVALID, client_do_invalid),
      (CLIENT_ST_INVALID, client_do_invalid),
      (CLIENT_ST_INVALID, client_do_invalid),
      (CLIENT_ST_EXPECTED_MSG_TEXT_OR_END_MSG, client_do_expected_msg_text_or_end_msg_msg_text),
      (CLIENT_ST_END_DATA_RECEIVED, client_do_expected_msg_text_or_end_msg_end_data),
      (CLIENT_ST_INVALID, client_do_invalid),
      (CLIENT_ST_QUIT_RECEIVED, client_do_EXPECTED_MSG_TEXT_OR_END_MSG_quit),
      (CLIENT_ST_INVALID, client_do_invalid),
      (CLIENT_ST_TIMEOUT, client_do_EXPECTED_MSG_TEXT_OR_END_MSG_timeout),
      (CLIENT_ST_TIMEOUT, client_do_EXPECTED_MSG_TEXT_OR_END_MSG_shutdown),
      (CLIENT_ST_INVALID, client_do_EXPECTED_MSG_TEXT_OR_END_MSG_unknown)]"

definition client_trans_END_DATA_RECEIVED :: "(te_client_state \<times> client_callback_t) list" where
  "client_trans_END_DATA_RECEIVED =
     [(CLIENT_ST_CLIENT_INITED, client_do_end_data_received_response),
      (CLIENT_ST_INVALID, client_do_invalid),
      (CLIENT_ST_INVALID, client_do_invalid),
      (CLIENT_ST_INVALID, client_do_invalid),
      (CLIENT_ST_INVALID, client_do_invalid),
      (CLIENT_ST_INVALID, client_do_invalid),
      (CLIENT_ST_INVALID, client_do_invalid),
      (CLIENT_ST_INVALID, client_do_invalid),
      (CLIENT_ST_INVALID, client_do_invalid),
      (CLIENT_ST_QUIT_RECEIVED, client_do_END_DATA_RECEIVED_quit),
      (CLIENT_ST_INVALID, client_do_invalid),
      (CLIENT_ST_TIMEOUT, client_do_END_DATA_RECEIVED_timeout),
      (CLIENT_ST_TIMEOUT, client_do_END_DATA_RECEIVED_shutdown),
      (CLIENT_ST_INVALID, client_do_END_DATA_RECEIVED_unknown)]"

definition client_trans_QUIT_RECEIVED :: "(te_client_state \<times> client_callback_t) list" where
  "client_trans_QUIT_RECEIVED =
     [(CLIENT_ST_DONE, client_do_quit_received_response),
      (CLIENT_ST_INVALID, client_do_invalid),
      (CLIENT_ST_INVALID, client_do_invalid),
      (CLIENT_ST_INVALID, client_do_invalid),
      (CLIENT_ST_INVALID, client_do_invalid),
      (CLIENT_ST_INVALID, client_do_invalid),
      (CLIENT_ST_INVALID, client_do_invalid),
      (CLIENT_ST_INVALID, client_do_invalid),
      (CLIENT_ST_INVALID, client_do_invalid),
      (CLIENT_ST_QUIT_RECEIVED, client_do_QUIT_RECEIVED_quit),
      (CLIENT_ST_INVALID, client_do_invalid),
      (CLIENT_ST_TIMEOUT, client_do_QUIT_RECEIVED_timeout),
      (CLIENT_ST_TIMEOUT, client_do_QUIT_RECEIVED_shutdown),
      (CLIENT_ST_INVALID, client_do_QUIT_RECEIVED_unknown)]"

definition client_trans_RSET_RECEIVED :: "(te_client_state \<times> client_callback_t) list" where
  "client_trans_RSET_RECEIVED =
     [(CLIENT_ST_CLIENT_INITED, client_do_rset_received_response),
      (CLIENT_ST_INVALID, client_do_invalid),
      (CLIENT_ST_INVALID, client_do_invalid),
      (CLIENT_ST_INVALID, client_do_invalid),
      (CLIENT_ST_INVALID, client_do_invalid),
      (CLIENT_ST_INVALID, client_do_invalid),
      (CLIENT_ST_INVALID, client_do_invalid),
      (CLIENT_ST_INVALID, client_do_invalid),
      (CLIENT_ST_INVALID, client_do_invalid),
      (CLIENT_ST_QUIT_RECEIVED, client_do_RSET_RECEIVED_quit),
      (CLIENT_ST_INVALID, client_do_invalid),
      (CLIENT_ST_TIMEOUT, client_do_RSET_RECEIVED_timeout),
      (CLIENT_ST_TIMEOUT, client_do_RSET_RECEIVED_shutdown),
      (CLIENT_ST_INVALID, client_do_RSET_RECEIVED_unknown)]"

definition client_trans_VRFY_RECEIVED :: "(te_client_state \<times> client_callback_t) list" where
  "client_trans_VRFY_RECEIVED =
     [(CLIENT_ST_CLIENT_INITED, client_do_vrfy_received_response),
      (CLIENT_ST_INVALID, client_do_invalid),
      (CLIENT_ST_INVALID, client_do_invalid),
      (CLIENT_ST_INVALID, client_do_invalid),
      (CLIENT_ST_INVALID, client_do_invalid),
      (CLIENT_ST_INVALID, client_do_invalid),
      (CLIENT_ST_INVALID, client_do_invalid),
      (CLIENT_ST_INVALID, client_do_invalid),
      (CLIENT_ST_INVALID, client_do_invalid),
      (CLIENT_ST_QUIT_RECEIVED, client_do_VRFY_RECEIVED_quit),
      (CLIENT_ST_INVALID, client_do_invalid),
      (CLIENT_ST_TIMEOUT, client_do_VRFY_RECEIVED_timeout),
      (CLIENT_ST_TIMEOUT, client_do_VRFY_RECEIVED_shutdown),
      (CLIENT_ST_INVALID, client_do_VRFY_RECEIVED_unknown)]"

definition client_trans_TIMEOUT :: "(te_client_state \<times> client_callback_t) list" where
  "client_trans_TIMEOUT =
     [(CLIENT_ST_DONE, client_do_timeout_response),
      (CLIENT_ST_INVALID, client_do_invalid),
      (CLIENT_ST_INVALID, client_do_invalid),
      (CLIENT_ST_INVALID, client_do_invalid),
      (CLIENT_ST_INVALID, client_do_invalid),
      (CLIENT_ST_INVALID, client_do_invalid),
      (CLIENT_ST_INVALID, client_do_invalid),
      (CLIENT_ST_INVALID, client_do_invalid),
      (CLIENT_ST_INVALID, client_do_invalid),
      (CLIENT_ST_QUIT_RECEIVED, client_do_TIMEOUT_quit),
      (CLIENT_ST_INVALID, client_do_invalid),
      (CLIENT_ST_TIMEOUT, client_do_TIMEOUT_timeout),
      (CLIENT_ST_TIMEOUT, client_do_TIMEOUT_shutdown),
      (CLIENT_ST_INVALID, client_do_TIMEOUT_unknown)]"

definition client_trans_SHUTDOWN :: "(te_client_state \<times> client_callback_t) list" where
  "client_trans_SHUTDOWN =
     [(CLIENT_ST_DONE, client_do_shutdown_response),
      (CLIENT_ST_INVALID, client_do_invalid),
      (CLIENT_ST_INVALID, client_do_invalid),
      (CLIENT_ST_INVALID, client_do_invalid),
      (CLIENT_ST_INVALID, client_do_invalid),
      (CLIENT_ST_INVALID, client_do_invalid),
      (CLIENT_ST_INVALID, client_do_invalid),
      (CLIENT_ST_INVALID, client_do_invalid),
      (CLIENT_ST_INVALID, client_do_invalid),
      (CLIENT_ST_QUIT_RECEIVED, client_do_SHUTDOWN_quit),
      (CLIENT_ST_INVALID, client_do_invalid),
      (CLIENT_ST_TIMEOUT, client_do_SHUTDOWN_timeout),
      (CLIENT_ST_TIMEOUT, client_do_SHUTDOWN_shutdown),
      (CLIENT_ST_INVALID, client_do_SHUTDOWN_unknown)]"

definition client_trans_table :: "(te_client_state \<times> client_callback_t) list list" where
  "client_trans_table =
     [client_trans_INIT,
      client_trans_WAIT_HELLO_OR_EHLO,
      client_trans_HELLO_RECEIVED,
      client_trans_EHLO_RECEIVED,
      client_trans_CLIENT_INITED,
      client_trans_MAIL_RECEIVED,
      client_trans_EXPECTED_RCPT_OR_DATA,
      client_trans_RCPT_RECEIVED,
      client_trans_DATA_RECEIVED,
      client_trans_EXPECTED_MSG_TEXT_OR_END_MSG,
      client_trans_END_DATA_RECEIVED,
      client_trans_QUIT_RECEIVED,
      client_trans_RSET_RECEIVED,
      client_trans_VRFY_RECEIVED,
      client_trans_TIMEOUT,
      client_trans_SHUTDOWN]"

fun state_no :: "te_client_state \<Rightarrow> nat" where
  "state_no CLIENT_ST_INIT = 0"
| "state_no CLIENT_ST_WAIT_HELLO_OR_EHLO = 1"
| "state_no CLIENT_ST_HELLO_RECEIVED = 2"
| "state_no CLIENT_ST_EHLO_RECEIVED = 3"
| "state_no CLIENT_ST_CLIENT_INITED = 4"
| "state_no CLIENT_ST_MAIL_RECEIVED = 5"
| "state_no CLIENT_ST_EXPECTED_RCPT_OR_DATA = 6"
| "state_no CLIENT_ST_RCPT_RECEIVED = 7"
| "state_no CLIENT_ST_DATA_RECEIVED = 8"
| "state_no CLIENT_ST_EXPECTED_MSG_TEXT_OR_END_MSG = 9"
| "state_no CLIENT_ST_END_DATA_RECEIVED = 10"
| "state_no CLIENT_ST_QUIT_RECEIVED = 11"
| "state_no CLIENT_ST_RSET_RECEIVED = 12"
| "state_no CLIENT_ST_VRFY_RECEIVED = 13"
| "state_no CLIENT_ST_TIMEOUT = 14"
| "state_no CLIENT_ST_SHUTDOWN = 15"
| "state_no CLIENT_ST_INVALID = 16"
| "state_no CLIENT_ST_DONE = 17"

fun event_no :: "te_client_event \<Rightarrow> nat" where
  "event_no CLIENT_EV_RESPONSE = 0"
| "event_no CLIENT_EV_EHLO = 1"
| "event_no CLIENT_EV_HELO = 2"
| "event_no CLIENT_EV_MAIL = 3"
| "event_no CLIENT_EV_RCPT = 4"
| "event_no CLIENT_EV_DATA = 5"
| "event_no CLIENT_EV_MSG_TEXT = 6"
| "event_no CLIENT_EV_END_DATA = 7"
| "event_no CLIENT_EV_RSET = 8"
| "event_no CLIENT_EV_QUIT = 9"
| "event_no CLIENT_EV_VRFY = 10"
| "event_no CLIENT_EV_TIMEOUT = 11"
| "event_no CLIENT_EV_SHUTDOWN = 12"
| "event_no CLIENT_EV_UNKNOWN = 13"
| "event_no CLIENT_EV_INVALID = 14"

definition client_step :: "pcre_lib \<Rightarrow> te_client_state \<Rightarrow> te_client_event \<Rightarrow> client_t \<Rightarrow> match_info option
    \<Rightarrow> world \<Rightarrow> (te_client_state \<times> client_t \<times> world) run" where
  "client_step P client_state trans_evt c mi w =
     (if state_no CLIENT_ST_INVALID \<le> state_no client_state then Done (CLIENT_ST_INIT, c, w)
      else if event_no CLIENT_EV_INVALID \<le> event_no trans_evt
      then client_do_invalid P c mi client_state CLIENT_ST_INVALID trans_evt w
      else let (nxtSt, pT) = client_trans_table ! state_no client_state ! event_no trans_evt in
        pT P c mi client_state nxtSt trans_evt w)"

section \<open>The transition list\<close>

text \<open>
  The entries of \<^verbatim>\<open>client.def\<close> in order; \<open>None\<close> is the state \<^verbatim>\<open>"*"\<close>. An entry for a state takes
  precedence over one for \<^verbatim>\<open>"*"\<close>; an event without entry is invalid.
\<close>

definition client_def :: "(te_client_state option \<times> te_client_event \<times> te_client_state) list" where
  "client_def =
     [(Some CLIENT_ST_INIT, CLIENT_EV_RESPONSE, CLIENT_ST_WAIT_HELLO_OR_EHLO),
      (Some CLIENT_ST_WAIT_HELLO_OR_EHLO, CLIENT_EV_EHLO, CLIENT_ST_EHLO_RECEIVED),
      (Some CLIENT_ST_EHLO_RECEIVED, CLIENT_EV_RESPONSE, CLIENT_ST_CLIENT_INITED),
      (Some CLIENT_ST_WAIT_HELLO_OR_EHLO, CLIENT_EV_HELO, CLIENT_ST_HELLO_RECEIVED),
      (Some CLIENT_ST_HELLO_RECEIVED, CLIENT_EV_RESPONSE, CLIENT_ST_CLIENT_INITED),
      (Some CLIENT_ST_CLIENT_INITED, CLIENT_EV_MAIL, CLIENT_ST_MAIL_RECEIVED),
      (Some CLIENT_ST_MAIL_RECEIVED, CLIENT_EV_RESPONSE, CLIENT_ST_EXPECTED_RCPT_OR_DATA),
      (Some CLIENT_ST_EXPECTED_RCPT_OR_DATA, CLIENT_EV_RCPT, CLIENT_ST_RCPT_RECEIVED),
      (Some CLIENT_ST_RCPT_RECEIVED, CLIENT_EV_RESPONSE, CLIENT_ST_EXPECTED_RCPT_OR_DATA),
      (Some CLIENT_ST_EXPECTED_RCPT_OR_DATA, CLIENT_EV_DATA, CLIENT_ST_DATA_RECEIVED),
      (Some CLIENT_ST_DATA_RECEIVED, CLIENT_EV_RESPONSE, CLIENT_ST_EXPECTED_MSG_TEXT_OR_END_MSG),
      (Some CLIENT_ST_EXPECTED_MSG_TEXT_OR_END_MSG, CLIENT_EV_MSG_TEXT, CLIENT_ST_EXPECTED_MSG_TEXT_OR_END_MSG),
      (Some CLIENT_ST_EXPECTED_MSG_TEXT_OR_END_MSG, CLIENT_EV_END_DATA, CLIENT_ST_END_DATA_RECEIVED),
      (Some CLIENT_ST_END_DATA_RECEIVED, CLIENT_EV_RESPONSE, CLIENT_ST_CLIENT_INITED),
      (Some CLIENT_ST_QUIT_RECEIVED, CLIENT_EV_RESPONSE, CLIENT_ST_DONE),
      (Some CLIENT_ST_CLIENT_INITED, CLIENT_EV_VRFY, CLIENT_ST_VRFY_RECEIVED),
      (Some CLIENT_ST_CLIENT_INITED, CLIENT_EV_RSET, CLIENT_ST_RSET_RECEIVED),
      (Some CLIENT_ST_RSET_RECEIVED, CLIENT_EV_RESPONSE, CLIENT_ST_CLIENT_INITED),
      (Some CLIENT_ST_VRFY_RECEIVED, CLIENT_EV_RESPONSE, CLIENT_ST_CLIENT_INITED),
      (None, CLIENT_EV_QUIT, CLIENT_ST_QUIT_RECEIVED),
      (None, CLIENT_EV_TIMEOUT, CLIENT_ST_TIMEOUT),
      (None, CLIENT_EV_SHUTDOWN, CLIENT_ST_TIMEOUT),
      (None, CLIENT_EV_UNKNOWN, CLIENT_ST_INVALID),
      (Some CLIENT_ST_QUIT_RECEIVED, CLIENT_EV_RESPONSE, CLIENT_ST_DONE),
      (Some CLIENT_ST_SHUTDOWN, CLIENT_EV_RESPONSE, CLIENT_ST_DONE),
      (Some CLIENT_ST_TIMEOUT, CLIENT_EV_RESPONSE, CLIENT_ST_DONE)]"

definition def_entries :: "te_client_state option \<Rightarrow> (te_client_state option \<times> te_client_event \<times> te_client_state) list" where
  "def_entries t = filter (\<lambda>(u, _, _). u = t) client_def"

definition def_next :: "te_client_state \<Rightarrow> te_client_event \<Rightarrow> te_client_state" where
  "def_next s e =
     (case find (\<lambda>(_, ev, _). ev = e) (def_entries (Some s)) of
        Some (_, _, n) \<Rightarrow> n
      | None \<Rightarrow> (case find (\<lambda>(_, ev, _). ev = e) (def_entries None) of
          Some (_, _, n) \<Rightarrow> n | None \<Rightarrow> CLIENT_ST_INVALID))"

lemma def_entries_simps [simp]:
  "def_entries (Some CLIENT_ST_INIT) = [(Some CLIENT_ST_INIT, CLIENT_EV_RESPONSE, CLIENT_ST_WAIT_HELLO_OR_EHLO)]"
  "def_entries (Some CLIENT_ST_WAIT_HELLO_OR_EHLO) = [(Some CLIENT_ST_WAIT_HELLO_OR_EHLO, CLIENT_EV_EHLO, CLIENT_ST_EHLO_RECEIVED),
     (Some CLIENT_ST_WAIT_HELLO_OR_EHLO, CLIENT_EV_HELO, CLIENT_ST_HELLO_RECEIVED)]"
  "def_entries (Some CLIENT_ST_HELLO_RECEIVED) = [(Some CLIENT_ST_HELLO_RECEIVED, CLIENT_EV_RESPONSE, CLIENT_ST_CLIENT_INITED)]"
  "def_entries (Some CLIENT_ST_EHLO_RECEIVED) = [(Some CLIENT_ST_EHLO_RECEIVED, CLIENT_EV_RESPONSE, CLIENT_ST_CLIENT_INITED)]"
  "def_entries (Some CLIENT_ST_CLIENT_INITED) = [(Some CLIENT_ST_CLIENT_INITED, CLIENT_EV_MAIL, CLIENT_ST_MAIL_RECEIVED),
     (Some CLIENT_ST_CLIENT_INITED, CLIENT_EV_VRFY, CLIENT_ST_VRFY_RECEIVED),
     (Some CLIENT_ST_CLIENT_INITED, CLIENT_EV_RSET, CLIENT_ST_RSET_RECEIVED)]"
  "def_entries (Some CLIENT_ST_MAIL_RECEIVED) = [(Some CLIENT_ST_MAIL_RECEIVED, CLIENT_EV_RESPONSE, CLIENT_ST_EXPECTED_RCPT_OR_DATA)]"
  "def_entries (Some CLIENT_ST_EXPECTED_RCPT_OR_DATA) = [(Some CLIENT_ST_EXPECTED_RCPT_OR_DATA, CLIENT_EV_RCPT, CLIENT_ST_RCPT_RECEIVED),
     (Some CLIENT_ST_EXPECTED_RCPT_OR_DATA, CLIENT_EV_DATA, CLIENT_ST_DATA_RECEIVED)]"
  "def_entries (Some CLIENT_ST_RCPT_RECEIVED) = [(Some CLIENT_ST_RCPT_RECEIVED, CLIENT_EV_RESPONSE, CLIENT_ST_EXPECTED_RCPT_OR_DATA)]"
  "def_entries (Some CLIENT_ST_DATA_RECEIVED) = [(Some CLIENT_ST_DATA_RECEIVED, CLIENT_EV_RESPONSE, CLIENT_ST_EXPECTED_MSG_TEXT_OR_END_MSG)]"
  "def_entries (Some CLIENT_ST_EXPECTED_MSG_TEXT_OR_END_MSG) = [(Some CLIENT_ST_EXPECTED_MSG_TEXT_OR_END_MSG, CLIENT_EV_MSG_TEXT, CLIENT_ST_EXPECTED_MSG_TEXT_OR_END_MSG),
     (Some CLIENT_ST_EXPECTED_MSG_TEXT_OR_END_MSG, CLIENT_EV_END_DATA, CLIENT_ST_END_DATA_RECEIVED)]"
  "def_entries (Some CLIENT_ST_END_DATA_RECEIVED) = [(Some CLIENT_ST_END_DATA_RECEIVED, CLIENT_EV_RESPONSE, CLIENT_ST_CLIENT_INITED)]"
  "def_entries (Some CLIENT_ST_QUIT_RECEIVED) = [(Some CLIENT_ST_QUIT_RECEIVED, CLIENT_EV_RESPONSE, CLIENT_ST_DONE),
     (Some CLIENT_ST_QUIT_RECEIVED, CLIENT_EV_RESPONSE, CLIENT_ST_DONE)]"
  "def_entries (Some CLIENT_ST_RSET_RECEIVED) = [(Some CLIENT_ST_RSET_RECEIVED, CLIENT_EV_RESPONSE, CLIENT_ST_CLIENT_INITED)]"
  "def_entries (Some CLIENT_ST_VRFY_RECEIVED) = [(Some CLIENT_ST_VRFY_RECEIVED, CLIENT_EV_RESPONSE, CLIENT_ST_CLIENT_INITED)]"
  "def_entries (Some CLIENT_ST_TIMEOUT) = [(Some CLIENT_ST_TIMEOUT, CLIENT_EV_RESPONSE, CLIENT_ST_DONE)]"
  "def_entries (Some CLIENT_ST_SHUTDOWN) = [(Some CLIENT_ST_SHUTDOWN, CLIENT_EV_RESPONSE, CLIENT_ST_DONE)]"
  "def_entries (Some CLIENT_ST_INVALID) = []"
  "def_entries (Some CLIENT_ST_DONE) = []"
  "def_entries None = [(None, CLIENT_EV_QUIT, CLIENT_ST_QUIT_RECEIVED),
     (None, CLIENT_EV_TIMEOUT, CLIENT_ST_TIMEOUT),
     (None, CLIENT_EV_SHUTDOWN, CLIENT_ST_TIMEOUT),
     (None, CLIENT_EV_UNKNOWN, CLIENT_ST_INVALID)]"
  by (simp_all add: def_entries_def client_def_def)

lemmas passive_callbacks =
  client_do_CLIENT_INITED_shutdown_def client_do_CLIENT_INITED_timeout_def
  client_do_CLIENT_INITED_unknown_def client_do_DATA_RECEIVED_shutdown_def
  client_do_DATA_RECEIVED_timeout_def client_do_DATA_RECEIVED_unknown_def
  client_do_EHLO_RECEIVED_shutdown_def client_do_EHLO_RECEIVED_timeout_def
  client_do_EHLO_RECEIVED_unknown_def client_do_END_DATA_RECEIVED_quit_def
  client_do_END_DATA_RECEIVED_shutdown_def client_do_END_DATA_RECEIVED_timeout_def
  client_do_END_DATA_RECEIVED_unknown_def client_do_EXPECTED_MSG_TEXT_OR_END_MSG_quit_def
  client_do_EXPECTED_MSG_TEXT_OR_END_MSG_shutdown_def client_do_EXPECTED_MSG_TEXT_OR_END_MSG_timeout_def
  client_do_EXPECTED_MSG_TEXT_OR_END_MSG_unknown_def client_do_EXPECTED_RCPT_OR_DATA_shutdown_def
  client_do_EXPECTED_RCPT_OR_DATA_timeout_def client_do_EXPECTED_RCPT_OR_DATA_unknown_def
  client_do_HELLO_RECEIVED_quit_def client_do_HELLO_RECEIVED_shutdown_def
  client_do_HELLO_RECEIVED_timeout_def client_do_HELLO_RECEIVED_unknown_def client_do_INIT_quit_def
  client_do_INIT_shutdown_def client_do_INIT_timeout_def client_do_INIT_unknown_def
  client_do_MAIL_RECEIVED_quit_def client_do_MAIL_RECEIVED_shutdown_def
  client_do_MAIL_RECEIVED_timeout_def client_do_MAIL_RECEIVED_unknown_def
  client_do_QUIT_RECEIVED_quit_def client_do_QUIT_RECEIVED_shutdown_def
  client_do_QUIT_RECEIVED_timeout_def client_do_QUIT_RECEIVED_unknown_def
  client_do_RCPT_RECEIVED_quit_def client_do_RCPT_RECEIVED_shutdown_def
  client_do_RCPT_RECEIVED_timeout_def client_do_RCPT_RECEIVED_unknown_def
  client_do_RSET_RECEIVED_quit_def client_do_RSET_RECEIVED_shutdown_def
  client_do_RSET_RECEIVED_timeout_def client_do_RSET_RECEIVED_unknown_def client_do_SHUTDOWN_quit_def
  client_do_SHUTDOWN_shutdown_def client_do_SHUTDOWN_timeout_def client_do_SHUTDOWN_unknown_def
  client_do_TIMEOUT_quit_def client_do_TIMEOUT_shutdown_def client_do_TIMEOUT_timeout_def
  client_do_TIMEOUT_unknown_def client_do_VRFY_RECEIVED_quit_def client_do_VRFY_RECEIVED_shutdown_def
  client_do_VRFY_RECEIVED_timeout_def client_do_VRFY_RECEIVED_unknown_def
  client_do_WAIT_HELLO_OR_EHLO_quit_def client_do_WAIT_HELLO_OR_EHLO_shutdown_def
  client_do_WAIT_HELLO_OR_EHLO_timeout_def client_do_WAIT_HELLO_OR_EHLO_unknown_def
  client_do_client_inited_rset_def client_do_data_received_response_def
  client_do_ehlo_received_response_def client_do_end_data_received_response_def
  client_do_hello_received_response_def client_do_init_response_def client_do_mail_received_response_def
  client_do_quit_received_response_def client_do_rcpt_received_response_def
  client_do_rset_received_response_def client_do_shutdown_response_def client_do_timeout_response_def
  client_do_vrfy_received_response_def

lemmas active_callbacks =
  client_do_CLIENT_INITED_quit_def client_do_DATA_RECEIVED_quit_def client_do_EHLO_RECEIVED_quit_def
  client_do_EXPECTED_RCPT_OR_DATA_quit_def client_do_client_inited_mail_def
  client_do_client_inited_vrfy_def client_do_expected_msg_text_or_end_msg_end_data_def
  client_do_expected_msg_text_or_end_msg_msg_text_def client_do_expected_rcpt_or_data_data_def
  client_do_expected_rcpt_or_data_rcpt_def client_do_wait_hello_or_ehlo_ehlo_def
  client_do_wait_hello_or_ehlo_helo_def

lemmas table_rows =
  client_trans_INIT_def client_trans_WAIT_HELLO_OR_EHLO_def client_trans_HELLO_RECEIVED_def
  client_trans_EHLO_RECEIVED_def client_trans_CLIENT_INITED_def client_trans_MAIL_RECEIVED_def
  client_trans_EXPECTED_RCPT_OR_DATA_def client_trans_RCPT_RECEIVED_def client_trans_DATA_RECEIVED_def
  client_trans_EXPECTED_MSG_TEXT_OR_END_MSG_def client_trans_END_DATA_RECEIVED_def
  client_trans_QUIT_RECEIVED_def client_trans_RSET_RECEIVED_def client_trans_VRFY_RECEIVED_def
  client_trans_TIMEOUT_def client_trans_SHUTDOWN_def

section \<open>Callbacks return the table's state\<close>

definition returns_next :: "client_callback_t \<Rightarrow> bool" where
  "returns_next f \<longleftrightarrow> (\<forall>P c mi i n e w s' c' w'. f P c mi i n e w = Done (s', c', w') \<longrightarrow> s' = n)"

definition returns_initial :: "client_callback_t \<Rightarrow> bool" where
  "returns_initial f \<longleftrightarrow> (\<forall>P c mi i n e w s' c' w'. f P c mi i n e w = Done (s', c', w') \<longrightarrow> s' = i)"

text \<open>Most callbacks do nothing but return the table's next state.\<close>

definition is_passive :: "client_callback_t \<Rightarrow> bool" where
  "is_passive f \<longleftrightarrow> (\<forall>P c mi i n e w. f P c mi i n e w = Done (n, c, w))"

lemma passive_list [simp]:
  "is_passive client_do_CLIENT_INITED_shutdown"
  "is_passive client_do_CLIENT_INITED_timeout"
  "is_passive client_do_CLIENT_INITED_unknown"
  "is_passive client_do_DATA_RECEIVED_shutdown"
  "is_passive client_do_DATA_RECEIVED_timeout"
  "is_passive client_do_DATA_RECEIVED_unknown"
  "is_passive client_do_EHLO_RECEIVED_shutdown"
  "is_passive client_do_EHLO_RECEIVED_timeout"
  "is_passive client_do_EHLO_RECEIVED_unknown"
  "is_passive client_do_END_DATA_RECEIVED_quit"
  "is_passive client_do_END_DATA_RECEIVED_shutdown"
  "is_passive client_do_END_DATA_RECEIVED_timeout"
  "is_passive client_do_END_DATA_RECEIVED_unknown"
  "is_passive client_do_EXPECTED_MSG_TEXT_OR_END_MSG_quit"
  "is_passive client_do_EXPECTED_MSG_TEXT_OR_END_MSG_shutdown"
  "is_passive client_do_EXPECTED_MSG_TEXT_OR_END_MSG_timeout"
  "is_passive client_do_EXPECTED_MSG_TEXT_OR_END_MSG_unknown"
  "is_passive client_do_EXPECTED_RCPT_OR_DATA_shutdown"
  "is_passive client_do_EXPECTED_RCPT_OR_DATA_timeout"
  "is_passive client_do_EXPECTED_RCPT_OR_DATA_unknown"
  "is_passive client_do_HELLO_RECEIVED_quit"
  "is_passive client_do_HELLO_RECEIVED_shutdown"
  "is_passive client_do_HELLO_RECEIVED_timeout"
  "is_passive client_do_HELLO_RECEIVED_unknown"
  "is_passive client_do_INIT_quit"
  "is_passive client_do_INIT_shutdown"
  "is_passive client_do_INIT_timeout"
  "is_passive client_do_INIT_unknown"
  "is_passive client_do_MAIL_RECEIVED_quit"
  "is_passive client_do_MAIL_RECEIVED_shutdown"
  "is_passive client_do_MAIL_RECEIVED_timeout"
  "is_passive client_do_MAIL_RECEIVED_unknown"
  "is_passive client_do_QUIT_RECEIVED_quit"
  "is_passive client_do_QUIT_RECEIVED_shutdown"
  "is_passive client_do_QUIT_RECEIVED_timeout"
  "is_passive client_do_QUIT_RECEIVED_unknown"
  "is_passive client_do_RCPT_RECEIVED_quit"
  "is_passive client_do_RCPT_RECEIVED_shutdown"
  "is_passive client_do_RCPT_RECEIVED_timeout"
  "is_passive client_do_RCPT_RECEIVED_unknown"
  "is_passive client_do_RSET_RECEIVED_quit"
  "is_passive client_do_RSET_RECEIVED_shutdown"
  "is_passive client_do_RSET_RECEIVED_timeout"
  "is_passive client_do_RSET_RECEIVED_unknown"
  "is_passive client_do_SHUTDOWN_quit"
  "is_passive client_do_SHUTDOWN_shutdown"
  "is_passive client_do_SHUTDOWN_timeout"
  "is_passive client_do_SHUTDOWN_unknown"
  "is_passive client_do_TIMEOUT_quit"
  "is_passive client_do_TIMEOUT_shutdown"
  "is_passive client_do_TIMEOUT_timeout"
  "is_passive client_do_TIMEOUT_unknown"
  "is_passive client_do_VRFY_RECEIVED_quit"
  "is_passive client_do_VRFY_RECEIVED_shutdown"
  "is_passive client_do_VRFY_RECEIVED_timeout"
  "is_passive client_do_VRFY_RECEIVED_unknown"
  "is_passive client_do_WAIT_HELLO_OR_EHLO_quit"
  "is_passive client_do_WAIT_HELLO_OR_EHLO_shutdown"
  "is_passive client_do_WAIT_HELLO_OR_EHLO_timeout"
  "is_passive client_do_WAIT_HELLO_OR_EHLO_unknown"
  "is_passive client_do_client_inited_rset"
  "is_passive client_do_data_received_response"
  "is_passive client_do_ehlo_received_response"
  "is_passive client_do_end_data_received_response"
  "is_passive client_do_hello_received_response"
  "is_passive client_do_init_response"
  "is_passive client_do_mail_received_response"
  "is_passive client_do_quit_received_response"
  "is_passive client_do_rcpt_received_response"
  "is_passive client_do_rset_received_response"
  "is_passive client_do_shutdown_response"
  "is_passive client_do_timeout_response"
  "is_passive client_do_vrfy_received_response"
  by (simp_all add: is_passive_def passive_callbacks)

lemma passive_returns_next [simp]: "is_passive f \<Longrightarrow> returns_next f"
  by (simp add: is_passive_def returns_next_def)

lemma active_returns_next [simp]:
  "returns_next client_do_CLIENT_INITED_quit"
  "returns_next client_do_DATA_RECEIVED_quit"
  "returns_next client_do_EHLO_RECEIVED_quit"
  "returns_next client_do_EXPECTED_RCPT_OR_DATA_quit"
  "returns_next client_do_client_inited_mail"
  "returns_next client_do_client_inited_vrfy"
  "returns_next client_do_expected_msg_text_or_end_msg_end_data"
  "returns_next client_do_expected_msg_text_or_end_msg_msg_text"
  "returns_next client_do_expected_rcpt_or_data_data"
  "returns_next client_do_expected_rcpt_or_data_rcpt"
  "returns_next client_do_wait_hello_or_ehlo_ehlo"
  "returns_next client_do_wait_hello_or_ehlo_helo"
  by (auto simp: returns_next_def active_callbacks rbind_Done_iff split: option.splits list.splits if_splits)

lemma invalid_returns_initial [simp]: "returns_initial client_do_invalid"
  by (auto simp: returns_initial_def client_do_invalid_def rbind_Done_iff split: te_client_event.splits)

text \<open>An entry implements the transition list: the listed state, or the current one when none is listed.\<close>

definition entry_ok :: "te_client_state \<Rightarrow> te_client_event \<Rightarrow> te_client_state \<times> client_callback_t \<Rightarrow> bool" where
  "entry_ok s e ent \<longleftrightarrow> fst ent = def_next s e \<and>
     (if def_next s e = CLIENT_ST_INVALID \<and> e \<noteq> CLIENT_EV_UNKNOWN
      then snd ent = client_do_invalid else returns_next (snd ent))"

lemma row_INIT: "event_no e < 14 \<Longrightarrow> entry_ok CLIENT_ST_INIT e (client_trans_INIT ! event_no e)"
  by (cases e) (simp_all add: entry_ok_def def_next_def client_trans_INIT_def)

lemma row_WAIT_HELLO_OR_EHLO: "event_no e < 14 \<Longrightarrow> entry_ok CLIENT_ST_WAIT_HELLO_OR_EHLO e (client_trans_WAIT_HELLO_OR_EHLO ! event_no e)"
  by (cases e) (simp_all add: entry_ok_def def_next_def client_trans_WAIT_HELLO_OR_EHLO_def)

lemma row_HELLO_RECEIVED: "event_no e < 14 \<Longrightarrow> entry_ok CLIENT_ST_HELLO_RECEIVED e (client_trans_HELLO_RECEIVED ! event_no e)"
  by (cases e) (simp_all add: entry_ok_def def_next_def client_trans_HELLO_RECEIVED_def)

lemma row_EHLO_RECEIVED: "event_no e < 14 \<Longrightarrow> entry_ok CLIENT_ST_EHLO_RECEIVED e (client_trans_EHLO_RECEIVED ! event_no e)"
  by (cases e) (simp_all add: entry_ok_def def_next_def client_trans_EHLO_RECEIVED_def)

lemma row_CLIENT_INITED: "event_no e < 14 \<Longrightarrow> entry_ok CLIENT_ST_CLIENT_INITED e (client_trans_CLIENT_INITED ! event_no e)"
  by (cases e) (simp_all add: entry_ok_def def_next_def client_trans_CLIENT_INITED_def)

lemma row_MAIL_RECEIVED: "event_no e < 14 \<Longrightarrow> entry_ok CLIENT_ST_MAIL_RECEIVED e (client_trans_MAIL_RECEIVED ! event_no e)"
  by (cases e) (simp_all add: entry_ok_def def_next_def client_trans_MAIL_RECEIVED_def)

lemma row_EXPECTED_RCPT_OR_DATA: "event_no e < 14 \<Longrightarrow> entry_ok CLIENT_ST_EXPECTED_RCPT_OR_DATA e (client_trans_EXPECTED_RCPT_OR_DATA ! event_no e)"
  by (cases e) (simp_all add: entry_ok_def def_next_def client_trans_EXPECTED_RCPT_OR_DATA_def)

lemma row_RCPT_RECEIVED: "event_no e < 14 \<Longrightarrow> entry_ok CLIENT_ST_RCPT_RECEIVED e (client_trans_RCPT_RECEIVED ! event_no e)"
  by (cases e) (simp_all add: entry_ok_def def_next_def client_trans_RCPT_RECEIVED_def)

lemma row_DATA_RECEIVED: "event_no e < 14 \<Longrightarrow> entry_ok CLIENT_ST_DATA_RECEIVED e (client_trans_DATA_RECEIVED ! event_no e)"
  by (cases e) (simp_all add: entry_ok_def def_next_def client_trans_DATA_RECEIVED_def)

lemma row_EXPECTED_MSG_TEXT_OR_END_MSG: "event_no e < 14 \<Longrightarrow> entry_ok CLIENT_ST_EXPECTED_MSG_TEXT_OR_END_MSG e (client_trans_EXPECTED_MSG_TEXT_OR_END_MSG ! event_no e)"
  by (cases e) (simp_all add: entry_ok_def def_next_def client_trans_EXPECTED_MSG_TEXT_OR_END_MSG_def)

lemma row_END_DATA_RECEIVED: "event_no e < 14 \<Longrightarrow> entry_ok CLIENT_ST_END_DATA_RECEIVED e (client_trans_END_DATA_RECEIVED ! event_no e)"
  by (cases e) (simp_all add: entry_ok_def def_next_def client_trans_END_DATA_RECEIVED_def)

lemma row_QUIT_RECEIVED: "event_no e < 14 \<Longrightarrow> entry_ok CLIENT_ST_QUIT_RECEIVED e (client_trans_QUIT_RECEIVED ! event_no e)"
  by (cases e) (simp_all add: entry_ok_def def_next_def client_trans_QUIT_RECEIVED_def)

lemma row_RSET_RECEIVED: "event_no e < 14 \<Longrightarrow> entry_ok CLIENT_ST_RSET_RECEIVED e (client_trans_RSET_RECEIVED ! event_no e)"
  by (cases e) (simp_all add: entry_ok_def def_next_def client_trans_RSET_RECEIVED_def)

lemma row_VRFY_RECEIVED: "event_no e < 14 \<Longrightarrow> entry_ok CLIENT_ST_VRFY_RECEIVED e (client_trans_VRFY_RECEIVED ! event_no e)"
  by (cases e) (simp_all add: entry_ok_def def_next_def client_trans_VRFY_RECEIVED_def)

lemma row_TIMEOUT: "event_no e < 14 \<Longrightarrow> entry_ok CLIENT_ST_TIMEOUT e (client_trans_TIMEOUT ! event_no e)"
  by (cases e) (simp_all add: entry_ok_def def_next_def client_trans_TIMEOUT_def)

lemma row_SHUTDOWN: "event_no e < 14 \<Longrightarrow> entry_ok CLIENT_ST_SHUTDOWN e (client_trans_SHUTDOWN ! event_no e)"
  by (cases e) (simp_all add: entry_ok_def def_next_def client_trans_SHUTDOWN_def)

lemmas rows_ok =
  row_INIT row_WAIT_HELLO_OR_EHLO row_HELLO_RECEIVED row_EHLO_RECEIVED row_CLIENT_INITED
  row_MAIL_RECEIVED row_EXPECTED_RCPT_OR_DATA row_RCPT_RECEIVED row_DATA_RECEIVED
  row_EXPECTED_MSG_TEXT_OR_END_MSG row_END_DATA_RECEIVED row_QUIT_RECEIVED row_RSET_RECEIVED
  row_VRFY_RECEIVED row_TIMEOUT row_SHUTDOWN

section \<open>The step function\<close>

definition live_state :: "te_client_state \<Rightarrow> bool" where
  "live_state s \<longleftrightarrow> state_no s < state_no CLIENT_ST_INVALID"

definition server_target :: "te_client_state \<Rightarrow> te_client_event \<Rightarrow> te_client_state" where
  "server_target s e =
     (if e = CLIENT_EV_INVALID \<or> (def_next s e = CLIENT_ST_INVALID \<and> e \<noteq> CLIENT_EV_UNKNOWN) then s
      else def_next s e)"

lemma live_state_iff:
  "live_state s \<longleftrightarrow> s \<noteq> CLIENT_ST_INVALID \<and> s \<noteq> CLIENT_ST_DONE"
  by (cases s) (simp_all add: live_state_def)

lemma table_ok:
  assumes "live_state s" and "event_no e < 14"
  shows "entry_ok s e (client_trans_table ! state_no s ! event_no e)"
  using assms(1) rows_ok [OF assms(2)] by (cases s) (simp_all add: client_trans_table_def live_state_iff)

lemma event_no_valid: "event_no e < 14 \<longleftrightarrow> e \<noteq> CLIENT_EV_INVALID"
  by (cases e) simp_all

lemma client_step_live:
  "live_state s \<Longrightarrow> client_step P s e c mi w =
     (if e = CLIENT_EV_INVALID then client_do_invalid P c mi s CLIENT_ST_INVALID e w
      else let (n, f) = client_trans_table ! state_no s ! event_no e in f P c mi s n e w)"
  using event_no_valid [of e] by (auto simp: client_step_def live_state_def)

lemma client_step_entry:
  assumes "live_state s" and "e \<noteq> CLIENT_EV_INVALID"
  shows "\<exists>f. client_step P s e c mi w = f P c mi s (def_next s e) e w
    \<and> (if def_next s e = CLIENT_ST_INVALID \<and> e \<noteq> CLIENT_EV_UNKNOWN then f = client_do_invalid else returns_next f)"
proof -
  have "event_no e < 14" using assms(2) by (simp add: event_no_valid)
  from table_ok [OF assms(1) this] assms this show ?thesis
    by (auto simp: client_step_live entry_ok_def split: prod.splits)
qed

lemma client_step_state:
  assumes "live_state s" and "client_step P s e c mi w = Done (s', c', w')"
  shows "s' = server_target s e"
proof (cases "e = CLIENT_EV_INVALID")
  case True
  with assms show ?thesis
    by (auto simp: client_step_live server_target_def client_do_invalid_def rbind_Done_iff)
next
  case False
  then obtain f where f: "f P c mi s (def_next s e) e w = Done (s', c', w')"
    "if def_next s e = CLIENT_ST_INVALID \<and> e \<noteq> CLIENT_EV_UNKNOWN then f = client_do_invalid else returns_next f"
    using client_step_entry [OF assms(1) False, of P c mi w] assms(2) by auto
  show ?thesis
  proof (cases "def_next s e = CLIENT_ST_INVALID \<and> e \<noteq> CLIENT_EV_UNKNOWN")
    case True
    with f have "client_do_invalid P c mi s (def_next s e) e w = Done (s', c', w')" by simp
    then have "s' = s" using invalid_returns_initial unfolding returns_initial_def by blast
    with True show ?thesis by (simp add: server_target_def)
  next
    case no: False
    with f(2) have "returns_next f" by argo
    with f(1) have "s' = def_next s e" unfolding returns_next_def by blast
    with no False show ?thesis by (auto simp: server_target_def)
  qed
qed

lemma client_step_terminal:
  "\<not> live_state s \<Longrightarrow> client_step P s e c mi w = Done (CLIENT_ST_INIT, c, w)"
  by (auto simp: client_step_def live_state_def)

definition server_step :: "pcre_lib \<Rightarrow> te_client_state \<Rightarrow> te_client_event \<times> match_info option
    \<Rightarrow> client_t \<times> world \<Rightarrow> (te_client_state \<times> client_t \<times> world) run" where
  "server_step P s em cw = client_step P s (fst em) (fst cw) (snd em) (snd cw)"

interpretation sfsm: table_fsm "server_step P" "\<lambda>s em. server_target s (fst em)" live_state CLIENT_ST_INIT
  for P :: pcre_lib
  by unfold_locales (auto simp: server_step_def client_step_terminal
      dest: client_step_state)

text \<open>
  C20: the hand-extended table of \<open>client-fsm.c\<close> implements the transition list of
  \<open>client.def\<close>: whatever the callbacks do, from a running state a step that returns ends
  in the listed next state; an event the list does not allow leaves the state unchanged.
\<close>

theorem client_step_follows_def:
  assumes "live_state s" and "client_step P s e c mi w = Done (s', c', w')"
  shows "s' = (if e = CLIENT_EV_INVALID \<or> (def_next s e = CLIENT_ST_INVALID \<and> e \<noteq> CLIENT_EV_UNKNOWN)
               then s else def_next s e)"
  using client_step_state [OF assms] by (simp add: server_target_def)

definition blank_client :: client_t where
  "blank_client = \<lparr>current_state = CLIENT_ST_INIT, ehlo = False, need_send = False,
     greating_info = buffer_with [], msg_for_sending = buffer_with [], mail_from = buffer_with [], rcpts = [],
     stale_type = (\<lambda>_. DOMAIN_TYPE_IPV4), msg_text = buffer_with [], closed = False, mail_writer = mw_example,
     timeout_start_time = 0\<rparr>"

definition no_match :: pcre_lib where
  "no_match = \<lparr>pcre_exec = (\<lambda>_ _. (-1, [])), pcre_copy_substring = (\<lambda>_ _ _ _ _. None)\<rparr>"

theorem client_step_follows_def_witness:
  "client_step no_match CLIENT_ST_INIT CLIENT_EV_RESPONSE blank_client None plenty
     = Done (CLIENT_ST_WAIT_HELLO_OR_EHLO, blank_client, plenty)
   \<and> CLIENT_ST_WAIT_HELLO_OR_EHLO = def_next CLIENT_ST_INIT CLIENT_EV_RESPONSE"
proof -
  have r: "client_step no_match CLIENT_ST_INIT CLIENT_EV_RESPONSE blank_client None plenty
     = Done (CLIENT_ST_WAIT_HELLO_OR_EHLO, blank_client, plenty)"
    by (simp add: client_step_def client_trans_table_def client_trans_INIT_def client_do_init_response_def)
  from client_step_follows_def [OF _ r] r show ?thesis by (simp add: live_state_iff def_next_def)
qed

text \<open>A command out of sequence is answered with 503, logged, and otherwise ignored.\<close>

lemma client_do_invalid_ok:
  assumes "session_wf c" and "e \<noteq> CLIENT_EV_RESPONSE" "e \<noteq> CLIENT_EV_UNKNOWN"
  obtains m b w' where "client_do_invalid P c mi s n e w = Done (s, c\<lparr>msg_for_sending := m, need_send := b\<rparr>, w')"
    "session_wf (c\<lparr>msg_for_sending := m, need_send := b\<rparr>)"
    "oom w = [] \<Longrightarrow> b \<and> content m = SMTP_BAD_SEQUENCE_ANSWER \<and> w' = log_msg WARNING ''client_fsm'' w"
proof -
  obtain er c' w' where r: "client_set_response c (as_array SMTP_BAD_SEQUENCE_ANSWER) (length SMTP_BAD_SEQUENCE_ANSWER)
      (log_msg WARNING ''client_fsm'' w) = Done (er, c', w')" "session_wf c'"
    "c' = c\<lparr>msg_for_sending := msg_for_sending c', need_send := need_send c'\<rparr>"
    "er = CE_SUCCESS \<Longrightarrow> content (msg_for_sending c') = SMTP_BAD_SEQUENCE_ANSWER \<and> need_send c'"
    "oom (log_msg WARNING ''client_fsm'' w) = [] \<Longrightarrow> er = CE_SUCCESS \<and> w' = log_msg WARNING ''client_fsm'' w"
    by (rule client_set_response_ok [OF assms(1) smtp_answers_no_NUL(7)]) blast
  have "client_do_invalid P c mi s n e w = Done (s, c', w')"
    using assms(2,3) r(1) by (cases e) (simp_all add: client_do_invalid_def)
  with r show thesis
    by (intro that [where m = "msg_for_sending c'" and b = "need_send c'" and w' = w']) (auto simp: log_msg_def)
qed

lemma step_bad_sequence:
  assumes "session_wf c" and "live_state s" and "def_next s e = CLIENT_ST_INVALID"
    and "e \<noteq> CLIENT_EV_RESPONSE" "e \<noteq> CLIENT_EV_UNKNOWN" and "oom w = []"
  shows "\<exists>m. client_step P s e c mi w
      = Done (s, c\<lparr>msg_for_sending := m, need_send := True\<rparr>, log_msg WARNING ''client_fsm'' w)
    \<and> content m = SMTP_BAD_SEQUENCE_ANSWER"
proof -
  have "\<exists>n. client_step P s e c mi w = client_do_invalid P c mi s n e w"
  proof (cases "e = CLIENT_EV_INVALID")
    case True
    with assms(2) show ?thesis by (auto simp: client_step_live)
  next
    case False
    with client_step_entry [OF assms(2) False, of P c mi w] assms(3,5) show ?thesis by auto
  qed
  moreover have "\<exists>m b w'. client_do_invalid P c mi s n e w = Done (s, c\<lparr>msg_for_sending := m, need_send := b\<rparr>, w')
      \<and> (oom w = [] \<longrightarrow> b \<and> content m = SMTP_BAD_SEQUENCE_ANSWER \<and> w' = log_msg WARNING ''client_fsm'' w)" for n
    by (rule client_do_invalid_ok [OF assms(1,4,5), of P mi s n w]) blast
  ultimately show ?thesis using assms(6) by metis
qed

text \<open>
  C23: a command that the transition list does not allow in the current state is answered
  with \<open>503 Bad sequence of command\<close> and changes nothing of the session but the reply.
\<close>

theorem client_step_bad_sequence:
  assumes "session_wf c" and "live_state s" and "def_next s e = CLIENT_ST_INVALID"
    and "e \<noteq> CLIENT_EV_RESPONSE" "e \<noteq> CLIENT_EV_UNKNOWN" and "oom w = []"
  shows "\<exists>m. client_step P s e c mi w
      = Done (s, c\<lparr>msg_for_sending := m, need_send := True\<rparr>, log_msg WARNING ''client_fsm'' w)
    \<and> content m = SMTP_BAD_SEQUENCE_ANSWER"
  using assms by (rule step_bad_sequence)

lemma blank_client_wf [simp]: "session_wf blank_client"
  by (simp add: session_wf_def blank_client_def buffer_with_def msg_wf_def zero_padded_def content_def)

theorem client_step_bad_sequence_witness:
  "\<exists>m. client_step no_match CLIENT_ST_INIT CLIENT_EV_DATA blank_client None plenty
      = Done (CLIENT_ST_INIT, blank_client\<lparr>msg_for_sending := m, need_send := True\<rparr>, log_msg WARNING ''client_fsm'' plenty)
    \<and> content m = SMTP_BAD_SEQUENCE_ANSWER"
  by (rule client_step_bad_sequence) (simp_all add: live_state_iff def_next_def plenty_def)

end
