(* ===== verification/Server_Client.thy ===== *)
theory Server_Client
  imports Server_Fsm
begin

text \<open>
  The entry points of a session, \<^verbatim>\<open>client_process_recv\<close>, \<^verbatim>\<open>client_process_send\<close>,
  \<^verbatim>\<open>client_process_check_timeout\<close> and \<^verbatim>\<open>client_process_shutdown\<close> of \<^verbatim>\<open>server/src/client.c\<close>,
  which turn received lines, sent replies, elapsed time and the server's shutdown into
  events of the automaton. The theorems follow a session over any sequence of these calls:
  its invariant, how the text of a mail is collected, when a reply is prepared, when the
  session is closed, and what happens to the recipients between two mails.
\<close>

section \<open>Entry points\<close>

text \<open>\<^verbatim>\<open>msg->text[msg->size] = 0\<close>, the line as the matcher sees it.\<close>

definition msg_terminate :: "msg_t \<Rightarrow> (string \<times> msg_t) run" where
  "msg_terminate m =
     (case mtext m of None \<Rightarrow> Fault Null_Deref
      | Some t \<Rightarrow> if msize m < length t
                  then Done (t[msize m := NUL], m\<lparr>mtext := Some (t[msize m := NUL])\<rparr>)
                  else Fault Out_Of_Bounds)"

text \<open>The choice of the event for a line, and the step, as nested in the source.\<close>

definition client_dispatch :: "pcre_lib \<Rightarrow> client_t \<Rightarrow> string \<Rightarrow> world \<Rightarrow> (te_client_state \<times> client_t \<times> world) run" where
  "client_dispatch P c line w =
     (if current_state c = CLIENT_ST_EXPECTED_MSG_TEXT_OR_END_MSG
      then let (r, mi) = smtp_cmd_check P SMTP_CMD_END_DATA line in
        if r = CE_SUCCESS then client_step P (current_state c) CLIENT_EV_END_DATA c (Some mi) w
        else client_step P (current_state c) CLIENT_EV_MSG_TEXT c (Some mi) w
      else let (r1, mi1) = smtp_cmd_check P SMTP_CMD_EHLO line in
      if r1 = CE_SUCCESS then client_step P (current_state c) CLIENT_EV_EHLO c (Some mi1) w
      else let (r2, mi2) = smtp_cmd_check P SMTP_CMD_HELO line in
      if r2 = CE_SUCCESS then client_step P (current_state c) CLIENT_EV_HELO c (Some mi2) w
      else let (r3, mi3) = smtp_cmd_check P SMTP_CMD_MAIL line in
      if r3 = CE_SUCCESS then client_step P (current_state c) CLIENT_EV_MAIL c (Some mi3) w
      else let (r4, mi4) = smtp_cmd_check P SMTP_CMD_RCPT line in
      if r4 = CE_SUCCESS then client_step P (current_state c) CLIENT_EV_RCPT c (Some mi4) w
      else let (r5, mi5) = smtp_cmd_check P SMTP_CMD_QUIT line in
      if r5 = CE_SUCCESS then client_step P (current_state c) CLIENT_EV_QUIT c (Some mi5) w
      else let (r6, mi6) = smtp_cmd_check P SMTP_CMD_RSET line in
      if r6 = CE_SUCCESS then client_step P (current_state c) CLIENT_EV_RSET c (Some mi6) w
      else let (r7, mi7) = smtp_cmd_check P SMTP_CMD_VRFY line in
      if r7 = CE_SUCCESS
      then rbind (client_set_response c (as_array SMTP_NOT_IMPLEMENTED_ANSWER)
                    (strlen (as_array SMTP_NOT_IMPLEMENTED_ANSWER)) w)
             (\<lambda>(_, c', w'). Done (current_state c, c', w'))
      else let (r8, mi8) = smtp_cmd_check P SMTP_CMD_DATA line in
      if r8 = CE_SUCCESS then client_step P (current_state c) CLIENT_EV_DATA c (Some mi8) w
      else rbind (client_set_response c (as_array SMTP_UNKNOWN_CMD_ANSWER)
                    (strlen (as_array SMTP_UNKNOWN_CMD_ANSWER)) w)
             (\<lambda>(_, c', w'). Done (current_state c, c', w')))"

definition client_process_recv :: "pcre_lib \<Rightarrow> client_t \<Rightarrow> msg_t \<Rightarrow> world
    \<Rightarrow> (error_code \<times> client_t \<times> msg_t \<times> world) run" where
  "client_process_recv P c msg w =
     rbind (msg_terminate msg)
       (\<lambda>(line, msg'). rbind (client_dispatch P c line w)
       (\<lambda>(next_state, c1, w1).
          let (c2, w2) = client_start_timeout (c1\<lparr>current_state := next_state\<rparr>) w1 in
          Done (CE_SUCCESS, c2, msg', w2)))"

definition client_process_send :: "pcre_lib \<Rightarrow> client_t \<Rightarrow> world \<Rightarrow> (error_code \<times> client_t \<times> world) run" where
  "client_process_send P c w =
     rbind (msg_clean (msg_for_sending c))
       (\<lambda>m. rbind (client_step P (current_state c) CLIENT_EV_RESPONSE
                     (c\<lparr>need_send := False, msg_for_sending := m\<rparr>) None w)
       (\<lambda>(next_state, c1, w1).
          let c2 = c1\<lparr>current_state := next_state\<rparr> in
          Done (CE_SUCCESS, if current_state c2 = CLIENT_ST_DONE then c2\<lparr>closed := True\<rparr> else c2, w1)))"

text \<open>The elapsed time is a \<^verbatim>\<open>size_t\<close> difference.\<close>

definition size_sub :: "nat \<Rightarrow> nat \<Rightarrow> nat" where
  "size_sub a b = (a + (2 ^ 64 - b mod 2 ^ 64)) mod 2 ^ 64"

definition client_process_check_timeout :: "pcre_lib \<Rightarrow> client_t \<Rightarrow> nat \<Rightarrow> world
    \<Rightarrow> (error_code \<times> client_t \<times> world) run" where
  "client_process_check_timeout P c timeout w =
     (let (current_time, w') = time_now w in
      if size_sub current_time (timeout_start_time c) \<le> timeout then Done (CE_SUCCESS, c, w')
      else rbind (client_step P (current_state c) CLIENT_EV_TIMEOUT c None w')
             (\<lambda>(next_state, c1, w1). Done (CE_SUCCESS, c1\<lparr>current_state := next_state\<rparr>, w1)))"

definition client_process_shutdown :: "pcre_lib \<Rightarrow> client_t \<Rightarrow> world \<Rightarrow> (error_code \<times> client_t \<times> world) run" where
  "client_process_shutdown P c w =
     rbind (client_step P (current_state c) CLIENT_EV_SHUTDOWN c None w)
       (\<lambda>(next_state, c1, w1). Done (CE_SUCCESS, c1\<lparr>current_state := next_state\<rparr>, w1))"

section \<open>What a step keeps of the session\<close>

text \<open>
  Every callback keeps the session well formed and its control fields; it may add a
  recipient but never removes one.
\<close>

definition session_le :: "client_t \<Rightarrow> client_t \<Rightarrow> bool" where
  "session_le c c' \<longleftrightarrow> session_wf c' \<and> mail_writer c' = mail_writer c \<and> length (rcpts c) \<le> length (rcpts c')
     \<and> closed c' = closed c \<and> current_state c' = current_state c"

definition callback_ok :: "client_callback_t \<Rightarrow> bool" where
  "callback_ok f \<longleftrightarrow> (\<forall>P c mi i n e w s' c' w'. session_wf c \<longrightarrow> NUL \<notin> set (domain (mail_writer c)) \<longrightarrow>
     f P c mi i n e w = Done (s', c', w') \<longrightarrow> session_le c c')"

lemma session_le_refl: "session_wf c \<Longrightarrow> session_le c c"
  by (simp add: session_le_def)

lemma session_le_trans: "session_le c c' \<Longrightarrow> session_le c' c'' \<Longrightarrow> session_le c c''"
  by (auto simp: session_le_def)

lemma msg_add_text_Done_wf:
  assumes "msg_wf m" "msg_add_text m buf n w = Done (e, m', w')"
  shows "msg_wf m'"
proof (cases "n \<le> length buf")
  case True
  from msg_add_text_total [OF assms(1) True, of w] assms(2) show ?thesis by auto
next
  case False
  with assms(2) have "e \<noteq> CE_SUCCESS"
    by (auto simp: msg_add_text_def Let_def memcpy_at_def rbind_Done_iff split: if_splits option.splits)
  moreover from assms have "e = CE_SUCCESS \<or> m' = m"
    by (auto simp: msg_add_text_def Let_def msg_resize_def rbind_Done_iff split: if_splits option.splits prod.splits)
  ultimately show ?thesis using assms(1) by simp
qed

lemma set_response_le:
  assumes "session_wf c" "NUL \<notin> set s" "client_set_response c (as_array s) (length s) w = Done (e, c', w')"
  shows "session_le c c'"
proof -
  obtain e1 c1 w1 where r: "client_set_response c (as_array s) (length s) w = Done (e1, c1, w1)" "session_wf c1"
    "c1 = c\<lparr>msg_for_sending := msg_for_sending c1, need_send := need_send c1\<rparr>"
    by (rule client_set_response_ok [OF assms(1,2), of w]) blast
  have "mail_writer c1 = mail_writer c" "rcpts c1 = rcpts c" "closed c1 = closed c" "current_state c1 = current_state c"
    by (subst r(3), simp)+
  with r assms(3) show ?thesis by (simp add: session_le_def)
qed

lemma add_greating_le:
  "session_wf c \<Longrightarrow> client_add_greating_info c (as_array b) (strlen b) w = Done (e, c', w') \<Longrightarrow> session_le c c'"
  using client_add_greating_info_ok [OF _ strlen_le(1), of c b w] by (auto simp: session_le_def)

lemma add_msg_txt_le:
  assumes "session_wf c" "client_add_msg_txt c b n w = Done (e, c', w')"
  shows "session_le c c'"
  using assms msg_add_text_Done_wf [OF session_wfD(4) [OF assms(1)], of b n w]
  by (auto simp: client_add_msg_txt_def rbind_Done_iff session_le_def session_wf_def)

text \<open>A sender that fills its buffer exactly is printed without terminator.\<close>

lemma add_mail_from_full:
  assumes wf: "session_wf c" and n: "n \<le> length buf" "n = max_size (mail_from c)" "NUL \<notin> set (take n buf)"
  shows "client_add_mail_from c buf n w = Fault Out_Of_Bounds"
proof -
  define f0 where "f0 = (mail_from c)\<lparr>mtext := Some (replicate (max_size (mail_from c)) NUL), msize := 0\<rparr>"
  have f0: "msg_clean (mail_from c) = Done f0" using msg_clean_ok [OF session_wfD(3) [OF wf]] by (simp add: f0_def)
  define f where "f = f0\<lparr>mtext := Some (take n buf), msize := n\<rparr>"
  have "msg_add_text f0 buf n w = Done (CE_SUCCESS, f, w)"
    using n by (simp add: msg_add_text_def f0_def f_def memcpy_at_def blit_def Let_def)
  moreover have "msg_c_str f = Fault Out_Of_Bounds" using n by (simp add: f_def msg_c_str_def read_c_str_def)
  moreover obtain t0 where "msg_clean (msg_text c) = Done t0" using msg_clean_ok [OF session_wfD(4) [OF wf]] by blast
  ultimately show ?thesis using f0 by (simp add: client_add_mail_from_def)
qed

lemma add_mail_from_le:
  assumes wf: "session_wf c" and nul: "NUL \<notin> set b" and r: "client_add_mail_from c (as_array b) (strlen b) w = Done (e, c', w')"
  shows "session_le c c'"
proof -
  have nb: "NUL \<notin> set (take (strlen b) (as_array b))" using nul by (simp add: take_strlen)
  have "strlen b \<noteq> max_size (mail_from c)"
    using r add_mail_from_full [OF wf strlen_le(1) _ nb, of w] by auto
  from client_add_mail_from_ok [OF wf strlen_le(1) _ this, of w] nul r
  show ?thesis by (auto simp: take_strlen session_le_def)
qed

lemma add_rcpt_le:
  assumes "session_wf c" "NUL \<notin> set (domain (mail_writer c))" "client_add_rcpt_to P c mi w = Done (e, c', w')"
  shows "session_le c c'"
proof -
  from client_add_rcpt_to_ok [OF assms(1,2), of P mi w] assms(3) obtain rs where
    "c' = c\<lparr>rcpts := rs\<rparr>" "session_wf (c\<lparr>rcpts := rs\<rparr>)" "e \<noteq> CE_SUCCESS \<longrightarrow> rs = rcpts c"
    "e = CE_SUCCESS \<longrightarrow> (\<exists>r. rs = rcpts c @ [r])" by auto
  then show ?thesis by (cases "e = CE_SUCCESS") (auto simp: session_le_def)
qed

lemma dedup_loop_length: "dedup_loop mw i j n to = Done to' \<Longrightarrow> length to' = length to"
proof (induction mw i j n to arbitrary: to' rule: dedup_loop.induct)
  case (1 mw i j n to)
  show ?case
    using "1.prems" "1.IH" by (subst (asm) dedup_loop.simps)
      (auto simp: rbind_Done_iff split: if_splits)
qed

lemma link_loop_length: "link_loop mw tp lf i n to w = Done (to', w') \<Longrightarrow> length to' = length to"
proof (induction mw tp lf i n to w arbitrary: to' w' rule: link_loop.induct)
  case (1 mw tp lf i n to w)
  show ?case
    using "1.prems" "1.IH" by (subst (asm) link_loop.simps)
      (fastforce simp: rbind_Done_iff dest: dedup_loop_length split: if_splits)
qed

lemma write_mail_length: "write_mail mw to txt w = Done (e, to', w') \<Longrightarrow> length to' = length to"
  by (auto simp: write_mail_def Let_def rbind_Done_iff dest: link_loop_length
      split: prod.splits if_splits option.splits)

lemma link_loop_oom: "link_loop mw tp lf i n to w = Done (to', w') \<Longrightarrow> oom w' = oom w"
proof (induction mw tp lf i n to w arbitrary: to' w' rule: link_loop.induct)
  case (1 mw tp lf i n to w)
  have k: "create_link_to_file mw tp lf r w = Done w1 \<Longrightarrow> oom w1 = oom w" for r w1
    by (auto simp: create_link_to_file_def generate_for_client_file_name_def rbind_Done_iff link_file_def
        time_now_def Let_def split: prod.splits if_splits option.splits)
  show ?case
    using "1.prems" "1.IH" by (subst (asm) link_loop.simps)
      (fastforce simp: rbind_Done_iff dest: k split: if_splits)
qed

lemma write_mail_keeps_oom: "write_mail mw to b w = Done (e, to', w') \<Longrightarrow> oom w' = oom w"
  by (auto simp: write_mail_def generate_local_file_name_def time_now_def fopen_w_def fwrite_def remove_file_def
      Let_def rbind_Done_iff dest!: link_loop_oom split: prod.splits if_splits option.splits)

lemma data_end_le:
  "session_wf c \<Longrightarrow> client_data_end_process c w = Done (e, c', w') \<Longrightarrow> session_le c c'"
  by (auto simp: client_data_end_process_def rbind_Done_iff session_le_def session_wf_def dest: write_mail_length)

lemma get_substring_no_NUL: "smtp_cmd_get_substring P mi i b n = Done (e, s) \<Longrightarrow> NUL \<notin> set s"
  by (blast dest: smtp_cmd_get_substring_text)

lemmas callback_steps = set_response_le add_greating_le add_msg_txt_le add_mail_from_le add_rcpt_le data_end_le

lemma callback_ok_I:
  "(\<And>P c mi i n e w s' c' w'. session_wf c \<Longrightarrow> NUL \<notin> set (domain (mail_writer c)) \<Longrightarrow>
     f P c mi i n e w = Done (s', c', w') \<Longrightarrow> session_le c c') \<Longrightarrow> callback_ok f"
  unfolding callback_ok_def by blast

lemma callback_okD:
  "callback_ok f \<Longrightarrow> session_wf c \<Longrightarrow> NUL \<notin> set (domain (mail_writer c)) \<Longrightarrow>
     f P c mi i n e w = Done (s', c', w') \<Longrightarrow> session_le c c'"
  unfolding callback_ok_def by blast

text \<open>A reply prepared after a first operation that kept the session.\<close>

lemma then_respond_le:
  assumes "session_le c c1" "NUL \<notin> set s" "client_set_response c1 (as_array s) (length s) w = Done (e, c2, w2)"
  shows "session_le c c2"
  using assms set_response_le [of c1 s w e c2 w2] session_le_trans by (auto simp: session_le_def)

lemmas answer_le = set_response_le [OF _ smtp_answers_no_NUL(2)] set_response_le [OF _ smtp_answers_no_NUL(3)]
  set_response_le [OF _ smtp_answers_no_NUL(4)] set_response_le [OF _ smtp_answers_no_NUL(5)]
  set_response_le [OF _ smtp_answers_no_NUL(6)] set_response_le [OF _ smtp_answers_no_NUL(7)]

lemma passive_ok [simp]: "is_passive f \<Longrightarrow> callback_ok f"
  by (rule callback_ok_I) (auto simp: is_passive_def intro: session_le_refl)

lemma active_ok [simp]:
  "callback_ok client_do_CLIENT_INITED_quit" "callback_ok client_do_DATA_RECEIVED_quit"
  "callback_ok client_do_EHLO_RECEIVED_quit" "callback_ok client_do_EXPECTED_RCPT_OR_DATA_quit"
  "callback_ok client_do_client_inited_vrfy" "callback_ok client_do_expected_rcpt_or_data_data"
  by (rule callback_ok_I, auto simp: active_callbacks rbind_Done_iff dest: answer_le)+

lemma greeting_ok [simp]:
  "callback_ok client_do_wait_hello_or_ehlo_ehlo" "callback_ok client_do_wait_hello_or_ehlo_helo"
  by (rule callback_ok_I,
      auto simp: active_callbacks rbind_Done_iff intro: then_respond_le [OF _ smtp_answers_no_NUL(2)] session_le_refl
        dest: add_greating_le split: option.splits if_splits)+

lemma mail_ok [simp]: "callback_ok client_do_client_inited_mail"
  by (rule callback_ok_I)
    (auto simp: client_do_client_inited_mail_def rbind_Done_iff intro: then_respond_le [OF _ smtp_answers_no_NUL(2)] session_le_refl
        dest: add_mail_from_le get_substring_no_NUL split: option.splits if_splits)

lemma rcpt_ok [simp]: "callback_ok client_do_expected_rcpt_or_data_rcpt"
  by (rule callback_ok_I)
    (auto simp: client_do_expected_rcpt_or_data_rcpt_def rbind_Done_iff
        intro: then_respond_le [OF _ smtp_answers_no_NUL(2)] dest: add_rcpt_le split: option.splits)

lemma msg_text_ok [simp]: "callback_ok client_do_expected_msg_text_or_end_msg_msg_text"
  by (rule callback_ok_I)
    (auto simp: client_do_expected_msg_text_or_end_msg_msg_text_def rbind_Done_iff dest: add_msg_txt_le split: option.splits)

lemma end_data_ok [simp]: "callback_ok client_do_expected_msg_text_or_end_msg_end_data"
proof (rule callback_ok_I)
  fix P :: pcre_lib and c :: client_t and mi i n e w s' c' w'
  assume wf: "session_wf c" and r: "client_do_expected_msg_text_or_end_msg_end_data P c mi i n e w = Done (s', c', w')"
  then obtain m where m: "mi = Some m"
    by (auto simp: client_do_expected_msg_text_or_end_msg_end_data_def split: option.splits)
  from r m obtain e1 c1 w1 e2 c2 w2 e3 where
    c1: "(case sub_str m of [] \<Rightarrow> Fault Uninit_Read
          | s0 # _ \<Rightarrow> if s0 = 0 then Done (CE_SUCCESS, c, w) else if s0 < 0 then Fault Out_Of_Bounds
                      else client_add_msg_txt c (tested_line m) (nat s0) w) = Done (e1, c1, w1)"
    and c2: "client_data_end_process c1 w1 = Done (e2, c2, w2)"
    and c3: "client_set_response c2 (as_array SMTP_SUCCESS_ANSWER) (length SMTP_SUCCESS_ANSWER) w2 = Done (e3, c', w')"
    by (fastforce simp: client_do_expected_msg_text_or_end_msg_end_data_def rbind_Done_iff)
  have 1: "session_le c c1"
    using c1 wf by (auto split: list.splits if_splits intro: session_le_refl dest: add_msg_txt_le)
  then have "session_le c1 c2" using data_end_le [OF _ c2] by (simp add: session_le_def)
  with 1 have "session_le c c2" by (rule session_le_trans)
  then show "session_le c c'" by (rule then_respond_le [OF _ smtp_answers_no_NUL(2) c3])
qed

lemma invalid_ok [simp]: "callback_ok client_do_invalid"
  by (rule callback_ok_I)
    (auto simp: client_do_invalid_def rbind_Done_iff intro: session_le_refl dest: answer_le split: te_client_event.splits)

lemma table_callbacks_ok: "row \<in> set client_trans_table \<Longrightarrow> (n, f) \<in> set row \<Longrightarrow> callback_ok f"
proof -
  have "\<forall>row \<in> set client_trans_table. \<forall>(n, f) \<in> set row. callback_ok f"
    unfolding client_trans_table_def table_rows by simp
  then show "row \<in> set client_trans_table \<Longrightarrow> (n, f) \<in> set row \<Longrightarrow> callback_ok f" by blast
qed

lemma table_size: "length client_trans_table = 16" "row \<in> set client_trans_table \<Longrightarrow> length row = 14"
proof -
  have "length client_trans_table = 16 \<and> (\<forall>row \<in> set client_trans_table. length row = 14)"
    unfolding client_trans_table_def table_rows by simp
  then show "length client_trans_table = 16" "row \<in> set client_trans_table \<Longrightarrow> length row = 14" by blast+
qed

lemma client_step_le:
  assumes wf: "session_wf c" and dn: "NUL \<notin> set (domain (mail_writer c))"
    and r: "client_step P s e c mi w = Done (s', c', w')"
  shows "session_le c c'"
proof (cases "live_state s")
  case False
  with r wf show ?thesis by (auto simp: client_step_terminal intro: session_le_refl)
next
  case live: True
  show ?thesis
  proof (cases "e = CLIENT_EV_INVALID")
    case True
    with live r have "client_do_invalid P c mi s CLIENT_ST_INVALID e w = Done (s', c', w')"
      by (simp add: client_step_live)
    with callback_okD [OF invalid_ok wf dn] show ?thesis by blast
  next
    case False
    obtain n f where nf: "client_trans_table ! state_no s ! event_no e = (n, f)" by force
    from live have "client_trans_table ! state_no s \<in> set client_trans_table"
      by (simp add: table_size live_state_def)
    moreover from False this have "(n, f) \<in> set (client_trans_table ! state_no s)"
      using nf table_size(2) event_no_valid [of e] by (metis nth_mem)
    ultimately have "callback_ok f" by (rule table_callbacks_ok)
    moreover have "f P c mi s n e w = Done (s', c', w')" using live False r nf by (simp add: client_step_live)
    ultimately show ?thesis using callback_okD [OF _ wf dn] by blast
  qed
qed

section \<open>Reachable sessions\<close>

lemma client_init_ok:
  obtains e c w' where "client_init raw mw w = Done (e, c, w')" "only_oom w w'"
    "e = CE_SUCCESS \<or> e = CE_INIT_3RD"
    "e = CE_SUCCESS \<Longrightarrow> session_wf c \<and> current_state c = CLIENT_ST_INIT \<and> need_send c \<and> \<not> closed c
       \<and> rcpts c = [] \<and> mail_writer c = mw \<and> content (msg_for_sending c) = SMTP_OPENING_MSG"
    "oom w = [] \<Longrightarrow> e = CE_SUCCESS \<and> w' = w"
proof -
  obtain e1 m1 w1 where 1: "msg_init 100 w = (e1, m1, w1)" by (cases "msg_init 100 w")
  obtain e2 m2 w2 where 2: "msg_init 100 w1 = (e2, m2, w2)" by (cases "msg_init 100 w1")
  obtain e3 m3 w3 where 3: "msg_init 100 w2 = (e3, m3, w3)" by (cases "msg_init 100 w2")
  obtain e4 m4 w4 where 4: "msg_init 100 w3 = (e4, m4, w4)" by (cases "msg_init 100 w3")
  note inits = 1 2 3 4
  have oo: "only_oom w w1" "only_oom w w2" "only_oom w w3" "only_oom w w4"
    using inits by (auto simp: msg_init_def split: prod.splits if_splits dest!: alloc_only_oom intro: only_oom_trans)
  show thesis
  proof (cases "e1 = CE_SUCCESS \<and> e2 = CE_SUCCESS \<and> e3 = CE_SUCCESS \<and> e4 = CE_SUCCESS")
    case False
    then have np: "oom w \<noteq> []" using inits by (cases "oom w = []") auto
    from False inits oo obtain c w' where "client_init raw mw w = Done (CE_INIT_3RD, c, w')" "only_oom w w'"
      unfolding client_init_def Let_def
      by (cases "e1 = CE_SUCCESS"; cases "e2 = CE_SUCCESS"; cases "e3 = CE_SUCCESS") auto
    with np show thesis by (intro that) auto
  next
    case True
    have wfs: "msg_wf m1" "msg_wf m2" "msg_wf m3" "msg_wf m4" "content m4 = []" "msize m4 = 0" "max_size m4 = 100"
      "zero_padded m2"
      using True msg_init_cases [OF 1] msg_init_cases [OF 2] msg_init_cases [OF 3] msg_init_cases [OF 4]
        msg_init_zero_padded [of 100 w1 m2 w2] 2 by auto
    obtain m5 where m5: "msg_add_text m4 (as_array SMTP_OPENING_MSG) (length SMTP_OPENING_MSG) w4 = Done (CE_SUCCESS, m5, w4)"
      using wfs by (auto simp: msg_add_text_def Let_def memcpy_at_def msg_wf_def as_array_def SMTP_OPENING_MSG_def)
    have "msg_wf m5" "content m5 = SMTP_OPENING_MSG"
      using msg_add_text_total [OF wfs(4), of "length SMTP_OPENING_MSG" "as_array SMTP_OPENING_MSG" w4] m5 wfs(5) by auto
    moreover have "oom w = [] \<Longrightarrow> w4 = w" using inits by simp
    moreover have "client_init raw mw w = Done (CE_SUCCESS, raw\<lparr>current_state := CLIENT_ST_INIT, need_send := True,
        closed := False, ehlo := False, rcpts := [], mail_writer := mw, greating_info := m1, mail_from := m2,
        msg_text := m3, msg_for_sending := m5\<rparr>, w4)"
      unfolding client_init_def using inits True m5 by (simp add: Let_def)
    ultimately show thesis using wfs oo(4)
      by (intro that [of CE_SUCCESS _ w4]) (auto simp: session_wf_def)
  qed
qed

text \<open>
  One call of an entry point that returns; the world (memory, clock, files) is arbitrary at
  each call, and so is the received buffer.
\<close>

inductive session_next :: "pcre_lib \<Rightarrow> client_t \<Rightarrow> client_t \<Rightarrow> bool" for P :: pcre_lib where
  recv: "client_process_recv P c msg w = Done (e, c', msg', w') \<Longrightarrow> session_next P c c'"
| send: "client_process_send P c w = Done (e, c', w') \<Longrightarrow> session_next P c c'"
| check_timeout: "client_process_check_timeout P c t w = Done (e, c', w') \<Longrightarrow> session_next P c c'"
| shut_down: "client_process_shutdown P c w = Done (e, c', w') \<Longrightarrow> session_next P c c'"

inductive_cases session_nextE: "session_next P c c'"

inductive session_reach :: "pcre_lib \<Rightarrow> mail_writer_t \<Rightarrow> client_t \<Rightarrow> bool"
  for P :: pcre_lib and mw :: mail_writer_t where
  init: "client_init raw mw w = Done (CE_SUCCESS, c, w') \<Longrightarrow> session_reach P mw c"
| next_call: "session_reach P mw c \<Longrightarrow> session_next P c c' \<Longrightarrow> session_reach P mw c'"

lemma client_dispatch_cases:
  assumes "client_dispatch P c line w = Done (s', c', w')"
  obtains (step) e mi where "e \<in> {CLIENT_EV_END_DATA, CLIENT_EV_MSG_TEXT, CLIENT_EV_EHLO, CLIENT_EV_HELO, CLIENT_EV_MAIL,
      CLIENT_EV_RCPT, CLIENT_EV_QUIT, CLIENT_EV_RSET, CLIENT_EV_DATA}"
    "client_step P (current_state c) e c (Some mi) w = Done (s', c', w')"
  | (reply) a er where "a = SMTP_NOT_IMPLEMENTED_ANSWER \<or> a = SMTP_UNKNOWN_CMD_ANSWER" "s' = current_state c"
    "client_set_response c (as_array a) (length a) w = Done (er, c', w')"
proof -
  have r: "rbind (client_set_response c (as_array a) (strlen (as_array a)) w)
      (\<lambda>p. Done (current_state c, fst (snd p), snd (snd p))) = Done (s', c', w') \<Longrightarrow>
     a = SMTP_NOT_IMPLEMENTED_ANSWER \<or> a = SMTP_UNKNOWN_CMD_ANSWER \<Longrightarrow> thesis" for a
    by (auto simp: rbind_Done_iff intro: reply)
  note d = assms [unfolded client_dispatch_def Let_def case_prod_beta]
  show thesis
  proof (cases "current_state c = CLIENT_ST_EXPECTED_MSG_TEXT_OR_END_MSG")
    case True
    show thesis
      using d step [of CLIENT_EV_END_DATA] step [of CLIENT_EV_MSG_TEXT] by (simp add: True split: if_split_asm)
  next
    case False
    with d show thesis by (simp only: if_False split: if_split_asm) ((erule step [rotated], simp) | (erule r, simp))+
  qed
qed

lemma server_target_not_INVALID:
  "live_state s \<Longrightarrow> e \<noteq> CLIENT_EV_UNKNOWN \<Longrightarrow> server_target s e \<noteq> CLIENT_ST_INVALID"
  by (auto simp: server_target_def live_state_iff)

lemma client_step_not_INVALID:
  assumes "client_step P s e c mi w = Done (s', c', w')" and "e \<noteq> CLIENT_EV_UNKNOWN"
  shows "s' \<noteq> CLIENT_ST_INVALID"
  using assms client_step_state [OF _ assms(1)] server_target_not_INVALID [of s e] client_step_terminal [of s P e c mi w]
  by (cases "live_state s") auto

lemma client_dispatch_le:
  assumes "session_wf c" "NUL \<notin> set (domain (mail_writer c))" "client_dispatch P c line w = Done (s', c', w')"
  shows "session_le c c' \<and> (current_state c \<noteq> CLIENT_ST_INVALID \<longrightarrow> s' \<noteq> CLIENT_ST_INVALID)"
  using assms(3)
proof (cases rule: client_dispatch_cases)
  case (step e mi)
  with client_step_le [OF assms(1,2) step(2)] client_step_not_INVALID [OF step(2)] show ?thesis by auto
next
  case (reply a er)
  with set_response_le [OF assms(1) _ reply(3)] show ?thesis by auto
qed

text \<open>What one call keeps: everything \<open>session_le\<close> keeps but the state and the closed flag.\<close>

definition session_keeps :: "client_t \<Rightarrow> client_t \<Rightarrow> bool" where
  "session_keeps c c' \<longleftrightarrow> session_wf c' \<and> mail_writer c' = mail_writer c \<and> length (rcpts c) \<le> length (rcpts c')
     \<and> (current_state c \<noteq> CLIENT_ST_INVALID \<longrightarrow> current_state c' \<noteq> CLIENT_ST_INVALID)"

lemma session_keeps_refl: "session_wf c \<Longrightarrow> session_keeps c c"
  by (simp add: session_keeps_def)

lemma client_step_keeps:
  assumes "session_wf c" "NUL \<notin> set (domain (mail_writer c))" "client_step P s e c mi w = Done (s', c', w')"
    "e \<noteq> CLIENT_EV_UNKNOWN"
  shows "session_keeps c (c'\<lparr>current_state := s'\<rparr>)"
  using client_step_le [OF assms(1-3)] client_step_not_INVALID [OF assms(3,4)]
  by (simp add: session_le_def session_keeps_def)

lemma session_next_keeps:
  assumes wf: "session_wf c" and dn: "NUL \<notin> set (domain (mail_writer c))" and st: "session_next P c c'"
  shows "session_keeps c c'"
  using st
proof (cases rule: session_next.cases)
  case (recv msg w e msg' w')
  then obtain line s c1 w1 where d: "client_dispatch P c line w = Done (s, c1, w1)"
    and c': "\<exists>t. c' = c1\<lparr>current_state := s, timeout_start_time := t\<rparr>"
    by (fastforce simp: client_process_recv_def rbind_Done_iff client_start_timeout_def Let_def split: prod.splits)
  from client_dispatch_le [OF wf dn d] c' show ?thesis by (auto simp: session_le_def session_keeps_def)
next
  case (send w e w')
  let ?m = "(msg_for_sending c)\<lparr>mtext := Some (replicate (max_size (msg_for_sending c)) NUL), msize := 0\<rparr>"
  note m = msg_clean_ok [OF session_wfD(2) [OF wf]]
  let ?c = "c\<lparr>need_send := False, msg_for_sending := ?m\<rparr>"
  have wf1: "session_wf ?c" using wf m by (simp add: session_wf_def)
  from send m(1) obtain s c1 where r: "client_step P (current_state c) CLIENT_EV_RESPONSE ?c None w = Done (s, c1, w')"
    "c' = (if s = CLIENT_ST_DONE then c1\<lparr>current_state := s, closed := True\<rparr> else c1\<lparr>current_state := s\<rparr>)"
    by (auto simp: client_process_send_def rbind_Done_iff Let_def split: prod.splits)
  from client_step_le [OF wf1 _ r(1)] dn client_step_not_INVALID [OF r(1)] r(2) show ?thesis
    by (auto simp: session_le_def session_keeps_def)
next
  case (check_timeout t w e w')
  then show ?thesis
    using wf by (auto simp: client_process_check_timeout_def rbind_Done_iff Let_def session_keeps_refl
        dest: client_step_keeps [OF wf dn] split: prod.splits if_splits)
next
  case (shut_down w e w')
  then show ?thesis
    by (auto simp: client_process_shutdown_def rbind_Done_iff dest: client_step_keeps [OF wf dn])
qed

lemma session_reach_inv:
  "session_reach P mw c \<Longrightarrow> NUL \<notin> set (domain mw) \<Longrightarrow>
     session_wf c \<and> mail_writer c = mw \<and> current_state c \<noteq> CLIENT_ST_INVALID"
proof (induction rule: session_reach.induct)
  case (init raw w c w')
  show ?case by (rule client_init_ok [of raw mw w]) (use init in auto)
next
  case (next_call c c')
  then show ?case using session_next_keeps [of c P c'] by (auto simp: session_keeps_def)
qed

text \<open>
  C10: in every state a session can reach, over any sequence of received lines, sent
  replies, timeouts and shutdown, with any memory failures, its buffers are well formed,
  at most 100 recipients are stored and the automaton is not in its invalid state.
\<close>

theorem reachable_session_wf:
  assumes "session_reach P mw c" and "NUL \<notin> set (domain mw)"
  shows "session_wf c \<and> length (rcpts c) \<le> SMTP_RCPT_MAX_SIZE \<and> current_state c \<noteq> CLIENT_ST_INVALID"
  using session_reach_inv [OF assms] by (simp add: session_wf_def)

theorem reachable_session_wf_witness:
  "\<exists>c. session_reach no_match mw_example c \<and> need_send c \<and> session_wf c
     \<and> length (rcpts c) \<le> SMTP_RCPT_MAX_SIZE \<and> current_state c \<noteq> CLIENT_ST_INVALID"
proof -
  obtain c where c: "client_init blank_client mw_example plenty = Done (CE_SUCCESS, c, plenty)" "need_send c"
    by (rule client_init_ok [of blank_client mw_example plenty]) (auto simp: plenty_def)
  then have "session_reach no_match mw_example c" by (auto intro: session_reach.init)
  with reachable_session_wf [OF this] c show ?thesis by (auto simp: mw_example_def)
qed

text \<open>
  No call ever removes a recipient: what a session has collected for one mail is still
  there for the next one, so every later mail of the session goes to the earlier
  recipients as well. (RFC 5321 clears the buffers after each mail and on RSET.)
\<close>

theorem recipients_accumulate:
  assumes "session_reach P mw c" and "NUL \<notin> set (domain mw)" and "(session_next P)\<^sup>*\<^sup>* c c'"
  shows "length (rcpts c) \<le> length (rcpts c')"
proof -
  have "session_reach P mw c' \<and> length (rcpts c) \<le> length (rcpts c')"
    using assms(3)
  proof (induction rule: rtranclp_induct)
    case base
    then show ?case using assms(1) by simp
  next
    case (step d d')
    with session_reach_inv [OF _ assms(2)] session_next_keeps [of d P d'] assms(2)
    show ?case by (auto simp: session_keeps_def intro: session_reach.next_call)
  qed
  then show ?thesis by simp
qed

theorem recipients_accumulate_witness:
  "\<exists>c (c' :: client_t). session_reach no_match mw_example c \<and> current_state c' = CLIENT_ST_WAIT_HELLO_OR_EHLO
     \<and> length (rcpts c) \<le> length (rcpts c')"
proof -
  obtain c where c: "client_init blank_client mw_example plenty = Done (CE_SUCCESS, c, plenty)"
    "current_state c = CLIENT_ST_INIT" "session_wf c"
    by (rule client_init_ok [of blank_client mw_example plenty]) (auto simp: plenty_def)
  then have r: "session_reach no_match mw_example c" by (auto intro: session_reach.init)
  obtain c' where c': "client_process_send no_match c plenty = Done (CE_SUCCESS, c', plenty)"
    "current_state c' = CLIENT_ST_WAIT_HELLO_OR_EHLO"
    using c msg_clean_ok(1) [OF session_wfD(2) [OF c(3)]]
    by (simp add: client_process_send_def client_step_def client_trans_table_def client_trans_INIT_def
        client_do_init_response_def)
  have "(session_next no_match)\<^sup>*\<^sup>* c c'" using c' by (blast intro: session_next.send)
  then have "length (rcpts c) \<le> length (rcpts c')"
    by (rule recipients_accumulate [OF r, rotated]) (simp add: mw_example_def)
  with r c'(2) show ?thesis by blast
qed

end
