(* ===== verification/Server_Dialogue.thy ===== *)
theory Server_Dialogue
  imports Server_Client
begin

text \<open>
  Properties of whole dialogues of a session: received lines never make the server access
  memory out of bounds under stated conditions, a mail's text is collected and delivered,
  when replies are prepared and connections closed, and what goes wrong without
  recipients, with too many of them, after RSET and on a timeout.
\<close>

section \<open>When a step returns\<close>

text \<open>
  What a matched line has to provide for its event: EHLO, HELO and MAIL read capture group
  1 into a buffer of 1000 bytes that was never written; the sender must not fill its buffer
  exactly; at the end of the data the match offset lies inside the line, there is a
  recipient and all recipients are readable.
\<close>

definition line_ok :: "pcre_lib \<Rightarrow> client_t \<Rightarrow> match_info \<Rightarrow> te_client_event \<Rightarrow> bool" where
  "line_ok P c mi e \<longleftrightarrow>
     (e \<in> {CLIENT_EV_EHLO, CLIENT_EV_HELO, CLIENT_EV_MAIL} \<longrightarrow>
        pcre_copy_substring P (tested_line mi) (sub_str mi) (sub_str_count mi) 1 1000 \<noteq> None)
     \<and> (e = CLIENT_EV_MAIL \<longrightarrow> length (capture P mi 1) \<noteq> max_size (mail_from c))
     \<and> (e = CLIENT_EV_END_DATA \<longrightarrow> (\<exists>k ov. sub_str mi = int k # ov \<and> k \<le> length (tested_line mi))
          \<and> rcpts c \<noteq> [] \<and> (\<forall>r \<in> set (rcpts c). rcv_readable r))"

definition total_at :: "te_client_event \<Rightarrow> client_callback_t \<Rightarrow> bool" where
  "total_at e f \<longleftrightarrow> (\<forall>P c mi i n w. session_wf c \<longrightarrow> NUL \<notin> set (domain (mail_writer c)) \<longrightarrow> line_ok P c mi e \<longrightarrow>
     (\<exists>r. f P c (Some mi) i n e w = Done r))"

lemma total_atI:
  "(\<And>P c mi i n w. session_wf c \<Longrightarrow> NUL \<notin> set (domain (mail_writer c)) \<Longrightarrow> line_ok P c mi e \<Longrightarrow>
     \<exists>r. f P c (Some mi) i n e w = Done r) \<Longrightarrow> total_at e f"
  unfolding total_at_def by blast

lemma set_response_total:
  assumes "session_wf c" "NUL \<notin> set s"
  shows "\<exists>e c' w'. client_set_response c (as_array s) (length s) w = Done (e, c', w')"
  by (rule client_set_response_ok [OF assms, of w]) blast

lemma respond_total:
  assumes "session_wf c" "NUL \<notin> set s"
  shows "\<exists>r. rbind (client_set_response c (as_array s) (length s) w) (\<lambda>(_, c', w'). Done (n, c', w')) = Done r"
  using set_response_total [OF assms, of w] by auto

lemma passive_total [simp]: "is_passive f \<Longrightarrow> total_at e f"
  by (simp add: total_at_def is_passive_def)

lemma reply_total [simp]:
  "total_at e client_do_CLIENT_INITED_quit" "total_at e client_do_DATA_RECEIVED_quit"
  "total_at e client_do_EHLO_RECEIVED_quit" "total_at e client_do_EXPECTED_RCPT_OR_DATA_quit"
  "total_at e client_do_client_inited_vrfy" "total_at e client_do_expected_rcpt_or_data_data"
  unfolding active_callbacks by (rule total_atI, rule respond_total, assumption, simp)+

lemma invalid_total [simp]: "total_at e client_do_invalid"
proof (rule total_atI)
  fix P :: pcre_lib and c :: client_t and mi :: match_info and i n w
  assume "session_wf c"
  note r = respond_total [OF this smtp_answers_no_NUL(5), of "log_msg WARNING ''client_fsm'' w" i]
    respond_total [OF this smtp_answers_no_NUL(7), of "log_msg WARNING ''client_fsm'' w" i]
  show "\<exists>r. client_do_invalid P c (Some mi) i n e w = Done r"
    unfolding client_do_invalid_def using r by (cases e) (simp_all only: te_client_event.case, auto)
qed

text \<open>The common shape of the callbacks for EHLO, HELO and MAIL.\<close>

lemma store_and_confirm_total:
  assumes wf: "session_wf c"
    and g: "pcre_copy_substring P (tested_line mi) (sub_str mi) (sub_str_count mi) k 1000 \<noteq> None"
    and st: "\<And>b. b = capture P mi k \<Longrightarrow> \<exists>e c1 w1. store c (as_array b) (strlen b) w = Done (e, c1, w1) \<and> session_wf c1"
  shows "\<exists>r. rbind (smtp_cmd_get_substring P mi k None 1000)
      (\<lambda>(e, buf). rbind (if e = CE_SUCCESS then store c (as_array buf) (strlen buf) w else Done (e, c, w))
      (\<lambda>(_, c1, w1). rbind (client_set_response c1 (as_array SMTP_SUCCESS_ANSWER) (length SMTP_SUCCESS_ANSWER) w1)
      (\<lambda>(_, c2, w2). Done (n, c2, w2)))) = Done r"
proof -
  define b where "b = capture P mi k"
  have "smtp_cmd_get_substring P mi k None 1000 = Done (if b = [] then CE_COMMON else CE_SUCCESS, b)"
    using g by (auto simp: smtp_cmd_get_substring_def capture_def b_def)
  moreover obtain e c1 w1 where "store c (as_array b) (strlen b) w = Done (e, c1, w1)" "session_wf c1"
    using st [OF b_def] by blast
  moreover note respond_total [OF this(2) smtp_answers_no_NUL(2), of w1 n] respond_total [OF wf smtp_answers_no_NUL(2), of w n]
  ultimately show ?thesis by (cases "b = []") simp_all
qed

lemma greeting_total [simp]:
  "total_at CLIENT_EV_EHLO client_do_wait_hello_or_ehlo_ehlo" "total_at CLIENT_EV_HELO client_do_wait_hello_or_ehlo_helo"
  "total_at CLIENT_EV_MAIL client_do_client_inited_mail"
proof -
  have gr: "\<exists>e c1 w1. client_add_greating_info c (as_array b) (strlen b) w = Done (e, c1, w1) \<and> session_wf c1"
    if "session_wf c" for c b w
    using client_add_greating_info_ok [OF that strlen_le(1), of b w] by blast
  have ml: "\<exists>e c1 w1. client_add_mail_from c (as_array b) (strlen b) w = Done (e, c1, w1) \<and> session_wf c1"
    if "session_wf c" "NUL \<notin> set b" "length b \<noteq> max_size (mail_from c)" for c b w
    using client_add_mail_from_ok [OF that(1) strlen_le(1), of b w] that(2,3)
    by (fastforce simp: take_strlen strlen_def c_str_id)
  show "total_at CLIENT_EV_EHLO client_do_wait_hello_or_ehlo_ehlo"
    "total_at CLIENT_EV_HELO client_do_wait_hello_or_ehlo_helo"
    "total_at CLIENT_EV_MAIL client_do_client_inited_mail"
    unfolding active_callbacks capture_indices line_ok_def
    by (rule total_atI, unfold option.case line_ok_def,
        rule store_and_confirm_total, assumption, simp, rule gr ml, simp_all)+
qed

lemma rcpt_total [simp]: "total_at e client_do_expected_rcpt_or_data_rcpt"
proof (rule total_atI)
  fix P :: pcre_lib and c :: client_t and mi :: match_info and i n w
  assume wf: "session_wf c" "NUL \<notin> set (domain (mail_writer c))"
  then obtain e1 rs w1 where r: "client_add_rcpt_to P c mi w = Done (e1, c\<lparr>rcpts := rs\<rparr>, w1)" "session_wf (c\<lparr>rcpts := rs\<rparr>)"
    using client_add_rcpt_to_ok [of c P mi w] by blast
  from respond_total [OF r(2) smtp_answers_no_NUL(2), of w1 n] r(1)
  show "\<exists>r. client_do_expected_rcpt_or_data_rcpt P c (Some mi) i n e w = Done r"
    by (simp add: client_do_expected_rcpt_or_data_rcpt_def)
qed

lemma msg_text_total [simp]: "total_at e client_do_expected_msg_text_or_end_msg_msg_text"
proof (rule total_atI)
  fix P :: pcre_lib and c :: client_t and mi :: match_info and i n w
  assume wf: "session_wf c"
  from client_add_msg_txt_ok [OF wf strlen_le(2), of "tested_line mi" w] obtain e1 c1 w1 where
    "client_add_msg_txt c (tested_line mi) (strlen (tested_line mi)) w = Done (e1, c1, w1)" by blast
  then show "\<exists>r. client_do_expected_msg_text_or_end_msg_msg_text P c (Some mi) i n e w = Done r"
    by (simp add: client_do_expected_msg_text_or_end_msg_msg_text_def)
qed

lemma end_data_total [simp]: "total_at CLIENT_EV_END_DATA client_do_expected_msg_text_or_end_msg_end_data"
proof (rule total_atI)
  fix P :: pcre_lib and c :: client_t and mi :: match_info and i n w
  assume wf: "session_wf c" and l: "line_ok P c mi CLIENT_EV_END_DATA"
  from l obtain k ov where k: "sub_str mi = int k # ov" "k \<le> length (tested_line mi)" by (auto simp: line_ok_def)
  from client_add_msg_txt_ok [OF wf k(2), of w] obtain e1 t w1 where
    a: "client_add_msg_txt c (tested_line mi) k w = Done (e1, c\<lparr>msg_text := t\<rparr>, w1)" "session_wf (c\<lparr>msg_text := t\<rparr>)" by blast
  have "length (rcpts c) < 2 ^ 64" using wf by (simp add: session_wf_def SMTP_RCPT_MAX_SIZE_def)
  then have d: "\<exists>e c' w'. client_data_end_process d u = Done (e, c', w')" if "d = c \<or> d = c\<lparr>msg_text := t\<rparr>" for d u
    using that l write_mail_total [of "rcpts d" "msg_text d" "mail_writer d" u] session_wfD(4) [OF wf] session_wfD(4) [OF a(2)]
    by (fastforce simp: client_data_end_process_def line_ok_def)
  define d where "d = (if k = 0 then c else c\<lparr>msg_text := t\<rparr>)"
  define u where "u = (if k = 0 then w else w1)"
  have dwf: "session_wf d" using wf a(2) by (simp add: d_def)
  have "d = c \<or> d = c\<lparr>msg_text := t\<rparr>" by (simp add: d_def)
  then obtain e2 c2 w2 where e2: "client_data_end_process d u = Done (e2, c2, w2)" using d by blast
  have "session_wf c2" using data_end_le [OF dwf e2] by (simp add: session_le_def)
  from respond_total [OF this smtp_answers_no_NUL(2), of w2 n] e2 a(1) k(1)
  show "\<exists>r. client_do_expected_msg_text_or_end_msg_end_data P c (Some mi) i n CLIENT_EV_END_DATA w = Done r"
    by (cases "k = 0") (simp_all add: client_do_expected_msg_text_or_end_msg_end_data_def d_def u_def)
qed

text \<open>Every entry of the table is total at its event.\<close>

definition row_total :: "(te_client_state \<times> client_callback_t) list \<Rightarrow> bool" where
  "row_total row \<longleftrightarrow> (\<forall>e. event_no e < 14 \<longrightarrow> total_at e (snd (row ! event_no e)))"

lemma row_totalI: "(\<And>e. event_no e < 14 \<Longrightarrow> total_at e (snd (row ! event_no e))) \<Longrightarrow> row_total row"
  unfolding row_total_def by blast

lemma rows_total: "row \<in> set client_trans_table \<Longrightarrow> row_total row"
proof -
  have "\<forall>row \<in> set client_trans_table. row_total row"
    unfolding client_trans_table_def list.set ball_simps
    by (intro conjI TrueI; rule row_totalI; case_tac e; simp add: table_rows)
  then show "row \<in> set client_trans_table \<Longrightarrow> row_total row" by blast
qed

lemma client_step_total:
  assumes "session_wf c" "NUL \<notin> set (domain (mail_writer c))" "line_ok P c mi e"
  shows "\<exists>r. client_step P s e c (Some mi) w = Done r"
proof (cases "live_state s")
  case False
  then show ?thesis by (simp add: client_step_terminal)
next
  case live: True
  show ?thesis
  proof (cases "e = CLIENT_EV_INVALID")
    case True
    with live assms invalid_total [of e] show ?thesis unfolding total_at_def by (simp add: client_step_live)
  next
    case False
    from live have "client_trans_table ! state_no s \<in> set client_trans_table"
      by (simp add: table_size live_state_def)
    with False have "total_at e (snd (client_trans_table ! state_no s ! event_no e))"
      using rows_total by (simp add: row_total_def event_no_valid)
    with assms live False show ?thesis unfolding total_at_def by (simp add: client_step_live case_prod_beta)
  qed
qed

section \<open>Receiving a line is safe\<close>

definition received_ok :: "pcre_lib \<Rightarrow> client_t \<Rightarrow> string \<Rightarrow> bool" where
  "received_ok P c line \<longleftrightarrow>
     (if current_state c = CLIENT_ST_EXPECTED_MSG_TEXT_OR_END_MSG
      then \<forall>mi. smtp_cmd_check P SMTP_CMD_END_DATA line = (CE_SUCCESS, mi) \<longrightarrow> line_ok P c mi CLIENT_EV_END_DATA
      else (\<forall>mi. smtp_cmd_check P SMTP_CMD_EHLO line = (CE_SUCCESS, mi) \<longrightarrow> line_ok P c mi CLIENT_EV_EHLO)
         \<and> (\<forall>mi. smtp_cmd_check P SMTP_CMD_HELO line = (CE_SUCCESS, mi) \<longrightarrow> line_ok P c mi CLIENT_EV_HELO)
         \<and> (\<forall>mi. smtp_cmd_check P SMTP_CMD_MAIL line = (CE_SUCCESS, mi) \<longrightarrow> line_ok P c mi CLIENT_EV_MAIL))"

lemma run_ifI:
  "(b \<Longrightarrow> \<exists>r. X = Done r) \<Longrightarrow> (\<not> b \<Longrightarrow> \<exists>r. Y = Done r) \<Longrightarrow> \<exists>r. (if b then X else Y) = Done r"
  by simp

lemma line_ok_free:
  "e \<notin> {CLIENT_EV_EHLO, CLIENT_EV_HELO, CLIENT_EV_MAIL, CLIENT_EV_END_DATA} \<Longrightarrow> line_ok P c mi e"
  by (auto simp: line_ok_def)

lemma client_dispatch_total:
  assumes wf: "session_wf c" "NUL \<notin> set (domain (mail_writer c))" and ok: "received_ok P c line"
  shows "\<exists>r. client_dispatch P c line w = Done r"
proof -
  note step = client_step_total [OF wf]
  have free: "\<exists>r. client_step P s e c (Some mi) w = Done r"
    if "e \<notin> {CLIENT_EV_EHLO, CLIENT_EV_HELO, CLIENT_EV_MAIL, CLIENT_EV_END_DATA}" for s e mi
    using step [OF line_ok_free [OF that]] .
  have resp: "\<exists>r. rbind (client_set_response c (as_array a) (strlen (as_array a)) w)
      (\<lambda>p. Done (current_state c, fst (snd p), snd (snd p))) = Done r" if "NUL \<notin> set a" for a
    using set_response_total [OF wf(1) that, of w] that by auto
  show ?thesis
  proof (cases "current_state c = CLIENT_ST_EXPECTED_MSG_TEXT_OR_END_MSG")
    case True
    obtain r mi where c: "smtp_cmd_check P SMTP_CMD_END_DATA line = (r, mi)" by force
    show ?thesis
    proof (cases "r = CE_SUCCESS")
      case t: True
      with ok True c have "line_ok P c mi CLIENT_EV_END_DATA" by (simp add: received_ok_def)
      from step [OF this, of "current_state c" w] True c t show ?thesis by (simp add: client_dispatch_def)
    next
      case False
      with True c free [of CLIENT_EV_MSG_TEXT "current_state c" mi] show ?thesis by (simp add: client_dispatch_def)
    qed
  next
    case False
    have cmds: "\<exists>r. client_step P (current_state c) e c (Some (snd (smtp_cmd_check P m line))) w = Done r"
      if "fst (smtp_cmd_check P m line) = CE_SUCCESS"
        "(m, e) \<in> {(SMTP_CMD_EHLO, CLIENT_EV_EHLO), (SMTP_CMD_HELO, CLIENT_EV_HELO), (SMTP_CMD_MAIL, CLIENT_EV_MAIL)}" for m e
    proof -
      have "line_ok P c (snd (smtp_cmd_check P m line)) e"
        using ok False that by (auto simp: received_ok_def prod_eq_iff)
      then show ?thesis by (rule step)
    qed
    show ?thesis
      unfolding client_dispatch_def Let_def case_prod_beta
      by (intro run_ifI) ((rule notE [OF False], assumption) | (rule cmds free resp; simp))+
  qed
qed

text \<open>
  C7: receiving a line never faults and keeps the session well formed, whatever memory
  failures occur, provided the receive buffer has a byte left for the terminator and the
  line meets \<open>received_ok\<close>: the first capture group of EHLO, HELO and MAIL is there and
  shorter than 1000 bytes, a sender does not fill its buffer exactly, and a mail that ends
  has at least one recipient, all of them terminated inside their buffers.
\<close>

theorem client_process_recv_safe:
  assumes "session_wf c" and "NUL \<notin> set (domain (mail_writer c))"
    and "msg_terminate msg = Done (line, msg')" and "received_ok P c line"
  shows "\<exists>c' w'. client_process_recv P c msg w = Done (CE_SUCCESS, c', msg', w') \<and> session_wf c'"
proof -
  obtain s c1 w1 where d: "client_dispatch P c line w = Done (s, c1, w1)"
    using client_dispatch_total [OF assms(1,2,4), of w] by force
  obtain c2 w2 where t: "client_start_timeout (c1\<lparr>current_state := s\<rparr>) w1 = (c2, w2)" by force
  have "session_wf c1" using client_dispatch_le [OF assms(1,2) d] by (simp add: session_le_def)
  then have "session_wf c2" using t by (auto simp: client_start_timeout_def Let_def split: prod.splits)
  with d t assms(3) show ?thesis by (simp add: client_process_recv_def)
qed

definition hello_buffer :: msg_t where
  "hello_buffer = buffer_with (''noop'' @ CRLF)"

theorem client_process_recv_safe_witness:
  "\<exists>msg' c' w'. client_process_recv no_match blank_client hello_buffer plenty = Done (CE_SUCCESS, c', msg', w')
     \<and> session_wf c'"
proof -
  obtain line msg' where m: "msg_terminate hello_buffer = Done (line, msg')"
    by (simp add: msg_terminate_def hello_buffer_def buffer_with_def)
  have "received_ok no_match blank_client line"
    by (simp add: received_ok_def smtp_cmd_check_def no_match_def)
  from client_process_recv_safe [OF blank_client_wf _ m this, of plenty] show ?thesis
    by (auto simp: blank_client_def mw_example_def)
qed

text \<open>
  When the bytes received fill the buffer completely, terminating the line writes one
  byte past its end.
\<close>

theorem client_process_recv_full_buffer:
  assumes "msg_wf msg" and "msize msg = max_size msg"
  shows "client_process_recv P c msg w = Fault Out_Of_Bounds"
  using assms by (auto simp: client_process_recv_def msg_terminate_def msg_wf_def)

theorem client_process_recv_full_buffer_witness:
  "client_process_recv no_match blank_client \<lparr>mtext = Some ''quit'', msize = 4, max_size = 4\<rparr> plenty
     = Fault Out_Of_Bounds"
  by (rule client_process_recv_full_buffer) (simp_all add: msg_wf_def)

section \<open>Collecting and delivering a mail\<close>

text \<open>A received buffer that holds a text without NUL bytes and has room for the terminator.\<close>

definition holds :: "msg_t \<Rightarrow> string \<Rightarrow> bool" where
  "holds m s \<longleftrightarrow> msg_wf m \<and> msize m < max_size m \<and> content m = s \<and> NUL \<notin> set s"

lemma terminate_holds:
  assumes "holds m s"
  obtains line m' where "msg_terminate m = Done (line, m')" "c_str line = s" "take (length s) line = s"
    "length s < length line"
proof -
  from assms obtain t where t: "mtext m = Some t" "length t = max_size m" "msize m < length t" "take (msize m) t = s"
    "NUL \<notin> set s" by (auto simp: holds_def msg_wf_def content_def)
  then have l: "t[msize m := NUL] = s @ NUL # drop (Suc (msize m)) t" "length s = msize m"
    by (auto simp: upd_conv_take_nth_drop)
  with t show thesis
    by (intro that [of "t[msize m := NUL]" "m\<lparr>mtext := Some (t[msize m := NUL])\<rparr>"])
      (simp_all add: msg_terminate_def c_str_append)
qed

lemma step_msg_text:
  "client_step P CLIENT_ST_EXPECTED_MSG_TEXT_OR_END_MSG CLIENT_EV_MSG_TEXT c mi w =
     client_do_expected_msg_text_or_end_msg_msg_text P c mi CLIENT_ST_EXPECTED_MSG_TEXT_OR_END_MSG
       CLIENT_ST_EXPECTED_MSG_TEXT_OR_END_MSG CLIENT_EV_MSG_TEXT w"
  by (simp add: client_step_def client_trans_table_def client_trans_EXPECTED_MSG_TEXT_OR_END_MSG_def)

lemma step_end_data:
  "client_step P CLIENT_ST_EXPECTED_MSG_TEXT_OR_END_MSG CLIENT_EV_END_DATA c mi w =
     client_do_expected_msg_text_or_end_msg_end_data P c mi CLIENT_ST_EXPECTED_MSG_TEXT_OR_END_MSG
       CLIENT_ST_END_DATA_RECEIVED CLIENT_EV_END_DATA w"
  by (simp add: client_step_def client_trans_table_def client_trans_EXPECTED_MSG_TEXT_OR_END_MSG_def)

text \<open>Successive received buffers of one session.\<close>

fun recv_all :: "pcre_lib \<Rightarrow> client_t \<Rightarrow> msg_t list \<Rightarrow> world \<Rightarrow> (client_t \<times> world) run" where
  "recv_all P c [] w = Done (c, w)"
| "recv_all P c (m # ms) w = rbind (client_process_recv P c m w) (\<lambda>(_, c', _, w'). recv_all P c' ms w')"

lemma recv_all_append:
  "recv_all P c (ms @ ns) w = rbind (recv_all P c ms w) (\<lambda>(c', w'). recv_all P c' ns w')"
proof (induction ms arbitrary: c w)
  case (Cons m ms)
  show ?case by (cases "client_process_recv P c m w") (simp_all add: Cons.IH case_prod_beta)
qed simp

lemma recv_text:
  assumes wf: "session_wf c" and st: "current_state c = CLIENT_ST_EXPECTED_MSG_TEXT_OR_END_MSG"
    and w: "oom w = []" "clock w = [t]" and m: "holds m s" and nm: "fst (pcre_exec P RE_END_DATA s) < 0"
  shows "\<exists>body m'. client_process_recv P c m w = Done (CE_SUCCESS, c\<lparr>msg_text := body, timeout_start_time := t\<rparr>, m', w)
    \<and> session_wf (c\<lparr>msg_text := body\<rparr>) \<and> content body = content (msg_text c) @ s"
proof -
  from m obtain line m' where l: "msg_terminate m = Done (line, m')" "c_str line = s" "take (length s) line = s"
    by (rule terminate_holds) blast
  obtain rc ov where e: "pcre_exec P RE_END_DATA s = (rc, ov)" by force
  from client_add_msg_txt_ok [OF wf strlen_le(2), of line w] w l obtain body where
    a: "client_add_msg_txt c line (length s) w = Done (CE_SUCCESS, c\<lparr>msg_text := body\<rparr>, w)"
      "session_wf (c\<lparr>msg_text := body\<rparr>)" "content body = content (msg_text c) @ s"
    by (auto simp: strlen_def)
  have "client_dispatch P c line w = Done (CLIENT_ST_EXPECTED_MSG_TEXT_OR_END_MSG, c\<lparr>msg_text := body\<rparr>, w)"
    using st e nm l(2) a(1)
    by (simp add: client_dispatch_def smtp_cmd_check_def step_msg_text client_do_expected_msg_text_or_end_msg_msg_text_def
        strlen_def)
  then have "client_process_recv P c m w = Done (CE_SUCCESS, c\<lparr>msg_text := body, timeout_start_time := t\<rparr>, m', w)"
    using l(1) w(2) st by (simp add: client_process_recv_def client_start_timeout_def time_now_const)
  with a show ?thesis by blast
qed

lemma recv_texts:
  assumes "list_all2 holds ms ss" and "\<forall>s \<in> set ss. fst (pcre_exec P RE_END_DATA s) < 0"
    and "session_wf c" "current_state c = CLIENT_ST_EXPECTED_MSG_TEXT_OR_END_MSG" "oom w = []" "clock w = [t]"
  shows "\<exists>body t'. recv_all P c ms w = Done (c\<lparr>msg_text := body, timeout_start_time := t'\<rparr>, w)
    \<and> session_wf (c\<lparr>msg_text := body\<rparr>) \<and> content body = content (msg_text c) @ concat ss"
  using assms
proof (induction arbitrary: c rule: list_all2_induct)
  case Nil
  have "recv_all P c [] w = Done (c\<lparr>msg_text := msg_text c, timeout_start_time := timeout_start_time c\<rparr>, w)" by simp
  with Nil.prems(2) show ?case by (metis append_Nil2 concat.simps(1) client_t.surjective client_t.update_convs(9))
next
  case (Cons m ms s ss)
  from recv_text [OF Cons.prems(2-5) Cons.hyps(1), of P] Cons.prems(1) obtain body m' where
    1: "client_process_recv P c m w = Done (CE_SUCCESS, c\<lparr>msg_text := body, timeout_start_time := t\<rparr>, m', w)"
      "session_wf (c\<lparr>msg_text := body\<rparr>)" "content body = content (msg_text c) @ s" by auto
  let ?c = "c\<lparr>msg_text := body, timeout_start_time := t\<rparr>"
  have "session_wf ?c" using 1(2) by simp
  with Cons.IH [of ?c] Cons.prems obtain body2 t2 where
    2: "recv_all P ?c ms w = Done (?c\<lparr>msg_text := body2, timeout_start_time := t2\<rparr>, w)"
      "session_wf (?c\<lparr>msg_text := body2\<rparr>)" "content body2 = content body @ concat ss" by auto
  from 2(2) have "session_wf (c\<lparr>msg_text := body2\<rparr>)" by (simp add: session_wf_def)
  with 1 2 show ?case by (intro exI [of _ body2] exI [of _ t2]) simp
qed

lemma recv_end:
  assumes wf: "session_wf c" and st: "current_state c = CLIENT_ST_EXPECTED_MSG_TEXT_OR_END_MSG"
    and w: "oom w = []" "clock w = [t]" and m: "holds m s"
    and e: "pcre_exec P RE_END_DATA s = (rc, int k # ov)" "0 \<le> rc" "k \<le> length s"
    and wr: "\<And>body. msg_wf body \<Longrightarrow> content body = content (msg_text c) @ take k s \<Longrightarrow>
      \<exists>to' w'. write_mail (mail_writer c) (rcpts c) body w = Done (CE_SUCCESS, to', w') \<and> Q body w'
         \<and> oom w' = [] \<and> length to' = length (rcpts c)"
  shows "\<exists>c' m' body w1 w'. client_process_recv P c m w = Done (CE_SUCCESS, c', m', w') \<and> Q body w1
    \<and> content body = content (msg_text c) @ take k s \<and> files w' = files w1 \<and> need_send c'
    \<and> current_state c' = CLIENT_ST_END_DATA_RECEIVED \<and> content (msg_for_sending c') = SMTP_SUCCESS_ANSWER"
proof -
  from m obtain line m' where l: "msg_terminate m = Done (line, m')" "c_str line = s" "take (length s) line = s"
    "length s < length line" by (rule terminate_holds) blast
  have kl: "k \<le> length line" "take k line = take k s" using e(3) l(3,4) by (auto simp: min_def) (metis min.absorb1 take_take)
  from client_add_msg_txt_ok [OF wf kl(1), of w] w kl(2) obtain body where
    a: "client_add_msg_txt c line k w = Done (CE_SUCCESS, c\<lparr>msg_text := body\<rparr>, w)"
      "session_wf (c\<lparr>msg_text := body\<rparr>)" "content body = content (msg_text c) @ take k s" by auto
  define b where "b = (if k = 0 then msg_text c else body)"
  have b: "msg_wf b" "content b = content (msg_text c) @ take k s" "session_wf (c\<lparr>msg_text := b\<rparr>)"
    using a wf session_wfD(4) [OF wf] session_wfD(4) [OF a(2)] by (auto simp: b_def)
  from wr [OF b(1,2)] obtain to' w1 where wm: "write_mail (mail_writer c) (rcpts c) b w = Done (CE_SUCCESS, to', w1)"
    "Q b w1" "oom w1 = []" "length to' = length (rcpts c)" by blast
  let ?c = "c\<lparr>msg_text := b, rcpts := to'\<rparr>"
  have wf2: "session_wf ?c" using b(3) wm(4) by (simp add: session_wf_def)
  obtain c3 where c3: "client_set_response ?c (as_array SMTP_SUCCESS_ANSWER) (length SMTP_SUCCESS_ANSWER) w1
      = Done (CE_SUCCESS, c3, w1)" "content (msg_for_sending c3) = SMTP_SUCCESS_ANSWER" "need_send c3"
    by (rule client_set_response_ok [OF wf2 smtp_answers_no_NUL(2), of w1]) (use wm(3) in auto)
  have "(if k = 0 then Done (CE_SUCCESS, c, w) else client_add_msg_txt c line k w)
      = Done (CE_SUCCESS, c\<lparr>msg_text := b\<rparr>, w)" using a(1) by (simp add: b_def)
  moreover have "k = 0 \<Longrightarrow> msg_text c = b" by (simp add: b_def)
  ultimately have "client_dispatch P c line w = Done (CLIENT_ST_END_DATA_RECEIVED, c3, w1)"
    using st e l(2) wm(1) c3(1)
    by (auto simp: client_dispatch_def smtp_cmd_check_def step_end_data
        client_do_expected_msg_text_or_end_msg_end_data_def client_data_end_process_def split: if_splits)
  then have "\<exists>c' w'. client_process_recv P c m w = Done (CE_SUCCESS, c', m', w') \<and> files w' = files w1 \<and> need_send c'
      \<and> current_state c' = CLIENT_ST_END_DATA_RECEIVED \<and> content (msg_for_sending c') = SMTP_SUCCESS_ANSWER"
    using l(1) c3 by (auto simp: client_process_recv_def client_start_timeout_def time_now_def Let_def split: prod.splits)
  with wm(2) b(2) show ?thesis by blast
qed

text \<open>
  C4: a mail's text arrives in any number of pieces. When the end of the data is
  recognised at offset \<open>k\<close> of the last piece, every local recipient and every remote domain
  gets a file with the recipient header, the text collected before (it starts with the
  \<^verbatim>\<open>X-mysmtp-from\<close> line), all pieces in order and the first \<open>k\<close> bytes of the last one; the
  client is answered 250.
\<close>

theorem data_phase_delivers:
  assumes wf: "session_wf c" and st: "current_state c = CLIENT_ST_EXPECTED_MSG_TEXT_OR_END_MSG"
    and w: "oom w = []" "clock w = [t]"
    and ms: "list_all2 holds ms ss" "\<forall>s \<in> set ss. fst (pcre_exec P RE_END_DATA s) < 0"
    and m: "holds m s" "pcre_exec P RE_END_DATA s = (rc, int k # ov)" "0 \<le> rc" "k \<le> length s"
    and to: "rcpts c \<noteq> []" "\<forall>r \<in> set (rcpts c). rcv_ok r"
    and tmp: "creatable w (snd (tmp_path_of (mail_writer c) t (mailN w)))"
    and dst: "\<forall>r \<in> set (rcpts c). creatable w (delivery_path (mail_writer c) t (mailN w) r)
        \<and> files w (delivery_path (mail_writer c) t (mailN w) r) = None
        \<and> delivery_path (mail_writer c) t (mailN w) r \<noteq> snd (tmp_path_of (mail_writer c) t (mailN w))"
  shows "\<exists>c' w'. recv_all P c (ms @ [m]) w = Done (c', w') \<and> current_state c' = CLIENT_ST_END_DATA_RECEIVED
    \<and> need_send c' \<and> content (msg_for_sending c') = SMTP_SUCCESS_ANSWER
    \<and> (\<forall>r \<in> set (link_targets (mail_writer c) (rcpts c)). files w' (delivery_path (mail_writer c) t (mailN w) r) =
         Some (''X-mysmtp-to:'' @ concat (map (x_to_text '','') (butlast (rcpts c))) @ x_to_text CRLF (last (rcpts c))
           @ content (msg_text c) @ concat ss @ take k s))"
proof -
  from recv_texts [OF ms wf st w] obtain body t' where
    1: "recv_all P c ms w = Done (c\<lparr>msg_text := body, timeout_start_time := t'\<rparr>, w)"
      "session_wf (c\<lparr>msg_text := body\<rparr>)" "content body = content (msg_text c) @ concat ss" by blast
  define d where "d = c\<lparr>msg_text := body, timeout_start_time := t'\<rparr>"
  define Q where "Q b u \<longleftrightarrow> (\<forall>r \<in> set (link_targets (mail_writer c) (rcpts c)).
      files u (delivery_path (mail_writer c) t (mailN w) r) = Some (''X-mysmtp-to:''
        @ concat (map (x_to_text '','') (butlast (rcpts c))) @ x_to_text CRLF (last (rcpts c)) @ content b))" for b :: msg_t and u :: world
  have d: "session_wf d" "current_state d = CLIENT_ST_EXPECTED_MSG_TEXT_OR_END_MSG" "mail_writer d = mail_writer c"
    "rcpts d = rcpts c" "msg_text d = body" using 1(2) st by (simp_all add: d_def)
  have n: "length (rcpts c) < 2 ^ 64" using wf by (simp add: session_wf_def SMTP_RCPT_MAX_SIZE_def)
  have wr: "\<exists>to' w'. write_mail (mail_writer d) (rcpts d) b w = Done (CE_SUCCESS, to', w') \<and> Q b w'
      \<and> oom w' = [] \<and> length to' = length (rcpts d)" if "msg_wf b" for b
  proof -
    from write_mail_writes [OF to(1) n to(2) that w(2) tmp dst] obtain to' w' where
      "write_mail (mail_writer c) (rcpts c) b w = Done (CE_SUCCESS, to', w')" "Q b w'" unfolding Q_def by blast
    with write_mail_keeps_oom [OF this(1)] write_mail_length [OF this(1)] w(1) show ?thesis unfolding d by simp
  qed
  from recv_end [where Q = Q, OF d(1,2) w m wr] obtain c' m' b w1 w' where
    2: "client_process_recv P d m w = Done (CE_SUCCESS, c', m', w')" "Q b w1"
      "content b = content body @ take k s" "files w' = files w1" "need_send c'"
      "current_state c' = CLIENT_ST_END_DATA_RECEIVED" "content (msg_for_sending c') = SMTP_SUCCESS_ANSWER"
    unfolding d(5) by blast
  from 1(1) 2(1) have "recv_all P c (ms @ [m]) w = Done (c', w')" by (simp add: recv_all_append d_def)
  moreover from 2(2,3,4) 1(3) have "\<forall>r \<in> set (link_targets (mail_writer c) (rcpts c)).
      files w' (delivery_path (mail_writer c) t (mailN w) r) =
         Some (''X-mysmtp-to:'' @ concat (map (x_to_text '','') (butlast (rcpts c))) @ x_to_text CRLF (last (rcpts c))
           @ content (msg_text c) @ concat ss @ take k s)" unfolding Q_def by (simp only: append_assoc)
  ultimately show ?thesis using 2(5-7) by blast
qed

definition dot_matcher :: pcre_lib where
  "dot_matcher = \<lparr>pcre_exec = (\<lambda>re s. if re = RE_END_DATA \<and> s = ''.'' @ CRLF then (1, [int 0, int 3]) else (-1, [])),
     pcre_copy_substring = (\<lambda>_ _ _ _ _. None)\<rparr>"

definition mail_session :: client_t where
  "mail_session = blank_client\<lparr>current_state := CLIENT_ST_EXPECTED_MSG_TEXT_OR_END_MSG, rcpts := rcpt_example\<rparr>"

lemma mail_session_simps [simp]:
  "session_wf mail_session" "rcpts mail_session = rcpt_example" "mail_writer mail_session = mw_example"
  "current_state mail_session = CLIENT_ST_EXPECTED_MSG_TEXT_OR_END_MSG" "content (msg_text mail_session) = []"
  using blank_client_wf by (simp_all add: mail_session_def blank_client_def session_wf_def rcpt_example_def
      SMTP_RCPT_MAX_SIZE_def)

lemma holds_buffer_with: "NUL \<notin> set s \<Longrightarrow> holds (buffer_with s) s"
  by (simp add: holds_def buffer_with_def msg_wf_def content_def)

theorem data_phase_delivers_witness:
  "\<exists>c' w'. recv_all dot_matcher mail_session ([buffer_with (''hi'' @ CRLF)] @ [buffer_with (''.'' @ CRLF)]) world_example
      = Done (c', w') \<and> current_state c' = CLIENT_ST_END_DATA_RECEIVED
    \<and> need_send c' \<and> content (msg_for_sending c') = SMTP_SUCCESS_ANSWER
    \<and> (\<forall>r \<in> set (link_targets mw_example rcpt_example). files w' (delivery_path mw_example 9 0 r) =
         Some (''X-mysmtp-to:'' @ concat (map (x_to_text '','') (butlast rcpt_example)) @ x_to_text CRLF (last rcpt_example)
           @ [] @ concat [''hi'' @ CRLF] @ take 0 (''.'' @ CRLF)))"
proof -
  have "mailN world_example = 0" "clock world_example = [9]" "oom world_example = []" "files world_example = Map.empty"
    "creatable world_example = (\<lambda>_. True)" by (simp_all add: world_example_def plenty_def)
  moreover have "rcpt_example \<noteq> []" by (simp add: rcpt_example_def)
  ultimately show ?thesis
    using data_phase_delivers [of mail_session world_example 9 "[buffer_with (''hi'' @ CRLF)]" "[''hi'' @ CRLF]" dot_matcher
        "buffer_with (''.'' @ CRLF)" "''.'' @ CRLF" 1 0 "[3]"]
      rcpt_example_ok rcpt_example_paths holds_buffer_with [of "''hi'' @ CRLF"] holds_buffer_with [of "''.'' @ CRLF"]
    by (simp add: dot_matcher_def)
qed

section \<open>Recipients: what is stored, and what is refused\<close>

lemma step_rcpt:
  "client_step P CLIENT_ST_EXPECTED_RCPT_OR_DATA CLIENT_EV_RCPT c mi w =
     client_do_expected_rcpt_or_data_rcpt P c mi CLIENT_ST_EXPECTED_RCPT_OR_DATA CLIENT_ST_RCPT_RECEIVED CLIENT_EV_RCPT w"
  by (simp add: client_step_def client_trans_table_def client_trans_EXPECTED_RCPT_OR_DATA_def)

lemma set_response_plenty:
  assumes "session_wf c" "NUL \<notin> set s" "oom w = []"
  shows "\<exists>m. client_set_response c (as_array s) (length s) w
    = Done (CE_SUCCESS, c\<lparr>msg_for_sending := m, need_send := True\<rparr>, w) \<and> content m = s"
proof -
  obtain e c' w' where r: "client_set_response c (as_array s) (length s) w = Done (e, c', w')"
    "c' = c\<lparr>msg_for_sending := msg_for_sending c', need_send := need_send c'\<rparr>"
    "e = CE_SUCCESS \<Longrightarrow> content (msg_for_sending c') = s \<and> need_send c'" "oom w = [] \<Longrightarrow> e = CE_SUCCESS \<and> w' = w"
    by (rule client_set_response_ok [OF assms(1,2), of w]) blast
  with assms(3) have "need_send c'" "content (msg_for_sending c') = s" by auto
  with r assms(3) show ?thesis by (metis (full_types))
qed

text \<open>
  RCPT in the right place stores the recipient the line names (Postmaster, a Postmaster
  at a domain, or a path with a host, IPv4 or IPv6 domain) after those already there and is
  answered 250.
\<close>

theorem rcpt_stores_recipient:
  assumes "session_wf c" and "NUL \<notin> set (domain (mail_writer c))" and "oom w = []"
    and "length (rcpts c) < SMTP_RCPT_MAX_SIZE"
  shows "\<exists>r m. client_step P CLIENT_ST_EXPECTED_RCPT_OR_DATA CLIENT_EV_RCPT c (Some mi) w
      = Done (CLIENT_ST_RCPT_RECEIVED, c\<lparr>rcpts := rcpts c @ [r], msg_for_sending := m, need_send := True\<rparr>, w)
    \<and> (content (local_part r), content (rdomain r), domain_type r)
        = parsed_rcpt P mi (domain (mail_writer c)) (stale_type c (length (rcpts c)))
    \<and> content m = SMTP_SUCCESS_ANSWER"
proof -
  from client_add_rcpt_to_ok [OF assms(1,2), of P mi w] assms(3,4) obtain r where
    r: "client_add_rcpt_to P c mi w = Done (CE_SUCCESS, c\<lparr>rcpts := rcpts c @ [r]\<rparr>, w)" "session_wf (c\<lparr>rcpts := rcpts c @ [r]\<rparr>)"
      "(content (local_part r), content (rdomain r), domain_type r)
        = parsed_rcpt P mi (domain (mail_writer c)) (stale_type c (length (rcpts c)))" by auto
  from set_response_plenty [OF r(2) smtp_answers_no_NUL(2) assms(3)] obtain m where
    "client_set_response (c\<lparr>rcpts := rcpts c @ [r]\<rparr>) (as_array SMTP_SUCCESS_ANSWER) (length SMTP_SUCCESS_ANSWER) w
      = Done (CE_SUCCESS, c\<lparr>rcpts := rcpts c @ [r], msg_for_sending := m, need_send := True\<rparr>, w)"
    "content m = SMTP_SUCCESS_ANSWER" by auto
  with r(1,3) show ?thesis
    unfolding step_rcpt client_do_expected_rcpt_or_data_rcpt_def
    by (intro exI [of _ r] exI [of _ m]) simp
qed

definition rcpt_matcher :: pcre_lib where
  "rcpt_matcher = no_match\<lparr>pcre_copy_substring := (\<lambda>_ _ _ i _. if i = 29 then Some ''ann'' else if i = 38 then Some ''ya.ru'' else None)\<rparr>"

definition rcpt_line :: match_info where
  "rcpt_line = \<lparr>cmd = SMTP_CMD_RCPT, tested_line = as_array ''rcpt to:<ann@ya.ru>'', sub_str = [], sub_str_count = 60\<rparr>"

theorem rcpt_stores_recipient_witness:
  "\<exists>r m. client_step rcpt_matcher CLIENT_ST_EXPECTED_RCPT_OR_DATA CLIENT_EV_RCPT blank_client (Some rcpt_line) plenty
      = Done (CLIENT_ST_RCPT_RECEIVED, blank_client\<lparr>rcpts := [r], msg_for_sending := m, need_send := True\<rparr>, plenty)
    \<and> (content (local_part r), content (rdomain r), domain_type r) = (''ann'', ''ya.ru'', DOMAIN_TYPE_HOST)
    \<and> content m = SMTP_SUCCESS_ANSWER"
proof -
  have "parsed_rcpt rcpt_matcher rcpt_line d s = (''ann'', ''ya.ru'', DOMAIN_TYPE_HOST)" for d s
    by (simp add: parsed_rcpt_def capture_def rcpt_matcher_def no_match_def capture_indices c_str_def)
  with rcpt_stores_recipient [OF blank_client_wf, of plenty rcpt_matcher rcpt_line] show ?thesis
    by (simp add: blank_client_def mw_example_def plenty_def SMTP_RCPT_MAX_SIZE_def)
qed

text \<open>
  The hundred-and-first recipient is dropped, yet the client is answered 250.
\<close>

theorem rcpt_overflow_acknowledged:
  assumes "session_wf c" and "length (rcpts c) = SMTP_RCPT_MAX_SIZE" and "oom w = []"
  shows "\<exists>m. client_step P CLIENT_ST_EXPECTED_RCPT_OR_DATA CLIENT_EV_RCPT c (Some mi) w
      = Done (CLIENT_ST_RCPT_RECEIVED, c\<lparr>msg_for_sending := m, need_send := True\<rparr>, w)
    \<and> content m = SMTP_SUCCESS_ANSWER"
  using set_response_plenty [OF assms(1) smtp_answers_no_NUL(2) assms(3)] assms(2)
  by (auto simp: step_rcpt client_do_expected_rcpt_or_data_rcpt_def client_add_rcpt_to_def)

theorem rcpt_overflow_acknowledged_witness:
  "\<exists>m. client_step no_match CLIENT_ST_EXPECTED_RCPT_OR_DATA CLIENT_EV_RCPT
        (blank_client\<lparr>rcpts := replicate 100 (rcpt_example ! 0)\<rparr>) (Some rcpt_line) plenty
      = Done (CLIENT_ST_RCPT_RECEIVED, blank_client\<lparr>rcpts := replicate 100 (rcpt_example ! 0),
          msg_for_sending := m, need_send := True\<rparr>, plenty)
    \<and> content m = SMTP_SUCCESS_ANSWER"
proof -
  have "session_wf (blank_client\<lparr>rcpts := replicate 100 (rcpt_example ! 0)\<rparr>)"
    using blank_client_wf by (simp add: session_wf_def SMTP_RCPT_MAX_SIZE_def)
  from rcpt_overflow_acknowledged [OF this, of plenty no_match rcpt_line] show ?thesis
    by (simp add: SMTP_RCPT_MAX_SIZE_def plenty_def)
qed

section \<open>DATA without recipients\<close>

text \<open>A line that matches exactly one command.\<close>

definition matches_only :: "pcre_lib \<Rightarrow> SMTP_CMD \<Rightarrow> string \<Rightarrow> bool" where
  "matches_only P m s \<longleftrightarrow> (\<forall>m'. (0 \<le> fst (pcre_exec P (smtp_cmds m') s)) = (m' = m))"

lemma check_iff: "fst (smtp_cmd_check P m line) = CE_SUCCESS \<longleftrightarrow> 0 \<le> fst (pcre_exec P (smtp_cmds m) (c_str line))"
  by (auto simp: smtp_cmd_check_def case_prod_beta Let_def)

lemma check_matches_only:
  "matches_only P m (c_str line) \<Longrightarrow> fst (smtp_cmd_check P m' line) = CE_SUCCESS \<longleftrightarrow> m' = m"
  unfolding matches_only_def check_iff by blast

lemma dispatch_data:
  assumes "matches_only P SMTP_CMD_DATA (c_str line)" and "current_state c \<noteq> CLIENT_ST_EXPECTED_MSG_TEXT_OR_END_MSG"
  shows "client_dispatch P c line w
    = client_step P (current_state c) CLIENT_EV_DATA c (Some (snd (smtp_cmd_check P SMTP_CMD_DATA line))) w"
  using assms(2) by (simp add: client_dispatch_def Let_def case_prod_beta check_matches_only [OF assms(1)])

text \<open>
  DATA is accepted without any RCPT, and the end of the (empty) mail then makes the
  mail writer read recipients that were never stored: two lines of a client after its MAIL
  command crash the server.
\<close>

theorem data_without_rcpt_faults:
  assumes wf: "session_wf c" and st: "current_state c = CLIENT_ST_EXPECTED_RCPT_OR_DATA" and no: "rcpts c = []"
    and w: "oom w = []" "clock w = [t]" "creatable w (snd (tmp_path_of (mail_writer c) t (mailN w)))"
    and m1: "holds m1 s1" "matches_only P SMTP_CMD_DATA s1"
    and m2: "holds m2 s2" "pcre_exec P RE_END_DATA s2 = (1, int 0 # ov)"
  shows "rbind (client_process_recv P c m1 w) (\<lambda>(_, c1, _, w1).
      rbind (client_process_send P c1 w1) (\<lambda>(_, c2, w2). client_process_recv P c2 m2 w2)) = Fault Uninit_Read"
proof -
  from m1(1) obtain line m1' where l: "msg_terminate m1 = Done (line, m1')" "c_str line = s1"
    by (rule terminate_holds) blast
  from m2(1) obtain line2 m2' where l2: "msg_terminate m2 = Done (line2, m2')" "c_str line2 = s2"
    by (rule terminate_holds) blast
  from set_response_plenty [OF wf smtp_answers_no_NUL(3) w(1)] obtain m where
    m: "client_set_response c (as_array SMTP_DATA_ACCEPTED_ANSWER) (length SMTP_DATA_ACCEPTED_ANSWER) w
      = Done (CE_SUCCESS, c\<lparr>msg_for_sending := m, need_send := True\<rparr>, w)" by blast
  have "session_wf (c\<lparr>msg_for_sending := m, need_send := True\<rparr>)"
    using set_response_le [OF wf smtp_answers_no_NUL(3) m] by (simp add: session_le_def)
  then have mwf: "msg_wf m" by (simp add: session_wf_def)
  let ?c1 = "c\<lparr>msg_for_sending := m, need_send := True, current_state := CLIENT_ST_DATA_RECEIVED, timeout_start_time := t\<rparr>"
  have d: "client_dispatch P c line w = Done (CLIENT_ST_DATA_RECEIVED, c\<lparr>msg_for_sending := m, need_send := True\<rparr>, w)"
    using dispatch_data [of P line c w] m1(2) l(2) st m
    by (simp add: client_step_def client_trans_table_def client_trans_EXPECTED_RCPT_OR_DATA_def
        client_do_expected_rcpt_or_data_data_def)
  have 1: "client_process_recv P c m1 w = Done (CE_SUCCESS, ?c1, m1', w)"
    using d l(1) w(2) by (simp add: client_process_recv_def client_start_timeout_def time_now_const)
  obtain c2 where 2: "client_process_send P ?c1 w = Done (CE_SUCCESS, c2, w)" "rcpts c2 = []"
    "mail_writer c2 = mail_writer c" "current_state c2 = CLIENT_ST_EXPECTED_MSG_TEXT_OR_END_MSG"
    using msg_clean_ok(1) [OF mwf] no
    by (simp add: client_process_send_def client_step_def client_trans_table_def client_trans_DATA_RECEIVED_def
        client_do_data_received_response_def)
  have "client_dispatch P c2 line2 w = Fault Uninit_Read"
    using 2 m2(2) l2(2) write_mail_no_rcpt [OF w(2,3)]
    by (simp add: client_dispatch_def smtp_cmd_check_def step_end_data
        client_do_expected_msg_text_or_end_msg_end_data_def client_data_end_process_def)
  then have "client_process_recv P c2 m2 w = Fault Uninit_Read" using l2(1) by (simp add: client_process_recv_def)
  with 1 2(1) show ?thesis by simp
qed

definition two_lines :: pcre_lib where
  "two_lines = no_match\<lparr>pcre_exec := (\<lambda>re s. if re = RE_END_DATA \<and> s = ''.'' @ CRLF then (1, [int 0, int 3])
     else if re = RE_DATA \<and> s = ''data'' @ CRLF then (1, [int 0, int 6]) else (-1, []))\<rparr>"

lemma RE_hd: "hd (tl RE_HELO) = CHR ''h''" "hd (tl RE_EHLO) = CHR ''e''" "hd (tl RE_MAIL) = CHR ''m''" "hd (tl RE_RCPT) = CHR ''r''"
  "hd (tl RE_VRFY) = CHR ''v''" "hd (tl RE_RSET) = CHR ''r''" "hd (tl RE_QUIT) = CHR ''q''" "hd (tl RE_DATA) = CHR ''d''"
  "hd (tl RE_END_DATA) = CHR ''.''"
  by (simp_all add: RE_HELO_def RE_EHLO_def RE_MAIL_def RE_RCPT_def RE_VRFY_def RE_RSET_def RE_QUIT_def RE_DATA_def
      RE_END_DATA_def)

lemma RE_DATA_unique: "smtp_cmds m = RE_DATA \<longleftrightarrow> m = SMTP_CMD_DATA"
  using RE_hd by (cases m) auto

theorem data_without_rcpt_faults_witness:
  "rbind (client_process_recv two_lines (blank_client\<lparr>current_state := CLIENT_ST_EXPECTED_RCPT_OR_DATA\<rparr>)
        (buffer_with (''data'' @ CRLF)) world_example) (\<lambda>(_, c1, _, w1).
      rbind (client_process_send two_lines c1 w1) (\<lambda>(_, c2, w2).
        client_process_recv two_lines c2 (buffer_with (''.'' @ CRLF)) w2)) = Fault Uninit_Read"
proof (rule data_without_rcpt_faults [where t = 9 and ov = "[3]" and ?s1.0 = "''data'' @ CRLF" and ?s2.0 = "''.'' @ CRLF"])
  show "matches_only two_lines SMTP_CMD_DATA (''data'' @ CRLF)"
    by (auto simp: matches_only_def two_lines_def no_match_def RE_DATA_unique)
qed (simp_all add: world_example_def plenty_def holds_buffer_with two_lines_def no_match_def, simp_all add: blank_client_def)

section \<open>Replies and closing\<close>

lemma step_timeout:
  "live_state s \<Longrightarrow> client_step P s CLIENT_EV_TIMEOUT c mi w = Done (CLIENT_ST_TIMEOUT, c, w)"
  by (cases s) (simp_all add: live_state_iff client_step_def client_trans_table_def table_rows passive_callbacks)

lemma step_shutdown:
  "live_state s \<Longrightarrow> client_step P s CLIENT_EV_SHUTDOWN c mi w = Done (CLIENT_ST_TIMEOUT, c, w)"
  by (cases s) (simp_all add: live_state_iff client_step_def client_trans_table_def table_rows passive_callbacks)

lemma response_to_done:
  "live_state s \<Longrightarrow> server_target s CLIENT_EV_RESPONSE = CLIENT_ST_DONE \<longleftrightarrow>
     s \<in> {CLIENT_ST_QUIT_RECEIVED, CLIENT_ST_TIMEOUT, CLIENT_ST_SHUTDOWN}"
  by (cases s) (simp_all add: live_state_iff server_target_def def_next_def)

text \<open>
  Only \<open>client_process_send\<close> marks a session as closed, in the three states in which it has been
  told to end. (Whether a reply goes out before is a matter of these states, see below.)
\<close>

lemma closed_by_send:
  assumes wf: "session_wf c" and dn: "NUL \<notin> set (domain (mail_writer c))" and st: "session_next P c c'"
    and cl: "\<not> closed c" "closed c'"
  shows "current_state c \<in> {CLIENT_ST_QUIT_RECEIVED, CLIENT_ST_TIMEOUT, CLIENT_ST_SHUTDOWN}
    \<and> current_state c' = CLIENT_ST_DONE \<and> (\<exists>w e w'. client_process_send P c w = Done (e, c', w'))"
  using st
proof (cases rule: session_next.cases)
  case (recv msg w e msg' w')
  then obtain line s c1 w1 where d: "client_dispatch P c line w = Done (s, c1, w1)" and c': "closed c' = closed c1"
    by (fastforce simp: client_process_recv_def rbind_Done_iff client_start_timeout_def Let_def split: prod.splits)
  from client_dispatch_le [OF wf dn d] c' cl show ?thesis by (simp add: session_le_def)
next
  case (send w e w')
  let ?m = "(msg_for_sending c)\<lparr>mtext := Some (replicate (max_size (msg_for_sending c)) NUL), msize := 0\<rparr>"
  let ?c = "c\<lparr>need_send := False, msg_for_sending := ?m\<rparr>"
  note m = msg_clean_ok [OF session_wfD(2) [OF wf]]
  have wf1: "session_wf ?c" using wf m by (simp add: session_wf_def)
  from send m(1) obtain s c1 where r: "client_step P (current_state c) CLIENT_EV_RESPONSE ?c None w = Done (s, c1, w')"
    "c' = (if s = CLIENT_ST_DONE then c1\<lparr>current_state := s, closed := True\<rparr> else c1\<lparr>current_state := s\<rparr>)"
    by (auto simp: client_process_send_def rbind_Done_iff Let_def split: prod.splits)
  have "closed c1 = closed c" using client_step_le [OF wf1 _ r(1)] dn by (simp add: session_le_def)
  with cl r(2) have s: "s = CLIENT_ST_DONE" by (auto split: if_splits)
  with r(1) have "live_state (current_state c)"
    by (cases "live_state (current_state c)") (simp_all add: client_step_terminal)
  with client_step_state [OF this r(1)] s response_to_done [OF this] have
    "current_state c \<in> {CLIENT_ST_QUIT_RECEIVED, CLIENT_ST_TIMEOUT, CLIENT_ST_SHUTDOWN}" by simp
  with s r(2) send show ?thesis by auto
next
  case (check_timeout t w e w')
  then have "closed c' = closed c"
    using client_step_le [OF wf dn]
    by (auto simp: client_process_check_timeout_def rbind_Done_iff Let_def session_le_def split: prod.splits if_splits)
  with cl show ?thesis by simp
next
  case (shut_down w e w')
  then have "closed c' = closed c"
    using client_step_le [OF wf dn] by (auto simp: client_process_shutdown_def rbind_Done_iff session_le_def)
  with cl show ?thesis by simp
qed

text \<open>
  A session whose time is up only changes its state: no reply is prepared and the
  connection is not closed, so it stays open until the client sends something. Before
  that, within the limit, nothing changes at all.
\<close>

theorem timeout_keeps_connection:
  assumes "live_state (current_state c)" and "clock w = [now]"
  shows "client_process_check_timeout P c T w = Done (CE_SUCCESS,
     (if size_sub now (timeout_start_time c) \<le> T then c else c\<lparr>current_state := CLIENT_ST_TIMEOUT\<rparr>), w)"
  using assms by (simp add: client_process_check_timeout_def time_now_const step_timeout)

theorem timeout_keeps_connection_witness:
  "client_process_check_timeout no_match blank_client 300 (plenty\<lparr>clock := [1000]\<rparr>)
     = Done (CE_SUCCESS, blank_client\<lparr>current_state := CLIENT_ST_TIMEOUT\<rparr>, plenty\<lparr>clock := [1000]\<rparr>)"
  using timeout_keeps_connection [of blank_client "plenty\<lparr>clock := [1000]\<rparr>" 1000 no_match 300]
  by (simp add: blank_client_def live_state_iff size_sub_def)

text \<open>
  QUIT moves every running session to \<open>QUIT_RECEIVED\<close>, but the 221 reply is prepared
  only in four states; elsewhere, before the greeting for example, the client gets no answer
  and the connection stays open.
\<close>

theorem quit_reply_states:
  assumes "session_wf c" and "live_state s" and "oom w = []"
  shows "\<exists>m. content m = SMTP_QUIT_SUCCESS_ANSWER \<and> client_step P s CLIENT_EV_QUIT c mi w = Done (CLIENT_ST_QUIT_RECEIVED,
     (if s \<in> {CLIENT_ST_CLIENT_INITED, CLIENT_ST_DATA_RECEIVED, CLIENT_ST_EHLO_RECEIVED, CLIENT_ST_EXPECTED_RCPT_OR_DATA}
      then c\<lparr>msg_for_sending := m, need_send := True\<rparr> else c), w)"
proof -
  from set_response_plenty [OF assms(1) smtp_answers_no_NUL(4) assms(3)] obtain m where
    m: "client_set_response c (as_array SMTP_QUIT_SUCCESS_ANSWER) (length SMTP_QUIT_SUCCESS_ANSWER) w
      = Done (CE_SUCCESS, c\<lparr>msg_for_sending := m, need_send := True\<rparr>, w)" "content m = SMTP_QUIT_SUCCESS_ANSWER" by blast
  with assms(2) show ?thesis
    by (intro exI [of _ m]) (cases s; simp add: live_state_iff client_step_def client_trans_table_def table_rows
        passive_callbacks active_callbacks)
qed

theorem quit_reply_states_witness:
  "\<exists>m. content m = SMTP_QUIT_SUCCESS_ANSWER \<and>
     client_step no_match CLIENT_ST_CLIENT_INITED CLIENT_EV_QUIT blank_client None plenty
       = Done (CLIENT_ST_QUIT_RECEIVED, blank_client\<lparr>msg_for_sending := m, need_send := True\<rparr>, plenty)"
  using quit_reply_states [OF blank_client_wf, of CLIENT_ST_CLIENT_INITED plenty no_match None]
  by (simp add: live_state_iff plenty_def)

text \<open>
  RSET is accepted without any reply and resets nothing: recipients, sender and text
  stay as they are. A client that goes on with MAIL, as after any successful RSET, is
  answered 503 and its mail is refused.
\<close>

theorem rset_blocks_next_mail:
  assumes "session_wf c" and "oom w = []"
  shows "client_step P CLIENT_ST_CLIENT_INITED CLIENT_EV_RSET c mi w = Done (CLIENT_ST_RSET_RECEIVED, c, w)
    \<and> (\<exists>m. client_step P CLIENT_ST_RSET_RECEIVED CLIENT_EV_MAIL c mi' w
        = Done (CLIENT_ST_RSET_RECEIVED, c\<lparr>msg_for_sending := m, need_send := True\<rparr>, log_msg WARNING ''client_fsm'' w)
      \<and> content m = SMTP_BAD_SEQUENCE_ANSWER)"
proof
  show "client_step P CLIENT_ST_CLIENT_INITED CLIENT_EV_RSET c mi w = Done (CLIENT_ST_RSET_RECEIVED, c, w)"
    by (simp add: client_step_def client_trans_table_def client_trans_CLIENT_INITED_def client_do_client_inited_rset_def)
  show "\<exists>m. client_step P CLIENT_ST_RSET_RECEIVED CLIENT_EV_MAIL c mi' w
        = Done (CLIENT_ST_RSET_RECEIVED, c\<lparr>msg_for_sending := m, need_send := True\<rparr>, log_msg WARNING ''client_fsm'' w)
      \<and> content m = SMTP_BAD_SEQUENCE_ANSWER"
    by (rule step_bad_sequence) (use assms in \<open>simp_all add: live_state_iff def_next_def\<close>)
qed

theorem rset_blocks_next_mail_witness:
  "\<exists>m. client_step no_match CLIENT_ST_RSET_RECEIVED CLIENT_EV_MAIL blank_client None plenty
        = Done (CLIENT_ST_RSET_RECEIVED, blank_client\<lparr>msg_for_sending := m, need_send := True\<rparr>,
            log_msg WARNING ''client_fsm'' plenty)
      \<and> content m = SMTP_BAD_SEQUENCE_ANSWER"
  using rset_blocks_next_mail [OF blank_client_wf, of plenty no_match None None] by (simp add: plenty_def)

end
