(* ===== verification/Server_Transaction.thy ===== *)
theory Server_Transaction
  imports Server_Dialogue
begin

text \<open>
  A whole mail transaction on the server's side: MAIL, RCPT for every recipient, DATA, the
  text and the final dot arrive line by line, every command is answered, and the mail is
  stored for the recipients that the commands named.
\<close>

section \<open>Turns of a dialogue\<close>

text \<open>
  A line is received; if a reply was prepared it is sent before the next line is read. The
  result of a turn is the reply, empty when there is none.
\<close>

definition turn :: "pcre_lib \<Rightarrow> client_t \<Rightarrow> msg_t \<Rightarrow> world \<Rightarrow> (string \<times> client_t \<times> world) run" where
  "turn P c m w =
     rbind (client_process_recv P c m w) (\<lambda>(_, c1, _, w1).
       if need_send c1 then rbind (client_process_send P c1 w1) (\<lambda>(_, c2, w2). Done (content (msg_for_sending c1), c2, w2))
       else Done ([], c1, w1))"

fun dialogue :: "pcre_lib \<Rightarrow> client_t \<Rightarrow> msg_t list \<Rightarrow> world \<Rightarrow> (string list \<times> client_t \<times> world) run" where
  "dialogue P c [] w = Done ([], c, w)"
| "dialogue P c (m # ms) w =
     rbind (turn P c m w) (\<lambda>(r, c1, w1). rbind (dialogue P c1 ms w1) (\<lambda>(rs, c2, w2). Done (r # rs, c2, w2)))"

lemma dialogue_append:
  "dialogue P c ms w = Done (rs, c1, w1) \<Longrightarrow> dialogue P c1 ns w1 = Done (rs', c2, w2)
     \<Longrightarrow> dialogue P c (ms @ ns) w = Done (rs @ rs', c2, w2)"
proof (induction ms arbitrary: c w rs)
  case (Cons m ms)
  from Cons.prems(1) obtain r d v rs0 where "turn P c m w = Done (r, d, v)" "dialogue P d ms v = Done (rs0, c1, w1)" "rs = r # rs0"
    by (auto simp: rbind_Done_iff)
  with Cons.IH [OF this(2) Cons.prems(2)] show ?case by simp
qed simp

text \<open>Sending a reply clears it and moves on to the state that follows a response.\<close>

definition answered :: "te_client_state \<Rightarrow> bool" where
  "answered s \<longleftrightarrow> s \<in> {CLIENT_ST_MAIL_RECEIVED, CLIENT_ST_RCPT_RECEIVED, CLIENT_ST_DATA_RECEIVED, CLIENT_ST_END_DATA_RECEIVED}"

lemma step_response:
  "answered s \<Longrightarrow> client_step P s CLIENT_EV_RESPONSE c None w = Done (def_next s CLIENT_EV_RESPONSE, c, w)"
  by (auto simp: answered_def client_step_def client_trans_table_def table_rows passive_callbacks def_next_def)

lemma process_send_reply:
  assumes "session_wf c" "answered (current_state c)"
  shows "\<exists>m. client_process_send P c w = Done (CE_SUCCESS, c\<lparr>need_send := False, msg_for_sending := m,
      current_state := def_next (current_state c) CLIENT_EV_RESPONSE\<rparr>, w)
    \<and> session_wf (c\<lparr>need_send := False, msg_for_sending := m, current_state := def_next (current_state c) CLIENT_EV_RESPONSE\<rparr>)"
proof -
  let ?m = "(msg_for_sending c)\<lparr>mtext := Some (replicate (max_size (msg_for_sending c)) NUL), msize := 0\<rparr>"
  note m = msg_clean_ok [OF session_wfD(2) [OF assms(1)]]
  have n: "def_next (current_state c) CLIENT_EV_RESPONSE \<noteq> CLIENT_ST_DONE"
    using assms(2) by (auto simp: answered_def def_next_def)
  have "session_wf (c\<lparr>need_send := False, msg_for_sending := ?m, current_state := def_next (current_state c) CLIENT_EV_RESPONSE\<rparr>)"
    using assms(1) m by (simp add: session_wf_def)
  with m(1) n show ?thesis
    by (intro exI [of _ ?m]) (simp add: client_process_send_def step_response [OF assms(2)])
qed

section \<open>The lines of a transaction\<close>

text \<open>
  What the session has stored, all of it readable: the recipients \<open>qs\<close> and the text \<open>txt\<close>. Between
  two turns it is in state \<open>s\<close> and no reply is pending.
\<close>

definition stores :: "mail_writer_t \<Rightarrow> (string \<times> string \<times> DOMAIN_TYPE) list \<Rightarrow> string \<Rightarrow> client_t \<Rightarrow> bool" where
  "stores mw qs txt c \<longleftrightarrow> session_wf c \<and> mail_writer c = mw \<and> map rcpt_names (rcpts c) = qs
     \<and> (\<forall>r \<in> set (rcpts c). rcv_ok r) \<and> content (msg_text c) = txt"

definition serving :: "mail_writer_t \<Rightarrow> te_client_state \<Rightarrow> (string \<times> string \<times> DOMAIN_TYPE) list \<Rightarrow> string \<Rightarrow> client_t \<Rightarrow> bool" where
  "serving mw s qs txt c \<longleftrightarrow> stores mw qs txt c \<and> current_state c = s \<and> \<not> need_send c"

lemma servingD:
  assumes "serving mw s qs txt c"
  shows "session_wf c" "current_state c = s" "\<not> need_send c" "mail_writer c = mw" "map rcpt_names (rcpts c) = qs"
    "\<forall>r \<in> set (rcpts c). rcv_ok r" "content (msg_text c) = txt" "stores mw qs txt c"
  using assms by (simp_all add: serving_def stores_def)

text \<open>Preparing a reply leaves what is stored alone.\<close>

lemma set_response_stores:
  assumes "stores mw qs txt c" "NUL \<notin> set r" "oom w = []"
  shows "\<exists>c1. client_set_response c (as_array r) (length r) w = Done (CE_SUCCESS, c1, w) \<and> stores mw qs txt c1
    \<and> need_send c1 \<and> content (msg_for_sending c1) = r"
proof -
  have wf: "session_wf c" using assms(1) by (simp add: stores_def)
  from set_response_plenty [OF wf assms(2,3)] obtain m where
    m: "client_set_response c (as_array r) (length r) w = Done (CE_SUCCESS, c\<lparr>msg_for_sending := m, need_send := True\<rparr>, w)" "content m = r" by blast
  have "session_wf (c\<lparr>msg_for_sending := m, need_send := True\<rparr>)"
    using set_response_le [OF wf assms(2) m(1)] by (simp add: session_le_def)
  with m assms(1) show ?thesis by (simp add: stores_def)
qed

text \<open>A line that is recognised, handled and answered.\<close>

lemma turn_command:
  assumes m: "holds m s" and w: "clock w = [t]" and st: "answered st"
    and d: "\<And>line. c_str line = s \<Longrightarrow> \<exists>c1. client_dispatch P c line w = Done (st, c1, w) \<and> stores mw qs txt c1
      \<and> need_send c1 \<and> content (msg_for_sending c1) = r"
  shows "\<exists>c'. turn P c m w = Done (r, c', w) \<and> serving mw (def_next st CLIENT_EV_RESPONSE) qs txt c'"
proof -
  from m obtain line m' where l: "msg_terminate m = Done (line, m')" "c_str line = s" by (rule terminate_holds) blast
  from d [OF l(2)] obtain c1 where 1: "client_dispatch P c line w = Done (st, c1, w)" "stores mw qs txt c1"
    "need_send c1" "content (msg_for_sending c1) = r" by blast
  let ?c = "c1\<lparr>current_state := st, timeout_start_time := t\<rparr>"
  have r: "client_process_recv P c m w = Done (CE_SUCCESS, ?c, m', w)"
    using l(1) 1(1) w by (simp add: client_process_recv_def client_start_timeout_def time_now_const)
  have "session_wf ?c" "answered (current_state ?c)" using 1(2) st by (simp_all add: stores_def)
  from process_send_reply [OF this, of P w] obtain m2 where
    2: "client_process_send P ?c w = Done (CE_SUCCESS, ?c\<lparr>need_send := False, msg_for_sending := m2, current_state := def_next st CLIENT_EV_RESPONSE\<rparr>, w)"
      "session_wf (?c\<lparr>need_send := False, msg_for_sending := m2, current_state := def_next st CLIENT_EV_RESPONSE\<rparr>)" by auto
  define c2 where "c2 = ?c\<lparr>need_send := False, msg_for_sending := m2, current_state := def_next st CLIENT_EV_RESPONSE\<rparr>"
  have "serving mw (def_next st CLIENT_EV_RESPONSE) qs txt c2" using 1(2) 2(2) by (simp add: serving_def stores_def c2_def)
  moreover have "turn P c m w = Done (r, c2, w)" using r 2(1) 1(3,4) by (simp add: turn_def c2_def)
  ultimately show ?thesis by blast
qed

text \<open>What the library has to say of the lines of MAIL and RCPT.\<close>

definition names_sender :: "pcre_lib \<Rightarrow> string \<Rightarrow> string \<Rightarrow> bool" where
  "names_sender P s a \<longleftrightarrow> (\<forall>line. c_str line = s \<longrightarrow>
     smtp_cmd_get_substring P (snd (smtp_cmd_check P SMTP_CMD_MAIL line)) MI_MAIL_FROM_REVERSE_PATH_INDEX None 1000 = Done (CE_SUCCESS, a))"

definition names_rcpt :: "pcre_lib \<Rightarrow> string \<Rightarrow> string \<Rightarrow> string \<times> string \<times> DOMAIN_TYPE \<Rightarrow> bool" where
  "names_rcpt P dm s q \<longleftrightarrow> (\<forall>line ty. c_str line = s \<longrightarrow> parsed_rcpt P (snd (smtp_cmd_check P SMTP_CMD_RCPT line)) dm ty = q)"

lemma dispatch_mail:
  assumes "matches_only P SMTP_CMD_MAIL (c_str line)" and "current_state c \<noteq> CLIENT_ST_EXPECTED_MSG_TEXT_OR_END_MSG"
  shows "client_dispatch P c line w
    = client_step P (current_state c) CLIENT_EV_MAIL c (Some (snd (smtp_cmd_check P SMTP_CMD_MAIL line))) w"
  using assms(2) by (simp add: client_dispatch_def Let_def case_prod_beta check_matches_only [OF assms(1)])

lemma dispatch_rcpt:
  assumes "matches_only P SMTP_CMD_RCPT (c_str line)" and "current_state c \<noteq> CLIENT_ST_EXPECTED_MSG_TEXT_OR_END_MSG"
  shows "client_dispatch P c line w
    = client_step P (current_state c) CLIENT_EV_RCPT c (Some (snd (smtp_cmd_check P SMTP_CMD_RCPT line))) w"
  using assms(2) by (simp add: client_dispatch_def Let_def case_prod_beta check_matches_only [OF assms(1)])

lemma step_mail:
  "client_step P CLIENT_ST_CLIENT_INITED CLIENT_EV_MAIL c mi w =
     client_do_client_inited_mail P c mi CLIENT_ST_CLIENT_INITED CLIENT_ST_MAIL_RECEIVED CLIENT_EV_MAIL w"
  by (simp add: client_step_def client_trans_table_def client_trans_CLIENT_INITED_def)

lemma step_data:
  "client_step P CLIENT_ST_EXPECTED_RCPT_OR_DATA CLIENT_EV_DATA c mi w =
     client_do_expected_rcpt_or_data_data P c mi CLIENT_ST_EXPECTED_RCPT_OR_DATA CLIENT_ST_DATA_RECEIVED CLIENT_EV_DATA w"
  by (simp add: client_step_def client_trans_table_def client_trans_EXPECTED_RCPT_OR_DATA_def)

section \<open>The turns\<close>

lemma def_next_answered:
  "def_next CLIENT_ST_MAIL_RECEIVED CLIENT_EV_RESPONSE = CLIENT_ST_EXPECTED_RCPT_OR_DATA" "answered CLIENT_ST_MAIL_RECEIVED"
  "def_next CLIENT_ST_RCPT_RECEIVED CLIENT_EV_RESPONSE = CLIENT_ST_EXPECTED_RCPT_OR_DATA" "answered CLIENT_ST_RCPT_RECEIVED"
  "def_next CLIENT_ST_DATA_RECEIVED CLIENT_EV_RESPONSE = CLIENT_ST_EXPECTED_MSG_TEXT_OR_END_MSG" "answered CLIENT_ST_DATA_RECEIVED"
  "def_next CLIENT_ST_END_DATA_RECEIVED CLIENT_EV_RESPONSE = CLIENT_ST_CLIENT_INITED" "answered CLIENT_ST_END_DATA_RECEIVED"
  by (simp_all add: answered_def def_next_def)

lemma turn_mail:
  assumes sv: "serving mw CLIENT_ST_CLIENT_INITED qs txt c" and w: "oom w = []" "clock w = [t]" and m: "holds m s"
    and p: "matches_only P SMTP_CMD_MAIL s" "names_sender P s a" and a: "length a \<noteq> max_size (mail_from c)"
  shows "\<exists>c'. turn P c m w = Done (SMTP_SUCCESS_ANSWER, c', w)
    \<and> serving mw CLIENT_ST_EXPECTED_RCPT_OR_DATA qs (snprintf 200 (''X-mysmtp-from: '' @ a @ CRLF)) c'"
proof (rule turn_command [OF m w(2) def_next_answered(2), unfolded def_next_answered])
  fix line assume l: "c_str line = s"
  note d = servingD [OF sv]
  have g: "smtp_cmd_get_substring P (snd (smtp_cmd_check P SMTP_CMD_MAIL line)) MI_MAIL_FROM_REVERSE_PATH_INDEX None 1000
      = Done (CE_SUCCESS, a)" using p(2) l by (simp add: names_sender_def)
  have nul: "NUL \<notin> set a" by (rule get_substring_no_NUL [OF g])
  have sl: "take (strlen a) (as_array a) = a" by (rule take_strlen [OF nul])
  have sn: "strlen a = length a" using nul by (simp add: strlen_def c_str_id)
  from client_add_mail_from_ok [OF d(1) strlen_le(1), of a w] w(1) a obtain f x where
    1: "client_add_mail_from c (as_array a) (strlen a) w = Done (CE_SUCCESS, c\<lparr>mail_from := f, msg_text := x\<rparr>, w)"
      "session_wf (c\<lparr>mail_from := f, msg_text := x\<rparr>)" "content x = snprintf 200 (''X-mysmtp-from: '' @ a @ CRLF)"
    unfolding sl by (auto simp: nul sn)
  have "stores mw qs (snprintf 200 (''X-mysmtp-from: '' @ a @ CRLF)) (c\<lparr>mail_from := f, msg_text := x\<rparr>)"
    using d 1(2,3) by (simp add: stores_def)
  from set_response_stores [OF this smtp_answers_no_NUL(2) w(1)]
  show "\<exists>c1. client_dispatch P c line w = Done (CLIENT_ST_MAIL_RECEIVED, c1, w)
      \<and> stores mw qs (snprintf 200 (''X-mysmtp-from: '' @ a @ CRLF)) c1 \<and> need_send c1 \<and> content (msg_for_sending c1) = SMTP_SUCCESS_ANSWER"
    using dispatch_mail [of P line c w] p(1) d(2) l g 1(1) by (auto simp: step_mail client_do_client_inited_mail_def)
qed

lemma turn_rcpt:
  assumes sv: "serving mw CLIENT_ST_EXPECTED_RCPT_OR_DATA qs txt c" and w: "oom w = []" "clock w = [t]" and m: "holds m s"
    and p: "matches_only P SMTP_CMD_RCPT s" "names_rcpt P (domain mw) s q" "storable q"
    and n: "length qs < SMTP_RCPT_MAX_SIZE" and dn: "NUL \<notin> set (domain mw)"
  shows "\<exists>c'. turn P c m w = Done (SMTP_SUCCESS_ANSWER, c', w) \<and> serving mw CLIENT_ST_EXPECTED_RCPT_OR_DATA (qs @ [q]) txt c'"
proof (rule turn_command [OF m w(2) def_next_answered(4), unfolded def_next_answered])
  fix line assume l: "c_str line = s"
  note d = servingD [OF sv]
  have ln: "length (rcpts c) < SMTP_RCPT_MAX_SIZE" using n d(5) by (metis length_map)
  have dm: "NUL \<notin> set (domain (mail_writer c))" using dn d(4) by simp
  have q: "parsed_rcpt P (snd (smtp_cmd_check P SMTP_CMD_RCPT line)) (domain (mail_writer c)) (stale_type c (length (rcpts c))) = q"
    using p(2) l d(4) by (simp add: names_rcpt_def)
  from client_add_rcpt_to_readable [OF d(1) dm w(1) ln q p(3)] obtain r where
    1: "client_add_rcpt_to P c (snd (smtp_cmd_check P SMTP_CMD_RCPT line)) w = Done (CE_SUCCESS, c\<lparr>rcpts := rcpts c @ [r]\<rparr>, w)"
      "rcpt_names r = q" "rcv_ok r" "session_wf (c\<lparr>rcpts := rcpts c @ [r]\<rparr>)" by blast
  have "stores mw (qs @ [q]) txt (c\<lparr>rcpts := rcpts c @ [r]\<rparr>)" using d 1(2-4) by (simp add: stores_def)
  from set_response_stores [OF this smtp_answers_no_NUL(2) w(1)]
  show "\<exists>c1. client_dispatch P c line w = Done (CLIENT_ST_RCPT_RECEIVED, c1, w)
      \<and> stores mw (qs @ [q]) txt c1 \<and> need_send c1 \<and> content (msg_for_sending c1) = SMTP_SUCCESS_ANSWER"
    using dispatch_rcpt [of P line c w] p(1) d(2) l 1(1) by (auto simp: step_rcpt client_do_expected_rcpt_or_data_rcpt_def)
qed

lemma turn_data:
  assumes sv: "serving mw CLIENT_ST_EXPECTED_RCPT_OR_DATA qs txt c" and w: "oom w = []" "clock w = [t]" and m: "holds m s"
    and p: "matches_only P SMTP_CMD_DATA s"
  shows "\<exists>c'. turn P c m w = Done (SMTP_DATA_ACCEPTED_ANSWER, c', w) \<and> serving mw CLIENT_ST_EXPECTED_MSG_TEXT_OR_END_MSG qs txt c'"
proof (rule turn_command [OF m w(2) def_next_answered(6), unfolded def_next_answered])
  fix line assume l: "c_str line = s"
  note d = servingD [OF sv]
  from set_response_stores [OF d(8) smtp_answers_no_NUL(3) w(1)]
  show "\<exists>c1. client_dispatch P c line w = Done (CLIENT_ST_DATA_RECEIVED, c1, w)
      \<and> stores mw qs txt c1 \<and> need_send c1 \<and> content (msg_for_sending c1) = SMTP_DATA_ACCEPTED_ANSWER"
    using dispatch_data [of P line c w] p(1) d(2) l by (auto simp: step_data client_do_expected_rcpt_or_data_data_def)
qed

lemma turn_text:
  assumes sv: "serving mw CLIENT_ST_EXPECTED_MSG_TEXT_OR_END_MSG qs txt c" and w: "oom w = []" "clock w = [t]" and m: "holds m s"
    and p: "fst (pcre_exec P RE_END_DATA s) < 0"
  shows "\<exists>c'. turn P c m w = Done ([], c', w) \<and> serving mw CLIENT_ST_EXPECTED_MSG_TEXT_OR_END_MSG qs (txt @ s) c'"
proof -
  note d = servingD [OF sv]
  from recv_text [OF d(1,2) w m p] obtain body m' where
    1: "client_process_recv P c m w = Done (CE_SUCCESS, c\<lparr>msg_text := body, timeout_start_time := t\<rparr>, m', w)"
      "session_wf (c\<lparr>msg_text := body\<rparr>)" "content body = content (msg_text c) @ s" by blast
  have "serving mw CLIENT_ST_EXPECTED_MSG_TEXT_OR_END_MSG qs (txt @ s) (c\<lparr>msg_text := body, timeout_start_time := t\<rparr>)"
    using d 1(2,3) by (simp add: serving_def stores_def)
  moreover have "turn P c m w = Done ([], c\<lparr>msg_text := body, timeout_start_time := t\<rparr>, w)" using 1(1) d(3) by (simp add: turn_def)
  ultimately show ?thesis by blast
qed

lemma turn_end:
  assumes sv: "serving mw CLIENT_ST_EXPECTED_MSG_TEXT_OR_END_MSG qs txt c" and w: "oom w = []" "clock w = [t]" and m: "holds m s"
    and p: "pcre_exec P RE_END_DATA s = (rc, int 0 # ov)" "0 \<le> rc" and dn: "NUL \<notin> set (domain mw)"
    and tmp: "creatable w (snd (tmp_path_of mw t (mailN w)))" and ne: "qs \<noteq> []"
    and dst: "\<And>r. rcpt_names r \<in> set qs \<Longrightarrow> creatable w (delivery_path mw t (mailN w) r)
        \<and> files w (delivery_path mw t (mailN w) r) = None \<and> delivery_path mw t (mailN w) r \<noteq> snd (tmp_path_of mw t (mailN w))"
  shows "\<exists>c' w'. turn P c m w = Done (SMTP_SUCCESS_ANSWER, c', w') \<and> current_state c' = CLIENT_ST_CLIENT_INITED
    \<and> (\<exists>to. map rcpt_names to = qs \<and> (\<forall>r \<in> set (link_targets mw to). files w' (delivery_path mw t (mailN w) r) =
         Some (''X-mysmtp-to:'' @ concat (map (x_to_text '','') (butlast to)) @ x_to_text CRLF (last to) @ txt)))"
proof -
  note d = servingD [OF sv]
  define Q where "Q b u \<longleftrightarrow> (\<forall>r \<in> set (link_targets mw (rcpts c)).
      files u (delivery_path mw t (mailN w) r) = Some (''X-mysmtp-to:''
        @ concat (map (x_to_text '','') (butlast (rcpts c))) @ x_to_text CRLF (last (rcpts c)) @ content b))" for b :: msg_t and u :: world
  have to: "rcpts c \<noteq> []" "length (rcpts c) < 2 ^ 64" using d(1,5) ne by (auto simp: session_wf_def SMTP_RCPT_MAX_SIZE_def)
  have dst2: "\<forall>r \<in> set (rcpts c). creatable w (delivery_path mw t (mailN w) r)
        \<and> files w (delivery_path mw t (mailN w) r) = None \<and> delivery_path mw t (mailN w) r \<noteq> snd (tmp_path_of mw t (mailN w))"
    using dst d(5) by (metis image_eqI list.set_map)
  have wr: "\<exists>to' w'. write_mail (mail_writer c) (rcpts c) b w = Done (CE_SUCCESS, to', w') \<and> Q b w'
      \<and> oom w' = [] \<and> length to' = length (rcpts c)" if "msg_wf b" for b
  proof -
    from write_mail_writes [OF to d(6) that w(2) tmp dst2] obtain to' w' where
      "write_mail mw (rcpts c) b w = Done (CE_SUCCESS, to', w')" "Q b w'" unfolding Q_def by blast
    with write_mail_keeps_oom [OF this(1)] write_mail_length [OF this(1)] w(1) show ?thesis unfolding d(4) by simp
  qed
  from recv_end [where Q = Q, OF d(1,2) w m p _ wr] obtain c' m' b w1 w' where
    2: "client_process_recv P c m w = Done (CE_SUCCESS, c', m', w')" "Q b w1" "content b = content (msg_text c)" "files w' = files w1"
      "need_send c'" "current_state c' = CLIENT_ST_END_DATA_RECEIVED" "content (msg_for_sending c') = SMTP_SUCCESS_ANSWER" by auto
  have "NUL \<notin> set (domain (mail_writer c))" using dn d(4) by simp
  from session_next_keeps [OF d(1) this session_next.recv [OF 2(1)]] have wf: "session_wf c'" by (simp add: session_keeps_def)
  obtain c2 where 3: "client_process_send P c' w' = Done (CE_SUCCESS, c2, w')" "current_state c2 = CLIENT_ST_CLIENT_INITED"
    using process_send_reply [OF wf, of P w'] 2(6) def_next_answered(7,8) by auto
  have "turn P c m w = Done (SMTP_SUCCESS_ANSWER, c2, w')" using 2(1,5,7) 3(1) by (simp add: turn_def)
  moreover have "\<forall>r \<in> set (link_targets mw (rcpts c)). files w' (delivery_path mw t (mailN w) r) =
         Some (''X-mysmtp-to:'' @ concat (map (x_to_text '','') (butlast (rcpts c))) @ x_to_text CRLF (last (rcpts c)) @ txt)"
    using 2(2) unfolding Q_def 2(3,4) d(7) .
  ultimately show ?thesis using 3(2) d(5) by blast
qed

section \<open>A transaction\<close>

definition rcpt_recognised :: "pcre_lib \<Rightarrow> string \<Rightarrow> string \<times> string \<times> string \<times> DOMAIN_TYPE \<Rightarrow> bool" where
  "rcpt_recognised P dm = (\<lambda>(s, q). matches_only P SMTP_CMD_RCPT s \<and> names_rcpt P dm s q \<and> storable q)"

lemma turns_rcpt:
  assumes w: "oom w = []" "clock w = [t]" and dn: "NUL \<notin> set (domain mw)"
  shows "list_all2 (\<lambda>m x. holds m (fst x)) ms rs \<Longrightarrow> serving mw CLIENT_ST_EXPECTED_RCPT_OR_DATA qs txt c \<Longrightarrow>
     \<forall>x \<in> set rs. rcpt_recognised P (domain mw) x \<Longrightarrow> length qs + length rs \<le> SMTP_RCPT_MAX_SIZE \<Longrightarrow>
     \<exists>c'. dialogue P c ms w = Done (replicate (length rs) SMTP_SUCCESS_ANSWER, c', w)
       \<and> serving mw CLIENT_ST_EXPECTED_RCPT_OR_DATA (qs @ map snd rs) txt c'"
proof (induction arbitrary: qs c rule: list_all2_induct)
  case (Cons m ms x rs)
  have x: "matches_only P SMTP_CMD_RCPT (fst x)" "names_rcpt P (domain mw) (fst x) (snd x)" "storable (snd x)"
    using Cons.prems(2) by (auto simp: rcpt_recognised_def)
  have n: "length qs < SMTP_RCPT_MAX_SIZE" "length (qs @ [snd x]) + length rs \<le> SMTP_RCPT_MAX_SIZE" using Cons.prems(3) by auto
  from turn_rcpt [OF Cons.prems(1) w Cons.hyps(1) x n(1) dn] obtain c1 where
    1: "turn P c m w = Done (SMTP_SUCCESS_ANSWER, c1, w)" "serving mw CLIENT_ST_EXPECTED_RCPT_OR_DATA (qs @ [snd x]) txt c1" by blast
  have "\<forall>x \<in> set rs. rcpt_recognised P (domain mw) x" using Cons.prems(2) by simp
  from Cons.IH [OF 1(2) this n(2)] 1(1) show ?case by auto
qed simp

lemma turns_text:
  assumes w: "oom w = []" "clock w = [t]"
  shows "list_all2 holds ms ss \<Longrightarrow> serving mw CLIENT_ST_EXPECTED_MSG_TEXT_OR_END_MSG qs u c \<Longrightarrow>
     \<forall>s \<in> set ss. fst (pcre_exec P RE_END_DATA s) < 0 \<Longrightarrow>
     \<exists>c'. dialogue P c ms w = Done (replicate (length ss) [], c', w) \<and> serving mw CLIENT_ST_EXPECTED_MSG_TEXT_OR_END_MSG qs (u @ concat ss) c'"
proof (induction arbitrary: u c rule: list_all2_induct)
  case (Cons m ms s ss)
  from turn_text [OF Cons.prems(1) w Cons.hyps(1), of P] Cons.prems(2) obtain c1 where
    1: "turn P c m w = Done ([], c1, w)" "serving mw CLIENT_ST_EXPECTED_MSG_TEXT_OR_END_MSG qs (u @ s) c1" by auto
  with Cons.IH [OF 1(2)] Cons.prems(2) show ?case by auto
qed simp

text \<open>What the lines of a transaction have to be for the library.\<close>

definition lines_recognised :: "pcre_lib \<Rightarrow> string \<Rightarrow> string \<Rightarrow> string \<Rightarrow> (string \<times> string \<times> string \<times> DOMAIN_TYPE) list
    \<Rightarrow> string \<Rightarrow> string list \<Rightarrow> string \<Rightarrow> bool" where
  "lines_recognised P dm s0 a rs sd ts se \<longleftrightarrow> matches_only P SMTP_CMD_MAIL s0 \<and> names_sender P s0 a
     \<and> (\<forall>x \<in> set rs. rcpt_recognised P dm x) \<and> matches_only P SMTP_CMD_DATA sd
     \<and> (\<forall>s \<in> set ts. fst (pcre_exec P RE_END_DATA s) < 0) \<and> (\<exists>rc ov. pcre_exec P RE_END_DATA se = (rc, int 0 # ov) \<and> 0 \<le> rc)"

definition server_replies :: "nat \<Rightarrow> nat \<Rightarrow> string list" where
  "server_replies n k = [SMTP_SUCCESS_ANSWER] @ replicate n SMTP_SUCCESS_ANSWER @ [SMTP_DATA_ACCEPTED_ANSWER] @ replicate k [] @ [SMTP_SUCCESS_ANSWER]"

definition stored_mail :: "receiver_t list \<Rightarrow> string \<Rightarrow> string list \<Rightarrow> string" where
  "stored_mail to a ts = ''X-mysmtp-to:'' @ concat (map (x_to_text '','') (butlast to)) @ x_to_text CRLF (last to)
     @ snprintf 200 (''X-mysmtp-from: '' @ a @ CRLF) @ concat ts"

definition mail_stored :: "mail_writer_t \<Rightarrow> nat \<Rightarrow> nat \<Rightarrow> (string \<times> string \<times> DOMAIN_TYPE) list \<Rightarrow> string \<Rightarrow> string list \<Rightarrow> world \<Rightarrow> bool" where
  "mail_stored mw t n qs a ts w \<longleftrightarrow> (\<exists>to. map rcpt_names to = qs \<and> (\<forall>r \<in> set (link_targets mw to).
     files w (delivery_path mw t n r) = Some (stored_mail to a ts)))"

definition deliverable :: "mail_writer_t \<Rightarrow> nat \<Rightarrow> (string \<times> string \<times> DOMAIN_TYPE) list \<Rightarrow> world \<Rightarrow> bool" where
  "deliverable mw t qs w \<longleftrightarrow> creatable w (snd (tmp_path_of mw t (mailN w)))
     \<and> (\<forall>r. rcpt_names r \<in> set qs \<longrightarrow> creatable w (delivery_path mw t (mailN w) r)
          \<and> files w (delivery_path mw t (mailN w) r) = None \<and> delivery_path mw t (mailN w) r \<noteq> snd (tmp_path_of mw t (mailN w)))"

section \<open>Properties\<close>

text \<open>
  C3: the server takes a mail. A session that waits for commands gets the lines of MAIL, of RCPT for
  up to a hundred recipients, DATA, the text in any pieces and the final dot; every command is
  answered 250, DATA 354, the pieces of the text not at all. Then the session waits for
  commands again, and every local recipient and every remote domain has a file with the
  recipients that the RCPT lines named, the sender and the whole text in order.
\<close>

theorem server_takes_mail:
  assumes sv: "serving mw CLIENT_ST_CLIENT_INITED [] u c" and w: "oom w = []" "clock w = [t]" and dn: "NUL \<notin> set (domain mw)"
    and ms: "list_all2 holds ms ([s0] @ map fst rs @ [sd] @ ts @ [se])"
    and rec: "lines_recognised P (domain mw) s0 a rs sd ts se" and a: "length a \<noteq> max_size (mail_from c)"
    and rs: "rs \<noteq> []" "length rs \<le> SMTP_RCPT_MAX_SIZE" and dv: "deliverable mw t (map snd rs) w"
  shows "\<exists>c' w'. dialogue P c ms w = Done (server_replies (length rs) (length ts), c', w')
    \<and> current_state c' = CLIENT_ST_CLIENT_INITED \<and> mail_stored mw t (mailN w) (map snd rs) a ts w'"
proof -
  note rd = rec [unfolded lines_recognised_def]
  from ms obtain m0 rm dm tm em where m: "ms = [m0] @ rm @ [dm] @ tm @ [em]" "holds m0 s0" "list_all2 holds rm (map fst rs)"
    "holds dm sd" "list_all2 holds tm ts" "holds em se"
    by (auto simp: list_all2_append2 list_all2_Cons2)
  have rm: "list_all2 (\<lambda>m x. holds m (fst x)) rm rs" using m(3) by (simp add: list_all2_map2)
  define h where "h = snprintf 200 (''X-mysmtp-from: '' @ a @ CRLF)"
  have rr: "\<forall>x \<in> set rs. rcpt_recognised P (domain mw) x" and tt: "\<forall>s \<in> set ts. fst (pcre_exec P RE_END_DATA s) < 0" using rd by blast+
  from turn_mail [OF sv w m(2) _ _ a] rd obtain c1 where 1: "turn P c m0 w = Done (SMTP_SUCCESS_ANSWER, c1, w)"
    "serving mw CLIENT_ST_EXPECTED_RCPT_OR_DATA [] h c1" unfolding h_def by blast
  from turns_rcpt [OF w dn rm 1(2) rr] rs(2) obtain c2 where 2: "dialogue P c1 rm w = Done (replicate (length rs) SMTP_SUCCESS_ANSWER, c2, w)"
    "serving mw CLIENT_ST_EXPECTED_RCPT_OR_DATA (map snd rs) h c2" by auto
  from turn_data [OF 2(2) w m(4)] rd obtain c3 where 3: "turn P c2 dm w = Done (SMTP_DATA_ACCEPTED_ANSWER, c3, w)"
    "serving mw CLIENT_ST_EXPECTED_MSG_TEXT_OR_END_MSG (map snd rs) h c3" by blast
  from turns_text [OF w m(5) 3(2) tt] obtain c4 where 4: "dialogue P c3 tm w = Done (replicate (length ts) [], c4, w)"
    "serving mw CLIENT_ST_EXPECTED_MSG_TEXT_OR_END_MSG (map snd rs) (h @ concat ts) c4" by blast
  from rd obtain rc ov where e: "pcre_exec P RE_END_DATA se = (rc, int 0 # ov)" "0 \<le> rc" by blast
  have ne: "map snd rs \<noteq> []" using rs(1) by simp
  have dv': "creatable w (snd (tmp_path_of mw t (mailN w)))"
    "rcpt_names r \<in> set (map snd rs) \<Longrightarrow> creatable w (delivery_path mw t (mailN w) r)
        \<and> files w (delivery_path mw t (mailN w) r) = None \<and> delivery_path mw t (mailN w) r \<noteq> snd (tmp_path_of mw t (mailN w))" for r
    using dv unfolding deliverable_def by blast+
  from turn_end [OF 4(2) w m(6) e dn dv'(1) ne dv'(2)] obtain c5 w5 where 5: "turn P c4 em w = Done (SMTP_SUCCESS_ANSWER, c5, w5)"
    "current_state c5 = CLIENT_ST_CLIENT_INITED" "mail_stored mw t (mailN w) (map snd rs) a ts w5"
    unfolding mail_stored_def stored_mail_def h_def by blast
  have "dialogue P c2 ([dm] @ tm @ [em]) w = Done ([SMTP_DATA_ACCEPTED_ANSWER] @ replicate (length ts) [] @ [SMTP_SUCCESS_ANSWER], c5, w5)"
    using 3(1) 5(1) by (intro dialogue_append [OF _ dialogue_append [OF 4(1)]]) simp_all
  from dialogue_append [OF 2(1) this] have "dialogue P c ms w = Done (server_replies (length rs) (length ts), c5, w5)"
    using 1(1) by (simp add: m(1) server_replies_def)
  with 5(2,3) show ?thesis by blast
qed

text \<open>A library that knows the lines of one dialogue.\<close>

definition dialogue_matcher :: pcre_lib where
  "dialogue_matcher =
     \<lparr>pcre_exec = (\<lambda>re l. if re = RE_MAIL \<and> l = ''MAIL FROM:<a@a.ru>'' @ CRLF \<or> re = RE_RCPT \<and> l = ''RCPT TO:<b@b.ru>'' @ CRLF
          \<or> re = RE_DATA \<and> l = ''DATA'' @ CRLF then (60, []) else if re = RE_END_DATA \<and> l = ''.'' @ CRLF then (1, [int 0, int 3]) else (-1, [])),
      pcre_copy_substring = (\<lambda>l _ _ i _. if c_str l = ''MAIL FROM:<a@a.ru>'' @ CRLF then Some ''<a@a.ru>''
          else if i = 29 then Some ''b'' else if i = 38 then Some ''b.ru'' else None)\<rparr>"

definition waiting_server :: client_t where
  "waiting_server = blank_client\<lparr>current_state := CLIENT_ST_CLIENT_INITED\<rparr>"

lemma RE_unique:
  "smtp_cmds k = RE_MAIL \<longleftrightarrow> k = SMTP_CMD_MAIL" "smtp_cmds k = RE_RCPT \<longleftrightarrow> k = SMTP_CMD_RCPT" "smtp_cmds k = RE_END_DATA \<longleftrightarrow> k = SMTP_CMD_END_DATA"
proof -
  have "hd (tl (tl RE_RCPT)) = CHR ''c''" "hd (tl (tl RE_RSET)) = CHR ''s''" by (simp_all add: RE_RCPT_def RE_RSET_def)
  then show "smtp_cmds k = RE_MAIL \<longleftrightarrow> k = SMTP_CMD_MAIL" "smtp_cmds k = RE_RCPT \<longleftrightarrow> k = SMTP_CMD_RCPT"
    "smtp_cmds k = RE_END_DATA \<longleftrightarrow> k = SMTP_CMD_END_DATA"
    using RE_hd by (cases k; fastforce)+
qed

lemma waiting_server_serving: "serving mw_example CLIENT_ST_CLIENT_INITED [] [] waiting_server"
  using blank_client_wf by (simp add: serving_def stores_def waiting_server_def) (simp add: blank_client_def)

lemma dialogue_matcher_lines:
  "lines_recognised dialogue_matcher dm (''MAIL FROM:<a@a.ru>'' @ CRLF) ''<a@a.ru>'' [(''RCPT TO:<b@b.ru>'' @ CRLF, ''b'', ''b.ru'', DOMAIN_TYPE_HOST)]
     (''DATA'' @ CRLF) [''Hi'' @ CRLF] (''.'' @ CRLF)"
proof -
  let ?M = "''MAIL FROM:<a@a.ru>'' @ CRLF" and ?R = "''RCPT TO:<b@b.ru>'' @ CRLF"
  have "matches_only dialogue_matcher SMTP_CMD_MAIL ?M" "matches_only dialogue_matcher SMTP_CMD_RCPT ?R"
    "matches_only dialogue_matcher SMTP_CMD_DATA (''DATA'' @ CRLF)"
    by (simp_all add: matches_only_def dialogue_matcher_def RE_DATA_unique RE_unique split: if_splits)
  moreover have "names_sender dialogue_matcher ?M ''<a@a.ru>''"
    by (simp add: names_sender_def smtp_cmd_get_substring_def smtp_cmd_check_def dialogue_matcher_def c_str_def split: prod.splits)
  moreover have "names_rcpt dialogue_matcher dm ?R (''b'', ''b.ru'', DOMAIN_TYPE_HOST)"
    by (simp add: names_rcpt_def parsed_rcpt_def capture_def smtp_cmd_check_def dialogue_matcher_def capture_indices split: prod.splits) (simp add: c_str_def)
  ultimately show ?thesis
    by (simp add: lines_recognised_def rcpt_recognised_def storable_def) (simp add: dialogue_matcher_def)
qed

lemma waiting_server_deliverable: "deliverable mw_example 9 [(''b'', ''b.ru'', DOMAIN_TYPE_HOST)] world_example"
proof -
  have n: "mailN world_example = 0" "creatable world_example = (\<lambda>_. True)" "files world_example = Map.empty"
    by (simp_all add: world_example_def plenty_def)
  have "take 4 (snd (tmp_path_of mw_example 9 0)) = ''/m/t''"
    by (simp add: tmp_path_of_def generate_file_path_def snprintf_def mw_example_def Let_def)
  moreover have "take 4 (delivery_path mw_example 9 0 r) = ''/q/b''" if "rcpt_names r = (''b'', ''b.ru'', DOMAIN_TYPE_HOST)" for r
    using that by (simp add: rcpt_names_def delivery_path_def is_to_local_def memcmp_eq_def as_array_def mw_example_def
        generate_file_path_def snprintf_def)
  ultimately show ?thesis unfolding deliverable_def n by fastforce
qed

theorem server_takes_mail_witness:
  "\<exists>c' w'. dialogue dialogue_matcher waiting_server (map buffer_with [''MAIL FROM:<a@a.ru>'' @ CRLF, ''RCPT TO:<b@b.ru>'' @ CRLF, ''DATA'' @ CRLF,
        ''Hi'' @ CRLF, ''.'' @ CRLF]) world_example = Done ([''250 OK'' @ CRLF, ''250 OK'' @ CRLF, ''354 Start mail input'' @ CRLF, [], ''250 OK'' @ CRLF], c', w')
    \<and> current_state c' = CLIENT_ST_CLIENT_INITED
    \<and> mail_stored mw_example 9 0 [(''b'', ''b.ru'', DOMAIN_TYPE_HOST)] ''<a@a.ru>'' [''Hi'' @ CRLF] w'"
proof -
  let ?rs = "[(''RCPT TO:<b@b.ru>'' @ CRLF, ''b'', ''b.ru'', DOMAIN_TYPE_HOST)]"
  have w: "oom world_example = []" "clock world_example = [9]" "NUL \<notin> set (domain mw_example)" "mailN world_example = 0"
    by (simp_all add: world_example_def plenty_def mw_example_def)
  have h: "list_all2 holds (map buffer_with [''MAIL FROM:<a@a.ru>'' @ CRLF, ''RCPT TO:<b@b.ru>'' @ CRLF, ''DATA'' @ CRLF, ''Hi'' @ CRLF, ''.'' @ CRLF])
      ([''MAIL FROM:<a@a.ru>'' @ CRLF] @ map fst ?rs @ [''DATA'' @ CRLF] @ [''Hi'' @ CRLF] @ [''.'' @ CRLF])"
    by (simp add: holds_buffer_with)
  have b: "length ''<a@a.ru>'' \<noteq> max_size (mail_from waiting_server)" by (simp add: waiting_server_def blank_client_def buffer_with_def)
  have dv: "deliverable mw_example 9 (map snd ?rs) world_example" using waiting_server_deliverable by simp
  have r: "?rs \<noteq> []" "length ?rs \<le> SMTP_RCPT_MAX_SIZE" by (simp_all add: SMTP_RCPT_MAX_SIZE_def)
  have "server_replies (length ?rs) (length [''Hi'' @ CRLF]) = [''250 OK'' @ CRLF, ''250 OK'' @ CRLF, ''354 Start mail input'' @ CRLF, [], ''250 OK'' @ CRLF]"
    "map snd ?rs = [(''b'', ''b.ru'', DOMAIN_TYPE_HOST)]"
    by (simp_all add: server_replies_def SMTP_SUCCESS_ANSWER_def SMTP_DATA_ACCEPTED_ANSWER_def)
  with server_takes_mail [OF waiting_server_serving w(1-3) h dialogue_matcher_lines b r dv] show ?thesis unfolding w(4) by simp
qed

end
