(* ===== verification/Client_Base.thy ===== *)
theory Client_Base
  imports Smtp_Prelude
begin

text \<open>
  What the components of the client share: the error codes of \<^verbatim>\<open>client/include/errors.h\<close>, the
  process's environment (allocator, clock, log) and the sized strings of
  \<^verbatim>\<open>client/src/mstring.c\<close>.
\<close>

section \<open>Error codes and environment\<close>

datatype cerror =
    SUCCESS | MEMORY_ERROR | SOCKET_ERROR | SELECT_ERROR | PIPE_ERROR | CONNECT_ERROR | SEND_ERROR | RECV_ERROR
  | OPEN_DIR_ERROR | FOPEN_ERROR | FREAD_ERROR | QUEUE_OVERFLOW | TREE_OVERFLOW | SIGNAL_ERROR | UNKNOWN_FDT
  | RECV_BUFFER_OVERFLOW | LOG_FILE_OPEN_ERROR

text \<open>
  \<^item> \<open>cmem\<close>: the answers of the allocator; \<open>usable\<close>: how many bytes a block has that was
    requested with a given size (at least that many);
  \<^item> \<open>cclock\<close>: the values successive calls of \<^verbatim>\<open>time(NULL)\<close> return, the last one repeated;
  \<^item> \<open>clogs\<close>: the records handed to \<^verbatim>\<open>send_log\<close>, by the place that writes them. The copies
    \<^verbatim>\<open>send_log\<close> itself makes are not counted against the allocator.
\<close>

record cworld =
  cmem :: mem
  usable :: "nat \<Rightarrow> nat"
  cclock :: "int list"
  clogs :: "string list"

definition cmalloc :: "cworld \<Rightarrow> bool \<times> cworld" where
  "cmalloc w = (let (b, m) = malloc (cmem w) in (b, w\<lparr>cmem := m\<rparr>))"

definition send_log :: "string \<Rightarrow> cworld \<Rightarrow> cworld" where
  "send_log s w = w\<lparr>clogs := clogs w @ [s]\<rparr>"

definition ctime :: "cworld \<Rightarrow> int \<times> cworld" where
  "ctime w = (case cclock w of [] \<Rightarrow> (0, w) | [t] \<Rightarrow> (t, w) | t # ts \<Rightarrow> (t, w\<lparr>cclock := ts\<rparr>))"

lemma cmalloc_plenty [simp]: "cmem w = [] \<Longrightarrow> cmalloc w = (True, w)"
  by (simp add: cmalloc_def)

lemma cmem_frame [simp]: "cmem (send_log s w) = cmem w" "cmem (snd (ctime w)) = cmem w"
  "usable (send_log s w) = usable w" "usable (snd (ctime w)) = usable w" "cclock (send_log s w) = cclock w"
  by (auto simp: send_log_def ctime_def split: list.splits)

lemma cmalloc_usable: "cmalloc w = (b, w') \<Longrightarrow> usable w' = usable w"
  by (auto simp: cmalloc_def split: prod.splits)

text \<open>An environment with enough memory whose blocks hold at least 16 bytes.\<close>

definition good_world :: "cworld \<Rightarrow> bool" where
  "good_world w \<longleftrightarrow> cmem w = [] \<and> 16 \<le> usable w 8"

lemma good_world_simps [simp]: "good_world (send_log s w) = good_world w" "good_world (snd (ctime w)) = good_world w"
  by (simp_all add: good_world_def)

lemma good_world_ctime: "ctime w = (t, w') \<Longrightarrow> good_world w' = good_world w"
  using good_world_simps(2) [of w] by simp

lemma good_worldD [simp]: "good_world w \<Longrightarrow> cmem w = []" "good_world w \<Longrightarrow> 16 \<le> usable w 8" "good_world w \<Longrightarrow> \<not> usable w 8 < 16"
  by (simp_all add: good_world_def)

definition show_int :: "int \<Rightarrow> string" where
  "show_int z = (if z < 0 then CHR ''-'' # show_nat (nat (- z)) else show_nat (nat z))"

text \<open>\<^verbatim>\<open>sprintf\<close> of a record of \<open>n\<close> bytes into the global array of 2048 bytes, and \<^verbatim>\<open>send_log\<close>.\<close>

definition MAX_G_LOG_MESSAGE :: nat where "MAX_G_LOG_MESSAGE = 2048"

definition log_printf :: "string \<Rightarrow> nat \<Rightarrow> cworld \<Rightarrow> cworld run" where
  "log_printf site n w = (if n < MAX_G_LOG_MESSAGE then Done (send_log site w) else Fault Out_Of_Bounds)"

section \<open>Sized strings\<close>

record string_t =
  str_data :: string
  str_size :: nat

text \<open>\<open>junk\<close> is the content of the new block; the byte behind the \<open>n\<close> bytes of text is set to NUL.\<close>

definition string_init :: "string \<Rightarrow> nat \<Rightarrow> cworld \<Rightarrow> string_t option \<times> cworld" where
  "string_init junk n w =
     (let (ok1, w1) = cmalloc w in
      if \<not> ok1 then (None, send_log ''string_init'' w1)
      else let (ok2, w2) = cmalloc w1 in
      if \<not> ok2 then (None, send_log ''string_init'' w2)
      else (Some \<lparr>str_data = (take n (junk @ replicate n NUL)) @ [NUL], str_size = n\<rparr>, w2))"

definition string_init2 :: "string \<Rightarrow> nat \<Rightarrow> cworld \<Rightarrow> (string_t option \<times> cworld) run" where
  "string_init2 d n w =
     (case string_init [] n w of
        (None, w') \<Rightarrow> Done (None, w')
      | (Some str, w') \<Rightarrow> rbind (memcpy_at (str_data str) 0 d n) (\<lambda>b. Done (Some (str\<lparr>str_data := b\<rparr>), w')))"

definition string_copy :: "string_t \<Rightarrow> cworld \<Rightarrow> (string_t option \<times> cworld) run" where
  "string_copy str w = string_init2 (str_data str) (str_size str) w"

definition string_concat :: "string_t \<Rightarrow> string_t \<Rightarrow> cworld \<Rightarrow> (string_t option \<times> cworld) run" where
  "string_concat first second w =
     (let n = str_size first + str_size second; (ok, w1) = cmalloc w in
      if \<not> ok then Done (None, send_log ''string_init'' w1)
      else rbind (memcpy_at (replicate n NUL) 0 (str_data first) (str_size first)) (\<lambda>b1.
           rbind (memcpy_at b1 (str_size first) (str_data second) (str_size second)) (\<lambda>b2.
           string_init2 b2 n w1)))"

definition concat_with_sep :: "string_t \<Rightarrow> string_t \<Rightarrow> char \<Rightarrow> cworld \<Rightarrow> (string_t option \<times> cworld) run" where
  "concat_with_sep first second sep w =
     (let n = str_size first + str_size second + 1; (ok, w1) = cmalloc w in
      if \<not> ok then Done (None, send_log ''string_init'' w1)
      else rbind (memcpy_at (replicate n NUL) 0 (str_data first) (str_size first)) (\<lambda>b1.
           rbind (memcpy_at b1 (str_size first) [sep] 1) (\<lambda>b2.
           rbind (memcpy_at b2 (str_size first + 1) (str_data second) (str_size second)) (\<lambda>b3.
           string_init2 b3 n w1))))"

text \<open>A string is well formed when its block holds the text and the terminator.\<close>

definition str_wf :: "string_t \<Rightarrow> bool" where
  "str_wf s \<longleftrightarrow> length (str_data s) = str_size s + 1 \<and> str_data s ! str_size s = NUL"

definition str_text :: "string_t \<Rightarrow> string" where
  "str_text s = take (str_size s) (str_data s)"

definition mk_str :: "string \<Rightarrow> string_t" where
  "mk_str s = \<lparr>str_data = s @ [NUL], str_size = length s\<rparr>"

lemma mk_str_simps [simp]: "str_wf (mk_str s)" "str_text (mk_str s) = s" "str_size (mk_str s) = length s" "str_data (mk_str s) = s @ [NUL]"
  by (simp_all add: str_wf_def str_text_def mk_str_def)

text \<open>A well-formed string is determined by its text.\<close>

lemma str_wf_mk_str:
  assumes "str_wf s"
  shows "s = mk_str (str_text s)"
proof -
  have "length (str_data s) = Suc (str_size s)" "str_data s ! str_size s = NUL" using assms by (auto simp: str_wf_def)
  then have "str_data s = take (str_size s) (str_data s) @ [NUL]"
    using take_Suc_conv_app_nth [of "str_size s" "str_data s"] by simp
  with \<open>length (str_data s) = Suc (str_size s)\<close> show ?thesis by (simp add: mk_str_def str_text_def)
qed

lemma string_init2_cases:
  assumes "n \<le> length d"
  obtains w' where "string_init2 d n w = Done (None, w')" "usable w' = usable w" "cmem w \<noteq> []"
  | w' where "string_init2 d n w = Done (Some (mk_str (take n d)), w')" "usable w' = usable w" "cmem w = [] \<Longrightarrow> w' = w"
proof -
  obtain o1 w1 where 1: "cmalloc w = (o1, w1)" by force
  obtain o2 w2 where 2: "cmalloc w1 = (o2, w2)" by force
  note u = cmalloc_usable [OF 1] cmalloc_usable [OF 2]
  show thesis
  proof (cases "o1 \<and> o2")
    case True
    have "string_init2 d n w = Done (Some (mk_str (take n d)), w2)"
      using 1 2 True assms by (simp add: string_init2_def string_init_def memcpy_at_def mk_str_def blit_def)
    with u 1 2 show thesis by (intro that(2)) auto
  next
    case False
    then have "cmem w \<noteq> []" using 1 2 by (cases "cmem w = []") auto
    with False 1 2 u that(1) show thesis by (cases o1) (auto simp: string_init2_def string_init_def)
  qed
qed

lemma string_init2_plenty [simp]:
  "n \<le> length d \<Longrightarrow> cmem w = [] \<Longrightarrow> string_init2 d n w = Done (Some (mk_str (take n d)), w)"
  by (erule string_init2_cases [of n d w]) auto

lemma string_copy_cases:
  assumes "str_wf s"
  obtains w' where "string_copy s w = Done (None, w')" "usable w' = usable w" "cmem w \<noteq> []"
  | w' where "string_copy s w = Done (Some s, w')" "usable w' = usable w" "cmem w = [] \<Longrightarrow> w' = w"
proof -
  have l: "str_size s \<le> length (str_data s)" and s: "mk_str (take (str_size s) (str_data s)) = s"
    using assms str_wf_mk_str [OF assms] by (auto simp: str_wf_def str_text_def)
  show thesis
    by (rule string_init2_cases [OF l, of w]) (use that s in \<open>auto simp: string_copy_def\<close>)
qed

lemma string_copy_plenty [simp]: "str_wf s \<Longrightarrow> cmem w = [] \<Longrightarrow> string_copy s w = Done (Some s, w)"
  by (erule string_copy_cases [of s w]) auto

lemma string_concat_plenty [simp]:
  assumes "cmem w = []"
  shows "string_concat (mk_str a) (mk_str b) w = Done (Some (mk_str (a @ b)), w)"
proof -
  have "memcpy_at (replicate (length a + length b) NUL) 0 (a @ [NUL]) (length a) = Done (a @ replicate (length b) NUL)"
    by (simp add: memcpy_at_def blit_def)
  moreover have "memcpy_at (a @ replicate (length b) NUL) (length a) (b @ [NUL]) (length b) = Done (a @ b)"
    by (simp add: memcpy_at_def blit_def)
  ultimately show ?thesis using assms by (simp add: string_concat_def)
qed

lemma concat_with_sep_plenty [simp]:
  assumes "cmem w = []"
  shows "concat_with_sep (mk_str a) (mk_str b) c w = Done (Some (mk_str (a @ c # b)), w)"
proof -
  have "memcpy_at (replicate (Suc (length a + length b)) NUL) 0 (a @ [NUL]) (length a) = Done (a @ replicate (Suc (length b)) NUL)"
    by (simp add: memcpy_at_def blit_def del: replicate_Suc)
  moreover have "memcpy_at (a @ replicate (Suc (length b)) NUL) (length a) [c] 1 = Done (a @ c # replicate (length b) NUL)"
    by (simp add: memcpy_at_def blit_def)
  moreover have "memcpy_at (a @ c # replicate (length b) NUL) (length a + 1) (b @ [NUL]) (length b) = Done (a @ c # b)"
    by (simp add: memcpy_at_def blit_def)
  ultimately show ?thesis using assms by (simp add: concat_with_sep_def)
qed

end
