(* ===== verification/Bounded_Fifo.thy ===== *)
theory Bounded_Fifo
  imports Smtp_Prelude "HOL-Library.Sublist"
begin

text \<open>
  The contract of a bounded first-in first-out queue whose insertions may fail: a relation
  to the list of stored values and the laws of the two operations. Clients of a queue rely
  on the derived facts: values come out in the order they went in, and exactly those that
  were accepted.
\<close>

locale bounded_fifo =
  fixes rep :: "'q \<Rightarrow> 'v list \<Rightarrow> bool"
    and push :: "'v \<Rightarrow> 'q \<Rightarrow> (bool \<times> 'q) run"
    and pop :: "'q \<Rightarrow> ('v option \<times> 'q) run"
    and cap :: nat
    and valid :: "'v \<Rightarrow> bool"
  assumes push_law: "rep q vs \<Longrightarrow> valid v \<Longrightarrow> \<exists>ok q'. push v q = Done (ok, q') \<and> rep q' (if ok then vs @ [v] else vs)
        \<and> (ok \<longrightarrow> length vs < cap)"
    and pop_law: "rep q (v # vs) \<Longrightarrow> \<exists>q'. pop q = Done (Some v, q') \<and> rep q' vs"
begin

text \<open>Push a list of values, keeping those that were accepted; take out \<open>n\<close> values.\<close>

fun push_list :: "'v list \<Rightarrow> 'q \<Rightarrow> ('v list \<times> 'q) run" where
  "push_list [] q = Done ([], q)"
| "push_list (v # vs) q = rbind (push v q) (\<lambda>(ok, q'). rbind (push_list vs q')
     (\<lambda>(acc, q''). Done (if ok then v # acc else acc, q'')))"

fun drain :: "nat \<Rightarrow> 'q \<Rightarrow> ('v list \<times> 'q) run" where
  "drain 0 q = Done ([], q)"
| "drain (Suc n) q = rbind (pop q) (\<lambda>(v, q'). rbind (drain n q')
     (\<lambda>(vs, q''). Done (case v of Some x \<Rightarrow> x # vs | None \<Rightarrow> vs, q'')))"

lemma push_list_law:
  "rep q vs \<Longrightarrow> \<forall>v \<in> set xs. valid v \<Longrightarrow>
     \<exists>acc q'. push_list xs q = Done (acc, q') \<and> rep q' (vs @ acc) \<and> subseq acc xs"
proof (induction xs arbitrary: q vs)
  case (Cons v xs)
  from push_law [OF Cons.prems(1), of v] Cons.prems(2) obtain ok q1 where
    1: "push v q = Done (ok, q1)" "rep q1 (if ok then vs @ [v] else vs)" by auto
  from Cons.IH [OF 1(2)] Cons.prems(2) obtain acc q2 where
    2: "push_list xs q1 = Done (acc, q2)" "rep q2 ((if ok then vs @ [v] else vs) @ acc)" "subseq acc xs" by auto
  show ?case
    using 1(1) 2 by (cases ok) (auto simp: subseq_Cons2)
qed simp

lemma drain_law: "rep q vs \<Longrightarrow> \<exists>q'. drain (length vs) q = Done (vs, q') \<and> rep q' []"
proof (induction vs arbitrary: q)
  case (Cons v vs)
  from pop_law [OF Cons.prems] obtain q1 where "pop q = Done (Some v, q1)" "rep q1 vs" by blast
  with Cons.IH [of q1] show ?case by auto
qed simp

text \<open>What goes in comes out, in order, after what was there before.\<close>

lemma fifo:
  assumes "rep q vs" "\<forall>v \<in> set xs. valid v"
  shows "\<exists>acc q' q''. push_list xs q = Done (acc, q') \<and> subseq acc xs
    \<and> drain (length vs + length acc) q' = Done (vs @ acc, q'') \<and> rep q'' []"
proof -
  from push_list_law [OF assms] obtain acc q' where
    "push_list xs q = Done (acc, q')" "rep q' (vs @ acc)" "subseq acc xs" by blast
  with drain_law [of q' "vs @ acc"] show ?thesis by auto
qed

end

end
