(* ===== verification/Client_Queue.thy ===== *)
theory Client_Queue
  imports Client_Base Bounded_Fifo
begin

text \<open>
  The queue of the client, \<^verbatim>\<open>client/src/queue.c\<close>: values are copied in with the copy
  constructor of their type, the front can be looked at in place, and it is removed with its
  destructor. The chain of nodes is a list here; the recorded size is kept beside it, so
  that the assertions and the branches on the size are those of the source. A node is
  requested with the size of a pointer, half of what is written to it: whether that
  overflows the block depends on how much the allocator really hands out.
\<close>

section \<open>Operations\<close>

record 'v cqueue =
  qitems :: "'v list"
  qlen :: nat
  qmax :: nat

type_synonym 'v copy_constr = "'v \<Rightarrow> cworld \<Rightarrow> ('v option \<times> cworld) run"

definition CQUEUE_DEFAULT_MAX_SIZE :: nat where "CQUEUE_DEFAULT_MAX_SIZE = 10000"

definition cqueue_init :: "cworld \<Rightarrow> 'v cqueue option \<times> cworld" where
  "cqueue_init w =
     (let (ok, w1) = cmalloc w in
      if \<not> ok then (None, send_log ''queue_init'' w1)
      else (Some \<lparr>qitems = [], qlen = 0, qmax = CQUEUE_DEFAULT_MAX_SIZE\<rparr>, w1))"

definition cqueue_clear :: "'v cqueue \<Rightarrow> unit run" where
  "cqueue_clear q = (if qlen q = length (qitems q) then Done () else Fault Assert_Failed)"

definition cqueue_push_back :: "'v copy_constr \<Rightarrow> 'v cqueue \<Rightarrow> 'v \<Rightarrow> cworld \<Rightarrow> (cerror \<times> 'v cqueue \<times> cworld) run" where
  "cqueue_push_back cp q v w =
     (if qlen q = qmax q then Done (QUEUE_OVERFLOW, q, send_log ''queue_push_back'' w)
      else let (ok, w1) = cmalloc w in
      if \<not> ok then Done (MEMORY_ERROR, q, send_log ''queue_push_back'' w1)
      else rbind (cp v w1) (\<lambda>(v', w2).
        case v' of None \<Rightarrow> Done (MEMORY_ERROR, q, w2)
        | Some x \<Rightarrow> if usable w2 8 < 16 then Fault Out_Of_Bounds
                    else Done (SUCCESS, q\<lparr>qitems := qitems q @ [x], qlen := qlen q + 1\<rparr>, w2)))"

fun push_items :: "'v copy_constr \<Rightarrow> 'v cqueue \<Rightarrow> 'v list \<Rightarrow> cworld \<Rightarrow> (cerror \<times> 'v cqueue \<times> cworld) run" where
  "push_items cp q [] w = Done (SUCCESS, q, w)"
| "push_items cp q (v # vs) w = rbind (cqueue_push_back cp q v w)
     (\<lambda>(e, q1, w1). if e \<noteq> SUCCESS then Done (e, q1, w1) else push_items cp q1 vs w1)"

definition cqueue_push_all :: "'v copy_constr \<Rightarrow> 'v cqueue \<Rightarrow> 'v cqueue \<Rightarrow> cworld \<Rightarrow> (cerror \<times> 'v cqueue \<times> cworld) run" where
  "cqueue_push_all cp dst src w = push_items cp dst (qitems src) w"

definition cqueue_pop_front :: "'v cqueue \<Rightarrow> (cerror \<times> 'v cqueue) run" where
  "cqueue_pop_front q =
     (if qlen q = 0 then Fault Assert_Failed
      else case qitems q of [] \<Rightarrow> Fault Null_Deref
        | _ # vs \<Rightarrow> Done (SUCCESS, q\<lparr>qitems := if qlen q - 1 \<noteq> 0 then vs else [], qlen := qlen q - 1\<rparr>))"

definition cqueue_peek :: "'v cqueue \<Rightarrow> 'v option run" where
  "cqueue_peek q =
     (if qlen q = 0 then Done None
      else case qitems q of [] \<Rightarrow> Fault Null_Deref | v # _ \<Rightarrow> Done (Some v))"

definition cqueue_is_empty :: "'v cqueue \<Rightarrow> bool" where
  "cqueue_is_empty q \<longleftrightarrow> qlen q = 0"

text \<open>Changing the front in place through the pointer \<^verbatim>\<open>queue_peek\<close> returns.\<close>

definition cqueue_set_front :: "'v \<Rightarrow> 'v cqueue \<Rightarrow> 'v cqueue" where
  "cqueue_set_front v q = q\<lparr>qitems := v # tl (qitems q)\<rparr>"

section \<open>Correctness\<close>

definition cq_wf :: "'v cqueue \<Rightarrow> bool" where
  "cq_wf q \<longleftrightarrow> qlen q = length (qitems q) \<and> qlen q \<le> qmax q"

text \<open>A copy constructor is sound on a value when it returns an equal value or none, and one with enough memory.\<close>

definition copies :: "'v copy_constr \<Rightarrow> 'v \<Rightarrow> bool" where
  "copies cp v \<longleftrightarrow> (\<forall>w. \<exists>w'. (cp v w = Done (Some v, w') \<or> cp v w = Done (None, w') \<and> cmem w \<noteq> []) \<and> usable w' = usable w
     \<and> (cmem w = [] \<longrightarrow> w' = w))"

lemma copies_string [simp]: "str_wf s \<Longrightarrow> copies string_copy s"
  unfolding copies_def by (auto elim!: string_copy_cases)

lemma copies_plenty: "copies cp v \<Longrightarrow> cmem w = [] \<Longrightarrow> cp v w = Done (Some v, w)"
  unfolding copies_def by (metis)

lemma cqueue_push_back_ok:
  assumes wf: "cq_wf q" and cp: "copies cp v" and u: "16 \<le> usable w 8"
  shows "\<exists>e q' w'. cqueue_push_back cp q v w = Done (e, q', w') \<and> cq_wf q' \<and> qmax q' = qmax q \<and> usable w' = usable w
    \<and> qitems q' = (if e = SUCCESS then qitems q @ [v] else qitems q) \<and> (e = SUCCESS \<longrightarrow> length (qitems q) < qmax q)
    \<and> (cmem w = [] \<and> qlen q < qmax q \<longrightarrow> e = SUCCESS \<and> w' = w)"
proof -
  obtain ok w1 where m: "cmalloc w = (ok, w1)" by force
  have u1: "usable w1 = usable w" using cmalloc_usable [OF m] .
  obtain w2 where w2: "cp v w1 = Done (Some v, w2) \<or> cp v w1 = Done (None, w2) \<and> cmem w1 \<noteq> []" "usable w2 = usable w1"
    "cmem w1 = [] \<longrightarrow> w2 = w1" using cp unfolding copies_def by blast
  show ?thesis
  proof (cases "qlen q = qmax q \<or> \<not> ok")
    case True
    with wf m u1 show ?thesis by (auto simp: cqueue_push_back_def)
  next
    case room: False
    show ?thesis
    proof (cases "cp v w1 = Done (Some v, w2)")
      case True
      then have "cqueue_push_back cp q v w = Done (SUCCESS, q\<lparr>qitems := qitems q @ [v], qlen := qlen q + 1\<rparr>, w2)"
        using room m u u1 w2(2) by (simp add: cqueue_push_back_def)
      moreover have "cmem w = [] \<Longrightarrow> w2 = w" using m w2(3) by simp
      ultimately show ?thesis using wf room u1 w2(2) by (auto simp: cq_wf_def)
    next
      case False
      with w2(1) have "cp v w1 = Done (None, w2)" "cmem w1 \<noteq> []" by auto
      then have "cqueue_push_back cp q v w = Done (MEMORY_ERROR, q, w2)" "cmem w \<noteq> []"
        using room m by (auto simp: cqueue_push_back_def)
      then show ?thesis using wf u1 w2(2) by auto
    qed
  qed
qed

lemma cqueue_push_back_good:
  assumes "cq_wf q" "str_wf v" "good_world w"
  obtains e q' w' where "cqueue_push_back string_copy q v w = Done (e, q', w')" "cq_wf q'" "good_world w'" "qmax q' = qmax q"
    "qitems q' = qitems q \<or> qitems q' = qitems q @ [v]"
proof (cases "qlen q = qmax q")
  case True
  show thesis by (rule that [of QUEUE_OVERFLOW q "send_log ''queue_push_back'' w"]) (use True assms in \<open>simp_all add: cqueue_push_back_def\<close>)
next
  case False
  show thesis
    by (rule that [of SUCCESS "q\<lparr>qitems := qitems q @ [v], qlen := qlen q + 1\<rparr>" w])
      (use False assms in \<open>simp_all add: cqueue_push_back_def cq_wf_def\<close>)
qed

lemma push_items_good:
  "cq_wf q \<Longrightarrow> \<forall>v \<in> set vs. str_wf v \<Longrightarrow> good_world w \<Longrightarrow> \<exists>e q' w'. push_items string_copy q vs w = Done (e, q', w')
     \<and> cq_wf q' \<and> good_world w' \<and> qmax q' = qmax q \<and> set (qitems q') \<subseteq> set (qitems q) \<union> set vs"
proof (induction vs arbitrary: q w)
  case (Cons v vs)
  have v: "str_wf v" "\<forall>v \<in> set vs. str_wf v" using Cons.prems(2) by auto
  obtain e q' w' where p: "cqueue_push_back string_copy q v w = Done (e, q', w')"
    "cq_wf q'" "good_world w'" "qmax q' = qmax q" "qitems q' = qitems q \<or> qitems q' = qitems q @ [v]"
    using cqueue_push_back_good [OF Cons.prems(1) v(1) Cons.prems(3)] by metis
  have s: "set (qitems q') \<subseteq> set (qitems q) \<union> set (v # vs)" using p(5) by auto
  show ?case
  proof (cases "e = SUCCESS")
    case False
    with p s show ?thesis by simp
  next
    case True
    from Cons.IH [OF p(2) v(2) p(3)] obtain e2 q2 w2 where "push_items string_copy q' vs w' = Done (e2, q2, w2)" "cq_wf q2" "good_world w2"
      "qmax q2 = qmax q'" "set (qitems q2) \<subseteq> set (qitems q') \<union> set vs" by blast
    moreover from this(5) s have "set (qitems q2) \<subseteq> set (qitems q) \<union> set (v # vs)" by auto
    ultimately show ?thesis using True p by simp
  qed
qed simp

lemma push_items_plenty:
  "cq_wf q \<Longrightarrow> \<forall>v \<in> set vs. copies cp v \<Longrightarrow> 16 \<le> usable w 8 \<Longrightarrow> cmem w = [] \<Longrightarrow> qlen q + length vs \<le> qmax q \<Longrightarrow>
     push_items cp q vs w = Done (SUCCESS, q\<lparr>qitems := qitems q @ vs, qlen := qlen q + length vs\<rparr>, w)"
proof (induction vs arbitrary: q)
  case (Cons v vs)
  have "cqueue_push_back cp q v w = Done (SUCCESS, q\<lparr>qitems := qitems q @ [v], qlen := qlen q + 1\<rparr>, w)"
    using Cons.prems copies_plenty [of cp v w] by (auto simp: cqueue_push_back_def)
  with Cons.IH [of "q\<lparr>qitems := qitems q @ [v], qlen := qlen q + 1\<rparr>"] Cons.prems show ?case
    by (simp add: cq_wf_def)
qed simp

lemma cqueue_pop_front_ok:
  "cq_wf q \<Longrightarrow> qitems q = v # vs \<Longrightarrow> cqueue_pop_front q = Done (SUCCESS, q\<lparr>qitems := vs, qlen := qlen q - 1\<rparr>)
     \<and> cq_wf (q\<lparr>qitems := vs, qlen := qlen q - 1\<rparr>)"
  by (auto simp: cq_wf_def cqueue_pop_front_def)

lemma cqueue_peek_ok: "cq_wf q \<Longrightarrow> cqueue_peek q = Done (case qitems q of [] \<Rightarrow> None | v # _ \<Rightarrow> Some v)"
  by (auto simp: cq_wf_def cqueue_peek_def split: list.splits)

lemma cqueue_is_empty_iff: "cq_wf q \<Longrightarrow> cqueue_is_empty q \<longleftrightarrow> qitems q = []"
  by (simp add: cq_wf_def cqueue_is_empty_def)

section \<open>A bounded FIFO\<close>

text \<open>
  With an allocator whose blocks have at least 16 bytes, the queue of strings (commands,
  replies, log records, file names) is a bounded FIFO.
\<close>

definition cq_rep :: "string_t cqueue \<times> cworld \<Rightarrow> string_t list \<Rightarrow> bool" where
  "cq_rep qw vs \<longleftrightarrow> cq_wf (fst qw) \<and> qitems (fst qw) = vs \<and> qmax (fst qw) = CQUEUE_DEFAULT_MAX_SIZE \<and> 16 \<le> usable (snd qw) 8
     \<and> (\<forall>v \<in> set vs. str_wf v)"

definition cq_push :: "string_t \<Rightarrow> string_t cqueue \<times> cworld \<Rightarrow> (bool \<times> string_t cqueue \<times> cworld) run" where
  "cq_push v qw = rbind (cqueue_push_back string_copy (fst qw) v (snd qw)) (\<lambda>(e, q, w). Done (e = SUCCESS, q, w))"

definition cq_pop :: "string_t cqueue \<times> cworld \<Rightarrow> (string_t option \<times> string_t cqueue \<times> cworld) run" where
  "cq_pop qw = rbind (cqueue_peek (fst qw)) (\<lambda>v. rbind (cqueue_pop_front (fst qw)) (\<lambda>(_, q). Done (v, q, snd qw)))"

interpretation cq: bounded_fifo cq_rep cq_push cq_pop CQUEUE_DEFAULT_MAX_SIZE str_wf
proof unfold_locales
  fix qw vs and v :: string_t
  assume rep: "cq_rep qw vs" and v: "str_wf v"
  have "cq_wf (fst qw)" "16 \<le> usable (snd qw) 8" using rep by (simp_all add: cq_rep_def)
  from cqueue_push_back_ok [OF this(1) copies_string [OF v] this(2)] obtain e q' w' where
    "cqueue_push_back string_copy (fst qw) v (snd qw) = Done (e, q', w')" "cq_wf q'" "qmax q' = qmax (fst qw)"
    "usable w' = usable (snd qw)" "qitems q' = (if e = SUCCESS then qitems (fst qw) @ [v] else qitems (fst qw))"
    "e = SUCCESS \<longrightarrow> length (qitems (fst qw)) < qmax (fst qw)" by blast
  with rep v show "\<exists>ok q'. cq_push v qw = Done (ok, q') \<and> cq_rep q' (if ok then vs @ [v] else vs)
      \<and> (ok \<longrightarrow> length vs < CQUEUE_DEFAULT_MAX_SIZE)"
    by (auto simp: cq_push_def cq_rep_def)
next
  fix qw v vs
  assume rep: "cq_rep qw (v # vs)"
  then have wf: "cq_wf (fst qw)" "qitems (fst qw) = v # vs" by (auto simp: cq_rep_def)
  with cqueue_pop_front_ok [OF wf] rep show "\<exists>q'. cq_pop qw = Done (Some v, q') \<and> cq_rep q' vs"
    by (auto simp: cq_pop_def cq_rep_def cqueue_peek_ok)
qed

text \<open>
  A node of the client's queue is requested with the size of a pointer: when the
  allocator hands out no more than the 8 bytes requested, storing any value writes past the
  block.
\<close>

theorem cqueue_node_too_small:
  assumes "cq_wf q" and "qlen q < qmax q" and "copies cp v" and "cmem w = []" and "usable w 8 < 16"
  shows "cqueue_push_back cp q v w = Fault Out_Of_Bounds"
  using assms copies_plenty [of cp v w] by (simp add: cqueue_push_back_def)

definition exact_world :: cworld where
  "exact_world = \<lparr>cmem = [], usable = (\<lambda>n. n), cclock = [], clogs = []\<rparr>"

theorem cqueue_node_too_small_witness:
  "cqueue_push_back string_copy \<lparr>qitems = [], qlen = 0, qmax = 10000\<rparr> (mk_str ''QUIT'') exact_world = Fault Out_Of_Bounds"
  by (rule cqueue_node_too_small) (simp_all add: exact_world_def cq_wf_def)

end
