(* ===== verification/Client_Peer.thy ===== *)
theory Client_Peer
  imports Client_Queue
begin

text \<open>
  The low-level connection of the client, \<^verbatim>\<open>client/src/peer.c\<close>, used for sockets and for the
  pipes between the processes: strings to be sent wait in a queue and are moved through a
  fixed buffer of 1024 bytes; received bytes collect in another buffer and are cut into
  messages at an end marker.
\<close>

section \<open>The peer\<close>

definition MAX_BUFFER_SIZE :: nat where "MAX_BUFFER_SIZE = 1024"
definition FDT_SOCKET :: char where "FDT_SOCKET = CHR ''0''"
definition FDT_PIPE :: char where "FDT_PIPE = CHR ''1''"

definition known_type :: "char \<Rightarrow> bool" where
  "known_type ty \<longleftrightarrow> ty = FDT_SOCKET \<or> ty = FDT_PIPE"

declare known_type_def [simp]

record peer_t =
  pfd :: int
  ptype :: char
  messages_in :: "string_t cqueue"
  message_in_begin :: nat
  buffer_in :: string
  buffer_in_size :: nat
  messages_out :: "string_t cqueue"
  buffer_out :: string
  buffer_out_size :: nat

text \<open>\<open>raw\<close> is the content of the two arrays of the new block.\<close>

definition peer_init :: "string \<times> string \<Rightarrow> int \<Rightarrow> char \<Rightarrow> cworld \<Rightarrow> peer_t option \<times> cworld" where
  "peer_init raw d ty w =
     (let (ok, w1) = cmalloc w in
      if \<not> ok then (None, send_log ''peer_init'' w1)
      else case cqueue_init w1 of (None, w2) \<Rightarrow> (None, w2)
      | (Some qi, w2) \<Rightarrow> (case cqueue_init w2 of (None, w3) \<Rightarrow> (None, w3)
        | (Some qo, w3) \<Rightarrow> (Some \<lparr>pfd = d, ptype = ty, messages_in = qi, message_in_begin = 0, buffer_in = fst raw, buffer_in_size = 0,
             messages_out = qo, buffer_out = snd raw, buffer_out_size = 0\<rparr>, w3)))"

text \<open>A copy of a peer shares neither queue with it; the contents of the two buffers are not copied.\<close>

definition peer_copy :: "string \<times> string \<Rightarrow> peer_t \<Rightarrow> cworld \<Rightarrow> (peer_t option \<times> cworld) run" where
  "peer_copy raw other w =
     (let (ok, w1) = cmalloc w in
      if \<not> ok then Done (None, send_log ''peer_copy'' w1)
      else case cqueue_init w1 of (None, w2) \<Rightarrow> Done (None, w2)
      | (Some qi, w2) \<Rightarrow> rbind (cqueue_push_all string_copy qi (messages_in other) w2) (\<lambda>(e, qi', w3).
        if e \<noteq> SUCCESS then Done (None, w3)
        else case cqueue_init w3 of (None, w4) \<Rightarrow> Done (None, w4)
        | (Some qo, w4) \<Rightarrow> rbind (cqueue_push_all string_copy qo (messages_out other) w4) (\<lambda>(e2, qo', w5).
          if e2 \<noteq> SUCCESS then Done (None, w5)
          else Done (Some \<lparr>pfd = pfd other, ptype = ptype other, messages_in = qi', message_in_begin = message_in_begin other,
             buffer_in = fst raw, buffer_in_size = buffer_in_size other, messages_out = qo', buffer_out = snd raw,
             buffer_out_size = buffer_out_size other\<rparr>, w5))))"

definition peer_clear :: "peer_t \<Rightarrow> unit run" where
  "peer_clear p = rbind (cqueue_clear (messages_in p)) (\<lambda>_. cqueue_clear (messages_out p))"

section \<open>Cutting the input into messages\<close>

text \<open>
  The loop of \<^verbatim>\<open>parse_buffer\<close> at index \<open>i\<close>: \<open>j\<close> bytes of the marker have been matched, the
  current message begins at \<open>b\<close>, \<open>parsed\<close> bytes belong to complete messages. A NUL behind a
  marker is skipped. A string that cannot be allocated is dereferenced by the queue.
\<close>

function parse_loop :: "string \<Rightarrow> nat \<Rightarrow> string \<Rightarrow> nat \<Rightarrow> nat \<Rightarrow> nat \<Rightarrow> nat \<Rightarrow> string_t cqueue \<Rightarrow> cworld
    \<Rightarrow> (string_t cqueue \<times> nat \<times> cworld) run" where
  "parse_loop buf n marker i j b parsed q w =
     (if n \<le> i then Done (q, parsed, w)
      else if length buf \<le> i then Fault Out_Of_Bounds
      else let j' = (if buf ! i = (marker @ [NUL]) ! j then j + 1 else 0) in
      if j' = length marker
      then rbind (string_init2 (drop b buf) (i + 1 - length marker - b) w) (\<lambda>(m, w1).
        case m of None \<Rightarrow> Fault Null_Deref
        | Some s \<Rightarrow> rbind (cqueue_push_back string_copy q s w1) (\<lambda>(_, q1, w2).
            if i + 1 < n \<and> buf ! (i + 1) = NUL
            then parse_loop buf n marker (i + 1) 0 (i + 2) (i + 2) q1 w2
            else parse_loop buf n marker (i + 1) 0 (i + 1) (i + 1) q1 w2))
      else parse_loop buf n marker (i + 1) j' b parsed q w)"
  by pat_completeness auto
termination
  by (relation "measure (\<lambda>(buf, n, marker, i, j, b, parsed, q, w). n - i)") auto

declare parse_loop.simps [simp del]

definition parse_buffer :: "string \<Rightarrow> nat \<Rightarrow> string \<Rightarrow> cworld \<Rightarrow> (string_t cqueue option \<times> nat \<times> cworld) run" where
  "parse_buffer buf n marker w =
     (case cqueue_init w of (None, w1) \<Rightarrow> Done (None, 0, w1)
      | (Some q, w1) \<Rightarrow> rbind (parse_loop buf n marker 0 0 0 0 q w1) (\<lambda>(q', parsed, w2). Done (Some q', parsed, w2)))"

definition reduce_buffer :: "string \<Rightarrow> nat \<Rightarrow> nat \<Rightarrow> string \<times> nat" where
  "reduce_buffer buf n reduced = (blit buf 0 (take (n - reduced) (drop reduced buf)), n - reduced)"

definition fill_messages_out :: "peer_t \<Rightarrow> string \<Rightarrow> cworld \<Rightarrow> (cerror \<times> peer_t \<times> cworld) run" where
  "fill_messages_out p marker w =
     (if buffer_out_size p = 0 then Done (SUCCESS, p, w)
      else rbind (parse_buffer (buffer_out p) (buffer_out_size p) marker w) (\<lambda>(nm, parsed, w1).
        rbind (case nm of None \<Rightarrow> Done (MEMORY_ERROR, messages_out p, w1)
               | Some new \<Rightarrow> rbind (cqueue_push_all string_copy (messages_out p) new w1)
                    (\<lambda>(e, q, w2). rbind (cqueue_clear new) (\<lambda>_. Done (e, q, w2)))) (\<lambda>(ret, q, w2).
          let (buf, n) = reduce_buffer (buffer_out p) (buffer_out_size p) parsed in
          Done (ret, p\<lparr>messages_out := q, buffer_out := buf, buffer_out_size := n\<rparr>, w2))))"

text \<open>
  \<^verbatim>\<open>recv\<close> or \<^verbatim>\<open>read\<close>: the bytes of a successful call (none at the end of the stream) or \<open>None\<close>
  for an error; for another type of descriptor the result is never set.
\<close>

definition peer_receive :: "string option \<Rightarrow> peer_t \<Rightarrow> cworld \<Rightarrow> (cerror \<times> peer_t \<times> cworld) run" where
  "peer_receive rx p w =
     (let room = MAX_BUFFER_SIZE - buffer_out_size p in
      if room = 0 then Done (RECV_BUFFER_OVERFLOW, p, send_log ''peer_receive'' w)
      else if ptype p \<noteq> FDT_SOCKET \<and> ptype p \<noteq> FDT_PIPE then Fault Uninit_Read
      else case rx of None \<Rightarrow> Done (RECV_ERROR, p\<lparr>pfd := -1\<rparr>, w)
      | Some d \<Rightarrow> let got = take room d in
          Done (SUCCESS, p\<lparr>buffer_out := blit (buffer_out p) (buffer_out_size p) got,
                          buffer_out_size := buffer_out_size p + length got\<rparr>, w))"

section \<open>Sending\<close>

definition add_message :: "peer_t \<Rightarrow> string_t \<Rightarrow> string option \<Rightarrow> cworld \<Rightarrow> (cerror \<times> peer_t \<times> cworld) run" where
  "add_message p message marker w =
     (case marker of
        None \<Rightarrow> rbind (cqueue_push_back string_copy (messages_in p) message w) (\<lambda>(e, q, w1). Done (e, p\<lparr>messages_in := q\<rparr>, w1))
      | Some mk \<Rightarrow> rbind (string_init2 (as_array mk) (length mk) w) (\<lambda>(ms, w1).
          case ms of None \<Rightarrow> Done (MEMORY_ERROR, p, w1)
          | Some mstr \<Rightarrow> rbind (string_concat message mstr w1) (\<lambda>(full, w2).
              case full of None \<Rightarrow> Fault Dangling
              | Some s \<Rightarrow> rbind (cqueue_push_back string_copy (messages_in p) s w2) (\<lambda>(e, q, w3). Done (e, p\<lparr>messages_in := q\<rparr>, w3)))))"

definition add_data_to_buffer_in :: "peer_t \<Rightarrow> string \<Rightarrow> nat \<Rightarrow> peer_t run" where
  "add_data_to_buffer_in p src n =
     rbind (memcpy_at (buffer_in p) (buffer_in_size p) src n)
       (\<lambda>b. Done (p\<lparr>buffer_in := b, buffer_in_size := buffer_in_size p + n\<rparr>))"

text \<open>
  The amount copied is limited by the size of the buffer, not by the room left in it. (The
  difference is of type \<^verbatim>\<open>size_t\<close>: a beginning behind the end would wrap to a huge value.)
\<close>

definition reduce_messages_in :: "peer_t \<Rightarrow> string_t \<Rightarrow> peer_t run" where
  "reduce_messages_in p message =
     (let available = (if message_in_begin p \<le> str_size message then min MAX_BUFFER_SIZE (str_size message - message_in_begin p)
                       else MAX_BUFFER_SIZE) in
      rbind (add_data_to_buffer_in p (drop (message_in_begin p) (str_data message)) available) (\<lambda>p1.
        let p2 = p1\<lparr>message_in_begin := message_in_begin p1 + available\<rparr> in
        if message_in_begin p2 = str_size message
        then rbind (cqueue_pop_front (messages_in p2)) (\<lambda>(_, q). Done (p2\<lparr>messages_in := q, message_in_begin := 0\<rparr>))
        else Done p2))"

lemma reduce_messages_in_progress:
  assumes "cqueue_peek (messages_in p) = Done (Some m)" "reduce_messages_in p m = Done p'"
  shows "length (qitems (messages_in p')) < length (qitems (messages_in p))
    \<or> qitems (messages_in p') = qitems (messages_in p) \<and> length (buffer_in p') - buffer_in_size p' < length (buffer_in p) - buffer_in_size p"
proof -
  define a where "a = (if message_in_begin p \<le> str_size m then min MAX_BUFFER_SIZE (str_size m - message_in_begin p) else MAX_BUFFER_SIZE)"
  obtain p1 where p1: "add_data_to_buffer_in p (drop (message_in_begin p) (str_data m)) a = Done p1"
    and r: "(if message_in_begin p1 + a = str_size m
        then rbind (cqueue_pop_front (messages_in p1)) (\<lambda>(_, q). Done (p1\<lparr>message_in_begin := message_in_begin p1 + a, messages_in := q, message_in_begin := 0\<rparr>))
        else Done (p1\<lparr>message_in_begin := message_in_begin p1 + a\<rparr>)) = Done p'"
    using assms(2) unfolding reduce_messages_in_def a_def [symmetric] Let_def
    by (auto simp: rbind_Done_iff split: if_splits)
  have f: "messages_in p1 = messages_in p" "message_in_begin p1 = message_in_begin p" "buffer_in_size p1 = buffer_in_size p + a"
    "length (buffer_in p1) = length (buffer_in p)" "buffer_in_size p + a \<le> length (buffer_in p)"
    using p1 by (auto simp: add_data_to_buffer_in_def memcpy_at_def rbind_Done_iff split: if_splits)
  show ?thesis
  proof (cases "message_in_begin p + a = str_size m")
    case True
    then show ?thesis
      using r f by (auto simp: rbind_Done_iff cqueue_pop_front_def split: if_splits list.splits)
  next
    case False
    then have "0 < a" by (auto simp: a_def MAX_BUFFER_SIZE_def split: if_splits)
    with False r f show ?thesis by auto
  qed
qed

function fill_buffer_in :: "peer_t \<Rightarrow> peer_t run" where
  "fill_buffer_in p =
     (if buffer_in_size p = MAX_BUFFER_SIZE then Done p
      else rbind (cqueue_peek (messages_in p)) (\<lambda>m.
        case m of None \<Rightarrow> Done p | Some msg \<Rightarrow> rbind (reduce_messages_in p msg) fill_buffer_in))"
  by pat_completeness auto
termination
  by (relation "measures [\<lambda>p. length (qitems (messages_in p)), \<lambda>p. length (buffer_in p) - buffer_in_size p]")
    (auto dest: reduce_messages_in_progress)

declare fill_buffer_in.simps [simp del]

text \<open>\<open>sent\<close> is the result of \<^verbatim>\<open>send\<close> or \<^verbatim>\<open>write\<close>: the number of bytes accepted, or \<open>None\<close> for an error. The bytes that left are returned.\<close>

definition peer_send :: "nat option \<Rightarrow> peer_t \<Rightarrow> (cerror \<times> peer_t \<times> string) run" where
  "peer_send sent p =
     rbind (fill_buffer_in p) (\<lambda>p1.
       if ptype p1 \<noteq> FDT_SOCKET \<and> ptype p1 \<noteq> FDT_PIPE then Fault Uninit_Read
       else case sent of None \<Rightarrow> Done (SEND_ERROR, p1\<lparr>pfd := -1\<rparr>, [])
       | Some k0 \<Rightarrow> let k = min k0 (buffer_in_size p1); (buf, n) = reduce_buffer (buffer_in p1) (buffer_in_size p1) k in
           Done (SUCCESS, p1\<lparr>buffer_in := buf, buffer_in_size := n\<rparr>, take k (buffer_in p1)))"

section \<open>Nothing to be sent is lost, repeated or reordered\<close>

fun begin_ok :: "nat \<Rightarrow> string_t list \<Rightarrow> bool" where
  "begin_ok b [] \<longleftrightarrow> b = 0"
| "begin_ok b (m # _) \<longleftrightarrow> b \<le> str_size m"

lemma begin_ok_0 [simp]: "begin_ok 0 ms"
  by (cases ms) auto

definition peer_wf :: "peer_t \<Rightarrow> bool" where
  "peer_wf p \<longleftrightarrow> length (buffer_in p) = MAX_BUFFER_SIZE \<and> buffer_in_size p \<le> MAX_BUFFER_SIZE
     \<and> length (buffer_out p) = MAX_BUFFER_SIZE \<and> buffer_out_size p \<le> MAX_BUFFER_SIZE
     \<and> cq_wf (messages_in p) \<and> cq_wf (messages_out p) \<and> (\<forall>s \<in> set (qitems (messages_in p)). str_wf s)
     \<and> (\<forall>s \<in> set (qitems (messages_out p)). str_wf s)
     \<and> begin_ok (message_in_begin p) (qitems (messages_in p))"

text \<open>The bytes still to be sent: the buffer, the rest of the first string and the other strings.\<close>

definition pending :: "peer_t \<Rightarrow> string" where
  "pending p = take (buffer_in_size p) (buffer_in p) @ drop (message_in_begin p) (concat (map str_text (qitems (messages_in p))))"

lemma length_str_text [simp]: "str_wf s \<Longrightarrow> length (str_text s) = str_size s"
  by (simp add: str_wf_def str_text_def)

lemma reduce_messages_in_pending:
  assumes wf: "peer_wf p" and q: "qitems (messages_in p) = m # ms" and r: "reduce_messages_in p m = Done p'"
  shows "peer_wf p' \<and> pending p' = pending p \<and> ptype p' = ptype p \<and> pfd p' = pfd p"
proof -
  define a where "a = min MAX_BUFFER_SIZE (str_size m - message_in_begin p)"
  have m: "str_wf m" "message_in_begin p \<le> str_size m" "cq_wf (messages_in p)" using wf q by (auto simp: peer_wf_def)
  define src where "src = take a (drop (message_in_begin p) (str_data m))"
  have la: "length src = a" using m(1,2) by (simp add: src_def a_def str_wf_def)
  have src: "src = take a (drop (message_in_begin p) (str_text m))"
    using m(1,2) by (simp add: src_def str_text_def a_def drop_take min_def)
  define p1 where "p1 = p\<lparr>buffer_in := blit (buffer_in p) (buffer_in_size p) src, buffer_in_size := buffer_in_size p + a\<rparr>"
  have fits: "buffer_in_size p + a \<le> MAX_BUFFER_SIZE" and
    p': "p' = (if message_in_begin p + a = str_size m
       then p1\<lparr>messages_in := (messages_in p)\<lparr>qitems := ms, qlen := qlen (messages_in p) - 1\<rparr>, message_in_begin := 0\<rparr>
       else p1\<lparr>message_in_begin := message_in_begin p + a\<rparr>)"
    using r wf m(2) cqueue_pop_front_ok [OF m(3) q]
    by (auto simp: reduce_messages_in_def add_data_to_buffer_in_def memcpy_at_def rbind_Done_iff Let_def p1_def src_def
        peer_wf_def a_def [symmetric] split: if_splits)
  have b: "take (buffer_in_size p + a) (blit (buffer_in p) (buffer_in_size p) src) = take (buffer_in_size p) (buffer_in p) @ src"
    using take_blit [of "buffer_in_size p" src "buffer_in p"] fits wf la by (simp add: peer_wf_def)
  have lb: "length (blit (buffer_in p) (buffer_in_size p) src) = MAX_BUFFER_SIZE"
    using fits wf la by (simp add: peer_wf_def)
  show ?thesis
  proof (cases "message_in_begin p + a = str_size m")
    case True
    then have "src = drop (message_in_begin p) (str_text m)" using src m(1) by (simp add: a_def)
    with True have "pending p' = pending p" using p' q b m by (simp add: pending_def p1_def)
    moreover have "peer_wf p'" using True p' wf fits lb cqueue_pop_front_ok [OF m(3) q] q
      by (auto simp: peer_wf_def p1_def)
    ultimately show ?thesis using True p' by (simp add: p1_def)
  next
    case False
    have "message_in_begin p + a \<le> str_size m" using m(2) by (simp add: a_def)
    then have e: "drop (message_in_begin p) (str_text m) = src @ drop (message_in_begin p + a) (str_text m)"
      unfolding src by (metis add.commute append_take_drop_id drop_drop)
    have "pending p' = pending p"
      using p' False q b e m \<open>message_in_begin p + a \<le> str_size m\<close> by (simp add: pending_def p1_def)
    moreover have "peer_wf p'" using False p' wf fits lb q \<open>message_in_begin p + a \<le> str_size m\<close> by (simp add: peer_wf_def p1_def)
    ultimately show ?thesis using False p' by (simp add: p1_def)
  qed
qed

lemma fill_buffer_in_pending:
  "peer_wf p \<Longrightarrow> fill_buffer_in p = Done p' \<Longrightarrow> peer_wf p' \<and> pending p' = pending p \<and> ptype p' = ptype p \<and> pfd p' = pfd p"
proof (induction p arbitrary: p' rule: fill_buffer_in.induct)
  case (1 p)
  show ?case
  proof (cases "buffer_in_size p = MAX_BUFFER_SIZE \<or> qitems (messages_in p) = []")
    case True
    then have "p' = p" using "1.prems" cqueue_peek_ok [of "messages_in p"]
      by (auto simp: fill_buffer_in.simps [of p] peer_wf_def split: if_splits)
    with "1.prems" show ?thesis by simp
  next
    case False
    then obtain m ms where q: "qitems (messages_in p) = m # ms" by (cases "qitems (messages_in p)") auto
    have pk: "cqueue_peek (messages_in p) = Done (Some m)"
      using cqueue_peek_ok [of "messages_in p"] "1.prems"(1) q by (simp add: peer_wf_def)
    from "1.prems"(2) False pk obtain p1 where p1: "reduce_messages_in p m = Done p1" "fill_buffer_in p1 = Done p'"
      by (subst (asm) fill_buffer_in.simps) (auto simp: rbind_Done_iff)
    from reduce_messages_in_pending [OF "1.prems"(1) q p1(1)] "1.IH" [OF _ pk refl p1(1) _ p1(2)] False show ?thesis by auto
  qed
qed

lemma peer_send_keeps:
  assumes "peer_wf p" and "peer_send sent p = Done (e, p', out)"
  shows "peer_wf p' \<and> out @ pending p' = pending p \<and> ptype p' = ptype p"
proof -
  obtain p1 where p1: "fill_buffer_in p = Done p1" using assms(2) by (auto simp: peer_send_def rbind_Done_iff)
  note k = fill_buffer_in_pending [OF assms(1) p1]
  show ?thesis
  proof (cases sent)
    case None
    with assms(2) p1 k show ?thesis by (auto simp: peer_send_def peer_wf_def pending_def split: if_splits)
  next
    case (Some k0)
    define n where "n = min k0 (buffer_in_size p1)"
    let ?b = "blit (buffer_in p1) 0 (take (buffer_in_size p1 - n) (drop n (buffer_in p1)))"
    have r: "p' = p1\<lparr>buffer_in := ?b, buffer_in_size := buffer_in_size p1 - n\<rparr>" "out = take n (buffer_in p1)"
      using assms(2) p1 Some by (auto simp: peer_send_def reduce_buffer_def Let_def n_def split: if_splits)
    have l: "buffer_in_size p1 \<le> length (buffer_in p1)" "n \<le> buffer_in_size p1" using k by (simp_all add: peer_wf_def n_def)
    then have "take (buffer_in_size p1 - n) ?b = take (buffer_in_size p1 - n) (drop n (buffer_in p1))"
      by (simp add: blit_def)
    then have "out @ pending p' = pending p1"
      using r l append_take_drop_id [of n "take (buffer_in_size p1) (buffer_in p1)"] by (simp add: pending_def drop_take min_def)
    moreover have "peer_wf p'" using k r l by (auto simp: peer_wf_def blit_def)
    ultimately show ?thesis using k r(1) by simp
  qed
qed

section \<open>Framing\<close>

text \<open>
  What the search for the mark does with a text: it counts the matched bytes, starts again
  from zero at the first byte that differs (and does not look at this byte again), and has
  found the mark when all its bytes are matched, which is \<open>None\<close> here.
\<close>

fun scan :: "string \<Rightarrow> nat \<Rightarrow> string \<Rightarrow> nat option" where
  "scan mk j [] = Some j"
| "scan mk j (c # x) = (let j' = if c = mk ! j then j + 1 else 0 in if j' = length mk then None else scan mk j' x)"

text \<open>
  A line can be framed by a marker when the search through it finds no mark and is back at
  zero at its end, and it does not begin with NUL. A text is not cut when the search finds no mark.
\<close>

definition frames :: "string \<Rightarrow> string \<Rightarrow> bool" where
  "frames mk x \<longleftrightarrow> scan mk 0 x = Some 0 \<and> (x \<noteq> [] \<longrightarrow> hd x \<noteq> NUL)"

definition uncut :: "string \<Rightarrow> string \<Rightarrow> bool" where
  "uncut mk x \<longleftrightarrow> scan mk 0 x \<noteq> None \<and> (x \<noteq> [] \<longrightarrow> hd x \<noteq> NUL)"

abbreviation framed :: "string \<Rightarrow> string list \<Rightarrow> string" where
  "framed mk xs \<equiv> concat (map (\<lambda>x. x @ mk) xs)"

lemma scan_append: "scan mk j (x @ y) = Option.bind (scan mk j x) (\<lambda>k. scan mk k y)"
  by (induction x arbitrary: j) (auto simp: Let_def)

lemma scan_less: "scan mk j x = Some k \<Longrightarrow> j < length mk \<Longrightarrow> k < length mk"
  by (induction x arbitrary: j) (auto simp: Let_def split: if_splits)

lemma scan_mark: "mk = m0 @ m1 @ m2 \<Longrightarrow> m2 \<noteq> [] \<Longrightarrow> scan mk (length m0) m1 = Some (length m0 + length m1)"
proof (induction m1 arbitrary: m0)
  case (Cons c m1)
  then have "mk ! length m0 = c" "Suc (length m0) \<noteq> length mk" by (simp_all add: nth_append)
  with Cons.IH [of "m0 @ [c]"] Cons.prems show ?case by simp
qed simp

lemma scan_whole_mark:
  assumes "mk \<noteq> []"
  shows "scan mk 0 (butlast mk) = Some (length mk - 1)" "scan mk 0 mk = None"
proof -
  show b: "scan mk 0 (butlast mk) = Some (length mk - 1)"
    using scan_mark [of mk "[]" "butlast mk" "[last mk]"] assms by simp
  have "scan mk 0 (butlast mk @ [last mk]) = None"
    unfolding scan_append b using assms by (simp add: last_conv_nth)
  then show "scan mk 0 mk = None" using assms by simp
qed

text \<open>A part of a framed line is not cut, and the whole line is.\<close>

lemma frames_cut: "frames mk x \<Longrightarrow> mk \<noteq> [] \<Longrightarrow> scan mk 0 (x @ mk @ r) = None"
  by (simp add: frames_def scan_append scan_whole_mark)

lemma frames_uncut:
  assumes "frames mk z" "strict_prefix part (z @ mk)" "mk \<noteq> []" "NUL \<notin> set mk"
  shows "uncut mk part"
proof -
  obtain r where r: "z @ mk = part @ r" "r \<noteq> []" using assms(2) by (auto simp: strict_prefix_def prefix_def)
  have "z @ butlast mk = butlast (z @ mk)" using assms(3) by (simp add: butlast_append)
  also have "\<dots> = part @ butlast r" unfolding r(1) using r(2) by (simp add: butlast_append)
  finally have "scan mk 0 (part @ butlast r) = Some (length mk - 1)"
    using assms(1) scan_whole_mark(1) [OF assms(3)] by (metis frames_def scan_append bind.bind_lunit)
  then have "scan mk 0 part \<noteq> None" unfolding scan_append by (cases "scan mk 0 part") auto
  moreover have "hd part \<noteq> NUL" if "part \<noteq> []"
  proof -
    have "hd part = hd (z @ mk)" using that r(1) by simp
    moreover have "hd mk \<noteq> NUL" using assms(3,4) by (cases mk) auto
    ultimately show ?thesis using assms(1) by (cases "z = []") (auto simp: frames_def)
  qed
  ultimately show ?thesis by (simp add: uncut_def)
qed

text \<open>Every text is cut in exactly one way.\<close>

lemma scan_state: "scan mk 0 u = Some j \<Longrightarrow> mk \<noteq> [] \<Longrightarrow> \<exists>x. u = x @ take j mk \<and> scan mk 0 x = Some 0"
proof (induction u arbitrary: j rule: rev_induct)
  case (snoc c u)
  then obtain i where i: "scan mk 0 u = Some i" "scan mk i [c] = Some j" by (auto simp: scan_append bind_eq_Some_conv)
  have "i < length mk" using scan_less [OF i(1)] snoc.prems(2) by simp
  show ?case
  proof (cases "c = mk ! i")
    case True
    obtain x where "u = x @ take i mk" "scan mk 0 x = Some 0" using snoc.IH [OF i(1) snoc.prems(2)] by blast
    with True i(2) \<open>i < length mk\<close> show ?thesis
      by (intro exI [of _ x]) (auto simp: take_Suc_conv_app_nth Let_def split: if_splits)
  next
    case False
    then have "j = 0" using i(2) snoc.prems(2) by (auto simp: Let_def split: if_splits)
    with snoc.prems(1) show ?thesis by (intro exI [of _ "u @ [c]"]) simp
  qed
qed simp

lemma scan_first:
  assumes "scan mk 0 s = None" "mk \<noteq> []"
  shows "\<exists>x r. s = x @ mk @ r \<and> scan mk 0 x = Some 0"
proof -
  have "\<exists>u c r j. s = u @ c # r \<and> scan mk k u = Some j \<and> c = mk ! j \<and> Suc j = length mk" if "scan mk k s = None" for k
    using that
  proof (induction s arbitrary: k)
    case (Cons c s)
    show ?case
    proof (cases "(if c = mk ! k then k + 1 else 0) = length mk")
      case True
      with assms(2) have "c = mk ! k" "Suc k = length mk" by (auto split: if_splits)
      then show ?thesis by (intro exI [of _ "[]"]) auto
    next
      case False
      with Cons.prems have "scan mk (if c = mk ! k then k + 1 else 0) s = None" by (simp add: Let_def)
      from Cons.IH [OF this] obtain u d r j where
        "s = u @ d # r" "scan mk (if c = mk ! k then k + 1 else 0) u = Some j" "d = mk ! j" "Suc j = length mk" by blast
      with False show ?thesis by (intro exI [of _ "c # u"]) (auto simp: Let_def)
    qed
  qed simp
  from this [OF assms(1)] obtain u c r j where u: "s = u @ c # r" "scan mk 0 u = Some j" "c = mk ! j" "Suc j = length mk" by blast
  obtain x where x: "u = x @ take j mk" "scan mk 0 x = Some 0" using scan_state [OF u(2) assms(2)] by blast
  have "take j mk @ [c] = mk" using u(3,4) by (metis lessI order_refl take_Suc_conv_app_nth take_all)
  then have "s = x @ mk @ r" using u(1) x(1) by (metis append.assoc append_Cons append_Nil)
  with x(2) show ?thesis by blast
qed

lemma cut_exists:
  assumes "mk \<noteq> []" "NUL \<notin> set s"
  shows "\<exists>ys part. s = framed mk ys @ part \<and> (\<forall>y \<in> set ys. frames mk y) \<and> uncut mk part"
  using assms(2)
proof (induction s rule: length_induct)
  case (1 s)
  show ?case
  proof (cases "scan mk 0 s")
    case None
    from scan_first [OF this assms(1)] obtain x r where x: "s = x @ mk @ r" "scan mk 0 x = Some 0" by blast
    moreover have "NUL \<notin> set r" "length r < length s" using x(1) 1(2) assms(1) by simp_all
    ultimately obtain ys part where "r = framed mk ys @ part" "\<forall>y \<in> set ys. frames mk y" "uncut mk part" using 1(1) by blast
    moreover have "frames mk x" using x 1(2) by (cases x) (auto simp: frames_def)
    ultimately show ?thesis using x(1) by (intro exI [of _ "x # ys"] exI [of _ part]) simp
  next
    case (Some k)
    then have "uncut mk s" using 1(2) by (cases s) (auto simp: uncut_def simp del: scan.simps)
    then show ?thesis by (intro exI [of _ "[]"] exI [of _ s]) simp
  qed
qed

lemma framed_heads:
  assumes "x @ mk @ r = y @ mk @ t" "frames mk x" "frames mk y" "mk \<noteq> []" "NUL \<notin> set mk"
  shows "\<not> length x < length y"
proof
  assume l: "length x < length y"
  have "prefix (x @ mk) (x @ mk @ r)" "prefix (y @ mk) (x @ mk @ r)" unfolding assms(1) by (metis append.assoc prefixI assms(1))+
  then have "prefix (x @ mk) (y @ mk)" by (rule prefix_length_prefix) (use l in simp)
  with l have "strict_prefix (x @ mk) (y @ mk)" by (auto simp: strict_prefix_def)
  from frames_uncut [OF assms(3) this assms(4,5)] frames_cut [OF assms(2,4), of "[]"] show False by (simp add: uncut_def)
qed

lemma cut_unique:
  assumes "mk \<noteq> []" "NUL \<notin> set mk"
  shows "framed mk rs @ r = framed mk ys @ part \<Longrightarrow> \<forall>x \<in> set rs. frames mk x \<Longrightarrow> \<forall>y \<in> set ys. frames mk y
    \<Longrightarrow> uncut mk r \<Longrightarrow> uncut mk part \<Longrightarrow> rs = ys \<and> r = part"
proof (induction rs arbitrary: ys)
  case Nil
  show ?case
  proof (cases ys)
    case (Cons y ys')
    then have "scan mk 0 r = None" using Nil frames_cut [of mk y "framed mk ys' @ part"] assms(1) by simp
    with Nil.prems(4) show ?thesis by (simp add: uncut_def)
  qed (use Nil in simp)
next
  case (Cons x rs)
  show ?case
  proof (cases ys)
    case Nil
    then have "scan mk 0 part = None" using Cons.prems frames_cut [of mk x "framed mk rs @ r"] assms(1) by simp
    with Cons.prems(5) show ?thesis by (simp add: uncut_def)
  next
    case (Cons y ys')
    have e: "x @ mk @ framed mk rs @ r = y @ mk @ framed mk ys' @ part" using Cons.prems(1) Cons by simp
    have "length x = length y"
      using framed_heads [OF e _ _ assms] framed_heads [OF e [symmetric] _ _ assms] Cons.prems(2,3) Cons by fastforce
    with e have "x = y" "framed mk rs @ r = framed mk ys' @ part" by auto
    with Cons.IH [of ys'] Cons.prems Cons show ?thesis by simp
  qed
qed

text \<open>The loop follows the search.\<close>

lemma parse_scan:
  "buf = pre @ x @ post \<Longrightarrow> scan mk j x = Some k \<Longrightarrow> j < length mk \<Longrightarrow> length pre + length x \<le> n \<Longrightarrow>
     parse_loop buf n mk (length pre) j b p q w = parse_loop buf n mk (length pre + length x) k b p q w"
proof (induction x arbitrary: pre j)
  case (Cons c x)
  let ?j = "if c = mk ! j then j + 1 else 0"
  have j: "?j \<noteq> length mk" "scan mk ?j x = Some k" using Cons.prems(2) by (auto simp: Let_def split: if_splits)
  have l: "(mk @ [NUL]) ! j = mk ! j" "buf ! length pre = c" using Cons.prems(1,3) by (simp_all add: nth_append)
  have "parse_loop buf n mk (length pre) j b p q w = parse_loop buf n mk (length (pre @ [c])) ?j b p q w"
    using Cons.prems j(1) l by (subst parse_loop.simps) (simp add: Let_def)
  also have "\<dots> = parse_loop buf n mk (length (pre @ [c]) + length x) k b p q w"
    using Cons.prems j by (intro Cons.IH) (auto split: if_splits)
  finally show ?case by simp
qed simp

lemma parse_skip:
  "buf = pre @ x @ post \<Longrightarrow> mk \<noteq> [] \<Longrightarrow> hd mk \<notin> set x \<Longrightarrow> length pre + length x \<le> n \<Longrightarrow>
     parse_loop buf n mk (length pre) 0 b p q w = parse_loop buf n mk (length pre + length x) 0 b p q w"
proof (induction x arbitrary: pre)
  case (Cons c x)
  have c: "(mk @ [NUL]) ! 0 = hd mk" "length mk \<noteq> 0" using Cons.prems(2) by (simp_all add: nth_append hd_conv_nth)
  have "parse_loop buf n mk (length pre) 0 b p q w = parse_loop buf n mk (length (pre @ [c])) 0 b p q w"
    using Cons.prems c by (subst parse_loop.simps) auto
  also have "\<dots> = parse_loop buf n mk (length (pre @ [c]) + length x) 0 b p q w"
    using Cons.prems by (intro Cons.IH) auto
  finally show ?case by simp
qed simp

text \<open>What happens behind a complete marker that ends before position \<open>e\<close>.\<close>

definition emit :: "string \<Rightarrow> nat \<Rightarrow> string \<Rightarrow> nat \<Rightarrow> nat \<Rightarrow> string_t cqueue \<Rightarrow> cworld \<Rightarrow> (string_t cqueue \<times> nat \<times> cworld) run" where
  "emit buf n mk e b q w =
     rbind (string_init2 (drop b buf) (e - length mk - b) w) (\<lambda>(m, w1).
        case m of None \<Rightarrow> Fault Null_Deref
        | Some s \<Rightarrow> rbind (cqueue_push_back string_copy q s w1) (\<lambda>(_, q1, w2).
            if e < n \<and> buf ! e = NUL then parse_loop buf n mk e 0 (e + 1) (e + 1) q1 w2
            else parse_loop buf n mk e 0 e e q1 w2))"

lemma parse_hit:
  assumes "i < n" "i < length buf" "buf ! i = (mk @ [NUL]) ! j" "j + 1 = length mk"
  shows "parse_loop buf n mk i j b p q w = emit buf n mk (i + 1) b q w"
  using assms unfolding parse_loop.simps [of buf n mk i] emit_def add.assoc one_add_one by simp

lemma parse_match:
  "buf = pre @ m2 @ post \<Longrightarrow> mk = m1 @ m2 \<Longrightarrow> m2 \<noteq> [] \<Longrightarrow> length pre + length m2 \<le> n \<Longrightarrow>
     parse_loop buf n mk (length pre) (length m1) b p q w = emit buf n mk (length pre + length m2) b q w"
proof (induction m2 arbitrary: pre m1)
  case (Cons c m2)
  have c: "(mk @ [NUL]) ! length m1 = c" "buf ! length pre = c" using Cons.prems by (simp_all add: nth_append)
  have l: "length pre < n" "length pre < length buf" using Cons.prems by auto
  show ?case
  proof (cases "m2 = []")
    case True
    then show ?thesis
      using c l Cons.prems parse_hit [of "length pre" n buf mk "length m1"] by simp
  next
    case False
    have "parse_loop buf n mk (length pre) (length m1) b p q w = parse_loop buf n mk (length (pre @ [c])) (length (m1 @ [c])) b p q w"
      using c l Cons.prems False by (subst parse_loop.simps) simp
    also have "\<dots> = emit buf n mk (length (pre @ [c]) + length m2) b q w"
      using Cons.prems False by (intro Cons.IH) auto
    finally show ?thesis by simp
  qed
qed simp

lemma parse_lines:
  assumes "mk \<noteq> []" "NUL \<notin> set mk" "\<forall>x \<in> set xs. frames mk x"
    "uncut mk part"
    "buf = pre @ framed mk xs @ part @ post" "n = length pre + length (framed mk xs) + length part"
    "cq_wf q" "qlen q + length xs \<le> qmax q" "cmem w = []" "16 \<le> usable w 8" "xs \<noteq> [] \<or> p = length pre"
  shows "parse_loop buf n mk (length pre) 0 (length pre) p q w
    = Done (q\<lparr>qitems := qitems q @ map mk_str xs, qlen := qlen q + length xs\<rparr>, length pre + length (framed mk xs), w)"
  using assms(3,5-11)
proof (induction xs arbitrary: pre q p)
  case Nil
  obtain k where "scan mk 0 part = Some k" using assms(4) by (auto simp: uncut_def)
  then have "parse_loop buf n mk (length pre) 0 (length pre) p q w = parse_loop buf n mk (length pre + length part) k (length pre) p q w"
    using parse_scan [of buf pre part post mk 0 k n "length pre" p q w] Nil assms(1) by simp
  also have "\<dots> = Done (q, p, w)" using Nil by (subst parse_loop.simps) simp
  finally show ?case using Nil by simp
next
  case (Cons x xs)
  let ?pre = "pre @ x @ mk" and ?e = "length pre + length x + length mk"
  let ?q = "q\<lparr>qitems := qitems q @ [mk_str x], qlen := qlen q + 1\<rparr>"
  have x: "scan mk 0 x = Some 0" using Cons.prems(1) by (simp add: frames_def)
  have buf: "buf = ?pre @ framed mk xs @ part @ post" using Cons.prems(2) by simp
  have n: "n = length ?pre + length (framed mk xs) + length part" using Cons.prems(3) by simp
  have "parse_loop buf n mk (length pre) 0 (length pre) p q w = parse_loop buf n mk (length (pre @ x)) 0 (length pre) p q w"
    using parse_scan [of buf pre x "mk @ framed mk xs @ part @ post" mk 0 0 n "length pre" p q w] x Cons.prems(2,3) assms(1) by simp
  also have "\<dots> = emit buf n mk ?e (length pre) q w"
    using parse_match [of buf "pre @ x" mk "framed mk xs @ part @ post" mk "[]" n "length pre" p q w] Cons.prems(2,3) assms(1)
    by (simp add: add.assoc)
  also have "\<dots> = parse_loop buf n mk (length ?pre) 0 (length ?pre) (length ?pre) ?q w"
  proof -
    have "string_init2 (drop (length pre) buf) (?e - length mk - length pre) w = Done (Some (mk_str x), w)"
      using Cons.prems(2,6) by simp
    moreover have "cqueue_push_back string_copy q (mk_str x) w = Done (SUCCESS, ?q, w)"
      using push_items_plenty [of q "[mk_str x]" string_copy w] Cons.prems(4-7)
      by (auto simp: rbind_Done_iff split: if_splits)
    moreover have "\<not> (?e < n \<and> buf ! ?e = NUL)"
    proof (rule notI, elim conjE)
      assume e: "?e < n" "buf ! ?e = NUL"
      define rest where "rest = framed mk xs @ part"
      have r: "rest \<noteq> []" "hd rest = NUL"
      proof -
        show "rest \<noteq> []" using e(1) n by (auto simp: rest_def)
        moreover have "buf ! ?e = (rest @ post) ! 0"
          using buf nth_append_length_plus [of ?pre "rest @ post" 0] by (simp add: rest_def add.assoc)
        ultimately show "hd rest = NUL" using e(2) by (simp add: nth_append hd_conv_nth)
      qed
      have hm: "hd mk \<noteq> NUL" using assms(1,2) by (cases mk) auto
      show False
      proof (cases xs)
        case (Cons y ys)
        have "hd rest = hd (y @ mk)" using Cons assms(1) by (cases y) (auto simp: rest_def)
        with r(2) \<open>xs = y # ys\<close> Cons.prems(1) hm show False
          using \<open>\<forall>x\<in>set (x # xs). frames mk x\<close> by (cases "y = []") (auto simp: frames_def)
      next
        case Nil
        with r have p: "part \<noteq> []" "hd part = NUL" by (auto simp: rest_def)
        with assms(4) show False by (simp add: uncut_def)
      qed
    qed
    ultimately show ?thesis unfolding emit_def by (auto simp: add.assoc)
  qed
  also have "\<dots> = Done (?q\<lparr>qitems := qitems ?q @ map mk_str xs, qlen := qlen ?q + length xs\<rparr>, length ?pre + length (framed mk xs), w)"
    using Cons.prems buf n by (intro Cons.IH) (auto simp: cq_wf_def)
  finally show ?case by (simp add: add.assoc)
qed

text \<open>A prefix of framed lines is some complete lines and a part of the next one.\<close>

lemma framed_prefix:
  "mk \<noteq> [] \<Longrightarrow> t @ r = framed mk xs \<Longrightarrow>
     \<exists>ys zs part. xs = ys @ zs \<and> t = framed mk ys @ part \<and> (part = [] \<or> (\<exists>z zs'. zs = z # zs' \<and> strict_prefix part (z @ mk)))"
proof (induction xs arbitrary: t)
  case (Cons x xs)
  show ?case
  proof (cases "strict_prefix t (x @ mk)")
    case True
    then show ?thesis by (intro exI [of _ "[]"] exI [of _ "x # xs"] exI [of _ t]) auto
  next
    case False
    have "t @ r = (x @ mk) @ framed mk xs" using Cons.prems(2) by simp
    with False obtain u where u: "t = (x @ mk) @ u" "u @ r = framed mk xs"
      by (auto simp: append_eq_append_conv2 strict_prefix_def prefix_def)
    from Cons.IH [OF Cons.prems(1) u(2)] obtain ys zs part where
      "xs = ys @ zs" "u = framed mk ys @ part" "part = [] \<or> (\<exists>z zs'. zs = z # zs' \<and> strict_prefix part (z @ mk))" by blast
    with u show ?thesis by (intro exI [of _ "x # ys"] exI [of _ zs] exI [of _ part]) auto
  qed
qed simp

lemma length_framed: "mk \<noteq> [] \<Longrightarrow> length xs \<le> length (framed mk xs)"
proof (induction xs)
  case (Cons x xs)
  then have "1 \<le> length mk" by (simp add: Suc_le_eq)
  with Cons show ?case by simp
qed simp

text \<open>Cutting the filled part of the input buffer: the complete lines are queued, the rest moves to the front.\<close>

lemma fill_messages_out_lines:
  assumes mk: "mk \<noteq> []" "NUL \<notin> set mk" "\<forall>x \<in> set ys. frames mk x" "uncut mk part"
    and p: "peer_wf p" "take (buffer_out_size p) (buffer_out p) = framed mk ys @ part" "qlen (messages_out p) + length ys \<le> qmax (messages_out p)"
    and w: "cmem w = []" "16 \<le> usable w 8"
  shows "\<exists>buf. fill_messages_out p mk w = Done (SUCCESS, p\<lparr>messages_out := (messages_out p)\<lparr>qitems := qitems (messages_out p) @ map mk_str ys,
      qlen := qlen (messages_out p) + length ys\<rparr>, buffer_out := buf, buffer_out_size := length part\<rparr>, w)
    \<and> length buf = MAX_BUFFER_SIZE \<and> take (length part) buf = part"
proof (cases "buffer_out_size p = 0")
  case True
  with p have "ys = []" "part = []" using mk(1) by auto
  with True p show ?thesis by (intro exI [of _ "buffer_out p"]) (simp add: fill_messages_out_def peer_wf_def)
next
  case False
  let ?b = "buffer_out p" and ?n = "buffer_out_size p"
  let ?q = "\<lparr>qitems = map mk_str ys, qlen = length ys, qmax = CQUEUE_DEFAULT_MAX_SIZE\<rparr> :: string_t cqueue"
  have n: "?n \<le> MAX_BUFFER_SIZE" "length ?b = MAX_BUFFER_SIZE" using p(1) by (simp_all add: peer_wf_def)
  have l: "?n = length (framed mk ys) + length part" using n arg_cong [OF p(2), of length] by simp
  have split: "?b = [] @ framed mk ys @ part @ drop ?n ?b" using append_take_drop_id [of ?n ?b] p(2) by simp
  have "length ys \<le> CQUEUE_DEFAULT_MAX_SIZE"
    using length_framed [OF mk(1), of ys] n(1) l by (simp add: CQUEUE_DEFAULT_MAX_SIZE_def MAX_BUFFER_SIZE_def)
  then have "parse_loop ?b ?n mk 0 0 0 0 \<lparr>qitems = [], qlen = 0, qmax = CQUEUE_DEFAULT_MAX_SIZE\<rparr> w = Done (?q, length (framed mk ys), w)"
    using parse_lines [OF mk split, of ?n "\<lparr>qitems = [], qlen = 0, qmax = CQUEUE_DEFAULT_MAX_SIZE\<rparr>" w 0] l w
    by (simp add: cq_wf_def)
  then have pb: "parse_buffer ?b ?n mk w = Done (Some ?q, length (framed mk ys), w)"
    using w(1) by (simp add: parse_buffer_def cqueue_init_def)
  have pa: "cqueue_push_all string_copy (messages_out p) ?q w = Done (SUCCESS, (messages_out p)\<lparr>qitems := qitems (messages_out p) @ map mk_str ys,
      qlen := qlen (messages_out p) + length ys\<rparr>, w)"
    using push_items_plenty [of "messages_out p" "map mk_str ys" string_copy w] p(1,3) w
    by (simp add: cqueue_push_all_def peer_wf_def)
  have r: "take (?n - length (framed mk ys)) (drop (length (framed mk ys)) ?b) = part"
    using l by (subst split) simp
  have rb: "reduce_buffer ?b ?n (length (framed mk ys)) = (blit ?b 0 part, length part)"
    unfolding reduce_buffer_def r using l by simp
  have "length part \<le> MAX_BUFFER_SIZE" using l n(1) by simp
  then have "length (blit ?b 0 part) = MAX_BUFFER_SIZE" "take (length part) (blit ?b 0 part) = part"
    using n(2) by (simp_all add: blit_def)
  then show ?thesis
    using False pb pa rb by (intro exI [of _ "blit ?b 0 part"]) (simp add: fill_messages_out_def cqueue_clear_def)
qed

text \<open>
  A byte stream read in pieces: each round takes what \<^verbatim>\<open>recv\<close> returns, at most the given
  number of bytes and at most the free part of the buffer, and then cuts the buffer.
\<close>

fun feed :: "string \<Rightarrow> nat list \<Rightarrow> string \<Rightarrow> peer_t \<Rightarrow> cworld \<Rightarrow> (string \<times> peer_t \<times> cworld) run" where
  "feed mk [] s p w = Done (s, p, w)"
| "feed mk (k # ks) s p w =
     (let d = take (min k (MAX_BUFFER_SIZE - buffer_out_size p)) s in
      rbind (peer_receive (Some d) p w) (\<lambda>(_, p1, w1). rbind (fill_messages_out p1 mk w1) (\<lambda>(_, p2, w2).
        feed mk ks (drop (length d) s) p2 w2)))"

text \<open>
  The relation between a peer and the stream it reads: what it has not cut yet and what is
  still to come are the remaining lines, and the uncut part is a part of the first of them.
\<close>

definition reading :: "string \<Rightarrow> string list \<Rightarrow> string \<Rightarrow> peer_t \<Rightarrow> bool" where
  "reading mk zs s p \<longleftrightarrow> peer_wf p \<and> known_type (ptype p) \<and> take (buffer_out_size p) (buffer_out p) @ s = framed mk zs
     \<and> (buffer_out_size p = 0 \<or> (\<exists>z zs'. zs = z # zs' \<and> strict_prefix (take (buffer_out_size p) (buffer_out p)) (z @ mk)))"

definition can_frame :: "string \<Rightarrow> string list \<Rightarrow> bool" where
  "can_frame mk xs \<longleftrightarrow> mk \<noteq> [] \<and> NUL \<notin> set mk \<and> (\<forall>x \<in> set xs. frames mk x \<and> length x + length mk \<le> MAX_BUFFER_SIZE)"

lemma reading_room:
  assumes "reading mk zs s p" "can_frame mk zs"
  shows "buffer_out_size p < MAX_BUFFER_SIZE"
proof (cases "buffer_out_size p = 0")
  case False
  then obtain z zs' where z: "zs = z # zs'" "strict_prefix (take (buffer_out_size p) (buffer_out p)) (z @ mk)"
    using assms(1) by (auto simp: reading_def)
  have "length (take (buffer_out_size p) (buffer_out p)) = buffer_out_size p" using assms(1) by (simp add: reading_def peer_wf_def)
  with prefix_length_less [OF z(2)] z(1) assms(2) show ?thesis by (auto simp: can_frame_def)
qed (simp add: MAX_BUFFER_SIZE_def)

lemma reading_step:
  assumes rd: "reading mk zs s p" and ok: "can_frame mk zs" and w: "cmem w = []" "16 \<le> usable w 8"
    and room: "qlen (messages_out p) + length zs \<le> qmax (messages_out p)" and d: "s = d @ s'" "buffer_out_size p + length d \<le> MAX_BUFFER_SIZE"
  shows "\<exists>ys zs' p1 p2. zs = ys @ zs' \<and> peer_receive (Some d) p w = Done (SUCCESS, p1, w) \<and> fill_messages_out p1 mk w = Done (SUCCESS, p2, w)
    \<and> reading mk zs' s' p2 \<and> messages_out p2 = (messages_out p)\<lparr>qitems := qitems (messages_out p) @ map mk_str ys, qlen := qlen (messages_out p) + length ys\<rparr>"
proof -
  let ?part = "take (buffer_out_size p) (buffer_out p)"
  have wf: "peer_wf p" and ty: "known_type (ptype p)" and eq: "(?part @ d) @ s' = framed mk zs"
    using rd d(1) by (simp_all add: reading_def)
  have mk: "mk \<noteq> []" "NUL \<notin> set mk" "\<forall>x \<in> set zs. frames mk x" using ok by (simp_all add: can_frame_def)
  obtain ys zs' part where sp: "zs = ys @ zs'" "?part @ d = framed mk ys @ part"
    "part = [] \<or> (\<exists>z zs''. zs' = z # zs'' \<and> strict_prefix part (z @ mk))"
    using framed_prefix [OF mk(1) eq] by blast
  define p1 where "p1 = p\<lparr>buffer_out := blit (buffer_out p) (buffer_out_size p) d, buffer_out_size := buffer_out_size p + length d\<rparr>"
  have rc: "peer_receive (Some d) p w = Done (SUCCESS, p1, w)"
    using reading_room [OF rd ok] ty d(2) by (simp add: peer_receive_def p1_def Let_def)
  have wf1: "peer_wf p1" using wf d(2) by (simp add: peer_wf_def p1_def)
  have t1: "take (buffer_out_size p1) (buffer_out p1) = framed mk ys @ part"
    using take_blit [of "buffer_out_size p" d "buffer_out p"] wf d(2) sp(2) by (simp add: p1_def peer_wf_def)
  have m: "\<forall>x \<in> set ys. frames mk x" "uncut mk part" "qlen (messages_out p1) + length ys \<le> qmax (messages_out p1)"
    using sp mk room frames_uncut [of mk _ part] by (auto simp: p1_def uncut_def)
  obtain buf where f: "fill_messages_out p1 mk w = Done (SUCCESS, p1\<lparr>messages_out := (messages_out p1)\<lparr>qitems := qitems (messages_out p1) @ map mk_str ys,
      qlen := qlen (messages_out p1) + length ys\<rparr>, buffer_out := buf, buffer_out_size := length part\<rparr>, w)"
    "length buf = MAX_BUFFER_SIZE" "take (length part) buf = part"
    using fill_messages_out_lines [OF mk(1,2) m(1,2) wf1 t1 m(3) w] by blast
  have lp: "length part \<le> MAX_BUFFER_SIZE" using arg_cong [OF f(3), of length] f(2) by simp
  have e': "part @ s' = framed mk zs'" using eq sp(1,2) by simp
  define p2 where "p2 = p1\<lparr>messages_out := (messages_out p1)\<lparr>qitems := qitems (messages_out p1) @ map mk_str ys,
      qlen := qlen (messages_out p1) + length ys\<rparr>, buffer_out := buf, buffer_out_size := length part\<rparr>"
  have "peer_wf p2" using wf1 f(2) lp room sp(1) by (auto simp: peer_wf_def p2_def p1_def cq_wf_def)
  moreover have "known_type (ptype p2)" "buffer_out_size p2 = length part" "take (buffer_out_size p2) (buffer_out p2) = part"
    using ty f(3) by (simp_all add: p2_def p1_def)
  ultimately have "reading mk zs' s' p2" using e' sp(3) by (auto simp: reading_def)
  moreover have "fill_messages_out p1 mk w = Done (SUCCESS, p2, w)" using f(1) by (simp add: p2_def)
  moreover have "messages_out p2 = (messages_out p)\<lparr>qitems := qitems (messages_out p) @ map mk_str ys, qlen := qlen (messages_out p) + length ys\<rparr>"
    by (simp add: p2_def p1_def)
  ultimately show ?thesis using sp(1) rc by blast
qed

lemma feed_lines:
  "reading mk zs s p \<Longrightarrow> can_frame mk zs \<Longrightarrow> cmem w = [] \<Longrightarrow> 16 \<le> usable w 8 \<Longrightarrow>
     qlen (messages_out p) + length zs \<le> qmax (messages_out p) \<Longrightarrow> \<forall>k \<in> set ks. 0 < k \<Longrightarrow> length s \<le> length ks \<Longrightarrow>
     \<exists>p'. feed mk ks s p w = Done ([], p', w) \<and> buffer_out_size p' = 0 \<and> qitems (messages_out p') = qitems (messages_out p) @ map mk_str zs"
proof (induction ks arbitrary: zs s p)
  case Nil
  then have f: "take (buffer_out_size p) (buffer_out p) = framed mk zs" "buffer_out_size p \<le> length (buffer_out p)" "mk \<noteq> []"
    by (auto simp: reading_def can_frame_def peer_wf_def)
  have "zs = []"
  proof (rule ccontr)
    assume "zs \<noteq> []"
    then obtain z zs' where z: "zs = z # zs'" by (cases zs) auto
    then have "buffer_out_size p \<noteq> 0" using f(1,3) by (cases "buffer_out_size p = 0") auto
    with Nil.prems(1) z have "strict_prefix (framed mk zs) (z @ mk)" using f(1) by (auto simp: reading_def)
    from prefix_length_less [OF this] z show False by simp
  qed
  with f have "buffer_out_size p = 0" by auto
  with \<open>zs = []\<close> Nil show ?case by simp
next
  case (Cons k ks)
  define d where "d = take (min k (MAX_BUFFER_SIZE - buffer_out_size p)) s"
  have room: "buffer_out_size p < MAX_BUFFER_SIZE" using reading_room Cons.prems by blast
  have d: "s = d @ drop (length d) s" "buffer_out_size p + length d \<le> MAX_BUFFER_SIZE" "s \<noteq> [] \<Longrightarrow> d \<noteq> []"
    using room Cons.prems(6) by (auto simp: d_def min_def)
  obtain ys zs' p1 p2 where st: "zs = ys @ zs'" "peer_receive (Some d) p w = Done (SUCCESS, p1, w)"
    "fill_messages_out p1 mk w = Done (SUCCESS, p2, w)" "reading mk zs' (drop (length d) s) p2"
    "messages_out p2 = (messages_out p)\<lparr>qitems := qitems (messages_out p) @ map mk_str ys, qlen := qlen (messages_out p) + length ys\<rparr>"
    using reading_step [OF Cons.prems(1-5) d(1,2)] by blast
  have "length (drop (length d) s) \<le> length ks" using Cons.prems(7) d(3) by (cases s; cases d) auto
  then obtain p' where "feed mk ks (drop (length d) s) p2 w = Done ([], p', w)" "buffer_out_size p' = 0"
    "qitems (messages_out p') = qitems (messages_out p2) @ map mk_str zs'"
    using Cons.IH [OF st(4) _ Cons.prems(3,4)] Cons.prems st(1,5) by (auto simp: can_frame_def)
  with st show ?case by (simp add: d_def [symmetric] Let_def)
qed

section \<open>Arbitrary input\<close>

text \<open>
  Whatever bytes have arrived, cutting the buffer stays inside it: the current message
  begins before the matched part of the marker, or right behind a NUL that is next.
\<close>

lemma parse_loop_safe:
  "n \<le> length buf \<Longrightarrow> NUL \<notin> set mk \<Longrightarrow> j < length mk \<Longrightarrow> b + j \<le> i \<or> b = Suc i \<and> j = 0 \<and> i < n \<and> buf ! i = NUL \<Longrightarrow> parsed \<le> n \<Longrightarrow>
     cq_wf q \<Longrightarrow> \<forall>s \<in> set (qitems q). str_wf s \<and> str_size s \<le> n \<Longrightarrow> good_world w \<Longrightarrow>
     \<exists>q' parsed' w'. parse_loop buf n mk i j b parsed q w = Done (q', parsed', w') \<and> parsed' \<le> n \<and> cq_wf q' \<and> good_world w'
       \<and> (\<forall>s \<in> set (qitems q'). str_wf s \<and> str_size s \<le> n)"
proof (induction buf n mk i j b parsed q w rule: parse_loop.induct)
  case (1 buf n mk i j b parsed q w)
  note pre = "1.prems"
  show ?case
  proof (cases "n \<le> i")
    case True
    with pre show ?thesis by (subst parse_loop.simps) simp
  next
    case False
    then have i: "\<not> n \<le> i" "\<not> length buf \<le> i" "i < n" using pre(1) by auto
    define j' where "j' = (if buf ! i = (mk @ [NUL]) ! j then j + 1 else 0)"
    have "(mk @ [NUL]) ! j = mk ! j" "mk ! j \<noteq> NUL" using pre(2,3) by (auto simp: nth_append in_set_conv_nth)
    then have j': "j' \<le> length mk" "b + j' \<le> Suc i" "buf ! i = NUL \<Longrightarrow> j' = 0"
      using pre(3,4) by (auto simp: j'_def)
    show ?thesis
    proof (cases "j' = length mk")
      case False
      have "parse_loop buf n mk i j b parsed q w = parse_loop buf n mk (i + 1) j' b parsed q w"
        using i False by (subst parse_loop.simps) (simp add: j'_def Let_def)
      with "1.IH"(3) [OF i(1,2) j'_def False] pre j' False show ?thesis by simp
    next
      case True
      let ?s = "mk_str (take (i + 1 - length mk - b) (drop b buf))"
      have len: "i + 1 - length mk - b \<le> length (drop b buf)" "i + 1 - length mk - b \<le> n" using i pre(1) by auto
      have si: "string_init2 (drop b buf) (i + 1 - length mk - b) w = Done (Some ?s, w)"
        using string_init2_plenty [OF len(1)] pre(8) by simp
      obtain e q1 w1 where pb: "cqueue_push_back string_copy q ?s w = Done (e, q1, w1)" "cq_wf q1" "good_world w1"
        "qitems q1 = qitems q \<or> qitems q1 = qitems q @ [?s]"
        using cqueue_push_back_good [OF pre(6) mk_str_simps(1) pre(8)] by metis
      have q1: "\<forall>s \<in> set (qitems q1). str_wf s \<and> str_size s \<le> n" using pb(4) pre(7) len(2) by auto
      have mk0: "0 < length mk" using pre(3) by auto
      show ?thesis
      proof (cases "i + 1 < n \<and> buf ! (i + 1) = NUL")
        case nul: True
        have "parse_loop buf n mk i j b parsed q w = parse_loop buf n mk (i + 1) 0 (i + 2) (i + 2) q1 w1"
          using i True nul si pb(1) by (subst parse_loop.simps) (simp add: j'_def [symmetric] Let_def)
        with "1.IH"(1) [OF i(1,2) j'_def True si refl refl pb(1) refl refl nul] pre(1,2) mk0 q1 pb nul show ?thesis by simp
      next
        case no: False
        have "parse_loop buf n mk i j b parsed q w = parse_loop buf n mk (i + 1) 0 (i + 1) (i + 1) q1 w1"
          using i True no si pb(1) by (subst parse_loop.simps) (auto simp: j'_def [symmetric] Let_def)
        with "1.IH"(2) [OF i(1,2) j'_def True si refl refl pb(1) refl refl no] pre(1,2) mk0 q1 pb i show ?thesis by simp
      qed
    qed
  qed
qed

lemma fill_messages_out_good:
  assumes "peer_wf p" "good_world w" "NUL \<notin> set mk" "mk \<noteq> []" "\<forall>s \<in> set (qitems (messages_out p)). str_size s \<le> MAX_BUFFER_SIZE"
  shows "\<exists>e p' w'. fill_messages_out p mk w = Done (e, p', w') \<and> peer_wf p' \<and> good_world w'
    \<and> (\<forall>s \<in> set (qitems (messages_out p')). str_size s \<le> MAX_BUFFER_SIZE)
    \<and> (\<exists>q b n. p' = p\<lparr>messages_out := q, buffer_out := b, buffer_out_size := n\<rparr>)"
proof (cases "buffer_out_size p = 0")
  case True
  have "p = p\<lparr>messages_out := messages_out p, buffer_out := buffer_out p, buffer_out_size := buffer_out_size p\<rparr>" by simp
  moreover have "fill_messages_out p mk w = Done (SUCCESS, p, w)" using True by (simp add: fill_messages_out_def)
  ultimately show ?thesis using assms(1,2,5) by metis
next
  case False
  let ?n = "buffer_out_size p"
  have n: "?n \<le> length (buffer_out p)" "?n \<le> MAX_BUFFER_SIZE" using assms(1) by (simp_all add: peer_wf_def)
  have "0 < length mk" using assms(4) by simp
  from parse_loop_safe [OF n(1) assms(3) this, of 0 0 0 "\<lparr>qitems = [], qlen = 0, qmax = CQUEUE_DEFAULT_MAX_SIZE\<rparr>" w] assms(2)
  obtain nq parsed w1 where pl: "parse_loop (buffer_out p) ?n mk 0 0 0 0 \<lparr>qitems = [], qlen = 0, qmax = CQUEUE_DEFAULT_MAX_SIZE\<rparr> w = Done (nq, parsed, w1)"
    "parsed \<le> ?n" "cq_wf nq" "good_world w1" "\<forall>s \<in> set (qitems nq). str_wf s \<and> str_size s \<le> ?n"
    by (auto simp: cq_wf_def)
  have pb: "parse_buffer (buffer_out p) ?n mk w = Done (Some nq, parsed, w1)"
    using pl(1) assms(2) by (simp add: parse_buffer_def cqueue_init_def)
  from push_items_good [of "messages_out p" "qitems nq" w1] pl(4,5) assms(1) obtain e q w2 where
    pa: "push_items string_copy (messages_out p) (qitems nq) w1 = Done (e, q, w2)" "cq_wf q" "good_world w2"
      "set (qitems q) \<subseteq> set (qitems (messages_out p)) \<union> set (qitems nq)" by (auto simp: peer_wf_def)
  let ?b = "blit (buffer_out p) 0 (take (?n - parsed) (drop parsed (buffer_out p)))"
  let ?p = "p\<lparr>messages_out := q, buffer_out := ?b, buffer_out_size := ?n - parsed\<rparr>"
  have "fill_messages_out p mk w = Done (e, ?p, w2)"
    using False pb pa(1) pl(3) by (simp add: fill_messages_out_def cqueue_push_all_def reduce_buffer_def cqueue_clear_def cq_wf_def)
  moreover have "peer_wf ?p"
    using assms(1) pa(2,4) pl(2,5) n by (auto simp: peer_wf_def blit_def)
  moreover have "\<forall>s \<in> set (qitems nq). str_size s \<le> MAX_BUFFER_SIZE" using pl(5) n(2) le_trans by blast
  then have "\<forall>s \<in> set (qitems (messages_out ?p)). str_size s \<le> MAX_BUFFER_SIZE"
    using pa(4) assms(5) by auto
  ultimately show ?thesis using pa(3) by blast
qed

text \<open>Queueing a string without a marker; when the queue is full it is dropped.\<close>

lemma add_message_good:
  assumes "peer_wf p" "str_wf s" "good_world w"
  obtains e q w' where "add_message p s None w = Done (e, p\<lparr>messages_in := q\<rparr>, w')" "good_world w'" "peer_wf (p\<lparr>messages_in := q\<rparr>)"
    "qlen (messages_in p) < qmax (messages_in p) \<Longrightarrow> e = SUCCESS \<and> w' = w \<and> pending (p\<lparr>messages_in := q\<rparr>) = pending p @ str_text s
       \<and> qlen q = qlen (messages_in p) + 1 \<and> qmax q = qmax (messages_in p)"
proof -
  have wf: "cq_wf (messages_in p)" using assms(1) by (simp add: peer_wf_def)
  have b: "message_in_begin p \<le> length (concat (map str_text (qitems (messages_in p))))" "begin_ok (message_in_begin p) (qitems (messages_in p) @ [s])"
    using assms(1) by (cases "qitems (messages_in p)"; force simp: peer_wf_def)+
  show thesis
  proof (cases "qlen (messages_in p) = qmax (messages_in p)")
    case True
    show thesis
      by (rule that [of QUEUE_OVERFLOW "messages_in p" "send_log ''queue_push_back'' w"])
        (use True assms in \<open>simp_all add: add_message_def cqueue_push_back_def\<close>)
  next
    case False
    let ?q = "(messages_in p)\<lparr>qitems := qitems (messages_in p) @ [s], qlen := qlen (messages_in p) + 1\<rparr>"
    have "peer_wf (p\<lparr>messages_in := ?q\<rparr>)" using assms(1,2) b(2) wf False by (auto simp: peer_wf_def cq_wf_def)
    moreover have "add_message p s None w = Done (SUCCESS, p\<lparr>messages_in := ?q\<rparr>, w)"
      using False assms(2,3) by (simp add: add_message_def cqueue_push_back_def)
    moreover have "pending (p\<lparr>messages_in := ?q\<rparr>) = pending p @ str_text s" using b(1) by (simp add: pending_def)
    ultimately show thesis using assms(3) by (intro that [of SUCCESS ?q w]) simp_all
  qed
qed

section \<open>From one peer to another\<close>

fun add_all :: "string \<Rightarrow> string list \<Rightarrow> peer_t \<Rightarrow> cworld \<Rightarrow> (peer_t \<times> cworld) run" where
  "add_all mk [] p w = Done (p, w)"
| "add_all mk (x # xs) p w = rbind (add_message p (mk_str x) (Some mk) w) (\<lambda>(_, p1, w1). add_all mk xs p1 w1)"

fun send_all :: "nat list \<Rightarrow> peer_t \<Rightarrow> (peer_t \<times> string) run" where
  "send_all [] p = Done (p, [])"
| "send_all (k # ks) p = rbind (peer_send (Some k) p) (\<lambda>(_, p1, out). rbind (send_all ks p1) (\<lambda>(p2, out2). Done (p2, out @ out2)))"

lemma add_message_pending:
  assumes "peer_wf p" "cmem w = []" "16 \<le> usable w 8" "qlen (messages_in p) < qmax (messages_in p)"
  shows "\<exists>p'. add_message p (mk_str x) (Some mk) w = Done (SUCCESS, p', w) \<and> peer_wf p' \<and> pending p' = pending p @ x @ mk
    \<and> ptype p' = ptype p \<and> qlen (messages_in p') = qlen (messages_in p) + 1 \<and> qmax (messages_in p') = qmax (messages_in p)"
proof -
  let ?q = "(messages_in p)\<lparr>qitems := qitems (messages_in p) @ [mk_str (x @ mk)], qlen := qlen (messages_in p) + 1\<rparr>"
  have "cqueue_push_back string_copy (messages_in p) (mk_str (x @ mk)) w = Done (SUCCESS, ?q, w)"
    using assms copies_plenty [OF copies_string, of "mk_str (x @ mk)" w] by (simp add: cqueue_push_back_def)
  moreover have "string_init2 (as_array mk) (length mk) w = Done (Some (mk_str mk), w)"
    using assms(2) by (simp add: as_array_def)
  ultimately have a: "add_message p (mk_str x) (Some mk) w = Done (SUCCESS, p\<lparr>messages_in := ?q\<rparr>, w)"
    using assms(2) by (simp add: add_message_def)
  have b: "message_in_begin p \<le> length (concat (map str_text (qitems (messages_in p))))" "begin_ok (message_in_begin p) (qitems ?q)"
    using assms(1) by (cases "qitems (messages_in p)"; force simp: peer_wf_def)+
  have "peer_wf (p\<lparr>messages_in := ?q\<rparr>)" using assms(1,4) b(2) by (auto simp: peer_wf_def cq_wf_def)
  with a b(1) show ?thesis by (simp add: pending_def)
qed

lemma add_all_pending:
  "peer_wf p \<Longrightarrow> cmem w = [] \<Longrightarrow> 16 \<le> usable w 8 \<Longrightarrow> qlen (messages_in p) + length xs \<le> qmax (messages_in p) \<Longrightarrow>
     \<exists>p'. add_all mk xs p w = Done (p', w) \<and> peer_wf p' \<and> pending p' = pending p @ framed mk xs \<and> ptype p' = ptype p"
proof (induction xs arbitrary: p)
  case (Cons x xs)
  then have "qlen (messages_in p) < qmax (messages_in p)" by simp
  from add_message_pending [OF Cons.prems(1-3) this, of x mk] obtain p' where p':
    "add_message p (mk_str x) (Some mk) w = Done (SUCCESS, p', w)" "peer_wf p'" "pending p' = pending p @ x @ mk"
    "ptype p' = ptype p" "qlen (messages_in p') = qlen (messages_in p) + 1" "qmax (messages_in p') = qmax (messages_in p)" by blast
  with Cons.IH [OF p'(2) Cons.prems(2,3)] Cons.prems(4) show ?case by auto
qed simp

text \<open>When everything pending fits the buffer, filling the buffer empties the queue.\<close>

lemma reduce_messages_in_fits:
  assumes "peer_wf p" "qitems (messages_in p) = m # ms" "length (pending p) \<le> MAX_BUFFER_SIZE"
  shows "\<exists>p'. reduce_messages_in p m = Done p' \<and> qitems (messages_in p') = ms"
proof -
  have m: "str_wf m" "message_in_begin p \<le> str_size m" "cq_wf (messages_in p)" using assms(1,2) by (auto simp: peer_wf_def)
  let ?r = "str_size m - message_in_begin p"
  have "buffer_in_size p + ?r \<le> length (pending p)"
    using assms(1,2) m by (simp add: pending_def peer_wf_def)
  then have fits: "buffer_in_size p + ?r \<le> MAX_BUFFER_SIZE" "min MAX_BUFFER_SIZE ?r = ?r" using assms(3) by auto
  show ?thesis
    using m fits assms(1) cqueue_pop_front_ok [OF m(3) assms(2)]
    by (auto simp: reduce_messages_in_def add_data_to_buffer_in_def memcpy_at_def Let_def peer_wf_def str_wf_def)
qed

lemma fill_buffer_in_fits:
  "peer_wf p \<Longrightarrow> length (pending p) \<le> MAX_BUFFER_SIZE \<Longrightarrow> \<exists>p'. fill_buffer_in p = Done p'
     \<and> (buffer_in_size p' = MAX_BUFFER_SIZE \<or> qitems (messages_in p') = [])"
proof (induction "qitems (messages_in p)" arbitrary: p)
  case Nil
  then have "fill_buffer_in p = Done p" using cqueue_peek_ok [of "messages_in p"]
    by (subst fill_buffer_in.simps) (auto simp: peer_wf_def)
  with Nil show ?case by auto
next
  case (Cons m ms)
  show ?case
  proof (cases "buffer_in_size p = MAX_BUFFER_SIZE")
    case True
    then show ?thesis by (subst fill_buffer_in.simps) simp
  next
    case False
    obtain p1 where p1: "reduce_messages_in p m = Done p1" "qitems (messages_in p1) = ms"
      using reduce_messages_in_fits [of p m ms] Cons by auto
    then have "peer_wf p1" "length (pending p1) \<le> MAX_BUFFER_SIZE"
      using reduce_messages_in_pending [OF Cons.prems(1) Cons.hyps(2) [symmetric] p1(1)] Cons.prems(2) by auto
    with Cons.hyps(1) p1(2) obtain p' where "fill_buffer_in p1 = Done p'" "buffer_in_size p' = MAX_BUFFER_SIZE \<or> qitems (messages_in p') = []"
      by metis
    moreover have "cqueue_peek (messages_in p) = Done (Some m)"
      using cqueue_peek_ok [of "messages_in p"] Cons.prems(1) Cons.hyps(2) by (auto simp: peer_wf_def split: list.splits)
    ultimately show ?thesis using False p1(1) by (subst fill_buffer_in.simps) simp
  qed
qed

lemma peer_send_fits:
  assumes "peer_wf p" "length (pending p) \<le> MAX_BUFFER_SIZE" "known_type (ptype p)" "0 < k"
  shows "\<exists>p' out. peer_send (Some k) p = Done (SUCCESS, p', out) \<and> (pending p \<noteq> [] \<longrightarrow> out \<noteq> [])"
proof -
  obtain p1 where p1: "fill_buffer_in p = Done p1" "buffer_in_size p1 = MAX_BUFFER_SIZE \<or> qitems (messages_in p1) = []"
    using fill_buffer_in_fits [OF assms(1,2)] by blast
  note keep = fill_buffer_in_pending [OF assms(1) p1(1)]
  have "buffer_in_size p1 \<noteq> 0" if "pending p \<noteq> []"
  proof -
    have "pending p1 \<noteq> []" using that keep by simp
    with p1(2) show ?thesis by (cases "buffer_in_size p1 = 0") (auto simp: pending_def MAX_BUFFER_SIZE_def)
  qed
  moreover have "length (buffer_in p1) = MAX_BUFFER_SIZE" using keep by (simp add: peer_wf_def)
  ultimately have "take (min k (buffer_in_size p1)) (buffer_in p1) \<noteq> []" if "pending p \<noteq> []"
    using that assms(4) by (auto simp: MAX_BUFFER_SIZE_def)
  with p1(1) keep assms(3) show ?thesis by (simp add: peer_send_def Let_def reduce_buffer_def)
qed

lemma send_all_fits:
  "peer_wf p \<Longrightarrow> length (pending p) \<le> MAX_BUFFER_SIZE \<Longrightarrow> known_type (ptype p) \<Longrightarrow> \<forall>k \<in> set ks. 0 < k \<Longrightarrow>
     length (pending p) \<le> length ks \<Longrightarrow> \<exists>p'. send_all ks p = Done (p', pending p) \<and> pending p' = []"
proof (induction ks arbitrary: p)
  case (Cons k ks)
  obtain p1 out where s: "peer_send (Some k) p = Done (SUCCESS, p1, out)" "pending p \<noteq> [] \<longrightarrow> out \<noteq> []"
    using peer_send_fits [OF Cons.prems(1-3), of k] Cons.prems(4) by auto
  have k: "peer_wf p1" "out @ pending p1 = pending p" "known_type (ptype p1)"
    using peer_send_keeps [OF Cons.prems(1) s(1)] Cons.prems(3) by auto
  have l: "length out + length (pending p1) = length (pending p)" using arg_cong [OF k(2), of length] by simp
  have "length (pending p1) \<le> length ks" using l s(2) Cons.prems(5) by (cases "pending p"; cases out) auto
  then obtain p' where "send_all ks p1 = Done (p', pending p1)" "pending p' = []"
    using Cons.IH [OF k(1) _ k(3)] Cons.prems l by auto
  with s k show ?case by simp
qed simp

section \<open>Properties\<close>

text \<open>
  C38: whatever the socket or pipe accepts: the bytes that left followed by what is still
  pending (buffer and queued strings) is what was pending before.
\<close>

theorem peer_send_conserves:
  assumes "peer_wf p" and "peer_send sent p = Done (e, p', out)"
  shows "peer_wf p' \<and> out @ pending p' = pending p"
  using peer_send_keeps [OF assms] by simp

definition peer_example :: peer_t where
  "peer_example = \<lparr>pfd = 5, ptype = FDT_SOCKET, messages_in = \<lparr>qitems = [], qlen = 0, qmax = 10000\<rparr>, message_in_begin = 0,
     buffer_in = replicate 1024 NUL, buffer_in_size = 0, messages_out = \<lparr>qitems = [], qlen = 0, qmax = 10000\<rparr>,
     buffer_out = replicate 1024 NUL, buffer_out_size = 0\<rparr>"

definition plenty_cworld :: cworld where
  "plenty_cworld = \<lparr>cmem = [], usable = (\<lambda>n. 24), cclock = [], clogs = []\<rparr>"

lemma peer_example_wf [simp]: "peer_wf peer_example"
  by (simp add: peer_wf_def peer_example_def cq_wf_def MAX_BUFFER_SIZE_def)

definition peer_example2 :: peer_t where
  "peer_example2 = peer_example\<lparr>messages_in := \<lparr>qitems = [mk_str ''DATA'', mk_str ''QUIT''], qlen = 2, qmax = 10000\<rparr>\<rparr>"

lemma peer_example2_send:
  "\<exists>e p'. peer_send (Some 6) peer_example2 = Done (e, p', ''DATAQU'')"
proof -
  have "peer_wf peer_example2" "length (pending peer_example2) \<le> MAX_BUFFER_SIZE" "pending peer_example2 = ''DATAQUIT''"
    by (simp_all add: peer_wf_def peer_example2_def peer_example_def cq_wf_def MAX_BUFFER_SIZE_def pending_def)
  moreover have "ptype peer_example2 = FDT_SOCKET" by (simp add: peer_example2_def peer_example_def)
  ultimately obtain p1 where p1: "fill_buffer_in peer_example2 = Done p1" "buffer_in_size p1 = MAX_BUFFER_SIZE \<or> qitems (messages_in p1) = []"
    "peer_wf p1" "pending p1 = ''DATAQUIT''" "ptype p1 = FDT_SOCKET"
    using fill_buffer_in_fits [of peer_example2] fill_buffer_in_pending [of peer_example2] by metis
  have n: "buffer_in_size p1 \<le> length (buffer_in p1)" using p1(3) by (simp add: peer_wf_def)
  then have "buffer_in_size p1 \<le> length (pending p1)" by (simp add: pending_def)
  with p1(2,4) have "qitems (messages_in p1) = []" by (auto simp: MAX_BUFFER_SIZE_def)
  then have t: "take (buffer_in_size p1) (buffer_in p1) = ''DATAQUIT''" using p1(3,4) by (simp add: pending_def peer_wf_def)
  have "buffer_in_size p1 = 8" using n arg_cong [OF t, of length] by simp
  moreover from this have "take 6 (buffer_in p1) = ''DATAQU''" using arg_cong [OF t, of "take 6"] by (simp add: min_def)
  ultimately show ?thesis using p1 by (simp add: peer_send_def reduce_buffer_def Let_def)
qed

theorem peer_send_conserves_witness:
  "\<exists>p'. (\<exists>e. peer_send (Some 6) peer_example2 = Done (e, p', ''DATAQU'')) \<and> peer_wf p' \<and> ''DATAQU'' @ pending p' = ''DATAQUIT''"
proof -
  obtain e p' where s: "peer_send (Some 6) peer_example2 = Done (e, p', ''DATAQU'')" using peer_example2_send by blast
  have "peer_wf peer_example2" "pending peer_example2 = ''DATAQUIT''"
    by (simp_all add: peer_wf_def peer_example2_def peer_example_def cq_wf_def MAX_BUFFER_SIZE_def pending_def)
  with peer_send_conserves [OF _ s] s show ?thesis by metis
qed

text \<open>
  C12: records queued on one peer with an end marker and sent in any portions arrive at the
  other end, read in any portions, as exactly those records in that order, when together
  they fit the buffer and each of them can be framed: the search for the marker finds nothing
  in it and is not in the middle of a match at its end (as when the record has no first byte
  of the marker), and it does not begin with NUL.
\<close>

theorem peer_round_trip:
  assumes p: "peer_wf p" "pending p = []" "known_type (ptype p)" "qlen (messages_in p) + length xs \<le> qmax (messages_in p)"
    and r: "peer_wf r" "buffer_out_size r = 0" "known_type (ptype r)" "qlen (messages_out r) + length xs \<le> qmax (messages_out r)"
    and mk: "can_frame mk xs" "length (framed mk xs) \<le> MAX_BUFFER_SIZE"
    and w: "cmem w = []" "16 \<le> usable w 8"
    and ks: "\<forall>k \<in> set ks. 0 < k" "length (framed mk xs) \<le> length ks" "\<forall>k \<in> set ls. 0 < k" "length (framed mk xs) \<le> length ls"
  shows "\<exists>p1 p2 out r'. add_all mk xs p w = Done (p1, w) \<and> send_all ks p1 = Done (p2, out) \<and> pending p2 = []
    \<and> feed mk ls out r w = Done ([], r', w) \<and> buffer_out_size r' = 0
    \<and> map str_text (qitems (messages_out r')) = map str_text (qitems (messages_out r)) @ xs"
proof -
  obtain p1 where p1: "add_all mk xs p w = Done (p1, w)" "peer_wf p1" "pending p1 = framed mk xs" "known_type (ptype p1)"
    using add_all_pending [OF p(1) w p(4), of mk] p(2,3) by auto
  obtain p2 where p2: "send_all ks p1 = Done (p2, framed mk xs)" "pending p2 = []"
    using send_all_fits [OF p1(2) _ p1(4) ks(1)] p1(3) mk(2) ks(2) by auto
  have "reading mk xs (framed mk xs) r" using r by (simp add: reading_def)
  from feed_lines [OF this mk(1) w r(4) ks(3,4)] p1(1) p2 show ?thesis by (auto simp: comp_def)
qed

theorem peer_round_trip_witness:
  "\<exists>p1 p2 out r'. add_all ''$$'' [''a.txt'', ''b.txt''] peer_example plenty_cworld = Done (p1, plenty_cworld)
    \<and> send_all (replicate 14 3) p1 = Done (p2, out) \<and> pending p2 = []
    \<and> feed ''$$'' (replicate 14 5) out peer_example plenty_cworld = Done ([], r', plenty_cworld) \<and> buffer_out_size r' = 0
    \<and> map str_text (qitems (messages_out r')) = map str_text (qitems (messages_out peer_example)) @ [''a.txt'', ''b.txt'']"
  by (rule peer_round_trip)
    (simp_all add: peer_example_def plenty_cworld_def can_frame_def frames_def pending_def MAX_BUFFER_SIZE_def
      peer_example_wf [unfolded peer_example_def])

text \<open>
  The room left in the outgoing buffer is not taken into account: a short queued string
  followed by one that does not fit behind it makes the copy run past the buffer.
\<close>

theorem fill_buffer_in_overflows:
  assumes "peer_wf p" and "buffer_in_size p = 0" and "message_in_begin p = 0" and "qitems (messages_in p) = m1 # m2 # ms"
    and "0 < str_size m1" and "str_size m1 < MAX_BUFFER_SIZE" and "MAX_BUFFER_SIZE < str_size m1 + str_size m2"
  shows "peer_send sent p = Fault Out_Of_Bounds"
proof -
  have m: "str_wf m1" "str_wf m2" "cq_wf (messages_in p)" "length (buffer_in p) = MAX_BUFFER_SIZE"
    using assms(1,4) by (auto simp: peer_wf_def)
  let ?q = "(messages_in p)\<lparr>qitems := m2 # ms, qlen := qlen (messages_in p) - 1\<rparr>"
  define p1 where "p1 = p\<lparr>buffer_in := blit (buffer_in p) 0 (take (str_size m1) (str_data m1)), buffer_in_size := str_size m1,
    messages_in := ?q, message_in_begin := 0\<rparr>"
  have 1: "reduce_messages_in p m1 = Done p1"
    using assms m cqueue_pop_front_ok [OF m(3) assms(4)]
    by (simp add: reduce_messages_in_def add_data_to_buffer_in_def memcpy_at_def str_wf_def p1_def Let_def)
  have 2: "cqueue_peek (messages_in p) = Done (Some m1)" "cqueue_peek (messages_in p1) = Done (Some m2)"
    using cqueue_peek_ok [OF m(3)] cqueue_pop_front_ok [OF m(3) assms(4)] cqueue_peek_ok [of ?q] assms(4) by (simp_all add: p1_def)
  have "length (buffer_in p1) = MAX_BUFFER_SIZE" using m assms(6) by (simp add: p1_def str_wf_def)
  then have 3: "reduce_messages_in p1 m2 = Fault Out_Of_Bounds"
    using assms(3,5-7) by (simp add: p1_def reduce_messages_in_def add_data_to_buffer_in_def memcpy_at_def Let_def min_def)
  have "fill_buffer_in p1 = Fault Out_Of_Bounds"
    using 2(2) 3 assms(6) by (subst fill_buffer_in.simps) (simp add: p1_def)
  then have "fill_buffer_in p = Fault Out_Of_Bounds"
    using 1 2(1) assms(2) by (subst fill_buffer_in.simps) (simp add: MAX_BUFFER_SIZE_def)
  then show ?thesis by (simp add: peer_send_def)
qed

theorem fill_buffer_in_overflows_witness:
  "peer_send (Some 5) (peer_example\<lparr>messages_in := \<lparr>qitems = [mk_str (replicate 600 CHR ''a''), mk_str (replicate 600 CHR ''b'')],
     qlen = 2, qmax = 10000\<rparr>\<rparr>) = Fault Out_Of_Bounds"
  by (rule fill_buffer_in_overflows [of _ "mk_str (replicate 600 CHR ''a'')" "mk_str (replicate 600 CHR ''b'')" "[]"]) (simp_all add: peer_wf_def peer_example_def cq_wf_def MAX_BUFFER_SIZE_def)

end
