(* ===== verification/Client_Message.thy ===== *)
theory Client_Message
  imports Client_Queue
begin

text \<open>
  The mails the client holds in memory, \<^verbatim>\<open>client/src/SMTP_message.c\<close>, with the timing rules
  for repeated attempts, the configuration of a worker process
  (\<^verbatim>\<open>client/include/config.h\<close>) and the commands of \<^verbatim>\<open>client/src/SMTP_command_factory.c\<close>.
\<close>

section \<open>Configuration\<close>

record worker_config_t =
  cfg_queue_dir :: string
  cfg_parent_pipe_fd :: int
  cfg_logger_fd :: int
  cfg_max_attempts_time :: int
  cfg_min_interval_between_attempts :: int
  cfg_max_connect_count :: int
  cfg_min_interval_between_connect :: int

section \<open>Mails\<close>

text \<open>
  Addresses are C strings; a line of the text is a sized string or a null pointer. \<open>None\<close> in
  a field that holds an address or a time says that it has never been written.
\<close>

record smtp_message_t =
  from_addr :: "string option"
  recipients_addr :: "string list"
  recipients_count :: nat
  msg_text :: "string_t option list"
  msg_lines :: nat
  attempt_start_time :: "int option"
  last_attempt_time :: "int option"
  max_attempts_time :: int
  min_interval_between_attempts :: int

definition SMTP_message_init :: "worker_config_t \<Rightarrow> cworld \<Rightarrow> smtp_message_t option \<times> cworld" where
  "SMTP_message_init cfg w =
     (let (ok, w1) = cmalloc w in
      if \<not> ok then (None, send_log ''SMTP_message_init'' w1)
      else (Some \<lparr>from_addr = None, recipients_addr = [], recipients_count = 0, msg_text = [], msg_lines = 0,
        attempt_start_time = None, last_attempt_time = None, max_attempts_time = cfg_max_attempts_time cfg,
        min_interval_between_attempts = cfg_min_interval_between_attempts cfg\<rparr>, w1))"

text \<open>The two loops of \<^verbatim>\<open>SMTP_message_copy\<close>: the results of \<^verbatim>\<open>malloc\<close> are used without a check.\<close>

fun copy_addrs :: "nat \<Rightarrow> string list \<Rightarrow> cworld \<Rightarrow> (string list \<times> cworld) run" where
  "copy_addrs 0 xs w = Done ([], w)"
| "copy_addrs (Suc n) [] w = Fault Out_Of_Bounds"
| "copy_addrs (Suc n) (a # xs) w =
     (let (ok, w1) = cmalloc w in
      if \<not> ok then Fault Null_Deref else rbind (copy_addrs n xs w1) (\<lambda>(ys, w2). Done (a # ys, w2)))"

fun copy_lines :: "nat \<Rightarrow> string_t option list \<Rightarrow> cworld \<Rightarrow> (string_t option list \<times> cworld) run" where
  "copy_lines 0 xs w = Done ([], w)"
| "copy_lines (Suc n) [] w = Fault Out_Of_Bounds"
| "copy_lines (Suc n) (None # xs) w = Fault Null_Deref"
| "copy_lines (Suc n) (Some s # xs) w =
     rbind (string_copy s w) (\<lambda>(t, w1). rbind (copy_lines n xs w1) (\<lambda>(ys, w2). Done (t # ys, w2)))"

definition SMTP_message_copy :: "smtp_message_t \<Rightarrow> cworld \<Rightarrow> (smtp_message_t option \<times> cworld) run" where
  "SMTP_message_copy other w =
     (let (ok, w1) = cmalloc w in
      if \<not> ok then Done (None, send_log ''SMTP_message_copy'' w1)
      else case from_addr other of None \<Rightarrow> Fault Uninit_Read
      | Some fa \<Rightarrow> let (ok2, w2) = cmalloc w1 in
        if \<not> ok2 then Fault Null_Deref
        else let (ok3, w3) = cmalloc w2 in
        if \<not> ok3 \<and> recipients_count other > 0 then Fault Null_Deref
        else rbind (copy_addrs (recipients_count other) (recipients_addr other) w3) (\<lambda>(rs, w4).
          let (ok5, w5) = cmalloc w4 in
          if \<not> ok5 \<and> msg_lines other > 0 then Fault Null_Deref
          else rbind (copy_lines (msg_lines other) (msg_text other) w5) (\<lambda>(ls, w6).
            Done (Some \<lparr>from_addr = Some fa, recipients_addr = rs, recipients_count = recipients_count other,
              msg_text = ls, msg_lines = msg_lines other, attempt_start_time = None, last_attempt_time = None,
              max_attempts_time = max_attempts_time other,
              min_interval_between_attempts = min_interval_between_attempts other\<rparr>, w6))))"

definition is_attempts_time_expired :: "smtp_message_t \<Rightarrow> cworld \<Rightarrow> (bool \<times> cworld) run" where
  "is_attempts_time_expired m w =
     (case attempt_start_time m of None \<Rightarrow> Fault Uninit_Read
      | Some t0 \<Rightarrow> let (now, w1) = ctime w in Done (now - t0 > max_attempts_time m, w1))"

definition can_start_attempt_now :: "smtp_message_t \<Rightarrow> cworld \<Rightarrow> (bool \<times> cworld) run" where
  "can_start_attempt_now m w =
     (case last_attempt_time m of None \<Rightarrow> Fault Uninit_Read
      | Some t0 \<Rightarrow> let (now, w1) = ctime w in Done (now - t0 > min_interval_between_attempts m, w1))"

section \<open>Commands\<close>

definition DOMAIN_NAME :: string where "DOMAIN_NAME = ''mysmtp.ru''"

text \<open>\<^verbatim>\<open>sprintf\<close> of a text and its terminator into an array of \<open>n\<close> bytes.\<close>

definition sprintf_into :: "nat \<Rightarrow> string \<Rightarrow> string run" where
  "sprintf_into n s = (if length s < n then Done (as_array s) else Fault Out_Of_Bounds)"

type_synonym command_t = "(string_t option \<times> cworld) run"

text \<open>\<^verbatim>\<open>HELO_command\<close> prints into a null pointer.\<close>

definition HELO_command :: "cworld \<Rightarrow> command_t" where
  "HELO_command w = Fault Null_Deref"

definition EHLO_command :: "cworld \<Rightarrow> command_t" where
  "EHLO_command w = rbind (sprintf_into 256 (''EHLO '' @ DOMAIN_NAME @ CRLF)) (\<lambda>b. string_init2 b (strlen b) w)"

definition MAILFROM_command :: "string \<Rightarrow> cworld \<Rightarrow> command_t" where
  "MAILFROM_command a w = rbind (sprintf_into 256 (''MAIL FROM:'' @ a @ CRLF)) (\<lambda>b. string_init2 b (strlen b) w)"

definition RCPTTO_command :: "string \<Rightarrow> cworld \<Rightarrow> command_t" where
  "RCPTTO_command a w = rbind (sprintf_into 256 (''RCPT TO:'' @ a @ CRLF)) (\<lambda>b. string_init2 b (strlen b) w)"

definition RSET_command :: "cworld \<Rightarrow> command_t" where
  "RSET_command w = string_init2 (as_array (''RSET'' @ CRLF)) (strlen (as_array (''RSET'' @ CRLF))) w"

definition DATA_command :: "cworld \<Rightarrow> command_t" where
  "DATA_command w = string_init2 (as_array (''DATA'' @ CRLF)) (strlen (as_array (''DATA'' @ CRLF))) w"

definition ENDDATA_command :: "cworld \<Rightarrow> command_t" where
  "ENDDATA_command w = string_init2 (as_array (''.'' @ CRLF)) (strlen (as_array (''.'' @ CRLF))) w"

definition QUIT_command :: "cworld \<Rightarrow> command_t" where
  "QUIT_command w = string_init2 (as_array (''QUIT'' @ CRLF)) (strlen (as_array (''QUIT'' @ CRLF))) w"

section \<open>Well-formed mails\<close>

text \<open>
  A mail is ready to be sent when its addresses and lines are there and each fits the arrays
  it passes through: 256 bytes for a command, 2048 bytes for the log record of a line.
\<close>

definition line_ok :: "string_t option \<Rightarrow> bool" where
  "line_ok l \<longleftrightarrow> (\<exists>s. l = Some (mk_str s) \<and> NUL \<notin> set s \<and> length s < 2000)"

definition addr_ok :: "string \<Rightarrow> bool" where
  "addr_ok a \<longleftrightarrow> NUL \<notin> set a \<and> length a < 240"

definition message_ok :: "smtp_message_t \<Rightarrow> bool" where
  "message_ok m \<longleftrightarrow> (\<exists>a. from_addr m = Some a \<and> addr_ok a) \<and> recipients_count m = length (recipients_addr m)
     \<and> (\<forall>a \<in> set (recipients_addr m). addr_ok a) \<and> msg_lines m = length (msg_text m) \<and> (\<forall>l \<in> set (msg_text m). line_ok l)"

lemma copy_addrs_plenty: "cmem w = [] \<Longrightarrow> copy_addrs (length xs) xs w = Done (xs, w)"
  by (induction xs) simp_all

lemma copy_lines_plenty: "cmem w = [] \<Longrightarrow> \<forall>l \<in> set ls. line_ok l \<Longrightarrow> copy_lines (length ls) ls w = Done (ls, w)"
proof (induction ls)
  case (Cons l ls)
  then obtain s where "l = Some (mk_str s)" by (auto simp: line_ok_def)
  with Cons show ?case by simp
qed simp

text \<open>With enough memory a copy of a mail differs only in the times, which are not copied.\<close>

lemma SMTP_message_copy_plenty:
  assumes "cmem w = []" "message_ok m"
  shows "SMTP_message_copy m w = Done (Some (m\<lparr>attempt_start_time := None, last_attempt_time := None\<rparr>), w)"
  using assms by (auto simp: SMTP_message_copy_def message_ok_def copy_addrs_plenty copy_lines_plenty)

lemma command_plenty [simp]:
  assumes "cmem w = []"
  shows "EHLO_command w = Done (Some (mk_str (''EHLO '' @ DOMAIN_NAME @ CRLF)), w)"
    "RSET_command w = Done (Some (mk_str (''RSET'' @ CRLF)), w)" "DATA_command w = Done (Some (mk_str (''DATA'' @ CRLF)), w)"
    "ENDDATA_command w = Done (Some (mk_str (''.'' @ CRLF)), w)" "QUIT_command w = Done (Some (mk_str (''QUIT'' @ CRLF)), w)"
  using assms by (simp_all add: EHLO_command_def RSET_command_def DATA_command_def ENDDATA_command_def QUIT_command_def
      sprintf_into_def DOMAIN_NAME_def as_array_def strlen_def c_str_def)

lemma addr_command_plenty:
  assumes "cmem w = []" "addr_ok a"
  shows "MAILFROM_command a w = Done (Some (mk_str (''MAIL FROM:'' @ a @ CRLF)), w)"
    "RCPTTO_command a w = Done (Some (mk_str (''RCPT TO:'' @ a @ CRLF)), w)"
proof -
  have nul: "NUL \<notin> set (''MAIL FROM:'' @ a @ CRLF)" "NUL \<notin> set (''RCPT TO:'' @ a @ CRLF)" using assms(2) by (auto simp: addr_ok_def)
  have "strlen (as_array (''MAIL FROM:'' @ a @ CRLF)) = length (''MAIL FROM:'' @ a @ CRLF)"
    "strlen (as_array (''RCPT TO:'' @ a @ CRLF)) = length (''RCPT TO:'' @ a @ CRLF)"
    by (rule strlen_as_array, rule nul)+
  with assms show "MAILFROM_command a w = Done (Some (mk_str (''MAIL FROM:'' @ a @ CRLF)), w)"
    "RCPTTO_command a w = Done (Some (mk_str (''RCPT TO:'' @ a @ CRLF)), w)"
    by (simp_all add: MAILFROM_command_def RCPTTO_command_def sprintf_into_def addr_ok_def as_array_def)
qed

text \<open>
  An address that does not leave room for the rest of the command in the array of 256
  bytes is written past its end, for the sender as for a recipient.
\<close>

theorem long_address_overflows:
  assumes "246 \<le> length a"
  shows "MAILFROM_command a w = Fault Out_Of_Bounds \<and> RCPTTO_command a w = Fault Out_Of_Bounds"
  using assms by (simp add: MAILFROM_command_def RCPTTO_command_def sprintf_into_def)

theorem long_address_overflows_witness:
  "MAILFROM_command (replicate 246 CHR ''a'') exact_world = Fault Out_Of_Bounds
   \<and> RCPTTO_command (replicate 246 CHR ''a'') exact_world = Fault Out_Of_Bounds"
  by (rule long_address_overflows) simp

end
