(* ===== verification/Client_Fsm.thy ===== *)
theory Client_Fsm
  imports Table_Fsm
begin

text \<open>
  The protocol automaton of the client, \<^verbatim>\<open>client/src/client-fsm.c\<close>: one definition per
  callback, one per row of the transition table, and the step function. All callbacks return
  the table's next state, except \<open>client_fsm_do_invalid\<close>, which calls \<^verbatim>\<open>exit\<close>. The
  transition list of \<^verbatim>\<open>client/src/client.def\<close> is the specification.
\<close>

section \<open>States, events, callbacks\<close>

datatype te_client_fsm_state =
    CLIENT_FSM_ST_INIT | CLIENT_FSM_ST_SENDING_HELLO | CLIENT_FSM_ST_HELLO_SENDED
   | CLIENT_FSM_ST_SENDING_EHLO | CLIENT_FSM_ST_EHLO_SENDED
   | CLIENT_FSM_ST_GET_NEXT_MESSAGE_AND_SENDING_MAIL_OR_QUIT | CLIENT_FSM_ST_SENDING_MAIL_OR_QUIT
   | CLIENT_FSM_ST_MAIL_SENDED | CLIENT_FSM_ST_SENDING_RCPT_OR_DATA | CLIENT_FSM_ST_RCPT_SENDED
   | CLIENT_FSM_ST_DATA_SENDED | CLIENT_FSM_ST_RSET_SENDED
   | CLIENT_FSM_ST_SENDING_MSG_TEXT_OR_END_MSG | CLIENT_FSM_ST_MSG_TEXT_SENDED
   | CLIENT_FSM_ST_END_DATA_SENDED | CLIENT_FSM_ST_SENDING_QUIT | CLIENT_FSM_ST_QUIT_SENDED
   | CLIENT_FSM_ST_CLOSED_CONNECTION | CLIENT_FSM_ST_INVALID | CLIENT_FSM_ST_DONE

datatype te_client_fsm_event =
    CLIENT_FSM_EV_NONE | CLIENT_FSM_EV_CLOSE_CONNECTION | CLIENT_FSM_EV_RESPONSE_2XX
   | CLIENT_FSM_EV_RESPONSE_3XX | CLIENT_FSM_EV_RESPONSE_4XX | CLIENT_FSM_EV_RESPONSE_502
   | CLIENT_FSM_EV_RESPONSE_5XX | CLIENT_FSM_EV_HELLO | CLIENT_FSM_EV_EHLO | CLIENT_FSM_EV_MAIL
   | CLIENT_FSM_EV_RSET | CLIENT_FSM_EV_RCPT | CLIENT_FSM_EV_DATA | CLIENT_FSM_EV_MSG_TEXT
   | CLIENT_FSM_EV_END_DATA | CLIENT_FSM_EV_QUIT | CLIENT_FSM_EV_INVALID

type_synonym client_fsm_callback_t =
  "te_client_fsm_state \<Rightarrow> te_client_fsm_state \<Rightarrow> te_client_fsm_event \<Rightarrow> te_client_fsm_state run"

definition client_fsm_do_CLOSED_CONNECTION_close_connection :: client_fsm_callback_t where
  "client_fsm_do_CLOSED_CONNECTION_close_connection initial maybe_next trans_evt = Done maybe_next"

definition client_fsm_do_DATA_SENDED_close_connection :: client_fsm_callback_t where
  "client_fsm_do_DATA_SENDED_close_connection initial maybe_next trans_evt = Done maybe_next"

definition client_fsm_do_EHLO_SENDED_close_connection :: client_fsm_callback_t where
  "client_fsm_do_EHLO_SENDED_close_connection initial maybe_next trans_evt = Done maybe_next"

definition client_fsm_do_END_DATA_SENDED_close_connection :: client_fsm_callback_t where
  "client_fsm_do_END_DATA_SENDED_close_connection initial maybe_next trans_evt = Done maybe_next"

definition client_fsm_do_GET_NEXT_MESSAGE_AND_SENDING_MAIL_OR_QUIT_close_connection :: client_fsm_callback_t where
  "client_fsm_do_GET_NEXT_MESSAGE_AND_SENDING_MAIL_OR_QUIT_close_connection initial maybe_next trans_evt = Done maybe_next"

definition client_fsm_do_HELLO_SENDED_close_connection :: client_fsm_callback_t where
  "client_fsm_do_HELLO_SENDED_close_connection initial maybe_next trans_evt = Done maybe_next"

definition client_fsm_do_INIT_close_connection :: client_fsm_callback_t where
  "client_fsm_do_INIT_close_connection initial maybe_next trans_evt = Done maybe_next"

definition client_fsm_do_MAIL_SENDED_close_connection :: client_fsm_callback_t where
  "client_fsm_do_MAIL_SENDED_close_connection initial maybe_next trans_evt = Done maybe_next"

definition client_fsm_do_MSG_TEXT_SENDED_close_connection :: client_fsm_callback_t where
  "client_fsm_do_MSG_TEXT_SENDED_close_connection initial maybe_next trans_evt = Done maybe_next"

definition client_fsm_do_QUIT_SENDED_close_connection :: client_fsm_callback_t where
  "client_fsm_do_QUIT_SENDED_close_connection initial maybe_next trans_evt = Done maybe_next"

definition client_fsm_do_RCPT_SENDED_close_connection :: client_fsm_callback_t where
  "client_fsm_do_RCPT_SENDED_close_connection initial maybe_next trans_evt = Done maybe_next"

definition client_fsm_do_RSET_SENDED_close_connection :: client_fsm_callback_t where
  "client_fsm_do_RSET_SENDED_close_connection initial maybe_next trans_evt = Done maybe_next"

definition client_fsm_do_SENDING_EHLO_close_connection :: client_fsm_callback_t where
  "client_fsm_do_SENDING_EHLO_close_connection initial maybe_next trans_evt = Done maybe_next"

definition client_fsm_do_SENDING_HELLO_close_connection :: client_fsm_callback_t where
  "client_fsm_do_SENDING_HELLO_close_connection initial maybe_next trans_evt = Done maybe_next"

definition client_fsm_do_SENDING_MAIL_OR_QUIT_close_connection :: client_fsm_callback_t where
  "client_fsm_do_SENDING_MAIL_OR_QUIT_close_connection initial maybe_next trans_evt = Done maybe_next"

definition client_fsm_do_SENDING_MSG_TEXT_OR_END_MSG_close_connection :: client_fsm_callback_t where
  "client_fsm_do_SENDING_MSG_TEXT_OR_END_MSG_close_connection initial maybe_next trans_evt = Done maybe_next"

definition client_fsm_do_SENDING_QUIT_close_connection :: client_fsm_callback_t where
  "client_fsm_do_SENDING_QUIT_close_connection initial maybe_next trans_evt = Done maybe_next"

definition client_fsm_do_SENDING_RCPT_OR_DATA_close_connection :: client_fsm_callback_t where
  "client_fsm_do_SENDING_RCPT_OR_DATA_close_connection initial maybe_next trans_evt = Done maybe_next"

definition client_fsm_do_closed_connection_none :: client_fsm_callback_t where
  "client_fsm_do_closed_connection_none initial maybe_next trans_evt = Done maybe_next"

definition client_fsm_do_data_sended_none :: client_fsm_callback_t where
  "client_fsm_do_data_sended_none initial maybe_next trans_evt = Done maybe_next"

definition client_fsm_do_data_sended_response_3xx :: client_fsm_callback_t where
  "client_fsm_do_data_sended_response_3xx initial maybe_next trans_evt = Done maybe_next"

definition client_fsm_do_data_sended_response_5xx :: client_fsm_callback_t where
  "client_fsm_do_data_sended_response_5xx initial maybe_next trans_evt = Done maybe_next"

definition client_fsm_do_ehlo_sended_none :: client_fsm_callback_t where
  "client_fsm_do_ehlo_sended_none initial maybe_next trans_evt = Done maybe_next"

definition client_fsm_do_ehlo_sended_response_2xx :: client_fsm_callback_t where
  "client_fsm_do_ehlo_sended_response_2xx initial maybe_next trans_evt = Done maybe_next"

definition client_fsm_do_ehlo_sended_response_4xx :: client_fsm_callback_t where
  "client_fsm_do_ehlo_sended_response_4xx initial maybe_next trans_evt = Done maybe_next"

definition client_fsm_do_ehlo_sended_response_5xx :: client_fsm_callback_t where
  "client_fsm_do_ehlo_sended_response_5xx initial maybe_next trans_evt = Done maybe_next"

definition client_fsm_do_end_data_sended_none :: client_fsm_callback_t where
  "client_fsm_do_end_data_sended_none initial maybe_next trans_evt = Done maybe_next"

definition client_fsm_do_end_data_sended_response_2xx :: client_fsm_callback_t where
  "client_fsm_do_end_data_sended_response_2xx initial maybe_next trans_evt = Done maybe_next"

definition client_fsm_do_end_data_sended_response_4xx :: client_fsm_callback_t where
  "client_fsm_do_end_data_sended_response_4xx initial maybe_next trans_evt = Done maybe_next"

definition client_fsm_do_end_data_sended_response_5xx :: client_fsm_callback_t where
  "client_fsm_do_end_data_sended_response_5xx initial maybe_next trans_evt = Done maybe_next"

definition client_fsm_do_get_next_message_and_sending_mail_or_quit_mail :: client_fsm_callback_t where
  "client_fsm_do_get_next_message_and_sending_mail_or_quit_mail initial maybe_next trans_evt = Done maybe_next"

definition client_fsm_do_get_next_message_and_sending_mail_or_quit_quit :: client_fsm_callback_t where
  "client_fsm_do_get_next_message_and_sending_mail_or_quit_quit initial maybe_next trans_evt = Done maybe_next"

definition client_fsm_do_hello_sended_none :: client_fsm_callback_t where
  "client_fsm_do_hello_sended_none initial maybe_next trans_evt = Done maybe_next"

definition client_fsm_do_hello_sended_response_2xx :: client_fsm_callback_t where
  "client_fsm_do_hello_sended_response_2xx initial maybe_next trans_evt = Done maybe_next"

definition client_fsm_do_hello_sended_response_4xx :: client_fsm_callback_t where
  "client_fsm_do_hello_sended_response_4xx initial maybe_next trans_evt = Done maybe_next"

definition client_fsm_do_hello_sended_response_502 :: client_fsm_callback_t where
  "client_fsm_do_hello_sended_response_502 initial maybe_next trans_evt = Done maybe_next"

definition client_fsm_do_hello_sended_response_5xx :: client_fsm_callback_t where
  "client_fsm_do_hello_sended_response_5xx initial maybe_next trans_evt = Done maybe_next"

definition client_fsm_do_init_none :: client_fsm_callback_t where
  "client_fsm_do_init_none initial maybe_next trans_evt = Done maybe_next"

definition client_fsm_do_init_response_2xx :: client_fsm_callback_t where
  "client_fsm_do_init_response_2xx initial maybe_next trans_evt = Done maybe_next"

definition client_fsm_do_invalid :: client_fsm_callback_t where
  "client_fsm_do_invalid initial maybe_next trans_evt = Fault Exit_Called"

definition client_fsm_do_mail_sended_none :: client_fsm_callback_t where
  "client_fsm_do_mail_sended_none initial maybe_next trans_evt = Done maybe_next"

definition client_fsm_do_mail_sended_response_2xx :: client_fsm_callback_t where
  "client_fsm_do_mail_sended_response_2xx initial maybe_next trans_evt = Done maybe_next"

definition client_fsm_do_mail_sended_response_4xx :: client_fsm_callback_t where
  "client_fsm_do_mail_sended_response_4xx initial maybe_next trans_evt = Done maybe_next"

definition client_fsm_do_mail_sended_response_5xx :: client_fsm_callback_t where
  "client_fsm_do_mail_sended_response_5xx initial maybe_next trans_evt = Done maybe_next"

definition client_fsm_do_msg_text_sended_none :: client_fsm_callback_t where
  "client_fsm_do_msg_text_sended_none initial maybe_next trans_evt = Done maybe_next"

definition client_fsm_do_quit_sended_none :: client_fsm_callback_t where
  "client_fsm_do_quit_sended_none initial maybe_next trans_evt = Done maybe_next"

definition client_fsm_do_quit_sended_response_2xx :: client_fsm_callback_t where
  "client_fsm_do_quit_sended_response_2xx initial maybe_next trans_evt = Done maybe_next"

definition client_fsm_do_quit_sended_response_4xx :: client_fsm_callback_t where
  "client_fsm_do_quit_sended_response_4xx initial maybe_next trans_evt = Done maybe_next"

definition client_fsm_do_quit_sended_response_5xx :: client_fsm_callback_t where
  "client_fsm_do_quit_sended_response_5xx initial maybe_next trans_evt = Done maybe_next"

definition client_fsm_do_rcpt_sended_none :: client_fsm_callback_t where
  "client_fsm_do_rcpt_sended_none initial maybe_next trans_evt = Done maybe_next"

definition client_fsm_do_rcpt_sended_response_2xx :: client_fsm_callback_t where
  "client_fsm_do_rcpt_sended_response_2xx initial maybe_next trans_evt = Done maybe_next"

definition client_fsm_do_rcpt_sended_response_4xx :: client_fsm_callback_t where
  "client_fsm_do_rcpt_sended_response_4xx initial maybe_next trans_evt = Done maybe_next"

definition client_fsm_do_rcpt_sended_response_5xx :: client_fsm_callback_t where
  "client_fsm_do_rcpt_sended_response_5xx initial maybe_next trans_evt = Done maybe_next"

definition client_fsm_do_rset_sended_none :: client_fsm_callback_t where
  "client_fsm_do_rset_sended_none initial maybe_next trans_evt = Done maybe_next"

definition client_fsm_do_rset_sended_response_2xx :: client_fsm_callback_t where
  "client_fsm_do_rset_sended_response_2xx initial maybe_next trans_evt = Done maybe_next"

definition client_fsm_do_sending_ehlo_ehlo :: client_fsm_callback_t where
  "client_fsm_do_sending_ehlo_ehlo initial maybe_next trans_evt = Done maybe_next"

definition client_fsm_do_sending_hello_hello :: client_fsm_callback_t where
  "client_fsm_do_sending_hello_hello initial maybe_next trans_evt = Done maybe_next"

definition client_fsm_do_sending_mail_or_quit_mail :: client_fsm_callback_t where
  "client_fsm_do_sending_mail_or_quit_mail initial maybe_next trans_evt = Done maybe_next"

definition client_fsm_do_sending_mail_or_quit_none :: client_fsm_callback_t where
  "client_fsm_do_sending_mail_or_quit_none initial maybe_next trans_evt = Done maybe_next"

definition client_fsm_do_sending_mail_or_quit_quit :: client_fsm_callback_t where
  "client_fsm_do_sending_mail_or_quit_quit initial maybe_next trans_evt = Done maybe_next"

definition client_fsm_do_sending_msg_text_or_end_msg_end_data :: client_fsm_callback_t where
  "client_fsm_do_sending_msg_text_or_end_msg_end_data initial maybe_next trans_evt = Done maybe_next"

definition client_fsm_do_sending_msg_text_or_end_msg_msg_text :: client_fsm_callback_t where
  "client_fsm_do_sending_msg_text_or_end_msg_msg_text initial maybe_next trans_evt = Done maybe_next"

definition client_fsm_do_sending_msg_text_or_end_msg_rset :: client_fsm_callback_t where
  "client_fsm_do_sending_msg_text_or_end_msg_rset initial maybe_next trans_evt = Done maybe_next"

definition client_fsm_do_sending_rcpt_or_data_data :: client_fsm_callback_t where
  "client_fsm_do_sending_rcpt_or_data_data initial maybe_next trans_evt = Done maybe_next"

definition client_fsm_do_sending_rcpt_or_data_rcpt :: client_fsm_callback_t where
  "client_fsm_do_sending_rcpt_or_data_rcpt initial maybe_next trans_evt = Done maybe_next"

definition client_fsm_do_sending_rcpt_or_data_rset :: client_fsm_callback_t where
  "client_fsm_do_sending_rcpt_or_data_rset initial maybe_next trans_evt = Done maybe_next"

section \<open>The transition table\<close>

definition client_fsm_trans_INIT :: "(te_client_fsm_state \<times> client_fsm_callback_t) list" where
  "client_fsm_trans_INIT =
     [(CLIENT_FSM_ST_INIT, client_fsm_do_init_none),
      (CLIENT_FSM_ST_CLOSED_CONNECTION, client_fsm_do_INIT_close_connection),
      (CLIENT_FSM_ST_SENDING_EHLO, client_fsm_do_init_response_2xx),
      (CLIENT_FSM_ST_INVALID, client_fsm_do_invalid),
      (CLIENT_FSM_ST_INVALID, client_fsm_do_invalid),
      (CLIENT_FSM_ST_INVALID, client_fsm_do_invalid),
      (CLIENT_FSM_ST_INVALID, client_fsm_do_invalid),
      (CLIENT_FSM_ST_INVALID, client_fsm_do_invalid),
      (CLIENT_FSM_ST_INVALID, client_fsm_do_invalid),
      (CLIENT_FSM_ST_INVALID, client_fsm_do_invalid),
      (CLIENT_FSM_ST_INVALID, client_fsm_do_invalid),
      (CLIENT_FSM_ST_INVALID, client_fsm_do_invalid),
      (CLIENT_FSM_ST_INVALID, client_fsm_do_invalid),
      (CLIENT_FSM_ST_INVALID, client_fsm_do_invalid),
      (CLIENT_FSM_ST_INVALID, client_fsm_do_invalid),
      (CLIENT_FSM_ST_INVALID, client_fsm_do_invalid)]"

definition client_fsm_trans_SENDING_HELLO :: "(te_client_fsm_state \<times> client_fsm_callback_t) list" where
  "client_fsm_trans_SENDING_HELLO =
     [(CLIENT_FSM_ST_INVALID, client_fsm_do_invalid),
      (CLIENT_FSM_ST_CLOSED_CONNECTION, client_fsm_do_SENDING_HELLO_close_connection),
      (CLIENT_FSM_ST_INVALID, client_fsm_do_invalid),
      (CLIENT_FSM_ST_INVALID, client_fsm_do_invalid),
      (CLIENT_FSM_ST_INVALID, client_fsm_do_invalid),
      (CLIENT_FSM_ST_INVALID, client_fsm_do_invalid),
      (CLIENT_FSM_ST_INVALID, client_fsm_do_invalid),
      (CLIENT_FSM_ST_HELLO_SENDED, client_fsm_do_sending_hello_hello),
      (CLIENT_FSM_ST_INVALID, client_fsm_do_invalid),
      (CLIENT_FSM_ST_INVALID, client_fsm_do_invalid),
      (CLIENT_FSM_ST_INVALID, client_fsm_do_invalid),
      (CLIENT_FSM_ST_INVALID, client_fsm_do_invalid),
      (CLIENT_FSM_ST_INVALID, client_fsm_do_invalid),
      (CLIENT_FSM_ST_INVALID, client_fsm_do_invalid),
      (CLIENT_FSM_ST_INVALID, client_fsm_do_invalid),
      (CLIENT_FSM_ST_INVALID, client_fsm_do_invalid)]"

definition client_fsm_trans_HELLO_SENDED :: "(te_client_fsm_state \<times> client_fsm_callback_t) list" where
  "client_fsm_trans_HELLO_SENDED =
     [(CLIENT_FSM_ST_HELLO_SENDED, client_fsm_do_hello_sended_none),
      (CLIENT_FSM_ST_CLOSED_CONNECTION, client_fsm_do_HELLO_SENDED_close_connection),
      (CLIENT_FSM_ST_SENDING_MAIL_OR_QUIT, client_fsm_do_hello_sended_response_2xx),
      (CLIENT_FSM_ST_INVALID, client_fsm_do_invalid),
      (CLIENT_FSM_ST_HELLO_SENDED, client_fsm_do_hello_sended_response_4xx),
      (CLIENT_FSM_ST_SENDING_EHLO, client_fsm_do_hello_sended_response_502),
      (CLIENT_FSM_ST_CLOSED_CONNECTION, client_fsm_do_hello_sended_response_5xx),
      (CLIENT_FSM_ST_INVALID, client_fsm_do_invalid),
      (CLIENT_FSM_ST_INVALID, client_fsm_do_invalid),
      (CLIENT_FSM_ST_INVALID, client_fsm_do_invalid),
      (CLIENT_FSM_ST_INVALID, client_fsm_do_invalid),
      (CLIENT_FSM_ST_INVALID, client_fsm_do_invalid),
      (CLIENT_FSM_ST_INVALID, client_fsm_do_invalid),
      (CLIENT_FSM_ST_INVALID, client_fsm_do_invalid),
      (CLIENT_FSM_ST_INVALID, client_fsm_do_invalid),
      (CLIENT_FSM_ST_INVALID, client_fsm_do_invalid)]"

definition client_fsm_trans_SENDING_EHLO :: "(te_client_fsm_state \<times> client_fsm_callback_t) list" where
  "client_fsm_trans_SENDING_EHLO =
     [(CLIENT_FSM_ST_INVALID, client_fsm_do_invalid),
      (CLIENT_FSM_ST_CLOSED_CONNECTION, client_fsm_do_SENDING_EHLO_close_connection),
      (CLIENT_FSM_ST_INVALID, client_fsm_do_invalid),
      (CLIENT_FSM_ST_INVALID, client_fsm_do_invalid),
      (CLIENT_FSM_ST_INVALID, client_fsm_do_invalid),
      (CLIENT_FSM_ST_INVALID, client_fsm_do_invalid),
      (CLIENT_FSM_ST_INVALID, client_fsm_do_invalid),
      (CLIENT_FSM_ST_INVALID, client_fsm_do_invalid),
      (CLIENT_FSM_ST_EHLO_SENDED, client_fsm_do_sending_ehlo_ehlo),
      (CLIENT_FSM_ST_INVALID, client_fsm_do_invalid),
      (CLIENT_FSM_ST_INVALID, client_fsm_do_invalid),
      (CLIENT_FSM_ST_INVALID, client_fsm_do_invalid),
      (CLIENT_FSM_ST_INVALID, client_fsm_do_invalid),
      (CLIENT_FSM_ST_INVALID, client_fsm_do_invalid),
      (CLIENT_FSM_ST_INVALID, client_fsm_do_invalid),
      (CLIENT_FSM_ST_INVALID, client_fsm_do_invalid)]"

definition client_fsm_trans_EHLO_SENDED :: "(te_client_fsm_state \<times> client_fsm_callback_t) list" where
  "client_fsm_trans_EHLO_SENDED =
     [(CLIENT_FSM_ST_EHLO_SENDED, client_fsm_do_ehlo_sended_none),
      (CLIENT_FSM_ST_CLOSED_CONNECTION, client_fsm_do_EHLO_SENDED_close_connection),
      (CLIENT_FSM_ST_SENDING_MAIL_OR_QUIT, client_fsm_do_ehlo_sended_response_2xx),
      (CLIENT_FSM_ST_INVALID, client_fsm_do_invalid),
      (CLIENT_FSM_ST_EHLO_SENDED, client_fsm_do_ehlo_sended_response_4xx),
      (CLIENT_FSM_ST_INVALID, client_fsm_do_invalid),
      (CLIENT_FSM_ST_CLOSED_CONNECTION, client_fsm_do_ehlo_sended_response_5xx),
      (CLIENT_FSM_ST_INVALID, client_fsm_do_invalid),
      (CLIENT_FSM_ST_INVALID, client_fsm_do_invalid),
      (CLIENT_FSM_ST_INVALID, client_fsm_do_invalid),
      (CLIENT_FSM_ST_INVALID, client_fsm_do_invalid),
      (CLIENT_FSM_ST_INVALID, client_fsm_do_invalid),
      (CLIENT_FSM_ST_INVALID, client_fsm_do_invalid),
      (CLIENT_FSM_ST_INVALID, client_fsm_do_invalid),
      (CLIENT_FSM_ST_INVALID, client_fsm_do_invalid),
      (CLIENT_FSM_ST_INVALID, client_fsm_do_invalid)]"

definition client_fsm_trans_GET_NEXT_MESSAGE_AND_SENDING_MAIL_OR_QUIT :: "(te_client_fsm_state \<times> client_fsm_callback_t) list" where
  "client_fsm_trans_GET_NEXT_MESSAGE_AND_SENDING_MAIL_OR_QUIT =
     [(CLIENT_FSM_ST_INVALID, client_fsm_do_invalid),
      (CLIENT_FSM_ST_CLOSED_CONNECTION, client_fsm_do_GET_NEXT_MESSAGE_AND_SENDING_MAIL_OR_QUIT_close_connection),
      (CLIENT_FSM_ST_INVALID, client_fsm_do_invalid),
      (CLIENT_FSM_ST_INVALID, client_fsm_do_invalid),
      (CLIENT_FSM_ST_INVALID, client_fsm_do_invalid),
      (CLIENT_FSM_ST_INVALID, client_fsm_do_invalid),
      (CLIENT_FSM_ST_INVALID, client_fsm_do_invalid),
      (CLIENT_FSM_ST_INVALID, client_fsm_do_invalid),
      (CLIENT_FSM_ST_INVALID, client_fsm_do_invalid),
      (CLIENT_FSM_ST_MAIL_SENDED, client_fsm_do_get_next_message_and_sending_mail_or_quit_mail),
      (CLIENT_FSM_ST_INVALID, client_fsm_do_invalid),
      (CLIENT_FSM_ST_INVALID, client_fsm_do_invalid),
      (CLIENT_FSM_ST_INVALID, client_fsm_do_invalid),
      (CLIENT_FSM_ST_INVALID, client_fsm_do_invalid),
      (CLIENT_FSM_ST_INVALID, client_fsm_do_invalid),
      (CLIENT_FSM_ST_QUIT_SENDED, client_fsm_do_get_next_message_and_sending_mail_or_quit_quit)]"

definition client_fsm_trans_SENDING_MAIL_OR_QUIT :: "(te_client_fsm_state \<times> client_fsm_callback_t) list" where
  "client_fsm_trans_SENDING_MAIL_OR_QUIT =
     [(CLIENT_FSM_ST_SENDING_MAIL_OR_QUIT, client_fsm_do_sending_mail_or_quit_none),
      (CLIENT_FSM_ST_CLOSED_CONNECTION, client_fsm_do_SENDING_MAIL_OR_QUIT_close_connection),
      (CLIENT_FSM_ST_INVALID, client_fsm_do_invalid),
      (CLIENT_FSM_ST_INVALID, client_fsm_do_invalid),
      (CLIENT_FSM_ST_INVALID, client_fsm_do_invalid),
      (CLIENT_FSM_ST_INVALID, client_fsm_do_invalid),
      (CLIENT_FSM_ST_INVALID, client_fsm_do_invalid),
      (CLIENT_FSM_ST_INVALID, client_fsm_do_invalid),
      (CLIENT_FSM_ST_INVALID, client_fsm_do_invalid),
      (CLIENT_FSM_ST_MAIL_SENDED, client_fsm_do_sending_mail_or_quit_mail),
      (CLIENT_FSM_ST_INVALID, client_fsm_do_invalid),
      (CLIENT_FSM_ST_INVALID, client_fsm_do_invalid),
      (CLIENT_FSM_ST_INVALID, client_fsm_do_invalid),
      (CLIENT_FSM_ST_INVALID, client_fsm_do_invalid),
      (CLIENT_FSM_ST_INVALID, client_fsm_do_invalid),
      (CLIENT_FSM_ST_QUIT_SENDED, client_fsm_do_sending_mail_or_quit_quit)]"

definition client_fsm_trans_MAIL_SENDED :: "(te_client_fsm_state \<times> client_fsm_callback_t) list" where
  "client_fsm_trans_MAIL_SENDED =
     [(CLIENT_FSM_ST_MAIL_SENDED, client_fsm_do_mail_sended_none),
      (CLIENT_FSM_ST_CLOSED_CONNECTION, client_fsm_do_MAIL_SENDED_close_connection),
      (CLIENT_FSM_ST_SENDING_RCPT_OR_DATA, client_fsm_do_mail_sended_response_2xx),
      (CLIENT_FSM_ST_INVALID, client_fsm_do_invalid),
      (CLIENT_FSM_ST_SENDING_MAIL_OR_QUIT, client_fsm_do_mail_sended_response_4xx),
      (CLIENT_FSM_ST_INVALID, client_fsm_do_invalid),
      (CLIENT_FSM_ST_GET_NEXT_MESSAGE_AND_SENDING_MAIL_OR_QUIT, client_fsm_do_mail_sended_response_5xx),
      (CLIENT_FSM_ST_INVALID, client_fsm_do_invalid),
      (CLIENT_FSM_ST_INVALID, client_fsm_do_invalid),
      (CLIENT_FSM_ST_INVALID, client_fsm_do_invalid),
      (CLIENT_FSM_ST_INVALID, client_fsm_do_invalid),
      (CLIENT_FSM_ST_INVALID, client_fsm_do_invalid),
      (CLIENT_FSM_ST_INVALID, client_fsm_do_invalid),
      (CLIENT_FSM_ST_INVALID, client_fsm_do_invalid),
      (CLIENT_FSM_ST_INVALID, client_fsm_do_invalid),
      (CLIENT_FSM_ST_INVALID, client_fsm_do_invalid)]"

definition client_fsm_trans_SENDING_RCPT_OR_DATA :: "(te_client_fsm_state \<times> client_fsm_callback_t) list" where
  "client_fsm_trans_SENDING_RCPT_OR_DATA =
     [(CLIENT_FSM_ST_INVALID, client_fsm_do_invalid),
      (CLIENT_FSM_ST_CLOSED_CONNECTION, client_fsm_do_SENDING_RCPT_OR_DATA_close_connection),
      (CLIENT_FSM_ST_INVALID, client_fsm_do_invalid),
      (CLIENT_FSM_ST_INVALID, client_fsm_do_invalid),
      (CLIENT_FSM_ST_INVALID, client_fsm_do_invalid),
      (CLIENT_FSM_ST_INVALID, client_fsm_do_invalid),
      (CLIENT_FSM_ST_INVALID, client_fsm_do_invalid),
      (CLIENT_FSM_ST_INVALID, client_fsm_do_invalid),
      (CLIENT_FSM_ST_INVALID, client_fsm_do_invalid),
      (CLIENT_FSM_ST_INVALID, client_fsm_do_invalid),
      (CLIENT_FSM_ST_RSET_SENDED, client_fsm_do_sending_rcpt_or_data_rset),
      (CLIENT_FSM_ST_RCPT_SENDED, client_fsm_do_sending_rcpt_or_data_rcpt),
      (CLIENT_FSM_ST_DATA_SENDED, client_fsm_do_sending_rcpt_or_data_data),
      (CLIENT_FSM_ST_INVALID, client_fsm_do_invalid),
      (CLIENT_FSM_ST_INVALID, client_fsm_do_invalid),
      (CLIENT_FSM_ST_INVALID, client_fsm_do_invalid)]"

definition client_fsm_trans_RCPT_SENDED :: "(te_client_fsm_state \<times> client_fsm_callback_t) list" where
  "client_fsm_trans_RCPT_SENDED =
     [(CLIENT_FSM_ST_RCPT_SENDED, client_fsm_do_rcpt_sended_none),
      (CLIENT_FSM_ST_CLOSED_CONNECTION, client_fsm_do_RCPT_SENDED_close_connection),
      (CLIENT_FSM_ST_SENDING_RCPT_OR_DATA, client_fsm_do_rcpt_sended_response_2xx),
      (CLIENT_FSM_ST_INVALID, client_fsm_do_invalid),
      (CLIENT_FSM_ST_SENDING_MAIL_OR_QUIT, client_fsm_do_rcpt_sended_response_4xx),
      (CLIENT_FSM_ST_INVALID, client_fsm_do_invalid),
      (CLIENT_FSM_ST_GET_NEXT_MESSAGE_AND_SENDING_MAIL_OR_QUIT, client_fsm_do_rcpt_sended_response_5xx),
      (CLIENT_FSM_ST_INVALID, client_fsm_do_invalid),
      (CLIENT_FSM_ST_INVALID, client_fsm_do_invalid),
      (CLIENT_FSM_ST_INVALID, client_fsm_do_invalid),
      (CLIENT_FSM_ST_INVALID, client_fsm_do_invalid),
      (CLIENT_FSM_ST_INVALID, client_fsm_do_invalid),
      (CLIENT_FSM_ST_INVALID, client_fsm_do_invalid),
      (CLIENT_FSM_ST_INVALID, client_fsm_do_invalid),
      (CLIENT_FSM_ST_INVALID, client_fsm_do_invalid),
      (CLIENT_FSM_ST_INVALID, client_fsm_do_invalid)]"

definition client_fsm_trans_DATA_SENDED :: "(te_client_fsm_state \<times> client_fsm_callback_t) list" where
  "client_fsm_trans_DATA_SENDED =
     [(CLIENT_FSM_ST_DATA_SENDED, client_fsm_do_data_sended_none),
      (CLIENT_FSM_ST_CLOSED_CONNECTION, client_fsm_do_DATA_SENDED_close_connection),
      (CLIENT_FSM_ST_INVALID, client_fsm_do_invalid),
      (CLIENT_FSM_ST_SENDING_MSG_TEXT_OR_END_MSG, client_fsm_do_data_sended_response_3xx),
      (CLIENT_FSM_ST_INVALID, client_fsm_do_invalid),
      (CLIENT_FSM_ST_INVALID, client_fsm_do_invalid),
      (CLIENT_FSM_ST_GET_NEXT_MESSAGE_AND_SENDING_MAIL_OR_QUIT, client_fsm_do_data_sended_response_5xx),
      (CLIENT_FSM_ST_INVALID, client_fsm_do_invalid),
      (CLIENT_FSM_ST_INVALID, client_fsm_do_invalid),
      (CLIENT_FSM_ST_INVALID, client_fsm_do_invalid),
      (CLIENT_FSM_ST_INVALID, client_fsm_do_invalid),
      (CLIENT_FSM_ST_INVALID, client_fsm_do_invalid),
      (CLIENT_FSM_ST_INVALID, client_fsm_do_invalid),
      (CLIENT_FSM_ST_INVALID, client_fsm_do_invalid),
      (CLIENT_FSM_ST_INVALID, client_fsm_do_invalid),
      (CLIENT_FSM_ST_INVALID, client_fsm_do_invalid)]"

definition client_fsm_trans_RSET_SENDED :: "(te_client_fsm_state \<times> client_fsm_callback_t) list" where
  "client_fsm_trans_RSET_SENDED =
     [(CLIENT_FSM_ST_RSET_SENDED, client_fsm_do_rset_sended_none),
      (CLIENT_FSM_ST_CLOSED_CONNECTION, client_fsm_do_RSET_SENDED_close_connection),
      (CLIENT_FSM_ST_GET_NEXT_MESSAGE_AND_SENDING_MAIL_OR_QUIT, client_fsm_do_rset_sended_response_2xx),
      (CLIENT_FSM_ST_INVALID, client_fsm_do_invalid),
      (CLIENT_FSM_ST_INVALID, client_fsm_do_invalid),
      (CLIENT_FSM_ST_INVALID, client_fsm_do_invalid),
      (CLIENT_FSM_ST_INVALID, client_fsm_do_invalid),
      (CLIENT_FSM_ST_INVALID, client_fsm_do_invalid),
      (CLIENT_FSM_ST_INVALID, client_fsm_do_invalid),
      (CLIENT_FSM_ST_INVALID, client_fsm_do_invalid),
      (CLIENT_FSM_ST_INVALID, client_fsm_do_invalid),
      (CLIENT_FSM_ST_INVALID, client_fsm_do_invalid),
      (CLIENT_FSM_ST_INVALID, client_fsm_do_invalid),
      (CLIENT_FSM_ST_INVALID, client_fsm_do_invalid),
      (CLIENT_FSM_ST_INVALID, client_fsm_do_invalid),
      (CLIENT_FSM_ST_INVALID, client_fsm_do_invalid)]"

definition client_fsm_trans_SENDING_MSG_TEXT_OR_END_MSG :: "(te_client_fsm_state \<times> client_fsm_callback_t) list" where
  "client_fsm_trans_SENDING_MSG_TEXT_OR_END_MSG =
     [(CLIENT_FSM_ST_INVALID, client_fsm_do_invalid),
      (CLIENT_FSM_ST_CLOSED_CONNECTION, client_fsm_do_SENDING_MSG_TEXT_OR_END_MSG_close_connection),
      (CLIENT_FSM_ST_INVALID, client_fsm_do_invalid),
      (CLIENT_FSM_ST_INVALID, client_fsm_do_invalid),
      (CLIENT_FSM_ST_INVALID, client_fsm_do_invalid),
      (CLIENT_FSM_ST_INVALID, client_fsm_do_invalid),
      (CLIENT_FSM_ST_INVALID, client_fsm_do_invalid),
      (CLIENT_FSM_ST_INVALID, client_fsm_do_invalid),
      (CLIENT_FSM_ST_INVALID, client_fsm_do_invalid),
      (CLIENT_FSM_ST_INVALID, client_fsm_do_invalid),
      (CLIENT_FSM_ST_RSET_SENDED, client_fsm_do_sending_msg_text_or_end_msg_rset),
      (CLIENT_FSM_ST_INVALID, client_fsm_do_invalid),
      (CLIENT_FSM_ST_INVALID, client_fsm_do_invalid),
      (CLIENT_FSM_ST_MSG_TEXT_SENDED, client_fsm_do_sending_msg_text_or_end_msg_msg_text),
      (CLIENT_FSM_ST_END_DATA_SENDED, client_fsm_do_sending_msg_text_or_end_msg_end_data),
      (CLIENT_FSM_ST_INVALID, client_fsm_do_invalid)]"

definition client_fsm_trans_MSG_TEXT_SENDED :: "(te_client_fsm_state \<times> client_fsm_callback_t) list" where
  "client_fsm_trans_MSG_TEXT_SENDED =
     [(CLIENT_FSM_ST_SENDING_MSG_TEXT_OR_END_MSG, client_fsm_do_msg_text_sended_none),
      (CLIENT_FSM_ST_CLOSED_CONNECTION, client_fsm_do_MSG_TEXT_SENDED_close_connection),
      (CLIENT_FSM_ST_INVALID, client_fsm_do_invalid),
      (CLIENT_FSM_ST_INVALID, client_fsm_do_invalid),
      (CLIENT_FSM_ST_INVALID, client_fsm_do_invalid),
      (CLIENT_FSM_ST_INVALID, client_fsm_do_invalid),
      (CLIENT_FSM_ST_INVALID, client_fsm_do_invalid),
      (CLIENT_FSM_ST_INVALID, client_fsm_do_invalid),
      (CLIENT_FSM_ST_INVALID, client_fsm_do_invalid),
      (CLIENT_FSM_ST_INVALID, client_fsm_do_invalid),
      (CLIENT_FSM_ST_INVALID, client_fsm_do_invalid),
      (CLIENT_FSM_ST_INVALID, client_fsm_do_invalid),
      (CLIENT_FSM_ST_INVALID, client_fsm_do_invalid),
      (CLIENT_FSM_ST_INVALID, client_fsm_do_invalid),
      (CLIENT_FSM_ST_INVALID, client_fsm_do_invalid),
      (CLIENT_FSM_ST_INVALID, client_fsm_do_invalid)]"

definition client_fsm_trans_END_DATA_SENDED :: "(te_client_fsm_state \<times> client_fsm_callback_t) list" where
  "client_fsm_trans_END_DATA_SENDED =
     [(CLIENT_FSM_ST_END_DATA_SENDED, client_fsm_do_end_data_sended_none),
      (CLIENT_FSM_ST_CLOSED_CONNECTION, client_fsm_do_END_DATA_SENDED_close_connection),
      (CLIENT_FSM_ST_GET_NEXT_MESSAGE_AND_SENDING_MAIL_OR_QUIT, client_fsm_do_end_data_sended_response_2xx),
      (CLIENT_FSM_ST_INVALID, client_fsm_do_invalid),
      (CLIENT_FSM_ST_SENDING_MAIL_OR_QUIT, client_fsm_do_end_data_sended_response_4xx),
      (CLIENT_FSM_ST_INVALID, client_fsm_do_invalid),
      (CLIENT_FSM_ST_GET_NEXT_MESSAGE_AND_SENDING_MAIL_OR_QUIT, client_fsm_do_end_data_sended_response_5xx),
      (CLIENT_FSM_ST_INVALID, client_fsm_do_invalid),
      (CLIENT_FSM_ST_INVALID, client_fsm_do_invalid),
      (CLIENT_FSM_ST_INVALID, client_fsm_do_invalid),
      (CLIENT_FSM_ST_INVALID, client_fsm_do_invalid),
      (CLIENT_FSM_ST_INVALID, client_fsm_do_invalid),
      (CLIENT_FSM_ST_INVALID, client_fsm_do_invalid),
      (CLIENT_FSM_ST_INVALID, client_fsm_do_invalid),
      (CLIENT_FSM_ST_INVALID, client_fsm_do_invalid),
      (CLIENT_FSM_ST_INVALID, client_fsm_do_invalid)]"

definition client_fsm_trans_SENDING_QUIT :: "(te_client_fsm_state \<times> client_fsm_callback_t) list" where
  "client_fsm_trans_SENDING_QUIT =
     [(CLIENT_FSM_ST_INVALID, client_fsm_do_invalid),
      (CLIENT_FSM_ST_CLOSED_CONNECTION, client_fsm_do_SENDING_QUIT_close_connection),
      (CLIENT_FSM_ST_INVALID, client_fsm_do_invalid),
      (CLIENT_FSM_ST_INVALID, client_fsm_do_invalid),
      (CLIENT_FSM_ST_INVALID, client_fsm_do_invalid),
      (CLIENT_FSM_ST_INVALID, client_fsm_do_invalid),
      (CLIENT_FSM_ST_INVALID, client_fsm_do_invalid),
      (CLIENT_FSM_ST_INVALID, client_fsm_do_invalid),
      (CLIENT_FSM_ST_INVALID, client_fsm_do_invalid),
      (CLIENT_FSM_ST_INVALID, client_fsm_do_invalid),
      (CLIENT_FSM_ST_INVALID, client_fsm_do_invalid),
      (CLIENT_FSM_ST_INVALID, client_fsm_do_invalid),
      (CLIENT_FSM_ST_INVALID, client_fsm_do_invalid),
      (CLIENT_FSM_ST_INVALID, client_fsm_do_invalid),
      (CLIENT_FSM_ST_INVALID, client_fsm_do_invalid),
      (CLIENT_FSM_ST_INVALID, client_fsm_do_invalid)]"

definition client_fsm_trans_QUIT_SENDED :: "(te_client_fsm_state \<times> client_fsm_callback_t) list" where
  "client_fsm_trans_QUIT_SENDED =
     [(CLIENT_FSM_ST_QUIT_SENDED, client_fsm_do_quit_sended_none),
      (CLIENT_FSM_ST_CLOSED_CONNECTION, client_fsm_do_QUIT_SENDED_close_connection),
      (CLIENT_FSM_ST_CLOSED_CONNECTION, client_fsm_do_quit_sended_response_2xx),
      (CLIENT_FSM_ST_INVALID, client_fsm_do_invalid),
      (CLIENT_FSM_ST_CLOSED_CONNECTION, client_fsm_do_quit_sended_response_4xx),
      (CLIENT_FSM_ST_INVALID, client_fsm_do_invalid),
      (CLIENT_FSM_ST_CLOSED_CONNECTION, client_fsm_do_quit_sended_response_5xx),
      (CLIENT_FSM_ST_INVALID, client_fsm_do_invalid),
      (CLIENT_FSM_ST_INVALID, client_fsm_do_invalid),
      (CLIENT_FSM_ST_INVALID, client_fsm_do_invalid),
      (CLIENT_FSM_ST_INVALID, client_fsm_do_invalid),
      (CLIENT_FSM_ST_INVALID, client_fsm_do_invalid),
      (CLIENT_FSM_ST_INVALID, client_fsm_do_invalid),
      (CLIENT_FSM_ST_INVALID, client_fsm_do_invalid),
      (CLIENT_FSM_ST_INVALID, client_fsm_do_invalid),
      (CLIENT_FSM_ST_INVALID, client_fsm_do_invalid)]"

definition client_fsm_trans_CLOSED_CONNECTION :: "(te_client_fsm_state \<times> client_fsm_callback_t) list" where
  "client_fsm_trans_CLOSED_CONNECTION =
     [(CLIENT_FSM_ST_CLOSED_CONNECTION, client_fsm_do_closed_connection_none),
      (CLIENT_FSM_ST_CLOSED_CONNECTION, client_fsm_do_CLOSED_CONNECTION_close_connection),
      (CLIENT_FSM_ST_INVALID, client_fsm_do_invalid),
      (CLIENT_FSM_ST_INVALID, client_fsm_do_invalid),
      (CLIENT_FSM_ST_INVALID, client_fsm_do_invalid),
      (CLIENT_FSM_ST_INVALID, client_fsm_do_invalid),
      (CLIENT_FSM_ST_INVALID, client_fsm_do_invalid),
      (CLIENT_FSM_ST_INVALID, client_fsm_do_invalid),
      (CLIENT_FSM_ST_INVALID, client_fsm_do_invalid),
      (CLIENT_FSM_ST_INVALID, client_fsm_do_invalid),
      (CLIENT_FSM_ST_INVALID, client_fsm_do_invalid),
      (CLIENT_FSM_ST_INVALID, client_fsm_do_invalid),
      (CLIENT_FSM_ST_INVALID, client_fsm_do_invalid),
      (CLIENT_FSM_ST_INVALID, client_fsm_do_invalid),
      (CLIENT_FSM_ST_INVALID, client_fsm_do_invalid),
      (CLIENT_FSM_ST_INVALID, client_fsm_do_invalid)]"

definition client_fsm_trans_table :: "(te_client_fsm_state \<times> client_fsm_callback_t) list list" where
  "client_fsm_trans_table =
     [client_fsm_trans_INIT,
      client_fsm_trans_SENDING_HELLO,
      client_fsm_trans_HELLO_SENDED,
      client_fsm_trans_SENDING_EHLO,
      client_fsm_trans_EHLO_SENDED,
      client_fsm_trans_GET_NEXT_MESSAGE_AND_SENDING_MAIL_OR_QUIT,
      client_fsm_trans_SENDING_MAIL_OR_QUIT,
      client_fsm_trans_MAIL_SENDED,
      client_fsm_trans_SENDING_RCPT_OR_DATA,
      client_fsm_trans_RCPT_SENDED,
      client_fsm_trans_DATA_SENDED,
      client_fsm_trans_RSET_SENDED,
      client_fsm_trans_SENDING_MSG_TEXT_OR_END_MSG,
      client_fsm_trans_MSG_TEXT_SENDED,
      client_fsm_trans_END_DATA_SENDED,
      client_fsm_trans_SENDING_QUIT,
      client_fsm_trans_QUIT_SENDED,
      client_fsm_trans_CLOSED_CONNECTION]"

fun fsm_state_no :: "te_client_fsm_state \<Rightarrow> nat" where
  "fsm_state_no CLIENT_FSM_ST_INIT = 0"
| "fsm_state_no CLIENT_FSM_ST_SENDING_HELLO = 1"
| "fsm_state_no CLIENT_FSM_ST_HELLO_SENDED = 2"
| "fsm_state_no CLIENT_FSM_ST_SENDING_EHLO = 3"
| "fsm_state_no CLIENT_FSM_ST_EHLO_SENDED = 4"
| "fsm_state_no CLIENT_FSM_ST_GET_NEXT_MESSAGE_AND_SENDING_MAIL_OR_QUIT = 5"
| "fsm_state_no CLIENT_FSM_ST_SENDING_MAIL_OR_QUIT = 6"
| "fsm_state_no CLIENT_FSM_ST_MAIL_SENDED = 7"
| "fsm_state_no CLIENT_FSM_ST_SENDING_RCPT_OR_DATA = 8"
| "fsm_state_no CLIENT_FSM_ST_RCPT_SENDED = 9"
| "fsm_state_no CLIENT_FSM_ST_DATA_SENDED = 10"
| "fsm_state_no CLIENT_FSM_ST_RSET_SENDED = 11"
| "fsm_state_no CLIENT_FSM_ST_SENDING_MSG_TEXT_OR_END_MSG = 12"
| "fsm_state_no CLIENT_FSM_ST_MSG_TEXT_SENDED = 13"
| "fsm_state_no CLIENT_FSM_ST_END_DATA_SENDED = 14"
| "fsm_state_no CLIENT_FSM_ST_SENDING_QUIT = 15"
| "fsm_state_no CLIENT_FSM_ST_QUIT_SENDED = 16"
| "fsm_state_no CLIENT_FSM_ST_CLOSED_CONNECTION = 17"
| "fsm_state_no CLIENT_FSM_ST_INVALID = 18"
| "fsm_state_no CLIENT_FSM_ST_DONE = 19"

fun fsm_event_no :: "te_client_fsm_event \<Rightarrow> nat" where
  "fsm_event_no CLIENT_FSM_EV_NONE = 0"
| "fsm_event_no CLIENT_FSM_EV_CLOSE_CONNECTION = 1"
| "fsm_event_no CLIENT_FSM_EV_RESPONSE_2XX = 2"
| "fsm_event_no CLIENT_FSM_EV_RESPONSE_3XX = 3"
| "fsm_event_no CLIENT_FSM_EV_RESPONSE_4XX = 4"
| "fsm_event_no CLIENT_FSM_EV_RESPONSE_502 = 5"
| "fsm_event_no CLIENT_FSM_EV_RESPONSE_5XX = 6"
| "fsm_event_no CLIENT_FSM_EV_HELLO = 7"
| "fsm_event_no CLIENT_FSM_EV_EHLO = 8"
| "fsm_event_no CLIENT_FSM_EV_MAIL = 9"
| "fsm_event_no CLIENT_FSM_EV_RSET = 10"
| "fsm_event_no CLIENT_FSM_EV_RCPT = 11"
| "fsm_event_no CLIENT_FSM_EV_DATA = 12"
| "fsm_event_no CLIENT_FSM_EV_MSG_TEXT = 13"
| "fsm_event_no CLIENT_FSM_EV_END_DATA = 14"
| "fsm_event_no CLIENT_FSM_EV_QUIT = 15"
| "fsm_event_no CLIENT_FSM_EV_INVALID = 16"

definition client_fsm_step :: "te_client_fsm_state \<Rightarrow> te_client_fsm_event \<Rightarrow> te_client_fsm_state run" where
  "client_fsm_step client_fsm_state trans_evt =
     (if fsm_state_no CLIENT_FSM_ST_INVALID \<le> fsm_state_no client_fsm_state then Done CLIENT_FSM_ST_INIT
      else if fsm_event_no CLIENT_FSM_EV_INVALID \<le> fsm_event_no trans_evt
      then client_fsm_do_invalid client_fsm_state CLIENT_FSM_ST_INVALID trans_evt
      else let (nxtSt, pT) = client_fsm_trans_table ! fsm_state_no client_fsm_state ! fsm_event_no trans_evt in
        pT client_fsm_state nxtSt trans_evt)"

section \<open>The transition list\<close>

text \<open>The entries of \<^verbatim>\<open>client.def\<close> in order; \<open>None\<close> is the state \<^verbatim>\<open>'*'\<close>.\<close>

definition client_fsm_def :: "(te_client_fsm_state option \<times> te_client_fsm_event \<times> te_client_fsm_state) list" where
  "client_fsm_def =
     [(Some CLIENT_FSM_ST_INIT, CLIENT_FSM_EV_RESPONSE_2XX, CLIENT_FSM_ST_SENDING_EHLO),
      (Some CLIENT_FSM_ST_INIT, CLIENT_FSM_EV_NONE, CLIENT_FSM_ST_INIT),
      (Some CLIENT_FSM_ST_SENDING_EHLO, CLIENT_FSM_EV_EHLO, CLIENT_FSM_ST_EHLO_SENDED),
      (Some CLIENT_FSM_ST_SENDING_HELLO, CLIENT_FSM_EV_HELLO, CLIENT_FSM_ST_HELLO_SENDED),
      (Some CLIENT_FSM_ST_SENDING_MAIL_OR_QUIT, CLIENT_FSM_EV_MAIL, CLIENT_FSM_ST_MAIL_SENDED),
      (Some CLIENT_FSM_ST_SENDING_MAIL_OR_QUIT, CLIENT_FSM_EV_QUIT, CLIENT_FSM_ST_QUIT_SENDED),
      (Some CLIENT_FSM_ST_SENDING_MAIL_OR_QUIT, CLIENT_FSM_EV_NONE, CLIENT_FSM_ST_SENDING_MAIL_OR_QUIT),
      (Some CLIENT_FSM_ST_GET_NEXT_MESSAGE_AND_SENDING_MAIL_OR_QUIT, CLIENT_FSM_EV_MAIL, CLIENT_FSM_ST_MAIL_SENDED),
      (Some CLIENT_FSM_ST_GET_NEXT_MESSAGE_AND_SENDING_MAIL_OR_QUIT, CLIENT_FSM_EV_QUIT, CLIENT_FSM_ST_QUIT_SENDED),
      (Some CLIENT_FSM_ST_SENDING_RCPT_OR_DATA, CLIENT_FSM_EV_RCPT, CLIENT_FSM_ST_RCPT_SENDED),
      (Some CLIENT_FSM_ST_SENDING_RCPT_OR_DATA, CLIENT_FSM_EV_DATA, CLIENT_FSM_ST_DATA_SENDED),
      (Some CLIENT_FSM_ST_SENDING_RCPT_OR_DATA, CLIENT_FSM_EV_RSET, CLIENT_FSM_ST_RSET_SENDED),
      (Some CLIENT_FSM_ST_SENDING_MSG_TEXT_OR_END_MSG, CLIENT_FSM_EV_MSG_TEXT, CLIENT_FSM_ST_MSG_TEXT_SENDED),
      (Some CLIENT_FSM_ST_SENDING_MSG_TEXT_OR_END_MSG, CLIENT_FSM_EV_RSET, CLIENT_FSM_ST_RSET_SENDED),
      (Some CLIENT_FSM_ST_SENDING_MSG_TEXT_OR_END_MSG, CLIENT_FSM_EV_END_DATA, CLIENT_FSM_ST_END_DATA_SENDED),
      (Some CLIENT_FSM_ST_HELLO_SENDED, CLIENT_FSM_EV_RESPONSE_2XX, CLIENT_FSM_ST_SENDING_MAIL_OR_QUIT),
      (Some CLIENT_FSM_ST_HELLO_SENDED, CLIENT_FSM_EV_RESPONSE_4XX, CLIENT_FSM_ST_HELLO_SENDED),
      (Some CLIENT_FSM_ST_HELLO_SENDED, CLIENT_FSM_EV_RESPONSE_502, CLIENT_FSM_ST_SENDING_EHLO),
      (Some CLIENT_FSM_ST_HELLO_SENDED, CLIENT_FSM_EV_RESPONSE_5XX, CLIENT_FSM_ST_CLOSED_CONNECTION),
      (Some CLIENT_FSM_ST_HELLO_SENDED, CLIENT_FSM_EV_NONE, CLIENT_FSM_ST_HELLO_SENDED),
      (Some CLIENT_FSM_ST_EHLO_SENDED, CLIENT_FSM_EV_RESPONSE_2XX, CLIENT_FSM_ST_SENDING_MAIL_OR_QUIT),
      (Some CLIENT_FSM_ST_EHLO_SENDED, CLIENT_FSM_EV_RESPONSE_4XX, CLIENT_FSM_ST_EHLO_SENDED),
      (Some CLIENT_FSM_ST_EHLO_SENDED, CLIENT_FSM_EV_RESPONSE_5XX, CLIENT_FSM_ST_CLOSED_CONNECTION),
      (Some CLIENT_FSM_ST_EHLO_SENDED, CLIENT_FSM_EV_NONE, CLIENT_FSM_ST_EHLO_SENDED),
      (Some CLIENT_FSM_ST_MAIL_SENDED, CLIENT_FSM_EV_RESPONSE_2XX, CLIENT_FSM_ST_SENDING_RCPT_OR_DATA),
      (Some CLIENT_FSM_ST_MAIL_SENDED, CLIENT_FSM_EV_RESPONSE_4XX, CLIENT_FSM_ST_SENDING_MAIL_OR_QUIT),
      (Some CLIENT_FSM_ST_MAIL_SENDED, CLIENT_FSM_EV_RESPONSE_5XX, CLIENT_FSM_ST_GET_NEXT_MESSAGE_AND_SENDING_MAIL_OR_QUIT),
      (Some CLIENT_FSM_ST_MAIL_SENDED, CLIENT_FSM_EV_NONE, CLIENT_FSM_ST_MAIL_SENDED),
      (Some CLIENT_FSM_ST_RCPT_SENDED, CLIENT_FSM_EV_RESPONSE_2XX, CLIENT_FSM_ST_SENDING_RCPT_OR_DATA),
      (Some CLIENT_FSM_ST_RCPT_SENDED, CLIENT_FSM_EV_RESPONSE_4XX, CLIENT_FSM_ST_SENDING_MAIL_OR_QUIT),
      (Some CLIENT_FSM_ST_RCPT_SENDED, CLIENT_FSM_EV_RESPONSE_5XX, CLIENT_FSM_ST_GET_NEXT_MESSAGE_AND_SENDING_MAIL_OR_QUIT),
      (Some CLIENT_FSM_ST_RCPT_SENDED, CLIENT_FSM_EV_NONE, CLIENT_FSM_ST_RCPT_SENDED),
      (Some CLIENT_FSM_ST_DATA_SENDED, CLIENT_FSM_EV_RESPONSE_3XX, CLIENT_FSM_ST_SENDING_MSG_TEXT_OR_END_MSG),
      (Some CLIENT_FSM_ST_DATA_SENDED, CLIENT_FSM_EV_RESPONSE_5XX, CLIENT_FSM_ST_GET_NEXT_MESSAGE_AND_SENDING_MAIL_OR_QUIT),
      (Some CLIENT_FSM_ST_DATA_SENDED, CLIENT_FSM_EV_NONE, CLIENT_FSM_ST_DATA_SENDED),
      (Some CLIENT_FSM_ST_RSET_SENDED, CLIENT_FSM_EV_RESPONSE_2XX, CLIENT_FSM_ST_GET_NEXT_MESSAGE_AND_SENDING_MAIL_OR_QUIT),
      (Some CLIENT_FSM_ST_RSET_SENDED, CLIENT_FSM_EV_NONE, CLIENT_FSM_ST_RSET_SENDED),
      (Some CLIENT_FSM_ST_MSG_TEXT_SENDED, CLIENT_FSM_EV_NONE, CLIENT_FSM_ST_SENDING_MSG_TEXT_OR_END_MSG),
      (Some CLIENT_FSM_ST_END_DATA_SENDED, CLIENT_FSM_EV_RESPONSE_2XX, CLIENT_FSM_ST_GET_NEXT_MESSAGE_AND_SENDING_MAIL_OR_QUIT),
      (Some CLIENT_FSM_ST_END_DATA_SENDED, CLIENT_FSM_EV_RESPONSE_4XX, CLIENT_FSM_ST_SENDING_MAIL_OR_QUIT),
      (Some CLIENT_FSM_ST_END_DATA_SENDED, CLIENT_FSM_EV_RESPONSE_5XX, CLIENT_FSM_ST_GET_NEXT_MESSAGE_AND_SENDING_MAIL_OR_QUIT),
      (Some CLIENT_FSM_ST_END_DATA_SENDED, CLIENT_FSM_EV_NONE, CLIENT_FSM_ST_END_DATA_SENDED),
      (Some CLIENT_FSM_ST_QUIT_SENDED, CLIENT_FSM_EV_NONE, CLIENT_FSM_ST_QUIT_SENDED),
      (Some CLIENT_FSM_ST_QUIT_SENDED, CLIENT_FSM_EV_RESPONSE_2XX, CLIENT_FSM_ST_CLOSED_CONNECTION),
      (Some CLIENT_FSM_ST_QUIT_SENDED, CLIENT_FSM_EV_RESPONSE_4XX, CLIENT_FSM_ST_CLOSED_CONNECTION),
      (Some CLIENT_FSM_ST_QUIT_SENDED, CLIENT_FSM_EV_RESPONSE_5XX, CLIENT_FSM_ST_CLOSED_CONNECTION),
      (None, CLIENT_FSM_EV_CLOSE_CONNECTION, CLIENT_FSM_ST_CLOSED_CONNECTION),
      (Some CLIENT_FSM_ST_CLOSED_CONNECTION, CLIENT_FSM_EV_NONE, CLIENT_FSM_ST_CLOSED_CONNECTION)]"

definition fsm_entries :: "te_client_fsm_state option \<Rightarrow> (te_client_fsm_state option \<times> te_client_fsm_event \<times> te_client_fsm_state) list" where
  "fsm_entries t = filter (\<lambda>(u, _, _). u = t) client_fsm_def"

definition fsm_def_next :: "te_client_fsm_state \<Rightarrow> te_client_fsm_event \<Rightarrow> te_client_fsm_state" where
  "fsm_def_next s e =
     (case find (\<lambda>(_, ev, _). ev = e) (fsm_entries (Some s)) of
        Some (_, _, n) \<Rightarrow> n
      | None \<Rightarrow> (case find (\<lambda>(_, ev, _). ev = e) (fsm_entries None) of
          Some (_, _, n) \<Rightarrow> n | None \<Rightarrow> CLIENT_FSM_ST_INVALID))"

lemma fsm_entries_simps [simp]:
  "fsm_entries (Some CLIENT_FSM_ST_INIT) = [(Some CLIENT_FSM_ST_INIT, CLIENT_FSM_EV_RESPONSE_2XX, CLIENT_FSM_ST_SENDING_EHLO),
     (Some CLIENT_FSM_ST_INIT, CLIENT_FSM_EV_NONE, CLIENT_FSM_ST_INIT)]"
  "fsm_entries (Some CLIENT_FSM_ST_SENDING_HELLO) = [(Some CLIENT_FSM_ST_SENDING_HELLO, CLIENT_FSM_EV_HELLO, CLIENT_FSM_ST_HELLO_SENDED)]"
  "fsm_entries (Some CLIENT_FSM_ST_HELLO_SENDED) = [(Some CLIENT_FSM_ST_HELLO_SENDED, CLIENT_FSM_EV_RESPONSE_2XX, CLIENT_FSM_ST_SENDING_MAIL_OR_QUIT),
     (Some CLIENT_FSM_ST_HELLO_SENDED, CLIENT_FSM_EV_RESPONSE_4XX, CLIENT_FSM_ST_HELLO_SENDED),
     (Some CLIENT_FSM_ST_HELLO_SENDED, CLIENT_FSM_EV_RESPONSE_502, CLIENT_FSM_ST_SENDING_EHLO),
     (Some CLIENT_FSM_ST_HELLO_SENDED, CLIENT_FSM_EV_RESPONSE_5XX, CLIENT_FSM_ST_CLOSED_CONNECTION),
     (Some CLIENT_FSM_ST_HELLO_SENDED, CLIENT_FSM_EV_NONE, CLIENT_FSM_ST_HELLO_SENDED)]"
  "fsm_entries (Some CLIENT_FSM_ST_SENDING_EHLO) = [(Some CLIENT_FSM_ST_SENDING_EHLO, CLIENT_FSM_EV_EHLO, CLIENT_FSM_ST_EHLO_SENDED)]"
  "fsm_entries (Some CLIENT_FSM_ST_EHLO_SENDED) = [(Some CLIENT_FSM_ST_EHLO_SENDED, CLIENT_FSM_EV_RESPONSE_2XX, CLIENT_FSM_ST_SENDING_MAIL_OR_QUIT),
     (Some CLIENT_FSM_ST_EHLO_SENDED, CLIENT_FSM_EV_RESPONSE_4XX, CLIENT_FSM_ST_EHLO_SENDED),
     (Some CLIENT_FSM_ST_EHLO_SENDED, CLIENT_FSM_EV_RESPONSE_5XX, CLIENT_FSM_ST_CLOSED_CONNECTION),
     (Some CLIENT_FSM_ST_EHLO_SENDED, CLIENT_FSM_EV_NONE, CLIENT_FSM_ST_EHLO_SENDED)]"
  "fsm_entries (Some CLIENT_FSM_ST_GET_NEXT_MESSAGE_AND_SENDING_MAIL_OR_QUIT) = [(Some CLIENT_FSM_ST_GET_NEXT_MESSAGE_AND_SENDING_MAIL_OR_QUIT, CLIENT_FSM_EV_MAIL, CLIENT_FSM_ST_MAIL_SENDED),
     (Some CLIENT_FSM_ST_GET_NEXT_MESSAGE_AND_SENDING_MAIL_OR_QUIT, CLIENT_FSM_EV_QUIT, CLIENT_FSM_ST_QUIT_SENDED)]"
  "fsm_entries (Some CLIENT_FSM_ST_SENDING_MAIL_OR_QUIT) = [(Some CLIENT_FSM_ST_SENDING_MAIL_OR_QUIT, CLIENT_FSM_EV_MAIL, CLIENT_FSM_ST_MAIL_SENDED),
     (Some CLIENT_FSM_ST_SENDING_MAIL_OR_QUIT, CLIENT_FSM_EV_QUIT, CLIENT_FSM_ST_QUIT_SENDED),
     (Some CLIENT_FSM_ST_SENDING_MAIL_OR_QUIT, CLIENT_FSM_EV_NONE, CLIENT_FSM_ST_SENDING_MAIL_OR_QUIT)]"
  "fsm_entries (Some CLIENT_FSM_ST_MAIL_SENDED) = [(Some CLIENT_FSM_ST_MAIL_SENDED, CLIENT_FSM_EV_RESPONSE_2XX, CLIENT_FSM_ST_SENDING_RCPT_OR_DATA),
     (Some CLIENT_FSM_ST_MAIL_SENDED, CLIENT_FSM_EV_RESPONSE_4XX, CLIENT_FSM_ST_SENDING_MAIL_OR_QUIT),
     (Some CLIENT_FSM_ST_MAIL_SENDED, CLIENT_FSM_EV_RESPONSE_5XX, CLIENT_FSM_ST_GET_NEXT_MESSAGE_AND_SENDING_MAIL_OR_QUIT),
     (Some CLIENT_FSM_ST_MAIL_SENDED, CLIENT_FSM_EV_NONE, CLIENT_FSM_ST_MAIL_SENDED)]"
  "fsm_entries (Some CLIENT_FSM_ST_SENDING_RCPT_OR_DATA) = [(Some CLIENT_FSM_ST_SENDING_RCPT_OR_DATA, CLIENT_FSM_EV_RCPT, CLIENT_FSM_ST_RCPT_SENDED),
     (Some CLIENT_FSM_ST_SENDING_RCPT_OR_DATA, CLIENT_FSM_EV_DATA, CLIENT_FSM_ST_DATA_SENDED),
     (Some CLIENT_FSM_ST_SENDING_RCPT_OR_DATA, CLIENT_FSM_EV_RSET, CLIENT_FSM_ST_RSET_SENDED)]"
  "fsm_entries (Some CLIENT_FSM_ST_RCPT_SENDED) = [(Some CLIENT_FSM_ST_RCPT_SENDED, CLIENT_FSM_EV_RESPONSE_2XX, CLIENT_FSM_ST_SENDING_RCPT_OR_DATA),
     (Some CLIENT_FSM_ST_RCPT_SENDED, CLIENT_FSM_EV_RESPONSE_4XX, CLIENT_FSM_ST_SENDING_MAIL_OR_QUIT),
     (Some CLIENT_FSM_ST_RCPT_SENDED, CLIENT_FSM_EV_RESPONSE_5XX, CLIENT_FSM_ST_GET_NEXT_MESSAGE_AND_SENDING_MAIL_OR_QUIT),
     (Some CLIENT_FSM_ST_RCPT_SENDED, CLIENT_FSM_EV_NONE, CLIENT_FSM_ST_RCPT_SENDED)]"
  "fsm_entries (Some CLIENT_FSM_ST_DATA_SENDED) = [(Some CLIENT_FSM_ST_DATA_SENDED, CLIENT_FSM_EV_RESPONSE_3XX, CLIENT_FSM_ST_SENDING_MSG_TEXT_OR_END_MSG),
     (Some CLIENT_FSM_ST_DATA_SENDED, CLIENT_FSM_EV_RESPONSE_5XX, CLIENT_FSM_ST_GET_NEXT_MESSAGE_AND_SENDING_MAIL_OR_QUIT),
     (Some CLIENT_FSM_ST_DATA_SENDED, CLIENT_FSM_EV_NONE, CLIENT_FSM_ST_DATA_SENDED)]"
  "fsm_entries (Some CLIENT_FSM_ST_RSET_SENDED) = [(Some CLIENT_FSM_ST_RSET_SENDED, CLIENT_FSM_EV_RESPONSE_2XX, CLIENT_FSM_ST_GET_NEXT_MESSAGE_AND_SENDING_MAIL_OR_QUIT),
     (Some CLIENT_FSM_ST_RSET_SENDED, CLIENT_FSM_EV_NONE, CLIENT_FSM_ST_RSET_SENDED)]"
  "fsm_entries (Some CLIENT_FSM_ST_SENDING_MSG_TEXT_OR_END_MSG) = [(Some CLIENT_FSM_ST_SENDING_MSG_TEXT_OR_END_MSG, CLIENT_FSM_EV_MSG_TEXT, CLIENT_FSM_ST_MSG_TEXT_SENDED),
     (Some CLIENT_FSM_ST_SENDING_MSG_TEXT_OR_END_MSG, CLIENT_FSM_EV_RSET, CLIENT_FSM_ST_RSET_SENDED),
     (Some CLIENT_FSM_ST_SENDING_MSG_TEXT_OR_END_MSG, CLIENT_FSM_EV_END_DATA, CLIENT_FSM_ST_END_DATA_SENDED)]"
  "fsm_entries (Some CLIENT_FSM_ST_MSG_TEXT_SENDED) = [(Some CLIENT_FSM_ST_MSG_TEXT_SENDED, CLIENT_FSM_EV_NONE, CLIENT_FSM_ST_SENDING_MSG_TEXT_OR_END_MSG)]"
  "fsm_entries (Some CLIENT_FSM_ST_END_DATA_SENDED) = [(Some CLIENT_FSM_ST_END_DATA_SENDED, CLIENT_FSM_EV_RESPONSE_2XX, CLIENT_FSM_ST_GET_NEXT_MESSAGE_AND_SENDING_MAIL_OR_QUIT),
     (Some CLIENT_FSM_ST_END_DATA_SENDED, CLIENT_FSM_EV_RESPONSE_4XX, CLIENT_FSM_ST_SENDING_MAIL_OR_QUIT),
     (Some CLIENT_FSM_ST_END_DATA_SENDED, CLIENT_FSM_EV_RESPONSE_5XX, CLIENT_FSM_ST_GET_NEXT_MESSAGE_AND_SENDING_MAIL_OR_QUIT),
     (Some CLIENT_FSM_ST_END_DATA_SENDED, CLIENT_FSM_EV_NONE, CLIENT_FSM_ST_END_DATA_SENDED)]"
  "fsm_entries (Some CLIENT_FSM_ST_SENDING_QUIT) = []"
  "fsm_entries (Some CLIENT_FSM_ST_QUIT_SENDED) = [(Some CLIENT_FSM_ST_QUIT_SENDED, CLIENT_FSM_EV_NONE, CLIENT_FSM_ST_QUIT_SENDED),
     (Some CLIENT_FSM_ST_QUIT_SENDED, CLIENT_FSM_EV_RESPONSE_2XX, CLIENT_FSM_ST_CLOSED_CONNECTION),
     (Some CLIENT_FSM_ST_QUIT_SENDED, CLIENT_FSM_EV_RESPONSE_4XX, CLIENT_FSM_ST_CLOSED_CONNECTION),
     (Some CLIENT_FSM_ST_QUIT_SENDED, CLIENT_FSM_EV_RESPONSE_5XX, CLIENT_FSM_ST_CLOSED_CONNECTION)]"
  "fsm_entries (Some CLIENT_FSM_ST_CLOSED_CONNECTION) = [(Some CLIENT_FSM_ST_CLOSED_CONNECTION, CLIENT_FSM_EV_NONE, CLIENT_FSM_ST_CLOSED_CONNECTION)]"
  "fsm_entries (Some CLIENT_FSM_ST_INVALID) = []"
  "fsm_entries (Some CLIENT_FSM_ST_DONE) = []"
  "fsm_entries None = [(None, CLIENT_FSM_EV_CLOSE_CONNECTION, CLIENT_FSM_ST_CLOSED_CONNECTION)]"
  by (simp_all add: fsm_entries_def client_fsm_def_def)

lemmas fsm_callbacks =
  client_fsm_do_CLOSED_CONNECTION_close_connection_def client_fsm_do_DATA_SENDED_close_connection_def
  client_fsm_do_EHLO_SENDED_close_connection_def client_fsm_do_END_DATA_SENDED_close_connection_def
  client_fsm_do_GET_NEXT_MESSAGE_AND_SENDING_MAIL_OR_QUIT_close_connection_def
  client_fsm_do_HELLO_SENDED_close_connection_def client_fsm_do_INIT_close_connection_def
  client_fsm_do_MAIL_SENDED_close_connection_def client_fsm_do_MSG_TEXT_SENDED_close_connection_def
  client_fsm_do_QUIT_SENDED_close_connection_def client_fsm_do_RCPT_SENDED_close_connection_def
  client_fsm_do_RSET_SENDED_close_connection_def client_fsm_do_SENDING_EHLO_close_connection_def
  client_fsm_do_SENDING_HELLO_close_connection_def
  client_fsm_do_SENDING_MAIL_OR_QUIT_close_connection_def
  client_fsm_do_SENDING_MSG_TEXT_OR_END_MSG_close_connection_def
  client_fsm_do_SENDING_QUIT_close_connection_def client_fsm_do_SENDING_RCPT_OR_DATA_close_connection_def
  client_fsm_do_closed_connection_none_def client_fsm_do_data_sended_none_def
  client_fsm_do_data_sended_response_3xx_def client_fsm_do_data_sended_response_5xx_def
  client_fsm_do_ehlo_sended_none_def client_fsm_do_ehlo_sended_response_2xx_def
  client_fsm_do_ehlo_sended_response_4xx_def client_fsm_do_ehlo_sended_response_5xx_def
  client_fsm_do_end_data_sended_none_def client_fsm_do_end_data_sended_response_2xx_def
  client_fsm_do_end_data_sended_response_4xx_def client_fsm_do_end_data_sended_response_5xx_def
  client_fsm_do_get_next_message_and_sending_mail_or_quit_mail_def
  client_fsm_do_get_next_message_and_sending_mail_or_quit_quit_def client_fsm_do_hello_sended_none_def
  client_fsm_do_hello_sended_response_2xx_def client_fsm_do_hello_sended_response_4xx_def
  client_fsm_do_hello_sended_response_502_def client_fsm_do_hello_sended_response_5xx_def
  client_fsm_do_init_none_def client_fsm_do_init_response_2xx_def client_fsm_do_mail_sended_none_def
  client_fsm_do_mail_sended_response_2xx_def client_fsm_do_mail_sended_response_4xx_def
  client_fsm_do_mail_sended_response_5xx_def client_fsm_do_msg_text_sended_none_def
  client_fsm_do_quit_sended_none_def client_fsm_do_quit_sended_response_2xx_def
  client_fsm_do_quit_sended_response_4xx_def client_fsm_do_quit_sended_response_5xx_def
  client_fsm_do_rcpt_sended_none_def client_fsm_do_rcpt_sended_response_2xx_def
  client_fsm_do_rcpt_sended_response_4xx_def client_fsm_do_rcpt_sended_response_5xx_def
  client_fsm_do_rset_sended_none_def client_fsm_do_rset_sended_response_2xx_def
  client_fsm_do_sending_ehlo_ehlo_def client_fsm_do_sending_hello_hello_def
  client_fsm_do_sending_mail_or_quit_mail_def client_fsm_do_sending_mail_or_quit_none_def
  client_fsm_do_sending_mail_or_quit_quit_def client_fsm_do_sending_msg_text_or_end_msg_end_data_def
  client_fsm_do_sending_msg_text_or_end_msg_msg_text_def
  client_fsm_do_sending_msg_text_or_end_msg_rset_def client_fsm_do_sending_rcpt_or_data_data_def
  client_fsm_do_sending_rcpt_or_data_rcpt_def client_fsm_do_sending_rcpt_or_data_rset_def

section \<open>The table implements the list\<close>

definition returns_maybe_next :: "client_fsm_callback_t \<Rightarrow> bool" where
  "returns_maybe_next f \<longleftrightarrow> (\<forall>i n e. f i n e = Done n)"

lemma fsm_callbacks_return [simp]:
  "returns_maybe_next client_fsm_do_CLOSED_CONNECTION_close_connection"
  "returns_maybe_next client_fsm_do_DATA_SENDED_close_connection"
  "returns_maybe_next client_fsm_do_EHLO_SENDED_close_connection"
  "returns_maybe_next client_fsm_do_END_DATA_SENDED_close_connection"
  "returns_maybe_next client_fsm_do_GET_NEXT_MESSAGE_AND_SENDING_MAIL_OR_QUIT_close_connection"
  "returns_maybe_next client_fsm_do_HELLO_SENDED_close_connection"
  "returns_maybe_next client_fsm_do_INIT_close_connection"
  "returns_maybe_next client_fsm_do_MAIL_SENDED_close_connection"
  "returns_maybe_next client_fsm_do_MSG_TEXT_SENDED_close_connection"
  "returns_maybe_next client_fsm_do_QUIT_SENDED_close_connection"
  "returns_maybe_next client_fsm_do_RCPT_SENDED_close_connection"
  "returns_maybe_next client_fsm_do_RSET_SENDED_close_connection"
  "returns_maybe_next client_fsm_do_SENDING_EHLO_close_connection"
  "returns_maybe_next client_fsm_do_SENDING_HELLO_close_connection"
  "returns_maybe_next client_fsm_do_SENDING_MAIL_OR_QUIT_close_connection"
  "returns_maybe_next client_fsm_do_SENDING_MSG_TEXT_OR_END_MSG_close_connection"
  "returns_maybe_next client_fsm_do_SENDING_QUIT_close_connection"
  "returns_maybe_next client_fsm_do_SENDING_RCPT_OR_DATA_close_connection"
  "returns_maybe_next client_fsm_do_closed_connection_none"
  "returns_maybe_next client_fsm_do_data_sended_none"
  "returns_maybe_next client_fsm_do_data_sended_response_3xx"
  "returns_maybe_next client_fsm_do_data_sended_response_5xx"
  "returns_maybe_next client_fsm_do_ehlo_sended_none"
  "returns_maybe_next client_fsm_do_ehlo_sended_response_2xx"
  "returns_maybe_next client_fsm_do_ehlo_sended_response_4xx"
  "returns_maybe_next client_fsm_do_ehlo_sended_response_5xx"
  "returns_maybe_next client_fsm_do_end_data_sended_none"
  "returns_maybe_next client_fsm_do_end_data_sended_response_2xx"
  "returns_maybe_next client_fsm_do_end_data_sended_response_4xx"
  "returns_maybe_next client_fsm_do_end_data_sended_response_5xx"
  "returns_maybe_next client_fsm_do_get_next_message_and_sending_mail_or_quit_mail"
  "returns_maybe_next client_fsm_do_get_next_message_and_sending_mail_or_quit_quit"
  "returns_maybe_next client_fsm_do_hello_sended_none"
  "returns_maybe_next client_fsm_do_hello_sended_response_2xx"
  "returns_maybe_next client_fsm_do_hello_sended_response_4xx"
  "returns_maybe_next client_fsm_do_hello_sended_response_502"
  "returns_maybe_next client_fsm_do_hello_sended_response_5xx"
  "returns_maybe_next client_fsm_do_init_none"
  "returns_maybe_next client_fsm_do_init_response_2xx"
  "returns_maybe_next client_fsm_do_mail_sended_none"
  "returns_maybe_next client_fsm_do_mail_sended_response_2xx"
  "returns_maybe_next client_fsm_do_mail_sended_response_4xx"
  "returns_maybe_next client_fsm_do_mail_sended_response_5xx"
  "returns_maybe_next client_fsm_do_msg_text_sended_none"
  "returns_maybe_next client_fsm_do_quit_sended_none"
  "returns_maybe_next client_fsm_do_quit_sended_response_2xx"
  "returns_maybe_next client_fsm_do_quit_sended_response_4xx"
  "returns_maybe_next client_fsm_do_quit_sended_response_5xx"
  "returns_maybe_next client_fsm_do_rcpt_sended_none"
  "returns_maybe_next client_fsm_do_rcpt_sended_response_2xx"
  "returns_maybe_next client_fsm_do_rcpt_sended_response_4xx"
  "returns_maybe_next client_fsm_do_rcpt_sended_response_5xx"
  "returns_maybe_next client_fsm_do_rset_sended_none"
  "returns_maybe_next client_fsm_do_rset_sended_response_2xx"
  "returns_maybe_next client_fsm_do_sending_ehlo_ehlo"
  "returns_maybe_next client_fsm_do_sending_hello_hello"
  "returns_maybe_next client_fsm_do_sending_mail_or_quit_mail"
  "returns_maybe_next client_fsm_do_sending_mail_or_quit_none"
  "returns_maybe_next client_fsm_do_sending_mail_or_quit_quit"
  "returns_maybe_next client_fsm_do_sending_msg_text_or_end_msg_end_data"
  "returns_maybe_next client_fsm_do_sending_msg_text_or_end_msg_msg_text"
  "returns_maybe_next client_fsm_do_sending_msg_text_or_end_msg_rset"
  "returns_maybe_next client_fsm_do_sending_rcpt_or_data_data"
  "returns_maybe_next client_fsm_do_sending_rcpt_or_data_rcpt"
  "returns_maybe_next client_fsm_do_sending_rcpt_or_data_rset"
  by (simp_all add: returns_maybe_next_def fsm_callbacks)

definition fsm_entry_ok :: "te_client_fsm_state \<Rightarrow> te_client_fsm_event \<Rightarrow> te_client_fsm_state \<times> client_fsm_callback_t \<Rightarrow> bool" where
  "fsm_entry_ok s e ent \<longleftrightarrow> fst ent = fsm_def_next s e \<and>
     (if fsm_def_next s e = CLIENT_FSM_ST_INVALID then snd ent = client_fsm_do_invalid else returns_maybe_next (snd ent))"

lemma fsm_row_INIT:
  "fsm_event_no e < 16 \<Longrightarrow> fsm_entry_ok CLIENT_FSM_ST_INIT e (client_fsm_trans_INIT ! fsm_event_no e)"
  by (cases e) (simp_all add: fsm_entry_ok_def fsm_def_next_def client_fsm_trans_INIT_def)

lemma fsm_row_SENDING_HELLO:
  "fsm_event_no e < 16 \<Longrightarrow> fsm_entry_ok CLIENT_FSM_ST_SENDING_HELLO e (client_fsm_trans_SENDING_HELLO ! fsm_event_no e)"
  by (cases e) (simp_all add: fsm_entry_ok_def fsm_def_next_def client_fsm_trans_SENDING_HELLO_def)

lemma fsm_row_HELLO_SENDED:
  "fsm_event_no e < 16 \<Longrightarrow> fsm_entry_ok CLIENT_FSM_ST_HELLO_SENDED e (client_fsm_trans_HELLO_SENDED ! fsm_event_no e)"
  by (cases e) (simp_all add: fsm_entry_ok_def fsm_def_next_def client_fsm_trans_HELLO_SENDED_def)

lemma fsm_row_SENDING_EHLO:
  "fsm_event_no e < 16 \<Longrightarrow> fsm_entry_ok CLIENT_FSM_ST_SENDING_EHLO e (client_fsm_trans_SENDING_EHLO ! fsm_event_no e)"
  by (cases e) (simp_all add: fsm_entry_ok_def fsm_def_next_def client_fsm_trans_SENDING_EHLO_def)

lemma fsm_row_EHLO_SENDED:
  "fsm_event_no e < 16 \<Longrightarrow> fsm_entry_ok CLIENT_FSM_ST_EHLO_SENDED e (client_fsm_trans_EHLO_SENDED ! fsm_event_no e)"
  by (cases e) (simp_all add: fsm_entry_ok_def fsm_def_next_def client_fsm_trans_EHLO_SENDED_def)

lemma fsm_row_GET_NEXT_MESSAGE_AND_SENDING_MAIL_OR_QUIT:
  "fsm_event_no e < 16 \<Longrightarrow> fsm_entry_ok CLIENT_FSM_ST_GET_NEXT_MESSAGE_AND_SENDING_MAIL_OR_QUIT e (client_fsm_trans_GET_NEXT_MESSAGE_AND_SENDING_MAIL_OR_QUIT ! fsm_event_no e)"
  by (cases e) (simp_all add: fsm_entry_ok_def fsm_def_next_def client_fsm_trans_GET_NEXT_MESSAGE_AND_SENDING_MAIL_OR_QUIT_def)

lemma fsm_row_SENDING_MAIL_OR_QUIT:
  "fsm_event_no e < 16 \<Longrightarrow> fsm_entry_ok CLIENT_FSM_ST_SENDING_MAIL_OR_QUIT e (client_fsm_trans_SENDING_MAIL_OR_QUIT ! fsm_event_no e)"
  by (cases e) (simp_all add: fsm_entry_ok_def fsm_def_next_def client_fsm_trans_SENDING_MAIL_OR_QUIT_def)

lemma fsm_row_MAIL_SENDED:
  "fsm_event_no e < 16 \<Longrightarrow> fsm_entry_ok CLIENT_FSM_ST_MAIL_SENDED e (client_fsm_trans_MAIL_SENDED ! fsm_event_no e)"
  by (cases e) (simp_all add: fsm_entry_ok_def fsm_def_next_def client_fsm_trans_MAIL_SENDED_def)

lemma fsm_row_SENDING_RCPT_OR_DATA:
  "fsm_event_no e < 16 \<Longrightarrow> fsm_entry_ok CLIENT_FSM_ST_SENDING_RCPT_OR_DATA e (client_fsm_trans_SENDING_RCPT_OR_DATA ! fsm_event_no e)"
  by (cases e) (simp_all add: fsm_entry_ok_def fsm_def_next_def client_fsm_trans_SENDING_RCPT_OR_DATA_def)

lemma fsm_row_RCPT_SENDED:
  "fsm_event_no e < 16 \<Longrightarrow> fsm_entry_ok CLIENT_FSM_ST_RCPT_SENDED e (client_fsm_trans_RCPT_SENDED ! fsm_event_no e)"
  by (cases e) (simp_all add: fsm_entry_ok_def fsm_def_next_def client_fsm_trans_RCPT_SENDED_def)

lemma fsm_row_DATA_SENDED:
  "fsm_event_no e < 16 \<Longrightarrow> fsm_entry_ok CLIENT_FSM_ST_DATA_SENDED e (client_fsm_trans_DATA_SENDED ! fsm_event_no e)"
  by (cases e) (simp_all add: fsm_entry_ok_def fsm_def_next_def client_fsm_trans_DATA_SENDED_def)

lemma fsm_row_RSET_SENDED:
  "fsm_event_no e < 16 \<Longrightarrow> fsm_entry_ok CLIENT_FSM_ST_RSET_SENDED e (client_fsm_trans_RSET_SENDED ! fsm_event_no e)"
  by (cases e) (simp_all add: fsm_entry_ok_def fsm_def_next_def client_fsm_trans_RSET_SENDED_def)

lemma fsm_row_SENDING_MSG_TEXT_OR_END_MSG:
  "fsm_event_no e < 16 \<Longrightarrow> fsm_entry_ok CLIENT_FSM_ST_SENDING_MSG_TEXT_OR_END_MSG e (client_fsm_trans_SENDING_MSG_TEXT_OR_END_MSG ! fsm_event_no e)"
  by (cases e) (simp_all add: fsm_entry_ok_def fsm_def_next_def client_fsm_trans_SENDING_MSG_TEXT_OR_END_MSG_def)

lemma fsm_row_MSG_TEXT_SENDED:
  "fsm_event_no e < 16 \<Longrightarrow> fsm_entry_ok CLIENT_FSM_ST_MSG_TEXT_SENDED e (client_fsm_trans_MSG_TEXT_SENDED ! fsm_event_no e)"
  by (cases e) (simp_all add: fsm_entry_ok_def fsm_def_next_def client_fsm_trans_MSG_TEXT_SENDED_def)

lemma fsm_row_END_DATA_SENDED:
  "fsm_event_no e < 16 \<Longrightarrow> fsm_entry_ok CLIENT_FSM_ST_END_DATA_SENDED e (client_fsm_trans_END_DATA_SENDED ! fsm_event_no e)"
  by (cases e) (simp_all add: fsm_entry_ok_def fsm_def_next_def client_fsm_trans_END_DATA_SENDED_def)

lemma fsm_row_SENDING_QUIT:
  "fsm_event_no e < 16 \<Longrightarrow> fsm_entry_ok CLIENT_FSM_ST_SENDING_QUIT e (client_fsm_trans_SENDING_QUIT ! fsm_event_no e)"
  by (cases e) (simp_all add: fsm_entry_ok_def fsm_def_next_def client_fsm_trans_SENDING_QUIT_def)

lemma fsm_row_QUIT_SENDED:
  "fsm_event_no e < 16 \<Longrightarrow> fsm_entry_ok CLIENT_FSM_ST_QUIT_SENDED e (client_fsm_trans_QUIT_SENDED ! fsm_event_no e)"
  by (cases e) (simp_all add: fsm_entry_ok_def fsm_def_next_def client_fsm_trans_QUIT_SENDED_def)

lemma fsm_row_CLOSED_CONNECTION:
  "fsm_event_no e < 16 \<Longrightarrow> fsm_entry_ok CLIENT_FSM_ST_CLOSED_CONNECTION e (client_fsm_trans_CLOSED_CONNECTION ! fsm_event_no e)"
  by (cases e) (simp_all add: fsm_entry_ok_def fsm_def_next_def client_fsm_trans_CLOSED_CONNECTION_def)

lemmas fsm_rows_ok =
  fsm_row_INIT fsm_row_SENDING_HELLO fsm_row_HELLO_SENDED fsm_row_SENDING_EHLO fsm_row_EHLO_SENDED
  fsm_row_GET_NEXT_MESSAGE_AND_SENDING_MAIL_OR_QUIT fsm_row_SENDING_MAIL_OR_QUIT fsm_row_MAIL_SENDED
  fsm_row_SENDING_RCPT_OR_DATA fsm_row_RCPT_SENDED fsm_row_DATA_SENDED fsm_row_RSET_SENDED
  fsm_row_SENDING_MSG_TEXT_OR_END_MSG fsm_row_MSG_TEXT_SENDED fsm_row_END_DATA_SENDED
  fsm_row_SENDING_QUIT fsm_row_QUIT_SENDED fsm_row_CLOSED_CONNECTION

definition fsm_live :: "te_client_fsm_state \<Rightarrow> bool" where
  "fsm_live s \<longleftrightarrow> fsm_state_no s < fsm_state_no CLIENT_FSM_ST_INVALID"

lemma fsm_live_iff: "fsm_live s \<longleftrightarrow> s \<noteq> CLIENT_FSM_ST_INVALID \<and> s \<noteq> CLIENT_FSM_ST_DONE"
  by (cases s) (simp_all add: fsm_live_def)

lemma fsm_event_valid: "fsm_event_no e < 16 \<longleftrightarrow> e \<noteq> CLIENT_FSM_EV_INVALID"
  by (cases e) simp_all

lemma fsm_table_ok:
  assumes "fsm_live s" and "fsm_event_no e < 16"
  shows "fsm_entry_ok s e (client_fsm_trans_table ! fsm_state_no s ! fsm_event_no e)"
  using assms(1) fsm_rows_ok [OF assms(2)] by (cases s) (simp_all add: client_fsm_trans_table_def fsm_live_iff)

lemma fsm_def_next_INVALID_event: "fsm_def_next s CLIENT_FSM_EV_INVALID = CLIENT_FSM_ST_INVALID"
  by (cases s) (simp_all add: fsm_def_next_def)

lemma client_fsm_step_live:
  assumes "fsm_live s"
  shows "client_fsm_step s e =
     (if fsm_def_next s e = CLIENT_FSM_ST_INVALID then Fault Exit_Called else Done (fsm_def_next s e))"
proof (cases "e = CLIENT_FSM_EV_INVALID")
  case True
  with assms show ?thesis
    by (simp add: client_fsm_step_def fsm_live_def client_fsm_do_invalid_def fsm_def_next_INVALID_event)
next
  case False
  then have e: "fsm_event_no e < 16" by (simp add: fsm_event_valid)
  from fsm_table_ok [OF assms e] assms e show ?thesis
    by (auto simp: client_fsm_step_def fsm_live_def fsm_entry_ok_def client_fsm_do_invalid_def returns_maybe_next_def
        case_prod_beta Let_def split: if_splits)
qed

lemma client_fsm_step_terminal: "\<not> fsm_live s \<Longrightarrow> client_fsm_step s e = Done CLIENT_FSM_ST_INIT"
  by (simp add: client_fsm_step_def fsm_live_def)

definition client_step_unit :: "te_client_fsm_state \<Rightarrow> te_client_fsm_event \<Rightarrow> unit \<Rightarrow> (te_client_fsm_state \<times> unit) run" where
  "client_step_unit s e u = rbind (client_fsm_step s e) (\<lambda>s'. Done (s', ()))"

interpretation cfsm: table_fsm client_step_unit fsm_def_next fsm_live CLIENT_FSM_ST_INIT
  by unfold_locales (auto simp: client_step_unit_def client_fsm_step_live client_fsm_step_terminal rbind_Done_iff split: if_splits)

text \<open>
  C17: the client's table implements the transition list of its \<open>client.def\<close> exactly: a
  listed event leads to the listed state; an event that is not listed, such as a reply with
  an unexpected code, makes the process exit; a terminal state restarts the automaton.
\<close>

theorem client_fsm_step_follows_def:
  "client_fsm_step s e =
     (if s = CLIENT_FSM_ST_INVALID \<or> s = CLIENT_FSM_ST_DONE then Done CLIENT_FSM_ST_INIT
      else if fsm_def_next s e = CLIENT_FSM_ST_INVALID then Fault Exit_Called
      else Done (fsm_def_next s e))"
  using client_fsm_step_live [of s e] client_fsm_step_terminal [of s e] by (auto simp: fsm_live_iff)

section \<open>Runs\<close>

fun client_fsm_run :: "te_client_fsm_state \<Rightarrow> te_client_fsm_event list \<Rightarrow> te_client_fsm_state run" where
  "client_fsm_run s [] = Done s"
| "client_fsm_run s (e # es) = rbind (client_fsm_step s e) (\<lambda>s'. client_fsm_run s' es)"

lemma run_events_client_fsm_run: "cfsm.run_events s es u = rbind (client_fsm_run s es) (\<lambda>s'. Done (s', ()))"
proof (induction es arbitrary: s u)
  case (Cons e es)
  have "client_step_unit s e u = rbind (client_fsm_step s e) (\<lambda>s'. Done (s', ()))" by (simp add: client_step_unit_def)
  with Cons show ?case by (cases "client_fsm_step s e") simp_all
qed simp

lemma find_SomeD: "find p xs = Some x \<Longrightarrow> x \<in> set xs \<and> p x"
  by (induction xs) (auto split: if_splits)

lemma fsm_entries_sub: "x \<in> set (fsm_entries t) \<Longrightarrow> x \<in> set client_fsm_def \<and> fst x = t"
  by (auto simp: fsm_entries_def)

lemma fsm_def_next_listed:
  assumes "fsm_def_next s e = n" "n \<noteq> CLIENT_FSM_ST_INVALID"
  shows "\<exists>t. (t, e, n) \<in> set client_fsm_def \<and> (t = Some s \<or> t = None)"
proof -
  obtain t x where x: "t = Some s \<or> t = None" "find (\<lambda>(_, ev, _). ev = e) (fsm_entries t) = Some x" "snd (snd x) = n"
    using assms by (auto simp: fsm_def_next_def case_prod_beta simp del: fsm_entries_simps split: option.splits)
  from find_SomeD [OF x(2)] have "x \<in> set client_fsm_def" "fst x = t" "fst (snd x) = e"
    using fsm_entries_sub [of x t] by (auto simp: case_prod_beta)
  with x(1,3) show ?thesis by (metis prod.collapse)
qed

text \<open>The states in which text of the mail is sent, and the steps into them and into \<open>DATA_SENDED\<close>.\<close>

definition text_states :: "te_client_fsm_state set" where
  "text_states = {CLIENT_FSM_ST_SENDING_MSG_TEXT_OR_END_MSG, CLIENT_FSM_ST_MSG_TEXT_SENDED}"

lemma enter_text_states:
  assumes "fsm_def_next s e \<in> text_states"
  shows "s = CLIENT_FSM_ST_DATA_SENDED \<and> e = CLIENT_FSM_EV_RESPONSE_3XX
    \<or> s \<in> text_states \<and> e \<in> {CLIENT_FSM_EV_MSG_TEXT, CLIENT_FSM_EV_NONE}"
proof -
  obtain n where n: "fsm_def_next s e = n" "n \<in> text_states" using assms by blast
  then have "n \<noteq> CLIENT_FSM_ST_INVALID" by (auto simp: text_states_def)
  with fsm_def_next_listed [OF n(1)] n(2) show ?thesis
    by (auto simp: text_states_def client_fsm_def_def)
qed

lemma enter_data_sended:
  assumes "fsm_def_next s e = CLIENT_FSM_ST_DATA_SENDED"
  shows "s = CLIENT_FSM_ST_SENDING_RCPT_OR_DATA \<and> e = CLIENT_FSM_EV_DATA
    \<or> s = CLIENT_FSM_ST_DATA_SENDED \<and> e = CLIENT_FSM_EV_NONE"
  using fsm_def_next_listed [OF assms] by (auto simp: client_fsm_def_def)

lemma client_fsm_run_snoc:
  "client_fsm_run s (es @ [e]) = Done s' \<Longrightarrow> \<exists>s0. client_fsm_run s es = Done s0 \<and> client_fsm_step s0 e = Done s'"
  by (induction es arbitrary: s) (auto simp: rbind_Done_iff)

lemma client_fsm_step_next: "client_fsm_step s e = Done s' \<Longrightarrow> s' = fsm_def_next s e \<or> s' = CLIENT_FSM_ST_INIT"
  using cfsm.step_next [of s e "()" s' "()"] by (auto simp: client_step_unit_def cfsm.next_state_def split: if_splits)

text \<open>How \<open>DATA_SENDED\<close> was reached: from the recipients by DATA, and nothing has come in since.\<close>

definition data_pending :: "te_client_fsm_event list \<Rightarrow> bool" where
  "data_pending es \<longleftrightarrow> (\<exists>pre waits. es = pre @ [CLIENT_FSM_EV_DATA] @ waits \<and> set waits \<subseteq> {CLIENT_FSM_EV_NONE}
     \<and> client_fsm_run CLIENT_FSM_ST_INIT pre = Done CLIENT_FSM_ST_SENDING_RCPT_OR_DATA)"

lemma text_needs_data:
  "client_fsm_run CLIENT_FSM_ST_INIT es = Done s \<Longrightarrow>
    (s = CLIENT_FSM_ST_DATA_SENDED \<longrightarrow> data_pending es)
    \<and> (s \<in> text_states \<longrightarrow> (\<exists>pre body. es = pre @ [CLIENT_FSM_EV_RESPONSE_3XX] @ body \<and> data_pending pre
        \<and> set body \<subseteq> {CLIENT_FSM_EV_MSG_TEXT, CLIENT_FSM_EV_NONE}))"
proof (induction es arbitrary: s rule: rev_induct)
  case Nil
  then show ?case by (auto simp: text_states_def)
next
  case (snoc e es)
  from client_fsm_run_snoc [OF snoc.prems] obtain s0 where s0: "client_fsm_run CLIENT_FSM_ST_INIT es = Done s0" "client_fsm_step s0 e = Done s" by blast
  note ih = snoc.IH [OF s0(1)]
  show ?case
  proof (cases "s = CLIENT_FSM_ST_DATA_SENDED \<or> s \<in> text_states")
    case False
    then show ?thesis by simp
  next
    case True
    then have n: "fsm_def_next s0 e = s" using client_fsm_step_next [OF s0(2)] by (auto simp: text_states_def)
    have excl: "CLIENT_FSM_ST_DATA_SENDED \<notin> text_states" by (simp add: text_states_def)
    have d: "data_pending (es @ [e])" if "s = CLIENT_FSM_ST_DATA_SENDED"
      using enter_data_sended [OF n [unfolded that]]
    proof
      assume "s0 = CLIENT_FSM_ST_SENDING_RCPT_OR_DATA \<and> e = CLIENT_FSM_EV_DATA"
      with s0(1) show ?thesis unfolding data_pending_def by (intro exI [of _ es] exI [of _ "[]"]) simp
    next
      assume "s0 = CLIENT_FSM_ST_DATA_SENDED \<and> e = CLIENT_FSM_EV_NONE"
      with ih obtain pre waits where "es = pre @ [CLIENT_FSM_EV_DATA] @ waits" "set waits \<subseteq> {CLIENT_FSM_EV_NONE}"
        "client_fsm_run CLIENT_FSM_ST_INIT pre = Done CLIENT_FSM_ST_SENDING_RCPT_OR_DATA" "e = CLIENT_FSM_EV_NONE"
        by (auto simp: data_pending_def)
      then show ?thesis unfolding data_pending_def by (intro exI [of _ pre] exI [of _ "waits @ [e]"]) simp
    qed
    have t: "\<exists>pre body. es @ [e] = pre @ [CLIENT_FSM_EV_RESPONSE_3XX] @ body \<and> data_pending pre
        \<and> set body \<subseteq> {CLIENT_FSM_EV_MSG_TEXT, CLIENT_FSM_EV_NONE}" if "s \<in> text_states"
    proof -
      have "fsm_def_next s0 e \<in> text_states" using n that by simp
      from enter_text_states [OF this] show ?thesis
      proof
        assume "s0 = CLIENT_FSM_ST_DATA_SENDED \<and> e = CLIENT_FSM_EV_RESPONSE_3XX"
        with ih show ?thesis by (intro exI [of _ es] exI [of _ "[]"]) simp
      next
        assume e: "s0 \<in> text_states \<and> e \<in> {CLIENT_FSM_EV_MSG_TEXT, CLIENT_FSM_EV_NONE}"
        with ih obtain pre body where "es = pre @ [CLIENT_FSM_EV_RESPONSE_3XX] @ body" "data_pending pre"
          "set body \<subseteq> {CLIENT_FSM_EV_MSG_TEXT, CLIENT_FSM_EV_NONE}" by blast
        with e show ?thesis by (intro exI [of _ pre] exI [of _ "body @ [e]"]) auto
      qed
    qed
    show ?thesis using d t by blast
  qed
qed

text \<open>
  C36: whenever the client is sending the text of a mail, this mail has been announced and
  accepted, and nothing else has happened since: its events end with DATA, which was
  sent from the state after the recipients, then no event but waiting until a 3xx reply, and
  since that reply only lines of text. No earlier mail's go-ahead counts.
\<close>

theorem text_needs_go_ahead:
  assumes "client_fsm_run CLIENT_FSM_ST_INIT es = Done s" and "s \<in> text_states"
  shows "\<exists>pre waits body. es = pre @ [CLIENT_FSM_EV_DATA] @ waits @ [CLIENT_FSM_EV_RESPONSE_3XX] @ body
    \<and> client_fsm_run CLIENT_FSM_ST_INIT pre = Done CLIENT_FSM_ST_SENDING_RCPT_OR_DATA
    \<and> set waits \<subseteq> {CLIENT_FSM_EV_NONE} \<and> set body \<subseteq> {CLIENT_FSM_EV_MSG_TEXT, CLIENT_FSM_EV_NONE}"
proof -
  from text_needs_data [OF assms(1)] assms(2) obtain pre0 body where
    a: "es = pre0 @ [CLIENT_FSM_EV_RESPONSE_3XX] @ body" "data_pending pre0" "set body \<subseteq> {CLIENT_FSM_EV_MSG_TEXT, CLIENT_FSM_EV_NONE}" by blast
  from a(2) obtain pre waits where b: "pre0 = pre @ [CLIENT_FSM_EV_DATA] @ waits" "set waits \<subseteq> {CLIENT_FSM_EV_NONE}"
    "client_fsm_run CLIENT_FSM_ST_INIT pre = Done CLIENT_FSM_ST_SENDING_RCPT_OR_DATA" unfolding data_pending_def by blast
  show ?thesis using a(1,3) b by (intro exI [of _ pre] exI [of _ waits] exI [of _ body]) simp
qed

definition greeting_to_data :: "te_client_fsm_event list" where
  "greeting_to_data = [CLIENT_FSM_EV_RESPONSE_2XX, CLIENT_FSM_EV_EHLO, CLIENT_FSM_EV_RESPONSE_2XX, CLIENT_FSM_EV_MAIL,
     CLIENT_FSM_EV_RESPONSE_2XX, CLIENT_FSM_EV_RCPT, CLIENT_FSM_EV_RESPONSE_2XX]"

text \<open>A first mail refused after DATA, and the text of a second one.\<close>

definition two_mails :: "te_client_fsm_event list" where
  "two_mails = greeting_to_data @ [CLIENT_FSM_EV_DATA, CLIENT_FSM_EV_RESPONSE_5XX, CLIENT_FSM_EV_MAIL, CLIENT_FSM_EV_RESPONSE_2XX,
     CLIENT_FSM_EV_RCPT, CLIENT_FSM_EV_RESPONSE_2XX, CLIENT_FSM_EV_DATA, CLIENT_FSM_EV_NONE, CLIENT_FSM_EV_RESPONSE_3XX, CLIENT_FSM_EV_MSG_TEXT]"

theorem text_needs_go_ahead_witness:
  "client_fsm_run CLIENT_FSM_ST_INIT two_mails = Done CLIENT_FSM_ST_MSG_TEXT_SENDED
   \<and> (\<exists>pre waits body. two_mails = pre @ [CLIENT_FSM_EV_DATA] @ waits @ [CLIENT_FSM_EV_RESPONSE_3XX] @ body
    \<and> client_fsm_run CLIENT_FSM_ST_INIT pre = Done CLIENT_FSM_ST_SENDING_RCPT_OR_DATA
    \<and> set waits \<subseteq> {CLIENT_FSM_EV_NONE} \<and> set body \<subseteq> {CLIENT_FSM_EV_MSG_TEXT, CLIENT_FSM_EV_NONE})"
proof -
  have r: "client_fsm_run CLIENT_FSM_ST_INIT two_mails = Done CLIENT_FSM_ST_MSG_TEXT_SENDED"
    by (simp add: two_mails_def greeting_to_data_def client_fsm_step_live fsm_live_iff fsm_def_next_def)
  have "CLIENT_FSM_ST_MSG_TEXT_SENDED \<in> text_states" by (simp add: text_states_def)
  from text_needs_go_ahead [OF r this] r show ?thesis by blast
qed

end
