(* ===== verification/Client_Connection.thy ===== *)
theory Client_Connection
  imports Client_Peer Client_Message Client_Fsm
begin

text \<open>
  The SMTP connections of the client, \<^verbatim>\<open>client/src/SMTP_connection.c\<close>: finding the address of
  a mail host, connecting and reconnecting, and \<^verbatim>\<open>generate_event\<close>, which turns the state of
  the automaton, the queue of mails and the server's replies into the next command and event.
  Parameters stand for the resolver, for the socket calls and for the bytes that lie behind
  a short array on the stack.
\<close>

section \<open>Addresses\<close>

datatype ns_type = ns_t_mx | ns_t_a

text \<open>
  The resolver: the printed form of the first record of an answer, or \<open>None\<close> when one of the
  library calls reports an error or there is no record.
\<close>

type_synonym resolver = "string \<Rightarrow> ns_type \<Rightarrow> string option"

fun find_space :: "string \<Rightarrow> nat \<Rightarrow> nat option" where
  "find_space row i =
     (if as_array row ! i = CHR '' '' \<or> as_array row ! i = CHR 0x09 then Some i
      else case i of 0 \<Rightarrow> None | Suc j \<Rightarrow> find_space row j)"

declare find_space.simps [simp del]

definition get_DNS_record :: "resolver \<Rightarrow> string \<Rightarrow> ns_type \<Rightarrow> cworld \<Rightarrow> (string_t option \<times> cworld) run" where
  "get_DNS_record dns host ty w =
     (case dns host ty of None \<Rightarrow> Done (None, w)
      | Some row \<Rightarrow> (case find_space row (length row) of None \<Rightarrow> Done (None, w)
        | Some i \<Rightarrow> string_init2 (drop (i + 1) (as_array row)) (length row - (i + 1)) w))"

definition get_IP :: "resolver \<Rightarrow> string \<Rightarrow> cworld \<Rightarrow> (string_t option \<times> cworld) run" where
  "get_IP dns host w =
     (if strcmp host ''localhost'' = 0 then string_init2 (as_array ''127.0.0.1'') 9 w
      else rbind (get_DNS_record dns host ns_t_mx w) (\<lambda>(mx, w1).
        case mx of None \<Rightarrow> Done (None, w1)
        | Some m \<Rightarrow> get_DNS_record dns (c_str (str_data m)) ns_t_a w1))"

section \<open>Connecting\<close>

text \<open>What \<^verbatim>\<open>socket\<close> returns, and whether \<^verbatim>\<open>connect\<close> succeeds on it.\<close>

record netres =
  net_socket :: int
  net_connect :: bool

definition AT_IPv4 :: int where "AT_IPv4 = 0"
definition AT_IPv6 :: int where "AT_IPv6 = 1"
definition AT_HOST :: int where "AT_HOST = 2"

definition connect_server_ipv6 :: "netres \<Rightarrow> string_t \<Rightarrow> cworld \<Rightarrow> int \<times> cworld" where
  "connect_server_ipv6 net ip w =
     (if net_socket net < 0 then (-1, send_log ''socket()'' w)
      else if \<not> net_connect net then (-1, send_log ''connect()'' w)
      else (net_socket net, w))"

definition connect_server_ipv4 :: "netres \<Rightarrow> string_t \<Rightarrow> cworld \<Rightarrow> int \<times> cworld" where
  "connect_server_ipv4 net ip w =
     (if net_socket net < 0 then (-1, send_log ''socket()'' w)
      else if \<not> net_connect net then (-1, send_log ''connect()'' w)
      else (net_socket net, w))"

definition connect_server :: "netres \<Rightarrow> string_t option \<Rightarrow> int \<Rightarrow> cworld \<Rightarrow> int \<times> cworld" where
  "connect_server net ip ty w =
     (case ip of None \<Rightarrow> (-1, w)
      | Some a \<Rightarrow>
          if ty = AT_IPv4 \<or> ty = AT_IPv6
          then let (d, w1) = (if ty = AT_IPv4 then connect_server_ipv4 net a w else connect_server_ipv6 net a w) in
               (d, if d > 0 then send_log ''connect_server: connected'' w1 else w1)
          else (-1, send_log ''connect_server: type'' w))"

section \<open>The connection\<close>

record smtp_conn =
  conn_addr :: string
  conn_ip :: "string_t option"
  conn_ip_type :: int
  conn_messages :: "smtp_message_t cqueue"
  conn_state :: te_client_fsm_state
  conn_last_event :: te_client_fsm_event
  conn_peer :: peer_t
  current_rcpt :: nat
  current_msg_line :: nat
  current_connection_num :: int
  last_connection_time :: int
  max_connect_count :: int
  min_interval_between_connect :: int

definition can_reconnect_now :: "smtp_conn \<Rightarrow> cworld \<Rightarrow> bool \<times> cworld" where
  "can_reconnect_now c w = (let (now, w1) = ctime w in (now - last_connection_time c > min_interval_between_connect c, w1))"

definition has_more_connection_attempts :: "smtp_conn \<Rightarrow> bool" where
  "has_more_connection_attempts c \<longleftrightarrow> max_connect_count c > current_connection_num c"

text \<open>\<open>raw\<close> is what the new blocks hold: the two buffers of the peer and the never written last event.\<close>

definition SMTP_connection_init ::
    "(string \<times> string) \<times> te_client_fsm_event \<Rightarrow> worker_config_t \<Rightarrow> resolver \<Rightarrow> netres \<Rightarrow> string \<Rightarrow> int \<Rightarrow> cworld \<Rightarrow> (smtp_conn option \<times> cworld) run" where
  "SMTP_connection_init raw cfg dns net addr ty w =
     (let (ok, w1) = cmalloc w in
      if \<not> ok then Done (None, send_log ''SMTP_connection_init'' w1)
      else let (ok2, w2) = cmalloc w1 in
      if \<not> ok2 then Done (None, send_log ''SMTP_connection_init'' w2)
      else case cqueue_init w2 of (None, w3) \<Rightarrow> Done (None, w3)
      | (Some q, w3) \<Rightarrow>
        rbind (if ty = AT_HOST then get_IP dns addr w3 else string_init2 (as_array addr) (strlen (as_array addr)) w3) (\<lambda>(ip, w4).
          let ty' = (if ty = AT_HOST then AT_IPv4 else ty); (d, w5) = connect_server net ip ty' w4; (now, w6) = ctime w5 in
          case peer_init (fst raw) d FDT_SOCKET w6 of (None, w7) \<Rightarrow> Done (None, w7)
          | (Some p, w7) \<Rightarrow> Done (Some \<lparr>conn_addr = addr, conn_ip = ip, conn_ip_type = ty', conn_messages = q,
               conn_state = CLIENT_FSM_ST_INIT, conn_last_event = snd raw, conn_peer = p, current_rcpt = 0, current_msg_line = 0,
               current_connection_num = 1, last_connection_time = now, max_connect_count = cfg_max_connect_count cfg,
               min_interval_between_connect = cfg_min_interval_between_connect cfg\<rparr>, w7)))"

text \<open>The address of the copy is read without a check whether there is one.\<close>

definition SMTP_connection_copy :: "string \<times> string \<Rightarrow> smtp_conn \<Rightarrow> cworld \<Rightarrow> (smtp_conn option \<times> cworld) run" where
  "SMTP_connection_copy raw other w =
     (let (ok, w1) = cmalloc w in
      if \<not> ok then Done (None, send_log ''SMTP_connection_copy'' w1)
      else let (ok2, w2) = cmalloc w1 in
      if \<not> ok2 then Done (None, send_log ''SMTP_connection_copy'' w2)
      else case cqueue_init w2 of (None, w3) \<Rightarrow> Done (None, w3)
      | (Some q, w3) \<Rightarrow> rbind (cqueue_push_all SMTP_message_copy q (conn_messages other) w3) (\<lambda>(_, q', w4).
          case conn_ip other of None \<Rightarrow> Fault Null_Deref
          | Some a \<Rightarrow> rbind (string_copy a w4) (\<lambda>(ip, w5). rbind (peer_copy raw (conn_peer other) w5) (\<lambda>(p, w6).
              case p of None \<Rightarrow> Done (None, w6)
              | Some p' \<Rightarrow> Done (Some (other\<lparr>conn_messages := q', conn_ip := ip, conn_peer := p'\<rparr>), w6)))))"

definition SMTP_connection_clear :: "smtp_conn \<Rightarrow> unit run" where
  "SMTP_connection_clear c =
     rbind (cqueue_clear (conn_messages c)) (\<lambda>_.
       case conn_ip c of None \<Rightarrow> Fault Null_Deref | Some _ \<Rightarrow> peer_clear (conn_peer c))"

definition SMTP_connection_reinit :: "netres \<Rightarrow> smtp_conn \<Rightarrow> cworld \<Rightarrow> smtp_conn \<times> cworld" where
  "SMTP_connection_reinit net c w =
     (let (d, w1) = connect_server net (conn_ip c) (conn_ip_type c) w; (now, w2) = ctime w1 in
      (c\<lparr>conn_state := CLIENT_FSM_ST_INIT, current_msg_line := 0, current_rcpt := 0, conn_peer := (conn_peer c)\<lparr>pfd := d\<rparr>,
         current_connection_num := current_connection_num c + 1, last_connection_time := now\<rparr>, w2))"

section \<open>Replies\<close>

definition isdigit :: "char \<Rightarrow> bool" where
  "isdigit c \<longleftrightarrow> 48 \<le> (of_char c :: nat) \<and> (of_char c :: nat) < 58"

definition isspace :: "char \<Rightarrow> bool" where
  "isspace c \<longleftrightarrow> c = CHR '' '' \<or> 9 \<le> (of_char c :: nat) \<and> (of_char c :: nat) \<le> 13"

fun atoi_digits :: "int \<Rightarrow> string \<Rightarrow> int run" where
  "atoi_digits acc [] = Fault Out_Of_Bounds"
| "atoi_digits acc (c # cs) = (if isdigit c then atoi_digits (10 * acc + (int (of_char c) - 48)) cs else Done acc)"

fun atoi :: "string \<Rightarrow> int run" where
  "atoi [] = Fault Out_Of_Bounds"
| "atoi (c # cs) =
     (if isspace c then atoi cs
      else if c = CHR ''-'' then rbind (atoi_digits 0 cs) (\<lambda>v. Done (- v))
      else if c = CHR ''+'' then atoi_digits 0 cs
      else atoi_digits 0 (c # cs))"

text \<open>The three characters of the code are not followed by a terminator: \<open>beyond\<close> is what lies behind them.\<close>

definition parse_response_code :: "string \<Rightarrow> string_t option \<Rightarrow> int run" where
  "parse_response_code beyond response =
     (case response of None \<Rightarrow> Done (-1)
      | Some r \<Rightarrow> if str_size r < 3 then Done (-1) else atoi (take 3 (str_data r) @ beyond))"

section \<open>The next event\<close>

function drain_replies :: "'v cqueue \<Rightarrow> 'v cqueue run" where
  "drain_replies q = (if cqueue_is_empty q then Done q else rbind (cqueue_pop_front q) (\<lambda>(_, q'). drain_replies q'))"
  by pat_completeness auto
termination
  by (relation "measure qlen") (auto simp: cqueue_is_empty_def cqueue_pop_front_def split: if_splits list.splits)

declare drain_replies.simps [simp del]

type_synonym event_cmd = "te_client_fsm_event \<times> string_t option \<times> smtp_conn \<times> cworld"

text \<open>The branch of \<^verbatim>\<open>SENDING_MAIL_OR_QUIT\<close>; the first component says that the function returns at once.\<close>

definition sending_mail_or_quit :: "smtp_conn \<Rightarrow> cworld \<Rightarrow> (bool \<times> event_cmd) run" where
  "sending_mail_or_quit c w =
     (if cqueue_is_empty (conn_messages c)
      then rbind (QUIT_command w) (\<lambda>(cmd, w1). Done (False, CLIENT_FSM_EV_QUIT, cmd, c, w1))
      else rbind (cqueue_peek (conn_messages c)) (\<lambda>front. case front of None \<Rightarrow> Fault Null_Deref | Some m \<Rightarrow>
        rbind (if conn_last_event c = CLIENT_FSM_EV_RESPONSE_4XX
               then rbind (can_start_attempt_now m w) (\<lambda>(ok, w1). Done (ok, m, w1))
               else let (t, w1) = ctime w in Done (True, m\<lparr>attempt_start_time := Some t\<rparr>, w1)) (\<lambda>(go, m1, w1).
          if \<not> go then Done (True, CLIENT_FSM_EV_NONE, None, c, w1)
          else let (t, w2) = ctime w1; m2 = m1\<lparr>last_attempt_time := Some t\<rparr>;
                   c2 = c\<lparr>conn_messages := cqueue_set_front m2 (conn_messages c), current_rcpt := 0, current_msg_line := 0\<rparr> in
            case from_addr m2 of None \<Rightarrow> Fault Uninit_Read
            | Some a \<Rightarrow> rbind (MAILFROM_command a w2) (\<lambda>(cmd, w3). Done (False, CLIENT_FSM_EV_MAIL, cmd, c2, w3)))))"

text \<open>A mail whose time is up is dropped and the server told to forget it.\<close>

definition give_up :: "smtp_conn \<Rightarrow> cworld \<Rightarrow> event_cmd run" where
  "give_up c w =
     rbind (cqueue_pop_front (conn_messages c)) (\<lambda>(_, q). rbind (RSET_command w) (\<lambda>(cmd, w1).
       Done (CLIENT_FSM_EV_RSET, cmd, c\<lparr>conn_messages := q\<rparr>, w1)))"

definition sending_rcpt_or_data :: "smtp_conn \<Rightarrow> cworld \<Rightarrow> event_cmd run" where
  "sending_rcpt_or_data c w =
     rbind (cqueue_peek (conn_messages c)) (\<lambda>front. case front of None \<Rightarrow> Fault Null_Deref | Some m \<Rightarrow>
       rbind (is_attempts_time_expired m w) (\<lambda>(late, w1).
         if late then give_up c w1
         else if current_rcpt c < recipients_count m
         then if length (recipients_addr m) \<le> current_rcpt c then Fault Out_Of_Bounds
              else rbind (RCPTTO_command (recipients_addr m ! current_rcpt c) w1) (\<lambda>(cmd, w2).
                Done (CLIENT_FSM_EV_RCPT, cmd, c\<lparr>current_rcpt := current_rcpt c + 1\<rparr>, w2))
         else rbind (DATA_command w1) (\<lambda>(cmd, w2). Done (CLIENT_FSM_EV_DATA, cmd, c, w2))))"

definition sending_text :: "string_t option \<Rightarrow> smtp_conn \<Rightarrow> cworld \<Rightarrow> event_cmd run" where
  "sending_text endline c w =
     rbind (cqueue_peek (conn_messages c)) (\<lambda>front. case front of None \<Rightarrow> Fault Null_Deref | Some m \<Rightarrow>
       rbind (is_attempts_time_expired m w) (\<lambda>(late, w1).
         if late then give_up c w1
         else if current_msg_line c < msg_lines m
         then if length (msg_text m) \<le> current_msg_line c then Fault Out_Of_Bounds
              else case (msg_text m ! current_msg_line c, endline) of
                (Some line, Some nl) \<Rightarrow> rbind (string_concat line nl w1) (\<lambda>(cmd, w2).
                  Done (CLIENT_FSM_EV_MSG_TEXT, cmd, c\<lparr>current_msg_line := current_msg_line c + 1\<rparr>, w2))
              | _ \<Rightarrow> Fault Null_Deref
         else rbind (ENDDATA_command w1) (\<lambda>(cmd, w2). Done (CLIENT_FSM_EV_END_DATA, cmd, c, w2))))"

definition response_event :: "int \<Rightarrow> te_client_fsm_event" where
  "response_event code =
     (if 200 \<le> code \<and> code < 300 then CLIENT_FSM_EV_RESPONSE_2XX
      else if 300 \<le> code \<and> code < 400 then CLIENT_FSM_EV_RESPONSE_3XX
      else if 400 \<le> code \<and> code < 500 then CLIENT_FSM_EV_RESPONSE_4XX
      else if code = 502 then CLIENT_FSM_EV_RESPONSE_502
      else if 500 \<le> code \<and> code < 600 then CLIENT_FSM_EV_RESPONSE_5XX
      else CLIENT_FSM_EV_NONE)"

text \<open>The first reply decides; all others that have arrived are dropped. The fixed part of the log record has 42 bytes.\<close>

definition awaiting_response :: "string \<Rightarrow> smtp_conn \<Rightarrow> cworld \<Rightarrow> event_cmd run" where
  "awaiting_response beyond c w =
     (if cqueue_is_empty (messages_out (conn_peer c)) then Done (CLIENT_FSM_EV_NONE, None, c, w)
      else rbind (cqueue_peek (messages_out (conn_peer c))) (\<lambda>response. case response of None \<Rightarrow> Fault Null_Deref | Some r \<Rightarrow>
        rbind (parse_response_code beyond (Some r)) (\<lambda>code.
        rbind (log_printf ''reply'' (42 + length (show_int code) + strlen (str_data r)) w) (\<lambda>w1.
        rbind (drain_replies (messages_out (conn_peer c))) (\<lambda>q.
          Done (response_event code, None, c\<lparr>conn_peer := (conn_peer c)\<lparr>messages_out := q\<rparr>\<rparr>, w1))))))"

definition dispatch_state :: "string \<Rightarrow> string_t option \<Rightarrow> smtp_conn \<Rightarrow> cworld \<Rightarrow> (bool \<times> event_cmd) run" where
  "dispatch_state beyond endline c w =
     (case conn_state c of
        CLIENT_FSM_ST_SENDING_HELLO \<Rightarrow> rbind (HELO_command w) (\<lambda>(cmd, w1). Done (False, CLIENT_FSM_EV_HELLO, cmd, c, w1))
      | CLIENT_FSM_ST_SENDING_EHLO \<Rightarrow> rbind (EHLO_command w) (\<lambda>(cmd, w1). Done (False, CLIENT_FSM_EV_EHLO, cmd, c, w1))
      | CLIENT_FSM_ST_GET_NEXT_MESSAGE_AND_SENDING_MAIL_OR_QUIT \<Rightarrow>
          rbind (if cqueue_is_empty (conn_messages c) then Done c
                 else rbind (cqueue_pop_front (conn_messages c)) (\<lambda>(_, q). Done (c\<lparr>conn_messages := q\<rparr>)))
            (\<lambda>c1. sending_mail_or_quit c1 w)
      | CLIENT_FSM_ST_SENDING_MAIL_OR_QUIT \<Rightarrow> sending_mail_or_quit c w
      | CLIENT_FSM_ST_SENDING_RCPT_OR_DATA \<Rightarrow> rbind (sending_rcpt_or_data c w) (\<lambda>r. Done (False, r))
      | CLIENT_FSM_ST_SENDING_MSG_TEXT_OR_END_MSG \<Rightarrow> rbind (sending_text endline c w) (\<lambda>r. Done (False, r))
      | CLIENT_FSM_ST_SENDING_QUIT \<Rightarrow> Done (False, CLIENT_FSM_EV_NONE, None, c, w)
      | CLIENT_FSM_ST_CLOSED_CONNECTION \<Rightarrow> Done (False, CLIENT_FSM_EV_NONE, None, c, w)
      | CLIENT_FSM_ST_INVALID \<Rightarrow> Done (False, CLIENT_FSM_EV_NONE, None, c, w)
      | CLIENT_FSM_ST_DONE \<Rightarrow> Done (False, CLIENT_FSM_EV_NONE, None, c, w)
      | _ \<Rightarrow> rbind (awaiting_response beyond c w) (\<lambda>r. Done (False, r)))"

text \<open>Queueing the command; the fixed part of the log record has 37 bytes.\<close>

definition issue_command :: "string_t option \<Rightarrow> smtp_conn \<Rightarrow> cworld \<Rightarrow> (smtp_conn \<times> cworld) run" where
  "issue_command cmd c w =
     (case cmd of None \<Rightarrow> Done (c, w)
      | Some s \<Rightarrow> rbind (log_printf ''command'' (37 + strlen (str_data s)) w) (\<lambda>w1.
          rbind (add_message (conn_peer c) s None w1) (\<lambda>(_, p, w2). Done (c\<lparr>conn_peer := p\<rparr>, w2))))"

definition generate_event :: "netres \<Rightarrow> string \<Rightarrow> smtp_conn \<Rightarrow> cworld \<Rightarrow> (te_client_fsm_event \<times> smtp_conn \<times> cworld) run" where
  "generate_event net beyond c w =
     (if conn_state c = CLIENT_FSM_ST_CLOSED_CONNECTION then Done (CLIENT_FSM_EV_NONE, c, w)
      else if pfd (conn_peer c) = -1 \<and> \<not> has_more_connection_attempts c then Done (CLIENT_FSM_EV_CLOSE_CONNECTION, c, w)
      else let (c1, w1) = (if pfd (conn_peer c) = -1
                           then let (again, w1) = can_reconnect_now c w in
                                if again then SMTP_connection_reinit net c w1 else (c, w1)
                           else (c, w)) in
      rbind (string_init2 (as_array CRLF) 2 w1) (\<lambda>(endline, w2).
      rbind (dispatch_state beyond endline c1 w2) (\<lambda>(early, ev, cmd, c2, w3).
        if early then Done (ev, c2, w3)
        else rbind (issue_command cmd c2 w3) (\<lambda>(c3, w4).
          if endline = None then Fault Null_Deref
          else Done (ev, c3\<lparr>conn_last_event := ev\<rparr>, w4)))))"

text \<open>What the loop of a worker does with a connection after a round of \<^verbatim>\<open>select\<close>.\<close>

definition conn_round :: "netres \<Rightarrow> string \<Rightarrow> smtp_conn \<Rightarrow> cworld \<Rightarrow> (smtp_conn \<times> cworld) run" where
  "conn_round net beyond c w =
     rbind (fill_messages_out (conn_peer c) CRLF w) (\<lambda>(_, p, w1).
     rbind (generate_event net beyond (c\<lparr>conn_peer := p\<rparr>) w1) (\<lambda>(ev, c2, w2).
     rbind (client_fsm_step (conn_state c2) ev) (\<lambda>s. Done (c2\<lparr>conn_state := s\<rparr>, w2))))"

section \<open>The invariant of a connection\<close>

text \<open>The states in which the mail at the front of the queue is being sent.\<close>

definition in_mail :: "te_client_fsm_state \<Rightarrow> bool" where
  "in_mail s \<longleftrightarrow> s \<in> {CLIENT_FSM_ST_MAIL_SENDED, CLIENT_FSM_ST_SENDING_RCPT_OR_DATA, CLIENT_FSM_ST_RCPT_SENDED, CLIENT_FSM_ST_DATA_SENDED,
     CLIENT_FSM_ST_SENDING_MSG_TEXT_OR_END_MSG, CLIENT_FSM_ST_MSG_TEXT_SENDED, CLIENT_FSM_ST_END_DATA_SENDED}"

definition used_state :: "te_client_fsm_state \<Rightarrow> bool" where
  "used_state s \<longleftrightarrow> s \<notin> {CLIENT_FSM_ST_SENDING_HELLO, CLIENT_FSM_ST_HELLO_SENDED, CLIENT_FSM_ST_SENDING_QUIT,
     CLIENT_FSM_ST_INVALID, CLIENT_FSM_ST_DONE}"

text \<open>The front of the queue is a mail for which an attempt was started.\<close>

definition attempted :: "smtp_conn \<Rightarrow> bool" where
  "attempted c \<longleftrightarrow> (\<exists>m ms. qitems (conn_messages c) = m # ms \<and> attempt_start_time m \<noteq> None \<and> last_attempt_time m \<noteq> None)"

definition data_ok :: "smtp_conn \<Rightarrow> bool" where
  "data_ok c \<longleftrightarrow> peer_wf (conn_peer c) \<and> (\<forall>s \<in> set (qitems (messages_out (conn_peer c))). str_size s \<le> MAX_BUFFER_SIZE)
     \<and> cq_wf (conn_messages c) \<and> (\<forall>m \<in> set (qitems (conn_messages c)). message_ok m)"

definition phase_ok :: "smtp_conn \<Rightarrow> te_client_fsm_state \<Rightarrow> te_client_fsm_event \<Rightarrow> bool" where
  "phase_ok c s lev \<longleftrightarrow> used_state s \<and> (in_mail s \<longrightarrow> attempted c)
     \<and> (s = CLIENT_FSM_ST_SENDING_MAIL_OR_QUIT \<and> lev = CLIENT_FSM_EV_RESPONSE_4XX \<longrightarrow> attempted c)
     \<and> (s = CLIENT_FSM_ST_GET_NEXT_MESSAGE_AND_SENDING_MAIL_OR_QUIT \<longrightarrow> lev \<noteq> CLIENT_FSM_EV_RESPONSE_4XX)"

definition conn_inv :: "smtp_conn \<Rightarrow> bool" where
  "conn_inv c \<longleftrightarrow> data_ok c \<and> phase_ok c (conn_state c) (conn_last_event c)"

text \<open>The automaton keeps the phases, on every event the list has for a state.\<close>

lemmas fsm_def_next_simps = fsm_def_next_def fsm_entries_simps

definition responses :: "te_client_fsm_event set" where
  "responses = {CLIENT_FSM_EV_RESPONSE_2XX, CLIENT_FSM_EV_RESPONSE_3XX, CLIENT_FSM_EV_RESPONSE_4XX, CLIENT_FSM_EV_RESPONSE_502,
     CLIENT_FSM_EV_RESPONSE_5XX, CLIENT_FSM_EV_NONE}"

definition waiting :: "te_client_fsm_state \<Rightarrow> bool" where
  "waiting s \<longleftrightarrow> s \<in> {CLIENT_FSM_ST_INIT, CLIENT_FSM_ST_EHLO_SENDED, CLIENT_FSM_ST_MAIL_SENDED, CLIENT_FSM_ST_RCPT_SENDED,
     CLIENT_FSM_ST_DATA_SENDED, CLIENT_FSM_ST_RSET_SENDED, CLIENT_FSM_ST_QUIT_SENDED, CLIENT_FSM_ST_MSG_TEXT_SENDED,
     CLIENT_FSM_ST_END_DATA_SENDED}"

lemma response_event_in [simp]: "response_event code \<in> responses"
  by (simp add: response_event_def responses_def)

lemma phase_response:
  assumes "waiting s" "in_mail s \<longrightarrow> attempted c" "e \<in> responses" "fsm_def_next s e \<noteq> CLIENT_FSM_ST_INVALID"
  shows "phase_ok c (fsm_def_next s e) e"
  using assms unfolding waiting_def responses_def
  by (elim insertE emptyE) (simp_all add: fsm_def_next_def phase_ok_def used_state_def in_mail_def)

lemma waiting_none: "waiting s \<Longrightarrow> fsm_def_next s CLIENT_FSM_EV_NONE \<noteq> CLIENT_FSM_ST_INVALID"
  by (auto simp: waiting_def fsm_def_next_def)

section \<open>The pieces of an event\<close>

text \<open>
  What every branch guarantees: data stays well formed, and either the automaton knows the
  event and the new state is again within the invariant, or the event is a reply.
\<close>

definition event_ok :: "te_client_fsm_state \<Rightarrow> smtp_conn \<Rightarrow> te_client_fsm_event \<Rightarrow> te_client_fsm_event \<Rightarrow> bool" where
  "event_ok s c lev e \<longleftrightarrow> conn_state c = s \<and> data_ok c
     \<and> (if fsm_def_next s e = CLIENT_FSM_ST_INVALID then e \<in> responses - {CLIENT_FSM_EV_NONE}
        else phase_ok c (fsm_def_next s e) lev)"

definition cmd_ok :: "string_t option \<Rightarrow> bool" where
  "cmd_ok cmd \<longleftrightarrow> (\<forall>s. cmd = Some s \<longrightarrow> str_wf s \<and> strlen (str_data s) < 2010)"

lemma strlen_mk_str: "strlen (str_data (mk_str s)) \<le> length s"
  using length_c_str_le [of s] by (simp add: strlen_def c_str_def takeWhile_append)

lemma cmd_ok_mk_str [simp]: "length s < 2010 \<Longrightarrow> cmd_ok (Some (mk_str s))"
  using strlen_mk_str [of s] by (auto simp: cmd_ok_def simp del: mk_str_simps(4))

lemma cmd_ok_None [simp]: "cmd_ok None"
  by (simp add: cmd_ok_def)

lemma fsm_next_sending [simp]:
  "fsm_def_next CLIENT_FSM_ST_SENDING_MAIL_OR_QUIT CLIENT_FSM_EV_QUIT = CLIENT_FSM_ST_QUIT_SENDED"
  "fsm_def_next CLIENT_FSM_ST_SENDING_MAIL_OR_QUIT CLIENT_FSM_EV_MAIL = CLIENT_FSM_ST_MAIL_SENDED"
  "fsm_def_next CLIENT_FSM_ST_SENDING_MAIL_OR_QUIT CLIENT_FSM_EV_NONE = CLIENT_FSM_ST_SENDING_MAIL_OR_QUIT"
  "fsm_def_next CLIENT_FSM_ST_GET_NEXT_MESSAGE_AND_SENDING_MAIL_OR_QUIT CLIENT_FSM_EV_QUIT = CLIENT_FSM_ST_QUIT_SENDED"
  "fsm_def_next CLIENT_FSM_ST_GET_NEXT_MESSAGE_AND_SENDING_MAIL_OR_QUIT CLIENT_FSM_EV_MAIL = CLIENT_FSM_ST_MAIL_SENDED"
  "fsm_def_next CLIENT_FSM_ST_SENDING_RCPT_OR_DATA CLIENT_FSM_EV_RCPT = CLIENT_FSM_ST_RCPT_SENDED"
  "fsm_def_next CLIENT_FSM_ST_SENDING_RCPT_OR_DATA CLIENT_FSM_EV_DATA = CLIENT_FSM_ST_DATA_SENDED"
  "fsm_def_next CLIENT_FSM_ST_SENDING_RCPT_OR_DATA CLIENT_FSM_EV_RSET = CLIENT_FSM_ST_RSET_SENDED"
  "fsm_def_next CLIENT_FSM_ST_SENDING_MSG_TEXT_OR_END_MSG CLIENT_FSM_EV_MSG_TEXT = CLIENT_FSM_ST_MSG_TEXT_SENDED"
  "fsm_def_next CLIENT_FSM_ST_SENDING_MSG_TEXT_OR_END_MSG CLIENT_FSM_EV_END_DATA = CLIENT_FSM_ST_END_DATA_SENDED"
  "fsm_def_next CLIENT_FSM_ST_SENDING_MSG_TEXT_OR_END_MSG CLIENT_FSM_EV_RSET = CLIENT_FSM_ST_RSET_SENDED"
  "fsm_def_next CLIENT_FSM_ST_SENDING_EHLO CLIENT_FSM_EV_EHLO = CLIENT_FSM_ST_EHLO_SENDED"
  "fsm_def_next s CLIENT_FSM_EV_CLOSE_CONNECTION = CLIENT_FSM_ST_CLOSED_CONNECTION"
  "fsm_def_next CLIENT_FSM_ST_CLOSED_CONNECTION CLIENT_FSM_EV_NONE = CLIENT_FSM_ST_CLOSED_CONNECTION"
  by (simp_all add: fsm_def_next_def) (cases s; simp add: fsm_def_next_def)

lemma data_okD:
  assumes "data_ok c" "qitems (conn_messages c) = m # ms"
  shows "message_ok m" "cqueue_peek (conn_messages c) = Done (Some m)"
    "cqueue_pop_front (conn_messages c) = Done (SUCCESS, (conn_messages c)\<lparr>qitems := ms, qlen := qlen (conn_messages c) - 1\<rparr>)"
    "data_ok (c\<lparr>conn_messages := (conn_messages c)\<lparr>qitems := ms, qlen := qlen (conn_messages c) - 1\<rparr>\<rparr>)"
    "\<not> cqueue_is_empty (conn_messages c)"
  using assms cqueue_pop_front_ok [of "conn_messages c" m ms] cqueue_peek_ok [of "conn_messages c"] cqueue_is_empty_iff [of "conn_messages c"]
  by (auto simp: data_ok_def)

lemma expired_total:
  assumes "attempt_start_time m \<noteq> None"
  obtains b w' where "is_attempts_time_expired m w = Done (b, w')" "good_world w' = good_world w"
proof -
  obtain t0 where t0: "attempt_start_time m = Some t0" using assms by blast
  obtain t w' where t: "ctime w = (t, w')" by force
  show thesis by (rule that [of "t - t0 > max_attempts_time m" w']) (simp_all add: is_attempts_time_expired_def t0 t good_world_ctime [OF t])
qed

lemma give_up_ok:
  assumes "data_ok c" "attempted c" "good_world w" "conn_state c \<in> {CLIENT_FSM_ST_SENDING_RCPT_OR_DATA, CLIENT_FSM_ST_SENDING_MSG_TEXT_OR_END_MSG}"
  shows "\<exists>e cmd c'. give_up c w = Done (e, cmd, c', w) \<and> cmd_ok cmd \<and> event_ok (conn_state c) c' e e"
proof -
  obtain m ms where q: "qitems (conn_messages c) = m # ms" using assms(2) by (auto simp: attempted_def)
  note d = data_okD [OF assms(1) q]
  let ?c = "c\<lparr>conn_messages := (conn_messages c)\<lparr>qitems := ms, qlen := qlen (conn_messages c) - 1\<rparr>\<rparr>"
  have "give_up c w = Done (CLIENT_FSM_EV_RSET, Some (mk_str (''RSET'' @ CRLF)), ?c, w)"
    using assms(3) d(3) by (simp add: give_up_def)
  moreover have "fsm_def_next (conn_state c) CLIENT_FSM_EV_RSET = CLIENT_FSM_ST_RSET_SENDED" using assms(4) by auto
  then have "event_ok (conn_state c) ?c CLIENT_FSM_EV_RSET CLIENT_FSM_EV_RSET"
    using d(4) by (simp add: event_ok_def phase_ok_def used_state_def in_mail_def)
  ultimately show ?thesis by (intro exI conjI) (assumption, simp_all)
qed

lemma sending_rcpt_ok:
  assumes "data_ok c" "attempted c" "good_world w" "conn_state c = CLIENT_FSM_ST_SENDING_RCPT_OR_DATA"
  shows "\<exists>e cmd c' w'. sending_rcpt_or_data c w = Done (e, cmd, c', w') \<and> good_world w' \<and> cmd_ok cmd \<and> event_ok (conn_state c) c' e e"
proof -
  obtain m ms where q: "qitems (conn_messages c) = m # ms" "attempt_start_time m \<noteq> None" using assms(2) by (auto simp: attempted_def)
  note d = data_okD [OF assms(1) q(1)]
  obtain late w1 where l: "is_attempts_time_expired m w = Done (late, w1)" "good_world w1" using expired_total [OF q(2)] assms(3) by metis
  have at: "attempted (c\<lparr>current_rcpt := n\<rparr>)" "data_ok (c\<lparr>current_rcpt := n\<rparr>)" for n using assms(1,2) by (auto simp: attempted_def data_ok_def)
  consider "late" | "\<not> late" "current_rcpt c < recipients_count m" | "\<not> late" "\<not> current_rcpt c < recipients_count m" by blast
  then show ?thesis
  proof cases
    case 1
    from give_up_ok [OF assms(1,2) l(2)] assms(4) obtain e cmd c' where
      "give_up c w1 = Done (e, cmd, c', w1)" "cmd_ok cmd" "event_ok (conn_state c) c' e e" by auto
    with 1 d(2) l show ?thesis by (simp add: sending_rcpt_or_data_def)
  next
    case 2
    then have a: "addr_ok (recipients_addr m ! current_rcpt c)" "current_rcpt c < length (recipients_addr m)"
      using d(1) by (auto simp: message_ok_def)
    let ?c = "c\<lparr>current_rcpt := current_rcpt c + 1\<rparr>" and ?s = "''RCPT TO:'' @ recipients_addr m ! current_rcpt c @ CRLF"
    have "cmd_ok (Some (mk_str ?s))" using a(1) by (simp add: addr_ok_def)
    moreover have "sending_rcpt_or_data c w = Done (CLIENT_FSM_EV_RCPT, Some (mk_str ?s), ?c, w1)"
      using 2 d(2) l a(2) addr_command_plenty(2) [OF _ a(1), of w1] by (simp add: sending_rcpt_or_data_def)
    moreover have "event_ok (conn_state c) ?c CLIENT_FSM_EV_RCPT CLIENT_FSM_EV_RCPT"
      using at assms(4) by (simp add: event_ok_def phase_ok_def used_state_def)
    ultimately show ?thesis using l(2) by blast
  next
    case 3
    then show ?thesis using d(2) l assms by (simp add: sending_rcpt_or_data_def event_ok_def phase_ok_def used_state_def)
  qed
qed

lemma sending_text_ok:
  assumes "data_ok c" "attempted c" "good_world w" "conn_state c = CLIENT_FSM_ST_SENDING_MSG_TEXT_OR_END_MSG"
  shows "\<exists>e cmd c' w'. sending_text (Some (mk_str CRLF)) c w = Done (e, cmd, c', w') \<and> good_world w' \<and> cmd_ok cmd \<and> event_ok (conn_state c) c' e e"
proof -
  obtain m ms where q: "qitems (conn_messages c) = m # ms" "attempt_start_time m \<noteq> None" using assms(2) by (auto simp: attempted_def)
  note d = data_okD [OF assms(1) q(1)]
  obtain late w1 where l: "is_attempts_time_expired m w = Done (late, w1)" "good_world w1" using expired_total [OF q(2)] assms(3) by metis
  have at: "attempted (c\<lparr>current_msg_line := n\<rparr>)" "data_ok (c\<lparr>current_msg_line := n\<rparr>)" for n using assms(1,2) by (auto simp: attempted_def data_ok_def)
  consider "late" | "\<not> late" "current_msg_line c < msg_lines m" | "\<not> late" "\<not> current_msg_line c < msg_lines m" by blast
  then show ?thesis
  proof cases
    case 1
    from give_up_ok [OF assms(1,2) l(2)] assms(4) obtain e cmd c' where
      "give_up c w1 = Done (e, cmd, c', w1)" "cmd_ok cmd" "event_ok (conn_state c) c' e e" by auto
    with 1 d(2) l show ?thesis by (simp add: sending_text_def)
  next
    case 2
    then have i: "current_msg_line c < length (msg_text m)" using d(1) by (auto simp: message_ok_def)
    then have "line_ok (msg_text m ! current_msg_line c)" using d(1) by (auto simp: message_ok_def)
    then obtain s where s: "msg_text m ! current_msg_line c = Some (mk_str s)" "length s < 2000" by (auto simp: line_ok_def)
    let ?c = "c\<lparr>current_msg_line := current_msg_line c + 1\<rparr>"
    have "sending_text (Some (mk_str CRLF)) c w = Done (CLIENT_FSM_EV_MSG_TEXT, Some (mk_str (s @ CRLF)), ?c, w1)"
      using 2 i d(2) l s(1) string_concat_plenty [of w1 s CRLF] by (simp add: sending_text_def)
    moreover have "event_ok (conn_state c) ?c CLIENT_FSM_EV_MSG_TEXT CLIENT_FSM_EV_MSG_TEXT"
      using at assms(4) by (simp add: event_ok_def phase_ok_def used_state_def)
    moreover have "cmd_ok (Some (mk_str (s @ CRLF)))" using s(2) by simp
    ultimately show ?thesis using l(2) by blast
  next
    case 3
    then show ?thesis using d(2) l assms by (simp add: sending_text_def event_ok_def phase_ok_def used_state_def)
  qed
qed

lemma start_attempt_ok:
  assumes "data_ok c" "qitems (conn_messages c) = m # ms" "m' = m\<lparr>attempt_start_time := Some t, last_attempt_time := Some u\<rparr>"
  shows "data_ok (c\<lparr>conn_messages := cqueue_set_front m' (conn_messages c), current_rcpt := 0, current_msg_line := 0\<rparr>)
    \<and> attempted (c\<lparr>conn_messages := cqueue_set_front m' (conn_messages c), current_rcpt := 0, current_msg_line := 0\<rparr>)"
  using assms by (auto simp: data_ok_def attempted_def cqueue_set_front_def cq_wf_def message_ok_def)

lemma sending_mail_ok:
  assumes "data_ok c" "good_world w"
    "conn_last_event c = CLIENT_FSM_EV_RESPONSE_4XX \<Longrightarrow> conn_state c = CLIENT_FSM_ST_SENDING_MAIL_OR_QUIT \<and> attempted c"
    "conn_state c \<in> {CLIENT_FSM_ST_SENDING_MAIL_OR_QUIT, CLIENT_FSM_ST_GET_NEXT_MESSAGE_AND_SENDING_MAIL_OR_QUIT}"
  shows "\<exists>early e cmd c' w'. sending_mail_or_quit c w = Done (early, e, cmd, c', w') \<and> good_world w' \<and> cmd_ok cmd
    \<and> event_ok (conn_state c) c' (if early then conn_last_event c' else e) e"
proof (cases "qitems (conn_messages c)")
  case Nil
  then have "cqueue_is_empty (conn_messages c)" using cqueue_is_empty_iff [of "conn_messages c"] assms(1) by (simp add: data_ok_def)
  then have "sending_mail_or_quit c w = Done (False, CLIENT_FSM_EV_QUIT, Some (mk_str (''QUIT'' @ CRLF)), c, w)"
    using assms(2) by (simp add: sending_mail_or_quit_def)
  moreover have "event_ok (conn_state c) c CLIENT_FSM_EV_QUIT CLIENT_FSM_EV_QUIT"
    using assms(1,4) by (auto simp: event_ok_def phase_ok_def used_state_def in_mail_def)
  ultimately show ?thesis using assms(2) by auto
next
  case (Cons m ms)
  note d = data_okD [OF assms(1) Cons]
  obtain a where a: "from_addr m = Some a" "addr_ok a" "length a < 240" using d(1) by (auto simp: message_ok_def addr_ok_def)
  obtain t w1 where t: "ctime w = (t, w1)" by force
  obtain u w2 where u: "ctime w1 = (u, w2)" by force
  have g: "good_world w1" "good_world w2" using assms(2) good_world_ctime [OF t] good_world_ctime [OF u] by auto
  show ?thesis
  proof (cases "conn_last_event c = CLIENT_FSM_EV_RESPONSE_4XX")
    case False
    let ?c = "c\<lparr>conn_messages := cqueue_set_front (m\<lparr>attempt_start_time := Some t, last_attempt_time := Some u\<rparr>) (conn_messages c),
      current_rcpt := 0, current_msg_line := 0\<rparr>"
    have "sending_mail_or_quit c w = Done (False, CLIENT_FSM_EV_MAIL, Some (mk_str (''MAIL FROM:'' @ a @ CRLF)), ?c, w2)"
      using False d(2,5) a(1) t u g addr_command_plenty(1) [OF _ a(2), of w2] by (simp add: sending_mail_or_quit_def)
    moreover have "event_ok (conn_state c) ?c CLIENT_FSM_EV_MAIL CLIENT_FSM_EV_MAIL"
      using start_attempt_ok [OF assms(1) Cons refl, of u t] assms(4) by (auto simp: event_ok_def phase_ok_def used_state_def)
    ultimately show ?thesis using g(2) a(3) by auto
  next
    case True
    from assms(3) [OF this] Cons obtain t0 u0 where m: "attempt_start_time m = Some t0" "last_attempt_time m = Some u0"
      "conn_state c = CLIENT_FSM_ST_SENDING_MAIL_OR_QUIT" "attempted c" by (auto simp: attempted_def)
    show ?thesis
    proof (cases "t - u0 > min_interval_between_attempts m")
      case go: True
      let ?c = "c\<lparr>conn_messages := cqueue_set_front (m\<lparr>last_attempt_time := Some u\<rparr>) (conn_messages c), current_rcpt := 0, current_msg_line := 0\<rparr>"
      have e: "m\<lparr>last_attempt_time := Some u\<rparr> = m\<lparr>attempt_start_time := Some t0, last_attempt_time := Some u\<rparr>" using m(1) by simp
      have "sending_mail_or_quit c w = Done (False, CLIENT_FSM_EV_MAIL, Some (mk_str (''MAIL FROM:'' @ a @ CRLF)), ?c, w2)"
        using go True d(2,5) a(1) m(2) t u g addr_command_plenty(1) [OF _ a(2), of w2]
        by (simp add: sending_mail_or_quit_def can_start_attempt_now_def)
      moreover have "event_ok (conn_state c) ?c CLIENT_FSM_EV_MAIL CLIENT_FSM_EV_MAIL"
        using start_attempt_ok [OF assms(1) Cons e] m(3) by (auto simp: event_ok_def phase_ok_def used_state_def)
      ultimately show ?thesis using g(2) a(3) by auto
    next
      case False
      then have "sending_mail_or_quit c w = Done (True, CLIENT_FSM_EV_NONE, None, c, w1)"
        using True d(2,5) m(2) t by (simp add: sending_mail_or_quit_def can_start_attempt_now_def)
      moreover have "event_ok (conn_state c) c (conn_last_event c) CLIENT_FSM_EV_NONE"
        using assms(1) m(3,4) by (simp add: event_ok_def phase_ok_def used_state_def in_mail_def)
      ultimately show ?thesis using g(1) by auto
    qed
  qed
qed

lemma drain_replies_ok: "cq_wf q \<Longrightarrow> drain_replies q = Done (q\<lparr>qitems := [], qlen := 0\<rparr>)"
proof (induction q rule: drain_replies.induct)
  case (1 q)
  show ?case
  proof (cases "qitems q")
    case Nil
    with 1 show ?thesis by (subst drain_replies.simps) (auto simp: cqueue_is_empty_iff cq_wf_def)
  next
    case (Cons v vs)
    note p = cqueue_pop_front_ok [OF 1(2) Cons]
    have "\<not> cqueue_is_empty q" using Cons 1(2) by (simp add: cqueue_is_empty_iff)
    with 1(1) [OF this conjunct1 [OF p] refl conjunct2 [OF p]] p show ?thesis by (subst drain_replies.simps) simp
  qed
qed

lemma atoi_digits_bound:
  "\<not> isdigit b \<Longrightarrow> 0 \<le> acc \<Longrightarrow> \<exists>v. atoi_digits acc (cs @ b # bs) = Done v \<and> 0 \<le> v \<and> v < (acc + 1) * 10 ^ length cs"
proof (induction cs arbitrary: acc)
  case (Cons c cs)
  show ?case
  proof (cases "isdigit c")
    case True
    let ?acc = "10 * acc + (int (of_char c) - 48)"
    have d: "48 \<le> int (of_char c)" "int (of_char c) < 58" using True by (auto simp: isdigit_def)
    then have "0 \<le> ?acc" using Cons.prems(2) by simp
    with Cons.IH [OF Cons.prems(1), of ?acc] obtain v where v: "atoi_digits ?acc (cs @ b # bs) = Done v" "0 \<le> v" "v < (?acc + 1) * 10 ^ length cs"
      by blast
    have "(?acc + 1) * 10 ^ length cs \<le> ((acc + 1) * 10) * 10 ^ length cs" using d by (intro mult_right_mono) auto
    also have "\<dots> = (acc + 1) * 10 ^ length (c # cs)" by simp
    finally have "v < (acc + 1) * 10 ^ length (c # cs)" using v(3) by linarith
    with v(1,2) True show ?thesis by simp
  next
    case False
    have "acc < (acc + 1) * 1" by simp
    also have "\<dots> \<le> (acc + 1) * 10 ^ length (c # cs)" using Cons.prems(2) by (intro mult_left_mono one_le_power) auto
    finally show ?thesis using False Cons.prems(2) by simp
  qed
qed simp

text \<open>The byte behind the array stops \<^verbatim>\<open>atoi\<close>.\<close>

definition stops_atoi :: "string \<Rightarrow> bool" where
  "stops_atoi bs \<longleftrightarrow> (\<exists>b rest. bs = b # rest \<and> \<not> isdigit b \<and> \<not> isspace b \<and> b \<noteq> CHR ''-'' \<and> b \<noteq> CHR ''+'')"

lemma atoi_bound:
  assumes "stops_atoi beyond"
  shows "\<exists>v. atoi (cs @ beyond) = Done v \<and> \<bar>v\<bar> < 10 ^ length cs"
proof -
  obtain b rest where b: "beyond = b # rest" "\<not> isdigit b" "\<not> isspace b" "b \<noteq> CHR ''-''" "b \<noteq> CHR ''+''"
    using assms by (auto simp: stops_atoi_def)
  show ?thesis
  proof (induction cs)
    case Nil
    with b show ?case by simp
  next
    case (Cons c cs)
    obtain v where v: "atoi_digits 0 (cs @ beyond) = Done v" "0 \<le> v" "v < 10 ^ length cs"
      using atoi_digits_bound [OF b(2), of 0 cs rest] b(1) by auto
    obtain u where u: "atoi_digits 0 (c # cs @ beyond) = Done u" "0 \<le> u" "u < 10 ^ length (c # cs)"
      using atoi_digits_bound [OF b(2), of 0 "c # cs" rest] b(1) by (auto simp del: atoi_digits.simps)
    have "(10::int) ^ length cs \<le> 10 ^ length (c # cs)" by simp
    with Cons u v show ?case by (auto simp del: atoi_digits.simps)
  qed
qed

lemma length_show_nat: "n < 10 ^ k \<Longrightarrow> 0 < k \<Longrightarrow> length (show_nat n) \<le> k"
proof (induction k arbitrary: n)
  case (Suc k)
  show ?case
  proof (cases "n < 10")
    case False
    then have "0 < k" using Suc.prems(1) by (cases k) auto
    moreover have "n div 10 < 10 ^ k" using Suc.prems(1) by (simp add: less_mult_imp_div_less mult.commute)
    ultimately have "length (show_nat (n div 10)) \<le> k" using Suc.IH by blast
    with False show ?thesis by (subst show_nat.simps) simp
  qed (subst show_nat.simps, simp)
qed simp

lemma length_show_int:
  assumes "\<bar>v\<bar> < 1000"
  shows "length (show_int v) \<le> 4"
proof -
  have "length (show_nat (nat \<bar>v\<bar>)) \<le> 3" using assms by (intro length_show_nat) auto
  then show ?thesis by (cases "v < 0") (simp_all add: show_int_def)
qed

text \<open>
  The array of the code has no terminator, so \<^verbatim>\<open>atoi\<close> leaves it where its characters are
  digits. \<open>overruns\<close>: a reply of at least three bytes is there, and what lies behind the
  array does not stop \<^verbatim>\<open>atoi\<close> at once.
\<close>

definition overruns :: "string \<Rightarrow> string_t cqueue \<Rightarrow> bool" where
  "overruns beyond q \<longleftrightarrow> \<not> stops_atoi beyond \<and> (\<exists>r rs. qitems q = r # rs \<and> 3 \<le> str_size r)"

lemma atoi_digits_Fault: "atoi_digits acc cs = Fault e \<Longrightarrow> e = Out_Of_Bounds"
  by (induction acc cs rule: atoi_digits.induct) (auto split: if_splits)

lemma atoi_Fault: "atoi cs = Fault e \<Longrightarrow> e = Out_Of_Bounds"
  by (induction cs rule: atoi.induct) (auto simp: rbind_Fault_iff dest: atoi_digits_Fault simp del: atoi_digits.simps split: if_splits)

lemma awaiting_any:
  assumes "data_ok c" "good_world w" "waiting (conn_state c)" "in_mail (conn_state c) \<longrightarrow> attempted c"
  shows "(\<exists>e c' w'. awaiting_response beyond c w = Done (e, None, c', w') \<and> good_world w' \<and> event_ok (conn_state c) c' e e)
    \<or> awaiting_response beyond c w = Fault Out_Of_Bounds \<and> overruns beyond (messages_out (conn_peer c))"
proof -
  let ?q = "messages_out (conn_peer c)"
  have wf: "cq_wf ?q" using assms(1) by (simp add: data_ok_def peer_wf_def)
  have none: "phase_ok c (fsm_def_next (conn_state c) CLIENT_FSM_EV_NONE) CLIENT_FSM_EV_NONE"
    using phase_response [OF assms(3,4) _ waiting_none [OF assms(3)]] by (simp add: responses_def)
  show ?thesis
  proof (cases "qitems ?q")
    case Nil
    then have "awaiting_response beyond c w = Done (CLIENT_FSM_EV_NONE, None, c, w)"
      using wf by (simp add: awaiting_response_def cqueue_is_empty_iff)
    moreover have "event_ok (conn_state c) c CLIENT_FSM_EV_NONE CLIENT_FSM_EV_NONE"
      using assms(1) none waiting_none [OF assms(3)] by (simp add: event_ok_def)
    ultimately show ?thesis using assms(2) by blast
  next
    case (Cons r rs)
    have r: "str_wf r" "str_size r \<le> 1024" using Cons assms(1) by (auto simp: data_ok_def peer_wf_def MAX_BUFFER_SIZE_def)
    let ?c = "c\<lparr>conn_peer := (conn_peer c)\<lparr>messages_out := ?q\<lparr>qitems := [], qlen := 0\<rparr>\<rparr>\<rparr>"
    have aw: "awaiting_response beyond c w = rbind (parse_response_code beyond (Some r)) (\<lambda>code.
        rbind (log_printf ''reply'' (42 + length (show_int code) + strlen (str_data r)) w) (\<lambda>w1. Done (response_event code, None, ?c, w1)))"
      using Cons wf drain_replies_ok [OF wf] by (simp add: awaiting_response_def cqueue_is_empty_iff cqueue_peek_ok)
    have long: "3 \<le> str_size r" "length (take 3 (str_data r)) = 3" if "\<not> str_size r < 3"
      using that r(1) by (simp_all add: str_wf_def)
    have ev: "event_ok (conn_state c) ?c (response_event code) (response_event code)" for code
    proof -
      have "data_ok ?c" using assms(1) by (auto simp: data_ok_def peer_wf_def cq_wf_def)
      moreover have "in_mail (conn_state c) \<longrightarrow> attempted ?c" using assms(4) by (simp add: attempted_def)
      ultimately show ?thesis using phase_response [OF assms(3) _ response_event_in, of ?c code] waiting_none [OF assms(3)]
        by (auto simp: event_ok_def)
    qed
    have "strlen (str_data r) \<le> str_size r" using str_wf_mk_str [OF r(1)] strlen_mk_str [of "str_text r"] r(1) by simp
    then have fits: "42 + length (show_int code) + strlen (str_data r) < MAX_G_LOG_MESSAGE" if "\<bar>code\<bar> < 1000" for code
      using length_show_int [OF that] r(2) by (simp add: MAX_G_LOG_MESSAGE_def)
    show ?thesis
    proof (cases "str_size r < 3 \<or> stops_atoi beyond")
      case True
      obtain code where code: "parse_response_code beyond (Some r) = Done code" "\<bar>code\<bar> < 1000"
      proof (cases "str_size r < 3")
        case True
        then show thesis by (intro that [of "-1"]) (simp_all add: parse_response_code_def)
      next
        case False
        with True have "stops_atoi beyond" by simp
        from atoi_bound [OF this, of "take 3 (str_data r)"] long [OF False] False that show thesis by (auto simp: parse_response_code_def)
      qed
      then have "awaiting_response beyond c w = Done (response_event code, None, ?c, send_log ''reply'' w)"
        using aw fits [OF code(2)] by (simp add: log_printf_def)
      with ev assms(2) show ?thesis by (intro disjI1 exI conjI) (assumption, simp_all)
    next
      case False
      then have ov: "overruns beyond ?q" using Cons long(1) by (auto simp: overruns_def)
      have pr: "parse_response_code beyond (Some r) = atoi (take 3 (str_data r) @ beyond)" using False by (simp add: parse_response_code_def)
      show ?thesis
      proof (cases "atoi (take 3 (str_data r) @ beyond)")
        case (Fault e)
        with aw pr ov atoi_Fault show ?thesis by (auto dest: atoi_Fault)
      next
        case (Done code)
        show ?thesis
        proof (cases "42 + length (show_int code) + strlen (str_data r) < MAX_G_LOG_MESSAGE")
          case True
          with aw pr Done have "awaiting_response beyond c w = Done (response_event code, None, ?c, send_log ''reply'' w)"
            by (simp add: log_printf_def)
          with ev assms(2) show ?thesis by (intro disjI1 exI conjI) (assumption, simp_all)
        next
          case False
          with aw pr Done ov show ?thesis by (simp add: log_printf_def)
        qed
      qed
    qed
  qed
qed

lemma not_overruns [simp]: "stops_atoi beyond \<Longrightarrow> \<not> overruns beyond q"
  by (simp add: overruns_def)

lemma event_ok_peer:
  assumes "event_ok s c lev e" "peer_wf p" "messages_out p = messages_out (conn_peer c)"
  shows "event_ok s (c\<lparr>conn_peer := p, conn_last_event := lev'\<rparr>) lev e"
  using assms by (auto simp: event_ok_def data_ok_def phase_ok_def attempted_def)

lemma issue_ok:
  assumes "event_ok s c lev e" "cmd_ok cmd" "good_world w"
  shows "\<exists>c' w'. issue_command cmd c w = Done (c', w') \<and> good_world w' \<and> event_ok s (c'\<lparr>conn_last_event := lev'\<rparr>) lev e"
proof (cases cmd)
  case None
  have "peer_wf (conn_peer c)" using assms(1) by (simp add: event_ok_def data_ok_def)
  from event_ok_peer [OF assms(1) this refl, of lev'] None assms(3) show ?thesis by (simp add: issue_command_def)
next
  case (Some x)
  then have x: "str_wf x" "37 + strlen (str_data x) < MAX_G_LOG_MESSAGE"
    using assms(2) by (auto simp: cmd_ok_def MAX_G_LOG_MESSAGE_def)
  have wf: "peer_wf (conn_peer c)" using assms(1) by (simp add: event_ok_def data_ok_def)
  have g: "good_world (send_log ''command'' w)" using assms(3) by simp
  obtain e' q w' where a: "add_message (conn_peer c) x None (send_log ''command'' w) = Done (e', (conn_peer c)\<lparr>messages_in := q\<rparr>, w')"
    "good_world w'" "peer_wf ((conn_peer c)\<lparr>messages_in := q\<rparr>)"
    by (rule add_message_good [OF wf x(1) g]) blast
  with x(2) Some event_ok_peer [OF assms(1) a(3), of lev'] show ?thesis by (simp add: issue_command_def log_printf_def)
qed

lemma reconnect_ok:
  assumes "conn_inv c" "good_world w" "SMTP_connection_reinit net c w = (c', w')"
  shows "conn_inv c' \<and> good_world w'"
proof -
  obtain d w1 where d: "connect_server net (conn_ip c) (conn_ip_type c) w = (d, w1)" by force
  obtain now w2 where t: "ctime w1 = (now, w2)" by force
  have g: "good_world w1" using d assms(2)
    by (auto simp: connect_server_def connect_server_ipv4_def connect_server_ipv6_def Let_def split: option.splits if_splits)
  then have "good_world w2" using good_world_ctime [OF t] by simp
  moreover have "c' = c\<lparr>conn_state := CLIENT_FSM_ST_INIT, current_msg_line := 0, current_rcpt := 0, conn_peer := (conn_peer c)\<lparr>pfd := d\<rparr>,
         current_connection_num := current_connection_num c + 1, last_connection_time := now\<rparr>" "w' = w2"
    using assms(3) d t by (simp_all add: SMTP_connection_reinit_def)
  ultimately show ?thesis
    using assms(1) by (simp add: conn_inv_def data_ok_def peer_wf_def phase_ok_def used_state_def in_mail_def)
qed

text \<open>One call of the dispatcher in a state of the invariant.\<close>

lemma dispatch_any:
  assumes inv: "conn_inv c" and w: "good_world w" and nc: "conn_state c \<noteq> CLIENT_FSM_ST_CLOSED_CONNECTION"
  shows "(\<exists>early e cmd c' w'. dispatch_state beyond (Some (mk_str CRLF)) c w = Done (early, e, cmd, c', w') \<and> good_world w' \<and> cmd_ok cmd
    \<and> event_ok (conn_state c) c' (if early then conn_last_event c' else e) e)
    \<or> dispatch_state beyond (Some (mk_str CRLF)) c w = Fault Out_Of_Bounds \<and> overruns beyond (messages_out (conn_peer c))"
proof -
  have d: "data_ok c" and ph: "phase_ok c (conn_state c) (conn_last_event c)" using inv by (simp_all add: conn_inv_def)
  have at: "in_mail (conn_state c) \<longrightarrow> attempted c" using ph by (simp add: phase_ok_def)
  consider (ehlo) "conn_state c = CLIENT_FSM_ST_SENDING_EHLO" | (get) "conn_state c = CLIENT_FSM_ST_GET_NEXT_MESSAGE_AND_SENDING_MAIL_OR_QUIT"
    | (mail) "conn_state c = CLIENT_FSM_ST_SENDING_MAIL_OR_QUIT" | (rcpt) "conn_state c = CLIENT_FSM_ST_SENDING_RCPT_OR_DATA"
    | (body) "conn_state c = CLIENT_FSM_ST_SENDING_MSG_TEXT_OR_END_MSG" | (wait) "waiting (conn_state c)"
    using ph nc by (cases "conn_state c") (auto simp: phase_ok_def used_state_def waiting_def)
  then show ?thesis
  proof cases
    case ehlo
    then have "dispatch_state beyond (Some (mk_str CRLF)) c w = Done (False, CLIENT_FSM_EV_EHLO, Some (mk_str (''EHLO '' @ DOMAIN_NAME @ CRLF)), c, w)"
      using w by (simp add: dispatch_state_def)
    moreover have "event_ok (conn_state c) c CLIENT_FSM_EV_EHLO CLIENT_FSM_EV_EHLO"
      using d ehlo by (simp add: event_ok_def phase_ok_def used_state_def in_mail_def)
    moreover have "cmd_ok (Some (mk_str (''EHLO '' @ DOMAIN_NAME @ CRLF)))" by (simp add: DOMAIN_NAME_def)
    ultimately show ?thesis using w
      by (intro disjI1 exI [of _ False] exI [of _ CLIENT_FSM_EV_EHLO] exI conjI) (assumption, simp_all)
  next
    case get
    obtain c1 where c1: "(if cqueue_is_empty (conn_messages c) then Done c
        else rbind (cqueue_pop_front (conn_messages c)) (\<lambda>(_, q). Done (c\<lparr>conn_messages := q\<rparr>))) = Done c1" "data_ok c1"
      "conn_state c1 = conn_state c" "conn_last_event c1 = conn_last_event c"
    proof (cases "qitems (conn_messages c)")
      case Nil
      then have "cqueue_is_empty (conn_messages c)" using d cqueue_is_empty_iff [of "conn_messages c"] by (simp add: data_ok_def)
      then show thesis using that [of c] d by simp
    next
      case (Cons m ms)
      from data_okD [OF d Cons] show thesis
        using that [of "c\<lparr>conn_messages := (conn_messages c)\<lparr>qitems := ms, qlen := qlen (conn_messages c) - 1\<rparr>\<rparr>"] by simp
    qed
    have "conn_last_event c1 \<noteq> CLIENT_FSM_EV_RESPONSE_4XX" using ph get c1(4) by (simp add: phase_ok_def)
    then have "\<exists>early e cmd c' w'. sending_mail_or_quit c1 w = Done (early, e, cmd, c', w') \<and> good_world w' \<and> cmd_ok cmd
        \<and> event_ok (conn_state c1) c' (if early then conn_last_event c' else e) e"
      using c1(3) get by (intro sending_mail_ok [OF c1(2) w]) auto
    with c1(1,3) get show ?thesis by (simp add: dispatch_state_def)
  next
    case mail
    then have "\<exists>early e cmd c' w'. sending_mail_or_quit c w = Done (early, e, cmd, c', w') \<and> good_world w' \<and> cmd_ok cmd
        \<and> event_ok (conn_state c) c' (if early then conn_last_event c' else e) e"
      using ph by (intro sending_mail_ok [OF d w]) (auto simp: phase_ok_def)
    with mail show ?thesis by (simp add: dispatch_state_def)
  next
    case rcpt
    then have "attempted c" using at by (simp add: in_mail_def)
    from sending_rcpt_ok [OF d this w rcpt] rcpt show ?thesis by (auto simp: dispatch_state_def)
  next
    case body
    then have "attempted c" using at by (simp add: in_mail_def)
    from sending_text_ok [OF d this w body] body show ?thesis by (auto simp: dispatch_state_def)
  next
    case wait
    then have "dispatch_state beyond (Some (mk_str CRLF)) c w = rbind (awaiting_response beyond c w) (\<lambda>r. Done (False, r))"
      by (auto simp: waiting_def dispatch_state_def)
    with awaiting_any [OF d w wait at, of beyond] show ?thesis by auto
  qed
qed

definition fsm_outcome :: "te_client_fsm_state \<Rightarrow> te_client_fsm_event \<Rightarrow> te_client_fsm_state run" where
  "fsm_outcome s e = (if fsm_def_next s e = CLIENT_FSM_ST_INVALID then Fault Exit_Called else Done (fsm_def_next s e))"

text \<open>
  An event is generated in every state of the invariant; the automaton then exits, which only
  happens on a reply, or moves to a state in which the invariant holds again.
\<close>

lemma generate_event_any:
  assumes inv: "conn_inv c" and w: "good_world w"
  shows "(\<exists>e c' w'. generate_event net beyond c w = Done (e, c', w') \<and> good_world w'
    \<and> (if fsm_def_next (conn_state c') e = CLIENT_FSM_ST_INVALID then e \<in> responses - {CLIENT_FSM_EV_NONE}
       else conn_inv (c'\<lparr>conn_state := fsm_def_next (conn_state c') e\<rparr>))
    \<and> used_state (conn_state c'))
    \<or> generate_event net beyond c w = Fault Out_Of_Bounds \<and> overruns beyond (messages_out (conn_peer c))"
proof -
  have d: "data_ok c" and us: "used_state (conn_state c)" using inv by (simp_all add: conn_inv_def phase_ok_def)
  consider (closed) "conn_state c = CLIENT_FSM_ST_CLOSED_CONNECTION"
    | (lost) "conn_state c \<noteq> CLIENT_FSM_ST_CLOSED_CONNECTION" "pfd (conn_peer c) = -1" "\<not> has_more_connection_attempts c"
    | (go) "conn_state c \<noteq> CLIENT_FSM_ST_CLOSED_CONNECTION" "\<not> (pfd (conn_peer c) = -1 \<and> \<not> has_more_connection_attempts c)" by blast
  then show ?thesis
  proof cases
    case closed
    then have "generate_event net beyond c w = Done (CLIENT_FSM_EV_NONE, c, w)" by (simp add: generate_event_def)
    moreover have "conn_inv (c\<lparr>conn_state := CLIENT_FSM_ST_CLOSED_CONNECTION\<rparr>)"
      using d by (simp add: conn_inv_def data_ok_def phase_ok_def used_state_def in_mail_def)
    ultimately show ?thesis using closed inv w us by simp
  next
    case lost
    then have "generate_event net beyond c w = Done (CLIENT_FSM_EV_CLOSE_CONNECTION, c, w)" by (simp add: generate_event_def)
    moreover have "conn_inv (c\<lparr>conn_state := CLIENT_FSM_ST_CLOSED_CONNECTION\<rparr>)"
      using d by (simp add: conn_inv_def data_ok_def phase_ok_def used_state_def in_mail_def)
    ultimately show ?thesis using w us by simp
  next
    case go
    obtain c1 w1 where c1: "(if pfd (conn_peer c) = -1
          then let (again, w1) = can_reconnect_now c w in if again then SMTP_connection_reinit net c w1 else (c, w1)
          else (c, w)) = (c1, w1)" by force
    obtain again wt where t: "can_reconnect_now c w = (again, wt)" by force
    then have "good_world wt" using w good_world_ctime [of w] by (auto simp: can_reconnect_now_def split: prod.splits)
    then have ok1: "conn_inv c1 \<and> good_world w1 \<and> conn_state c1 \<noteq> CLIENT_FSM_ST_CLOSED_CONNECTION"
      using c1 t inv w go(1) reconnect_ok [OF inv, of wt net c1 w1]
      by (auto simp: SMTP_connection_reinit_def split: if_splits prod.splits)
    have mo: "messages_out (conn_peer c1) = messages_out (conn_peer c)"
      using c1 t by (auto simp: SMTP_connection_reinit_def split: if_splits prod.splits)
    show ?thesis
    proof (cases "dispatch_state beyond (Some (mk_str CRLF)) c1 w1 = Fault Out_Of_Bounds \<and> overruns beyond (messages_out (conn_peer c1))")
      case True
      then have "generate_event net beyond c w = Fault Out_Of_Bounds"
        unfolding generate_event_def if_not_P [OF go(1)] if_not_P [OF go(2)] c1 using ok1 by (simp add: as_array_def)
      with True mo show ?thesis by simp
    next
      case False
      with ok1 obtain early e cmd c2 w3 where ds: "dispatch_state beyond (Some (mk_str CRLF)) c1 w1 = Done (early, e, cmd, c2, w3)" "good_world w3" "cmd_ok cmd"
        "event_ok (conn_state c1) c2 (if early then conn_last_event c2 else e) e"
        using dispatch_any [of c1 w1 beyond] by blast
      have ge: "generate_event net beyond c w = (if early then Done (e, c2, w3)
          else rbind (issue_command cmd c2 w3) (\<lambda>(c3, w4). Done (e, c3\<lparr>conn_last_event := e\<rparr>, w4)))"
        unfolding generate_event_def if_not_P [OF go(1)] if_not_P [OF go(2)] c1 using ok1 ds(1) by (simp add: as_array_def)
      have us1: "used_state (conn_state c1)" using ok1 by (simp add: conn_inv_def phase_ok_def)
      have fin: "(if fsm_def_next (conn_state c') e = CLIENT_FSM_ST_INVALID then e \<in> responses - {CLIENT_FSM_EV_NONE}
         else conn_inv (c'\<lparr>conn_state := fsm_def_next (conn_state c') e\<rparr>)) \<and> used_state (conn_state c')"
        if "event_ok (conn_state c1) c' (conn_last_event c') e" for c'
        using that us1 by (auto simp: event_ok_def conn_inv_def data_ok_def phase_ok_def attempted_def)
      show ?thesis
      proof (cases early)
        case True
        with ds(4) have "event_ok (conn_state c1) c2 (conn_last_event c2) e" by simp
        note fin [OF this]
        moreover have "generate_event net beyond c w = Done (e, c2, w3)" using ge True by simp
        ultimately show ?thesis using ds(2) by blast
      next
        case False
        with ds(4) have ev: "event_ok (conn_state c1) c2 e e" by simp
        obtain c3 w4 where iss: "issue_command cmd c2 w3 = Done (c3, w4)" "good_world w4" "event_ok (conn_state c1) (c3\<lparr>conn_last_event := e\<rparr>) e e"
          using issue_ok [OF ev ds(3,2), of e] by blast
        have "event_ok (conn_state c1) (c3\<lparr>conn_last_event := e\<rparr>) (conn_last_event (c3\<lparr>conn_last_event := e\<rparr>)) e" using iss(3) by simp
        note fin [OF this]
        moreover have "generate_event net beyond c w = Done (e, c3\<lparr>conn_last_event := e\<rparr>, w4)" using ge False iss(1) by simp
        ultimately show ?thesis using iss(2) by blast
      qed
    qed
  qed
qed

lemma client_fsm_step_outcome:
  "used_state s \<Longrightarrow> client_fsm_step s e = fsm_outcome s e"
  using client_fsm_step_live [of s e] by (auto simp: fsm_outcome_def fsm_live_iff used_state_def)

section \<open>Properties\<close>

lemma conn_round_any:
  assumes "conn_inv c" and "good_world w"
  shows "\<exists>r p w1. fill_messages_out (conn_peer c) CRLF w = Done (r, p, w1) \<and> pfd p = pfd (conn_peer c)
    \<and> (conn_round net beyond c w = Fault Exit_Called
      \<or> (\<exists>c' w'. conn_round net beyond c w = Done (c', w') \<and> conn_inv c' \<and> good_world w')
      \<or> conn_round net beyond c w = Fault Out_Of_Bounds \<and> overruns beyond (messages_out p))"
proof -
  have d: "data_ok c" using assms(1) by (simp add: conn_inv_def)
  then obtain e0 p w1 q b n where p: "fill_messages_out (conn_peer c) CRLF w = Done (e0, p, w1)" "peer_wf p" "good_world w1"
    "\<forall>s \<in> set (qitems (messages_out p)). str_size s \<le> MAX_BUFFER_SIZE" "p = (conn_peer c)\<lparr>messages_out := q, buffer_out := b, buffer_out_size := n\<rparr>"
    using fill_messages_out_good [of "conn_peer c" w CRLF] assms(2) by (auto simp: data_ok_def)
  have fd: "pfd p = pfd (conn_peer c)" by (simp add: p(5))
  have "conn_inv (c\<lparr>conn_peer := p\<rparr>)"
    using assms(1) p(2,4) by (simp add: conn_inv_def data_ok_def phase_ok_def attempted_def)
  note g = generate_event_any [OF this p(3), of net beyond]
  show ?thesis
  proof (cases "generate_event net beyond (c\<lparr>conn_peer := p\<rparr>) w1 = Fault Out_Of_Bounds \<and> overruns beyond (messages_out p)")
    case True
    with p(1) fd show ?thesis by (simp add: conn_round_def)
  next
    case False
    with g obtain e c' w' where g: "generate_event net beyond (c\<lparr>conn_peer := p\<rparr>) w1 = Done (e, c', w')"
      "good_world w'" "if fsm_def_next (conn_state c') e = CLIENT_FSM_ST_INVALID then e \<in> responses - {CLIENT_FSM_EV_NONE}
         else conn_inv (c'\<lparr>conn_state := fsm_def_next (conn_state c') e\<rparr>)" "used_state (conn_state c')" by auto
    with p(1) fd client_fsm_step_outcome [OF g(4)] show ?thesis by (auto simp: conn_round_def fsm_outcome_def)
  qed
qed

lemma conn_round_ok:
  assumes "conn_inv c" and "good_world w" and "stops_atoi beyond"
  shows "conn_round net beyond c w = Fault Exit_Called
    \<or> (\<exists>c' w'. conn_round net beyond c w = Done (c', w') \<and> conn_inv c' \<and> good_world w')"
  using conn_round_any [OF assms(1,2), of net beyond] assms(3) by auto

text \<open>A reply whose first three characters are digits is always read behind its array.\<close>

lemma three_digits_overrun:
  assumes inv: "conn_inv c" and w: "good_world w" and st: "waiting (conn_state c)" "pfd (conn_peer c) \<noteq> -1"
    and p: "fill_messages_out (conn_peer c) CRLF w = Done (e0, p, w1)" and q: "qitems (messages_out p) = r # rs" "3 \<le> str_size r"
    and dg: "list_all isdigit (take 3 (str_data r))"
  shows "conn_round net [] c w = Fault Out_Of_Bounds"
proof -
  have d: "data_ok c" using inv by (simp add: conn_inv_def)
  then obtain q' b n where p': "peer_wf p" "good_world w1" "p = (conn_peer c)\<lparr>messages_out := q', buffer_out := b, buffer_out_size := n\<rparr>"
    using fill_messages_out_good [of "conn_peer c" w CRLF] w p by (auto simp: data_ok_def)
  let ?c = "c\<lparr>conn_peer := p\<rparr>"
  have "cq_wf (messages_out p)" "str_wf r" using p'(1) q(1) by (auto simp: peer_wf_def)
  have "atoi_digits acc cs = Fault Out_Of_Bounds" if "list_all isdigit cs" for acc cs
    using that by (induction acc cs rule: atoi_digits.induct) auto
  moreover have "\<not> isspace x \<and> x \<noteq> CHR ''-'' \<and> x \<noteq> CHR ''+''" if "isdigit x" for x
    using that by (auto simp: isdigit_def isspace_def)
  ultimately have "atoi cs = Fault Out_Of_Bounds" if "list_all isdigit cs" for cs
    using that by (cases cs) (simp_all del: atoi_digits.simps)
  with dg q(2) have "parse_response_code [] (Some r) = Fault Out_Of_Bounds" by (simp add: parse_response_code_def)
  with q(1) \<open>cq_wf (messages_out p)\<close> have "awaiting_response [] ?c w1 = Fault Out_Of_Bounds"
    by (simp add: awaiting_response_def cqueue_is_empty_iff cqueue_peek_ok)
  with st(1) have "dispatch_state [] (Some (mk_str CRLF)) ?c w1 = Fault Out_Of_Bounds" by (auto simp: waiting_def dispatch_state_def)
  moreover have "conn_state c \<noteq> CLIENT_FSM_ST_CLOSED_CONNECTION" using st(1) by (auto simp: waiting_def)
  ultimately have "generate_event net [] ?c w1 = Fault Out_Of_Bounds"
    using st(2) p'(2,3) by (simp add: generate_event_def as_array_def)
  with p show ?thesis by (simp add: conn_round_def)
qed

text \<open>
  C8: whatever bytes the server has sent, a round of the worker's loop over a connection that
  satisfies the invariant (its mails fit the command buffers; a mail is at the front with its
  times set whenever one is being sent) never reads an unset time or takes from an empty
  queue, and ends in a connection that satisfies it again, unless the process exits. It
  leaves no array with one exception: the code of a reply is converted from three characters
  without a terminator, so \<^verbatim>\<open>atoi\<close> goes on with whatever lies behind them (\<open>beyond\<close>). Only if
  a reply is there and its first byte behind the array does not stop \<^verbatim>\<open>atoi\<close> can this fault;
  where nothing may be read there (\<open>beyond = []\<close>), every reply that begins with three digits
  is such a fault.
\<close>

theorem conn_round_safe:
  assumes "conn_inv c" and "good_world w"
  shows "\<exists>e p w1. fill_messages_out (conn_peer c) CRLF w = Done (e, p, w1)
    \<and> (conn_round net beyond c w = Fault Exit_Called
      \<or> (\<exists>c' w'. conn_round net beyond c w = Done (c', w') \<and> conn_inv c' \<and> good_world w')
      \<or> conn_round net beyond c w = Fault Out_Of_Bounds \<and> overruns beyond (messages_out p))
    \<and> (\<forall>r rs. beyond = [] \<and> waiting (conn_state c) \<and> pfd (conn_peer c) \<noteq> -1 \<and> qitems (messages_out p) = r # rs
        \<and> 3 \<le> str_size r \<and> list_all isdigit (take 3 (str_data r)) \<longrightarrow> conn_round net beyond c w = Fault Out_Of_Bounds)"
  using conn_round_any [OF assms, of net beyond] three_digits_overrun [OF assms, of _ _ _ _ _ net] by blast

definition mail_example :: smtp_message_t where
  "mail_example = \<lparr>from_addr = Some ''<a@a.ru>'', recipients_addr = [''<b@b.ru>''], recipients_count = 1,
     msg_text = [Some (mk_str ''Hi'')], msg_lines = 1, attempt_start_time = None, last_attempt_time = None,
     max_attempts_time = 60, min_interval_between_attempts = 5\<rparr>"

definition conn_example :: smtp_conn where
  "conn_example = \<lparr>conn_addr = ''b.ru'', conn_ip = Some (mk_str ''10.0.0.1''), conn_ip_type = 0,
     conn_messages = \<lparr>qitems = [mail_example], qlen = 1, qmax = 10000\<rparr>, conn_state = CLIENT_FSM_ST_INIT,
     conn_last_event = CLIENT_FSM_EV_NONE, conn_peer = peer_example, current_rcpt = 0, current_msg_line = 0,
     current_connection_num = 1, last_connection_time = 0, max_connect_count = 3, min_interval_between_connect = 10\<rparr>"

lemma line_ok_mk_str: "NUL \<notin> set s \<Longrightarrow> length s < 2000 \<Longrightarrow> line_ok (Some (mk_str s))"
  by (auto simp: line_ok_def)

lemma mail_example_ok [simp]: "message_ok mail_example"
  by (simp add: message_ok_def mail_example_def addr_ok_def line_ok_mk_str)

lemma conn_example_data [simp]: "data_ok conn_example"
  by (simp add: data_ok_def conn_example_def cq_wf_def peer_example_def MAX_BUFFER_SIZE_def peer_example_wf [unfolded peer_example_def])

lemma conn_example_inv [simp]: "conn_inv conn_example"
  by (simp add: conn_inv_def) (simp add: phase_ok_def used_state_def in_mail_def conn_example_def)

lemma plenty_good [simp]: "good_world plenty_cworld"
  by (simp add: good_world_def plenty_cworld_def)

text \<open>The server's greeting has arrived.\<close>

definition greeted_conn :: smtp_conn where
  "greeted_conn = conn_example\<lparr>conn_peer := peer_example\<lparr>messages_out := \<lparr>qitems = [mk_str ''220 ok''], qlen = 1, qmax = 10000\<rparr>\<rparr>\<rparr>"

theorem conn_round_safe_witness:
  "conn_round \<lparr>net_socket = 4, net_connect = True\<rparr> [] greeted_conn plenty_cworld = Fault Out_Of_Bounds"
proof -
  have "data_ok greeted_conn"
    using conn_example_data by (simp add: data_ok_def greeted_conn_def peer_wf_def cq_wf_def peer_example_def conn_example_def MAX_BUFFER_SIZE_def)
  then have i: "conn_inv greeted_conn"
    by (simp add: conn_inv_def phase_ok_def used_state_def in_mail_def greeted_conn_def conn_example_def)
  have w: "waiting (conn_state greeted_conn)" "pfd (conn_peer greeted_conn) \<noteq> -1"
    by (simp_all add: greeted_conn_def conn_example_def waiting_def peer_example_def)
  have f: "fill_messages_out (conn_peer greeted_conn) CRLF plenty_cworld = Done (SUCCESS, conn_peer greeted_conn, plenty_cworld)"
    by (simp add: fill_messages_out_def greeted_conn_def peer_example_def)
  have q: "qitems (messages_out (conn_peer greeted_conn)) = [mk_str ''220 ok'']" "3 \<le> str_size (mk_str ''220 ok'')"
    "list_all isdigit (take 3 (str_data (mk_str ''220 ok'')))"
    by (simp_all add: greeted_conn_def isdigit_def)
  from conn_round_safe [OF i plenty_good, of "\<lparr>net_socket = 4, net_connect = True\<rparr>" "[]"] f w q show ?thesis by auto
qed

end
