(* ===== verification/Client_Transaction.thy ===== *)
theory Client_Transaction
  imports Client_Connection
begin

text \<open>
  A whole mail transaction on the client's side: the commands that the rounds of the worker's
  loop queue for a mail when the server accepts everything, and what happens to the queue of
  mails when it takes too long.
\<close>

section \<open>Rounds with replies\<close>

text \<open>A reply line that has been received and cut.\<close>

fun arrive :: "string option \<Rightarrow> smtp_conn \<Rightarrow> smtp_conn" where
  "arrive None c = c"
| "arrive (Some r) c = (let q = messages_out (conn_peer c) in
     c\<lparr>conn_peer := (conn_peer c)\<lparr>messages_out := q\<lparr>qitems := qitems q @ [mk_str r], qlen := qlen q + 1\<rparr>\<rparr>\<rparr>)"

text \<open>The two calls of the worker's loop that make a step of the dialogue.\<close>

definition event_step :: "netres \<Rightarrow> string \<Rightarrow> smtp_conn \<Rightarrow> cworld \<Rightarrow> (smtp_conn \<times> cworld) run" where
  "event_step net beyond c w =
     rbind (generate_event net beyond c w) (\<lambda>(ev, c2, w2).
     rbind (client_fsm_step (conn_state c2) ev) (\<lambda>s. Done (c2\<lparr>conn_state := s\<rparr>, w2)))"

fun exchange :: "netres \<Rightarrow> string \<Rightarrow> string option list \<Rightarrow> smtp_conn \<Rightarrow> cworld \<Rightarrow> (smtp_conn \<times> cworld) run" where
  "exchange net beyond [] c w = Done (c, w)"
| "exchange net beyond (r # rs) c w = rbind (event_step net beyond (arrive r c) w) (\<lambda>(c1, w1). exchange net beyond rs c1 w1)"

lemma exchange_append:
  "exchange net beyond (rs @ rs') c w = rbind (exchange net beyond rs c w) (\<lambda>(c1, w1). exchange net beyond rs' c1 w1)"
proof (induction rs arbitrary: c w)
  case (Cons r rs)
  then show ?case by (cases "event_step net beyond (arrive r c) w") (auto simp: case_prod_beta)
qed simp

text \<open>A line that the client takes for a reply of the class of \<open>e\<close>.\<close>

definition reply_of :: "string \<Rightarrow> te_client_fsm_event \<Rightarrow> string \<Rightarrow> bool" where
  "reply_of beyond e r \<longleftrightarrow> length r \<le> MAX_BUFFER_SIZE
     \<and> (\<exists>code. parse_response_code beyond (Some (mk_str r)) = Done code \<and> response_event code = e \<and> \<bar>code\<bar> < 1000)"

section \<open>Single steps\<close>

lemma step_send:
  assumes "dispatch_state beyond (Some (mk_str CRLF)) c w = Done (False, e, Some (mk_str cmd), c2, w2)"
    and "conn_peer c2 = conn_peer c" "conn_state c2 = conn_state c" "good_world w" "good_world w2" "peer_wf (conn_peer c)" "length cmd < 2010"
    and "qlen (messages_in (conn_peer c)) < qmax (messages_in (conn_peer c))" "pfd (conn_peer c) \<noteq> -1"
    and "used_state (conn_state c)" "conn_state c \<noteq> CLIENT_FSM_ST_CLOSED_CONNECTION"
    and "fsm_def_next (conn_state c) e \<noteq> CLIENT_FSM_ST_INVALID"
  obtains q w' where "event_step net beyond c w = Done (c2\<lparr>conn_peer := (conn_peer c)\<lparr>messages_in := q\<rparr>, conn_last_event := e,
      conn_state := fsm_def_next (conn_state c) e\<rparr>, w')" "good_world w'" "cclock w' = cclock w2" "peer_wf ((conn_peer c)\<lparr>messages_in := q\<rparr>)"
    "pending ((conn_peer c)\<lparr>messages_in := q\<rparr>) = pending (conn_peer c) @ cmd"
    "qlen q = qlen (messages_in (conn_peer c)) + 1" "qmax q = qmax (messages_in (conn_peer c))"
proof -
  have g: "good_world (send_log ''command'' w2)" using assms(5) by simp
  obtain e' q w' where a: "add_message (conn_peer c) (mk_str cmd) None (send_log ''command'' w2) = Done (e', (conn_peer c)\<lparr>messages_in := q\<rparr>, w')"
    "good_world w'" "peer_wf ((conn_peer c)\<lparr>messages_in := q\<rparr>)"
    "w' = send_log ''command'' w2 \<and> pending ((conn_peer c)\<lparr>messages_in := q\<rparr>) = pending (conn_peer c) @ cmd
      \<and> qlen q = qlen (messages_in (conn_peer c)) + 1 \<and> qmax q = qmax (messages_in (conn_peer c))"
    by (rule add_message_good [OF assms(6) mk_str_simps(1) g, of cmd]) (use assms(8) in simp)
  have "37 + strlen (str_data (mk_str cmd)) < MAX_G_LOG_MESSAGE"
    using strlen_mk_str [of cmd] assms(7) by (simp add: MAX_G_LOG_MESSAGE_def)
  then have "issue_command (Some (mk_str cmd)) c2 w2 = Done (c2\<lparr>conn_peer := (conn_peer c)\<lparr>messages_in := q\<rparr>\<rparr>, w')"
    using a(1) assms(2) by (simp add: issue_command_def log_printf_def)
  then have "generate_event net beyond c w = Done (e, c2\<lparr>conn_peer := (conn_peer c)\<lparr>messages_in := q\<rparr>, conn_last_event := e\<rparr>, w')"
    using assms(1,4,9,11) by (simp add: generate_event_def as_array_def)
  then have "event_step net beyond c w = Done (c2\<lparr>conn_peer := (conn_peer c)\<lparr>messages_in := q\<rparr>, conn_last_event := e,
      conn_state := fsm_def_next (conn_state c) e\<rparr>, w')"
    using client_fsm_step_outcome [OF assms(10), of e] assms(3,12) by (simp add: event_step_def fsm_outcome_def)
  with a show thesis by (intro that [of q w']) simp_all
qed

lemma generate_wait:
  assumes "awaiting_response beyond c w = Done (e, None, c2, w2)" "waiting (conn_state c)" "good_world w" "pfd (conn_peer c) \<noteq> -1"
  shows "used_state (conn_state c)" "generate_event net beyond c w = Done (e, c2\<lparr>conn_last_event := e\<rparr>, w2)"
proof -
  have "dispatch_state beyond (Some (mk_str CRLF)) c w = Done (False, e, None, c2, w2)" and s: "used_state (conn_state c)"
    "conn_state c \<noteq> CLIENT_FSM_ST_CLOSED_CONNECTION"
    using assms(1,2) by (auto simp: waiting_def dispatch_state_def used_state_def)
  then show "generate_event net beyond c w = Done (e, c2\<lparr>conn_last_event := e\<rparr>, w2)"
    using assms(3,4) by (simp add: generate_event_def as_array_def issue_command_def)
  show "used_state (conn_state c)" by (rule s(1))
qed

lemma step_wait:
  assumes "awaiting_response beyond c w = Done (e, None, c2, w2)" "waiting (conn_state c)" "conn_state c2 = conn_state c" "good_world w"
    and "pfd (conn_peer c) \<noteq> -1" "fsm_def_next (conn_state c) e \<noteq> CLIENT_FSM_ST_INVALID"
  shows "event_step net beyond c w = Done (c2\<lparr>conn_last_event := e, conn_state := fsm_def_next (conn_state c) e\<rparr>, w2)"
  using generate_wait(2) [OF assms(1,2,4,5), of net] client_fsm_step_outcome [OF generate_wait(1) [OF assms(1,2,4,5)], of e] assms(3,6)
  by (simp add: event_step_def fsm_outcome_def)

text \<open>A reply that the automaton does not foresee ends the process.\<close>

lemma step_exit:
  assumes "awaiting_response beyond c w = Done (e, None, c2, w2)" "waiting (conn_state c)" "conn_state c2 = conn_state c" "good_world w"
    and "pfd (conn_peer c) \<noteq> -1" "fsm_def_next (conn_state c) e = CLIENT_FSM_ST_INVALID"
  shows "event_step net beyond c w = Fault Exit_Called"
  using generate_wait(2) [OF assms(1,2,4,5), of net] client_fsm_step_outcome [OF generate_wait(1) [OF assms(1,2,4,5)], of e] assms(3,6)
  by (simp add: event_step_def fsm_outcome_def)

section \<open>The course of a transaction\<close>

text \<open>
  The situation between two steps: the mail \<open>m\<close> is at the front of the queue, \<open>out\<close> waits to
  be sent, no reply waits to be read, and there is room for \<open>k\<close> more commands.
\<close>

definition tx :: "smtp_message_t \<Rightarrow> smtp_message_t list \<Rightarrow> nat \<Rightarrow> te_client_fsm_state \<Rightarrow> nat \<Rightarrow> nat \<Rightarrow> string \<Rightarrow> smtp_conn \<Rightarrow> bool" where
  "tx m ms k s rc ln out c \<longleftrightarrow> data_ok c \<and> pfd (conn_peer c) \<noteq> -1 \<and> conn_state c = s \<and> current_rcpt c = rc \<and> current_msg_line c = ln
     \<and> qitems (conn_messages c) = m # ms \<and> pending (conn_peer c) = out \<and> qitems (messages_out (conn_peer c)) = []
     \<and> qlen (messages_in (conn_peer c)) + k \<le> qmax (messages_in (conn_peer c)) \<and> 0 < qmax (messages_out (conn_peer c))"

definition clock_at :: "int \<Rightarrow> cworld \<Rightarrow> bool" where
  "clock_at t w \<longleftrightarrow> good_world w \<and> cclock w = [t]"

lemma clock_atD: "clock_at t w \<Longrightarrow> good_world w" "clock_at t w \<Longrightarrow> ctime w = (t, w)" "clock_at t w \<Longrightarrow> cclock w = [t]"
  by (simp_all add: clock_at_def ctime_def)

lemma tx_send:
  assumes tx: "tx m ms (Suc k) s rc ln out c" and w: "clock_at t w"
    and ds: "dispatch_state beyond (Some (mk_str CRLF)) c w = Done (False, e, Some (mk_str cmd), c2, w)"
    and c2: "conn_peer c2 = conn_peer c" "conn_state c2 = s" "current_rcpt c2 = rc'" "current_msg_line c2 = ln'" "data_ok c2"
      "qitems (conn_messages c2) = m' # ms'"
    and s: "used_state s" "s \<noteq> CLIENT_FSM_ST_CLOSED_CONNECTION" "fsm_def_next s e = s'" "s' \<noteq> CLIENT_FSM_ST_INVALID" "length cmd < 2010"
  obtains c' w' where "exchange net beyond [None] c w = Done (c', w')" "clock_at t w'" "tx m' ms' k s' rc' ln' (out @ cmd) c'"
proof -
  have c: "peer_wf (conn_peer c)" "qlen (messages_in (conn_peer c)) < qmax (messages_in (conn_peer c))" "pfd (conn_peer c) \<noteq> -1" "conn_state c = s"
    using tx by (auto simp: tx_def data_ok_def)
  have st: "conn_state c2 = conn_state c" "used_state (conn_state c)" "conn_state c \<noteq> CLIENT_FSM_ST_CLOSED_CONNECTION"
    "fsm_def_next (conn_state c) e \<noteq> CLIENT_FSM_ST_INVALID" using c(4) c2(2) s by auto
  obtain q w' where e: "event_step net beyond c w = Done (c2\<lparr>conn_peer := (conn_peer c)\<lparr>messages_in := q\<rparr>, conn_last_event := e,
      conn_state := fsm_def_next (conn_state c) e\<rparr>, w')" "good_world w'" "cclock w' = cclock w" "peer_wf ((conn_peer c)\<lparr>messages_in := q\<rparr>)"
    "pending ((conn_peer c)\<lparr>messages_in := q\<rparr>) = pending (conn_peer c) @ cmd"
    "qlen q = qlen (messages_in (conn_peer c)) + 1" "qmax q = qmax (messages_in (conn_peer c))"
    by (rule step_send [OF ds c2(1) st(1) clock_atD(1) [OF w] clock_atD(1) [OF w] c(1) s(5) c(2,3) st(2-4), of net])
  let ?c = "c2\<lparr>conn_peer := (conn_peer c)\<lparr>messages_in := q\<rparr>, conn_last_event := e, conn_state := s'\<rparr>"
  have "tx m' ms' k s' rc' ln' (out @ cmd) ?c"
    using tx c2 e(4-7) by (simp add: tx_def data_ok_def)
  moreover have "exchange net beyond [None] c w = Done (?c, w')" using e(1) c(4) s(3) by simp
  moreover have "clock_at t w'" using e(2,3) w by (simp add: clock_at_def)
  ultimately show thesis by (rule that [rotated 2])
qed

lemma tx_awaiting:
  assumes tx: "tx m ms k s rc ln out c" and r: "reply_of beyond e r"
  shows "awaiting_response beyond (arrive (Some r) c) w = Done (e, None,
    c\<lparr>conn_peer := (conn_peer c)\<lparr>messages_out := (messages_out (conn_peer c))\<lparr>qitems := [], qlen := 0\<rparr>\<rparr>\<rparr>, send_log ''reply'' w)"
proof -
  obtain code where code: "parse_response_code beyond (Some (mk_str r)) = Done code" "response_event code = e" "\<bar>code\<bar> < 1000" "length r \<le> 1024"
    using r by (auto simp: reply_of_def MAX_BUFFER_SIZE_def)
  let ?q = "messages_out (conn_peer c)"
  have q: "cq_wf ?q" "qitems ?q = []" "0 < qmax ?q" using tx by (auto simp: tx_def data_ok_def peer_wf_def)
  let ?q1 = "?q\<lparr>qitems := [mk_str r], qlen := Suc 0\<rparr>"
  have q1: "cq_wf ?q1" "qlen ?q = 0" using q by (auto simp: cq_wf_def)
  have ar: "arrive (Some r) c = c\<lparr>conn_peer := (conn_peer c)\<lparr>messages_out := ?q1\<rparr>\<rparr>" using q q1(2) by (simp add: Let_def)
  have fits: "42 + length (show_int code) + strlen (str_data (mk_str r)) < MAX_G_LOG_MESSAGE"
    using length_show_int [OF code(3)] strlen_mk_str [of r] code(4) by (simp add: MAX_G_LOG_MESSAGE_def del: mk_str_simps(4))
  show ?thesis
    using code(1,2) fits q1(1) drain_replies_ok [OF q1(1)] unfolding ar
    by (simp add: awaiting_response_def cqueue_is_empty_def cqueue_peek_def log_printf_def del: mk_str_simps(4))
qed

lemma arrive_frame [simp]: "conn_state (arrive (Some r) c) = conn_state c" "pfd (conn_peer (arrive (Some r) c)) = pfd (conn_peer c)"
  by (simp_all add: Let_def)

lemma tx_reply_last:
  assumes tx: "tx m ms k s rc ln out c" and w: "clock_at t w" and r: "reply_of beyond e r"
    and s: "waiting s" "fsm_def_next s e = s'" "s' \<noteq> CLIENT_FSM_ST_INVALID"
  obtains c' w' where "exchange net beyond [Some r] c w = Done (c', w')" "clock_at t w'" "tx m ms k s' rc ln out c'" "conn_last_event c' = e"
proof -
  let ?cb = "c\<lparr>conn_peer := (conn_peer c)\<lparr>messages_out := (messages_out (conn_peer c))\<lparr>qitems := [], qlen := 0\<rparr>\<rparr>\<rparr>"
  have st: "conn_state c = s" "pfd (conn_peer c) \<noteq> -1" using tx by (simp_all add: tx_def)
  have "event_step net beyond (arrive (Some r) c) w = Done (?cb\<lparr>conn_last_event := e, conn_state := fsm_def_next s e\<rparr>, send_log ''reply'' w)"
    using step_wait [OF tx_awaiting [OF tx r], of w net] st s clock_atD(1) [OF w] by (simp del: arrive.simps)
  then have "exchange net beyond [Some r] c w = Done (?cb\<lparr>conn_last_event := e, conn_state := s'\<rparr>, send_log ''reply'' w)"
    using s(2) by (simp del: arrive.simps)
  moreover have "tx m ms k s' rc ln out (?cb\<lparr>conn_last_event := e, conn_state := s'\<rparr>)"
    using tx by (auto simp: tx_def data_ok_def peer_wf_def pending_def cq_wf_def)
  moreover have "clock_at t (send_log ''reply'' w)" using w by (simp add: clock_at_def)
  moreover have "conn_last_event (?cb\<lparr>conn_last_event := e, conn_state := s'\<rparr>) = e" by simp
  ultimately show thesis using that by blast
qed

lemma tx_reply_unforeseen:
  assumes tx: "tx m ms k s rc ln out c" and w: "clock_at t w" and r: "reply_of beyond e r"
    and s: "waiting s" "fsm_def_next s e = CLIENT_FSM_ST_INVALID"
  shows "exchange net beyond [Some r] c w = Fault Exit_Called"
proof -
  have st: "conn_state c = s" "pfd (conn_peer c) \<noteq> -1" using tx by (simp_all add: tx_def)
  have "event_step net beyond (arrive (Some r) c) w = Fault Exit_Called"
    using step_exit [OF tx_awaiting [OF tx r], of w net] st s clock_atD(1) [OF w] by (simp del: arrive.simps)
  then show ?thesis by (simp del: arrive.simps)
qed

lemma tx_reply:
  assumes "tx m ms k s rc ln out c" "clock_at t w" "reply_of beyond e r" "waiting s" "fsm_def_next s e = s'" "s' \<noteq> CLIENT_FSM_ST_INVALID"
  obtains c' w' where "exchange net beyond [Some r] c w = Done (c', w')" "clock_at t w'" "tx m ms k s' rc ln out c'"
  using tx_reply_last [OF assms] by metis

lemma txD:
  assumes "tx m ms k s rc ln out c"
  shows "data_ok c" "conn_state c = s" "current_rcpt c = rc" "current_msg_line c = ln" "qitems (conn_messages c) = m # ms"
    "message_ok m" "cqueue_peek (conn_messages c) = Done (Some m)" "\<not> cqueue_is_empty (conn_messages c)"
  using assms data_okD [of c m ms] by (auto simp: tx_def)

text \<open>A mail of which an attempt has begun at time \<open>t\<close> and that allows attempts to take time.\<close>

definition under_way :: "int \<Rightarrow> smtp_message_t \<Rightarrow> bool" where
  "under_way t m \<longleftrightarrow> attempt_start_time m = Some t \<and> 0 \<le> max_attempts_time m \<and> message_ok m"

lemma under_way_not_late: "under_way t m \<Longrightarrow> clock_at t w \<Longrightarrow> is_attempts_time_expired m w = Done (False, w)"
  using clock_atD(2) [of t w] by (simp add: under_way_def is_attempts_time_expired_def)

definition start_at :: "int \<Rightarrow> smtp_message_t \<Rightarrow> smtp_message_t" where
  "start_at t m = m\<lparr>attempt_start_time := Some t, last_attempt_time := Some t\<rparr>"

lemma tx_mail:
  assumes tx: "tx m ms (Suc k) s rc ln out c" and w: "clock_at t w" and s: "s = CLIENT_FSM_ST_SENDING_MAIL_OR_QUIT"
    and l: "conn_last_event c \<noteq> CLIENT_FSM_EV_RESPONSE_4XX" and a: "from_addr m = Some a"
  obtains c' w' where "exchange net beyond [None] c w = Done (c', w')" "clock_at t w'"
    "tx (start_at t m) ms k CLIENT_FSM_ST_MAIL_SENDED 0 0 (out @ ''MAIL FROM:'' @ a @ CRLF) c'"
proof -
  note d = txD [OF tx]
  have ao: "addr_ok a" "length a < 240" using d(6) a by (auto simp: message_ok_def addr_ok_def)
  let ?c = "c\<lparr>conn_messages := cqueue_set_front (start_at t m) (conn_messages c), current_rcpt := 0, current_msg_line := 0\<rparr>"
  have "sending_mail_or_quit c w = Done (False, CLIENT_FSM_EV_MAIL, Some (mk_str (''MAIL FROM:'' @ a @ CRLF)), ?c, w)"
    using d(7,8) a l clock_atD(1,2) [OF w] addr_command_plenty(1) [OF _ ao(1), of w] by (simp add: sending_mail_or_quit_def start_at_def)
  then have ds: "dispatch_state beyond (Some (mk_str CRLF)) c w = Done (False, CLIENT_FSM_EV_MAIL, Some (mk_str (''MAIL FROM:'' @ a @ CRLF)), ?c, w)"
    using d(2) s by (simp add: dispatch_state_def)
  have "data_ok ?c" using start_attempt_ok [OF d(1,5) refl, of t t] by (simp add: start_at_def)
  moreover have "qitems (conn_messages ?c) = start_at t m # ms" using d(5) by (simp add: cqueue_set_front_def)
  ultimately show thesis
    by (intro tx_send [OF tx w ds, of 0 0 "start_at t m" ms CLIENT_FSM_ST_MAIL_SENDED net, OF _ _ _ _ _ _ _ _ _ _ _ that])
      (use d(2) s ao(2) in \<open>simp_all add: used_state_def\<close>)
qed

lemma tx_rcpt:
  assumes tx: "tx m ms (Suc k) s rc ln out c" and w: "clock_at t w" and s: "s = CLIENT_FSM_ST_SENDING_RCPT_OR_DATA"
    and u: "under_way t m" and i: "rc < length (recipients_addr m)"
  obtains c' w' where "exchange net beyond [None] c w = Done (c', w')" "clock_at t w'"
    "tx m ms k CLIENT_FSM_ST_RCPT_SENDED (rc + 1) ln (out @ ''RCPT TO:'' @ recipients_addr m ! rc @ CRLF) c'"
proof -
  note d = txD [OF tx]
  have ao: "addr_ok (recipients_addr m ! rc)" "length (recipients_addr m ! rc) < 240" "recipients_count m = length (recipients_addr m)"
    using d(6) i by (auto simp: message_ok_def addr_ok_def)
  let ?c = "c\<lparr>current_rcpt := rc + 1\<rparr>" and ?s = "''RCPT TO:'' @ recipients_addr m ! rc @ CRLF"
  have "sending_rcpt_or_data c w = Done (CLIENT_FSM_EV_RCPT, Some (mk_str ?s), ?c, w)"
    using d(3,7) i ao(3) under_way_not_late [OF u w] clock_atD(1) [OF w] addr_command_plenty(2) [OF _ ao(1), of w]
    by (simp add: sending_rcpt_or_data_def)
  then have ds: "dispatch_state beyond (Some (mk_str CRLF)) c w = Done (False, CLIENT_FSM_EV_RCPT, Some (mk_str ?s), ?c, w)"
    using d(2) s by (simp add: dispatch_state_def)
  have "data_ok ?c" using d(1) by (simp add: data_ok_def)
  then show thesis
    by (intro tx_send [OF tx w ds, of "rc + 1" ln m ms CLIENT_FSM_ST_RCPT_SENDED net, OF _ _ _ _ _ _ _ _ _ _ _ that])
      (use d s ao(2) in \<open>simp_all add: used_state_def\<close>)
qed

lemma tx_data:
  assumes tx: "tx m ms (Suc k) s rc ln out c" and w: "clock_at t w" and s: "s = CLIENT_FSM_ST_SENDING_RCPT_OR_DATA"
    and u: "under_way t m" and i: "rc = length (recipients_addr m)"
  obtains c' w' where "exchange net beyond [None] c w = Done (c', w')" "clock_at t w'"
    "tx m ms k CLIENT_FSM_ST_DATA_SENDED rc ln (out @ ''DATA'' @ CRLF) c'"
proof -
  note d = txD [OF tx]
  have "recipients_count m = length (recipients_addr m)" using d(6) by (auto simp: message_ok_def)
  then have "sending_rcpt_or_data c w = Done (CLIENT_FSM_EV_DATA, Some (mk_str (''DATA'' @ CRLF)), c, w)"
    using d(3,7) i under_way_not_late [OF u w] clock_atD(1) [OF w] by (simp add: sending_rcpt_or_data_def)
  then have ds: "dispatch_state beyond (Some (mk_str CRLF)) c w = Done (False, CLIENT_FSM_EV_DATA, Some (mk_str (''DATA'' @ CRLF)), c, w)"
    using d(2) s by (simp add: dispatch_state_def)
  show thesis
    by (intro tx_send [OF tx w ds, of rc ln m ms CLIENT_FSM_ST_DATA_SENDED net, OF _ _ _ _ _ _ _ _ _ _ _ that])
      (use d s in \<open>simp_all add: used_state_def\<close>)
qed

definition line_text :: "string_t option \<Rightarrow> string" where
  "line_text l = (case l of None \<Rightarrow> [] | Some s \<Rightarrow> str_text s)"

lemma tx_line:
  assumes tx: "tx m ms (Suc k) s rc ln out c" and w: "clock_at t w" and s: "s = CLIENT_FSM_ST_SENDING_MSG_TEXT_OR_END_MSG"
    and u: "under_way t m" and i: "ln < length (msg_text m)"
  obtains c' w' where "exchange net beyond [None] c w = Done (c', w')" "clock_at t w'"
    "tx m ms k CLIENT_FSM_ST_MSG_TEXT_SENDED rc (ln + 1) (out @ line_text (msg_text m ! ln) @ CRLF) c'"
proof -
  note d = txD [OF tx]
  have "line_ok (msg_text m ! ln)" "msg_lines m = length (msg_text m)" using d(6) i by (auto simp: message_ok_def)
  then obtain x where x: "msg_text m ! ln = Some (mk_str x)" "length x < 2000" "msg_lines m = length (msg_text m)" by (auto simp: line_ok_def)
  let ?c = "c\<lparr>current_msg_line := ln + 1\<rparr>"
  have "sending_text (Some (mk_str CRLF)) c w = Done (CLIENT_FSM_EV_MSG_TEXT, Some (mk_str (x @ CRLF)), ?c, w)"
    using d(4,7) i x(1,3) under_way_not_late [OF u w] clock_atD(1) [OF w] string_concat_plenty [of w x CRLF] by (simp add: sending_text_def)
  then have ds: "dispatch_state beyond (Some (mk_str CRLF)) c w = Done (False, CLIENT_FSM_EV_MSG_TEXT, Some (mk_str (x @ CRLF)), ?c, w)"
    using d(2) s by (simp add: dispatch_state_def)
  have "data_ok ?c" using d(1) by (simp add: data_ok_def)
  then show thesis
    by (intro tx_send [OF tx w ds, of rc "ln + 1" m ms CLIENT_FSM_ST_MSG_TEXT_SENDED net, OF _ _ _ _ _ _ _ _ _ _ _ that])
      (use d s x in \<open>simp_all add: used_state_def line_text_def\<close>)
qed

lemma tx_end:
  assumes tx: "tx m ms (Suc k) s rc ln out c" and w: "clock_at t w" and s: "s = CLIENT_FSM_ST_SENDING_MSG_TEXT_OR_END_MSG"
    and u: "under_way t m" and i: "ln = length (msg_text m)"
  obtains c' w' where "exchange net beyond [None] c w = Done (c', w')" "clock_at t w'"
    "tx m ms k CLIENT_FSM_ST_END_DATA_SENDED rc ln (out @ ''.'' @ CRLF) c'"
proof -
  note d = txD [OF tx]
  have "msg_lines m = length (msg_text m)" using d(6) by (auto simp: message_ok_def)
  then have "sending_text (Some (mk_str CRLF)) c w = Done (CLIENT_FSM_EV_END_DATA, Some (mk_str (''.'' @ CRLF)), c, w)"
    using d(4,7) i under_way_not_late [OF u w] clock_atD(1) [OF w] by (simp add: sending_text_def)
  then have ds: "dispatch_state beyond (Some (mk_str CRLF)) c w = Done (False, CLIENT_FSM_EV_END_DATA, Some (mk_str (''.'' @ CRLF)), c, w)"
    using d(2) s by (simp add: dispatch_state_def)
  show thesis
    by (intro tx_send [OF tx w ds, of rc ln m ms CLIENT_FSM_ST_END_DATA_SENDED net, OF _ _ _ _ _ _ _ _ _ _ _ that])
      (use d s in \<open>simp_all add: used_state_def\<close>)
qed

text \<open>Between two lines of the text the automaton makes a step of its own.\<close>

lemma tx_pause:
  assumes tx: "tx m ms k s rc ln out c" and w: "clock_at t w" and s: "s = CLIENT_FSM_ST_MSG_TEXT_SENDED"
  obtains c' where "exchange net beyond [None] c w = Done (c', w)" "tx m ms k CLIENT_FSM_ST_SENDING_MSG_TEXT_OR_END_MSG rc ln out c'"
proof -
  note d = txD [OF tx]
  have q: "cq_wf (messages_out (conn_peer c))" "qitems (messages_out (conn_peer c)) = []" "pfd (conn_peer c) \<noteq> -1"
    using tx by (auto simp: tx_def data_ok_def peer_wf_def)
  have aw: "awaiting_response beyond c w = Done (CLIENT_FSM_EV_NONE, None, c, w)"
    using q by (simp add: awaiting_response_def cqueue_is_empty_iff)
  have n: "fsm_def_next CLIENT_FSM_ST_MSG_TEXT_SENDED CLIENT_FSM_EV_NONE = CLIENT_FSM_ST_SENDING_MSG_TEXT_OR_END_MSG"
    by (simp add: fsm_def_next_def)
  have "exchange net beyond [None] c w = Done (c\<lparr>conn_last_event := CLIENT_FSM_EV_NONE, conn_state := CLIENT_FSM_ST_SENDING_MSG_TEXT_OR_END_MSG\<rparr>, w)"
    using step_wait [OF aw _ refl clock_atD(1) [OF w] q(3), of net] d(2) s n by (simp add: waiting_def)
  moreover have "tx m ms k CLIENT_FSM_ST_SENDING_MSG_TEXT_OR_END_MSG rc ln out
      (c\<lparr>conn_last_event := CLIENT_FSM_EV_NONE, conn_state := CLIENT_FSM_ST_SENDING_MSG_TEXT_OR_END_MSG\<rparr>)"
    using tx by (simp add: tx_def data_ok_def)
  ultimately show thesis by (rule that)
qed

lemma exchange2:
  "exchange net beyond [r1] c w = Done (c1, w1) \<Longrightarrow> exchange net beyond (r2 # rs) c1 w1 = x \<Longrightarrow> exchange net beyond (r1 # r2 # rs) c w = x"
  using exchange_append [of net beyond "[r1]" "r2 # rs" c w] by simp

lemma exchange_then:
  "exchange net beyond rs c w = Done (c1, w1) \<Longrightarrow> exchange net beyond (rs @ rs') c w = exchange net beyond rs' c1 w1"
  by (simp add: exchange_append)

definition rcpt_command :: "string \<Rightarrow> string" where
  "rcpt_command a = ''RCPT TO:'' @ a @ CRLF"

definition text_line :: "string_t option \<Rightarrow> string" where
  "text_line l = line_text l @ CRLF"

lemma fsm_next_waiting:
  "fsm_def_next CLIENT_FSM_ST_MAIL_SENDED CLIENT_FSM_EV_RESPONSE_2XX = CLIENT_FSM_ST_SENDING_RCPT_OR_DATA"
  "fsm_def_next CLIENT_FSM_ST_RCPT_SENDED CLIENT_FSM_EV_RESPONSE_2XX = CLIENT_FSM_ST_SENDING_RCPT_OR_DATA"
  "fsm_def_next CLIENT_FSM_ST_DATA_SENDED CLIENT_FSM_EV_RESPONSE_3XX = CLIENT_FSM_ST_SENDING_MSG_TEXT_OR_END_MSG"
  "fsm_def_next CLIENT_FSM_ST_END_DATA_SENDED CLIENT_FSM_EV_RESPONSE_2XX = CLIENT_FSM_ST_GET_NEXT_MESSAGE_AND_SENDING_MAIL_OR_QUIT"
  "fsm_def_next CLIENT_FSM_ST_RSET_SENDED CLIENT_FSM_EV_RESPONSE_2XX = CLIENT_FSM_ST_GET_NEXT_MESSAGE_AND_SENDING_MAIL_OR_QUIT"
  by (simp_all add: fsm_def_next_def)

lemma tx_rcpts:
  assumes "under_way t m" "reply_of beyond CLIENT_FSM_EV_RESPONSE_2XX ok"
  shows "length (recipients_addr m) - rc = n \<Longrightarrow> rc \<le> length (recipients_addr m) \<Longrightarrow>
     tx m ms (n + k) CLIENT_FSM_ST_SENDING_RCPT_OR_DATA rc ln out c \<Longrightarrow> clock_at t w \<Longrightarrow>
     \<exists>c' w'. exchange net beyond (concat (replicate n [None, Some ok])) c w = Done (c', w') \<and> clock_at t w'
       \<and> tx m ms k CLIENT_FSM_ST_SENDING_RCPT_OR_DATA (length (recipients_addr m)) ln
           (out @ concat (map rcpt_command (drop rc (recipients_addr m)))) c'"
proof (induction n arbitrary: rc out c w)
  case (Suc n)
  then have i: "rc < length (recipients_addr m)" and tx: "tx m ms (Suc (n + k)) CLIENT_FSM_ST_SENDING_RCPT_OR_DATA rc ln out c" by auto
  obtain c1 w1 where 1: "exchange net beyond [None] c w = Done (c1, w1)" "clock_at t w1"
    "tx m ms (n + k) CLIENT_FSM_ST_RCPT_SENDED (rc + 1) ln (out @ ''RCPT TO:'' @ recipients_addr m ! rc @ CRLF) c1"
    by (rule tx_rcpt [OF tx Suc.prems(4) refl assms(1) i])
  obtain c2 w2 where 2: "exchange net beyond [Some ok] c1 w1 = Done (c2, w2)" "clock_at t w2"
    "tx m ms (n + k) CLIENT_FSM_ST_SENDING_RCPT_OR_DATA (rc + 1) ln (out @ ''RCPT TO:'' @ recipients_addr m ! rc @ CRLF) c2"
    by (rule tx_reply [OF 1(3,2) assms(2) _ fsm_next_waiting(2)]) (simp_all add: waiting_def)
  have "length (recipients_addr m) - (rc + 1) = n" "rc + 1 \<le> length (recipients_addr m)" using Suc.prems(1) i by auto
  from Suc.IH [OF this 2(3,2)] obtain c3 w3 where 3: "exchange net beyond (concat (replicate n [None, Some ok])) c2 w2 = Done (c3, w3)" "clock_at t w3"
    "tx m ms k CLIENT_FSM_ST_SENDING_RCPT_OR_DATA (length (recipients_addr m)) ln
       ((out @ ''RCPT TO:'' @ recipients_addr m ! rc @ CRLF) @ concat (map rcpt_command (drop (rc + 1) (recipients_addr m)))) c3" by blast
  have "drop rc (recipients_addr m) = recipients_addr m ! rc # drop (rc + 1) (recipients_addr m)" using i by (simp add: Cons_nth_drop_Suc)
  moreover have "exchange net beyond (concat (replicate (Suc n) [None, Some ok])) c w = Done (c3, w3)"
    using exchange_then [OF 1(1), of "[Some ok] @ concat (replicate n [None, Some ok])"] exchange_then [OF 2(1)] 3(1) by simp
  ultimately show ?case using 3(2,3) by (simp add: rcpt_command_def [of "recipients_addr m ! rc"])
qed simp

lemma tx_lines:
  assumes "under_way t m"
  shows "length (msg_text m) - ln = n \<Longrightarrow> ln \<le> length (msg_text m) \<Longrightarrow>
     tx m ms (n + k) CLIENT_FSM_ST_SENDING_MSG_TEXT_OR_END_MSG rc ln out c \<Longrightarrow> clock_at t w \<Longrightarrow>
     \<exists>c' w'. exchange net beyond (concat (replicate n [None, None])) c w = Done (c', w') \<and> clock_at t w'
       \<and> tx m ms k CLIENT_FSM_ST_SENDING_MSG_TEXT_OR_END_MSG rc (length (msg_text m))
           (out @ concat (map text_line (drop ln (msg_text m)))) c'"
proof (induction n arbitrary: ln out c w)
  case (Suc n)
  then have i: "ln < length (msg_text m)" and tx: "tx m ms (Suc (n + k)) CLIENT_FSM_ST_SENDING_MSG_TEXT_OR_END_MSG rc ln out c" by auto
  obtain c1 w1 where 1: "exchange net beyond [None] c w = Done (c1, w1)" "clock_at t w1"
    "tx m ms (n + k) CLIENT_FSM_ST_MSG_TEXT_SENDED rc (ln + 1) (out @ line_text (msg_text m ! ln) @ CRLF) c1"
    by (rule tx_line [OF tx Suc.prems(4) refl assms(1) i])
  obtain c2 where 2: "exchange net beyond [None] c1 w1 = Done (c2, w1)"
    "tx m ms (n + k) CLIENT_FSM_ST_SENDING_MSG_TEXT_OR_END_MSG rc (ln + 1) (out @ line_text (msg_text m ! ln) @ CRLF) c2"
    by (rule tx_pause [OF 1(3,2) refl])
  have "length (msg_text m) - (ln + 1) = n" "ln + 1 \<le> length (msg_text m)" using Suc.prems(1) i by auto
  from Suc.IH [OF this 2(2) 1(2)] obtain c3 w3 where 3: "exchange net beyond (concat (replicate n [None, None])) c2 w1 = Done (c3, w3)" "clock_at t w3"
    "tx m ms k CLIENT_FSM_ST_SENDING_MSG_TEXT_OR_END_MSG rc (length (msg_text m))
       ((out @ line_text (msg_text m ! ln) @ CRLF) @ concat (map text_line (drop (ln + 1) (msg_text m)))) c3" by blast
  have "drop ln (msg_text m) = msg_text m ! ln # drop (ln + 1) (msg_text m)" using i by (simp add: Cons_nth_drop_Suc)
  moreover have "exchange net beyond (concat (replicate (Suc n) [None, None])) c w = Done (c3, w3)"
    using exchange_then [OF 1(1), of "[None] @ concat (replicate n [None, None])"] exchange_then [OF 2(1)] 3(1) by simp
  ultimately show ?case using 3(2,3) by (simp add: text_line_def [of "msg_text m ! ln"])
qed simp

text \<open>What has to be sent for a mail.\<close>

definition mail_commands :: "smtp_message_t \<Rightarrow> string" where
  "mail_commands m = ''MAIL FROM:'' @ the (from_addr m) @ CRLF @ concat (map rcpt_command (recipients_addr m)) @ ''DATA'' @ CRLF
     @ concat (map text_line (msg_text m)) @ ''.'' @ CRLF"

text \<open>The replies to a mail, in the rounds in which they arrive.\<close>

definition accepting :: "smtp_message_t \<Rightarrow> string \<Rightarrow> string \<Rightarrow> string option list" where
  "accepting m ok go = [None, Some ok] @ concat (replicate (length (recipients_addr m)) [None, Some ok]) @ [None, Some go]
     @ concat (replicate (length (msg_text m)) [None, None]) @ [None, Some ok]"

text \<open>The rounds of a whole mail, command by command.\<close>

lemma sends_mail:
  assumes tx: "tx m ms (length (recipients_addr m) + length (msg_text m) + 3) CLIENT_FSM_ST_SENDING_MAIL_OR_QUIT rc ln out c"
    and w: "clock_at t w" and l: "conn_last_event c \<noteq> CLIENT_FSM_EV_RESPONSE_4XX" and mx: "0 \<le> max_attempts_time m"
    and ok: "reply_of beyond CLIENT_FSM_EV_RESPONSE_2XX ok" and go: "reply_of beyond CLIENT_FSM_EV_RESPONSE_3XX go"
  shows "\<exists>c' w'. exchange net beyond (accepting m ok go) c w = Done (c', w') \<and> pending (conn_peer c') = out @ mail_commands m
    \<and> conn_state c' = CLIENT_FSM_ST_GET_NEXT_MESSAGE_AND_SENDING_MAIL_OR_QUIT \<and> qitems (conn_messages c') = start_at t m # ms"
proof -
  let ?R = "length (recipients_addr m)" and ?L = "length (msg_text m)" and ?m = "start_at t m"
  obtain a where a: "from_addr m = Some a" using txD(6) [OF tx] by (auto simp: message_ok_def)
  have u: "under_way t ?m" using txD(6) [OF tx] mx by (simp add: under_way_def start_at_def message_ok_def)
  have rl: "recipients_addr ?m = recipients_addr m" "msg_text ?m = msg_text m" by (simp_all add: start_at_def)
  have k: "?R + ?L + 3 = Suc (?R + Suc (?L + 1))" by simp
  obtain c1 w1 where 1: "exchange net beyond [None] c w = Done (c1, w1)" "clock_at t w1"
    "tx ?m ms (?R + Suc (?L + 1)) CLIENT_FSM_ST_MAIL_SENDED 0 0 (out @ ''MAIL FROM:'' @ a @ CRLF) c1"
    by (rule tx_mail [OF tx [unfolded k] w refl l a])
  obtain c2 w2 where 2: "exchange net beyond [Some ok] c1 w1 = Done (c2, w2)" "clock_at t w2"
    "tx ?m ms (?R + Suc (?L + 1)) CLIENT_FSM_ST_SENDING_RCPT_OR_DATA 0 0 (out @ ''MAIL FROM:'' @ a @ CRLF) c2"
    by (rule tx_reply [OF 1(3,2) ok _ fsm_next_waiting(1)]) (simp_all add: waiting_def)
  from tx_rcpts [OF u ok _ _ 2(3,2), where net = net] obtain c3 w3 where 3: "exchange net beyond (concat (replicate ?R [None, Some ok])) c2 w2 = Done (c3, w3)" "clock_at t w3"
    "tx ?m ms (Suc (?L + 1)) CLIENT_FSM_ST_SENDING_RCPT_OR_DATA ?R 0
       ((out @ ''MAIL FROM:'' @ a @ CRLF) @ concat (map rcpt_command (recipients_addr m))) c3" (is "tx _ _ _ _ _ _ ?o3 _")
    by (auto simp: rl)
  obtain c4 w4 where 4: "exchange net beyond [None] c3 w3 = Done (c4, w4)" "clock_at t w4"
    "tx ?m ms (?L + 1) CLIENT_FSM_ST_DATA_SENDED ?R 0 (?o3 @ ''DATA'' @ CRLF) c4"
    by (rule tx_data [OF 3(3,2) refl u]) (simp_all add: rl)
  obtain c5 w5 where 5: "exchange net beyond [Some go] c4 w4 = Done (c5, w5)" "clock_at t w5"
    "tx ?m ms (?L + 1) CLIENT_FSM_ST_SENDING_MSG_TEXT_OR_END_MSG ?R 0 (?o3 @ ''DATA'' @ CRLF) c5"
    by (rule tx_reply [OF 4(3,2) go _ fsm_next_waiting(3)]) (simp_all add: waiting_def)
  from tx_lines [OF u _ _ 5(3,2), where net = net and beyond = beyond] obtain c6 w6 where 6: "exchange net beyond (concat (replicate ?L [None, None])) c5 w5 = Done (c6, w6)" "clock_at t w6"
    "tx ?m ms (Suc 0) CLIENT_FSM_ST_SENDING_MSG_TEXT_OR_END_MSG ?R ?L ((?o3 @ ''DATA'' @ CRLF) @ concat (map text_line (msg_text m))) c6"
    by (auto simp: rl)
  obtain c7 w7 where 7: "exchange net beyond [None] c6 w6 = Done (c7, w7)" "clock_at t w7"
    "tx ?m ms 0 CLIENT_FSM_ST_END_DATA_SENDED ?R ?L (((?o3 @ ''DATA'' @ CRLF) @ concat (map text_line (msg_text m))) @ ''.'' @ CRLF) c7"
    by (rule tx_end [OF 6(3,2) refl u]) (simp_all add: rl)
  obtain c8 w8 where 8: "exchange net beyond [Some ok] c7 w7 = Done (c8, w8)" "clock_at t w8"
    "tx ?m ms 0 CLIENT_FSM_ST_GET_NEXT_MESSAGE_AND_SENDING_MAIL_OR_QUIT ?R ?L
       (((?o3 @ ''DATA'' @ CRLF) @ concat (map text_line (msg_text m))) @ ''.'' @ CRLF) c8"
    by (rule tx_reply [OF 7(3,2) ok _ fsm_next_waiting(4)]) (simp_all add: waiting_def)
  have "accepting m ok go = [None] @ [Some ok] @ concat (replicate ?R [None, Some ok]) @ [None] @ [Some go]
     @ concat (replicate ?L [None, None]) @ [None] @ [Some ok]" by (simp add: accepting_def)
  then have "exchange net beyond (accepting m ok go) c w = Done (c8, w8)"
    by (simp only: exchange_then [OF 1(1)] exchange_then [OF 2(1)] exchange_then [OF 3(1)] exchange_then [OF 4(1)]
        exchange_then [OF 5(1)] exchange_then [OF 6(1)] exchange_then [OF 7(1)] 8(1))
  moreover have "pending (conn_peer c8) = out @ mail_commands m" using 8(3) a by (simp add: tx_def mail_commands_def)
  ultimately show ?thesis using 8(3) by (simp add: tx_def)
qed

section \<open>Properties\<close>

text \<open>
  C5: a server that answers MAIL, every RCPT, DATA and the end of the text with the expected
  class of reply gets, in this order, the sender, every recipient once, DATA, every line of
  the text once and the final dot, and nothing else; then the client turns to the next mail.
\<close>

theorem client_sends_mail:
  assumes tx: "tx m ms (length (recipients_addr m) + length (msg_text m) + 3) CLIENT_FSM_ST_SENDING_MAIL_OR_QUIT rc ln out c"
    and w: "clock_at t w" and l: "conn_last_event c \<noteq> CLIENT_FSM_EV_RESPONSE_4XX" and mx: "0 \<le> max_attempts_time m"
    and ok: "reply_of beyond CLIENT_FSM_EV_RESPONSE_2XX ok" and go: "reply_of beyond CLIENT_FSM_EV_RESPONSE_3XX go"
  shows "\<exists>c' w'. exchange net beyond (accepting m ok go) c w = Done (c', w') \<and> pending (conn_peer c') = out @ mail_commands m
    \<and> conn_state c' = CLIENT_FSM_ST_GET_NEXT_MESSAGE_AND_SENDING_MAIL_OR_QUIT \<and> qitems (conn_messages c') = start_at t m # ms"
  by (rule sends_mail [OF assms])

definition sending_example :: smtp_conn where
  "sending_example = conn_example\<lparr>conn_state := CLIENT_FSM_ST_SENDING_MAIL_OR_QUIT, conn_last_event := CLIENT_FSM_EV_RESPONSE_2XX\<rparr>"

definition noon :: cworld where
  "noon = plenty_cworld\<lparr>cclock := [1000]\<rparr>"

lemma sending_example_tx:
  "tx mail_example [] 5 CLIENT_FSM_ST_SENDING_MAIL_OR_QUIT 0 0 [] sending_example"
proof -
  have "data_ok sending_example" using conn_example_data by (simp add: data_ok_def sending_example_def)
  then show ?thesis by (simp add: tx_def) (simp add: sending_example_def conn_example_def peer_example_def pending_def)
qed

lemma noon_clock: "clock_at 1000 noon"
  by (simp add: clock_at_def good_world_def noon_def plenty_cworld_def)

lemma reply_examples:
  "reply_of [NUL] CLIENT_FSM_EV_RESPONSE_2XX ''250 OK''" "reply_of [NUL] CLIENT_FSM_EV_RESPONSE_3XX ''354 Go''"
  by (simp_all add: reply_of_def MAX_BUFFER_SIZE_def parse_response_code_def isspace_def isdigit_def response_event_def)

theorem client_sends_mail_witness:
  "\<exists>c' w'. exchange \<lparr>net_socket = 4, net_connect = True\<rparr> [NUL] (accepting mail_example ''250 OK'' ''354 Go'') sending_example noon = Done (c', w')
    \<and> pending (conn_peer c') = [] @ mail_commands mail_example
    \<and> conn_state c' = CLIENT_FSM_ST_GET_NEXT_MESSAGE_AND_SENDING_MAIL_OR_QUIT \<and> qitems (conn_messages c') = [start_at 1000 mail_example]"
proof -
  have "length (recipients_addr mail_example) + length (msg_text mail_example) + 3 = 5" by (simp add: mail_example_def)
  with sending_example_tx have tx: "tx mail_example [] (length (recipients_addr mail_example) + length (msg_text mail_example) + 3)
      CLIENT_FSM_ST_SENDING_MAIL_OR_QUIT 0 0 [] sending_example" by simp
  have "conn_last_event sending_example \<noteq> CLIENT_FSM_EV_RESPONSE_4XX" "0 \<le> max_attempts_time mail_example"
    by (simp_all add: sending_example_def mail_example_def)
  from client_sends_mail [OF tx noon_clock this reply_examples] show ?thesis .
qed

text \<open>
  C24: when the time for a mail is up the client takes it from the queue and sends RSET, and
  the reply to RSET makes it take another one: the mail behind it is dropped without ever
  having been offered to the server.
\<close>

theorem expired_mail_drops_next:
  assumes tx: "tx m [m2] 2 CLIENT_FSM_ST_SENDING_RCPT_OR_DATA rc ln out c" and w: "clock_at t w"
    and late: "attempt_start_time m = Some t0" "max_attempts_time m < t - t0" and ok: "reply_of beyond CLIENT_FSM_EV_RESPONSE_2XX ok"
  shows "\<exists>c' w'. exchange net beyond [None, Some ok, None] c w = Done (c', w') \<and> qitems (conn_messages c') = []
    \<and> pending (conn_peer c') = out @ ''RSET'' @ CRLF @ ''QUIT'' @ CRLF \<and> conn_state c' = CLIENT_FSM_ST_QUIT_SENDED"
proof -
  note d = txD [OF tx] and dd = data_okD [OF txD(1,5) [OF tx]]
  let ?c = "c\<lparr>conn_messages := (conn_messages c)\<lparr>qitems := [m2], qlen := qlen (conn_messages c) - 1\<rparr>\<rparr>"
  have "give_up c w = Done (CLIENT_FSM_EV_RSET, Some (mk_str (''RSET'' @ CRLF)), ?c, w)"
    using clock_atD(1) [OF w] dd(3) by (simp add: give_up_def)
  then have "sending_rcpt_or_data c w = Done (CLIENT_FSM_EV_RSET, Some (mk_str (''RSET'' @ CRLF)), ?c, w)"
    using d(7) late clock_atD(2) [OF w] by (simp add: sending_rcpt_or_data_def is_attempts_time_expired_def)
  then have ds: "dispatch_state beyond (Some (mk_str CRLF)) c w = Done (False, CLIENT_FSM_EV_RSET, Some (mk_str (''RSET'' @ CRLF)), ?c, w)"
    using d(2) by (simp add: dispatch_state_def)
  have k: "(2::nat) = Suc 1" by simp
  obtain c1 w1 where 1: "exchange net beyond [None] c w = Done (c1, w1)" "clock_at t w1"
    "tx m2 [] 1 CLIENT_FSM_ST_RSET_SENDED rc ln (out @ ''RSET'' @ CRLF) c1"
    by (rule tx_send [OF tx [unfolded k] w ds, of rc ln m2 "[]" CLIENT_FSM_ST_RSET_SENDED net])
      (use d dd(4) in \<open>simp_all add: used_state_def\<close>)
  obtain c2 w2 where 2: "exchange net beyond [Some ok] c1 w1 = Done (c2, w2)" "clock_at t w2"
    "tx m2 [] 1 CLIENT_FSM_ST_GET_NEXT_MESSAGE_AND_SENDING_MAIL_OR_QUIT rc ln (out @ ''RSET'' @ CRLF) c2" "conn_last_event c2 = CLIENT_FSM_EV_RESPONSE_2XX"
    by (rule tx_reply_last [OF 1(3,2) ok _ fsm_next_waiting(5)]) (simp_all add: waiting_def)
  note d2 = txD [OF 2(3)] and dd2 = data_okD [OF txD(1,5) [OF 2(3)]]
  let ?c2 = "c2\<lparr>conn_messages := (conn_messages c2)\<lparr>qitems := [], qlen := qlen (conn_messages c2) - 1\<rparr>\<rparr>"
  have "cqueue_is_empty (conn_messages ?c2)" using dd2(4) by (simp add: data_ok_def cq_wf_def cqueue_is_empty_def)
  then have ds2: "dispatch_state beyond (Some (mk_str CRLF)) c2 w2 = Done (False, CLIENT_FSM_EV_QUIT, Some (mk_str (''QUIT'' @ CRLF)), ?c2, w2)"
    using d2(2) dd2(3,5) clock_atD(1) [OF 2(2)] by (simp add: dispatch_state_def sending_mail_or_quit_def)
  have p2: "peer_wf (conn_peer c2)" "qlen (messages_in (conn_peer c2)) < qmax (messages_in (conn_peer c2))" "pfd (conn_peer c2) \<noteq> -1"
    using 2(3) by (auto simp: tx_def data_ok_def)
  obtain q w3 where 3: "event_step net beyond c2 w2 = Done (?c2\<lparr>conn_peer := (conn_peer c2)\<lparr>messages_in := q\<rparr>, conn_last_event := CLIENT_FSM_EV_QUIT,
      conn_state := fsm_def_next (conn_state c2) CLIENT_FSM_EV_QUIT\<rparr>, w3)" "pending ((conn_peer c2)\<lparr>messages_in := q\<rparr>) = pending (conn_peer c2) @ ''QUIT'' @ CRLF"
    by (rule step_send [OF ds2 _ _ clock_atD(1) [OF 2(2)] clock_atD(1) [OF 2(2)] p2(1) _ p2(2,3), of net])
      (use d2(2) in \<open>simp_all add: used_state_def\<close>)
  have "exchange net beyond [None, Some ok, None] c w = exchange net beyond [None] c2 w2"
    using exchange_then [OF 1(1), of "[Some ok, None]"] exchange_then [OF 2(1), of "[None]"] by simp
  with 3 d2(2) 2(3) show ?thesis by (simp add: tx_def)
qed

definition late_example :: smtp_conn where
  "late_example = conn_example\<lparr>conn_messages := \<lparr>qitems = [start_at 0 mail_example, mail_example], qlen = 2, qmax = 10000\<rparr>,
     conn_state := CLIENT_FSM_ST_SENDING_RCPT_OR_DATA\<rparr>"

lemma late_example_tx:
  "tx (start_at 0 mail_example) [mail_example] 2 CLIENT_FSM_ST_SENDING_RCPT_OR_DATA 0 0 [] late_example"
proof -
  have "message_ok (start_at 0 mail_example)" using mail_example_ok by (simp add: message_ok_def start_at_def del: mail_example_ok)
  then have "data_ok late_example" using conn_example_data by (simp add: data_ok_def late_example_def cq_wf_def)
  then show ?thesis by (simp add: tx_def) (simp add: late_example_def conn_example_def peer_example_def pending_def)
qed

theorem expired_mail_drops_next_witness:
  "\<exists>c' w'. exchange \<lparr>net_socket = 4, net_connect = True\<rparr> [NUL] [None, Some ''250 OK'', None] late_example noon = Done (c', w')
    \<and> qitems (conn_messages c') = [] \<and> pending (conn_peer c') = [] @ ''RSET'' @ CRLF @ ''QUIT'' @ CRLF
    \<and> conn_state c' = CLIENT_FSM_ST_QUIT_SENDED"
proof -
  have "attempt_start_time (start_at 0 mail_example) = Some 0" "max_attempts_time (start_at 0 mail_example) < 1000 - 0"
    by (simp_all add: start_at_def mail_example_def)
  from expired_mail_drops_next [OF late_example_tx noon_clock this reply_examples(1)] show ?thesis .
qed

text \<open>
  When the address of a host cannot be found, the connection made for it has no address,
  and storing it in the worker's map, which copies it, dereferences a null pointer.
\<close>

theorem unknown_host_crashes:
  assumes "dns host ns_t_mx = None" and "host \<noteq> ''localhost''" and "good_world w"
  shows "\<exists>c w'. SMTP_connection_init raw cfg dns net host AT_HOST w = Done (Some c, w') \<and> good_world w' \<and> pfd (conn_peer c) = -1
    \<and> SMTP_connection_copy raw2 c w' = Fault Null_Deref"
proof -
  obtain now w1 where t: "ctime w = (now, w1)" by force
  have g: "good_world w1" using good_world_ctime [OF t] assms(3) by simp
  show ?thesis
    using assms t g
    by (simp add: SMTP_connection_init_def SMTP_connection_copy_def get_IP_def get_DNS_record_def connect_server_def peer_init_def
        cqueue_init_def cqueue_push_all_def)
qed

theorem unknown_host_crashes_witness:
  "\<exists>c w'. SMTP_connection_init (([], []), CLIENT_FSM_EV_NONE) \<lparr>cfg_queue_dir = ''q'', cfg_parent_pipe_fd = 3, cfg_logger_fd = 4,
      cfg_max_attempts_time = 60, cfg_min_interval_between_attempts = 5, cfg_max_connect_count = 3, cfg_min_interval_between_connect = 10\<rparr>
      (\<lambda>_ _. None) \<lparr>net_socket = 4, net_connect = True\<rparr> ''no.such'' AT_HOST plenty_cworld = Done (Some c, w') \<and> good_world w'
    \<and> pfd (conn_peer c) = -1 \<and> SMTP_connection_copy ([], []) c w' = Fault Null_Deref"
  by (rule unknown_host_crashes) simp_all

text \<open>
  Reconnecting starts a new dialogue but keeps what was still to be sent in the old one:
  the rest of a half-sent command, or of the text of a mail, is the first thing that the new
  server gets.
\<close>

theorem reconnect_keeps_pending:
  "\<exists>c' w'. SMTP_connection_reinit net c w = (c', w') \<and> conn_state c' = CLIENT_FSM_ST_INIT
    \<and> pending (conn_peer c') = pending (conn_peer c)"
  by (auto simp: SMTP_connection_reinit_def pending_def split: prod.splits)

end
