(* ===== verification/Mail_Transfer.thy ===== *)
theory Mail_Transfer
  imports Server_Transaction Client_Transaction
begin

text \<open>
  The two programs talk to each other: what a round of the client's loop queues is what the
  server receives, and the server's reply is what the client gets in its next round. The mail
  at the front of the client's queue ends up in the server's files.
\<close>

section \<open>Rounds of both programs\<close>

text \<open>
  The server reads a line into a zeroed buffer of \<open>SMTP_TEXT_LINE_MAX_SIZE\<close> bytes; the client
  gets a reply without its line end.
\<close>

definition received :: "string \<Rightarrow> msg_t" where
  "received l = \<lparr>mtext = Some (l @ replicate (SMTP_TEXT_LINE_MAX_SIZE - length l) NUL), msize = length l, max_size = SMTP_TEXT_LINE_MAX_SIZE\<rparr>"

definition reply_line :: "string \<Rightarrow> string option" where
  "reply_line r = (if r = [] then None else Some (take (length r - 2) r))"

lemma holds_received: "NUL \<notin> set l \<Longrightarrow> length l < SMTP_TEXT_LINE_MAX_SIZE \<Longrightarrow> holds (received l) l"
  by (simp add: holds_def received_def msg_wf_def content_def)

lemma reply_line_simps [simp]:
  "reply_line [] = None" "reply_line SMTP_SUCCESS_ANSWER = Some ''250 OK''"
  "reply_line SMTP_DATA_ACCEPTED_ANSWER = Some ''354 Start mail input''"
  by (simp_all add: reply_line_def SMTP_SUCCESS_ANSWER_def SMTP_DATA_ACCEPTED_ANSWER_def)

type_synonym both = "smtp_conn \<times> cworld \<times> client_t \<times> world"

text \<open>
  One round: the client handles the reply that has come, if any; when that makes it queue a
  command, the server takes its turn.
\<close>

definition both_round :: "netres \<Rightarrow> string \<Rightarrow> pcre_lib \<Rightarrow> string option \<Rightarrow> both \<Rightarrow> (string option \<times> both) run" where
  "both_round net beyond P r = (\<lambda>(c, cw, s, sw).
     rbind (exchange net beyond [r] c cw) (\<lambda>(c1, cw1).
       let line = drop (length (pending (conn_peer c))) (pending (conn_peer c1)) in
       if line = [] then Done (None, c1, cw1, s, sw)
       else rbind (turn P s (received line) sw) (\<lambda>(rep, s1, sw1). Done (reply_line rep, c1, cw1, s1, sw1))))"

fun both_run :: "netres \<Rightarrow> string \<Rightarrow> pcre_lib \<Rightarrow> nat \<Rightarrow> string option \<Rightarrow> both \<Rightarrow> (string option \<times> both) run" where
  "both_run net beyond P 0 r x = Done (r, x)"
| "both_run net beyond P (Suc n) r x = rbind (both_round net beyond P r x) (\<lambda>(r1, x1). both_run net beyond P n r1 x1)"

lemma both_run_add:
  "both_run net beyond P n r x = Done (r1, x1) \<Longrightarrow> both_run net beyond P (n + k) r x = both_run net beyond P k r1 x1"
proof (induction n arbitrary: r x)
  case (Suc n)
  from Suc.prems obtain r2 x2 where 1: "both_round net beyond P r x = Done (r2, x2)" "both_run net beyond P n r2 x2 = Done (r1, x1)"
    by (auto simp: rbind_Done_iff)
  from Suc.IH [OF 1(2)] 1(1) show ?case by simp
qed simp

text \<open>A command, its reply, and the round in which the client takes the reply.\<close>

lemma both_command:
  assumes "exchange net beyond [None] c cw = Done (c1, cw1)" "pending (conn_peer c1) = pending (conn_peer c) @ l" "l \<noteq> []"
    and "turn P s (received l) sw = Done (rep, s1, sw1)"
    and "exchange net beyond [reply_line rep] c1 cw1 = Done (c2, cw2)" "pending (conn_peer c2) = pending (conn_peer c1)"
  shows "both_run net beyond P 2 None (c, cw, s, sw) = Done (None, c2, cw2, s1, sw1)"
proof -
  have "both_round net beyond P None (c, cw, s, sw) = Done (reply_line rep, c1, cw1, s1, sw1)"
    using assms(1-4) by (simp add: both_round_def Let_def del: exchange.simps)
  moreover have "both_round net beyond P (reply_line rep) (c1, cw1, s1, sw1) = Done (None, c2, cw2, s1, sw1)"
    using assms(5,6) by (simp add: both_round_def Let_def del: exchange.simps)
  ultimately show ?thesis by (simp add: numeral_2_eq_2 del: exchange.simps)
qed

lemma pending_tx: "tx m ms k s rc ln out c \<Longrightarrow> pending (conn_peer c) = out"
  by (simp add: tx_def)

text \<open>
  The client reads the code of a reply with \<^verbatim>\<open>atoi\<close> from three bytes that no terminator
  follows; the byte behind them on the stack must not be a digit.
\<close>

lemma server_replies_accepted:
  assumes "beyond = x # xs" "\<not> isdigit x"
  shows "reply_of beyond CLIENT_FSM_EV_RESPONSE_2XX ''250 OK''" "reply_of beyond CLIENT_FSM_EV_RESPONSE_3XX ''354 Start mail input''"
proof -
  have d: "isdigit (CHR ''2'')" "isdigit (CHR ''3'')" "isdigit (CHR ''5'')" "isdigit (CHR ''0'')" "isdigit (CHR ''4'')"
    by (simp_all add: isdigit_def)
  have "parse_response_code beyond (Some (mk_str ''250 OK'')) = Done 250"
    "parse_response_code beyond (Some (mk_str ''354 Start mail input'')) = Done 354"
    using assms(2) by (simp_all add: assms(1) parse_response_code_def isspace_def d)
  then show "reply_of beyond CLIENT_FSM_EV_RESPONSE_2XX ''250 OK''" "reply_of beyond CLIENT_FSM_EV_RESPONSE_3XX ''354 Start mail input''"
    by (simp_all add: reply_of_def MAX_BUFFER_SIZE_def response_event_def)
qed

section \<open>Commands, one after the other\<close>

lemma short_commands:
  "addr_ok x \<Longrightarrow> NUL \<notin> set (''MAIL FROM:'' @ x @ CRLF) \<and> length (''MAIL FROM:'' @ x @ CRLF) < SMTP_TEXT_LINE_MAX_SIZE"
  "addr_ok x \<Longrightarrow> NUL \<notin> set (rcpt_command x) \<and> length (rcpt_command x) < SMTP_TEXT_LINE_MAX_SIZE"
  "NUL \<notin> set (''DATA'' @ CRLF) \<and> length (''DATA'' @ CRLF) < SMTP_TEXT_LINE_MAX_SIZE"
  "NUL \<notin> set (''.'' @ CRLF) \<and> length (''.'' @ CRLF) < SMTP_TEXT_LINE_MAX_SIZE"
  by (simp_all add: addr_ok_def rcpt_command_def SMTP_TEXT_LINE_MAX_SIZE_def)

lemma text_line_no_NUL: "line_ok x \<Longrightarrow> NUL \<notin> set (text_line x)"
  by (auto simp: line_ok_def text_line_def line_text_def)

text \<open>MAIL.\<close>

lemma both_mail:
  assumes tx: "tx m ms (Suc k) CLIENT_FSM_ST_SENDING_MAIL_OR_QUIT rc ln out c" and w: "clock_at t cw"
    and bd: "beyond = x # xs" "\<not> isdigit x"
    and l: "conn_last_event c \<noteq> CLIENT_FSM_EV_RESPONSE_4XX" and a: "from_addr m = Some a"
    and sv: "serving mw CLIENT_ST_CLIENT_INITED qs u s" and sw: "oom sw = []" "clock sw = [t']"
    and p: "matches_only P SMTP_CMD_MAIL (''MAIL FROM:'' @ a @ CRLF)" "names_sender P (''MAIL FROM:'' @ a @ CRLF) b"
    and b: "length b \<noteq> max_size (mail_from s)"
  shows "\<exists>c' cw' s'. both_run net beyond P 2 None (c, cw, s, sw) = Done (None, c', cw', s', sw) \<and> clock_at t cw'
    \<and> tx (start_at t m) ms k CLIENT_FSM_ST_SENDING_RCPT_OR_DATA 0 0 (out @ ''MAIL FROM:'' @ a @ CRLF) c'
    \<and> serving mw CLIENT_ST_EXPECTED_RCPT_OR_DATA qs (snprintf 200 (''X-mysmtp-from: '' @ b @ CRLF)) s'"
proof -
  have ao: "addr_ok a" using txD(6) [OF tx] a by (auto simp: message_ok_def)
  obtain c1 w1 where 1: "exchange net beyond [None] c cw = Done (c1, w1)" "clock_at t w1"
    "tx (start_at t m) ms k CLIENT_FSM_ST_MAIL_SENDED 0 0 (out @ ''MAIL FROM:'' @ a @ CRLF) c1"
    by (rule tx_mail [OF tx w refl l a])
  have h: "holds (received (''MAIL FROM:'' @ a @ CRLF)) (''MAIL FROM:'' @ a @ CRLF)"
    using short_commands(1) [OF ao] by (intro holds_received) auto
  obtain s1 where 2: "turn P s (received (''MAIL FROM:'' @ a @ CRLF)) sw = Done (SMTP_SUCCESS_ANSWER, s1, sw)"
    "serving mw CLIENT_ST_EXPECTED_RCPT_OR_DATA qs (snprintf 200 (''X-mysmtp-from: '' @ b @ CRLF)) s1"
    using turn_mail [OF sv sw h p b] by blast
  obtain c2 w2 where 3: "exchange net beyond [Some ''250 OK''] c1 w1 = Done (c2, w2)" "clock_at t w2"
    "tx (start_at t m) ms k CLIENT_FSM_ST_SENDING_RCPT_OR_DATA 0 0 (out @ ''MAIL FROM:'' @ a @ CRLF) c2"
    by (rule tx_reply [OF 1(3,2) server_replies_accepted(1) [OF bd] _ fsm_next_waiting(1)]) (simp_all add: waiting_def)
  have "both_run net beyond P 2 None (c, cw, s, sw) = Done (None, c2, w2, s1, sw)"
    by (rule both_command [OF 1(1) _ _ 2(1)]) (simp_all add: 3(1) pending_tx [OF tx] pending_tx [OF 1(3)] pending_tx [OF 3(3)] del: exchange.simps)
  with 2(2) 3(2,3) show ?thesis by blast
qed

text \<open>RCPT, as often as there are recipients.\<close>

lemma both_rcpt:
  assumes tx: "tx m ms (Suc k) CLIENT_FSM_ST_SENDING_RCPT_OR_DATA rc ln out c" and w: "clock_at t cw" and u: "under_way t m"
    and i: "rc < length (recipients_addr m)" and bd: "beyond = x # xs" "\<not> isdigit x"
    and sv: "serving mw CLIENT_ST_EXPECTED_RCPT_OR_DATA qs h s" and sw: "oom sw = []" "clock sw = [t']"
    and p: "rcpt_recognised P (domain mw) (rcpt_command (recipients_addr m ! rc), q)"
    and n: "length qs < SMTP_RCPT_MAX_SIZE" and dn: "NUL \<notin> set (domain mw)"
  shows "\<exists>c' cw' s'. both_run net beyond P 2 None (c, cw, s, sw) = Done (None, c', cw', s', sw) \<and> clock_at t cw'
    \<and> tx m ms k CLIENT_FSM_ST_SENDING_RCPT_OR_DATA (rc + 1) ln (out @ rcpt_command (recipients_addr m ! rc)) c'
    \<and> serving mw CLIENT_ST_EXPECTED_RCPT_OR_DATA (qs @ [q]) h s'"
proof -
  let ?l = "rcpt_command (recipients_addr m ! rc)"
  have ao: "addr_ok (recipients_addr m ! rc)" using txD(6) [OF tx] i by (auto simp: message_ok_def)
  have pr: "matches_only P SMTP_CMD_RCPT ?l" "names_rcpt P (domain mw) ?l q" "storable q" using p by (auto simp: rcpt_recognised_def)
  obtain c1 w1 where 1: "exchange net beyond [None] c cw = Done (c1, w1)" "clock_at t w1"
    "tx m ms k CLIENT_FSM_ST_RCPT_SENDED (rc + 1) ln (out @ ?l) c1"
    unfolding rcpt_command_def by (rule tx_rcpt [OF tx w refl u i])
  have h: "holds (received ?l) ?l" using short_commands(2) [OF ao] by (intro holds_received) auto
  obtain s1 where 2: "turn P s (received ?l) sw = Done (SMTP_SUCCESS_ANSWER, s1, sw)"
    "serving mw CLIENT_ST_EXPECTED_RCPT_OR_DATA (qs @ [q]) h s1"
    using turn_rcpt [OF sv sw h pr n dn] by blast
  obtain c2 w2 where 3: "exchange net beyond [Some ''250 OK''] c1 w1 = Done (c2, w2)" "clock_at t w2"
    "tx m ms k CLIENT_FSM_ST_SENDING_RCPT_OR_DATA (rc + 1) ln (out @ ?l) c2"
    by (rule tx_reply [OF 1(3,2) server_replies_accepted(1) [OF bd] _ fsm_next_waiting(2)]) (simp_all add: waiting_def)
  have "?l \<noteq> []" by (simp add: rcpt_command_def)
  then have "both_run net beyond P 2 None (c, cw, s, sw) = Done (None, c2, w2, s1, sw)"
    by (intro both_command [OF 1(1) _ _ 2(1)]) (simp_all add: 3(1) pending_tx [OF tx] pending_tx [OF 1(3)] pending_tx [OF 3(3)] del: exchange.simps)
  with 2(2) 3(2,3) show ?thesis by blast
qed

lemma both_rcpts:
  assumes u: "under_way t m" and bd: "beyond = x # xs" "\<not> isdigit x" and sw: "oom sw = []" "clock sw = [t']" and dn: "NUL \<notin> set (domain mw)"
    and all: "length aqs = length (recipients_addr m)" "length aqs \<le> SMTP_RCPT_MAX_SIZE"
    and p: "\<forall>y \<in> set (zip (map rcpt_command (recipients_addr m)) aqs). rcpt_recognised P (domain mw) y"
  shows "length (recipients_addr m) - rc = n \<Longrightarrow> rc \<le> length (recipients_addr m) \<Longrightarrow>
     tx m ms (n + k) CLIENT_FSM_ST_SENDING_RCPT_OR_DATA rc ln out c \<Longrightarrow> clock_at t cw \<Longrightarrow>
     serving mw CLIENT_ST_EXPECTED_RCPT_OR_DATA (take rc aqs) h s \<Longrightarrow>
     \<exists>c' cw' s'. both_run net beyond P (2 * n) None (c, cw, s, sw) = Done (None, c', cw', s', sw) \<and> clock_at t cw'
       \<and> tx m ms k CLIENT_FSM_ST_SENDING_RCPT_OR_DATA (length (recipients_addr m)) ln
           (out @ concat (map rcpt_command (drop rc (recipients_addr m)))) c'
       \<and> serving mw CLIENT_ST_EXPECTED_RCPT_OR_DATA aqs h s'"
proof (induction n arbitrary: rc out c cw s)
  case 0
  then show ?case using all(1) by auto
next
  case (Suc n)
  then have i: "rc < length (recipients_addr m)" and tx: "tx m ms (Suc (n + k)) CLIENT_FSM_ST_SENDING_RCPT_OR_DATA rc ln out c" by auto
  have "(rcpt_command (recipients_addr m ! rc), aqs ! rc) \<in> set (zip (map rcpt_command (recipients_addr m)) aqs)"
    using i all(1) by (auto simp: in_set_zip intro!: exI [of _ rc])
  then have pr: "rcpt_recognised P (domain mw) (rcpt_command (recipients_addr m ! rc), aqs ! rc)" using p by blast
  have ln: "length (take rc aqs) < SMTP_RCPT_MAX_SIZE" using i all by auto
  from both_rcpt [OF tx Suc.prems(4) u i bd Suc.prems(5) sw pr ln dn, of net] obtain c1 w1 s1 where
    1: "both_run net beyond P 2 None (c, cw, s, sw) = Done (None, c1, w1, s1, sw)" "clock_at t w1"
      "tx m ms (n + k) CLIENT_FSM_ST_SENDING_RCPT_OR_DATA (rc + 1) ln (out @ rcpt_command (recipients_addr m ! rc)) c1"
      "serving mw CLIENT_ST_EXPECTED_RCPT_OR_DATA (take rc aqs @ [aqs ! rc]) h s1" by blast
  have sv1: "serving mw CLIENT_ST_EXPECTED_RCPT_OR_DATA (take (rc + 1) aqs) h s1"
    using 1(4) i all(1) by (simp add: take_Suc_conv_app_nth)
  have "length (recipients_addr m) - (rc + 1) = n" "rc + 1 \<le> length (recipients_addr m)" using Suc.prems(1) i by auto
  from Suc.IH [OF this 1(3,2) sv1] obtain c2 w2 s2 where
    2: "both_run net beyond P (2 * n) None (c1, w1, s1, sw) = Done (None, c2, w2, s2, sw)" "clock_at t w2"
      "tx m ms k CLIENT_FSM_ST_SENDING_RCPT_OR_DATA (length (recipients_addr m)) ln
         ((out @ rcpt_command (recipients_addr m ! rc)) @ concat (map rcpt_command (drop (rc + 1) (recipients_addr m)))) c2"
      "serving mw CLIENT_ST_EXPECTED_RCPT_OR_DATA aqs h s2" by blast
  have "drop rc (recipients_addr m) = recipients_addr m ! rc # drop (rc + 1) (recipients_addr m)" using i by (simp add: Cons_nth_drop_Suc)
  with 2(3) have "tx m ms k CLIENT_FSM_ST_SENDING_RCPT_OR_DATA (length (recipients_addr m)) ln
      (out @ concat (map rcpt_command (drop rc (recipients_addr m)))) c2" by simp
  moreover have "both_run net beyond P (2 * Suc n) None (c, cw, s, sw) = Done (None, c2, w2, s2, sw)"
    using both_run_add [OF 1(1), of "2 * n"] 2(1) by simp
  ultimately show ?case using 2(2,4) by blast
qed

text \<open>DATA.\<close>

lemma both_data:
  assumes tx: "tx m ms (Suc k) CLIENT_FSM_ST_SENDING_RCPT_OR_DATA rc ln out c" and w: "clock_at t cw" and u: "under_way t m"
    and i: "rc = length (recipients_addr m)" and bd: "beyond = x # xs" "\<not> isdigit x"
    and sv: "serving mw CLIENT_ST_EXPECTED_RCPT_OR_DATA qs h s" and sw: "oom sw = []" "clock sw = [t']"
    and p: "matches_only P SMTP_CMD_DATA (''DATA'' @ CRLF)"
  shows "\<exists>c' cw' s'. both_run net beyond P 2 None (c, cw, s, sw) = Done (None, c', cw', s', sw) \<and> clock_at t cw'
    \<and> tx m ms k CLIENT_FSM_ST_SENDING_MSG_TEXT_OR_END_MSG rc ln (out @ ''DATA'' @ CRLF) c'
    \<and> serving mw CLIENT_ST_EXPECTED_MSG_TEXT_OR_END_MSG qs h s'"
proof -
  obtain c1 w1 where 1: "exchange net beyond [None] c cw = Done (c1, w1)" "clock_at t w1"
    "tx m ms k CLIENT_FSM_ST_DATA_SENDED rc ln (out @ ''DATA'' @ CRLF) c1"
    by (rule tx_data [OF tx w refl u i])
  have h: "holds (received (''DATA'' @ CRLF)) (''DATA'' @ CRLF)" using short_commands(3) by (intro holds_received) auto
  obtain s1 where 2: "turn P s (received (''DATA'' @ CRLF)) sw = Done (SMTP_DATA_ACCEPTED_ANSWER, s1, sw)"
    "serving mw CLIENT_ST_EXPECTED_MSG_TEXT_OR_END_MSG qs h s1"
    using turn_data [OF sv sw h p] by blast
  obtain c2 w2 where 3: "exchange net beyond [Some ''354 Start mail input''] c1 w1 = Done (c2, w2)" "clock_at t w2"
    "tx m ms k CLIENT_FSM_ST_SENDING_MSG_TEXT_OR_END_MSG rc ln (out @ ''DATA'' @ CRLF) c2"
    by (rule tx_reply [OF 1(3,2) server_replies_accepted(2) [OF bd] _ fsm_next_waiting(3)]) (simp_all add: waiting_def)
  have "both_run net beyond P 2 None (c, cw, s, sw) = Done (None, c2, w2, s1, sw)"
    by (intro both_command [OF 1(1) _ _ 2(1)]) (simp_all add: 3(1) pending_tx [OF tx] pending_tx [OF 1(3)] pending_tx [OF 3(3)] del: exchange.simps)
  with 2(2) 3(2,3) show ?thesis by blast
qed

text \<open>The lines of the text, which are not answered.\<close>

lemma both_line:
  assumes tx: "tx m ms (Suc k) CLIENT_FSM_ST_SENDING_MSG_TEXT_OR_END_MSG rc ln out c" and w: "clock_at t cw" and u: "under_way t m"
    and i: "ln < length (msg_text m)" and sv: "serving mw CLIENT_ST_EXPECTED_MSG_TEXT_OR_END_MSG qs h s" and sw: "oom sw = []" "clock sw = [t']"
    and p: "fst (pcre_exec P RE_END_DATA (text_line (msg_text m ! ln))) < 0" and l: "length (text_line (msg_text m ! ln)) < SMTP_TEXT_LINE_MAX_SIZE"
  shows "\<exists>c' cw' s'. both_run net beyond P 2 None (c, cw, s, sw) = Done (None, c', cw', s', sw) \<and> clock_at t cw'
    \<and> tx m ms k CLIENT_FSM_ST_SENDING_MSG_TEXT_OR_END_MSG rc (ln + 1) (out @ text_line (msg_text m ! ln)) c'
    \<and> serving mw CLIENT_ST_EXPECTED_MSG_TEXT_OR_END_MSG qs (h @ text_line (msg_text m ! ln)) s'"
proof -
  let ?l = "text_line (msg_text m ! ln)"
  have "line_ok (msg_text m ! ln)" using txD(6) [OF tx] i by (auto simp: message_ok_def)
  then have h: "holds (received ?l) ?l" using l by (intro holds_received text_line_no_NUL)
  obtain c1 w1 where 1: "exchange net beyond [None] c cw = Done (c1, w1)" "clock_at t w1"
    "tx m ms k CLIENT_FSM_ST_MSG_TEXT_SENDED rc (ln + 1) (out @ ?l) c1"
    unfolding text_line_def by (rule tx_line [OF tx w refl u i])
  obtain s1 where 2: "turn P s (received ?l) sw = Done ([], s1, sw)" "serving mw CLIENT_ST_EXPECTED_MSG_TEXT_OR_END_MSG qs (h @ ?l) s1"
    using turn_text [OF sv sw h p] by blast
  obtain c2 where 3: "exchange net beyond [None] c1 w1 = Done (c2, w1)"
    "tx m ms k CLIENT_FSM_ST_SENDING_MSG_TEXT_OR_END_MSG rc (ln + 1) (out @ ?l) c2"
    by (rule tx_pause [OF 1(3,2) refl])
  have "?l \<noteq> []" by (simp add: text_line_def)
  then have "both_run net beyond P 2 None (c, cw, s, sw) = Done (None, c2, w1, s1, sw)"
    by (intro both_command [OF 1(1) _ _ 2(1)]) (simp_all add: 3(1) pending_tx [OF tx] pending_tx [OF 1(3)] pending_tx [OF 3(2)] del: exchange.simps)
  with 2(2) 1(2) 3(2) show ?thesis by blast
qed

lemma both_lines:
  assumes u: "under_way t m" and sw: "oom sw = []" "clock sw = [t']"
    and p: "\<forall>l \<in> set (msg_text m). fst (pcre_exec P RE_END_DATA (text_line l)) < 0 \<and> length (text_line l) < SMTP_TEXT_LINE_MAX_SIZE"
  shows "length (msg_text m) - ln = n \<Longrightarrow> ln \<le> length (msg_text m) \<Longrightarrow>
     tx m ms (n + k) CLIENT_FSM_ST_SENDING_MSG_TEXT_OR_END_MSG rc ln out c \<Longrightarrow> clock_at t cw \<Longrightarrow>
     serving mw CLIENT_ST_EXPECTED_MSG_TEXT_OR_END_MSG qs h s \<Longrightarrow>
     \<exists>c' cw' s'. both_run net beyond P (2 * n) None (c, cw, s, sw) = Done (None, c', cw', s', sw) \<and> clock_at t cw'
       \<and> tx m ms k CLIENT_FSM_ST_SENDING_MSG_TEXT_OR_END_MSG rc (length (msg_text m))
           (out @ concat (map text_line (drop ln (msg_text m)))) c'
       \<and> serving mw CLIENT_ST_EXPECTED_MSG_TEXT_OR_END_MSG qs (h @ concat (map text_line (drop ln (msg_text m)))) s'"
proof (induction n arbitrary: ln out c cw s h)
  case 0
  then show ?case by auto
next
  case (Suc n)
  then have i: "ln < length (msg_text m)" and tx: "tx m ms (Suc (n + k)) CLIENT_FSM_ST_SENDING_MSG_TEXT_OR_END_MSG rc ln out c" by auto
  let ?l = "text_line (msg_text m ! ln)" and ?r = "concat (map text_line (drop (ln + 1) (msg_text m)))"
  have pl: "fst (pcre_exec P RE_END_DATA ?l) < 0" "length ?l < SMTP_TEXT_LINE_MAX_SIZE" using p i by auto
  from both_line [OF tx Suc.prems(4) u i Suc.prems(5) sw pl, of net beyond] obtain c1 w1 s1 where
    1: "both_run net beyond P 2 None (c, cw, s, sw) = Done (None, c1, w1, s1, sw)" "clock_at t w1"
      "tx m ms (n + k) CLIENT_FSM_ST_SENDING_MSG_TEXT_OR_END_MSG rc (ln + 1) (out @ ?l) c1"
      "serving mw CLIENT_ST_EXPECTED_MSG_TEXT_OR_END_MSG qs (h @ ?l) s1" by blast
  have "length (msg_text m) - (ln + 1) = n" "ln + 1 \<le> length (msg_text m)" using Suc.prems(1) i by auto
  from Suc.IH [OF this 1(3,2,4)] obtain c2 w2 s2 where
    2: "both_run net beyond P (2 * n) None (c1, w1, s1, sw) = Done (None, c2, w2, s2, sw)" "clock_at t w2"
      "tx m ms k CLIENT_FSM_ST_SENDING_MSG_TEXT_OR_END_MSG rc (length (msg_text m)) ((out @ ?l) @ ?r) c2"
      "serving mw CLIENT_ST_EXPECTED_MSG_TEXT_OR_END_MSG qs ((h @ ?l) @ ?r) s2" by blast
  have d: "concat (map text_line (drop ln (msg_text m))) = ?l @ ?r" using i by (simp flip: Cons_nth_drop_Suc)
  have "both_run net beyond P (2 * Suc n) None (c, cw, s, sw) = Done (None, c2, w2, s2, sw)"
    using both_run_add [OF 1(1), of "2 * n"] 2(1) by simp
  then show ?case using 2(2-4) unfolding d append_assoc by blast
qed

text \<open>The final dot.\<close>

lemma both_end:
  assumes tx: "tx m ms (Suc k) CLIENT_FSM_ST_SENDING_MSG_TEXT_OR_END_MSG rc ln out c" and w: "clock_at t cw" and u: "under_way t m"
    and i: "ln = length (msg_text m)" and bd: "beyond = x # xs" "\<not> isdigit x"
    and sv: "serving mw CLIENT_ST_EXPECTED_MSG_TEXT_OR_END_MSG qs h s" and sw: "oom sw = []" "clock sw = [t']"
    and p: "pcre_exec P RE_END_DATA (''.'' @ CRLF) = (rv, int 0 # ov)" "0 \<le> rv" and dn: "NUL \<notin> set (domain mw)"
    and ne: "qs \<noteq> []" and dv: "deliverable mw t' qs sw"
  shows "\<exists>c' cw' s' sw'. both_run net beyond P 2 None (c, cw, s, sw) = Done (None, c', cw', s', sw')
    \<and> tx m ms k CLIENT_FSM_ST_GET_NEXT_MESSAGE_AND_SENDING_MAIL_OR_QUIT rc ln (out @ ''.'' @ CRLF) c'
    \<and> current_state s' = CLIENT_ST_CLIENT_INITED
    \<and> (\<exists>to. map rcpt_names to = qs \<and> (\<forall>r \<in> set (link_targets mw to). files sw' (delivery_path mw t' (mailN sw) r) =
         Some (''X-mysmtp-to:'' @ concat (map (x_to_text '','') (butlast to)) @ x_to_text CRLF (last to) @ h)))"
proof -
  have dv': "creatable sw (snd (tmp_path_of mw t' (mailN sw)))"
    "rcpt_names r \<in> set qs \<Longrightarrow> creatable sw (delivery_path mw t' (mailN sw) r)
        \<and> files sw (delivery_path mw t' (mailN sw) r) = None \<and> delivery_path mw t' (mailN sw) r \<noteq> snd (tmp_path_of mw t' (mailN sw))" for r
    using dv unfolding deliverable_def by blast+
  obtain c1 w1 where 1: "exchange net beyond [None] c cw = Done (c1, w1)" "clock_at t w1"
    "tx m ms k CLIENT_FSM_ST_END_DATA_SENDED rc ln (out @ ''.'' @ CRLF) c1"
    by (rule tx_end [OF tx w refl u i])
  have h: "holds (received (''.'' @ CRLF)) (''.'' @ CRLF)" using short_commands(4) by (intro holds_received) auto
  from turn_end [OF sv sw h p dn dv'(1) ne dv'(2)] obtain s1 sw1 where
    2: "turn P s (received (''.'' @ CRLF)) sw = Done (SMTP_SUCCESS_ANSWER, s1, sw1)" "current_state s1 = CLIENT_ST_CLIENT_INITED"
      "\<exists>to. map rcpt_names to = qs \<and> (\<forall>r \<in> set (link_targets mw to). files sw1 (delivery_path mw t' (mailN sw) r) =
         Some (''X-mysmtp-to:'' @ concat (map (x_to_text '','') (butlast to)) @ x_to_text CRLF (last to) @ h))" by blast
  obtain c2 w2 where 3: "exchange net beyond [Some ''250 OK''] c1 w1 = Done (c2, w2)" "clock_at t w2"
    "tx m ms k CLIENT_FSM_ST_GET_NEXT_MESSAGE_AND_SENDING_MAIL_OR_QUIT rc ln (out @ ''.'' @ CRLF) c2"
    by (rule tx_reply [OF 1(3,2) server_replies_accepted(1) [OF bd] _ fsm_next_waiting(4)]) (simp_all add: waiting_def)
  have "both_run net beyond P 2 None (c, cw, s, sw) = Done (None, c2, w2, s1, sw1)"
    by (intro both_command [OF 1(1) _ _ 2(1)]) (simp_all add: 3(1) pending_tx [OF tx] pending_tx [OF 1(3)] pending_tx [OF 3(3)] del: exchange.simps)
  with 2(2,3) 3(3) show ?thesis by blast
qed

section \<open>A mail goes from the client to the server\<close>

text \<open>
  What the server's regular expressions have to make of the client's lines: the sender \<open>b\<close>, the
  recipients \<open>qs\<close>, no line of the text that looks like the end of the data, and lines short
  enough for the server's buffer.
\<close>

definition understood :: "pcre_lib \<Rightarrow> string \<Rightarrow> smtp_message_t \<Rightarrow> string \<Rightarrow> (string \<times> string \<times> DOMAIN_TYPE) list \<Rightarrow> bool" where
  "understood P dm m b qs \<longleftrightarrow>
     matches_only P SMTP_CMD_MAIL (''MAIL FROM:'' @ the (from_addr m) @ CRLF) \<and> names_sender P (''MAIL FROM:'' @ the (from_addr m) @ CRLF) b
     \<and> length qs = length (recipients_addr m) \<and> (\<forall>y \<in> set (zip (map rcpt_command (recipients_addr m)) qs). rcpt_recognised P dm y)
     \<and> matches_only P SMTP_CMD_DATA (''DATA'' @ CRLF)
     \<and> (\<forall>l \<in> set (msg_text m). fst (pcre_exec P RE_END_DATA (text_line l)) < 0 \<and> length (text_line l) < SMTP_TEXT_LINE_MAX_SIZE)
     \<and> (\<exists>rv ov. pcre_exec P RE_END_DATA (''.'' @ CRLF) = (rv, int 0 # ov) \<and> 0 \<le> rv)"

text \<open>The number of rounds a mail takes: two for every command and every line.\<close>

definition rounds :: "smtp_message_t \<Rightarrow> nat" where
  "rounds m = 2 * (length (recipients_addr m) + length (msg_text m) + 3)"

text \<open>
  C1: a mail goes from the client to the server's files. The client's rounds and the
  server's turns alternate: what a round queues is the line the server receives, what the
  server answers is the reply of the client's next round. When the server's expressions
  recognise the commands, memory does not run out and the files can be created, after two
  rounds per command and line the client has turned to the next mail and the server is ready
  for another one, with a file for every recipient or remote host that holds the recipients,
  the sender and every line of the text in order.
\<close>

theorem mail_is_transferred:
  assumes tx: "tx m ms (length (recipients_addr m) + length (msg_text m) + 3) CLIENT_FSM_ST_SENDING_MAIL_OR_QUIT rc ln out c"
    and cw: "clock_at t cw" and l: "conn_last_event c \<noteq> CLIENT_FSM_EV_RESPONSE_4XX" and mx: "0 \<le> max_attempts_time m"
    and bd: "beyond = x # xs" "\<not> isdigit x"
    and sv: "serving mw CLIENT_ST_CLIENT_INITED [] u s" and sw: "oom sw = []" "clock sw = [t']" and dn: "NUL \<notin> set (domain mw)"
    and un: "understood P (domain mw) m b qs" and b: "length b \<noteq> max_size (mail_from s)"
    and qs: "qs \<noteq> []" "length qs \<le> SMTP_RCPT_MAX_SIZE" and dv: "deliverable mw t' qs sw"
  shows "\<exists>c' cw' s' sw'. both_run net beyond P (rounds m) None (c, cw, s, sw) = Done (None, c', cw', s', sw')
    \<and> conn_state c' = CLIENT_FSM_ST_GET_NEXT_MESSAGE_AND_SENDING_MAIL_OR_QUIT \<and> qitems (conn_messages c') = start_at t m # ms
    \<and> pending (conn_peer c') = out @ mail_commands m
    \<and> current_state s' = CLIENT_ST_CLIENT_INITED \<and> mail_stored mw t' (mailN sw) qs b (map text_line (msg_text m)) sw'"
proof -
  let ?R = "length (recipients_addr m)" and ?L = "length (msg_text m)" and ?m = "start_at t m"
  obtain a where a: "from_addr m = Some a" using txD(6) [OF tx] by (auto simp: message_ok_def)
  have un': "matches_only P SMTP_CMD_MAIL (''MAIL FROM:'' @ a @ CRLF)" "names_sender P (''MAIL FROM:'' @ a @ CRLF) b"
    "length qs = ?R" "\<forall>y \<in> set (zip (map rcpt_command (recipients_addr ?m)) qs). rcpt_recognised P (domain mw) y"
    "matches_only P SMTP_CMD_DATA (''DATA'' @ CRLF)"
    "\<forall>l \<in> set (msg_text ?m). fst (pcre_exec P RE_END_DATA (text_line l)) < 0 \<and> length (text_line l) < SMTP_TEXT_LINE_MAX_SIZE"
    using un a by (auto simp: understood_def start_at_def)
  obtain rv ov where e: "pcre_exec P RE_END_DATA (''.'' @ CRLF) = (rv, int 0 # ov)" "0 \<le> rv" using un unfolding understood_def by blast
  have u: "under_way t ?m" using txD(6) [OF tx] mx by (simp add: under_way_def start_at_def message_ok_def)
  have rl: "recipients_addr ?m = recipients_addr m" "msg_text ?m = msg_text m" by (simp_all add: start_at_def)
  define h where "h = snprintf 200 (''X-mysmtp-from: '' @ b @ CRLF)"
  have "?R + ?L + 3 = Suc (?R + Suc (?L + 1))" by simp
  from both_mail [OF tx [unfolded this] cw bd l a sv sw un'(1,2) b, of net] obtain c1 w1 s1 where
    1: "both_run net beyond P 2 None (c, cw, s, sw) = Done (None, c1, w1, s1, sw)" "clock_at t w1"
      "tx ?m ms (?R + Suc (?L + 1)) CLIENT_FSM_ST_SENDING_RCPT_OR_DATA 0 0 (out @ ''MAIL FROM:'' @ a @ CRLF) c1"
      "serving mw CLIENT_ST_EXPECTED_RCPT_OR_DATA [] h s1" unfolding h_def by blast
  have sv1: "serving mw CLIENT_ST_EXPECTED_RCPT_OR_DATA (take 0 qs) h s1" using 1(4) by simp
  from both_rcpts [OF u bd sw dn _ qs(2) un'(4) _ _ 1(3,2) sv1, of net] un'(3) obtain c2 w2 s2 where
    2: "both_run net beyond P (2 * ?R) None (c1, w1, s1, sw) = Done (None, c2, w2, s2, sw)" "clock_at t w2"
      "tx ?m ms (Suc (?L + 1)) CLIENT_FSM_ST_SENDING_RCPT_OR_DATA ?R 0
         ((out @ ''MAIL FROM:'' @ a @ CRLF) @ concat (map rcpt_command (recipients_addr m))) c2" (is "tx _ _ _ _ _ _ ?o2 _")
      "serving mw CLIENT_ST_EXPECTED_RCPT_OR_DATA qs h s2" by (auto simp: rl)
  have r: "?R = length (recipients_addr ?m)" by (simp add: rl)
  from both_data [OF 2(3,2) u r bd 2(4) sw un'(5), of net] obtain c3 w3 s3 where
    3: "both_run net beyond P 2 None (c2, w2, s2, sw) = Done (None, c3, w3, s3, sw)" "clock_at t w3"
      "tx ?m ms (?L + 1) CLIENT_FSM_ST_SENDING_MSG_TEXT_OR_END_MSG ?R 0 (?o2 @ ''DATA'' @ CRLF) c3"
      "serving mw CLIENT_ST_EXPECTED_MSG_TEXT_OR_END_MSG qs h s3" by blast
  from both_lines [OF u sw un'(6) _ _ 3(3,2,4), of net beyond] obtain c4 w4 s4 where
    4: "both_run net beyond P (2 * ?L) None (c3, w3, s3, sw) = Done (None, c4, w4, s4, sw)" "clock_at t w4"
      "tx ?m ms 1 CLIENT_FSM_ST_SENDING_MSG_TEXT_OR_END_MSG ?R ?L ((?o2 @ ''DATA'' @ CRLF) @ concat (map text_line (msg_text m))) c4"
      "serving mw CLIENT_ST_EXPECTED_MSG_TEXT_OR_END_MSG qs (h @ concat (map text_line (msg_text m))) s4" by (auto simp: rl)
  have k: "tx ?m ms (Suc 0) CLIENT_FSM_ST_SENDING_MSG_TEXT_OR_END_MSG ?R ?L ((?o2 @ ''DATA'' @ CRLF) @ concat (map text_line (msg_text m))) c4"
    using 4(3) by simp
  have ll: "?L = length (msg_text ?m)" by (simp add: rl)
  from both_end [OF k 4(2) u ll bd 4(4) sw e dn qs(1) dv, of net] obtain c5 w5 s5 sw5 where
    5: "both_run net beyond P 2 None (c4, w4, s4, sw) = Done (None, c5, w5, s5, sw5)"
      "tx ?m ms 0 CLIENT_FSM_ST_GET_NEXT_MESSAGE_AND_SENDING_MAIL_OR_QUIT ?R ?L
         (((?o2 @ ''DATA'' @ CRLF) @ concat (map text_line (msg_text m))) @ ''.'' @ CRLF) c5"
      "current_state s5 = CLIENT_ST_CLIENT_INITED" "mail_stored mw t' (mailN sw) qs b (map text_line (msg_text m)) sw5"
    unfolding mail_stored_def stored_mail_def h_def [symmetric] by blast
  have n: "rounds m = 2 + (2 * ?R + (2 + (2 * ?L + 2)))" by (simp add: rounds_def)
  have "both_run net beyond P (rounds m) None (c, cw, s, sw) = Done (None, c5, w5, s5, sw5)"
    unfolding n both_run_add [OF 1(1)] both_run_add [OF 2(1)] both_run_add [OF 3(1)] both_run_add [OF 4(1)] by (rule 5(1))
  moreover have "pending (conn_peer c5) = out @ mail_commands m" using pending_tx [OF 5(2)] a by (simp add: mail_commands_def)
  moreover have "conn_state c5 = CLIENT_FSM_ST_GET_NEXT_MESSAGE_AND_SENDING_MAIL_OR_QUIT" "qitems (conn_messages c5) = ?m # ms"
    using 5(2) by (simp_all add: tx_def)
  ultimately show ?thesis using 5(3,4) by blast
qed

lemma dialogue_matcher_understands: "understood dialogue_matcher dm mail_example ''<a@a.ru>'' [(''b'', ''b.ru'', DOMAIN_TYPE_HOST)]"
  using dialogue_matcher_lines [of dm]
  by (simp add: understood_def lines_recognised_def mail_example_def rcpt_command_def text_line_def line_text_def SMTP_TEXT_LINE_MAX_SIZE_def)

theorem mail_is_transferred_witness:
  "\<exists>c' cw' s' sw'. both_run \<lparr>net_socket = 4, net_connect = True\<rparr> [NUL] dialogue_matcher 10 None
      (sending_example, noon, waiting_server, world_example) = Done (None, c', cw', s', sw')
    \<and> conn_state c' = CLIENT_FSM_ST_GET_NEXT_MESSAGE_AND_SENDING_MAIL_OR_QUIT \<and> qitems (conn_messages c') = [start_at 1000 mail_example]
    \<and> pending (conn_peer c') = [] @ mail_commands mail_example
    \<and> current_state s' = CLIENT_ST_CLIENT_INITED
    \<and> mail_stored mw_example 9 (mailN world_example) [(''b'', ''b.ru'', DOMAIN_TYPE_HOST)] ''<a@a.ru>'' (map text_line (msg_text mail_example)) sw'"
proof -
  have n: "length (recipients_addr mail_example) + length (msg_text mail_example) + 3 = 5" "rounds mail_example = 10"
    by (simp_all add: mail_example_def rounds_def)
  have c: "conn_last_event sending_example \<noteq> CLIENT_FSM_EV_RESPONSE_4XX" "0 \<le> max_attempts_time mail_example" "\<not> isdigit NUL"
    by (simp_all add: sending_example_def mail_example_def isdigit_def)
  have w: "oom world_example = []" "clock world_example = [9]" "NUL \<notin> set (domain mw_example)"
    by (simp_all add: world_example_def plenty_def mw_example_def)
  have b: "length ''<a@a.ru>'' \<noteq> max_size (mail_from waiting_server)" by (simp add: waiting_server_def blank_client_def buffer_with_def)
  have q: "[(''b'', ''b.ru'', DOMAIN_TYPE_HOST)] \<noteq> []" "length [(''b'', ''b.ru'', DOMAIN_TYPE_HOST)] \<le> SMTP_RCPT_MAX_SIZE"
    by (simp_all add: SMTP_RCPT_MAX_SIZE_def)
  show ?thesis
    using mail_is_transferred [of mail_example "[]" 0 0 "[]" sending_example 1000 noon "[NUL]" NUL "[]" mw_example "[]" waiting_server
        world_example 9 dialogue_matcher "''<a@a.ru>''" "[(''b'', ''b.ru'', DOMAIN_TYPE_HOST)]" "\<lparr>net_socket = 4, net_connect = True\<rparr>", unfolded n,
        OF sending_example_tx noon_clock c(1,2) refl c(3) waiting_server_serving w dialogue_matcher_understands b q waiting_server_deliverable] .
qed

section \<open>A line that ends the mail\<close>

text \<open>
  C19: the text of a mail can stop the client. When the next line of the text is one that the server's
  pattern takes for the end of the data (the pattern admits any single character, and the
  client sends lines as they are), the server stores the mail without that line and without
  the lines behind it and answers 250; the client, in the middle of the text, has no transition for a
  reply, and the worker process exits with all its connections.
\<close>

theorem short_line_stops_worker:
  assumes tx: "tx m ms (Suc k) CLIENT_FSM_ST_SENDING_MSG_TEXT_OR_END_MSG rc ln out c" and cw: "clock_at t cw" and u: "under_way t m"
    and i: "ln < length (msg_text m)" and bd: "beyond = x # xs" "\<not> isdigit x"
    and sv: "serving mw CLIENT_ST_EXPECTED_MSG_TEXT_OR_END_MSG qs h s" and sw: "oom sw = []" "clock sw = [t']"
    and p: "pcre_exec P RE_END_DATA (text_line (msg_text m ! ln)) = (rv, int 0 # ov)" "0 \<le> rv"
    and l: "length (text_line (msg_text m ! ln)) < SMTP_TEXT_LINE_MAX_SIZE"
    and dn: "NUL \<notin> set (domain mw)" and ne: "qs \<noteq> []" and dv: "deliverable mw t' qs sw"
  shows "(\<exists>c1 cw1 s1 sw1. both_run net beyond P 1 None (c, cw, s, sw) = Done (Some ''250 OK'', c1, cw1, s1, sw1)
      \<and> conn_state c1 = CLIENT_FSM_ST_MSG_TEXT_SENDED \<and> current_state s1 = CLIENT_ST_CLIENT_INITED
      \<and> (\<exists>to. map rcpt_names to = qs \<and> (\<forall>r \<in> set (link_targets mw to). files sw1 (delivery_path mw t' (mailN sw) r) =
           Some (''X-mysmtp-to:'' @ concat (map (x_to_text '','') (butlast to)) @ x_to_text CRLF (last to) @ h))))
    \<and> both_run net beyond P 2 None (c, cw, s, sw) = Fault Exit_Called"
proof -
  let ?l = "text_line (msg_text m ! ln)"
  have dv': "creatable sw (snd (tmp_path_of mw t' (mailN sw)))"
    "rcpt_names r \<in> set qs \<Longrightarrow> creatable sw (delivery_path mw t' (mailN sw) r)
        \<and> files sw (delivery_path mw t' (mailN sw) r) = None \<and> delivery_path mw t' (mailN sw) r \<noteq> snd (tmp_path_of mw t' (mailN sw))" for r
    using dv unfolding deliverable_def by blast+
  have "line_ok (msg_text m ! ln)" using txD(6) [OF tx] i by (auto simp: message_ok_def)
  then have hl: "holds (received ?l) ?l" using l by (intro holds_received text_line_no_NUL)
  obtain c1 w1 where 1: "exchange net beyond [None] c cw = Done (c1, w1)" "clock_at t w1"
    "tx m ms k CLIENT_FSM_ST_MSG_TEXT_SENDED rc (ln + 1) (out @ ?l) c1"
    unfolding text_line_def by (rule tx_line [OF tx cw refl u i])
  from turn_end [OF sv sw hl p dn dv'(1) ne dv'(2)] obtain s1 sw1 where
    2: "turn P s (received ?l) sw = Done (SMTP_SUCCESS_ANSWER, s1, sw1)" "current_state s1 = CLIENT_ST_CLIENT_INITED"
      "\<exists>to. map rcpt_names to = qs \<and> (\<forall>r \<in> set (link_targets mw to). files sw1 (delivery_path mw t' (mailN sw) r) =
         Some (''X-mysmtp-to:'' @ concat (map (x_to_text '','') (butlast to)) @ x_to_text CRLF (last to) @ h))" by blast
  have n: "?l \<noteq> []" by (simp add: text_line_def)
  have 3: "both_round net beyond P None (c, cw, s, sw) = Done (Some ''250 OK'', c1, w1, s1, sw1)"
    using 1(1) 2(1) n pending_tx [OF tx] pending_tx [OF 1(3)] by (simp add: both_round_def Let_def del: exchange.simps)
  have "exchange net beyond [Some ''250 OK''] c1 w1 = Fault Exit_Called"
    by (rule tx_reply_unforeseen [OF 1(3,2) server_replies_accepted(1) [OF bd]]) (simp_all add: waiting_def fsm_def_next_def)
  then have "both_round net beyond P (Some ''250 OK'') (c1, w1, s1, sw1) = Fault Exit_Called"
    by (simp add: both_round_def del: exchange.simps)
  with 3 have "both_run net beyond P 2 None (c, cw, s, sw) = Fault Exit_Called" by (simp add: numeral_2_eq_2)
  moreover have "both_run net beyond P 1 None (c, cw, s, sw) = Done (Some ''250 OK'', c1, w1, s1, sw1)" using 3 by simp
  moreover have "conn_state c1 = CLIENT_FSM_ST_MSG_TEXT_SENDED" using 1(3) by (simp add: tx_def)
  ultimately show ?thesis using 2(2,3) by blast
qed

definition short_mail :: smtp_message_t where
  "short_mail = start_at 1000 (mail_example\<lparr>msg_text := [Some (mk_str ''A'')]\<rparr>)"

definition short_sender :: smtp_conn where
  "short_sender = conn_example\<lparr>conn_messages := \<lparr>qitems = [short_mail], qlen = 1, qmax = 10000\<rparr>,
     conn_state := CLIENT_FSM_ST_SENDING_MSG_TEXT_OR_END_MSG\<rparr>"

definition short_receiver :: client_t where
  "short_receiver = mail_session\<lparr>rcpts := [\<lparr>local_part = buffer_with ''b'', rdomain = buffer_with ''b.ru'', domain_type = DOMAIN_TYPE_HOST\<rparr>]\<rparr>"

definition short_matcher :: pcre_lib where
  "short_matcher = \<lparr>pcre_exec = (\<lambda>re l. if re = RE_END_DATA \<and> length l = 3 then (1, [int 0, int 3]) else (-1, [])),
     pcre_copy_substring = (\<lambda>_ _ _ _ _. None)\<rparr>"

lemma short_mail_ok: "under_way 1000 short_mail"
proof -
  have "message_ok mail_example" by simp
  moreover have "line_ok (Some (mk_str ''A''))" by (rule line_ok_mk_str) simp_all
  ultimately have "message_ok short_mail" by (simp add: message_ok_def short_mail_def start_at_def) (simp add: mail_example_def)
  then show ?thesis by (simp add: under_way_def) (simp add: short_mail_def start_at_def mail_example_def)
qed

lemma short_sender_tx: "tx short_mail [] (Suc 0) CLIENT_FSM_ST_SENDING_MSG_TEXT_OR_END_MSG 0 0 [] short_sender"
proof -
  have "message_ok short_mail" using short_mail_ok by (simp add: under_way_def)
  then have "data_ok short_sender" using conn_example_data by (simp add: data_ok_def short_sender_def cq_wf_def)
  then show ?thesis by (simp add: tx_def) (simp add: short_sender_def conn_example_def peer_example_def pending_def)
qed

lemma short_receiver_serving:
  "serving mw_example CLIENT_ST_EXPECTED_MSG_TEXT_OR_END_MSG [(''b'', ''b.ru'', DOMAIN_TYPE_HOST)] [] short_receiver"
proof -
  have "session_wf short_receiver" using mail_session_simps(1) by (simp add: session_wf_def short_receiver_def SMTP_RCPT_MAX_SIZE_def)
  moreover have "\<not> need_send short_receiver" by (simp add: short_receiver_def mail_session_def blank_client_def)
  ultimately show ?thesis
    by (simp add: serving_def stores_def) (simp add: short_receiver_def rcpt_names_def rcv_ok_def buffer_with_cstr_ok)
qed

theorem short_line_stops_worker_witness:
  "both_run \<lparr>net_socket = 4, net_connect = True\<rparr> [NUL] short_matcher 2 None (short_sender, noon, short_receiver, world_example)
    = Fault Exit_Called"
proof -
  have m: "msg_text short_mail = [Some (mk_str ''A'')]" by (simp add: short_mail_def start_at_def)
  have l: "text_line (msg_text short_mail ! 0) = ''A'' @ CRLF" by (simp add: m text_line_def line_text_def)
  have w: "oom world_example = []" "clock world_example = [9]" "NUL \<notin> set (domain mw_example)"
    by (simp_all add: world_example_def plenty_def mw_example_def)
  have p: "pcre_exec short_matcher RE_END_DATA (text_line (msg_text short_mail ! 0)) = (1, int 0 # [int 3])" "(0::int) \<le> 1"
    by (simp_all add: short_matcher_def l)
  have i: "0 < length (msg_text short_mail)" "length (text_line (msg_text short_mail ! 0)) < SMTP_TEXT_LINE_MAX_SIZE"
    unfolding l by (simp_all add: m SMTP_TEXT_LINE_MAX_SIZE_def)
  have nd: "\<not> isdigit NUL" by (simp add: isdigit_def)
  show ?thesis
    using short_line_stops_worker [OF short_sender_tx noon_clock short_mail_ok i(1) refl nd short_receiver_serving w(1,2) p i(2) w(3) _
        waiting_server_deliverable, of "\<lparr>net_socket = 4, net_connect = True\<rparr>"] by simp
qed

end
