(* ===== verification/Server_Info.thy ===== *)
theory Server_Info
  imports Server_Client "HOL-Library.Word"
begin

text \<open>
  The table of connections one worker thread serves, \<^verbatim>\<open>server/src/server_info.c\<close>: the poll
  descriptors and the session pointers side by side, adding a connection, growing the
  table, and compressing it after connections were closed. A session pointer is null, live,
  or the address of a freed block; the table itself can be lost (a null \<^verbatim>\<open>clients\<close> array).
\<close>

section \<open>The table\<close>

record pollfd =
  fd :: int
  events :: nat
  revents :: nat

definition POLLIN :: nat where "POLLIN = 1"
definition POLLOUT :: nat where "POLLOUT = 4"

datatype client_ptr = Null | Freed | Live client_t

record smtp_server_cfg =
  cfg_port :: "16 word"
  cfg_address :: string
  cfg_backlog_queue_size :: nat
  cfg_thread_pool_size :: nat
  cfg_domain :: string
  cfg_local_maildir :: string
  cfg_client_maildir :: string
  cfg_user :: string
  cfg_relay_networks :: "string list"
  cfg_timeout :: nat

record server_info_t =
  fds :: "pollfd list option"
  clients :: "client_ptr list option"
  ssize :: nat
  smax_size :: nat
  cfg :: smtp_server_cfg
  spid :: nat
  stid :: nat
  sid :: nat
  shostname :: string
  stimeout :: nat

text \<open>\<open>proc\<close> and \<open>host\<close> are the results of \<^verbatim>\<open>getpid\<close> and \<^verbatim>\<open>gethostname\<close>.\<close>

definition server_info_init :: "smtp_server_cfg \<Rightarrow> nat \<Rightarrow> nat \<Rightarrow> nat \<Rightarrow> nat \<Rightarrow> string \<Rightarrow> world
    \<Rightarrow> error_code \<times> server_info_t \<times> world" where
  "server_info_init c max_sz thr ident proc host w =
     (let s = \<lparr>fds = None, clients = None, ssize = 0, smax_size = 0, cfg = c, spid = proc, stid = thr, sid = ident,
               shostname = host, stimeout = cfg_timeout c\<rparr>;
          w0 = w\<lparr>mailN := 0\<rparr>; (ok1, w1) = alloc w0 in
      if \<not> ok1 then (CE_ALLOC, s, w1)
      else let (ok2, w2) = alloc w1 in
      if \<not> ok2 then (CE_ALLOC, s, w2)
      else (CE_SUCCESS, s\<lparr>fds := Some (replicate max_sz \<lparr>fd = -1, events = 0, revents = 0\<rparr>),
                          clients := Some (replicate max_sz Null), smax_size := max_sz\<rparr>, w2))"

text \<open>
  Growing. The test of the second allocation is inverted: a successful \<^verbatim>\<open>malloc\<close> is reported
  as \<open>CE_ALLOC\<close>, and after a failed one the loop writes through the null pointer.
\<close>

definition server_info_resize :: "server_info_t \<Rightarrow> nat \<Rightarrow> world \<Rightarrow> (error_code \<times> server_info_t \<times> world) run" where
  "server_info_resize s new_max_size w =
     (if new_max_size \<le> smax_size s then Done (CE_SUCCESS, s, w)
      else let (ok1, w1) = alloc w in
      if \<not> ok1 then Done (CE_ALLOC, s, w1)
      else let (ok2, w2) = alloc w1 in
      if ok2 then Done (CE_ALLOC, s, w2)
      else Fault Null_Deref)"

definition mail_writer_of :: "server_info_t \<Rightarrow> mail_writer_t" where
  "mail_writer_of s = \<lparr>domain = cfg_domain (cfg s), local_maildir = cfg_local_maildir (cfg s),
     client_maildir = cfg_client_maildir (cfg s), pid = spid s, tid = stid s, hostname = shostname s\<rparr>"

text \<open>\<open>raw\<close> is the content of the block \<^verbatim>\<open>malloc\<close> returns for the session.\<close>

definition server_info_add_client :: "client_t \<Rightarrow> server_info_t \<Rightarrow> int \<Rightarrow> world
    \<Rightarrow> (error_code \<times> server_info_t \<times> world) run" where
  "server_info_add_client raw s newfd w =
     (let new_size = ssize s + 1 in
      rbind (if smax_size s < new_size then server_info_resize s (new_size + 50) w else Done (CE_SUCCESS, s, w))
      (\<lambda>(cerr, s1, w1).
        if cerr \<noteq> CE_SUCCESS then Done (cerr, s1, w1)
        else case (clients s1, fds s1) of
          (Some cs, Some ps) \<Rightarrow>
            if length cs \<le> ssize s1 \<or> length ps \<le> ssize s1 then Fault Out_Of_Bounds
            else let (ok, w2) = alloc w1 in
              if \<not> ok then Done (CE_ALLOC, s1\<lparr>clients := Some (cs[ssize s1 := Null])\<rparr>, w2)
              else rbind (client_init raw (mail_writer_of s1) w2)
                (\<lambda>(e, c, w3).
                  Done (CE_SUCCESS, s1\<lparr>clients := Some (cs[ssize s1 := (if e \<noteq> CE_SUCCESS then Null else Live c)]),
                     fds := Some (ps[ssize s1 := (ps ! ssize s1)\<lparr>fd := newfd, events := POLLIN + POLLOUT\<rparr>]),
                     ssize := new_size\<rparr>, w3))
        | _ \<Rightarrow> Fault Null_Deref))"

text \<open>\<^verbatim>\<open>client_destroy\<close> of a pointer followed by \<^verbatim>\<open>free\<close>.\<close>

definition destroy_ptr :: "client_ptr \<Rightarrow> client_ptr run" where
  "destroy_ptr p = (case p of Null \<Rightarrow> Fault Null_Deref | Freed \<Rightarrow> Fault Dangling | Live c \<Rightarrow> Done Freed)"

fun destroy_all :: "client_ptr list \<Rightarrow> client_ptr list run" where
  "destroy_all [] = Done []"
| "destroy_all (p # ps) = rbind (destroy_ptr p) (\<lambda>q. rbind (destroy_all ps) (\<lambda>qs. Done (q # qs)))"

definition server_info_destroy :: "server_info_t \<Rightarrow> server_info_t run" where
  "server_info_destroy s =
     (case clients s of
        None \<Rightarrow> if ssize s = 0 then Done (s\<lparr>fds := None\<rparr>) else Fault Null_Deref
      | Some cs \<Rightarrow> if length cs < ssize s then Fault Out_Of_Bounds
                  else rbind (destroy_all (take (ssize s) cs)) (\<lambda>_. Done (s\<lparr>fds := None, clients := None\<rparr>)))"

section \<open>Compressing\<close>

text \<open>
  The inner loop of \<^verbatim>\<open>server_info_compress\<close>: it looks at \<open>fds[j]\<close> before comparing \<open>j\<close> with
  the size, and after freeing a session it sets the whole \<^verbatim>\<open>clients\<close> array to null.
\<close>

function skip_closed :: "pollfd list \<Rightarrow> nat \<Rightarrow> nat \<Rightarrow> client_ptr list option \<Rightarrow> (nat \<times> client_ptr list option) run" where
  "skip_closed ps j n cl =
     (if length ps \<le> j then Fault Out_Of_Bounds
      else if fd (ps ! j) < 0 \<and> j < n
      then case cl of None \<Rightarrow> Fault Null_Deref
           | Some cs \<Rightarrow> if length cs \<le> j then Fault Out_Of_Bounds
               else if cs ! j = Null then skip_closed ps (Suc j) n cl
               else rbind (destroy_ptr (cs ! j)) (\<lambda>_. skip_closed ps (Suc j) n None)
      else Done (j, cl))"
  by pat_completeness auto
termination
  by (relation "measure (\<lambda>(ps, j, n, cl). length ps - j)") auto

declare skip_closed.simps [simp del]

text \<open>\<^verbatim>\<open>memmove\<close> of the elements \<open>j..<n\<close> to position \<open>i\<close>.\<close>

definition move_down :: "'a list \<Rightarrow> nat \<Rightarrow> nat \<Rightarrow> nat \<Rightarrow> 'a list" where
  "move_down xs i j n = blit xs i (take (n - j) (drop j xs))"

text \<open>One iteration of the outer loop at index \<open>i\<close>; \<open>True\<close> means \<^verbatim>\<open>break\<close>.\<close>

definition compress_at :: "nat \<Rightarrow> server_info_t \<Rightarrow> (bool \<times> server_info_t) run" where
  "compress_at i s =
     (case fds s of None \<Rightarrow> Fault Null_Deref
      | Some ps \<Rightarrow>
        if length ps \<le> i then Fault Out_Of_Bounds
        else if 0 \<le> fd (ps ! i) then Done (False, s)
        else case clients s of None \<Rightarrow> Fault Null_Deref
          | Some cs \<Rightarrow>
            if length cs \<le> i then Fault Out_Of_Bounds
            else rbind (destroy_ptr (cs ! i)) (\<lambda>p.
              rbind (skip_closed ps (Suc i) (ssize s) (Some (cs[i := p]))) (\<lambda>(j, cl).
                if j = ssize s then Done (True, s\<lparr>clients := cl, ssize := i\<rparr>)
                else case cl of None \<Rightarrow> Fault Null_Deref
                  | Some cs' \<Rightarrow> Done (False, s\<lparr>fds := Some (move_down ps i j (ssize s)),
                                 clients := Some (move_down cs' i j (ssize s)), ssize := ssize s - (j - i)\<rparr>))))"

text \<open>The index grows by one per iteration, so \<open>size\<close> iterations are enough.\<close>

fun compress_loop :: "nat \<Rightarrow> nat \<Rightarrow> server_info_t \<Rightarrow> server_info_t run" where
  "compress_loop 0 i s = Done s"
| "compress_loop (Suc k) i s =
     (if i < ssize s
      then rbind (compress_at i s) (\<lambda>(brk, s'). if brk then Done s' else compress_loop k (Suc i) s')
      else Done s)"

definition server_info_compress :: "server_info_t \<Rightarrow> server_info_t run" where
  "server_info_compress s = compress_loop (ssize s) 0 s"

section \<open>Well-formed tables\<close>

text \<open>The descriptors and sessions in use, side by side.\<close>

definition conns :: "server_info_t \<Rightarrow> (pollfd \<times> client_ptr) list" where
  "conns s = (case (fds s, clients s) of (Some ps, Some cs) \<Rightarrow> take (ssize s) (zip ps cs) | _ \<Rightarrow> [])"

definition table_wf :: "server_info_t \<Rightarrow> bool" where
  "table_wf s \<longleftrightarrow> (\<exists>ps cs. fds s = Some ps \<and> clients s = Some cs \<and> length ps = smax_size s \<and> length cs = smax_size s)
     \<and> ssize s \<le> smax_size s \<and> (\<forall>x \<in> set (conns s). \<exists>y. snd x = Live y)"

lemma length_move_down [simp]: "i \<le> j \<Longrightarrow> j \<le> n \<Longrightarrow> n \<le> length xs \<Longrightarrow> length (move_down xs i j n) = length xs"
  by (simp add: move_down_def)

lemma zip_move_down:
  assumes "i \<le> j" "j \<le> n" "n \<le> length xs" "length ys = length xs"
  shows "take (n - (j - i)) (zip (move_down xs i j n) (move_down ys i j n)) = take i (zip xs ys) @ drop j (take n (zip xs ys))"
proof -
  have e: "n - (j - i) = i + (n - j)" using assms by simp
  have "take (i + (n - j)) (zip (move_down xs i j n) (move_down ys i j n))
      = zip (take i xs @ take (n - j) (drop j xs)) (take i ys @ take (n - j) (drop j ys))"
    using assms by (simp add: take_zip move_down_def blit_def)
  also have "\<dots> = zip (take i xs) (take i ys) @ zip (take (n - j) (drop j xs)) (take (n - j) (drop j ys))"
    using assms by (subst zip_append) simp_all
  finally show ?thesis unfolding e by (simp add: take_zip drop_zip drop_take)
qed

lemma table_wfE:
  assumes "table_wf s"
  obtains ps cs where "fds s = Some ps" "clients s = Some cs" "length ps = smax_size s" "length cs = smax_size s"
    "conns s = take (ssize s) (zip ps cs)" "ssize s \<le> smax_size s" "\<forall>x \<in> set (conns s). \<exists>y. snd x = Live y"
  using assms that unfolding table_wf_def by (elim conjE exE) (simp add: conns_def)

lemma conns_nth:
  assumes "table_wf s" "i < ssize s" "fds s = Some ps" "clients s = Some cs"
  shows "conns s ! i = (ps ! i, cs ! i) \<and> (\<exists>x. cs ! i = Live x) \<and> length (conns s) = ssize s"
proof -
  have "conns s ! i = (ps ! i, cs ! i)" "length (conns s) = ssize s" using assms by (auto simp: table_wf_def conns_def)
  moreover from this assms(2) have "(ps ! i, cs ! i) \<in> set (conns s)" by (metis nth_mem)
  ultimately show ?thesis using assms(1) by (auto simp: table_wf_def)
qed

lemma live_conns: "table_wf s \<Longrightarrow> \<forall>x \<in> set (conns s). \<exists>y. snd x = Live y"
  by (simp add: table_wf_def)

section \<open>Adding and growing\<close>

text \<open>
  The table never grows: \<open>server_info_resize\<close> reports success only when nothing has to
  be done, whatever memory there is.
\<close>

theorem server_info_never_grows:
  assumes "server_info_resize s n w = Done (e, s', w')" and "e = CE_SUCCESS"
  shows "n \<le> smax_size s \<and> s' = s"
  using assms by (auto simp: server_info_resize_def Let_def split: if_splits prod.splits)

definition cfg_example :: smtp_server_cfg where
  "cfg_example = \<lparr>cfg_port = 25, cfg_address = ''::'', cfg_backlog_queue_size = 5, cfg_thread_pool_size = 2,
     cfg_domain = ''mysmtp.ru'', cfg_local_maildir = ''/m/'', cfg_client_maildir = ''/q/'', cfg_user = ''smtp'',
     cfg_relay_networks = [], cfg_timeout = 300\<rparr>"

definition info_example :: server_info_t where
  "info_example = fst (snd (server_info_init cfg_example 50 5 1 7 ''h'' plenty))"

theorem server_info_never_grows_witness:
  "server_info_resize info_example 50 plenty = Done (CE_SUCCESS, info_example, plenty) \<and> 50 \<le> smax_size info_example"
proof -
  have r: "server_info_resize info_example 50 plenty = Done (CE_SUCCESS, info_example, plenty)"
    by (simp add: server_info_resize_def info_example_def server_info_init_def plenty_def)
  from server_info_never_grows [OF r refl] r show ?thesis by simp
qed

lemma add_client_room:
  assumes wf: "table_wf s" and w: "oom w = []" and lt: "ssize s < smax_size s"
  obtains s' p c where "server_info_add_client raw s newfd w = Done (CE_SUCCESS, s', w)" "table_wf s'"
    "conns s' = conns s @ [(p, Live c)]" "fd p = newfd" "events p = POLLIN + POLLOUT"
    "session_wf c" "need_send c" "content (msg_for_sending c) = SMTP_OPENING_MSG" "\<not> closed c"
    "mail_writer c = mail_writer_of s" "ssize s' = ssize s + 1" "smax_size s' = smax_size s" "cfg s' = cfg s"
proof -
  from wf obtain ps cs where t: "fds s = Some ps" "clients s = Some cs" "length ps = smax_size s" "length cs = smax_size s"
    "conns s = take (ssize s) (zip ps cs)" "ssize s \<le> smax_size s" "\<forall>x \<in> set (conns s). \<exists>y. snd x = Live y"
    by (rule table_wfE)
  obtain c where c: "client_init raw (mail_writer_of s) w = Done (CE_SUCCESS, c, w)" "session_wf c" "need_send c"
    "content (msg_for_sending c) = SMTP_OPENING_MSG" "\<not> closed c" "mail_writer c = mail_writer_of s"
    by (rule client_init_ok [of raw "mail_writer_of s" w]) (use w in auto)
  let ?p = "(ps ! ssize s)\<lparr>fd := newfd, events := POLLIN + POLLOUT\<rparr>"
  let ?s = "s\<lparr>clients := Some (cs[ssize s := Live c]), fds := Some (ps[ssize s := ?p]), ssize := ssize s + 1\<rparr>"
  have r: "server_info_add_client raw s newfd w = Done (CE_SUCCESS, ?s, w)"
    using t lt c(1) w by (simp add: server_info_add_client_def Let_def)
  have cn: "conns ?s = conns s @ [(?p, Live c)]"
    using t lt by (simp add: conns_def take_Suc_conv_app_nth) (simp add: take_zip)
  have "table_wf ?s" unfolding table_wf_def cn using t lt by auto
  with r cn c show thesis by (intro that [of ?s ?p c]) simp_all
qed

text \<open>
  With enough memory a connection is added behind the others with a fresh session whose
  greeting is ready to be sent, as long as there is a free entry; a full table refuses it
  with \<open>CE_ALLOC\<close> and stays as it is.
\<close>

theorem server_info_add_client_ok:
  assumes wf: "table_wf s" and w: "oom w = []"
  shows "if ssize s = smax_size s then server_info_add_client raw s newfd w = Done (CE_ALLOC, s, w)
     else \<exists>s' p c. server_info_add_client raw s newfd w = Done (CE_SUCCESS, s', w) \<and> table_wf s'
       \<and> conns s' = conns s @ [(p, Live c)] \<and> fd p = newfd \<and> events p = POLLIN + POLLOUT
       \<and> session_wf c \<and> need_send c \<and> content (msg_for_sending c) = SMTP_OPENING_MSG"
proof (cases "ssize s = smax_size s")
  case True
  with w show ?thesis by (simp add: server_info_add_client_def server_info_resize_def Let_def)
next
  case False
  then have lt: "ssize s < smax_size s" using wf by (auto elim!: table_wfE)
  obtain s' p c where "server_info_add_client raw s newfd w = Done (CE_SUCCESS, s', w)" "table_wf s'"
    "conns s' = conns s @ [(p, Live c)]" "fd p = newfd" "events p = POLLIN + POLLOUT"
    "session_wf c" "need_send c" "content (msg_for_sending c) = SMTP_OPENING_MSG"
    by (rule add_client_room [OF wf w lt])
  with False show ?thesis by auto
qed

section \<open>What compressing does\<close>

text \<open>An entry is closed when its descriptor is negative; \<open>isolated\<close>: no two neighbours are closed.\<close>

abbreviation is_open :: "pollfd \<times> client_ptr \<Rightarrow> bool" where
  "is_open x \<equiv> 0 \<le> fd (fst x)"

fun isolated :: "(pollfd \<times> client_ptr) list \<Rightarrow> bool" where
  "isolated (x # y # xs) \<longleftrightarrow> (is_open x \<or> is_open y) \<and> isolated (y # xs)"
| "isolated _ = True"

lemma isolated_Cons: "isolated (x # xs) \<Longrightarrow> isolated xs"
  by (cases xs) auto

lemma isolated_open: "list_all is_open xs \<Longrightarrow> isolated xs"
  by (induction xs rule: isolated.induct) auto

text \<open>One closed entry with an open neighbour behind it is dropped.\<close>

lemma compress_at_drop:
  assumes wf: "table_wf s" and c: "conns s = kept @ x # y # rest" "\<not> is_open x" "is_open y"
  shows "\<exists>s'. compress_at (length kept) s = Done (False, s') \<and> table_wf s' \<and> conns s' = kept @ y # rest
    \<and> smax_size s' = smax_size s"
proof -
  let ?i = "length kept"
  from wf obtain ps cs where t: "fds s = Some ps" "clients s = Some cs" "length ps = smax_size s" "length cs = smax_size s"
    "conns s = take (ssize s) (zip ps cs)" "ssize s \<le> smax_size s" by (rule table_wfE)
  have n: "ssize s = ?i + 2 + length rest"
    using arg_cong [OF c(1), of length] t by simp
  note i = conns_nth [OF wf _ t(1,2), of ?i] conns_nth [OF wf _ t(1,2), of "Suc ?i"]
  have x: "x = (ps ! ?i, cs ! ?i)" "\<exists>z. cs ! ?i = Live z" and y: "y = (ps ! Suc ?i, cs ! Suc ?i)"
    using i n c(1) by (auto simp: nth_append)
  obtain z where z: "cs ! ?i = Live z" using x(2) by blast
  let ?cs = "cs[?i := Freed]"
  have sk: "skip_closed ps (Suc ?i) (ssize s) (Some ?cs) = Done (Suc ?i, Some ?cs)"
    using y c(3) n t by (subst skip_closed.simps) simp
  define s' where "s' = s\<lparr>fds := Some (move_down ps ?i (Suc ?i) (ssize s)),
      clients := Some (move_down ?cs ?i (Suc ?i) (ssize s)), ssize := ssize s - 1\<rparr>"
  have "compress_at ?i s = Done (False, s')"
    using t n x z c(2) sk by (simp add: compress_at_def destroy_ptr_def s'_def)
  moreover have cn: "conns s' = kept @ y # rest"
  proof -
    have "conns s' = take ?i (zip ps ?cs) @ drop (Suc ?i) (take (ssize s) (zip ps ?cs))"
      using zip_move_down [of ?i "Suc ?i" "ssize s" ps ?cs] t n by (simp add: conns_def s'_def)
    also have "take ?i (zip ps ?cs) = take ?i (conns s)" using t n by (simp add: take_zip)
    also have "drop (Suc ?i) (take (ssize s) (zip ps ?cs)) = drop (Suc ?i) (conns s)"
      using t by (simp add: take_zip drop_zip drop_take)
    finally show ?thesis using c(1) by simp
  qed
  moreover have "table_wf s'"
    using t(3,4,6) n live_conns [OF wf] c(1) unfolding table_wf_def cn by (auto simp: s'_def)
  ultimately show ?thesis by (auto simp: s'_def)
qed

lemma compress_at_last:
  assumes wf: "table_wf s" and c: "conns s = kept @ [x]" "\<not> is_open x" and lt: "ssize s < smax_size s"
  shows "\<exists>s'. compress_at (length kept) s = Done (True, s') \<and> table_wf s' \<and> conns s' = kept"
proof -
  let ?i = "length kept"
  from wf obtain ps cs where t: "fds s = Some ps" "clients s = Some cs" "length ps = smax_size s" "length cs = smax_size s"
    "conns s = take (ssize s) (zip ps cs)" "ssize s \<le> smax_size s" by (rule table_wfE)
  have n: "ssize s = Suc ?i" using arg_cong [OF c(1), of length] t by simp
  have x: "x = (ps ! ?i, cs ! ?i)" "\<exists>z. cs ! ?i = Live z"
    using conns_nth [OF wf _ t(1,2), of ?i] n c(1) by (auto simp: nth_append)
  let ?cs = "cs[?i := Freed]"
  have sk: "skip_closed ps (Suc ?i) (ssize s) (Some ?cs) = Done (Suc ?i, Some ?cs)"
    using n t lt by (subst skip_closed.simps) simp
  define s' where "s' = s\<lparr>clients := Some ?cs, ssize := ?i\<rparr>"
  have "compress_at ?i s = Done (True, s')"
    using t n x c(2) sk lt by (auto simp: compress_at_def destroy_ptr_def s'_def)
  moreover have cn: "conns s' = kept"
  proof -
    have "conns s' = take ?i (conns s)" using t n by (simp add: conns_def s'_def take_zip)
    then show ?thesis using c(1) by simp
  qed
  moreover have "table_wf s'"
    using t(1,3,4) lt n live_conns [OF wf] c(1) unfolding table_wf_def cn by (auto simp: s'_def)
  ultimately show ?thesis by blast
qed

lemma compress_at_last_full:
  assumes wf: "table_wf s" and c: "conns s = kept @ [x]" "\<not> is_open x" and full: "ssize s = smax_size s"
  shows "compress_at (length kept) s = Fault Out_Of_Bounds"
proof -
  let ?i = "length kept"
  from wf obtain ps cs where t: "fds s = Some ps" "clients s = Some cs" "length ps = smax_size s" "length cs = smax_size s"
    "conns s = take (ssize s) (zip ps cs)" "ssize s \<le> smax_size s" by (rule table_wfE)
  have n: "ssize s = Suc ?i" using arg_cong [OF c(1), of length] t by simp
  obtain z where "x = (ps ! ?i, Live z)" "cs ! ?i = Live z"
    using conns_nth [OF wf _ t(1,2), of ?i] n c(1) by (auto simp: nth_append)
  moreover have "skip_closed ps (Suc ?i) (ssize s) cl = Fault Out_Of_Bounds" for cl
    using n t(3) full by (subst skip_closed.simps) simp
  ultimately show ?thesis using t(1-4) n c(2) full by (simp add: compress_at_def destroy_ptr_def)
qed

lemma compress_at_open:
  assumes wf: "table_wf s" and c: "conns s = kept @ x # rest" "is_open x"
  shows "compress_at (length kept) s = Done (False, s)"
proof -
  from wf obtain ps cs where t: "fds s = Some ps" "clients s = Some cs" "length ps = smax_size s" "length cs = smax_size s"
    "conns s = take (ssize s) (zip ps cs)" "ssize s \<le> smax_size s" by (rule table_wfE)
  have l: "length kept < ssize s" using arg_cong [OF c(1), of length] t by simp
  then have "0 \<le> fd (ps ! length kept)" using conns_nth [OF wf l t(1,2)] c by (simp add: nth_append)
  with t l show ?thesis by (simp add: compress_at_def)
qed

lemma compress_at_adjacent:
  assumes wf: "table_wf s" and c: "conns s = opn @ x # y # rest" and cl: "\<not> is_open x" "\<not> is_open y"
  shows "compress_at (length opn) s =
    (if rest \<noteq> [] then Fault Null_Deref else if ssize s = smax_size s then Fault Out_Of_Bounds
     else Done (True, s\<lparr>clients := None, ssize := length opn\<rparr>))"
proof -
  let ?i = "length opn"
  from wf obtain ps cs where t: "fds s = Some ps" "clients s = Some cs" "length ps = smax_size s" "length cs = smax_size s"
    "conns s = take (ssize s) (zip ps cs)" "ssize s \<le> smax_size s" by (rule table_wfE)
  have n: "ssize s = ?i + 2 + length rest" using arg_cong [OF c, of length] t by simp
  note i = conns_nth [OF wf _ t(1,2), of ?i] conns_nth [OF wf _ t(1,2), of "Suc ?i"]
  obtain u v where uv: "x = (ps ! ?i, Live u)" "cs ! ?i = Live u" "y = (ps ! Suc ?i, Live v)" "cs ! Suc ?i = Live v"
    using i n c by (auto simp: nth_append)
  let ?cs = "cs[?i := Freed]"
  have "skip_closed ps (Suc ?i) (ssize s) (Some ?cs) = skip_closed ps (Suc (Suc ?i)) (ssize s) None"
    using uv cl n t by (subst skip_closed.simps) (simp add: destroy_ptr_def)
  also have "\<dots> = (if length ps \<le> Suc (Suc ?i) then Fault Out_Of_Bounds
      else if fd (ps ! Suc (Suc ?i)) < 0 \<and> rest \<noteq> [] then Fault Null_Deref else Done (Suc (Suc ?i), None))"
    using n by (subst skip_closed.simps) auto
  finally have sk: "skip_closed ps (Suc ?i) (ssize s) (Some ?cs) = \<dots>" .
  show ?thesis
  proof (cases rest)
    case Nil
    with sk t n uv cl show ?thesis by (auto simp: compress_at_def destroy_ptr_def)
  next
    case (Cons z zs)
    with sk t n uv cl show ?thesis by (auto simp: compress_at_def destroy_ptr_def)
  qed
qed

text \<open>The only closed entry is the last one.\<close>

definition last_closed :: "(pollfd \<times> client_ptr) list \<Rightarrow> bool" where
  "last_closed xs \<longleftrightarrow> xs \<noteq> [] \<and> list_all is_open (butlast xs) \<and> \<not> is_open (last xs)"

lemma last_closed_simps [simp]:
  "\<not> last_closed []" "last_closed [x] \<longleftrightarrow> \<not> is_open x"
  "last_closed (x # y # xs) \<longleftrightarrow> is_open x \<and> last_closed (y # xs)"
  by (auto simp: last_closed_def)

text \<open>
  What the loop does to the entries it has not visited yet: as long as no two neighbours are
  closed it keeps the open ones, unless the table is still full and the last entry is the
  only closed one; two closed neighbours cost the worker its session array or the process.
\<close>

lemma compress_loop_outcome:
  "table_wf s \<Longrightarrow> conns s = kept @ rest \<Longrightarrow> length rest \<le> k \<Longrightarrow>
     (if isolated rest
      then (if ssize s = smax_size s \<and> last_closed rest then compress_loop k (length kept) s = Fault Out_Of_Bounds
            else \<exists>s'. compress_loop k (length kept) s = Done s' \<and> table_wf s' \<and> conns s' = kept @ filter is_open rest)
      else compress_loop k (length kept) s \<in> {Fault Null_Deref, Fault Out_Of_Bounds}
        \<or> (\<exists>s'. compress_loop k (length kept) s = Done s' \<and> clients s' = None))"
proof (induction k arbitrary: s kept rest)
  case 0
  then show ?case by simp
next
  case (Suc k)
  have n: "ssize s = length kept + length rest" "ssize s \<le> smax_size s"
    using arg_cong [OF Suc.prems(2), of length] Suc.prems(1) by (auto elim!: table_wfE)
  consider (nil) "rest = []" | (opn) x xs where "rest = x # xs" "is_open x" | (lst) x where "rest = [x]" "\<not> is_open x"
    | (drp) x y ys where "rest = x # y # ys" "\<not> is_open x" "is_open y"
    | (adj) x y ys where "rest = x # y # ys" "\<not> is_open x" "\<not> is_open y"
    by (metis list.exhaust)
  then show ?case
  proof cases
    case nil
    with Suc.prems n show ?thesis by simp
  next
    case opn
    have a: "compress_at (length kept) s = Done (False, s)"
      using compress_at_open [OF Suc.prems(1)] Suc.prems(2) opn by blast
    have iso: "isolated rest = isolated xs" "last_closed rest = last_closed xs"
      using opn by (cases xs; simp)+
    have "compress_loop (Suc k) (length kept) s = compress_loop k (length (kept @ [x])) s" using a n opn by simp
    with Suc.IH [OF Suc.prems(1), of "kept @ [x]" xs] Suc.prems(2,3) opn iso show ?thesis
      by (auto simp del: compress_loop.simps split: if_splits)
  next
    case lst
    show ?thesis
    proof (cases "ssize s < smax_size s")
      case True
      from compress_at_last [OF Suc.prems(1) _ lst(2) True] Suc.prems(2) lst obtain s1 where
        "compress_at (length kept) s = Done (True, s1)" "table_wf s1" "conns s1 = kept" by auto
      with n lst True show ?thesis by simp
    next
      case False
      then have "ssize s = smax_size s" using n(2) by simp
      with compress_at_last_full [OF Suc.prems(1) _ lst(2) this] Suc.prems(2) n lst show ?thesis by simp
    qed
  next
    case drp
    from compress_at_drop [OF Suc.prems(1) _ drp(2,3)] Suc.prems(2) drp(1) obtain s1 where
      s1: "compress_at (length kept) s = Done (False, s1)" "table_wf s1" "conns s1 = kept @ y # ys"
        "smax_size s1 = smax_size s" by auto
    have "length (conns s1) = ssize s1" using s1(2) by (auto elim!: table_wfE)
    then have room: "ssize s1 \<noteq> smax_size s1" using s1(3,4) n drp(1) by simp
    have iso: "isolated rest = isolated ys" "\<not> last_closed rest" using drp by (cases ys; simp)+
    have "compress_loop (Suc k) (length kept) s = compress_loop k (length (kept @ [y])) s1" using s1(1) n drp by simp
    with Suc.IH [OF s1(2), of "kept @ [y]" ys] s1(3) Suc.prems(3) drp iso room show ?thesis
      by (auto simp del: compress_loop.simps split: if_splits)
  next
    case adj
    note a = compress_at_adjacent [OF Suc.prems(1) _ adj(2,3), of kept ys]
    with Suc.prems(2) n adj show ?thesis by simp
  qed
qed

lemma compress_outcome:
  assumes wf: "table_wf s"
  shows "if isolated (conns s)
     then (if ssize s = smax_size s \<and> last_closed (conns s) then server_info_compress s = Fault Out_Of_Bounds
           else \<exists>s'. server_info_compress s = Done s' \<and> table_wf s' \<and> conns s' = filter is_open (conns s))
     else server_info_compress s \<in> {Fault Null_Deref, Fault Out_Of_Bounds}
       \<or> (\<exists>s'. server_info_compress s = Done s' \<and> clients s' = None)"
proof -
  have "length (conns s) \<le> ssize s" using wf by (auto elim!: table_wfE)
  from compress_loop_outcome [OF wf append_Nil [symmetric] this] show ?thesis
    unfolding server_info_compress_def list.size(3) append_Nil .
qed

text \<open>
  C39: compressing a table in which no two neighbouring entries are closed keeps exactly the
  open connections in their order, with their sessions, and frees the sessions of the closed
  ones; the one exception is a full table whose only closed entry is the last one, where the
  entry behind the end of the table is read. Where two neighbours are closed it faults or
  loses the array of sessions.
\<close>

theorem compress_keeps_open:
  assumes wf: "table_wf s"
  shows "if isolated (conns s)
     then (if ssize s = smax_size s \<and> last_closed (conns s) then server_info_compress s = Fault Out_Of_Bounds
           else \<exists>s'. server_info_compress s = Done s' \<and> table_wf s' \<and> conns s' = filter is_open (conns s))
     else server_info_compress s \<in> {Fault Null_Deref, Fault Out_Of_Bounds}
       \<or> (\<exists>s'. server_info_compress s = Done s' \<and> clients s' = None)"
  by (rule compress_outcome [OF wf])

lemma compress_open_prefix:
  assumes "table_wf s" "conns s = pre @ opn @ rest" "list_all is_open opn"
  shows "compress_loop (length opn + k) (length pre) s = compress_loop k (length pre + length opn) s"
  using assms(2,3)
proof (induction opn arbitrary: pre)
  case Nil
  then show ?case by simp
next
  case (Cons x xs)
  have "compress_at (length pre) s = Done (False, s)"
    using compress_at_open [OF assms(1), of pre x "xs @ rest"] Cons.prems by simp
  moreover have "length pre < ssize s"
    using arg_cong [OF Cons.prems(1), of length] assms(1) by (auto elim!: table_wfE)
  ultimately show ?case using Cons.IH [of "pre @ [x]"] Cons.prems by simp
qed

lemma compress_first_closed:
  assumes wf: "table_wf s" and c: "conns s = opn @ x # rest" and o: "list_all is_open opn"
  shows "server_info_compress s = rbind (compress_at (length opn) s)
    (\<lambda>(brk, s'). if brk then Done s' else compress_loop (length rest) (Suc (length opn)) s')"
proof -
  have n: "ssize s = length opn + Suc (length rest)"
    using arg_cong [OF c, of length] wf by (auto elim!: table_wfE)
  then show ?thesis
    unfolding server_info_compress_def using compress_open_prefix [OF wf, of "[]" opn "x # rest" "Suc (length rest)"] c o
    by simp
qed

text \<open>
  When the first closed entry has a closed neighbour the table does not survive: the
  inner loop sets the array of sessions to null, so the worker faults if a connection
  follows, and else goes on with a null array. Even when these are the last two entries of a
  full table, the entry behind the end of the table is read.
\<close>

theorem compress_adjacent_closed:
  assumes "table_wf s" and "conns s = opn @ x # y # rest" and "list_all is_open opn" "\<not> is_open x" "\<not> is_open y"
  shows "server_info_compress s =
    (if rest \<noteq> [] then Fault Null_Deref else if ssize s = smax_size s then Fault Out_Of_Bounds
     else Done (s\<lparr>clients := None, ssize := length opn\<rparr>))"
  using assms by (simp add: compress_first_closed compress_at_adjacent)

section \<open>Examples\<close>

definition table_of :: "int list \<Rightarrow> nat \<Rightarrow> server_info_t" where
  "table_of ds free = info_example\<lparr>
     fds := Some (map (\<lambda>d. \<lparr>fd = d, events = POLLIN + POLLOUT, revents = 0\<rparr>) (ds @ replicate free (-1))),
     clients := Some (map (\<lambda>d. Live blank_client) ds @ replicate free Null),
     ssize := length ds, smax_size := length ds + free\<rparr>"

lemma table_of_wf [simp]: "table_wf (table_of ds free)"
  by (auto simp: table_wf_def table_of_def conns_def zip_append1 take_zip dest!: set_zip_rightD)

lemma size_table_of [simp]: "ssize (table_of ds free) = length ds" "smax_size (table_of ds free) = length ds + free"
  by (simp_all add: table_of_def)

lemma conns_table_of [simp]:
  "conns (table_of ds free) = map (\<lambda>d. (\<lparr>fd = d, events = POLLIN + POLLOUT, revents = 0\<rparr>, Live blank_client)) ds"
  by (simp add: conns_def table_of_def take_zip zip_map_map map_zip_map zip_same_conv_map comp_def)

theorem server_info_add_client_ok_witness:
  "\<exists>s' p c. server_info_add_client blank_client (table_of [4, 6] 1) 9 plenty = Done (CE_SUCCESS, s', plenty)
     \<and> conns s' = conns (table_of [4, 6] 1) @ [(p, Live c)] \<and> fd p = 9 \<and> session_wf c
     \<and> content (msg_for_sending c) = SMTP_OPENING_MSG"
proof -
  have "oom plenty = []" by (simp add: plenty_def)
  from server_info_add_client_ok [OF table_of_wf this, of "[4, 6]" 1 blank_client 9] show ?thesis
    by (simp only: size_table_of list.size add_0 add_Suc One_nat_def) fastforce
qed

theorem compress_keeps_open_witness:
  "(\<exists>s'. server_info_compress (table_of [4, -1, 6, -1] 0) = Done s' \<and> map (fd \<circ> fst) (conns s') = [4, 6])
   \<and> server_info_compress (table_of [4, 6, -1] 0) = Fault Out_Of_Bounds"
  using compress_keeps_open [of "table_of [4, -1, 6, -1] 0"] compress_keeps_open [of "table_of [4, 6, -1] 0"] by auto

theorem compress_adjacent_closed_witness:
  "server_info_compress (table_of [4, -1, -1, 6] 1) = Fault Null_Deref"
  using compress_adjacent_closed [of "table_of [4, -1, -1, 6] 1" "take 1 (conns (table_of [4, -1, -1, 6] 1))"
      "conns (table_of [4, -1, -1, 6] 1) ! 1" "conns (table_of [4, -1, -1, 6] 1) ! 2" "drop 3 (conns (table_of [4, -1, -1, 6] 1))"]
  by simp

end
