(* ===== verification/Server_Memory.thy ===== *)
theory Server_Memory
  imports Server_Client
begin

text \<open>
  Sessions only take memory through \<^verbatim>\<open>malloc\<close>, so a machine with enough memory still has
  enough of it after any call of a session's entry points. The facts are about the runs
  that return, and need no invariant of the session.
\<close>

named_theorems keeps_mem \<open>enough memory before an operation is enough memory behind it\<close>

lemma msg_init_mem [keeps_mem]: "msg_init n w = (e, m, w') \<Longrightarrow> oom w = [] \<Longrightarrow> oom w' = []"
  by (auto simp: msg_init_def split: if_splits)

lemma msg_add_text_mem [keeps_mem]: "msg_add_text m b n w = Done (e, m', w') \<Longrightarrow> oom w = [] \<Longrightarrow> oom w' = []"
  by (auto simp: msg_add_text_def msg_resize_def Let_def rbind_Done_iff split: if_splits option.splits)

lemma recv_loop_mem: "recv_loop i m rs w = Done (e, cl, m', rs', w') \<Longrightarrow> oom w = [] \<Longrightarrow> oom w' = []"
proof (induction i arbitrary: m rs w)
  case (Suc i)
  show ?case
  proof (cases rs)
    case (Cons r rs1)
    with Suc.prems show ?thesis by (cases r) (auto simp: rbind_Done_iff dest!: msg_add_text_mem intro: Suc.IH)
  qed (use Suc.prems in simp)
qed simp

lemma log_msg_mem [simp]: "oom (log_msg l sys w) = oom w"
  by (simp add: log_msg_def)

lemma time_now_mem [keeps_mem]: "time_now w = (t, w') \<Longrightarrow> oom w = [] \<Longrightarrow> oom w' = []"
  by (auto simp: time_now_def split: prod.splits)

section \<open>The operations of a session\<close>

lemma set_response_mem [keeps_mem]: "client_set_response c b n w = Done (e, c', w') \<Longrightarrow> oom w = [] \<Longrightarrow> oom w' = []"
  by (auto simp: client_set_response_def rbind_Done_iff dest: keeps_mem split: if_splits)

lemma add_greating_mem [keeps_mem]: "client_add_greating_info c b n w = Done (e, c', w') \<Longrightarrow> oom w = [] \<Longrightarrow> oom w' = []"
  by (auto simp: client_add_greating_info_def rbind_Done_iff dest: keeps_mem)

lemma add_msg_txt_mem [keeps_mem]: "client_add_msg_txt c b n w = Done (e, c', w') \<Longrightarrow> oom w = [] \<Longrightarrow> oom w' = []"
  by (auto simp: client_add_msg_txt_def rbind_Done_iff dest: keeps_mem)

lemma add_mail_from_mem [keeps_mem]: "client_add_mail_from c b n w = Done (e, c', w') \<Longrightarrow> oom w = [] \<Longrightarrow> oom w' = []"
  by (auto simp: client_add_mail_from_def rbind_Done_iff Let_def dest: keeps_mem split: if_splits)

lemma add_postmaster_mem: "add_postmaster l d dm n w = Done (l', d', w') \<Longrightarrow> oom w = [] \<Longrightarrow> oom w' = []"
  by (auto simp: add_postmaster_def rbind_Done_iff dest: keeps_mem)

lemma add_forward_path_mem: "add_forward_path P mi b l d w = Done (l', d', ty, w') \<Longrightarrow> oom w = [] \<Longrightarrow> oom w' = []"
  by (auto simp: add_forward_path_def rbind_Done_iff dest: keeps_mem)

lemma add_rcpt_to_mem [keeps_mem]:
  assumes r: "client_add_rcpt_to P c mi w = Done (e, c', w')" and w: "oom w = []"
  shows "oom w' = []"
proof (cases "length (rcpts c) = SMTP_RCPT_MAX_SIZE")
  case True
  with assms show ?thesis by (simp add: client_add_rcpt_to_def)
next
  case False
  obtain e1 l w1 e2 d w2 where i: "msg_init 50 w = (e1, l, w1)" "msg_init 50 w1 = (e2, d, w2)" by (metis prod_cases3)
  from i w have m: "oom w1 = []" "oom w2 = []" by (auto dest: keeps_mem)
  with r i False show ?thesis
    by (auto simp: client_add_rcpt_to_def Let_def rbind_Done_iff
        dest: add_postmaster_mem add_forward_path_mem split: if_splits)
qed

lemma data_end_mem [keeps_mem]: "client_data_end_process c w = Done (e, c', w') \<Longrightarrow> oom w = [] \<Longrightarrow> oom w' = []"
  by (auto simp: client_data_end_process_def rbind_Done_iff dest: write_mail_keeps_oom)

section \<open>The automaton and the entry points\<close>

definition callback_mem :: "client_callback_t \<Rightarrow> bool" where
  "callback_mem f \<longleftrightarrow> (\<forall>P c mi i n e w s' c' w'. f P c mi i n e w = Done (s', c', w') \<longrightarrow> oom w = [] \<longrightarrow> oom w' = [])"

lemma callback_memI:
  "(\<And>P c mi i n e w s' c' w'. f P c mi i n e w = Done (s', c', w') \<Longrightarrow> oom w = [] \<Longrightarrow> oom w' = []) \<Longrightarrow> callback_mem f"
  unfolding callback_mem_def by blast

lemma callback_memD: "callback_mem f \<Longrightarrow> f P c mi i n e w = Done (s', c', w') \<Longrightarrow> oom w = [] \<Longrightarrow> oom w' = []"
  unfolding callback_mem_def by blast

lemma passive_mem [simp]: "is_passive f \<Longrightarrow> callback_mem f"
  by (rule callback_memI) (auto simp: is_passive_def)

lemma answering_mem [simp]:
  "callback_mem client_do_CLIENT_INITED_quit" "callback_mem client_do_DATA_RECEIVED_quit"
  "callback_mem client_do_EHLO_RECEIVED_quit" "callback_mem client_do_EXPECTED_RCPT_OR_DATA_quit"
  "callback_mem client_do_client_inited_vrfy" "callback_mem client_do_expected_rcpt_or_data_data"
  by (rule callback_memI, auto simp: active_callbacks rbind_Done_iff dest: keeps_mem)+

lemma storing_mem [simp]:
  "callback_mem client_do_wait_hello_or_ehlo_ehlo" "callback_mem client_do_wait_hello_or_ehlo_helo"
  "callback_mem client_do_client_inited_mail" "callback_mem client_do_expected_rcpt_or_data_rcpt"
  "callback_mem client_do_expected_msg_text_or_end_msg_msg_text"
  by (rule callback_memI, auto simp: active_callbacks rbind_Done_iff dest: keeps_mem split: option.splits if_splits)+

lemma end_data_mem [simp]: "callback_mem client_do_expected_msg_text_or_end_msg_end_data"
  by (rule callback_memI)
    (auto simp: client_do_expected_msg_text_or_end_msg_end_data_def rbind_Done_iff dest!: keeps_mem
      split: option.splits if_splits list.splits)

lemma invalid_mem [simp]: "callback_mem client_do_invalid"
  by (rule callback_memI) (auto simp: client_do_invalid_def rbind_Done_iff dest: keeps_mem split: te_client_event.splits)

lemma table_callbacks_mem: "row \<in> set client_trans_table \<Longrightarrow> (n, f) \<in> set row \<Longrightarrow> callback_mem f"
proof -
  have "\<forall>row \<in> set client_trans_table. \<forall>(n, f) \<in> set row. callback_mem f"
    unfolding client_trans_table_def table_rows by simp
  then show "row \<in> set client_trans_table \<Longrightarrow> (n, f) \<in> set row \<Longrightarrow> callback_mem f" by blast
qed

lemma client_step_mem [keeps_mem]:
  assumes r: "client_step P s e c mi w = Done (s', c', w')" and w: "oom w = []"
  shows "oom w' = []"
proof (cases "live_state s")
  case False
  with r w show ?thesis by (auto simp: client_step_terminal)
next
  case live: True
  show ?thesis
  proof (cases "e = CLIENT_EV_INVALID")
    case True
    with live r have "client_do_invalid P c mi s CLIENT_ST_INVALID e w = Done (s', c', w')"
      by (simp add: client_step_live)
    with w show ?thesis using callback_memD [OF invalid_mem] by blast
  next
    case False
    obtain n f where nf: "client_trans_table ! state_no s ! event_no e = (n, f)" by force
    from live have "client_trans_table ! state_no s \<in> set client_trans_table"
      by (simp add: table_size live_state_def)
    moreover from False this have "(n, f) \<in> set (client_trans_table ! state_no s)"
      using nf table_size(2) event_no_valid [of e] by (metis nth_mem)
    ultimately have "callback_mem f" by (rule table_callbacks_mem)
    moreover have "f P c mi s n e w = Done (s', c', w')" using live False r nf by (simp add: client_step_live)
    ultimately show ?thesis using callback_memD w by blast
  qed
qed

lemma client_dispatch_mem [keeps_mem]: "client_dispatch P c line w = Done (s', c', w') \<Longrightarrow> oom w = [] \<Longrightarrow> oom w' = []"
  unfolding client_dispatch_def by (auto simp: rbind_Done_iff dest: keeps_mem split: if_splits prod.splits)

lemma process_recv_mem [keeps_mem]: "client_process_recv P c msg w = Done (e, c', msg', w') \<Longrightarrow> oom w = [] \<Longrightarrow> oom w' = []"
  by (auto simp: client_process_recv_def client_start_timeout_def rbind_Done_iff Let_def dest: keeps_mem split: prod.splits)

lemma process_send_mem [keeps_mem]: "client_process_send P c w = Done (e, c', w') \<Longrightarrow> oom w = [] \<Longrightarrow> oom w' = []"
  by (auto simp: client_process_send_def rbind_Done_iff Let_def dest: keeps_mem)

lemma check_timeout_mem [keeps_mem]: "client_process_check_timeout P c t w = Done (e, c', w') \<Longrightarrow> oom w = [] \<Longrightarrow> oom w' = []"
  by (auto simp: client_process_check_timeout_def rbind_Done_iff Let_def dest: keeps_mem split: prod.splits if_splits)

end
