(* ===== verification/Server_Poll.thy ===== *)
theory Server_Poll
  imports Server_Info Server_Memory "HOL-Library.Sublist"
begin

text \<open>
  One round of a worker over its ready connections, \<^verbatim>\<open>process_poll\<close> of
  \<^verbatim>\<open>server/src/smtp_server.c\<close>: which entry point of a session each ready descriptor calls,
  with one receive buffer shared by all connections of the round, and which connections are
  closed. The network is explicit: the pending results of \<^verbatim>\<open>recv\<close> and \<^verbatim>\<open>send\<close> per
  descriptor, the bytes sent, and the descriptors closed so far.
\<close>

unbundle bit_operations_syntax

section \<open>The network\<close>

record net =
  rin :: "int \<Rightarrow> recv_res list"
  sout :: "int \<Rightarrow> send_res list"
  wire :: "int \<Rightarrow> string"
  shut :: "int list"

definition live_session :: "client_ptr \<Rightarrow> client_t run" where
  "live_session c = (case c of Null \<Rightarrow> Fault Null_Deref | Freed \<Rightarrow> Fault Dangling | Live x \<Rightarrow> Done x)"

section \<open>One ready connection\<close>

text \<open>
  The result of handling one entry: whether a compression is needed, the entry, the shared
  buffer, the network and the world. \<open>hang_up\<close> is \<^verbatim>\<open>close\<close> with its log record.
\<close>

type_synonym entry_res = "bool \<times> (pollfd \<times> client_ptr) \<times> msg_t \<times> net \<times> world"

definition hang_up :: "pollfd \<Rightarrow> client_ptr \<Rightarrow> msg_t \<Rightarrow> net \<Rightarrow> world \<Rightarrow> entry_res" where
  "hang_up p c msg N w =
     (True, (p\<lparr>fd := -1\<rparr>, c), msg, N\<lparr>shut := shut N @ [fd p]\<rparr>, log_msg INFO ''smtp_server'' w)"

definition settle :: "pollfd \<Rightarrow> client_t \<Rightarrow> msg_t \<Rightarrow> net \<Rightarrow> world \<Rightarrow> entry_res" where
  "settle p c msg N w =
     (if closed c then hang_up p (Live c) msg N w
      else (False, (p\<lparr>events := if need_send c then POLLIN OR POLLOUT else POLLIN\<rparr>, Live c), msg, N, w))"

definition poll_in :: "pcre_lib \<Rightarrow> pollfd \<Rightarrow> client_ptr \<Rightarrow> msg_t \<Rightarrow> net \<Rightarrow> world \<Rightarrow> entry_res run" where
  "poll_in P p c msg N w =
     rbind (msg_recv_one msg (rin N (fd p)) w)
       (\<lambda>(e, is_closed, msg1, rs, w1).
          let N1 = N\<lparr>rin := (rin N)(fd p := rs)\<rparr> in
          if e \<noteq> CE_SUCCESS then Done (False, (p, c), msg1, N1, w1)
          else if is_closed then Done (hang_up p c msg1 N1 w1)
          else rbind (live_session c) (\<lambda>x.
            rbind (client_process_recv P x msg1 w1) (\<lambda>(_, x', msg2, w2). Done (settle p x' msg2 N1 w2))))"

definition poll_out :: "pcre_lib \<Rightarrow> pollfd \<Rightarrow> client_t \<Rightarrow> msg_t \<Rightarrow> net \<Rightarrow> world \<Rightarrow> entry_res run" where
  "poll_out P p x msg N w =
     rbind (msg_send_one (msg_for_sending x) (sout N (fd p)))
       (\<lambda>(e, m, ss, out).
          let N1 = N\<lparr>sout := (sout N)(fd p := ss), wire := (wire N)(fd p := wire N (fd p) @ out)\<rparr>;
              x1 = x\<lparr>msg_for_sending := m\<rparr> in
          if e \<noteq> CE_SUCCESS then Done (False, (p, Live x1), msg, N1, w)
          else if msize m \<noteq> 0 then Done (False, (p, Live x1), msg, N1, w)
          else rbind (client_process_send P x1 w) (\<lambda>(_, x2, w2). Done (settle p x2 msg N1 w2)))"

definition poll_entry :: "pcre_lib \<Rightarrow> nat \<Rightarrow> pollfd \<times> client_ptr \<Rightarrow> msg_t \<Rightarrow> net \<Rightarrow> world \<Rightarrow> entry_res run" where
  "poll_entry P tmo entry msg N w =
     (case entry of (p, c) \<Rightarrow>
      if revents p = 0 then Done (False, (p, c), msg, N, w)
      else if revents p AND POLLIN \<noteq> 0 then poll_in P p c msg N w
      else rbind (live_session c) (\<lambda>x.
        if revents p AND POLLOUT \<noteq> 0 \<and> need_send x then poll_out P p x msg N w
        else rbind (client_process_check_timeout P x tmo w) (\<lambda>(_, x', w1).
          Done (if closed x' then hang_up p (Live x') msg N w1 else (False, (p, Live x'), msg, N, w1)))))"

section \<open>The round\<close>

definition poll_at :: "pcre_lib \<Rightarrow> nat \<Rightarrow> server_info_t \<Rightarrow> msg_t \<Rightarrow> net \<Rightarrow> world
    \<Rightarrow> (bool \<times> server_info_t \<times> msg_t \<times> net \<times> world) run" where
  "poll_at P i s msg N w =
     (case (fds s, clients s) of
        (Some ps, Some cs) \<Rightarrow>
          if length ps \<le> i \<or> length cs \<le> i then Fault Out_Of_Bounds
          else rbind (poll_entry P (stimeout s) (ps ! i, cs ! i) msg N w)
            (\<lambda>(need, (p, c), msg1, N1, w1).
               Done (need, s\<lparr>fds := Some (ps[i := p]), clients := Some (cs[i := c])\<rparr>, msg1, N1, w1))
      | _ \<Rightarrow> Fault Null_Deref)"

text \<open>The loop over the entries \<open>is\<close>; the source runs over \<open>[0..<size]\<close>, and nothing in the loop changes the size.\<close>

fun poll_loop :: "pcre_lib \<Rightarrow> nat list \<Rightarrow> bool \<Rightarrow> server_info_t \<Rightarrow> msg_t \<Rightarrow> net \<Rightarrow> world
    \<Rightarrow> (bool \<times> server_info_t \<times> msg_t \<times> net \<times> world) run" where
  "poll_loop P [] need s msg N w = Done (need, s, msg, N, w)"
| "poll_loop P (i # is) need s msg N w =
     rbind (poll_at P i s msg N w) (\<lambda>(n1, s1, msg1, N1, w1). poll_loop P is (need \<or> n1) s1 msg1 N1 w1)"

definition process_poll :: "pcre_lib \<Rightarrow> server_info_t \<Rightarrow> net \<Rightarrow> world \<Rightarrow> (error_code \<times> server_info_t \<times> net \<times> world) run" where
  "process_poll P s N w =
     (let (e, msg, w1) = msg_init SMTP_TEXT_LINE_MAX_SIZE w in
      if e \<noteq> CE_SUCCESS then Done (CE_INIT_3RD, s, N, w1)
      else rbind (poll_loop P [0..<ssize s] False s msg N w1)
        (\<lambda>(need_compress, s1, _, N1, w2).
           if need_compress then rbind (server_info_compress s1) (\<lambda>s2. Done (CE_SUCCESS, s2, N1, w2))
           else Done (CE_SUCCESS, s1, N1, w2)))"

section \<open>What a round keeps\<close>

text \<open>
  An entry is in order when it has a live, well-formed session that is closed only if the
  descriptor is.
\<close>

definition conn_ok :: "pollfd \<times> client_ptr \<Rightarrow> bool" where
  "conn_ok x \<longleftrightarrow> (\<exists>c. snd x = Live c \<and> session_wf c \<and> NUL \<notin> set (domain (mail_writer c))
     \<and> (is_open x \<longrightarrow> \<not> closed c))"

text \<open>
  What handling an entry does to its descriptor: it stays, or the entry is marked closed, a
  compression is asked for and the descriptor is closed. Other descriptors are not touched.
\<close>

definition entry_kept :: "pollfd \<times> client_ptr \<Rightarrow> pollfd \<times> client_ptr \<Rightarrow> bool \<Rightarrow> net \<Rightarrow> net \<Rightarrow> bool" where
  "entry_kept y x need N N' \<longleftrightarrow>
     (fd (fst x) = fd (fst y) \<and> shut N' = shut N \<or> fd (fst x) = -1 \<and> need \<and> shut N' = shut N @ [fd (fst y)])
     \<and> (\<forall>d. d \<noteq> fd (fst y) \<longrightarrow> rin N' d = rin N d)"

lemma settle_ok:
  assumes "settle p c msg N w = (need, x, msg', N', w')" "session_wf c" "NUL \<notin> set (domain (mail_writer c))"
  shows "conn_ok x \<and> entry_kept (p, y) x need N N' \<and> msg' = msg \<and> oom w' = oom w"
  using assms by (auto simp: settle_def hang_up_def conn_ok_def entry_kept_def split: if_splits)

lemma entry_kept_frame: "entry_kept y x need N1 N' \<Longrightarrow> shut N1 = shut N \<Longrightarrow> (\<And>d. d \<noteq> fd (fst y) \<Longrightarrow> rin N1 d = rin N d) \<Longrightarrow>
    entry_kept y x need N N'"
  by (auto simp: entry_kept_def)

lemma client_process_recv_msg:
  assumes "client_process_recv P c msg w = Done (e, c', msg', w')"
  shows "content msg' = content msg" "msg_wf msg \<Longrightarrow> msg_wf msg'"
proof -
  obtain line where "msg_terminate msg = Done (line, msg')"
    using assms by (auto simp: client_process_recv_def rbind_Done_iff Let_def case_prod_beta)
  then show "content msg' = content msg" "msg_wf msg \<Longrightarrow> msg_wf msg'"
    by (auto simp: msg_terminate_def content_def msg_wf_def split: option.splits if_splits)
qed

lemma msg_recv_one_wf:
  assumes m: "msg_wf m" and r: "msg_recv_one m rs w = Done (e, c, m', rs', w')"
  shows "msg_wf m'" "oom w = [] \<Longrightarrow> w' = w \<and> content m' = content m @ concat (recv_chunks 100 rs)"
proof -
  have l: "mb.add_all m (recv_chunks 100 rs) w = Done (m', w')"
    using recv_loop_add_all r by (simp add: msg_recv_one_def)
  with mb.add_all_total [OF m, of "recv_chunks 100 rs" w] show "msg_wf m'" by auto
  show "w' = w \<and> content m' = content m @ concat (recv_chunks 100 rs)" if "oom w = []"
    using mb.add_all_concat [OF m that, of "recv_chunks 100 rs"] l by auto
qed

lemma msg_recv_one_ok:
  assumes "msg_wf m" "oom w = []"
  shows "\<exists>e c m' rs'. msg_recv_one m rs w = Done (e, c, m', rs', w) \<and> content m' = content m @ concat (recv_chunks 100 rs)"
proof -
  obtain r where "recv_loop 100 m rs w = Done r" using recv_loop_total [OF assms(1)] by blast
  with msg_recv_one_wf [OF assms(1), of rs w] assms(2) show ?thesis by (cases r) (auto simp: msg_recv_one_def)
qed

lemma session_next_entry:
  assumes "session_wf c" "NUL \<notin> set (domain (mail_writer c))" "session_next P c c'"
  shows "session_wf c' \<and> NUL \<notin> set (domain (mail_writer c'))"
  using session_next_keeps [OF assms] assms(2) by (simp add: session_keeps_def)

text \<open>The bytes an entry adds to the shared buffer: what its socket has, up to 100 chunks.\<close>

definition received :: "net \<Rightarrow> pollfd \<times> client_ptr \<Rightarrow> string" where
  "received N y = (if revents (fst y) AND POLLIN \<noteq> 0 then concat (recv_chunks 100 (rin N (fd (fst y)))) else [])"

lemma poll_in_ok:
  assumes "conn_ok (p, c)" "msg_wf msg" "poll_in P p c msg N w = Done (need, x, msg', N', w')"
  shows "conn_ok x \<and> entry_kept (p, c) x need N N' \<and> msg_wf msg'
    \<and> (oom w = [] \<longrightarrow> oom w' = [] \<and> content msg' = content msg @ concat (recv_chunks 100 (rin N (fd p))))"
proof -
  obtain y where c: "c = Live y" "session_wf y" "NUL \<notin> set (domain (mail_writer y))"
    using assms(1) by (auto simp: conn_ok_def)
  obtain e cl msg1 rs w1 where r: "msg_recv_one msg (rin N (fd p)) w = Done (e, cl, msg1, rs, w1)"
    using assms(3) by (auto simp: poll_in_def rbind_Done_iff)
  note b = msg_recv_one_wf [OF assms(2) r]
  define N1 where "N1 = N\<lparr>rin := (rin N)(fd p := rs)\<rparr>"
  have N1: "shut N1 = shut N" "\<And>d. d \<noteq> fd p \<Longrightarrow> rin N1 d = rin N d" by (simp_all add: N1_def)
  show ?thesis
  proof (cases "e = CE_SUCCESS \<and> \<not> cl")
    case False
    have "poll_in P p c msg N w = Done (if e \<noteq> CE_SUCCESS then (False, (p, c), msg1, N1, w1) else hang_up p c msg1 N1 w1)"
      using False r by (auto simp: poll_in_def Let_def N1_def)
    then consider "(False, (p, c), msg1, N1, w1) = (need, x, msg', N', w')" | "hang_up p c msg1 N1 w1 = (need, x, msg', N', w')"
      using assms(3) by (auto split: if_splits)
    then show ?thesis
    proof cases
      case 1
      with assms(1) b N1 show ?thesis by (auto simp: entry_kept_def)
    next
      case 2
      then have "x = (p\<lparr>fd := -1\<rparr>, c)" "need" "msg' = msg1" "N' = N1\<lparr>shut := shut N1 @ [fd p]\<rparr>" "oom w' = oom w1"
        by (auto simp: hang_up_def)
      with c b N1 show ?thesis by (simp add: entry_kept_def conn_ok_def)
    qed
  next
    case True
    from True assms(3) r c(1) obtain e2 y' msg2 w2 where
      v: "client_process_recv P y msg1 w1 = Done (e2, y', msg2, w2)"
        "settle p y' msg2 (N\<lparr>rin := (rin N)(fd p := rs)\<rparr>) w2 = (need, x, msg', N', w')"
      by (auto simp: poll_in_def Let_def live_session_def rbind_Done_iff)
    from v(1) have "session_next P y y'" by (rule session_next.recv)
    with session_next_entry [OF c(2,3)] have "session_wf y'" "NUL \<notin> set (domain (mail_writer y'))" by blast+
    note k = settle_ok [OF v(2) [folded N1_def] this, of c]
    then have "entry_kept (p, c) x need N1 N'" by blast
    then have "entry_kept (p, c) x need N N'" by (rule entry_kept_frame) (use N1 in simp_all)
    with k client_process_recv_msg [OF v(1)] b process_recv_mem [OF v(1)] show ?thesis by auto
  qed
qed

lemma poll_out_ok:
  assumes "conn_ok (p, Live y)" "poll_out P p y msg N w = Done (need, x, msg', N', w')"
  shows "conn_ok x \<and> entry_kept (p, Live y) x need N N' \<and> msg' = msg \<and> (oom w = [] \<longrightarrow> oom w' = [])"
proof -
  have y: "session_wf y" "NUL \<notin> set (domain (mail_writer y))" "is_open (p, Live y) \<longrightarrow> \<not> closed y"
    using assms(1) by (auto simp: conn_ok_def)
  obtain e m ss out where r: "msg_send_one (msg_for_sending y) (sout N (fd p)) = Done (e, m, ss, out)"
    using assms(2) by (auto simp: poll_out_def rbind_Done_iff)
  let ?y = "y\<lparr>msg_for_sending := m\<rparr>"
  have sw: "msg_wf (msg_for_sending y)" "NUL \<notin> set (content (msg_for_sending y))" using y(1) by (simp_all add: session_wf_def)
  from send_loop_conserves [OF this, of 500 "sout N (fd p)"] r have "msg_wf m" "out @ content m = content (msg_for_sending y)"
    by (auto simp: msg_send_one_def)
  moreover from this(2) sw(2) have "NUL \<notin> set (content m)" by (metis Un_iff set_append)
  ultimately have y1: "session_wf ?y" "NUL \<notin> set (domain (mail_writer ?y))" using y by (simp_all add: session_wf_def)
  define N1 where "N1 = N\<lparr>sout := (sout N)(fd p := ss), wire := (wire N)(fd p := wire N (fd p) @ out)\<rparr>"
  have N1: "shut N1 = shut N" "rin N1 = rin N" by (simp_all add: N1_def)
  show ?thesis
  proof (cases "e = CE_SUCCESS \<and> msize m = 0")
    case False
    then have "poll_out P p y msg N w = Done (False, (p, Live ?y), msg, N1, w)"
      using r by (auto simp: poll_out_def Let_def N1_def)
    then have "need = False" "x = (p, Live ?y)" "msg' = msg" "N' = N1" "w' = w" using assms(2) by auto
    with y y1 N1 show ?thesis by (simp add: conn_ok_def entry_kept_def)
  next
    case True
    with assms(2) r obtain e2 y' w2 where
      v: "client_process_send P ?y w = Done (e2, y', w2)"
        "settle p y' msg (N\<lparr>sout := (sout N)(fd p := ss), wire := (wire N)(fd p := wire N (fd p) @ out)\<rparr>) w2
           = (need, x, msg', N', w')"
      by (auto simp: poll_out_def Let_def rbind_Done_iff)
    from v(1) have "session_next P ?y y'" by (rule session_next.send)
    with session_next_entry [OF y1] have "session_wf y'" "NUL \<notin> set (domain (mail_writer y'))" by blast+
    note k = settle_ok [OF v(2) [folded N1_def] this, of "Live y"]
    then have "entry_kept (p, Live y) x need N1 N'" by blast
    then have "entry_kept (p, Live y) x need N N'" by (rule entry_kept_frame) (use N1 in simp_all)
    with k process_send_mem [OF v(1)] show ?thesis by simp
  qed
qed

lemma check_timeout_closed:
  assumes "session_wf c" "NUL \<notin> set (domain (mail_writer c))" "client_process_check_timeout P c t w = Done (e, c', w')"
  shows "closed c' = closed c"
  using assms by (auto simp: client_process_check_timeout_def rbind_Done_iff Let_def session_le_def case_prod_beta
      dest!: client_step_le [OF assms(1,2)] split: if_splits)

lemma poll_entry_ok:
  assumes e: "conn_ok y" and m: "msg_wf msg" and r: "poll_entry P t y msg N w = Done (need, x, msg', N', w')"
  shows "conn_ok x \<and> entry_kept y x need N N' \<and> msg_wf msg'
    \<and> (oom w = [] \<longrightarrow> oom w' = [] \<and> content msg' = content msg @ received N y)"
proof -
  obtain p c where y: "y = (p, Live c)" "session_wf c" "NUL \<notin> set (domain (mail_writer c))"
    using e by (cases y) (auto simp: conn_ok_def)
  consider (idle) "revents p = 0" | (inp) "revents p \<noteq> 0" "revents p AND POLLIN \<noteq> 0"
    | (out) "revents p \<noteq> 0" "revents p AND POLLIN = 0" "revents p AND POLLOUT \<noteq> 0 \<and> need_send c"
    | (tmo) "revents p \<noteq> 0" "revents p AND POLLIN = 0" "\<not> (revents p AND POLLOUT \<noteq> 0 \<and> need_send c)" by blast
  then show ?thesis
  proof cases
    case idle
    with e m r y show ?thesis by (auto simp: poll_entry_def entry_kept_def received_def)
  next
    case inp
    with r y have "poll_in P p (Live c) msg N w = Done (need, x, msg', N', w')" by (simp add: poll_entry_def)
    with poll_in_ok [OF e [unfolded y] m] y inp show ?thesis by (simp add: received_def)
  next
    case out
    with r y have "poll_out P p c msg N w = Done (need, x, msg', N', w')" by (simp add: poll_entry_def live_session_def)
    from poll_out_ok [OF e [unfolded y] this] y m out show ?thesis by (simp add: received_def)
  next
    case tmo
    with r y obtain e1 c1 w1 where t: "client_process_check_timeout P c t w = Done (e1, c1, w1)"
      "(if closed c1 then hang_up p (Live c1) msg N w1 else (False, (p, Live c1), msg, N, w1)) = (need, x, msg', N', w')"
      by (auto simp add: poll_entry_def live_session_def rbind_Done_iff simp del: if_split_eq1 split del: if_split)
    from t(1) have "session_next P c c1" by (rule session_next.check_timeout)
    with session_next_entry [OF y(2,3)] t m tmo check_timeout_mem [OF t(1)] show ?thesis
      by (auto simp: conn_ok_def hang_up_def y entry_kept_def received_def split: if_splits)
  qed
qed

text \<open>The table with its sessions in order.\<close>

definition table_ok :: "server_info_t \<Rightarrow> bool" where
  "table_ok s \<longleftrightarrow> table_wf s \<and> list_all conn_ok (conns s)"

lemma conns_update:
  assumes wf: "table_wf s" and i: "i < ssize s" and t: "fds s = Some ps" "clients s = Some cs"
  shows "conns (s\<lparr>fds := Some (ps[i := p]), clients := Some (cs[i := c])\<rparr>) = (conns s)[i := (p, c)]"
    and "c = Live x \<Longrightarrow> table_wf (s\<lparr>fds := Some (ps[i := p]), clients := Some (cs[i := c])\<rparr>)"
proof -
  let ?s = "s\<lparr>fds := Some (ps[i := p]), clients := Some (cs[i := c])\<rparr>"
  show cn: "conns ?s = (conns s)[i := (p, c)]"
    using t i by (simp add: conns_def zip_update take_update_swap)
  assume "c = Live x"
  then have "\<forall>y \<in> set ((conns s)[i := (p, c)]). \<exists>z. snd y = Live z"
    using live_conns [OF wf] by (auto dest!: subsetD [OF set_update_subset_insert])
  with wf t show "table_wf ?s" unfolding table_wf_def cn by simp
qed

lemma poll_at_ok:
  assumes ok: "table_ok s" and i: "i < ssize s" and m: "msg_wf msg" and r: "poll_at P i s msg N w = Done (need, s', msg', N', w')"
  obtains x where "poll_entry P (stimeout s) (conns s ! i) msg N w = Done (need, x, msg', N', w')"
    "table_ok s'" "conns s' = (conns s)[i := x]" "ssize s' = ssize s" "smax_size s' = smax_size s" "stimeout s' = stimeout s"
    "entry_kept (conns s ! i) x need N N'" "msg_wf msg'"
    "oom w = [] \<Longrightarrow> oom w' = [] \<and> content msg' = content msg @ received N (conns s ! i)"
proof -
  have wf: "table_wf s" and all: "list_all conn_ok (conns s)" using ok by (auto simp: table_ok_def)
  obtain ps cs where t: "fds s = Some ps" "clients s = Some cs" using wf by (rule table_wfE)
  have ci: "conns s ! i = (ps ! i, cs ! i)" "length (conns s) = ssize s" using conns_nth [OF wf i t] by blast+
  obtain p c where e: "poll_entry P (stimeout s) (ps ! i, cs ! i) msg N w = Done (need, (p, c), msg', N', w')"
    and s': "s' = s\<lparr>fds := Some (ps[i := p]), clients := Some (cs[i := c])\<rparr>"
    using r t by (auto simp: poll_at_def rbind_Done_iff split: if_splits)
  have "conn_ok (ps ! i, cs ! i)" using all i ci by (metis list_all_length)
  note k = poll_entry_ok [OF this m e]
  then obtain x where x: "c = Live x" by (auto simp: conn_ok_def)
  have cn: "conns s' = (conns s)[i := (p, c)]" unfolding s' by (rule conns_update(1) [OF wf i t])
  moreover have "table_wf s'" unfolding s' by (rule conns_update(2) [OF wf i t x])
  moreover have "list_all conn_ok (conns s')"
    unfolding cn using all k by (auto simp: list_all_iff dest!: subsetD [OF set_update_subset_insert])
  ultimately show thesis
    using e k ci s' by (intro that [of "(p, c)"]) (simp_all add: table_ok_def)
qed

text \<open>What the loop keeps, for any set of entries.\<close>

lemma poll_loop_ok:
  "table_ok s \<Longrightarrow> msg_wf msg \<Longrightarrow> set is \<subseteq> {..<ssize s} \<Longrightarrow> poll_loop P is need s msg N w = Done (need', s', msg', N', w') \<Longrightarrow>
     table_ok s' \<and> ssize s' = ssize s \<and> smax_size s' = smax_size s \<and> stimeout s' = stimeout s \<and> msg_wf msg' \<and> (need \<longrightarrow> need')
   \<and> (\<forall>k < ssize s. fd (fst (conns s' ! k)) = fd (fst (conns s ! k)) \<or> fd (fst (conns s' ! k)) = -1 \<and> need')
   \<and> (\<forall>k < ssize s. k \<notin> set is \<longrightarrow> conns s' ! k = conns s ! k)"
proof (induction "is" arbitrary: need s msg N w)
  case Nil
  then show ?case by simp
next
  case (Cons i "is")
  from Cons.prems(4) obtain n1 s1 msg1 N1 w1 where
    a: "poll_at P i s msg N w = Done (n1, s1, msg1, N1, w1)" and
    l: "poll_loop P is (need \<or> n1) s1 msg1 N1 w1 = Done (need', s', msg', N', w')"
    by (auto simp: rbind_Done_iff)
  have i: "i < ssize s" using Cons.prems(3) by simp
  have len: "length (conns s) = ssize s" using Cons.prems(1) by (auto simp: table_ok_def elim!: table_wfE)
  obtain x where x: "table_ok s1" "conns s1 = (conns s)[i := x]" "ssize s1 = ssize s" "smax_size s1 = smax_size s"
    "stimeout s1 = stimeout s" "entry_kept (conns s ! i) x n1 N N1" "msg_wf msg1"
    by (rule poll_at_ok [OF Cons.prems(1) i Cons.prems(2) a])
  have "set is \<subseteq> {..<ssize s1}" using Cons.prems(3) x(3) by simp
  note ih = Cons.IH [OF x(1,7) this l]
  have "fd (fst (conns s' ! k)) = fd (fst (conns s ! k)) \<or> fd (fst (conns s' ! k)) = -1 \<and> need'" if "k < ssize s" for k
    using ih x(2,3,6) that len by (cases "k = i") (auto simp: nth_list_update entry_kept_def)
  moreover have "conns s' ! k = conns s ! k" if "k < ssize s" "k \<notin> set (i # is)" for k
    using ih x(2,3) that len by (simp add: nth_list_update)
  ultimately show ?case using ih x(3-5) by auto
qed

text \<open>The descriptors a round closes are exactly those of the entries it marks, in their order.\<close>

lemma poll_loop_closes:
  "table_ok s \<Longrightarrow> msg_wf msg \<Longrightarrow> set is \<subseteq> {..<ssize s} \<Longrightarrow> distinct is \<Longrightarrow> \<forall>k \<in> set is. is_open (conns s ! k) \<Longrightarrow>
     poll_loop P is need s msg N w = Done (need', s', msg', N', w') \<Longrightarrow>
     shut N' = shut N @ map (\<lambda>k. fd (fst (conns s ! k))) (filter (\<lambda>k. \<not> is_open (conns s' ! k)) is)"
proof (induction "is" arbitrary: need s msg N w)
  case Nil
  then show ?case by simp
next
  case (Cons i "is")
  from Cons.prems(6) obtain n1 s1 msg1 N1 w1 where
    a: "poll_at P i s msg N w = Done (n1, s1, msg1, N1, w1)" and
    l: "poll_loop P is (need \<or> n1) s1 msg1 N1 w1 = Done (need', s', msg', N', w')"
    by (auto simp: rbind_Done_iff)
  have i: "i < ssize s" "i \<notin> set is" "is_open (conns s ! i)" using Cons.prems(3-5) by simp_all
  have len: "length (conns s) = ssize s" using Cons.prems(1) by (auto simp: table_ok_def elim!: table_wfE)
  obtain x where x: "table_ok s1" "conns s1 = (conns s)[i := x]" "ssize s1 = ssize s"
    "entry_kept (conns s ! i) x n1 N N1" "msg_wf msg1"
    by (rule poll_at_ok [OF Cons.prems(1) i(1) Cons.prems(2) a])
  have is1: "set is \<subseteq> {..<ssize s1}" "\<forall>k \<in> set is. is_open (conns s1 ! k)" "distinct is"
    and old: "\<And>k. k \<in> set is \<Longrightarrow> conns s1 ! k = conns s ! k"
    using Cons.prems(3-5) i(2) x(2,3) len by (auto simp: nth_list_update)
  have "conns s' ! i = x" using poll_loop_ok [OF x(1,5) is1(1) l] i x(2,3) len by simp
  then have hd: "shut N1 = shut N @ (if is_open (conns s' ! i) then [] else [fd (fst (conns s ! i))])"
    using x(4) i(3) by (auto simp: entry_kept_def)
  have "map (\<lambda>k. fd (fst (conns s1 ! k))) (filter Q is) = map (\<lambda>k. fd (fst (conns s ! k))) (filter Q is)" for Q
    using old by simp
  then show ?case using Cons.IH [OF x(1,5) is1(1,3,2) l] hd by simp
qed

text \<open>The shared buffer collects what every entry of the round receives.\<close>

lemma poll_loop_reads:
  "table_ok s \<Longrightarrow> msg_wf msg \<Longrightarrow> set is \<subseteq> {..<ssize s} \<Longrightarrow> oom w = [] \<Longrightarrow> distinct is \<Longrightarrow>
     distinct (map (\<lambda>k. fd (fst (conns s ! k))) is) \<Longrightarrow>
     poll_loop P is need s msg N w = Done (need', s', msg', N', w') \<Longrightarrow>
     oom w' = [] \<and> content msg' = content msg @ concat (map (\<lambda>k. received N (conns s ! k)) is)
     \<and> (\<forall>d. d \<notin> (\<lambda>k. fd (fst (conns s ! k))) ` set is \<longrightarrow> rin N' d = rin N d)"
proof (induction "is" arbitrary: need s msg N w)
  case Nil
  then show ?case by simp
next
  case (Cons i "is")
  from Cons.prems(7) obtain n1 s1 msg1 N1 w1 where
    a: "poll_at P i s msg N w = Done (n1, s1, msg1, N1, w1)" and
    l: "poll_loop P is (need \<or> n1) s1 msg1 N1 w1 = Done (need', s', msg', N', w')"
    by (auto simp: rbind_Done_iff)
  have i: "i < ssize s" "i \<notin> set is" using Cons.prems(3,5) by simp_all
  have len: "length (conns s) = ssize s" using Cons.prems(1) by (auto simp: table_ok_def elim!: table_wfE)
  obtain x where x: "table_ok s1" "conns s1 = (conns s)[i := x]" "ssize s1 = ssize s"
    "entry_kept (conns s ! i) x n1 N N1" "msg_wf msg1" "oom w1 = []" "content msg1 = content msg @ received N (conns s ! i)"
    using poll_at_ok [OF Cons.prems(1) i(1) Cons.prems(2) a] Cons.prems(4) by metis
  have old: "conns s1 ! k = conns s ! k" if "k \<in> set is" for k using x(2) that i(2) by (cases "k = i") simp_all
  have keep: "rin N1 d = rin N d" if "d \<noteq> fd (fst (conns s ! i))" for d
    using x(4) that by (simp add: entry_kept_def)
  have fds: "map (\<lambda>k. fd (fst (conns s1 ! k))) is = map (\<lambda>k. fd (fst (conns s ! k))) is"
    and img: "(\<lambda>k. fd (fst (conns s1 ! k))) ` set is = (\<lambda>k. fd (fst (conns s ! k))) ` set is"
    using old by simp_all
  have rx: "received N1 (conns s1 ! k) = received N (conns s ! k)" if "k \<in> set is" for k
  proof -
    have "fd (fst (conns s ! i)) \<notin> (\<lambda>k. fd (fst (conns s ! k))) ` set is" using Cons.prems(6) by simp
    then have "fd (fst (conns s ! k)) \<noteq> fd (fst (conns s ! i))" using that by (metis image_eqI)
    then show ?thesis using old [OF that] keep by (simp add: received_def)
  qed
  have "set is \<subseteq> {..<ssize s1}" "distinct is" "distinct (map (\<lambda>k. fd (fst (conns s1 ! k))) is)"
    using Cons.prems(3,5,6) x(3) unfolding fds by simp_all
  note ih = Cons.IH [OF x(1,5) this(1) x(6) this(2,3) l]
  have all: "map (\<lambda>k. received N1 (conns s1 ! k)) is = map (\<lambda>k. received N (conns s ! k)) is" using rx by simp
  show ?case using ih x(7) keep unfolding all img by simp
qed

section \<open>A round over the table\<close>

text \<open>The descriptors closed in a round that turned the table \<open>s\<close> into \<open>s1\<close>.\<close>

definition closed_in :: "server_info_t \<Rightarrow> server_info_t \<Rightarrow> int list" where
  "closed_in s s1 = map (\<lambda>k. fd (fst (conns s ! k))) (filter (\<lambda>k. \<not> is_open (conns s1 ! k)) [0..<ssize s])"

lemma process_poll_loop:
  assumes ok: "table_ok s" and op: "list_all is_open (conns s)"
    and m: "msg_init SMTP_TEXT_LINE_MAX_SIZE w = (CE_SUCCESS, msg, w1)"
    and l: "poll_loop P [0..<ssize s] False s msg N w1 = Done (need, s1, msg1, N1, w2)"
  shows "table_ok s1" "length (conns s1) = length (conns s)"
    "\<forall>k < length (conns s). fd (fst (conns s1 ! k)) = fd (fst (conns s ! k)) \<or> fd (fst (conns s1 ! k)) = -1"
    "shut N1 = shut N @ closed_in s s1" "smax_size s1 = smax_size s"
    "if isolated (conns s1)
     then (if ssize s = smax_size s \<and> last_closed (conns s1) then process_poll P s N w = Fault Out_Of_Bounds
           else \<exists>s'. process_poll P s N w = Done (CE_SUCCESS, s', N1, w2) \<and> table_ok s' \<and> conns s' = filter is_open (conns s1))
     else process_poll P s N w \<in> {Fault Null_Deref, Fault Out_Of_Bounds}
       \<or> (\<exists>s'. process_poll P s N w = Done (CE_SUCCESS, s', N1, w2) \<and> clients s' = None)"
proof -
  have mw: "msg_wf msg" using m by (auto dest: msg_init_cases)
  have len: "length (conns s) = ssize s" using ok by (auto simp: table_ok_def elim!: table_wfE)
  have k: "table_ok s1" "ssize s1 = ssize s" "smax_size s1 = smax_size s"
    "\<forall>k < ssize s. fd (fst (conns s1 ! k)) = fd (fst (conns s ! k)) \<or> fd (fst (conns s1 ! k)) = -1 \<and> need"
    using poll_loop_ok [OF ok mw _ l] by (simp_all add: subset_eq)
  show "table_ok s1" "smax_size s1 = smax_size s" using k by simp_all
  show len1: "length (conns s1) = length (conns s)" using k(1,2) len by (auto simp: table_ok_def elim!: table_wfE)
  show "\<forall>k < length (conns s). fd (fst (conns s1 ! k)) = fd (fst (conns s ! k)) \<or> fd (fst (conns s1 ! k)) = -1"
    using k(4) len by auto
  show "shut N1 = shut N @ closed_in s s1"
    using poll_loop_closes [OF ok mw _ _ _ l] op len by (simp add: closed_in_def subset_eq list_all_length)
  have r: "process_poll P s N w = (if need then rbind (server_info_compress s1) (\<lambda>s2. Done (CE_SUCCESS, s2, N1, w2))
      else Done (CE_SUCCESS, s1, N1, w2))" using m l by (simp add: process_poll_def)
  show "if isolated (conns s1)
     then (if ssize s = smax_size s \<and> last_closed (conns s1) then process_poll P s N w = Fault Out_Of_Bounds
           else \<exists>s'. process_poll P s N w = Done (CE_SUCCESS, s', N1, w2) \<and> table_ok s' \<and> conns s' = filter is_open (conns s1))
     else process_poll P s N w \<in> {Fault Null_Deref, Fault Out_Of_Bounds}
       \<or> (\<exists>s'. process_poll P s N w = Done (CE_SUCCESS, s', N1, w2) \<and> clients s' = None)"
  proof (cases need)
    case False
    then have o: "list_all is_open (conns s1)" using k(4) op len len1 by (simp add: list_all_length)
    then have "isolated (conns s1)" "\<not> last_closed (conns s1)" "filter is_open (conns s1) = conns s1"
      by (auto simp: isolated_open list_all_iff last_closed_def)
    with r False k(1) show ?thesis by simp
  next
    case True
    have wf: "table_wf s1" using k(1) by (simp add: table_ok_def)
    have ok': "table_ok s'" if "table_wf s'" "conns s' = filter is_open (conns s1)" for s'
      using that k(1) by (auto simp: table_ok_def list_all_iff)
    from compress_outcome [OF wf] r True k(2,3) show ?thesis
      by (auto simp: ok' split: if_splits)
  qed
qed

text \<open>
  C15: a round of \<open>process_poll\<close> whose handling of the ready connections returns: every entry
  still has a live, well-formed session, which is not closed where the descriptor is open;
  descriptors are those of before, or -1 where the connection was closed in this round, and
  exactly these descriptors were closed. If no two neighbouring entries were closed, the
  round ends with exactly the open connections in their order (but where the last entry of a
  full table is the only closed one, the compression reads behind the table). If two
  neighbours were closed, the compression faults or the session array is lost.
\<close>

theorem process_poll_keeps_connections:
  assumes "table_ok s" and "list_all is_open (conns s)"
    and "msg_init SMTP_TEXT_LINE_MAX_SIZE w = (CE_SUCCESS, msg, w1)"
    and "poll_loop P [0..<ssize s] False s msg N w1 = Done (need, s1, msg1, N1, w2)"
  shows "table_ok s1 \<and> length (conns s1) = length (conns s)
    \<and> (\<forall>k < length (conns s). fd (fst (conns s1 ! k)) = fd (fst (conns s ! k)) \<or> fd (fst (conns s1 ! k)) = -1)
    \<and> shut N1 = shut N @ closed_in s s1
    \<and> (if isolated (conns s1)
       then (if ssize s = smax_size s \<and> last_closed (conns s1) then process_poll P s N w = Fault Out_Of_Bounds
             else \<exists>s'. process_poll P s N w = Done (CE_SUCCESS, s', N1, w2) \<and> table_ok s' \<and> conns s' = filter is_open (conns s1))
       else process_poll P s N w \<in> {Fault Null_Deref, Fault Out_Of_Bounds}
         \<or> (\<exists>s'. process_poll P s N w = Done (CE_SUCCESS, s', N1, w2) \<and> clients s' = None))"
  using process_poll_loop [OF assms] by blast

text \<open>The runs of a round that return.\<close>

lemma process_poll_Done:
  assumes ok: "table_ok s" and op: "list_all is_open (conns s)" and r: "process_poll P s N w = Done (e, s', N', w')" and w: "oom w = []"
  obtains s1 where "length (conns s1) = length (conns s)"
      "\<forall>k < length (conns s). fd (fst (conns s1 ! k)) = fd (fst (conns s ! k)) \<or> fd (fst (conns s1 ! k)) = -1"
      "shut N' = shut N @ closed_in s s1" "table_ok s' \<and> conns s' = filter is_open (conns s1) \<or> clients s' = None"
proof -
  obtain msg where m: "msg_init SMTP_TEXT_LINE_MAX_SIZE w = (CE_SUCCESS, msg, w)" using w by auto
  from r m obtain need s1 msg1 w2 where l: "poll_loop P [0..<ssize s] False s msg N w = Done (need, s1, msg1, N', w2)"
    by (auto simp: process_poll_def rbind_Done_iff split: if_splits)
  note k = process_poll_loop [OF ok op m l]
  have "table_ok s' \<and> conns s' = filter is_open (conns s1) \<or> clients s' = None"
    using k(6) r by (cases "isolated (conns s1)") (auto split: if_splits)
  with k that show thesis by blast
qed

text \<open>
  C25: the receive buffer is shared by all connections of a round and not emptied between
  them. When the loop reaches entry \<open>i\<close>, the buffer holds what it held at the start of the
  round followed by every byte received from the entries before, those being closed
  included, in their order; and if entry \<open>i\<close> has data, the line its session is given
  consists of all this followed by its own bytes. (Descriptors are distinct, and memory
  suffices.)
\<close>

theorem poll_mixes_connections:
  assumes ok: "table_ok s" and i: "i < ssize s" and m: "msg_wf msg" and mem: "oom w = []"
    and dis: "distinct (map (fd \<circ> fst) (conns s))"
    and l: "poll_loop P [0..<i] need s msg N w = Done (need', s1, msg1, N1, w1)"
    and c: "conns s ! i = (p, Live c)" "revents p AND POLLIN \<noteq> 0"
  shows "content msg1 = content msg @ concat (map (received N) (take i (conns s)))
    \<and> (\<exists>e cl line rs. msg_recv_one msg1 (rin N (fd p)) w1 = Done (e, cl, line, rs, w1)
       \<and> content line = content msg @ concat (map (received N) (take (Suc i) (conns s)))
       \<and> (e = CE_SUCCESS \<and> \<not> cl \<longrightarrow> poll_entry P (stimeout s1) (conns s1 ! i) msg1 N1 w1
            = rbind (client_process_recv P c line w1) (\<lambda>(_, c', line', w2). Done (settle p c' line' (N1\<lparr>rin := (rin N1)(fd p := rs)\<rparr>) w2))))"
proof -
  have len: "length (conns s) = ssize s" using ok by (auto simp: table_ok_def elim!: table_wfE)
  have sub: "set [0..<i] \<subseteq> {..<ssize s}" using i by (simp add: subset_eq)
  have pre: "map (\<lambda>k. f (conns s ! k)) [0..<i] = map f (take i (conns s))" for f :: "_ \<Rightarrow> 'b"
    using i len by (intro nth_equalityI) simp_all
  have "distinct (map (fd \<circ> fst) (take i (conns s)))" using dis by (simp flip: take_map add: distinct_take)
  then have d: "distinct (map (\<lambda>k. fd (fst (conns s ! k))) [0..<i])" using pre [of "fd \<circ> fst"] by (simp add: comp_def)
  note k = poll_loop_ok [OF ok m sub l] and rd = poll_loop_reads [OF ok m sub mem _ d l]
  have c1: "conns s1 ! i = (p, Live c)" using k i c(1) by simp
  have "fd p \<notin> (\<lambda>k. fd (fst (conns s ! k))) ` set [0..<i]"
  proof
    assume "fd p \<in> (\<lambda>k. fd (fst (conns s ! k))) ` set [0..<i]"
    then obtain j where "j < i" "fd (fst (conns s ! j)) = fd (fst (conns s ! i))" using c(1) by auto
    with nth_eq_iff_index_eq [OF dis, of j i] i len show False by simp
  qed
  then have own: "rin N1 (fd p) = rin N (fd p)" using rd by simp
  have m1: "msg_wf msg1" "oom w1 = []" using k rd by simp_all
  have all: "content msg1 = content msg @ concat (map (received N) (take i (conns s)))" using rd by (simp add: pre)
  from msg_recv_one_ok [OF m1] obtain e cl line rs where
    r: "msg_recv_one msg1 (rin N (fd p)) w1 = Done (e, cl, line, rs, w1)"
      "content line = content msg1 @ concat (recv_chunks 100 (rin N (fd p)))" by blast
  have "revents p \<noteq> 0" using c(2) by (cases "revents p = 0") simp_all
  then have "e = CE_SUCCESS \<and> \<not> cl \<longrightarrow> poll_entry P (stimeout s1) (conns s1 ! i) msg1 N1 w1
      = rbind (client_process_recv P c line w1) (\<lambda>(_, c', line', w2). Done (settle p c' line' (N1\<lparr>rin := (rin N1)(fd p := rs)\<rparr>) w2))"
    using c(2) c1 r(1) own by (simp add: poll_entry_def poll_in_def live_session_def)
  moreover have "content line = content msg @ concat (map (received N) (take (Suc i) (conns s)))"
    using r(2) all c i len by (simp add: take_Suc_conv_app_nth) (simp add: received_def)
  ultimately show ?thesis using r(1) all by blast
qed

section \<open>Examples\<close>

definition ready_table :: server_info_t where
  "ready_table = (table_of [4, 6] 1)\<lparr>fds := Some [\<lparr>fd = 4, events = 1, revents = 1\<rparr>, \<lparr>fd = 6, events = 1, revents = 1\<rparr>,
     \<lparr>fd = -1, events = 0, revents = 0\<rparr>]\<rparr>"

definition ready_net :: net where
  "ready_net = \<lparr>rin = (\<lambda>_. [])(4 := [Recv_bytes (''RSET'' @ CRLF), Recv_closed], 6 := [Recv_bytes (''QUIT'' @ CRLF)]),
     sout = (\<lambda>_. []), wire = (\<lambda>_. []), shut = []\<rparr>"

lemma blank_conn_ok: "NUL \<notin> set (domain (mail_writer blank_client))" "\<not> closed blank_client"
  by (simp_all add: blank_client_def mw_example_def)

lemma ready_table_ok: "table_ok ready_table" "conns ready_table
    = [(\<lparr>fd = 4, events = 1, revents = 1\<rparr>, Live blank_client), (\<lparr>fd = 6, events = 1, revents = 1\<rparr>, Live blank_client)]"
proof -
  show c: "conns ready_table
    = [(\<lparr>fd = 4, events = 1, revents = 1\<rparr>, Live blank_client), (\<lparr>fd = 6, events = 1, revents = 1\<rparr>, Live blank_client)]"
    by (simp add: ready_table_def table_of_def conns_def)
  show "table_ok ready_table"
    unfolding table_ok_def table_wf_def c using blank_client_wf blank_conn_ok
    by (simp add: conn_ok_def ready_table_def table_of_def)
qed

theorem poll_mixes_connections_witness:
  "\<exists>need s1 msg1 N1 w1 line. poll_loop no_match [0..<1] False ready_table (buffer_with []) ready_net plenty = Done (need, s1, msg1, N1, w1)
     \<and> shut N1 = [4] \<and> content line = ''RSET'' @ CRLF @ ''QUIT'' @ CRLF
     \<and> msg_recv_one msg1 [Recv_bytes (''QUIT'' @ CRLF)] w1 = Done (CE_SUCCESS, False, line, [], w1)
     \<and> poll_entry no_match (stimeout s1) (conns s1 ! 1) msg1 N1 w1 = rbind (client_process_recv no_match blank_client line w1)
         (\<lambda>(_, c', line', w2). Done (settle \<lparr>fd = 6, events = 1, revents = 1\<rparr> c' line' (N1\<lparr>rin := (rin N1)(6 := [])\<rparr>) w2))"
proof -
  define N1 where "N1 = ready_net\<lparr>rin := (rin ready_net)(4 := []), shut := [4]\<rparr>"
  define s1 where "s1 = ready_table\<lparr>fds := Some [\<lparr>fd = -1, events = 1, revents = 1\<rparr>, \<lparr>fd = 6, events = 1, revents = 1\<rparr>,
     \<lparr>fd = -1, events = 0, revents = 0\<rparr>]\<rparr>"
  define w1 where "w1 = log_msg INFO ''smtp_server'' plenty"
  have "\<exists>m. msg_recv_one (buffer_with []) (rin ready_net 4) plenty = Done (CE_SUCCESS, True, m, [], plenty) \<and> content m = ''RSET'' @ CRLF"
    by (simp add: msg_recv_one_def ready_net_def buffer_with_def msg_add_text_def msg_resize_def memcpy_at_def blit_def
        content_def plenty_def eval_nat_numeral)
  then obtain msg1 where m: "msg_recv_one (buffer_with []) (rin ready_net 4) plenty = Done (CE_SUCCESS, True, msg1, [], plenty)"
    by blast
  have l: "poll_loop no_match [0..<1] False ready_table (buffer_with []) ready_net plenty = Done (True, s1, msg1, N1, w1)"
    using m(1) by (simp add: poll_at_def poll_entry_def poll_in_def ready_table_def table_of_def hang_up_def POLLIN_def
        s1_def N1_def w1_def) (simp add: ready_net_def)
  let ?p = "\<lparr>fd = 6, events = 1, revents = 1\<rparr>"
  have "content msg1 = content (buffer_with []) @ concat (map (received ready_net) (take 1 (conns ready_table)))
    \<and> (\<exists>e cl line rs. msg_recv_one msg1 (rin ready_net (fd ?p)) w1 = Done (e, cl, line, rs, w1)
       \<and> content line = content (buffer_with []) @ concat (map (received ready_net) (take (Suc 1) (conns ready_table)))
       \<and> (e = CE_SUCCESS \<and> \<not> cl \<longrightarrow> poll_entry no_match (stimeout s1) (conns s1 ! 1) msg1 N1 w1
            = rbind (client_process_recv no_match blank_client line w1)
               (\<lambda>(_, c', line', w2). Done (settle ?p c' line' (N1\<lparr>rin := (rin N1)(fd ?p := rs)\<rparr>) w2))))"
    by (rule poll_mixes_connections [OF ready_table_ok(1) _ _ _ _ l])
      (simp_all add: ready_table_ok ready_table_def [THEN arg_cong [of _ _ ssize]] POLLIN_def plenty_def buffer_with_def msg_wf_def)
  then obtain e cl line rs where k: "msg_recv_one msg1 [Recv_bytes (''QUIT'' @ CRLF)] w1 = Done (e, cl, line, rs, w1)"
      "content line = ''RSET'' @ CRLF @ ''QUIT'' @ CRLF"
      "e = CE_SUCCESS \<and> \<not> cl \<longrightarrow> poll_entry no_match (stimeout s1) (conns s1 ! 1) msg1 N1 w1
            = rbind (client_process_recv no_match blank_client line w1)
               (\<lambda>(_, c', line', w2). Done (settle ?p c' line' (N1\<lparr>rin := (rin N1)(6 := rs)\<rparr>) w2))"
    by (auto simp: ready_table_ok received_def ready_net_def buffer_with_def content_def POLLIN_def numeral_2_eq_2 eval_nat_numeral)
  have "e = CE_SUCCESS \<and> \<not> cl \<and> rs = []"
    using k(1) by (auto simp: msg_recv_one_def eval_nat_numeral rbind_Done_iff)
  with l k show ?thesis by (auto simp: N1_def)
qed

text \<open>The first connection is closed by its peer, the second is idle.\<close>

definition half_ready :: server_info_t where
  "half_ready = (table_of [4, 6] 1)\<lparr>fds := Some [\<lparr>fd = 4, events = 1, revents = 1\<rparr>, \<lparr>fd = 6, events = 1, revents = 0\<rparr>,
     \<lparr>fd = -1, events = 0, revents = 0\<rparr>]\<rparr>"

definition closing_net :: net where
  "closing_net = \<lparr>rin = (\<lambda>_. [])(4 := [Recv_closed]), sout = (\<lambda>_. []), wire = (\<lambda>_. []), shut = []\<rparr>"

theorem process_poll_keeps_connections_witness:
  "\<exists>s' N' w'. process_poll no_match half_ready closing_net plenty = Done (CE_SUCCESS, s', N', w') \<and> shut N' = [4]
     \<and> table_ok s' \<and> map (fd \<circ> fst) (conns s') = [6]"
proof -
  have cn: "conns half_ready = [(\<lparr>fd = 4, events = 1, revents = 1\<rparr>, Live blank_client),
      (\<lparr>fd = 6, events = 1, revents = 0\<rparr>, Live blank_client)]"
    by (simp add: half_ready_def table_of_def conns_def)
  have ok: "table_ok half_ready"
    unfolding table_ok_def table_wf_def cn using blank_client_wf blank_conn_ok
    by (simp add: conn_ok_def half_ready_def table_of_def)
  define s1 where "s1 = half_ready\<lparr>fds := Some [\<lparr>fd = -1, events = 1, revents = 1\<rparr>, \<lparr>fd = 6, events = 1, revents = 0\<rparr>,
     \<lparr>fd = -1, events = 0, revents = 0\<rparr>]\<rparr>"
  define N1 where "N1 = closing_net\<lparr>rin := (rin closing_net)(4 := []), shut := [4]\<rparr>"
  define w1 where "w1 = log_msg INFO ''smtp_server'' plenty"
  obtain msg where m: "msg_init SMTP_TEXT_LINE_MAX_SIZE plenty = (CE_SUCCESS, msg, plenty)" by (simp add: plenty_def)
  have sz: "[0..<ssize half_ready] = [0, 1]" by (simp add: half_ready_def table_of_def upt_rec)
  have "poll_loop no_match [0, 1] False half_ready msg closing_net plenty = Done (True, s1, msg, N1, w1)"
    by (simp add: poll_at_def poll_entry_def poll_in_def half_ready_def table_of_def hang_up_def POLLIN_def
        s1_def N1_def w1_def closing_net_def msg_recv_one_def eval_nat_numeral)
  then have l: "poll_loop no_match [0..<ssize half_ready] False half_ready msg closing_net plenty = Done (True, s1, msg, N1, w1)"
    unfolding sz .
  have c1: "conns s1 = [(\<lparr>fd = -1, events = 1, revents = 1\<rparr>, Live blank_client),
      (\<lparr>fd = 6, events = 1, revents = 0\<rparr>, Live blank_client)]"
    by (simp add: s1_def half_ready_def table_of_def conns_def)
  have op: "list_all is_open (conns half_ready)" by (simp add: cn)
  from process_poll_keeps_connections [OF ok op m l] show ?thesis by (auto simp: c1 N1_def)
qed

end
