(* ===== verification/Server_Queue.thy ===== *)
theory Server_Queue
  imports Server_Base Bounded_Fifo
begin

text \<open>
  The mutex-protected linked-list queue that hands accepted connections and log records to
  the worker threads, \<^verbatim>\<open>server/src/queue.c\<close> and \<^verbatim>\<open>server/src/node.c\<close>. Nodes live in an
  explicit heap, so that a dangling link or a use after \<^verbatim>\<open>free\<close> is visible; the mutex is a
  flag of the queue, and unlocking it twice is a fault. The queue is shown to refine a
  bounded FIFO of byte blocks.
\<close>

section \<open>Nodes and the heap\<close>

record node_t =
  nvalue :: "string option"
  nsize :: nat
  nnext :: "nat option"

record node_heap =
  cells :: "nat \<rightharpoonup> node_t"
  fresh :: nat
  hoom :: mem

definition halloc :: "node_heap \<Rightarrow> bool \<times> node_heap" where
  "halloc h = (let (b, m) = malloc (hoom h) in (b, h\<lparr>hoom := m\<rparr>))"

text \<open>\<open>raw\<close> is the node as it was, \<open>junk\<close> the content of the new block: \<^verbatim>\<open>node_init\<close> sets neither size nor link.\<close>

definition node_init :: "node_t \<Rightarrow> string \<Rightarrow> node_heap \<Rightarrow> (error_code \<times> node_t) \<times> node_heap" where
  "node_init raw junk h =
     (let (ok, h') = halloc h in
      if \<not> ok then ((CE_ALLOC, raw\<lparr>nvalue := None\<rparr>), h')
      else ((CE_SUCCESS, raw\<lparr>nvalue := Some junk\<rparr>), h'))"

definition node_init_with_value :: "string \<Rightarrow> node_heap \<Rightarrow> (error_code \<times> node_t) \<times> node_heap" where
  "node_init_with_value value h =
     (let (ok, h') = halloc h in
      if \<not> ok then ((CE_ALLOC, \<lparr>nvalue = None, nsize = 0, nnext = None\<rparr>), h')
      else ((CE_SUCCESS, \<lparr>nvalue = Some value, nsize = length value, nnext = None\<rparr>), h'))"

definition node_get_value :: "node_t \<Rightarrow> nat \<Rightarrow> error_code \<times> string" where
  "node_get_value node n =
     (case nvalue node of None \<Rightarrow> (CE_NOT_INITED, [])
      | Some v \<Rightarrow> if n \<noteq> nsize node then (CE_COMMON, []) else (CE_SUCCESS, v))"

definition node_set_value :: "node_t \<Rightarrow> string \<Rightarrow> error_code \<times> node_t" where
  "node_set_value node value =
     (case nvalue node of None \<Rightarrow> (CE_NOT_INITED, node)
      | Some v \<Rightarrow> if length value \<noteq> nsize node then (CE_COMMON, node)
                  else (CE_SUCCESS, node\<lparr>nvalue := Some value\<rparr>))"

text \<open>\<^verbatim>\<open>node_destroy\<close> followed by \<^verbatim>\<open>free\<close>: the cell is gone.\<close>

definition node_free :: "nat \<Rightarrow> node_heap \<Rightarrow> node_heap" where
  "node_free a h = h\<lparr>cells := (cells h)(a := None)\<rparr>"

section \<open>The queue\<close>

record queue_t =
  qfront :: "nat option"
  qback :: "nat option"
  qsize :: nat
  qmax_size :: nat
  mtx :: bool

definition QUEUE_DEFAULT_MAX_SIZE :: nat where "QUEUE_DEFAULT_MAX_SIZE = 10000"

definition queue_init :: "bool \<Rightarrow> bool \<Rightarrow> error_code \<times> queue_t" where
  "queue_init mtx_ok cnd_ok =
     (let q = \<lparr>qfront = None, qback = None, qsize = 0, qmax_size = QUEUE_DEFAULT_MAX_SIZE, mtx = False\<rparr> in
      if \<not> mtx_ok then (CE_INIT_3RD, q) else if \<not> cnd_ok then (CE_INIT_3RD, q) else (CE_SUCCESS, q))"

definition mtx_unlock :: "queue_t \<Rightarrow> queue_t run" where
  "mtx_unlock q = (if mtx q then Done (q\<lparr>mtx := False\<rparr>) else Fault Lock_Error)"

text \<open>
  \<open>lock_ok\<close> is the outcome of \<^verbatim>\<open>mtx_lock\<close>. A new node is written to a fresh address; when
  its value cannot be allocated the node itself is not freed.
\<close>

definition append_node :: "queue_t \<Rightarrow> nat \<Rightarrow> node_heap \<Rightarrow> (queue_t \<times> node_heap) run" where
  "append_node q new_node h =
     rbind (case qback q of
              Some b \<Rightarrow> (case cells h b of None \<Rightarrow> Fault Dangling
                         | Some nb \<Rightarrow> Done (q, h\<lparr>cells := (cells h)(b \<mapsto> nb\<lparr>nnext := Some new_node\<rparr>)\<rparr>))
            | None \<Rightarrow> Done (q\<lparr>qfront := Some new_node\<rparr>, h))
       (\<lambda>(q', h'). Done (q'\<lparr>qback := Some new_node, qsize := qsize q' + 1\<rparr>, h'))"

definition queue_push_back :: "bool \<Rightarrow> string \<Rightarrow> queue_t \<Rightarrow> node_heap
    \<Rightarrow> (error_code \<times> queue_t \<times> node_heap) run" where
  "queue_push_back lock_ok value q h =
     (if \<not> lock_ok then Done (CE_LOCK, q, h)
      else let q0 = q\<lparr>mtx := True\<rparr> in
      if qsize q0 = qmax_size q0 then rbind (mtx_unlock q0) (\<lambda>q1. Done (CE_MAX_SIZE, q1, h))
      else let (ok, h1) = halloc h in
      if \<not> ok then rbind (mtx_unlock q0) (\<lambda>q1. Done (CE_ALLOC, q1, h1))
      else let ((err, node), h2) = node_init_with_value value h1 in
      if err \<noteq> CE_SUCCESS then rbind (mtx_unlock q0) (\<lambda>q1. Done (err, q1, h2\<lparr>fresh := Suc (fresh h2)\<rparr>))
      else let a = fresh h2; h3 = h2\<lparr>fresh := Suc a, cells := (cells h2)(a \<mapsto> node)\<rparr> in
        rbind (append_node q0 a h3) (\<lambda>(q1, h4). rbind (mtx_unlock q1) (\<lambda>q2. Done (CE_SUCCESS, q2, h4))))"

text \<open>
  The common tail of both pop operations, entered with the mutex held and the queue not
  empty. When the caller's size differs from the node's, the code unlocks, frees the node
  that is still linked as the front, and unlocks again.
\<close>

definition pop_locked :: "nat \<Rightarrow> queue_t \<Rightarrow> node_heap \<Rightarrow> (error_code \<times> string \<times> queue_t \<times> node_heap) run" where
  "pop_locked n q h =
     (case qfront q of None \<Rightarrow> Fault Null_Deref
      | Some a \<Rightarrow>
        (case cells h a of None \<Rightarrow> Fault Dangling
         | Some node \<Rightarrow>
            let (err, v) = node_get_value node n in
            if err \<noteq> CE_SUCCESS
            then rbind (mtx_unlock q) (\<lambda>q1. rbind (mtx_unlock q1) (\<lambda>q2. Done (err, [], q2, node_free a h)))
            else let q1 = q\<lparr>qsize := qsize q - 1\<rparr>;
                     q2 = (if qsize q1 \<noteq> 0 then q1\<lparr>qfront := nnext node\<rparr> else q1\<lparr>qfront := None, qback := None\<rparr>) in
              rbind (mtx_unlock q2) (\<lambda>q3. Done (CE_SUCCESS, v, q3, node_free a h))))"

definition queue_try_pop_front :: "bool \<Rightarrow> nat \<Rightarrow> queue_t \<Rightarrow> node_heap
    \<Rightarrow> (error_code \<times> string \<times> queue_t \<times> node_heap) run" where
  "queue_try_pop_front lock_ok n q h =
     (if \<not> lock_ok then Done (CE_LOCK, [], q, h)
      else let q0 = q\<lparr>mtx := True\<rparr> in
      if qsize q0 = 0 then rbind (mtx_unlock q0) (\<lambda>q1. Done (CE_COMMON, [], q1, h))
      else pop_locked n q0 h)"

text \<open>
  \<^verbatim>\<open>cnd_wait\<close> releases the mutex, lets other threads run and returns with the mutex held:
  \<open>wait\<close> is what they do to the queue. A wake-up with the queue still empty returns
  \<open>CE_COMMON\<close>.
\<close>

definition queue_pop_front :: "bool \<Rightarrow> (queue_t \<times> node_heap \<Rightarrow> queue_t \<times> node_heap) \<Rightarrow> nat \<Rightarrow> queue_t \<Rightarrow> node_heap
    \<Rightarrow> (error_code \<times> string \<times> queue_t \<times> node_heap) run" where
  "queue_pop_front lock_ok wait n q h =
     (if \<not> lock_ok then Done (CE_LOCK, [], q, h)
      else let q0 = q\<lparr>mtx := True\<rparr> in
      if qsize q0 = 0
      then let (q1, h1) = wait (q0\<lparr>mtx := False\<rparr>, h); q2 = q1\<lparr>mtx := True\<rparr> in
        if qsize q2 = 0 then rbind (mtx_unlock q2) (\<lambda>q3. Done (CE_COMMON, [], q3, h1))
        else pop_locked n q2 h1
      else pop_locked n q0 h)"

text \<open>
  \<^verbatim>\<open>queue_destroy\<close> walks the list and frees every node. \<open>fuel\<close> bounds the walk; in a queue
  that represents \<open>n\<close> values \<open>n\<close> steps are enough.
\<close>

fun destroy_loop :: "nat \<Rightarrow> nat option \<Rightarrow> nat \<Rightarrow> node_heap \<Rightarrow> (nat \<times> node_heap) run option" where
  "destroy_loop fuel None n h = Some (Done (n, h))"
| "destroy_loop 0 (Some a) n h = None"
| "destroy_loop (Suc fuel) (Some a) n h =
     (case cells h a of None \<Rightarrow> Some (Fault Dangling)
      | Some node \<Rightarrow> destroy_loop fuel (nnext node) ((n + 2 ^ 64 - 1) mod 2 ^ 64) (node_free a h))"

definition queue_destroy :: "nat \<Rightarrow> queue_t \<Rightarrow> node_heap \<Rightarrow> (queue_t \<times> node_heap) run option" where
  "queue_destroy fuel q h =
     (case destroy_loop fuel (qfront q) (qsize q) h of
        None \<Rightarrow> None
      | Some (Fault e) \<Rightarrow> Some (Fault e)
      | Some (Done (n, h')) \<Rightarrow>
          if n = 0 then Some (Done (q\<lparr>qfront := None, qback := None, qsize := n, mtx := False\<rparr>, h'))
          else Some (Fault Assert_Failed))"

section \<open>Representation\<close>

fun path :: "(nat \<rightharpoonup> node_t) \<Rightarrow> nat option \<Rightarrow> nat list \<Rightarrow> bool" where
  "path c p [] \<longleftrightarrow> p = None"
| "path c p (a # as) \<longleftrightarrow> p = Some a \<and> (case c a of None \<Rightarrow> False | Some n \<Rightarrow> path c (nnext n) as)"

definition stored :: "(nat \<rightharpoonup> node_t) \<Rightarrow> nat \<Rightarrow> string \<Rightarrow> bool" where
  "stored c a v \<longleftrightarrow> (\<exists>n. c a = Some n \<and> nvalue n = Some v \<and> nsize n = length v)"

definition queue_rep :: "queue_t \<Rightarrow> node_heap \<Rightarrow> nat list \<Rightarrow> string list \<Rightarrow> bool" where
  "queue_rep q h as vs \<longleftrightarrow> path (cells h) (qfront q) as \<and> distinct as
     \<and> qback q = (if as = [] then None else Some (last as)) \<and> qsize q = length as
     \<and> list_all2 (stored (cells h)) as vs \<and> (\<forall>a \<in> set as. a < fresh h)
     \<and> length as \<le> qmax_size q \<and> qmax_size q < 2 ^ 64 \<and> \<not> mtx q"

lemma path_upd_other [simp]: "a \<notin> set as \<Longrightarrow> path (c(a := x)) p as = path c p as"
  by (induction as arbitrary: p) (auto split: option.splits)

lemma stored_upd_other [simp]: "b \<noteq> a \<Longrightarrow> stored (c(a := x)) b v = stored c b v"
  by (simp add: stored_def)

lemma stored_all_upd_other:
  "a \<notin> set as \<Longrightarrow> list_all2 (stored (c(a := x))) as vs = list_all2 (stored c) as vs"
proof (induction as arbitrary: vs)
  case (Cons b as)
  then show ?case by (cases vs) (auto simp: stored_def)
qed simp

lemma path_last:
  "path c p as \<Longrightarrow> as \<noteq> [] \<Longrightarrow> \<exists>n. c (last as) = Some n \<and> nnext n = None"
  by (induction as arbitrary: p) (auto split: option.splits)

lemma path_snoc:
  assumes "path c p as" "as \<noteq> []" "distinct as" "a \<notin> set as" "c (last as) = Some n" "c a = Some m" "nnext m = None"
  shows "path (c(last as \<mapsto> n\<lparr>nnext := Some a\<rparr>)) p (as @ [a])"
  using assms
proof (induction as arbitrary: p)
  case (Cons b as)
  then show ?case
    by (cases as) (auto split: option.splits)
qed simp

lemma stored_relink:
  assumes "list_all2 (stored c) as vs" "c b = Some n"
  shows "list_all2 (stored (c(b \<mapsto> n\<lparr>nnext := x\<rparr>))) as vs"
  using assms(1) by (rule list_all2_mono) (use assms(2) in \<open>auto simp: stored_def\<close>)

lemma halloc_frame: "halloc h = (b, h') \<Longrightarrow> cells h' = cells h \<and> fresh h' = fresh h"
  by (auto simp: halloc_def split: prod.splits)

lemma queue_rep_frame:
  "queue_rep q h as vs \<Longrightarrow> cells h' = cells h \<Longrightarrow> fresh h \<le> fresh h' \<Longrightarrow> queue_rep q h' as vs"
  by (fastforce simp: queue_rep_def)

lemma mtx_unlock_locked [simp]: "mtx q \<Longrightarrow> mtx_unlock q = Done (q\<lparr>mtx := False\<rparr>)"
  by (simp add: mtx_unlock_def)

lemma queue_rep_unlocked: "queue_rep q h as vs \<Longrightarrow> q\<lparr>mtx := True\<rparr>\<lparr>mtx := False\<rparr> = q"
  by (simp add: queue_rep_def)

text \<open>Linking a new node behind the last one.\<close>

lemma link_back:
  assumes rep: "queue_rep q h as vs" and lt: "length as < qmax_size q"
    and node: "nvalue node = Some v" "nsize node = length v" "nnext node = None"
    and h3: "cells h3 = (cells h)(fresh h \<mapsto> node)" "fresh h3 = Suc (fresh h)"
  shows "\<exists>q1 h4. append_node (q\<lparr>mtx := True\<rparr>) (fresh h) h3 = Done (q1, h4) \<and> mtx q1 \<and> qmax_size q1 = qmax_size q
      \<and> queue_rep (q1\<lparr>mtx := False\<rparr>) h4 (as @ [fresh h]) (vs @ [v])"
proof (cases "as = []")
  case True
  with rep h3 node lt show ?thesis by (auto simp: append_node_def queue_rep_def stored_def)
next
  case False
  let ?b = "last as" and ?c = "(cells h)(fresh h \<mapsto> node)"
  have fr: "fresh h \<notin> set as" "\<forall>a \<in> set as. a < fresh h" using rep by (auto simp: queue_rep_def)
  then have neq: "?b \<noteq> fresh h" using False last_in_set by metis
  obtain nb where nb: "cells h ?b = Some nb" using path_last [of "cells h" "qfront q" as] rep False by (auto simp: queue_rep_def)
  have nb3: "?c ?b = Some nb" using nb neq by simp
  have "path ?c (qfront q) as" "distinct as" using rep fr(1) by (simp_all add: queue_rep_def)
  moreover have "?c (fresh h) = Some node" by simp
  ultimately have p: "path (?c(?b \<mapsto> nb\<lparr>nnext := Some (fresh h)\<rparr>)) (qfront q) (as @ [fresh h])"
    using False fr(1) nb3 node(3) by (intro path_snoc [where m = node])
  have "list_all2 (stored ?c) as vs" using rep fr(1) by (simp add: queue_rep_def stored_all_upd_other)
  moreover have "stored ?c (fresh h) v" using node by (simp add: stored_def)
  ultimately have "list_all2 (stored ?c) (as @ [fresh h]) (vs @ [v])" by (simp add: list_all2_appendI)
  from stored_relink [OF this nb3] have s: "list_all2 (stored (?c(?b \<mapsto> nb\<lparr>nnext := Some (fresh h)\<rparr>))) (as @ [fresh h]) (vs @ [v])" .
  have "qback q = Some ?b" using rep False by (simp add: queue_rep_def)
  with nb3 h3 show ?thesis
    using p s rep fr lt by (auto simp: append_node_def queue_rep_def)
qed

text \<open>Pushing appends, or fails and changes nothing the queue represents.\<close>

lemma queue_push_back_rep:
  assumes rep: "queue_rep q h as vs"
  shows "\<exists>e q' h' as'. queue_push_back lock_ok v q h = Done (e, q', h')
    \<and> queue_rep q' h' as' (if e = CE_SUCCESS then vs @ [v] else vs) \<and> qmax_size q' = qmax_size q
    \<and> (e = CE_SUCCESS \<longrightarrow> length vs < qmax_size q)
    \<and> (lock_ok \<and> hoom h = [] \<and> length vs < qmax_size q \<longrightarrow> e = CE_SUCCESS)"
proof -
  have len: "qsize q = length vs" "length as = length vs" using rep by (auto simp: queue_rep_def dest: list_all2_lengthD)
  note unl = queue_rep_unlocked [OF rep]
  consider (lock) "\<not> lock_ok" | (full) "lock_ok" "qsize q = qmax_size q" | (room) "lock_ok" "qsize q \<noteq> qmax_size q" by blast
  then show ?thesis
  proof cases
    case lock
    with rep show ?thesis by (auto simp: queue_push_back_def)
  next
    case full
    with rep unl len show ?thesis by (auto simp: queue_push_back_def Let_def)
  next
    case room
    then have lt: "length as < qmax_size q" using rep len by (simp add: queue_rep_def)
    obtain b1 h1 where h1: "halloc h = (b1, h1)" by force
    obtain b2 h2 where h2: "halloc h1 = (b2, h2)" by force
    have fr: "cells h2 = cells h" "fresh h2 = fresh h" "cells h1 = cells h" "fresh h1 = fresh h"
      using halloc_frame h1 h2 by auto
    have pl: "hoom h = [] \<Longrightarrow> b1 \<and> b2" using h1 h2 by (auto simp: halloc_def)
    consider "\<not> b1" | "b1" "\<not> b2" | "b1" "b2" by blast
    then show ?thesis
    proof cases
      case 1
      with room h1 pl unl queue_rep_frame [OF rep, of h1] fr show ?thesis
        by (auto simp: queue_push_back_def Let_def)
    next
      case 2
      with room h1 h2 pl unl queue_rep_frame [OF rep, of "h2\<lparr>fresh := Suc (fresh h2)\<rparr>"] fr show ?thesis
        by (auto simp: queue_push_back_def node_init_with_value_def Let_def)
    next
      case 3
      let ?node = "\<lparr>nvalue = Some v, nsize = length v, nnext = None\<rparr>"
      let ?h3 = "h2\<lparr>fresh := Suc (fresh h2), cells := (cells h2)(fresh h2 \<mapsto> ?node)\<rparr>"
      from link_back [OF rep lt, of ?node v ?h3] fr obtain q1 h4 where
        l: "append_node (q\<lparr>mtx := True\<rparr>) (fresh h) ?h3 = Done (q1, h4)" "mtx q1" "qmax_size q1 = qmax_size q"
          "queue_rep (q1\<lparr>mtx := False\<rparr>) h4 (as @ [fresh h]) (vs @ [v])" by auto
      moreover have "queue_push_back lock_ok v q h = Done (CE_SUCCESS, q1\<lparr>mtx := False\<rparr>, h4)"
        using room 3 h1 h2 l(1,2) fr by (simp add: queue_push_back_def node_init_with_value_def Let_def)
      ultimately show ?thesis using lt len by auto
    qed
  qed
qed

lemma pop_locked_rep:
  assumes rep: "queue_rep q h (a # as) (v # vs)"
  shows "\<exists>q' h'. pop_locked (length v) (q\<lparr>mtx := True\<rparr>) h = Done (CE_SUCCESS, v, q', h') \<and> queue_rep q' h' as vs
    \<and> qmax_size q' = qmax_size q"
proof -
  from rep obtain node where node: "cells h a = Some node" "nvalue node = Some v" "nsize node = length v"
    "path (cells h) (nnext node) as" by (auto simp: queue_rep_def stored_def split: option.splits)
  have a: "a \<notin> set as" "list_all2 (stored (cells h)) as vs" using rep by (auto simp: queue_rep_def)
  define q' where "q' = (if as = [] then q\<lparr>qsize := qsize q - 1, qfront := None, qback := None\<rparr>
      else q\<lparr>qsize := qsize q - 1, qfront := nnext node\<rparr>)"
  have "pop_locked (length v) (q\<lparr>mtx := True\<rparr>) h = Done (CE_SUCCESS, v, q'\<lparr>mtx := False\<rparr>, node_free a h)"
    using rep node by (simp add: pop_locked_def node_get_value_def Let_def queue_rep_def q'_def)
  moreover have "path ((cells h)(a := None)) (nnext node) as" using node(4) a(1) by simp
  moreover have "list_all2 (stored ((cells h)(a := None))) as vs" using a stored_all_upd_other by blast
  ultimately show ?thesis
    using rep by (auto simp: queue_rep_def node_free_def q'_def)
qed

lemma queue_try_pop_rep:
  assumes rep: "queue_rep q h (a # as) (v # vs)"
  shows "\<exists>q' h'. queue_try_pop_front True (length v) q h = Done (CE_SUCCESS, v, q', h') \<and> queue_rep q' h' as vs
    \<and> qmax_size q' = qmax_size q"
  using pop_locked_rep [OF rep] rep by (simp add: queue_try_pop_front_def Let_def queue_rep_def)

lemma queue_rep_Cons: "queue_rep q h as (v # vs) \<Longrightarrow> \<exists>a as'. as = a # as'"
  by (auto simp: queue_rep_def list_all2_Cons2)

lemma queue_push_back_hoom:
  "hoom h = [] \<Longrightarrow> queue_push_back lk v q h = Done (e, q', h') \<Longrightarrow> hoom h' = []"
  by (auto simp: queue_push_back_def node_init_with_value_def halloc_def append_node_def rbind_Done_iff Let_def
      split: if_splits option.splits)

section \<open>The queue is a bounded FIFO\<close>

text \<open>
  All users store blocks of one size \<open>K\<close> (the macros take \<^verbatim>\<open>sizeof\<close> of the variable), and the
  mutex can be locked.
\<close>

definition rep_sized :: "nat \<Rightarrow> nat \<Rightarrow> queue_t \<times> node_heap \<Rightarrow> string list \<Rightarrow> bool" where
  "rep_sized K M qh vs \<longleftrightarrow> (\<exists>as. queue_rep (fst qh) (snd qh) as vs) \<and> (\<forall>v \<in> set vs. length v = K) \<and> qmax_size (fst qh) = M"

definition push_sized :: "string \<Rightarrow> queue_t \<times> node_heap \<Rightarrow> (bool \<times> queue_t \<times> node_heap) run" where
  "push_sized v qh = rbind (queue_push_back True v (fst qh) (snd qh)) (\<lambda>(e, q, h). Done (e = CE_SUCCESS, q, h))"

definition pop_sized :: "nat \<Rightarrow> queue_t \<times> node_heap \<Rightarrow> (string option \<times> queue_t \<times> node_heap) run" where
  "pop_sized K qh = rbind (queue_try_pop_front True K (fst qh) (snd qh))
     (\<lambda>(e, v, q, h). Done (if e = CE_SUCCESS then Some v else None, q, h))"

interpretation sq: bounded_fifo "rep_sized K M" push_sized "pop_sized K" M "\<lambda>v. length v = K" for K M
proof unfold_locales
  fix qh vs and v :: string
  assume rep: "rep_sized K M qh vs" and v: "length v = K"
  then obtain as where as: "queue_rep (fst qh) (snd qh) as vs" by (auto simp: rep_sized_def)
  from queue_push_back_rep [OF this, of True v] obtain e q' h' as' where
    r: "queue_push_back True v (fst qh) (snd qh) = Done (e, q', h')"
      "queue_rep q' h' as' (if e = CE_SUCCESS then vs @ [v] else vs)" "qmax_size q' = qmax_size (fst qh)"
      "e = CE_SUCCESS \<longrightarrow> length vs < qmax_size (fst qh)" by blast
  have "push_sized v qh = Done (e = CE_SUCCESS, q', h')" using r(1) by (simp add: push_sized_def)
  moreover have "rep_sized K M (q', h') (if e = CE_SUCCESS then vs @ [v] else vs)"
    using r rep v by (auto simp: rep_sized_def)
  ultimately show "\<exists>ok q'. push_sized v qh = Done (ok, q') \<and> rep_sized K M q' (if ok then vs @ [v] else vs)
      \<and> (ok \<longrightarrow> length vs < M)" using r(4) rep by (auto simp: rep_sized_def)
next
  fix qh v vs
  assume rep: "rep_sized K M qh (v # vs)"
  then obtain a as where "queue_rep (fst qh) (snd qh) (a # as) (v # vs)"
    using queue_rep_Cons unfolding rep_sized_def by blast
  from queue_try_pop_rep [OF this] rep show "\<exists>q'. pop_sized K qh = Done (Some v, q') \<and> rep_sized K M q' vs"
    by (auto simp: rep_sized_def pop_sized_def)
qed

text \<open>Pushing a list of blocks, keeping those accepted, and popping \<open>n\<close> blocks of size \<open>K\<close>.\<close>

fun queue_push_list :: "string list \<Rightarrow> queue_t \<times> node_heap \<Rightarrow> (string list \<times> queue_t \<times> node_heap) run" where
  "queue_push_list [] qh = Done ([], qh)"
| "queue_push_list (v # vs) qh = rbind (push_sized v qh) (\<lambda>(ok, qh'). rbind (queue_push_list vs qh')
     (\<lambda>(acc, qh''). Done (if ok then v # acc else acc, qh'')))"

fun queue_drain :: "nat \<Rightarrow> nat \<Rightarrow> queue_t \<times> node_heap \<Rightarrow> (string list \<times> queue_t \<times> node_heap) run" where
  "queue_drain K 0 qh = Done ([], qh)"
| "queue_drain K (Suc n) qh = rbind (pop_sized K qh) (\<lambda>(v, qh'). rbind (queue_drain K n qh')
     (\<lambda>(vs, qh''). Done (case v of Some x \<Rightarrow> x # vs | None \<Rightarrow> vs, qh'')))"

lemma sq_push_list: "sq.push_list xs qh = queue_push_list xs qh"
  by (induction xs arbitrary: qh) simp_all

lemma sq_drain: "sq.drain K n qh = queue_drain K n qh"
  by (induction n arbitrary: qh) simp_all

text \<open>
  C33: the queue is first in, first out: whatever allocations fail, pushing a list of
  blocks and popping as often as was accepted returns the blocks stored before followed by
  the accepted ones, in order, and leaves the queue empty.
\<close>

theorem server_queue_fifo:
  assumes "queue_rep q h as vs" and "\<forall>v \<in> set (vs @ xs). length v = K"
  shows "\<exists>acc q1 q2 h2. queue_push_list xs (q, h) = Done (acc, q1) \<and> subseq acc xs
    \<and> queue_drain K (length vs + length acc) q1 = Done (vs @ acc, q2, h2) \<and> queue_rep q2 h2 [] []"
proof -
  have "rep_sized K (qmax_size q) (q, h) vs" using assms by (auto simp: rep_sized_def)
  from sq.fifo [OF this, of xs] assms(2) obtain acc q1 q2 where
    r: "queue_push_list xs (q, h) = Done (acc, q1)" "subseq acc xs"
      "queue_drain K (length vs + length acc) q1 = Done (vs @ acc, q2)" "rep_sized K (qmax_size q) q2 []"
    by (auto simp: sq_push_list sq_drain)
  moreover from r(4) have "queue_rep (fst q2) (snd q2) [] []" by (auto simp: rep_sized_def queue_rep_def)
  ultimately show ?thesis by (cases q2) auto
qed

definition empty_heap :: node_heap where
  "empty_heap = \<lparr>cells = Map.empty, fresh = 0, hoom = [True, False, True, True]\<rparr>"

lemma queue_init_rep: "queue_rep (snd (queue_init True True)) h [] []"
  by (simp add: queue_init_def queue_rep_def Let_def QUEUE_DEFAULT_MAX_SIZE_def)

theorem server_queue_fifo_witness:
  "\<exists>acc q1 q2 h2. queue_push_list [''ab'', ''cd''] (snd (queue_init True True), empty_heap) = Done (acc, q1)
    \<and> subseq acc [''ab'', ''cd''] \<and> queue_drain 2 (length ([] :: string list) + length acc) q1 = Done ([] @ acc, q2, h2)
    \<and> queue_rep q2 h2 [] []"
  by (rule server_queue_fifo [OF queue_init_rep]) simp

text \<open>
  Popping with a size other than the stored one unlocks the mutex twice; before that the
  front node has been freed while the queue still points to it.
\<close>

theorem queue_pop_wrong_size:
  assumes "queue_rep q h (a # as) (v # vs)" and "n \<noteq> length v"
  shows "queue_try_pop_front True n q h = Fault Lock_Error"
proof -
  from assms(1) obtain node where "cells h a = Some node" "nvalue node = Some v" "nsize node = length v"
    by (auto simp: queue_rep_def stored_def)
  with assms show ?thesis
    by (simp add: queue_try_pop_front_def pop_locked_def node_get_value_def queue_rep_def mtx_unlock_def Let_def)
qed

definition one_job :: "queue_t \<times> node_heap" where
  "one_job = (\<lparr>qfront = Some 0, qback = Some 0, qsize = 1, qmax_size = 10000, mtx = False\<rparr>,
     \<lparr>cells = [0 \<mapsto> \<lparr>nvalue = Some ''job'', nsize = 3, nnext = None\<rparr>], fresh = 1, hoom = []\<rparr>)"

theorem queue_pop_wrong_size_witness: "queue_try_pop_front True 8 (fst one_job) (snd one_job) = Fault Lock_Error"
  by (rule queue_pop_wrong_size [where a = 0 and v = "''job''" and as = "[]" and vs = "[]"])
    (simp_all add: one_job_def queue_rep_def stored_def)

section \<open>Destroying a queue\<close>

lemma destroy_loop_path:
  assumes "path (cells h) p as" "distinct as" "length as < 2 ^ 64"
  shows "\<exists>h'. destroy_loop (length as + k) p (length as) h = Some (Done (0, h')) \<and> (\<forall>a \<in> set as. cells h' a = None)
    \<and> (\<forall>a. cells h a = None \<longrightarrow> cells h' a = None)"
  using assms
proof (induction as arbitrary: p h)
  case (Cons a as)
  then obtain n where n: "p = Some a" "cells h a = Some n" "path (cells h) (nnext n) as" by (auto split: option.splits)
  then have "path (cells (node_free a h)) (nnext n) as" using Cons.prems(2) by (simp add: node_free_def)
  from Cons.IH [OF this] Cons.prems obtain h' where
    h': "destroy_loop (length as + k) (nnext n) (length as) (node_free a h) = Some (Done (0, h'))"
      "\<forall>b \<in> set as. cells h' b = None" "\<forall>b. cells (node_free a h) b = None \<longrightarrow> cells h' b = None" by auto
  have "(length (a # as) + 2 ^ 64 - 1) mod 2 ^ 64 = length as" using Cons.prems(3) by simp
  with h' n show ?case by (auto simp: node_free_def)
qed simp

lemma queue_destroy_ok:
  assumes "queue_rep q h as vs"
  shows "\<exists>q' h'. queue_destroy (length vs) q h = Some (Done (q', h')) \<and> qsize q' = 0 \<and> (\<forall>a \<in> set as. cells h' a = None)"
proof -
  have "length as < 2 ^ 64" "length vs = length as" using assms by (auto simp: queue_rep_def dest: list_all2_lengthD)
  with destroy_loop_path [of h "qfront q" as 0] assms obtain h' where
    "destroy_loop (length vs) (qfront q) (qsize q) h = Some (Done (0, h'))" "\<forall>a \<in> set as. cells h' a = None"
    by (auto simp: queue_rep_def)
  then show ?thesis by (simp add: queue_destroy_def)
qed

text \<open>
  Destroying a queue terminates, frees every node it holds and passes its final
  assertion that the size is zero.
\<close>

theorem queue_destroy_frees_all:
  assumes "queue_rep q h as vs"
  shows "\<exists>q' h'. queue_destroy (length vs) q h = Some (Done (q', h')) \<and> qsize q' = 0 \<and> (\<forall>a \<in> set as. cells h' a = None)"
  by (rule queue_destroy_ok [OF assms])

theorem queue_destroy_frees_all_witness:
  "\<exists>q' h'. queue_destroy 1 (fst one_job) (snd one_job) = Some (Done (q', h')) \<and> qsize q' = 0 \<and> (\<forall>a \<in> set [0]. cells h' a = None)"
  using queue_destroy_frees_all [of "fst one_job" "snd one_job" "[0]" "[''job'']"]
  by (simp add: one_job_def queue_rep_def stored_def)

end
