(* ===== verification/Server_Worker.thy ===== *)
theory Server_Worker
  imports Server_Poll Server_Queue
begin

text \<open>
  How a connection travels from the listening thread to a worker, \<^verbatim>\<open>process_listener\<close>,
  the accept loop of \<^verbatim>\<open>smtp_server\<close> and the loop of \<^verbatim>\<open>main_worker_func\<close> in
  \<^verbatim>\<open>server/src/smtp_server.c\<close>: the descriptor is stored in the job queue as the bytes of an
  \<^verbatim>\<open>int\<close>, a worker takes it out, appends it to its table and polls.
\<close>

section \<open>Descriptors in the queue\<close>

text \<open>An \<^verbatim>\<open>int\<close> is four bytes, two's complement, least significant byte first.\<close>

fun le_bytes :: "nat \<Rightarrow> int \<Rightarrow> string" where
  "le_bytes 0 x = []"
| "le_bytes (Suc n) x = char_of (nat (x mod 256)) # le_bytes n (x div 256)"

fun le_value :: "string \<Rightarrow> int" where
  "le_value [] = 0"
| "le_value (c # cs) = int (of_char c) + 256 * le_value cs"

definition int_bytes :: "int \<Rightarrow> string" where
  "int_bytes x = le_bytes 4 x"

definition bytes_int :: "string \<Rightarrow> int" where
  "bytes_int bs = (let n = le_value bs in if n < 2 ^ 31 then n else n - 2 ^ 32)"

definition int32 :: "int \<Rightarrow> bool" where
  "int32 x \<longleftrightarrow> - (2 ^ 31) \<le> x \<and> x < 2 ^ 31"

lemma length_le_bytes [simp]: "length (le_bytes n x) = n"
  by (induction n x rule: le_bytes.induct) simp_all

lemma length_int_bytes [simp]: "length (int_bytes x) = 4"
  by (simp add: int_bytes_def)

lemma le_value_le_bytes: "le_value (le_bytes n x) = x mod 256 ^ n"
proof (induction n x rule: le_bytes.induct)
  case (2 n x)
  have "int (of_char (char_of (nat (x mod 256)) :: char)) = x mod 256"
    by (simp add: of_char_of nat_less_iff mod_pos_pos_trivial)
  with 2 show ?case by (simp add: zmod_zmult2_eq)
qed simp

lemma bytes_int_bytes [simp]:
  assumes "int32 x"
  shows "bytes_int (int_bytes x) = x"
proof (cases "0 \<le> x")
  case True
  with assms have "x mod 2 ^ 32 = x" by (intro mod_pos_pos_trivial) (simp_all add: int32_def)
  with True assms show ?thesis by (simp add: bytes_int_def int_bytes_def le_value_le_bytes int32_def)
next
  case False
  have "x mod 2 ^ 32 = (x + 2 ^ 32) mod 2 ^ 32" by simp
  also have "\<dots> = x + 2 ^ 32" using False assms by (intro mod_pos_pos_trivial) (simp_all add: int32_def)
  finally show ?thesis using False assms by (simp add: bytes_int_def int_bytes_def le_value_le_bytes int32_def)
qed

section \<open>The listening thread\<close>

text \<open>
  The results of \<^verbatim>\<open>poll\<close> (interrupted, failed, timed out, or the \<^verbatim>\<open>revents\<close> of the polled
  descriptors) and of \<^verbatim>\<open>accept\<close>.
\<close>

datatype poll_res = Poll_intr | Poll_fail | Poll_timeout | Poll_ready "nat list"
datatype accept_res = Accepted int | Accept_wouldblock | Accept_error

definition process_listener :: "accept_res \<Rightarrow> world \<Rightarrow> error_code \<times> int \<times> world" where
  "process_listener r w =
     (case r of
        Accepted d \<Rightarrow> (CE_SUCCESS, d, log_msg INFO ''smtp_server'' w)
      | Accept_wouldblock \<Rightarrow> (CE_COMMON, -1, w)
      | Accept_error \<Rightarrow> (CE_COMMON, -1, log_msg CRITICAL ''smtp_server'' w))"

text \<open>One iteration of the accept loop; the result of \<^verbatim>\<open>queue_push_back\<close> is ignored.\<close>

definition accept_step :: "bool \<Rightarrow> poll_res \<Rightarrow> accept_res \<Rightarrow> queue_t \<Rightarrow> node_heap \<Rightarrow> world \<Rightarrow> (queue_t \<times> node_heap \<times> world) run" where
  "accept_step lock_ok pr ar q h w =
     (case pr of
        Poll_fail \<Rightarrow> Done (q, h, log_msg WARNING ''smtp_server'' w)
      | Poll_intr \<Rightarrow> Done (q, h, log_msg INFO ''smtp_server'' w)
      | Poll_timeout \<Rightarrow> Done (q, h, w)
      | Poll_ready rv \<Rightarrow>
          if rv \<noteq> [POLLIN] then Done (q, h, w)
          else let (e, d, w1) = process_listener ar w in
            if e \<noteq> CE_SUCCESS then Done (q, h, w1)
            else rbind (queue_push_back lock_ok (int_bytes d) q h) (\<lambda>(_, q1, h1). Done (q1, h1, w1)))"

fun accept_loop :: "(bool \<times> poll_res \<times> accept_res) list \<Rightarrow> queue_t \<Rightarrow> node_heap \<Rightarrow> world \<Rightarrow> (queue_t \<times> node_heap \<times> world) run" where
  "accept_loop [] q h w = Done (q, h, w)"
| "accept_loop ((lk, pr, ar) # es) q h w = rbind (accept_step lk pr ar q h w) (\<lambda>(q1, h1, w1). accept_loop es q1 h1 w1)"

section \<open>A worker thread\<close>

definition set_revents :: "nat list \<Rightarrow> server_info_t \<Rightarrow> server_info_t" where
  "set_revents rv s = s\<lparr>fds := map_option (\<lambda>ps. map2 (\<lambda>p r. p\<lparr>revents := r\<rparr>) (take (length rv) ps) rv @ drop (length rv) ps) (fds s)\<rparr>"

text \<open>One iteration of the loop of \<^verbatim>\<open>main_worker_func\<close>; the error code of \<^verbatim>\<open>server_info_add_client\<close> is ignored.\<close>

definition worker_step :: "pcre_lib \<Rightarrow> client_t \<Rightarrow> bool \<Rightarrow> poll_res \<Rightarrow> server_info_t \<Rightarrow> queue_t \<Rightarrow> node_heap \<Rightarrow> net \<Rightarrow> world
    \<Rightarrow> (server_info_t \<times> queue_t \<times> node_heap \<times> net \<times> world) run" where
  "worker_step P raw lock_ok pr s q h N w =
     rbind (queue_try_pop_front lock_ok 4 q h) (\<lambda>(cerr, b, q1, h1).
     rbind (if cerr = CE_SUCCESS
            then rbind (server_info_add_client raw s (bytes_int b) w) (\<lambda>(_, s1, w1). Done (s1, log_msg INFO ''smtp_server'' w1))
            else Done (s, w)) (\<lambda>(s1, w1).
       if ssize s1 = 0 then Done (s1, q1, h1, N, w1)
       else (case pr of
          Poll_fail \<Rightarrow> Done (s1, q1, h1, N, log_msg WARNING ''smtp_server'' w1)
        | Poll_intr \<Rightarrow> Done (s1, q1, h1, N, log_msg INFO ''smtp_server'' w1)
        | Poll_timeout \<Rightarrow> Done (s1, q1, h1, N, w1)
        | Poll_ready rv \<Rightarrow> rbind (process_poll P (set_revents rv s1) N w1) (\<lambda>(_, s2, N1, w2). Done (s2, q1, h1, N1, w2)))))"

text \<open>
  The iterations until \<^verbatim>\<open>end_flag\<close> is set. Before each of them the other threads may have
  changed the shared queue (the first component of the environment).
\<close>

type_synonym worker_env = "(queue_t \<times> node_heap \<Rightarrow> queue_t \<times> node_heap) \<times> bool \<times> poll_res"

fun worker_loop :: "pcre_lib \<Rightarrow> client_t \<Rightarrow> worker_env list \<Rightarrow> server_info_t \<Rightarrow> queue_t \<Rightarrow> node_heap \<Rightarrow> net \<Rightarrow> world
    \<Rightarrow> (server_info_t \<times> queue_t \<times> node_heap \<times> net \<times> world) run" where
  "worker_loop P raw [] s q h N w = Done (s, q, h, N, w)"
| "worker_loop P raw ((others, lk, pr) # es) s q h N w =
     (let (q0, h0) = others (q, h) in
      rbind (worker_step P raw lk pr s q0 h0 N w) (\<lambda>(s1, q1, h1, N1, w1). worker_loop P raw es s1 q1 h1 N1 w1))"

definition main_worker_func :: "pcre_lib \<Rightarrow> client_t \<Rightarrow> smtp_server_cfg \<Rightarrow> nat \<Rightarrow> nat \<Rightarrow> nat \<Rightarrow> string \<Rightarrow> worker_env list
    \<Rightarrow> queue_t \<Rightarrow> node_heap \<Rightarrow> net \<Rightarrow> world \<Rightarrow> (error_code \<times> server_info_t \<times> queue_t \<times> node_heap \<times> net \<times> world) run" where
  "main_worker_func P raw c thr ident proc host es q h N w =
     (let (e, s, w1) = server_info_init c 50 thr ident proc host (log_msg INFO ''smtp_server'' w) in
      if e \<noteq> CE_SUCCESS then Done (CE_INIT_3RD, s, q, h, N, w1)
      else rbind (worker_loop P raw es s q h N w1) (\<lambda>(s1, q1, h1, N1, w2).
        rbind (server_info_destroy s1) (\<lambda>s2. Done (CE_SUCCESS, s2, q1, h1, N1, log_msg INFO ''smtp_server'' w2))))"

section \<open>Accepted connections are served in order\<close>

lemma accept_step_queue:
  assumes rep: "queue_rep q h as vs" and r: "accept_step lk pr ar q h w = Done (q', h', w')"
  shows "\<exists>as' vs'. queue_rep q' h' as' vs' \<and> (vs' = vs \<or> (\<exists>d. ar = Accepted d \<and> vs' = vs @ [int_bytes d]))"
proof (cases "\<exists>d. ar = Accepted d \<and> pr = Poll_ready [POLLIN]")
  case False
  with r have "q' = q \<and> h' = h"
    by (auto simp: accept_step_def process_listener_def split: poll_res.splits accept_res.splits if_splits)
  with rep show ?thesis by auto
next
  case True
  then obtain d where d: "ar = Accepted d" "pr = Poll_ready [POLLIN]" by blast
  from queue_push_back_rep [OF rep, of lk "int_bytes d"] obtain e q1 h1 as1 where
    p: "queue_push_back lk (int_bytes d) q h = Done (e, q1, h1)" "queue_rep q1 h1 as1 (if e = CE_SUCCESS then vs @ [int_bytes d] else vs)"
    by blast
  with r d have "q' = q1" "h' = h1" by (auto simp: accept_step_def process_listener_def)
  with p d show ?thesis by (auto split: if_splits)
qed

text \<open>What fits into the queue is appended to it; a full queue refuses the rest.\<close>

lemma accept_loop_enqueues:
  "queue_rep q h as vs \<Longrightarrow> hoom h = [] \<Longrightarrow>
    \<exists>q' h' as' w'. accept_loop (map (\<lambda>d. (True, Poll_ready [POLLIN], Accepted d)) ys) q h w = Done (q', h', w')
      \<and> queue_rep q' h' as' (vs @ map int_bytes (take (qmax_size q - length vs) ys))"
proof (induction ys arbitrary: q h as vs w)
  case Nil
  then show ?case by auto
next
  case (Cons y ys)
  from queue_push_back_rep [OF Cons.prems(1), of True "int_bytes y"] Cons.prems(2) obtain e q1 h1 as1 where
    p: "queue_push_back True (int_bytes y) q h = Done (e, q1, h1)" "qmax_size q1 = qmax_size q"
      "queue_rep q1 h1 as1 (if length vs < qmax_size q then vs @ [int_bytes y] else vs)" by auto
  have "hoom h1 = []" using queue_push_back_hoom [OF Cons.prems(2) p(1)] .
  from Cons.IH [OF p(3) this, of "log_msg INFO ''smtp_server'' w"] p(1,2) show ?case
    by (auto simp: accept_step_def process_listener_def take_Cons' split: if_splits)
qed

text \<open>A fresh entry: polled for both directions, its session has the greeting ready to be sent.\<close>

definition greeted :: "pollfd \<times> client_ptr \<Rightarrow> bool" where
  "greeted x \<longleftrightarrow> events (fst x) = POLLIN + POLLOUT \<and> (\<exists>c. snd x = Live c \<and> session_wf c \<and> need_send c \<and> \<not> closed c
     \<and> content (msg_for_sending c) = SMTP_OPENING_MSG)"

lemma worker_loop_takes:
  "queue_rep q h as (map int_bytes xs) \<Longrightarrow> \<forall>x \<in> set xs. int32 x \<Longrightarrow> table_wf s \<Longrightarrow> oom w = [] \<Longrightarrow>
    length ps = length xs \<Longrightarrow> \<forall>rv. Poll_ready rv \<notin> set ps \<Longrightarrow>
    \<exists>s' q' h' w' new. worker_loop P raw (map (\<lambda>pr. (id, True, pr)) ps) s q h N w = Done (s', q', h', N, w')
      \<and> queue_rep q' h' [] [] \<and> table_wf s' \<and> conns s' = conns s @ new
      \<and> map (fd \<circ> fst) new = take (smax_size s - ssize s) xs \<and> list_all greeted new"
proof (induction xs arbitrary: s q h as w ps)
  case Nil
  then show ?case by (auto simp: queue_rep_def)
next
  case (Cons x xs)
  obtain pr ps1 where ps: "ps = pr # ps1" "length ps1 = length xs" using Cons.prems(5) by (cases ps) auto
  from Cons.prems(1) obtain a as' where as: "as = a # as'" using queue_rep_Cons by fastforce
  with queue_try_pop_rep [of q h a as' "int_bytes x" "map int_bytes xs"] Cons.prems(1) obtain q1 h1 where
    p: "queue_try_pop_front True 4 q h = Done (CE_SUCCESS, int_bytes x, q1, h1)" "queue_rep q1 h1 as' (map int_bytes xs)" by auto
  have le: "ssize s \<le> smax_size s" using Cons.prems(3) by (auto elim!: table_wfE)
  have len: "length (conns s) = ssize s" using Cons.prems(3) by (auto elim!: table_wfE)
  obtain e s1 new1 where ad: "server_info_add_client raw s x w = Done (e, s1, w)" "table_wf s1" "conns s1 = conns s @ new1"
    "map (fd \<circ> fst) new1 = (if ssize s < smax_size s then [x] else [])" "list_all greeted new1" "smax_size s1 = smax_size s"
  proof (cases "ssize s = smax_size s")
    case True
    with Cons.prems(4) have "server_info_add_client raw s x w = Done (CE_ALLOC, s, w)"
      by (simp add: server_info_add_client_def server_info_resize_def Let_def)
    with True Cons.prems(3) show thesis by (intro that [of CE_ALLOC s "[]"]) simp_all
  next
    case False
    with le have lt: "ssize s < smax_size s" by simp
    obtain s1 p1 c1 where "server_info_add_client raw s x w = Done (CE_SUCCESS, s1, w)" "table_wf s1"
      "conns s1 = conns s @ [(p1, Live c1)]" "fd p1 = x" "events p1 = POLLIN + POLLOUT" "session_wf c1" "need_send c1"
      "content (msg_for_sending c1) = SMTP_OPENING_MSG" "\<not> closed c1" "smax_size s1 = smax_size s"
      by (rule add_client_room [OF Cons.prems(3,4) lt])
    with lt show thesis by (intro that [of CE_SUCCESS s1 "[(p1, Live c1)]"]) (simp_all add: greeted_def)
  qed
  have sz: "ssize s1 = ssize s + length new1"
    using arg_cong [OF ad(3), of length] ad(2) len by (auto elim!: table_wfE)
  have n1: "length new1 = (if ssize s < smax_size s then 1 else 0)"
    using arg_cong [OF ad(4), of length] by (auto split: if_splits)
  have "\<exists>w1. worker_step P raw True pr s q h N w = Done (s1, q1, h1, N, w1) \<and> oom w1 = []"
    using p(1) ad(1) Cons.prems(2,4,6) ps(1) by (cases pr) (auto simp: worker_step_def log_msg_def)
  then obtain w1 where st: "worker_step P raw True pr s q h N w = Done (s1, q1, h1, N, w1)" "oom w1 = []" by blast
  have rest: "\<forall>x \<in> set xs. int32 x" "\<forall>rv. Poll_ready rv \<notin> set ps1" using Cons.prems(2,6) ps(1) by auto
  from Cons.IH [OF p(2) rest(1) ad(2) st(2) ps(2) rest(2)] obtain s' q' h' w' new where
    r: "worker_loop P raw (map (\<lambda>pr. (id, True, pr)) ps1) s1 q1 h1 N w1 = Done (s', q', h', N, w')" "queue_rep q' h' [] []"
      "table_wf s'" "conns s' = conns s1 @ new" "map (fd \<circ> fst) new = take (smax_size s1 - ssize s1) xs" "list_all greeted new"
    by blast
  have "map (fd \<circ> fst) (new1 @ new) = take (smax_size s - ssize s) (x # xs)"
    using ad(4,6) r(5) sz n1 by (auto simp: take_Cons' split: if_splits)
  moreover have "worker_loop P raw (map (\<lambda>pr. (id, True, pr)) ps) s q h N w = Done (s', q', h', N, w')"
    using st(1) r(1) ps(1) by simp
  moreover have "conns s' = conns s @ (new1 @ new)" "list_all greeted (new1 @ new)" using r(4,6) ad(3,5) by simp_all
  ultimately show ?case using r(2,3) by blast
qed

text \<open>
  C18: the way of the accepted connections to a worker. After the listening thread accepted
  \<open>ys\<close> while \<open>xs\<close> were waiting, and one worker (no other one takes from the queue, and no
  connection of its table becomes ready meanwhile) made a turn for each waiting descriptor:
  the queue is empty, and the worker's table has got new entries for the waiting
  descriptors, unchanged and in the order they were accepted, each with a session whose
  greeting is ready to be sent, as far as there was room: in the queue for the accepted
  ones, in the table for the waiting ones. The rest is nowhere any more and was not closed.
\<close>

theorem accepted_connections_handed_over:
  assumes "queue_rep q h as (map int_bytes xs)" and "hoom h = []" and "\<forall>x \<in> set (xs @ ys). int32 x"
    and "table_wf s" and "oom w = []"
    and "length ps = length (xs @ take (qmax_size q - length xs) ys)" and "\<forall>rv. Poll_ready rv \<notin> set ps"
  shows "\<exists>q1 h1 wl' s' q2 h2 w' new.
    accept_loop (map (\<lambda>d. (True, Poll_ready [POLLIN], Accepted d)) ys) q h wl = Done (q1, h1, wl')
    \<and> worker_loop P raw (map (\<lambda>pr. (id, True, pr)) ps) s q1 h1 N w = Done (s', q2, h2, N, w')
    \<and> queue_rep q2 h2 [] [] \<and> table_wf s' \<and> conns s' = conns s @ new \<and> list_all greeted new
    \<and> map (fd \<circ> fst) new = take (smax_size s - ssize s) (xs @ take (qmax_size q - length xs) ys)"
proof -
  from accept_loop_enqueues [OF assms(1,2), of ys wl] obtain q1 h1 as1 wl' where
    a: "accept_loop (map (\<lambda>d. (True, Poll_ready [POLLIN], Accepted d)) ys) q h wl = Done (q1, h1, wl')"
      "queue_rep q1 h1 as1 (map int_bytes (xs @ take (qmax_size q - length xs) ys))" by auto
  have "\<forall>x \<in> set (xs @ take (qmax_size q - length xs) ys). int32 x"
    using assms(3) by (auto dest: in_set_takeD)
  from worker_loop_takes [OF a(2) this assms(4-7), of P raw N] a(1) show ?thesis by blast
qed

text \<open>A table with room for one more: of two accepted connections the second is lost.\<close>

theorem accepted_connections_handed_over_witness:
  "\<exists>q1 h1 wl' s' q2 h2 w'.
    accept_loop (map (\<lambda>d. (True, Poll_ready [POLLIN], Accepted d)) [7, 9]) (snd (queue_init True True))
      \<lparr>cells = Map.empty, fresh = 0, hoom = []\<rparr> plenty = Done (q1, h1, wl')
    \<and> worker_loop no_match blank_client [(id, True, Poll_timeout), (id, True, Poll_intr)] (table_of [4] 1) q1 h1 ready_net plenty
        = Done (s', q2, h2, ready_net, w')
    \<and> map (fd \<circ> fst) (conns s') = [4, 7] \<and> shut ready_net = [] \<and> queue_rep q2 h2 [] []"
  using accepted_connections_handed_over [of "snd (queue_init True True)" "\<lparr>cells = Map.empty, fresh = 0, hoom = []\<rparr>" "[]" "[]" "[7, 9]"
      "table_of [4] 1" plenty "[Poll_timeout, Poll_intr]" plenty no_match blank_client ready_net]
    queue_init_rep [of "\<lparr>cells = Map.empty, fresh = 0, hoom = []\<rparr>"]
  by (auto simp: queue_init_def QUEUE_DEFAULT_MAX_SIZE_def int32_def plenty_def ready_net_def)

text \<open>
  Storing a descriptor as the bytes of an \<^verbatim>\<open>int\<close> and reading it back gives the same
  descriptor, for every value of the type.
\<close>

theorem descriptor_round_trip: "int32 x \<Longrightarrow> bytes_int (int_bytes x) = x \<and> length (int_bytes x) = 4"
  by simp

theorem descriptor_round_trip_witness: "int32 (-1) \<and> bytes_int (int_bytes (-1)) = -1"
  using descriptor_round_trip [of "-1"] by (simp add: int32_def)

end
