(* ===== verification/Server_System.thy ===== *)
theory Server_System
  imports Server_Worker "HOL-Library.Multiset"
begin

text \<open>
  The running server as a whole: the listening thread and any number of workers, sharing
  the job queue. Every operation on the queue holds its mutex from beginning to end, so the
  steps of the system are whole iterations of the accept loop and of the workers, in any
  order. The invariant of the reachable states says that no connection is in two places; the
  account of a step says what becomes of each: it stays in use, is closed, or is lost for one
  of three reasons.
\<close>

section \<open>The system\<close>

record server_sys =
  job_queue :: queue_t
  job_heap :: node_heap
  tables :: "server_info_t list"
  network :: net

text \<open>The blocks the queue holds, read along its links.\<close>

fun walk :: "nat \<Rightarrow> (nat \<rightharpoonup> node_t) \<Rightarrow> nat option \<Rightarrow> string list" where
  "walk (Suc k) c (Some a) = (case c a of None \<Rightarrow> [] | Some n \<Rightarrow> (case nvalue n of None \<Rightarrow> [] | Some v \<Rightarrow> [v]) @ walk k c (nnext n))"
| "walk _ _ _ = []"

definition queued :: "server_sys \<Rightarrow> int list" where
  "queued S = map bytes_int (walk (qsize (job_queue S)) (cells (job_heap S)) (qfront (job_queue S)))"

definition table_fds :: "server_info_t \<Rightarrow> int list" where
  "table_fds s = map (fd \<circ> fst) (conns s)"

text \<open>
  The descriptors the server holds open. The operating system never hands out one of them
  again: the premise of \<open>accept\<close>. Both kinds of step run with enough memory, and the
  listening thread gets the mutex (an initialised mutex can always be locked).
\<close>

definition in_use :: "server_sys \<Rightarrow> int list" where
  "in_use S = queued S @ concat (map table_fds (tables S))"

inductive server_next :: "pcre_lib \<Rightarrow> server_sys \<Rightarrow> server_sys \<Rightarrow> bool" for P :: pcre_lib where
  accept: "accept_step True pr ar (job_queue S) (job_heap S) w = Done (q, h, w') \<Longrightarrow>
     (\<And>d. ar = Accepted d \<Longrightarrow> 0 \<le> d \<and> int32 d \<and> d \<notin> set (in_use S)) \<Longrightarrow>
     server_next P S (S\<lparr>job_queue := q, job_heap := h\<rparr>)"
| work: "i < length (tables S) \<Longrightarrow> oom w = [] \<Longrightarrow>
     worker_step P raw lk pr (tables S ! i) (job_queue S) (job_heap S) (network S) w = Done (s, q, h, N, w') \<Longrightarrow>
     server_next P S (S\<lparr>job_queue := q, job_heap := h, tables := (tables S)[i := s], network := N\<rparr>)"

inductive_cases server_nextE: "server_next P S S'"

text \<open>At the start the queue is empty and every worker has a fresh table of 50 entries.\<close>

definition server_start :: "smtp_server_cfg \<Rightarrow> (nat \<times> nat) list \<Rightarrow> nat \<Rightarrow> string \<Rightarrow> net \<Rightarrow> server_sys" where
  "server_start c threads proc host N =
     \<lparr>job_queue = snd (queue_init True True), job_heap = \<lparr>cells = Map.empty, fresh = 0, hoom = []\<rparr>,
      tables = map (\<lambda>(thr, ident). fst (snd (server_info_init c 50 thr ident proc host plenty))) threads, network = N\<rparr>"

section \<open>The steps keep the tables and the descriptors\<close>

definition table_inv :: "server_info_t \<Rightarrow> bool" where
  "table_inv s \<longleftrightarrow> NUL \<notin> set (cfg_domain (cfg s)) \<and> (clients s = None \<or> table_ok s \<and> list_all is_open (conns s))"

lemma walk_path:
  "path c p as \<Longrightarrow> list_all2 (stored c) as vs \<Longrightarrow> walk (length as) c p = vs"
proof (induction as arbitrary: p vs)
  case (Cons a as)
  then show ?case by (cases vs) (auto simp: stored_def split: option.splits)
qed simp

lemma walk_rep: "queue_rep q h as vs \<Longrightarrow> walk (qsize q) (cells h) (qfront q) = vs"
  by (auto simp: queue_rep_def intro: walk_path)

lemma table_fds_None [simp]: "clients s = None \<Longrightarrow> table_fds s = []"
  by (simp add: table_fds_def conns_def split: option.splits)

lemma try_pop_cases:
  assumes rep: "queue_rep q h as vs" and sz: "\<forall>v \<in> set vs. length v = n"
    and r: "queue_try_pop_front lk n q h = Done (e, b, q', h')"
  obtains (unpopped) "e \<noteq> CE_SUCCESS" "queue_rep q' h' as vs"
  | (popped) as' vs' where "e = CE_SUCCESS" "vs = b # vs'" "queue_rep q' h' as' vs'"
proof (cases "lk \<and> vs \<noteq> []")
  case False
  with rep r have "e \<noteq> CE_SUCCESS \<and> q' = q \<and> h' = h"
    by (auto simp: queue_try_pop_front_def Let_def queue_rep_def rbind_Done_iff split: if_splits)
  with rep unpopped show thesis by blast
next
  case True
  then obtain v vs' where v: "vs = v # vs'" by (cases vs) auto
  with rep obtain a as' where "as = a # as'" using queue_rep_Cons by blast
  with queue_try_pop_rep [of q h a as' v vs'] rep v sz True r popped show thesis by auto
qed

lemma try_pop_frame: "queue_try_pop_front lk n q h = Done (e, b, q', h') \<Longrightarrow> hoom h' = hoom h \<and> qmax_size q' = qmax_size q"
  by (auto simp: queue_try_pop_front_def pop_locked_def Let_def rbind_Done_iff mtx_unlock_def node_free_def
      split: if_splits option.splits prod.splits)

lemma poll_at_cfg: "poll_at P i s msg N w = Done (need, s', msg', N', w') \<Longrightarrow> cfg s' = cfg s"
  by (auto simp: poll_at_def rbind_Done_iff split: option.splits if_splits)

lemma poll_loop_cfg: "poll_loop P is need s msg N w = Done (need', s', msg', N', w') \<Longrightarrow> cfg s' = cfg s"
  by (induction "is" arbitrary: need s msg N w) (auto simp: rbind_Done_iff dest!: poll_at_cfg)

lemma compress_at_cfg: "compress_at i s = Done (b, s') \<Longrightarrow> cfg s' = cfg s"
  by (auto simp: compress_at_def rbind_Done_iff split: option.splits if_splits)

lemma compress_loop_cfg: "compress_loop k i s = Done s' \<Longrightarrow> cfg s' = cfg s"
  by (induction k arbitrary: i s) (auto simp: rbind_Done_iff split: if_splits dest!: compress_at_cfg)

lemma process_poll_cfg: "process_poll P s N w = Done (e, s', N', w') \<Longrightarrow> cfg s' = cfg s"
  by (auto simp: process_poll_def server_info_compress_def rbind_Done_iff Let_def
      dest!: poll_loop_cfg compress_loop_cfg split: prod.splits if_splits)

text \<open>\<^verbatim>\<open>poll\<close> only changes the \<^verbatim>\<open>revents\<close>.\<close>

lemma set_revents_conns:
  assumes "table_wf s"
  shows "table_wf (set_revents rv s) \<and> length (conns (set_revents rv s)) = length (conns s)
    \<and> (\<forall>k < length (conns s). fd (fst (conns (set_revents rv s) ! k)) = fd (fst (conns s ! k))
        \<and> snd (conns (set_revents rv s) ! k) = snd (conns s ! k))"
proof -
  from assms obtain ps cs where t: "fds s = Some ps" "clients s = Some cs" "length ps = smax_size s" "length cs = smax_size s"
    "conns s = take (ssize s) (zip ps cs)" "ssize s \<le> smax_size s" by (rule table_wfE)
  define qs where "qs = map2 (\<lambda>p r. p\<lparr>revents := r\<rparr>) (take (length rv) ps) rv @ drop (length rv) ps"
  have l: "length qs = length ps" by (simp add: qs_def min_def)
  have f: "fd (qs ! k) = fd (ps ! k)" if "k < length ps" for k
    using that by (cases "k < length rv") (simp_all add: qs_def nth_append min_def)
  have s: "set_revents rv s = s\<lparr>fds := Some qs\<rparr>" using t(1) by (simp add: set_revents_def qs_def)
  have c: "conns (set_revents rv s) = take (ssize s) (zip qs cs)" using t(2) by (simp add: s conns_def)
  have k: "length (conns (set_revents rv s)) = length (conns s)
    \<and> (\<forall>k < length (conns s). fd (fst (conns (set_revents rv s) ! k)) = fd (fst (conns s ! k))
        \<and> snd (conns (set_revents rv s) ! k) = snd (conns s ! k))"
    unfolding c t(5) using f l t(3,4) by simp
  moreover have "\<forall>x \<in> set (conns (set_revents rv s)). \<exists>y. snd x = Live y"
    using k live_conns [OF assms] by (metis in_set_conv_nth)
  ultimately show ?thesis unfolding table_wf_def using t l by (simp add: s)
qed

lemma set_revents_ok:
  assumes "table_ok s" "list_all is_open (conns s)"
  shows "table_ok (set_revents rv s) \<and> list_all is_open (conns (set_revents rv s)) \<and> table_fds (set_revents rv s) = table_fds s"
proof -
  have wf: "table_wf s" using assms(1) by (simp add: table_ok_def)
  note k = set_revents_conns [OF wf, of rv]
  moreover have "list_all conn_ok (conns (set_revents rv s)) \<and> list_all is_open (conns (set_revents rv s))"
    using k assms unfolding table_ok_def list_all_length conn_ok_def by simp
  moreover have "table_fds (set_revents rv s) = table_fds s"
    unfolding table_fds_def by (rule nth_equalityI) (use k in simp_all)
  ultimately show ?thesis by (simp add: table_ok_def)
qed

lemma mset_map_partition: "mset (map f xs) = mset (map f (filter Q xs)) + mset (map f (filter (\<lambda>x. \<not> Q x) xs))"
  by (induction xs) simp_all

text \<open>Every descriptor of a round is kept or closed.\<close>

lemma round_partition:
  assumes l: "length (conns s1) = length (conns s)" and n: "length (conns s) = ssize s" and op: "list_all is_open (conns s)"
    and k: "\<forall>k < length (conns s). fd (fst (conns s1 ! k)) = fd (fst (conns s ! k)) \<or> fd (fst (conns s1 ! k)) = -1"
  shows "mset (table_fds s) = mset (map (fd \<circ> fst) (filter is_open (conns s1))) + mset (closed_in s s1)"
proof -
  define g where "g xs = (\<lambda>k. xs ! k :: pollfd \<times> client_ptr)" for xs
  have idx: "xs = map (g xs) [0..<length xs]" for xs by (simp add: g_def map_nth)
  have "table_fds s = map (\<lambda>k. fd (fst (conns s ! k))) [0..<ssize s]"
    by (rule nth_equalityI) (simp_all add: table_fds_def n)
  moreover have "map (fd \<circ> fst) (filter is_open (conns s1))
      = map (\<lambda>k. fd (fst (conns s ! k))) (filter (\<lambda>k. is_open (conns s1 ! k)) [0..<ssize s])"
  proof -
    have "filter is_open (conns s1) = map (g (conns s1)) (filter (is_open \<circ> g (conns s1)) [0..<length (conns s1)])"
      by (subst idx) (simp add: filter_map)
    then show ?thesis using k l n by (auto simp: g_def comp_def)
  qed
  ultimately show ?thesis unfolding closed_in_def by (simp only:) (rule mset_map_partition)
qed

lemma poll_round_inv:
  assumes inv: "table_inv s" and w: "oom w = []" and sz: "ssize s \<noteq> 0"
    and r: "process_poll P (set_revents rv s) N w = Done (e, s', N', w')"
  shows "table_inv s' \<and> (\<exists>ended lost. mset (table_fds s) = mset (table_fds s') + mset ended + mset lost
    \<and> shut N' = shut N @ ended \<and> (lost \<noteq> [] \<longrightarrow> clients s' = None))"
proof (cases "clients s")
  case None
  with r w sz show ?thesis
    by (simp add: process_poll_def set_revents_def upt_rec poll_at_def split: option.splits)
next
  case (Some cs)
  with inv have ok: "table_ok s" "list_all is_open (conns s)" by (simp_all add: table_inv_def)
  note k = set_revents_ok [OF ok, of rv]
  let ?s = "set_revents rv s"
  have "cfg s' = cfg s" using process_poll_cfg [OF r] by (simp add: set_revents_def)
  moreover obtain s1 where s1: "length (conns s1) = length (conns ?s)"
    "\<forall>k < length (conns ?s). fd (fst (conns s1 ! k)) = fd (fst (conns ?s ! k)) \<or> fd (fst (conns s1 ! k)) = -1"
    "shut N' = shut N @ closed_in ?s s1" "table_ok s' \<and> conns s' = filter is_open (conns s1) \<or> clients s' = None"
    using process_poll_Done [OF _ _ r w] k by blast
  have "length (conns ?s) = ssize ?s" using k by (auto simp: table_ok_def elim!: table_wfE)
  from round_partition [OF s1(1) this _ s1(2)] k have p:
    "mset (table_fds s) = mset (map (fd \<circ> fst) (filter is_open (conns s1))) + mset (closed_in ?s s1)" by simp
  show ?thesis
  proof (cases "clients s' = None")
    case True
    with p s1(3) inv calculation show ?thesis
      by (intro conjI exI [of _ "closed_in ?s s1"] exI [of _ "map (fd \<circ> fst) (filter is_open (conns s1))"])
        (simp_all add: table_inv_def)
  next
    case False
    with s1(4) have c: "table_ok s'" "conns s' = filter is_open (conns s1)" by simp_all
    with p s1(3) inv calculation show ?thesis
      by (intro conjI exI [of _ "closed_in ?s s1"] exI [of _ "[]"]) (simp_all add: table_inv_def table_fds_def list_all_iff)
  qed
qed

lemma add_client_inv:
  assumes inv: "table_inv s" and w: "oom w = []" and d: "0 \<le> d"
    and r: "server_info_add_client raw s d w = Done (e, s', w')"
  shows "table_inv s' \<and> (s' = s \<and> smax_size s \<le> ssize s \<or> table_fds s' = table_fds s @ [d]) \<and> w' = w"
proof (cases "clients s = None \<or> ssize s = smax_size s")
  case True
  have "ssize s \<le> smax_size s \<or> clients s = None" using inv by (auto simp: table_inv_def table_ok_def elim!: table_wfE)
  with True r w have "s' = s \<and> w' = w \<and> (ssize s = smax_size s \<or> smax_size s < ssize s)"
    by (auto simp: server_info_add_client_def server_info_resize_def Let_def split: if_splits option.splits)
  with inv show ?thesis by auto
next
  case False
  with inv have ok: "table_ok s" "list_all is_open (conns s)" "NUL \<notin> set (cfg_domain (cfg s))" by (auto simp: table_inv_def)
  then have wf: "table_wf s" by (simp add: table_ok_def)
  with False have lt: "ssize s < smax_size s" by (auto elim!: table_wfE)
  obtain s1 p c where a: "server_info_add_client raw s d w = Done (CE_SUCCESS, s1, w)" "table_wf s1"
    "conns s1 = conns s @ [(p, Live c)]" "fd p = d" "session_wf c" "\<not> closed c" "mail_writer c = mail_writer_of s" "cfg s1 = cfg s"
    by (rule add_client_room [OF wf w lt])
  have "conn_ok (p, Live c)" using a(4-7) ok(3) d by (simp add: conn_ok_def mail_writer_of_def)
  with a r ok d show ?thesis by (auto simp: table_inv_def table_ok_def table_fds_def)
qed

text \<open>
  A worker's iteration: it takes at most the first waiting descriptor, which it drops when
  its table is full, and closes some connections; it loses others only with its session array.
\<close>

lemma worker_step_inv:
  assumes inv: "table_inv s" and w: "oom w = []" and rep: "queue_rep q h as (map int_bytes ds)"
    and ds: "\<forall>d \<in> set ds. 0 \<le> d \<and> int32 d"
    and r: "worker_step P raw lk pr s q h N w = Done (s', q', h', N', w')"
  shows "table_inv s' \<and> hoom h' = hoom h \<and> qmax_size q' = qmax_size q \<and> (\<exists>as' ds' ended lost. queue_rep q' h' as' (map int_bytes ds')
    \<and> set ds' \<subseteq> set ds \<and> mset ds + mset (table_fds s) = mset ds' + mset (table_fds s') + mset ended + mset lost
    \<and> shut N' = shut N @ ended
    \<and> (lost \<noteq> [] \<longrightarrow> clients s' = None \<or> smax_size s \<le> ssize s \<and> (\<exists>d. lost = [d] \<and> ds = d # ds')))"
proof -
  obtain e b q1 h1 where p: "queue_try_pop_front lk 4 q h = Done (e, b, q1, h1)"
    using r by (cases "queue_try_pop_front lk 4 q h") (auto simp: worker_step_def)
  define A where "A = (if e = CE_SUCCESS
      then rbind (server_info_add_client raw s (bytes_int b) w) (\<lambda>(_, s1, w1). Done (s1, log_msg INFO ''smtp_server'' w1))
      else Done (s, w))"
  obtain s1 w1 where A: "A = Done (s1, w1)" using r p by (cases A) (auto simp: worker_step_def A_def)
  then have a: "if e = CE_SUCCESS then \<exists>e2 w2. server_info_add_client raw s (bytes_int b) w = Done (e2, s1, w2)
          \<and> w1 = log_msg INFO ''smtp_server'' w2 else s1 = s \<and> w1 = w"
    by (auto simp: A_def rbind_Done_iff split: if_splits)
  from r p A have t0: "(if ssize s1 = 0 then Done (s1, q1, h1, N, w1)
       else (case pr of
          Poll_fail \<Rightarrow> Done (s1, q1, h1, N, log_msg WARNING ''smtp_server'' w1)
        | Poll_intr \<Rightarrow> Done (s1, q1, h1, N, log_msg INFO ''smtp_server'' w1)
        | Poll_timeout \<Rightarrow> Done (s1, q1, h1, N, w1)
        | Poll_ready rv \<Rightarrow> rbind (process_poll P (set_revents rv s1) N w1) (\<lambda>(_, s2, N1, w2). Done (s2, q1, h1, N1, w2))))
      = Done (s', q', h', N', w')"
    by (simp add: worker_step_def A_def [symmetric])
  then have q: "q' = q1 \<and> h' = h1"
    and t: "s' = s1 \<and> N' = N \<or> ssize s1 \<noteq> 0 \<and> (\<exists>rv e3. process_poll P (set_revents rv s1) N w1 = Done (e3, s', N', w'))"
    by (auto simp: rbind_Done_iff split: if_splits poll_res.splits)
  have fin: "table_inv s' \<and> (\<exists>ended lost. mset (table_fds s1) = mset (table_fds s') + mset ended + mset lost
      \<and> shut N' = shut N @ ended \<and> (lost \<noteq> [] \<longrightarrow> clients s' = None))" if i: "table_inv s1" "oom w1 = []"
    using t
  proof
    assume "s' = s1 \<and> N' = N"
    with i show ?thesis by (intro conjI exI [of _ "[]"]) simp_all
  qed (use poll_round_inv [OF i] in blast)
  have hq: "hoom h1 = hoom h" "qmax_size q1 = qmax_size q" using try_pop_frame [OF p] by simp_all
  have sz: "\<forall>v \<in> set (map int_bytes ds). length v = 4" by simp
  show ?thesis
  proof (rule try_pop_cases [OF rep sz p])
    assume e: "e \<noteq> CE_SUCCESS" and rp: "queue_rep q1 h1 as (map int_bytes ds)"
    with a have 1: "s1 = s" "oom w1 = []" using w by simp_all
    from fin 1 inv obtain ended lost where "table_inv s'" "mset (table_fds s) = mset (table_fds s') + mset ended + mset lost"
      "shut N' = shut N @ ended" "lost \<noteq> [] \<longrightarrow> clients s' = None" by auto
    with rp q hq show ?thesis
      by (intro conjI exI [of _ as] exI [of _ ds] exI [of _ ended] exI [of _ lost]) auto
  next
    fix as' vs'
    assume pop: "e = CE_SUCCESS" "map int_bytes ds = b # vs'" "queue_rep q1 h1 as' vs'"
    then obtain d ds' where d: "ds = d # ds'" "b = int_bytes d" "vs' = map int_bytes ds'" by (cases ds) auto
    with a pop ds obtain e2 w2 where ad: "server_info_add_client raw s d w = Done (e2, s1, w2)" "w1 = log_msg INFO ''smtp_server'' w2"
      by auto
    have "0 \<le> d" using ds d by simp
    note k = add_client_inv [OF inv w this ad(1)]
    have "oom w1 = []" using k ad(2) w by (simp add: log_msg_def)
    with k fin obtain ended lost where f: "table_inv s'" "mset (table_fds s1) = mset (table_fds s') + mset ended + mset lost"
      "shut N' = shut N @ ended" "lost \<noteq> [] \<longrightarrow> clients s' = None" by blast
    show ?thesis
    proof (cases "s1 = s \<and> smax_size s \<le> ssize s")
      case True
      with f pop d q hq show ?thesis
        by (intro conjI exI [of _ as'] exI [of _ ds'] exI [of _ ended] exI [of _ "d # lost"]) auto
    next
      case False
      with k f pop d q hq show ?thesis
        by (intro conjI exI [of _ as'] exI [of _ ds'] exI [of _ ended] exI [of _ lost]) auto
    qed
  qed
qed

definition sys_inv :: "server_sys \<Rightarrow> bool" where
  "sys_inv S \<longleftrightarrow> (\<exists>as ds. queue_rep (job_queue S) (job_heap S) as (map int_bytes ds) \<and> (\<forall>d \<in> set ds. 0 \<le> d \<and> int32 d))
     \<and> hoom (job_heap S) = [] \<and> distinct (in_use S) \<and> list_all table_inv (tables S)"

lemma queued_rep:
  assumes "queue_rep (job_queue S) (job_heap S) as (map int_bytes ds)" "\<forall>d \<in> set ds. 0 \<le> d \<and> int32 d"
  shows "queued S = ds"
  using walk_rep [OF assms(1)] assms(2) by (simp add: queued_def map_idI)

lemma distinct_mset_le:
  assumes "mset xs \<subseteq># mset ys" "distinct ys"
  shows "distinct xs"
proof -
  have "count (mset xs) a = (if a \<in> set xs then 1 else 0)" for a
  proof (cases "a \<in> set xs")
    case True
    then have "0 < count (mset xs) a" by (simp add: count_greater_zero_iff)
    moreover have "count (mset ys) a \<le> 1"
      using assms(2) by (cases "a \<in> set ys") (simp_all add: distinct_count_atmost_1 not_in_iff [symmetric])
    with mset_subset_eq_count [OF assms(1), of a] have "count (mset xs) a \<le> 1" by (rule order_trans)
    ultimately show ?thesis using True by (simp del: count_greater_zero_iff)
  qed (simp add: not_in_iff [symmetric])
  then show ?thesis by (simp add: distinct_count_atmost_1)
qed

lemma mset_replace:
  assumes "i < length xs"
  shows "mset (concat (map f (xs[i := y]))) + mset (f (xs ! i)) = mset (concat (map f xs)) + mset (f y)"
proof -
  have "xs = take i xs @ xs ! i # drop (Suc i) xs" using assms by (rule id_take_nth_drop)
  then have "mset (concat (map f xs)) = mset (concat (map f (take i xs @ xs ! i # drop (Suc i) xs)))" by simp
  then show ?thesis using assms by (simp add: upd_conv_take_nth_drop)
qed

lemma mset_exchange:
  fixes A B C D :: "'a multiset"
  assumes "A + B = C + D" and "M + B = M' + D + E + L"
  shows "M + C = M' + A + E + L"
proof -
  have "M + C + (B + D) = (M + B) + (C + D)" by (simp add: ac_simps)
  also have "\<dots> = (M' + D + E + L) + (A + B)" using assms by simp
  also have "\<dots> = M' + A + E + L + (B + D)" by (simp add: ac_simps)
  finally show ?thesis by simp
qed

text \<open>
  What one step does to the descriptors: at most one new one; each of the old and the new
  ones is afterwards still in use, or was closed, or was lost for one of three reasons.
\<close>

definition step_accounts :: "server_sys \<Rightarrow> server_sys \<Rightarrow> int list \<Rightarrow> int list \<Rightarrow> int list \<Rightarrow> bool" where
  "step_accounts S S' acc ended lost \<longleftrightarrow>
     mset (in_use S) + mset acc = mset (in_use S') + mset ended + mset lost
   \<and> length acc \<le> 1 \<and> shut (network S') = shut (network S) @ ended
   \<and> (lost = [] \<or> lost = acc \<and> queued S' = queued S \<and> length (queued S) = qmax_size (job_queue S)
      \<or> (\<exists>i < length (tables S). tables S' = (tables S)[i := tables S' ! i]
           \<and> (smax_size (tables S ! i) \<le> ssize (tables S ! i) \<and> length lost = 1 \<and> queued S = lost @ queued S'
              \<or> clients (tables S' ! i) = None)))"

lemma accept_accounts:
  assumes inv: "sys_inv S" and r: "accept_step True pr ar (job_queue S) (job_heap S) w = Done (q, h, w')"
    and new: "\<And>d. ar = Accepted d \<Longrightarrow> 0 \<le> d \<and> int32 d \<and> d \<notin> set (in_use S)"
    and S': "S' = S\<lparr>job_queue := q, job_heap := h\<rparr>"
  shows "sys_inv S' \<and> (\<exists>acc lost. step_accounts S S' acc [] lost)"
proof -
  from inv obtain as ds where rep: "queue_rep (job_queue S) (job_heap S) as (map int_bytes ds)"
    and ds: "\<forall>d \<in> set ds. 0 \<le> d \<and> int32 d" and dis: "distinct (in_use S)" and tb: "list_all table_inv (tables S)"
    and hm: "hoom (job_heap S) = []"
    by (auto simp: sys_inv_def)
  note qd = queued_rep [OF rep ds]
  obtain as' ds' acc where v: "queue_rep q h as' (map int_bytes ds')" "\<forall>d \<in> set ds'. 0 \<le> d \<and> int32 d" "hoom h = []"
    "acc = [] \<and> ds' = ds \<or> (\<exists>d. ar = Accepted d \<and> acc = [d] \<and> (ds' = ds @ [d] \<or> ds' = ds \<and> length ds = qmax_size (job_queue S)))"
  proof (cases "\<exists>d. ar = Accepted d \<and> pr = Poll_ready [POLLIN]")
    case False
    with r have "q = job_queue S \<and> h = job_heap S"
      by (auto simp: accept_step_def process_listener_def split: poll_res.splits accept_res.splits if_splits)
    with rep ds hm that [of as ds "[]"] show thesis by auto
  next
    case True
    then obtain d where d: "ar = Accepted d" "pr = Poll_ready [POLLIN]" by blast
    from queue_push_back_rep [OF rep, of True "int_bytes d"] hm obtain e q1 h1 as1 where
      p: "queue_push_back True (int_bytes d) (job_queue S) (job_heap S) = Done (e, q1, h1)"
        "queue_rep q1 h1 as1 (if e = CE_SUCCESS then map int_bytes ds @ [int_bytes d] else map int_bytes ds)"
        "length ds < qmax_size (job_queue S) \<longrightarrow> e = CE_SUCCESS" by auto
    have e: "q = q1" "h = h1" using p(1) r d by (auto simp: accept_step_def process_listener_def)
    have hm1: "hoom h1 = []" using queue_push_back_hoom [OF hm p(1)] .
    have nw: "0 \<le> d \<and> int32 d" using new d by blast
    show thesis
    proof (cases "e = CE_SUCCESS")
      case True
      with p(2) e hm1 nw ds d that [of as1 "ds @ [d]" "[d]"] show thesis by auto
    next
      case False
      have "length ds \<le> qmax_size (job_queue S)" using rep by (auto simp: queue_rep_def dest: list_all2_lengthD)
      with False p(2,3) e hm1 ds d that [of as1 ds "[d]"] show thesis by auto
    qed
  qed
  have r': "queue_rep (job_queue S') (job_heap S') as' (map int_bytes ds')" using v(1) S' by simp
  note qd' = queued_rep [OF r' v(2)]
  have t: "tables S' = tables S" "network S' = network S" using S' by simp_all
  have "distinct (in_use S')" using dis v(4) new unfolding in_use_def qd qd' t by force
  then have "sys_inv S'" using r' v(2,3) tb t S' by (auto simp: sys_inv_def)
  moreover have "\<exists>lost. step_accounts S S' acc [] lost"
    using v(4) unfolding step_accounts_def in_use_def qd qd' t
    by (elim disjE exE conjE) (auto intro: exI [of _ "[]"] exI [of _ acc])
  ultimately show ?thesis by blast
qed

lemma work_accounts:
  assumes inv: "sys_inv S" and i: "i < length (tables S)" and w: "oom w = []"
    and r: "worker_step P raw lk pr (tables S ! i) (job_queue S) (job_heap S) (network S) w = Done (s, q, h, N, w')"
    and S': "S' = S\<lparr>job_queue := q, job_heap := h, tables := (tables S)[i := s], network := N\<rparr>"
  shows "sys_inv S' \<and> (\<exists>ended lost. step_accounts S S' [] ended lost)"
proof -
  from inv obtain as ds where rep: "queue_rep (job_queue S) (job_heap S) as (map int_bytes ds)"
    and ds: "\<forall>d \<in> set ds. 0 \<le> d \<and> int32 d" and dis: "distinct (in_use S)" and tb: "list_all table_inv (tables S)"
    and hm: "hoom (job_heap S) = []"
    by (auto simp: sys_inv_def)
  have "table_inv (tables S ! i)" using tb i by (simp add: list_all_length)
  from worker_step_inv [OF this w rep ds r] obtain as' ds' ended lost where
    k: "table_inv s" "hoom h = hoom (job_heap S)" "queue_rep q h as' (map int_bytes ds')" "set ds' \<subseteq> set ds"
      "mset ds + mset (table_fds (tables S ! i)) = mset ds' + mset (table_fds s) + mset ended + mset lost"
      "shut N = shut (network S) @ ended"
      "lost \<noteq> [] \<longrightarrow> clients s = None \<or> smax_size (tables S ! i) \<le> ssize (tables S ! i) \<and> (\<exists>d. lost = [d] \<and> ds = d # ds')"
    by blast
  have ds': "\<forall>d \<in> set ds'. 0 \<le> d \<and> int32 d" using k(4) ds by auto
  have r': "queue_rep (job_queue S') (job_heap S') as' (map int_bytes ds')" using k(3) S' by simp
  note qd = queued_rep [OF rep ds] and qd' = queued_rep [OF r' ds']
  have tbs: "tables S' = (tables S)[i := s]" using S' by simp
  have m: "mset (in_use S) = mset (in_use S') + mset ended + mset lost"
    using mset_exchange [OF mset_replace [OF i, of table_fds s] k(5)] unfolding in_use_def qd qd' tbs by simp
  then have "mset (in_use S') \<subseteq># mset (in_use S)" by simp
  then have "distinct (in_use S')" using dis by (rule distinct_mset_le)
  moreover have "list_all table_inv (tables S')"
    using tb k(1) tbs by (auto simp: list_all_iff dest!: subsetD [OF set_update_subset_insert])
  ultimately have "sys_inv S'" using r' ds' k(2) hm S' by (auto simp: sys_inv_def)
  moreover have "step_accounts S S' [] ended lost"
    using m k(6,7) i S' unfolding step_accounts_def qd qd' by (auto simp: tbs)
  ultimately show ?thesis by blast
qed

lemma server_next_accounts:
  assumes "server_next P S S'" "sys_inv S"
  shows "sys_inv S' \<and> (\<exists>acc ended lost. step_accounts S S' acc ended lost)"
  using assms(1)
proof (cases rule: server_next.cases)
  case (accept pr ar w q h w')
  from accept_accounts [OF assms(2) accept(2,3,1)] show ?thesis by blast
next
  case (work i w raw lk pr s q h N w')
  from work_accounts [OF assms(2) work(2-4,1)] show ?thesis by blast
qed

lemma server_start_inv:
  assumes "NUL \<notin> set (cfg_domain c)"
  shows "sys_inv (server_start c threads proc host N)"
proof -
  let ?S = "server_start c threads proc host N"
  have t: "table_inv (fst (snd (server_info_init c 50 thr ident proc host plenty)))
      \<and> table_fds (fst (snd (server_info_init c 50 thr ident proc host plenty))) = []" for thr ident
    using assms by (simp add: server_info_init_def plenty_def table_inv_def table_ok_def table_wf_def conns_def table_fds_def)
  have r: "queue_rep (job_queue ?S) (job_heap ?S) [] (map int_bytes [])" using queue_init_rep by (simp add: server_start_def)
  have "concat (map table_fds (tables ?S)) = []" using t by (auto simp: server_start_def)
  then have "in_use ?S = []" unfolding in_use_def using queued_rep [OF r] by simp
  then have "distinct (in_use ?S)" by simp
  moreover have "list_all table_inv (tables ?S)" using t by (auto simp: server_start_def list_all_iff)
  moreover have "\<exists>as ds. queue_rep (job_queue ?S) (job_heap ?S) as (map int_bytes ds) \<and> (\<forall>d \<in> set ds. 0 \<le> d \<and> int32 d)"
    using r by (intro exI [of _ "[]"] conjI) simp_all
  moreover have "hoom (job_heap ?S) = []" by (simp add: server_start_def)
  ultimately show ?thesis by (simp add: sys_inv_def)
qed

text \<open>
  C2: however the listening thread and the workers interleave, over any sequence of accepted
  connections and of events on them, and with memory available: no descriptor is ever in two
  places (waiting in the queue, or in one entry of one worker's table), and every worker's
  table has a live, well-formed, open session for each of its entries, or the worker has
  lost its session array. The next step takes in at most one new descriptor, and leaves every
  other one where it is in use or closes it; it loses one only if the queue is full, if
  the worker that takes it from the queue has a full table, or if the session array of a
  worker is lost.
\<close>

theorem connections_have_one_owner:
  assumes "NUL \<notin> set (cfg_domain c)" and "(server_next P)\<^sup>*\<^sup>* (server_start c threads proc host N) S"
  shows "distinct (in_use S) \<and> list_all (\<lambda>s. clients s = None \<or> table_ok s \<and> list_all is_open (conns s)) (tables S)
    \<and> (\<forall>S'. server_next P S S' \<longrightarrow> (\<exists>acc ended lost. step_accounts S S' acc ended lost))"
proof -
  have "sys_inv S" using assms(2)
    by (induction rule: rtranclp_induct) (auto intro: server_start_inv [OF assms(1)] dest: server_next_accounts)
  then show ?thesis using server_next_accounts by (auto simp: sys_inv_def table_inv_def list_all_iff)
qed

text \<open>Two workers; the listening thread accepts descriptor 7.\<close>

theorem connections_have_one_owner_witness:
  "\<exists>S. (server_next no_match)\<^sup>*\<^sup>* (server_start cfg_example [(5, 0), (6, 1)] 7 ''h'' ready_net) S \<and> queued S = [7] \<and> distinct (in_use S)"
proof -
  let ?S = "server_start cfg_example [(5, 0), (6, 1)] 7 ''h'' ready_net"
  have nul: "NUL \<notin> set (cfg_domain cfg_example)" by (simp add: cfg_example_def)
  from accept_loop_enqueues [of "job_queue ?S" "job_heap ?S" "[]" "[]" "[7]" plenty] queue_init_rep obtain q h w where
    a: "accept_step True (Poll_ready [POLLIN]) (Accepted 7) (job_queue ?S) (job_heap ?S) plenty = Done (q, h, w)"
    by (auto simp: server_start_def queue_init_def QUEUE_DEFAULT_MAX_SIZE_def rbind_Done_iff)
  define S where "S = ?S\<lparr>job_queue := q, job_heap := h\<rparr>"
  have "in_use ?S = []"
    by (simp add: in_use_def queued_def table_fds_def server_start_def queue_init_def server_info_init_def plenty_def conns_def)
  then have st: "(server_next no_match)\<^sup>*\<^sup>* ?S S"
    unfolding S_def by (intro r_into_rtranclp server_next.accept [OF a]) (auto simp: int32_def)
  have "queued S = [7]"
    using a by (simp add: S_def server_start_def queue_init_def accept_step_def process_listener_def queue_push_back_def
        halloc_def node_init_with_value_def append_node_def queued_def mtx_unlock_def QUEUE_DEFAULT_MAX_SIZE_def int32_def)
      (auto simp: int32_def)
  with st connections_have_one_owner [OF nul st] show ?thesis by blast
qed

end
