(* ===== verification/Server_Closing.thy ===== *)
theory Server_Closing
  imports Server_Poll Server_Dialogue
begin

text \<open>
  How a client ends its session: the QUIT line in \<^verbatim>\<open>client_process_recv\<close> of
  \<^verbatim>\<open>server/src/client.c\<close>, followed by the turn of \<^verbatim>\<open>process_poll\<close> in
  \<^verbatim>\<open>server/src/smtp_server.c\<close> in which its descriptor can be written. Both the reply that
  goes out and the descriptor that is closed are followed.
\<close>

unbundle bit_operations_syntax

section \<open>The QUIT line\<close>

text \<open>The states in which QUIT is answered.\<close>

definition quit_answered :: "te_client_state set" where
  "quit_answered = {CLIENT_ST_CLIENT_INITED, CLIENT_ST_DATA_RECEIVED, CLIENT_ST_EHLO_RECEIVED, CLIENT_ST_EXPECTED_RCPT_OR_DATA}"

lemma dispatch_quit:
  assumes "matches_only P SMTP_CMD_QUIT (c_str line)" and "current_state c \<noteq> CLIENT_ST_EXPECTED_MSG_TEXT_OR_END_MSG"
  shows "client_dispatch P c line w
    = client_step P (current_state c) CLIENT_EV_QUIT c (Some (snd (smtp_cmd_check P SMTP_CMD_QUIT line))) w"
  using assms(2) by (simp add: client_dispatch_def Let_def case_prod_beta check_matches_only [OF assms(1)])

lemma recv_quit:
  assumes "session_wf c" "NUL \<notin> set (domain (mail_writer c))" "live_state (current_state c)"
    and "current_state c \<noteq> CLIENT_ST_EXPECTED_MSG_TEXT_OR_END_MSG"
    and "holds m s" "matches_only P SMTP_CMD_QUIT s" and "oom w = []" "clock w = [t]"
  shows "\<exists>m1 r c1. client_process_recv P c m w = Done (CE_SUCCESS, c1, m1, w) \<and> session_wf c1
    \<and> content r = SMTP_QUIT_SUCCESS_ANSWER
    \<and> c1 = (if current_state c \<in> quit_answered then c\<lparr>msg_for_sending := r, need_send := True\<rparr> else c)
        \<lparr>current_state := CLIENT_ST_QUIT_RECEIVED, timeout_start_time := t\<rparr>"
proof -
  from assms(5) obtain line m1 where l: "msg_terminate m = Done (line, m1)" "c_str line = s"
    by (rule terminate_holds) blast
  have d: "client_dispatch P c line w
      = client_step P (current_state c) CLIENT_EV_QUIT c (Some (snd (smtp_cmd_check P SMTP_CMD_QUIT line))) w"
    by (rule dispatch_quit) (use assms(4,6) l(2) in simp_all)
  from quit_reply_states [OF assms(1,3,7)] obtain r where r: "content r = SMTP_QUIT_SUCCESS_ANSWER"
    "client_dispatch P c line w = Done (CLIENT_ST_QUIT_RECEIVED,
      (if current_state c \<in> quit_answered then c\<lparr>msg_for_sending := r, need_send := True\<rparr> else c), w)"
    unfolding d quit_answered_def by blast
  let ?c1 = "(if current_state c \<in> quit_answered then c\<lparr>msg_for_sending := r, need_send := True\<rparr> else c)
    \<lparr>current_state := CLIENT_ST_QUIT_RECEIVED, timeout_start_time := t\<rparr>"
  have e: "client_process_recv P c m w = Done (CE_SUCCESS, ?c1, m1, w)"
    using l(1) r(2) assms(8) by (simp add: client_process_recv_def client_start_timeout_def time_now_const)
  then have "session_wf ?c1" using session_next_entry [OF assms(1,2)] by (blast intro: session_next.recv)
  with e r(1) show ?thesis by blast
qed

section \<open>The turn of the descriptor\<close>

lemma send_loop_empty: "send_loop i m ss = Done (e, m', ss', out) \<Longrightarrow> msize m' = 0 \<Longrightarrow> e = CE_SUCCESS"
proof (induction i arbitrary: m ss e m' ss' out)
  case (Suc i)
  show ?case
  proof (cases "\<exists>k ss1 t. ss = Sent k # ss1 \<and> msize m \<noteq> 0 \<and> k \<noteq> 0 \<and> mtext m = Some t")
    case True
    with Suc show ?thesis by (auto simp: rbind_Done_iff Let_def split: if_splits)
  next
    case False
    with Suc.prems show ?thesis by (auto simp: Let_def split: if_splits option.splits list.splits send_res.splits)
  qed
qed simp

text \<open>The reply to QUIT has gone out: the session is done and marked as closed.\<close>

lemma send_after_quit:
  assumes "msg_wf (msg_for_sending c)" "current_state c = CLIENT_ST_QUIT_RECEIVED"
  shows "\<exists>c'. client_process_send P c w = Done (CE_SUCCESS, c', w) \<and> closed c' \<and> current_state c' = CLIENT_ST_DONE \<and> \<not> need_send c'"
  using msg_clean_ok(1) [OF assms(1)] assms(2)
  by (simp add: client_process_send_def client_step_def client_trans_table_def client_trans_QUIT_RECEIVED_def
      client_do_quit_received_response_def)

lemma poll_out_quit:
  assumes "session_wf c" "current_state c = CLIENT_ST_QUIT_RECEIVED" "need_send c" "\<not> closed c"
  shows "\<exists>need x N1 w1 out rest. poll_out P p c buf N w = Done (need, x, buf, N1, w1)
    \<and> wire N1 (fd p) = wire N (fd p) @ out \<and> content (msg_for_sending c) = out @ rest
    \<and> (if rest = [] then need \<and> fd (fst x) = -1 \<and> shut N1 = shut N @ [fd p]
       else \<not> need \<and> shut N1 = shut N \<and> (\<exists>c2. x = (p, Live c2) \<and> need_send c2 \<and> \<not> closed c2
         \<and> current_state c2 = CLIENT_ST_QUIT_RECEIVED \<and> content (msg_for_sending c2) = rest))"
proof -
  have m: "msg_wf (msg_for_sending c)" "NUL \<notin> set (content (msg_for_sending c))" using assms(1) by (simp_all add: session_wf_def)
  from send_loop_conserves [OF this, of 500 "sout N (fd p)"] obtain e m1 ss out where
    s: "send_loop 500 (msg_for_sending c) (sout N (fd p)) = Done (e, m1, ss, out)" "msg_wf m1" "out @ content m1 = content (msg_for_sending c)" by blast
  let ?N = "N\<lparr>sout := (sout N)(fd p := ss), wire := (wire N)(fd p := wire N (fd p) @ out)\<rparr>"
  have r: "content m1 = [] \<longleftrightarrow> msize m1 = 0" using length_content [OF s(2)] by auto
  show ?thesis
  proof (cases "msize m1 = 0")
    case True
    from send_after_quit [of "c\<lparr>msg_for_sending := m1\<rparr>" P w] s(2) assms(2) obtain c' where
      c': "client_process_send P (c\<lparr>msg_for_sending := m1\<rparr>) w = Done (CE_SUCCESS, c', w)" "closed c'" by auto
    have "poll_out P p c buf N w = Done (hang_up p (Live c') buf ?N w)"
      using s(1) send_loop_empty [OF s(1) True] True c' by (simp add: poll_out_def msg_send_one_def settle_def)
    then show ?thesis using s(3) r True
      by (intro exI [of _ True] exI [of _ "(p\<lparr>fd := -1\<rparr>, Live c')"] exI [of _ "?N\<lparr>shut := shut ?N @ [fd p]\<rparr>"]
          exI [of _ "log_msg INFO ''smtp_server'' w"] exI [of _ out] exI [of _ "[]"]) (simp add: hang_up_def)
  next
    case False
    then have "poll_out P p c buf N w = Done (False, (p, Live (c\<lparr>msg_for_sending := m1\<rparr>)), buf, ?N, w)"
      using s(1) by (simp add: poll_out_def msg_send_one_def Let_def)
    then show ?thesis using s(3) r False assms(2-4)
      by (intro exI [of _ False] exI [of _ "(p, Live (c\<lparr>msg_for_sending := m1\<rparr>))"] exI [of _ ?N]
          exI [of _ w] exI [of _ out] exI [of _ "content m1"]) simp
  qed
qed

section \<open>Properties\<close>

text \<open>
  C31: QUIT ends a session only in four states. There the client is sent the 221 reply, and its
  descriptor is closed in the very turn in which the last byte of that reply has gone out,
  whatever portions the socket takes; until then the rest of the reply waits and the
  connection stays open. In every other running state (but the text of a mail, in which
  the line is text) QUIT is silently accepted: nothing waits to be sent, and the turns in
  which the descriptor can be written leave the connection open.
\<close>

theorem quit_ends_session:
  assumes "session_wf c" "NUL \<notin> set (domain (mail_writer c))" "live_state (current_state c)"
    and "current_state c \<noteq> CLIENT_ST_EXPECTED_MSG_TEXT_OR_END_MSG" and "\<not> need_send c" "\<not> closed c"
    and "holds m s" "matches_only P SMTP_CMD_QUIT s" and "oom w = []" "clock w = [t]"
    and "revents p AND POLLIN = 0" "revents p AND POLLOUT \<noteq> 0"
  shows "\<exists>c1 m1. client_process_recv P c m w = Done (CE_SUCCESS, c1, m1, w) \<and> current_state c1 = CLIENT_ST_QUIT_RECEIVED \<and> \<not> closed c1
    \<and> (if current_state c \<in> quit_answered
       then need_send c1 \<and> (\<exists>need x N1 w1 out rest. poll_entry P T (p, Live c1) buf N w = Done (need, x, buf, N1, w1)
         \<and> wire N1 (fd p) = wire N (fd p) @ out \<and> SMTP_QUIT_SUCCESS_ANSWER = out @ rest
         \<and> (if rest = [] then need \<and> fd (fst x) = -1 \<and> shut N1 = shut N @ [fd p]
            else \<not> need \<and> shut N1 = shut N \<and> (\<exists>c2. x = (p, Live c2) \<and> need_send c2 \<and> \<not> closed c2
              \<and> current_state c2 = CLIENT_ST_QUIT_RECEIVED \<and> content (msg_for_sending c2) = rest)))
       else \<not> need_send c1 \<and> (\<exists>c2. poll_entry P T (p, Live c1) buf N w = Done (False, (p, Live c2), buf, N, w)
         \<and> \<not> need_send c2 \<and> \<not> closed c2))"
proof -
  obtain m1 r c1 where 1: "client_process_recv P c m w = Done (CE_SUCCESS, c1, m1, w)" "session_wf c1" "content r = SMTP_QUIT_SUCCESS_ANSWER"
    "c1 = (if current_state c \<in> quit_answered then c\<lparr>msg_for_sending := r, need_send := True\<rparr> else c)
        \<lparr>current_state := CLIENT_ST_QUIT_RECEIVED, timeout_start_time := t\<rparr>"
    using recv_quit [OF assms(1-4,7-10)] by blast
  have c1: "current_state c1 = CLIENT_ST_QUIT_RECEIVED" "\<not> closed c1" "need_send c1 \<longleftrightarrow> current_state c \<in> quit_answered"
    using 1(4) assms(5,6) by simp_all
  have rv: "revents p \<noteq> 0"
  proof
    assume "revents p = 0"
    with assms(12) show False by simp
  qed
  show ?thesis
  proof (cases "current_state c \<in> quit_answered")
    case True
    then have "content (msg_for_sending c1) = SMTP_QUIT_SUCCESS_ANSWER" using 1(3,4) by simp
    moreover have "poll_entry P T (p, Live c1) buf N w = poll_out P p c1 buf N w"
      using True c1(3) rv assms(11,12) by (simp add: poll_entry_def live_session_def)
    moreover note poll_out_quit [OF 1(2) c1(1) _ c1(2), of P p buf N w]
    ultimately show ?thesis using True c1 1(1) by (intro exI [of _ c1] exI [of _ m1]) simp
  next
    case False
    let ?c2 = "if size_sub t (timeout_start_time c1) \<le> T then c1 else c1\<lparr>current_state := CLIENT_ST_TIMEOUT\<rparr>"
    have "live_state (current_state c1)" using c1(1) by (simp add: live_state_iff)
    from timeout_keeps_connection [OF this assms(10), of P T]
    have "poll_entry P T (p, Live c1) buf N w = Done (False, (p, Live ?c2), buf, N, w)"
      using False c1(2,3) rv assms(11) by (simp add: poll_entry_def live_session_def)
    then show ?thesis using False c1 1(1) by (intro exI [of _ c1] exI [of _ m1]) auto
  qed
qed

section \<open>Examples\<close>

definition quit_matcher :: pcre_lib where
  "quit_matcher = no_match\<lparr>pcre_exec := (\<lambda>re s. if re = RE_QUIT \<and> s = ''quit'' @ CRLF then (1, [int 0, int 6]) else (-1, []))\<rparr>"

lemma RE_QUIT_unique: "smtp_cmds m = RE_QUIT \<longleftrightarrow> m = SMTP_CMD_QUIT"
  using RE_hd by (cases m) auto

definition quit_net :: "send_res list \<Rightarrow> net" where
  "quit_net ss = \<lparr>rin = (\<lambda>_. []), sout = (\<lambda>_. ss), wire = (\<lambda>_. []), shut = []\<rparr>"

theorem quit_ends_session_witness:
  "\<exists>c1 m1 need x N1 w1 out rest. client_process_recv quit_matcher (blank_client\<lparr>current_state := CLIENT_ST_CLIENT_INITED\<rparr>)
      (buffer_with (''quit'' @ CRLF)) world_example = Done (CE_SUCCESS, c1, m1, world_example)
    \<and> poll_entry quit_matcher 300 (\<lparr>fd = 7, events = POLLOUT, revents = POLLOUT\<rparr>, Live c1) msg_null (quit_net [Sent 1000]) world_example
      = Done (need, x, msg_null, N1, w1)
    \<and> wire N1 7 = out \<and> SMTP_QUIT_SUCCESS_ANSWER = out @ rest \<and> (rest = [] \<longrightarrow> shut N1 = [7])"
proof -
  let ?c = "blank_client\<lparr>current_state := CLIENT_ST_CLIENT_INITED\<rparr>" and ?p = "\<lparr>fd = 7, events = POLLOUT, revents = POLLOUT\<rparr>"
  have wf: "session_wf ?c" by simp
  have c: "NUL \<notin> set (domain (mail_writer ?c))" "live_state (current_state ?c)"
    "current_state ?c \<noteq> CLIENT_ST_EXPECTED_MSG_TEXT_OR_END_MSG" "\<not> need_send ?c" "\<not> closed ?c"
    by (simp_all add: blank_client_def mw_example_def live_state_iff)
  have m: "holds (buffer_with (''quit'' @ CRLF)) (''quit'' @ CRLF)" "matches_only quit_matcher SMTP_CMD_QUIT (''quit'' @ CRLF)"
    by (simp_all add: holds_buffer_with) (auto simp: matches_only_def quit_matcher_def no_match_def RE_QUIT_unique)
  have w: "oom world_example = []" "clock world_example = [9]" by (simp_all add: world_example_def plenty_def)
  have p: "revents ?p AND POLLIN = 0" "revents ?p AND POLLOUT \<noteq> 0" by (simp_all add: POLLIN_def POLLOUT_def)
  have q: "current_state ?c \<in> quit_answered" by (simp add: quit_answered_def)
  from quit_ends_session [OF wf c m w p, of 300 msg_null "quit_net [Sent 1000]"] q show ?thesis
    by (auto simp: quit_net_def split: if_splits) 
qed

end
