(* ===== verification/Server_Thread_Pool.thy ===== *)
theory Server_Thread_Pool
  imports Server_Queue
begin

text \<open>
  Jobs and the pool of threads, \<^verbatim>\<open>server/src/job.c\<close> and \<^verbatim>\<open>server/src/thread_pool.c\<close>. The
  server uses the pool with its own thread function and stores descriptors in the job
  queue; the jobs proper, a function with a copy of its argument, are part of the pool's
  interface and not used by the program.
\<close>

section \<open>Jobs\<close>

text \<open>
  A function pointer is the function itself; the copy of the argument is a block of its
  own, \<open>None\<close> for a null pointer.
\<close>

record job_t =
  work_function :: "string \<Rightarrow> error_code"
  jarg :: "string option"
  arg_destructor :: bool
  jerr :: error_code

definition job_init :: "job_t \<Rightarrow> (string \<Rightarrow> error_code) \<Rightarrow> string \<Rightarrow> bool \<Rightarrow> world \<Rightarrow> error_code \<times> job_t \<times> world" where
  "job_init job f arg has_destructor w =
     (let (ok, w1) = alloc w in
      if \<not> ok then (CE_ALLOC, job\<lparr>jarg := None\<rparr>, w1)
      else (CE_SUCCESS, job\<lparr>jarg := Some arg, work_function := f, arg_destructor := has_destructor\<rparr>, w1))"

text \<open>The functions of the jobs get the pointer to the argument and dereference it.\<close>

definition job_run :: "job_t \<Rightarrow> job_t run" where
  "job_run job = (case jarg job of None \<Rightarrow> Fault Null_Deref | Some a \<Rightarrow> Done (job\<lparr>jerr := work_function job a\<rparr>))"

definition job_destroy :: "job_t \<Rightarrow> job_t" where
  "job_destroy job = job\<lparr>jarg := None\<rparr>"

section \<open>The pool\<close>

text \<open>
  The descriptor of a thread is \<open>None\<close> until \<^verbatim>\<open>thrd_create\<close> wrote it. The pointers of a
  worker to the pool, to its queue and to the data of the caller are the same for all.
\<close>

record pool_worker =
  td :: "nat option"
  pw_id :: nat
  end_flag :: bool

record 'f thread_pool_t =
  main_func :: 'f
  job_queue :: queue_t
  job_destructor :: bool
  workers :: "pool_worker option list"
  pool_size :: nat
  is_ended :: nat

text \<open>
  The loop that starts the threads: the result is the slots and the index at which it
  stopped. \<open>create i\<close> is the identifier \<^verbatim>\<open>thrd_create\<close> stores for slot \<open>i\<close>, or its failure.
\<close>

fun create_threads :: "(nat \<Rightarrow> nat option) \<Rightarrow> nat list \<Rightarrow> pool_worker option list \<Rightarrow> pool_worker option list \<times> nat option" where
  "create_threads create [] ws = (ws, None)"
| "create_threads create (i # is) ws =
     (case create i of
        None \<Rightarrow> (ws[i := Some \<lparr>td = None, pw_id = i, end_flag = False\<rparr>], Some i)
      | Some t \<Rightarrow> create_threads create is (ws[i := Some \<lparr>td = Some t, pw_id = i, end_flag = False\<rparr>]))"

definition set_end_flag :: "nat \<Rightarrow> pool_worker option list \<Rightarrow> pool_worker option list run" where
  "set_end_flag j ws =
     (if length ws \<le> j then Fault Out_Of_Bounds
      else case ws ! j of None \<Rightarrow> Fault Uninit_Read | Some x \<Rightarrow> Done (ws[j := Some (x\<lparr>end_flag := True\<rparr>)]))"

fun set_end_flags :: "nat list \<Rightarrow> pool_worker option list \<Rightarrow> pool_worker option list run" where
  "set_end_flags [] ws = Done ws"
| "set_end_flags (j # js) ws = rbind (set_end_flag j ws) (set_end_flags js)"

text \<open>
  \<^verbatim>\<open>thrd_join\<close> returns when the thread has ended. The loops of the threads test nothing but
  their flag, so a thread that was asked to end by its flag ends after the turn it is in, and
  the wait for one that was not asked does not end. The result is the identifiers joined, in
  order.
\<close>

definition join_slot :: "nat \<Rightarrow> pool_worker option list \<Rightarrow> nat run" where
  "join_slot i ws =
     (if length ws \<le> i then Fault Out_Of_Bounds
      else case ws ! i of None \<Rightarrow> Fault Uninit_Read
      | Some x \<Rightarrow> (case td x of None \<Rightarrow> Fault Uninit_Read
          | Some t \<Rightarrow> if end_flag x then Done t else Fault Waits_Forever))"

fun join_slots :: "nat list \<Rightarrow> pool_worker option list \<Rightarrow> nat list run" where
  "join_slots [] ws = Done []"
| "join_slots (i # is) ws = rbind (join_slot i ws) (\<lambda>t. rbind (join_slots is ws) (\<lambda>ts. Done (t # ts)))"

text \<open>
  The joining loop after a failed start counts \<open>i\<close> up and compares \<open>j\<close>, which stays zero: it is
  entered unless \<open>i\<close> is zero and then goes on until it reads a slot that has no thread. The
  recursion ends because the slots do.
\<close>

function join_failed :: "nat \<Rightarrow> pool_worker option list \<Rightarrow> unit run" where
  "join_failed i ws =
     (if 0 < i
      then if length ws \<le> i then Fault Out_Of_Bounds else rbind (join_slot i ws) (\<lambda>_. join_failed (i + 1) ws)
      else Done ())"
  by pat_completeness auto
termination
  by (relation "measure (\<lambda>(i, ws). length ws - i)") auto

declare join_failed.simps [simp del]

text \<open>
  \<open>mtx_ok\<close> and \<open>cnd_ok\<close> are the outcomes of the initialisation inside \<^verbatim>\<open>queue_init\<close>; \<open>f\<close> is the
  thread function, \<open>None\<close> for the pool's own one, \<open>dflt\<close>.
\<close>

definition thread_pool_init :: "'f thread_pool_t \<Rightarrow> nat \<Rightarrow> 'f option \<Rightarrow> 'f \<Rightarrow> bool \<times> bool \<Rightarrow> (nat \<Rightarrow> nat option) \<Rightarrow> node_heap \<Rightarrow> world
    \<Rightarrow> (error_code \<times> 'f thread_pool_t \<times> node_heap \<times> world) run" where
  "thread_pool_init tp n f dflt ok create h w =
     (let (mem, w1) = alloc w in
      if \<not> mem then Done (CE_ALLOC, tp, h, w1)
      else let (cerr, q) = queue_init (fst ok) (snd ok); tp1 = tp\<lparr>pool_size := n, job_queue := q, workers := replicate n None\<rparr> in
      if cerr \<noteq> CE_SUCCESS then Done (cerr, tp1\<lparr>workers := []\<rparr>, h, w1)
      else let (ws, stopped) = create_threads create [0..<n] (replicate n None);
               tp2 = tp1\<lparr>is_ended := 0, job_destructor := True, workers := ws,
                         main_func := (if n = 0 then main_func tp1 else case f of None \<Rightarrow> dflt | Some g \<Rightarrow> g)\<rparr> in
        case stopped of
          None \<Rightarrow> Done (CE_SUCCESS, tp2, h, w1)
        | Some i \<Rightarrow> rbind (set_end_flags [0..<i] ws) (\<lambda>ws1.
            rbind (join_failed i ws1) (\<lambda>_.
              case queue_destroy (qsize q) q h of
                Some (Done (q1, h1)) \<Rightarrow> Done (CE_INIT_3RD, tp2\<lparr>workers := [], job_queue := q1\<rparr>, h1, w1)
              | Some (Fault e) \<Rightarrow> Fault e
              | None \<Rightarrow> Fault Dangling)))"

text \<open>\<open>bytes_of\<close> is the job as the bytes of its structure.\<close>

definition thread_pool_push_job :: "(job_t \<Rightarrow> string) \<Rightarrow> bool \<Rightarrow> 'f thread_pool_t \<Rightarrow> job_t \<Rightarrow> node_heap
    \<Rightarrow> (error_code \<times> 'f thread_pool_t \<times> node_heap) run" where
  "thread_pool_push_job bytes_of lock_ok tp job h =
     rbind (queue_push_back lock_ok (bytes_of job) (job_queue tp) h) (\<lambda>(e, q, h1). Done (e, tp\<lparr>job_queue := q\<rparr>, h1))"

text \<open>Destroying the pool: the result has the threads joined and the queue without its nodes.\<close>

definition thread_pool_destroy :: "'f thread_pool_t \<Rightarrow> node_heap \<Rightarrow> (nat list \<times> 'f thread_pool_t \<times> node_heap) run" where
  "thread_pool_destroy tp h =
     rbind (set_end_flags [0..<pool_size tp] (workers tp)) (\<lambda>ws.
     rbind (join_slots [0..<pool_size tp] ws) (\<lambda>ts.
       case queue_destroy (qsize (job_queue tp)) (job_queue tp) h of
         Some (Done (q, h1)) \<Rightarrow> Done (ts, tp\<lparr>workers := [], job_queue := q\<rparr>, h1)
       | Some (Fault e) \<Rightarrow> Fault e
       | None \<Rightarrow> Fault Dangling))"

section \<open>The pool's own thread function\<close>

text \<open>
  The loop of \<^verbatim>\<open>main_worker_func\<close> in \<^verbatim>\<open>thread_pool.c\<close> over its iterations until the flag is
  set. An iteration has the outcome of the lock and what other threads do to the queue while
  the thread waits; \<open>job_of\<close> reads a job out of its bytes, of which there are \<open>sz\<close>. The
  result has the jobs run, with their outcomes.
\<close>

definition job_step :: "(string \<Rightarrow> job_t) \<Rightarrow> nat \<Rightarrow> bool \<times> (queue_t \<times> node_heap \<Rightarrow> queue_t \<times> node_heap) \<Rightarrow> queue_t \<Rightarrow> node_heap
    \<Rightarrow> (job_t option \<times> queue_t \<times> node_heap) run" where
  "job_step job_of sz env q h =
     rbind (queue_pop_front (fst env) (snd env) sz q h) (\<lambda>(err, b, q1, h1).
       if err \<noteq> CE_SUCCESS then Done (None, q1, h1)
       else rbind (job_run (job_of b)) (\<lambda>job. Done (Some (job_destroy job), q1, h1)))"

fun job_worker_func :: "(string \<Rightarrow> job_t) \<Rightarrow> nat \<Rightarrow> (bool \<times> (queue_t \<times> node_heap \<Rightarrow> queue_t \<times> node_heap)) list \<Rightarrow> queue_t \<Rightarrow> node_heap
    \<Rightarrow> (job_t list \<times> queue_t \<times> node_heap) run" where
  "job_worker_func job_of sz [] q h = Done ([], q, h)"
| "job_worker_func job_of sz (env # envs) q h =
     rbind (job_step job_of sz env q h) (\<lambda>(job, q1, h1).
     rbind (job_worker_func job_of sz envs q1 h1) (\<lambda>(jobs, q2, h2).
       Done (case job of None \<Rightarrow> jobs | Some j \<Rightarrow> j # jobs, q2, h2)))"

section \<open>Starting and stopping\<close>

definition started_slot :: "(nat \<Rightarrow> nat option) \<Rightarrow> nat \<Rightarrow> pool_worker" where
  "started_slot create j = \<lparr>td = create j, pw_id = j, end_flag = False\<rparr>"

definition slots_at :: "(nat \<Rightarrow> nat option) \<Rightarrow> nat \<Rightarrow> nat \<Rightarrow> pool_worker option list" where
  "slots_at create k n = map (\<lambda>j. if j < k then Some (started_slot create j) else None) [0..<n]"

lemma slots_at_simps [simp]: "length (slots_at create k n) = n" "slots_at create 0 n = replicate n None"
  "j < n \<Longrightarrow> slots_at create k n ! j = (if j < k then Some (started_slot create j) else None)"
  by (simp_all add: slots_at_def map_replicate_const)

lemma slots_at_Suc: "k < n \<Longrightarrow> (slots_at create k n)[k := Some (started_slot create k)] = slots_at create (Suc k) n"
  by (rule nth_equalityI) (auto simp: nth_list_update less_Suc_eq)

lemma create_upto:
  "k \<le> n \<Longrightarrow> \<forall>j < k. create j \<noteq> None \<Longrightarrow>
     create_threads create [0..<n] (replicate n None) = create_threads create [k..<n] (slots_at create k n)"
proof (induction k)
  case (Suc k)
  then obtain t where t: "create k = Some t" by blast
  have "create_threads create [0..<n] (replicate n None) = create_threads create [k..<n] (slots_at create k n)" using Suc by simp
  also have "[k..<n] = k # [Suc k..<n]" using Suc.prems(1) by (simp add: upt_conv_Cons)
  also have "create_threads create (k # [Suc k..<n]) (slots_at create k n) = create_threads create [Suc k..<n] (slots_at create (Suc k) n)"
    using t slots_at_Suc [of k n create] Suc.prems(1) by (simp add: started_slot_def)
  finally show ?case .
qed simp

lemma set_end_flags_ok:
  "\<forall>j \<in> set js. j < length ws \<and> ws ! j \<noteq> None \<Longrightarrow>
     \<exists>ws'. set_end_flags js ws = Done ws' \<and> length ws' = length ws \<and> (\<forall>i < length ws. map_option td (ws' ! i) = map_option td (ws ! i))
       \<and> (\<forall>i < length ws. i \<in> set js \<or> map_option end_flag (ws ! i) = Some True \<longrightarrow> map_option end_flag (ws' ! i) = Some True)"
proof (induction js arbitrary: ws)
  case (Cons j js)
  then obtain x where x: "j < length ws" "ws ! j = Some x" by auto
  let ?ws = "ws[j := Some (x\<lparr>end_flag := True\<rparr>)]"
  have "\<forall>i \<in> set js. i < length ?ws \<and> ?ws ! i \<noteq> None" using Cons.prems by (auto simp: nth_list_update)
  from Cons.IH [OF this] obtain ws' where "set_end_flags js ?ws = Done ws'" "length ws' = length ws"
    "\<forall>i < length ws. map_option td (ws' ! i) = map_option td (?ws ! i)"
    "\<forall>i < length ws. i \<in> set js \<or> map_option end_flag (?ws ! i) = Some True \<longrightarrow> map_option end_flag (ws' ! i) = Some True" by auto
  with x show ?case by (intro exI [of _ ws']) (simp add: set_end_flag_def nth_list_update)
qed simp

lemma join_slots_ok:
  "\<forall>i \<in> set js. i < length ws \<and> map_option td (ws ! i) = Some (Some (f i)) \<and> map_option end_flag (ws ! i) = Some True
    \<Longrightarrow> join_slots js ws = Done (map f js)"
  by (induction js) (auto simp: join_slot_def)

lemma thread_pool_destroy_ok:
  assumes "workers tp = slots_at create n n" "pool_size tp = n" "\<forall>j < n. create j \<noteq> None" and q: "queue_rep (job_queue tp) g as vs"
  shows "\<exists>tp' g'. thread_pool_destroy tp g = Done (map (the \<circ> create) [0..<n], tp', g') \<and> (\<forall>a \<in> set as. cells g' a = None)"
proof -
  have all: "\<forall>j \<in> set [0..<n]. j < length (workers tp) \<and> workers tp ! j \<noteq> None" using assms(1) by simp
  obtain ws' where ws': "set_end_flags [0..<n] (workers tp) = Done ws'" "length ws' = n" "\<forall>i < n. map_option td (ws' ! i) = Some (create i)"
    "\<forall>i < n. map_option end_flag (ws' ! i) = Some True"
    using set_end_flags_ok [OF all] assms(1) by (auto simp: started_slot_def)
  have "\<forall>i \<in> set [0..<n]. i < length ws' \<and> map_option td (ws' ! i) = Some (Some ((the \<circ> create) i))
      \<and> map_option end_flag (ws' ! i) = Some True"
    using ws' assms(3) by auto
  then have j: "join_slots [0..<n] ws' = Done (map (the \<circ> create) [0..<n])" by (rule join_slots_ok)
  have "qsize (job_queue tp) = length vs" using q by (auto simp: queue_rep_def dest: list_all2_lengthD)
  then obtain q1 g1 where "queue_destroy (qsize (job_queue tp)) (job_queue tp) g = Some (Done (q1, g1))" "\<forall>a \<in> set as. cells g1 a = None"
    using queue_destroy_ok [OF q] by auto
  then show ?thesis using assms(2) ws'(1) j by (simp add: thread_pool_destroy_def)
qed

text \<open>
  C28: starting the pool: when every thread can be created, the pool has all of them, each
  with its own number, and an empty queue; destroying it later, with whatever is queued by
  then, asks every thread to end, joins each once and frees the queue. When the first thread
  cannot be created the failure is reported cleanly; when a later one cannot, the clean-up
  reads the descriptor that was never written.
\<close>

theorem thread_pool_init_outcome:
  assumes "oom w = []" and "k \<le> n" and "\<forall>j < k. create j \<noteq> None" and "k < n \<Longrightarrow> create k = None"
  shows "if k = n
    then \<exists>tp'. thread_pool_init tp n f dflt (True, True) create h w = Done (CE_SUCCESS, tp', h, w) \<and> queue_rep (job_queue tp') h [] []
      \<and> pool_size tp' = n \<and> workers tp' = map (\<lambda>j. Some \<lparr>td = create j, pw_id = j, end_flag = False\<rparr>) [0..<n]
      \<and> (\<forall>q g as vs. queue_rep q g as vs \<longrightarrow> (\<exists>tp'' g'. thread_pool_destroy (tp'\<lparr>job_queue := q\<rparr>) g = Done (map (the \<circ> create) [0..<n], tp'', g')
          \<and> (\<forall>a \<in> set as. cells g' a = None)))
    else if k = 0 then \<exists>tp'. thread_pool_init tp n f dflt (True, True) create h w = Done (CE_INIT_3RD, tp', h, w) \<and> workers tp' = []
    else thread_pool_init tp n f dflt (True, True) create h w = Fault Uninit_Read"
proof -
  have mem: "alloc w = (True, w)" using assms(1) by simp
  have cr: "create_threads create [0..<n] (replicate n None) = create_threads create [k..<n] (slots_at create k n)"
    by (rule create_upto [OF assms(2,3)])
  show ?thesis
  proof (cases "k = n")
    case True
    let ?ws = "map (\<lambda>j. Some \<lparr>td = create j, pw_id = j, end_flag = False\<rparr>) [0..<n]"
    have ws: "slots_at create k n = ?ws" using True by (simp add: slots_at_def started_slot_def)
    obtain tp' where i: "thread_pool_init tp n f dflt (True, True) create h w = Done (CE_SUCCESS, tp', h, w)"
      "pool_size tp' = n" "workers tp' = ?ws" "job_queue tp' = snd (queue_init True True)"
      using mem cr ws True by (simp add: thread_pool_init_def queue_init_def Let_def)
    have "\<exists>tp'' g'. thread_pool_destroy (tp'\<lparr>job_queue := q\<rparr>) g = Done (map (the \<circ> create) [0..<n], tp'', g') \<and> (\<forall>a \<in> set as. cells g' a = None)"
      if q: "queue_rep q g as vs" for q g as vs
      using thread_pool_destroy_ok [of "tp'\<lparr>job_queue := q\<rparr>" create n g as vs] i(2,3) ws q assms(3) True by simp
    with i queue_init_rep [of h] show ?thesis unfolding if_P [OF True] by (intro exI [of _ tp']) auto
  next
    case False
    then have k: "k < n" "create k = None" using assms(2,4) by auto
    let ?ws = "(slots_at create k n)[k := Some \<lparr>td = None, pw_id = k, end_flag = False\<rparr>]"
    have up: "[k..<n] = k # [Suc k..<n]" using k(1) by (simp add: upt_conv_Cons)
    have cr1: "create_threads create [0..<n] (replicate n None) = (?ws, Some k)" using cr k(2) unfolding up by simp
    have all: "\<forall>j \<in> set [0..<k]. j < length ?ws \<and> ?ws ! j \<noteq> None" using k(1) by auto
    obtain ws' where ws': "set_end_flags [0..<k] ?ws = Done ws'" "length ws' = n" "\<forall>i < n. map_option td (ws' ! i) = map_option td (?ws ! i)"
      using set_end_flags_ok [OF all] by auto
    have td: "map_option td (ws' ! k) = Some None" using ws'(3) k(1) by simp
    show ?thesis
    proof (cases "k = 0")
      case True
      obtain q1 where "queue_destroy 0 (snd (queue_init True True)) h = Some (Done (q1, h))"
        by (simp add: queue_init_def queue_destroy_def Let_def)
      moreover have "join_failed 0 ws' = Done ()" by (subst join_failed.simps) simp
      ultimately show ?thesis
        using mem cr1 ws'(1) True False by (simp add: thread_pool_init_def queue_init_def Let_def)
    next
      case pos: False
      have "join_failed k ws' = Fault Uninit_Read" using pos k(1) ws'(2) td by (subst join_failed.simps) (auto simp: join_slot_def)
      then show ?thesis using mem cr1 ws'(1) pos False by (simp add: thread_pool_init_def queue_init_def Let_def)
    qed
  qed
qed

definition blank_pool :: "nat thread_pool_t" where
  "blank_pool = \<lparr>main_func = 0, job_queue = snd (queue_init True True), job_destructor = False, workers = [], pool_size = 0, is_ended = 0\<rparr>"

theorem thread_pool_init_outcome_witness:
  "thread_pool_init blank_pool 4 (Some 1) 0 (True, True) (\<lambda>i. if i < 2 then Some (100 + i) else None) empty_heap plenty = Fault Uninit_Read
   \<and> (\<exists>tp'. thread_pool_init blank_pool 2 (Some 1) 0 (True, True) (\<lambda>i. if i < 2 then Some (100 + i) else None) empty_heap plenty
        = Done (CE_SUCCESS, tp', empty_heap, plenty)
      \<and> (\<exists>tp'' g'. thread_pool_destroy (tp'\<lparr>job_queue := fst one_job\<rparr>) (snd one_job) = Done ([100, 101], tp'', g') \<and> cells g' 0 = None))"
proof -
  let ?c = "\<lambda>i. if i < 2 then Some (100 + i :: nat) else None"
  have o: "oom plenty = []" by (simp add: plenty_def)
  have "thread_pool_init blank_pool 4 (Some 1) 0 (True, True) ?c empty_heap plenty = Fault Uninit_Read"
    using thread_pool_init_outcome [OF o, of 2 4 ?c blank_pool "Some 1" 0 empty_heap] by simp
  moreover have "queue_rep (fst one_job) (snd one_job) [0] [''job'']" by (simp add: one_job_def queue_rep_def stored_def)
  moreover have "map (the \<circ> ?c) [0..<2] = [100, 101]" by (simp add: numeral_2_eq_2)
  ultimately show ?thesis
    using thread_pool_init_outcome [OF o, of 2 2 ?c blank_pool "Some 1" 0 empty_heap] by fastforce
qed

section \<open>Jobs run in order\<close>

lemma queue_pop_rep:
  assumes "queue_rep q h (a # as) (v # vs)"
  shows "\<exists>q' h'. queue_pop_front True wait (length v) q h = Done (CE_SUCCESS, v, q', h') \<and> queue_rep q' h' as vs"
  using pop_locked_rep [OF assms] assms by (auto simp: queue_pop_front_def Let_def queue_rep_def)

text \<open>
  The pool's own thread function runs the jobs of the queue one after the other, each once,
  on its argument, whatever other threads would do while it waits.
\<close>

theorem pool_runs_jobs:
  assumes "queue_rep q h as (map bytes_of js)" and "\<forall>j \<in> set js. job_of (bytes_of j) = j \<and> length (bytes_of j) = sz \<and> jarg j \<noteq> None"
  shows "\<exists>q' h'. job_worker_func job_of sz (map (\<lambda>_. (True, wait)) js) q h
      = Done (map (\<lambda>j. j\<lparr>jerr := work_function j (the (jarg j)), jarg := None\<rparr>) js, q', h') \<and> queue_rep q' h' [] []"
  using assms
proof (induction js arbitrary: q h as)
  case (Cons j js)
  have rep: "queue_rep q h as (bytes_of j # map bytes_of js)" and sz: "length (bytes_of j) = sz" using Cons.prems by simp_all
  obtain a as' where as: "as = a # as'" using queue_rep_Cons [OF rep] by blast
  obtain q1 h1 where p: "queue_pop_front True wait sz q h = Done (CE_SUCCESS, bytes_of j, q1, h1)" "queue_rep q1 h1 as' (map bytes_of js)"
    using queue_pop_rep [OF rep [unfolded as], of wait] unfolding sz by blast
  obtain x where j: "job_of (bytes_of j) = j" "jarg j = Some x" using Cons.prems(2) by auto
  have "job_step job_of sz (True, wait) q h = Done (Some (j\<lparr>jerr := work_function j (the (jarg j)), jarg := None\<rparr>), q1, h1)"
    using p(1) j by (simp add: job_step_def job_run_def job_destroy_def)
  moreover obtain q' h' where "job_worker_func job_of sz (map (\<lambda>_. (True, wait)) js) q1 h1
      = Done (map (\<lambda>j. j\<lparr>jerr := work_function j (the (jarg j)), jarg := None\<rparr>) js, q', h')" "queue_rep q' h' [] []"
    using Cons.IH [OF p(2)] Cons.prems(2) by auto
  ultimately show ?case by simp
qed (auto simp: queue_rep_def)

end
