(* ===== verification/Server_Logger.thy ===== *)
theory Server_Logger
  imports Server_Queue
begin

text \<open>
  The log of the server, \<^verbatim>\<open>server/src/logger.c\<close>: every thread formats its records into
  blocks of 2000 bytes and pushes them into a queue, one thread takes them out and writes
  them to the log file and to the other outputs.
\<close>

section \<open>The logger\<close>

text \<open>
  The outputs are kept as the text written to each of them; their number is
  \<^verbatim>\<open>current_outputs\<close>. The results of \<^verbatim>\<open>fopen\<close> and of the initialisation of the mutex and of
  the condition variable are inputs.
\<close>

record logger_t =
  outputs :: "string list"
  log_queue :: queue_t
  log_end_flag :: bool

definition MAX_LOGGER_OUTPUTS :: nat where "MAX_LOGGER_OUTPUTS = 10"
definition LOG_T_SIZE :: nat where "LOG_T_SIZE = 2000"

definition init_log :: "bool \<Rightarrow> bool \<times> bool \<Rightarrow> logger_t \<Rightarrow> error_code \<times> logger_t" where
  "init_log opened ok lg =
     (if \<not> opened then (CE_COMMON, lg\<lparr>log_end_flag := False, outputs := []\<rparr>)
      else let (e, q) = queue_init (fst ok) (snd ok); lg1 = lg\<lparr>log_end_flag := False, outputs := [[]], log_queue := q\<rparr> in
        if e \<noteq> CE_SUCCESS then (CE_INIT_3RD, lg1) else (CE_SUCCESS, lg1))"

text \<open>\<open>written\<close> is what the file holds already.\<close>

definition add_output :: "string \<Rightarrow> logger_t \<Rightarrow> error_code \<times> logger_t" where
  "add_output written lg =
     (if length (outputs lg) = MAX_LOGGER_OUTPUTS then (CE_MAX_SIZE, lg)
      else (CE_SUCCESS, lg\<lparr>outputs := outputs lg @ [written]\<rparr>))"

section \<open>Writing records\<close>

text \<open>Microseconds in a \<^verbatim>\<open>size_t\<close>, printed with the format of a signed \<^verbatim>\<open>long\<close>.\<close>

definition get_time :: "nat \<times> nat \<Rightarrow> nat" where
  "get_time tv = (fst tv * 1000000 + snd tv) mod 2 ^ 64"

definition show_long :: "nat \<Rightarrow> string" where
  "show_long x = (if x < 2 ^ 63 then show_nat x else CHR ''-'' # show_nat (2 ^ 64 - x))"

definition record_text :: "nat \<Rightarrow> string \<Rightarrow> string \<Rightarrow> string \<Rightarrow> string" where
  "record_text time level sys msg =
     snprintf LOG_T_SIZE (show_long time @ '' | '' @ level @ '' | '' @ sys @ '' | '' @ msg @ [LF])"

text \<open>The block that is pushed: the text, its terminator and whatever the stack held behind it.\<close>

definition record_block :: "string \<Rightarrow> string \<Rightarrow> string" where
  "record_block raw s = s @ NUL # drop (length s + 1) raw"

text \<open>Whether the record could be queued is not looked at.\<close>

definition inner_log :: "bool \<Rightarrow> string \<Rightarrow> nat \<Rightarrow> string \<Rightarrow> string \<Rightarrow> string \<Rightarrow> logger_t \<Rightarrow> node_heap \<Rightarrow> (logger_t \<times> node_heap) run" where
  "inner_log lock_ok raw time level sys msg lg h =
     rbind (queue_push_back lock_ok (record_block raw (record_text time level sys msg)) (log_queue lg) h) (\<lambda>(_, q, h1).
       Done (lg\<lparr>log_queue := q\<rparr>, h1))"

definition log_critical :: "bool \<Rightarrow> string \<Rightarrow> nat \<times> nat \<Rightarrow> string \<Rightarrow> string \<Rightarrow> logger_t \<Rightarrow> node_heap \<Rightarrow> (logger_t \<times> node_heap) run" where
  "log_critical lock_ok raw tv sys msg lg h = inner_log lock_ok raw (get_time tv) ''CRITICAL'' sys msg lg h"

definition log_warning :: "bool \<Rightarrow> string \<Rightarrow> nat \<times> nat \<Rightarrow> string \<Rightarrow> string \<Rightarrow> logger_t \<Rightarrow> node_heap \<Rightarrow> (logger_t \<times> node_heap) run" where
  "log_warning lock_ok raw tv sys msg lg h = inner_log lock_ok raw (get_time tv) ''WARNING'' sys msg lg h"

definition log_info :: "bool \<Rightarrow> string \<Rightarrow> nat \<times> nat \<Rightarrow> string \<Rightarrow> string \<Rightarrow> logger_t \<Rightarrow> node_heap \<Rightarrow> (logger_t \<times> node_heap) run" where
  "log_info lock_ok raw tv sys msg lg h = inner_log lock_ok raw (get_time tv) ''INFO'' sys msg lg h"

section \<open>The thread of the logger\<close>

text \<open>
  One turn of the loop: the result of taking a record out decides whether something is
  written. \<^verbatim>\<open>sleep\<close> takes whole seconds, so \<^verbatim>\<open>sleep(0.1)\<close> does not wait at all.
\<close>

definition logger_turn :: "bool \<Rightarrow> logger_t \<Rightarrow> node_heap \<Rightarrow> (logger_t \<times> node_heap) run" where
  "logger_turn lock_ok lg h =
     rbind (queue_try_pop_front lock_ok LOG_T_SIZE (log_queue lg) h) (\<lambda>(cerr, msg, q, h1).
       if cerr \<noteq> CE_SUCCESS then Done (lg\<lparr>log_queue := q\<rparr>, h1)
       else rbind (if outputs lg = [] then Done [] else read_c_str msg) (\<lambda>s.
         Done (lg\<lparr>log_queue := q, outputs := map (\<lambda>out. out @ s) (outputs lg)\<rparr>, h1)))"

text \<open>
  The turns until the end flag is set; before each of them the other threads may have
  changed the queue.
\<close>

fun logger_thread :: "((queue_t \<times> node_heap \<Rightarrow> queue_t \<times> node_heap) \<times> bool) list \<Rightarrow> logger_t \<Rightarrow> node_heap \<Rightarrow> (logger_t \<times> node_heap) run" where
  "logger_thread [] lg h = Done (lg, h)"
| "logger_thread ((others, lock_ok) # es) lg h =
     (let (q, h0) = others (log_queue lg, h) in
      rbind (logger_turn lock_ok (lg\<lparr>log_queue := q\<rparr>) h0) (\<lambda>(lg1, h1). logger_thread es lg1 h1))"

text \<open>The first output is closed, the others stay open; records that are still queued are freed.\<close>

definition destroy_logger :: "logger_t \<Rightarrow> node_heap \<Rightarrow> (logger_t \<times> node_heap) run" where
  "destroy_logger lg h =
     (case queue_destroy (qsize (log_queue lg)) (log_queue lg) h of
        Some (Done (q, h1)) \<Rightarrow> Done (lg\<lparr>log_queue := q\<rparr>, h1)
      | Some (Fault e) \<Rightarrow> Fault e
      | None \<Rightarrow> Fault Dangling)"

section \<open>Records reach every output in order\<close>

text \<open>A record as the threads log it: junk of the stack, time, level, system, message.\<close>

type_synonym log_event = "string \<times> (nat \<times> nat) \<times> string \<times> string \<times> string"

fun event_text :: "log_event \<Rightarrow> string" where
  "event_text (raw, tv, level, sys, msg) = record_text (get_time tv) level sys msg"

fun event_ok :: "log_event \<Rightarrow> bool" where
  "event_ok (raw, tv, level, sys, msg) \<longleftrightarrow> length raw = LOG_T_SIZE \<and> NUL \<notin> set (level @ sys @ msg)"

fun log_events :: "log_event list \<Rightarrow> logger_t \<Rightarrow> node_heap \<Rightarrow> (logger_t \<times> node_heap) run" where
  "log_events [] lg h = Done (lg, h)"
| "log_events ((raw, tv, level, sys, msg) # es) lg h =
     rbind (inner_log True raw (get_time tv) level sys msg lg h) (\<lambda>(lg1, h1). log_events es lg1 h1)"

definition event_block :: "log_event \<Rightarrow> string" where
  "event_block e = record_block (fst e) (event_text e)"

lemma event_block_Pair: "event_block (raw, tv, level, sys, msg) = record_block raw (record_text (get_time tv) level sys msg)"
  by (simp add: event_block_def)

lemma show_long_no_NUL [simp]: "NUL \<notin> set (show_long x)"
  by (auto simp: show_long_def dest: show_nat_digits)

lemma event_block_ok:
  assumes "event_ok e"
  shows "length (event_block e) = LOG_T_SIZE" "read_c_str (event_block e) = Done (event_text e)"
proof -
  obtain raw tv level sys msg where e: "e = (raw, tv, level, sys, msg)" by (cases e)
  have l: "length (event_text e) < LOG_T_SIZE" unfolding e event_text.simps record_text_def
    by (rule length_snprintf) (simp add: LOG_T_SIZE_def)
  have "NUL \<notin> set (show_long (get_time tv) @ '' | '' @ level @ '' | '' @ sys @ '' | '' @ msg @ [LF])" using assms e by auto
  then have n: "NUL \<notin> set (event_text e)" unfolding e event_text.simps record_text_def by (rule snprintf_no_NUL)
  show "length (event_block e) = LOG_T_SIZE" using l assms by (simp add: event_block_def record_block_def e)
  show "read_c_str (event_block e) = Done (event_text e)"
    using c_str_append [OF n, of "NUL # drop (length (event_text e) + 1) (fst e)"]
    by (simp add: read_c_str_def event_block_def record_block_def)
qed

lemma log_events_rep:
  "queue_rep (log_queue lg) h as vs \<Longrightarrow> hoom h = [] \<Longrightarrow> length vs + length es \<le> qmax_size (log_queue lg) \<Longrightarrow>
     \<exists>q h1 as1. log_events es lg h = Done (lg\<lparr>log_queue := q\<rparr>, h1) \<and> queue_rep q h1 as1 (vs @ map event_block es)"
proof (induction es arbitrary: lg h as vs)
  case Nil
  then show ?case by (intro exI [of _ "log_queue lg"]) auto
next
  case (Cons e es)
  obtain raw tv level sys msg where e: "e = (raw, tv, level, sys, msg)" by (cases e)
  obtain q1 h1 as1 where p: "queue_push_back True (event_block e) (log_queue lg) h = Done (CE_SUCCESS, q1, h1)"
    "queue_rep q1 h1 as1 (vs @ [event_block e])" "qmax_size q1 = qmax_size (log_queue lg)"
    using queue_push_back_rep [OF Cons.prems(1), of True "event_block e"] Cons.prems(2,3) by auto
  have "hoom h1 = []" using queue_push_back_hoom [OF Cons.prems(2) p(1)] .
  with Cons.IH [of "lg\<lparr>log_queue := q1\<rparr>" h1 as1 "vs @ [event_block e]"] p(2,3) Cons.prems(3) obtain q h2 as2 where
    "log_events es (lg\<lparr>log_queue := q1\<rparr>) h1 = Done (lg\<lparr>log_queue := q1, log_queue := q\<rparr>, h2)"
    "queue_rep q h2 as2 ((vs @ [event_block e]) @ map event_block es)" by auto
  moreover have "log_events (e # es) lg h = log_events es (lg\<lparr>log_queue := q1\<rparr>) h1" using p(1) by (simp add: e inner_log_def event_block_Pair)
  ultimately show ?case by (intro exI [of _ q] exI [of _ h2] exI [of _ as2]) simp
qed

lemma logger_thread_rep:
  "queue_rep (log_queue lg) h as (map event_block es) \<Longrightarrow> \<forall>e \<in> set es. event_ok e \<Longrightarrow>
     \<exists>q h1 as1. logger_thread (replicate n (id, True)) lg h
         = Done (lg\<lparr>log_queue := q, outputs := map (\<lambda>out. out @ concat (map event_text (take n es))) (outputs lg)\<rparr>, h1)
       \<and> queue_rep q h1 as1 (map event_block (drop n es))"
proof (induction n arbitrary: lg h as es)
  case 0
  then show ?case by (intro exI [of _ "log_queue lg"]) auto
next
  case (Suc n)
  show ?case
  proof (cases es)
    case Nil
    then have "logger_turn True lg h = Done (lg, h)"
      using Suc.prems(1) queue_rep_unlocked [OF Suc.prems(1)] by (auto simp: logger_turn_def queue_try_pop_front_def queue_rep_def Let_def)
    moreover have "lg\<lparr>log_queue := log_queue lg\<rparr> = lg" by simp
    ultimately show ?thesis using Suc.IH [OF Suc.prems] Nil by simp
  next
    case (Cons e es')
    have ok: "event_ok e" using Suc.prems(2) Cons by simp
    have rep: "queue_rep (log_queue lg) h as (event_block e # map event_block es')" using Suc.prems(1) Cons by simp
    obtain a as' where as: "as = a # as'" using queue_rep_Cons [OF rep] by blast
    obtain q1 h1 where p: "queue_try_pop_front True LOG_T_SIZE (log_queue lg) h = Done (CE_SUCCESS, event_block e, q1, h1)"
      "queue_rep q1 h1 as' (map event_block es')"
      using queue_try_pop_rep [OF rep [unfolded as]] unfolding event_block_ok(1) [OF ok] by blast
    let ?lg = "lg\<lparr>log_queue := q1, outputs := map (\<lambda>out. out @ event_text e) (outputs lg)\<rparr>"
    have t: "logger_turn True lg h = Done (?lg, h1)"
      using p(1) event_block_ok(2) [OF ok] by (cases "outputs lg") (simp_all add: logger_turn_def)
    have rep1: "queue_rep (log_queue ?lg) h1 as' (map event_block es')" and ok1: "\<forall>e \<in> set es'. event_ok e" using p(2) Suc.prems(2) Cons by simp_all
    obtain q2 h2 as2 where r: "logger_thread (replicate n (id, True)) ?lg h1
        = Done (?lg\<lparr>log_queue := q2, outputs := map (\<lambda>out. out @ concat (map event_text (take n es'))) (outputs ?lg)\<rparr>, h2)"
      "queue_rep q2 h2 as2 (map event_block (drop n es'))"
      using Suc.IH [OF rep1 ok1] by blast
    have "lg\<lparr>log_queue := log_queue lg\<rparr> = lg" by simp
    then have step: "logger_thread (replicate (Suc n) (id, True)) lg h = logger_thread (replicate n (id, True)) ?lg h1" using t by simp
    have "?lg\<lparr>log_queue := q2, outputs := map (\<lambda>out. out @ concat (map event_text (take n es'))) (outputs ?lg)\<rparr>
        = lg\<lparr>log_queue := q2, outputs := map (\<lambda>out. out @ concat (map event_text (take (Suc n) es))) (outputs lg)\<rparr>"
      "map event_block (drop (Suc n) es) = map event_block (drop n es')" by (simp_all add: Cons comp_def)
    with r show ?thesis unfolding step by metis
  qed
qed

text \<open>
  C27: what the threads log reaches every output, completely, once and in the order in which it
  was logged, as long as the queue has room: after \<open>n\<close> turns of the logging thread each
  output has got the first \<open>n\<close> records, cut to 1999 bytes; the others are still queued, and
  if the end flag is set now, destroying the logger frees them unwritten.
\<close>

theorem log_reaches_every_output:
  assumes "queue_rep (log_queue lg) h as []" and "hoom h = []" and "length es \<le> qmax_size (log_queue lg)" and "\<forall>e \<in> set es. event_ok e"
  shows "\<exists>lg1 h1 lg2 h2 lg3 h3. log_events es lg h = Done (lg1, h1)
    \<and> logger_thread (replicate n (id, True)) lg1 h1 = Done (lg2, h2)
    \<and> outputs lg2 = map (\<lambda>out. out @ concat (map event_text (take n es))) (outputs lg)
    \<and> qsize (log_queue lg2) = length (drop n es)
    \<and> destroy_logger lg2 h2 = Done (lg3, h3) \<and> outputs lg3 = outputs lg2 \<and> qsize (log_queue lg3) = 0"
proof -
  obtain q h1 as1 where l: "log_events es lg h = Done (lg\<lparr>log_queue := q\<rparr>, h1)" "queue_rep q h1 as1 (map event_block es)"
    using log_events_rep [OF assms(1,2), of es] assms(3) by auto
  obtain q2 h2 as2 where t: "logger_thread (replicate n (id, True)) (lg\<lparr>log_queue := q\<rparr>) h1
      = Done (lg\<lparr>log_queue := q\<rparr>\<lparr>log_queue := q2, outputs := map (\<lambda>out. out @ concat (map event_text (take n es))) (outputs lg)\<rparr>, h2)"
    "queue_rep q2 h2 as2 (map event_block (drop n es))"
    using logger_thread_rep [of "lg\<lparr>log_queue := q\<rparr>" h1 as1 es n] l(2) assms(4) by auto
  have n: "qsize q2 = length (map event_block (drop n es))" using t(2) by (auto simp: queue_rep_def dest: list_all2_lengthD)
  obtain q3 h3 where "queue_destroy (qsize q2) q2 h2 = Some (Done (q3, h3))" "qsize q3 = 0"
    using queue_destroy_ok [OF t(2)] unfolding n by blast
  with l(1) t(1) n show ?thesis by (simp add: destroy_logger_def)
qed

definition logger_example :: logger_t where
  "logger_example = \<lparr>outputs = [[], ''old''], log_queue = snd (queue_init True True), log_end_flag = False\<rparr>"

definition event_example :: "nat \<Rightarrow> log_event" where
  "event_example t = (replicate 2000 CHR ''x'', (0, t), ''INFO'', ''smtp_server'', ''hello'')"

theorem log_reaches_every_output_witness:
  "\<exists>lg1 h1 lg2 h2. log_events [event_example 5, event_example 7, event_example 9] logger_example (empty_heap\<lparr>hoom := []\<rparr>) = Done (lg1, h1)
    \<and> logger_thread (replicate 2 (id, True)) lg1 h1 = Done (lg2, h2)
    \<and> outputs lg2 = [''5 | INFO | smtp_server | hello'' @ [LF] @ ''7 | INFO | smtp_server | hello'' @ [LF],
        ''old5 | INFO | smtp_server | hello'' @ [LF] @ ''7 | INFO | smtp_server | hello'' @ [LF]] \<and> qsize (log_queue lg2) = 1"
proof -
  have t: "event_text (event_example t) = show_nat t @ '' | INFO | smtp_server | hello'' @ [LF]" if "t < 10" for t
    using that by (simp add: event_example_def record_text_def snprintf_def get_time_def show_long_def LOG_T_SIZE_def show_nat.simps [of t])
  have s: "show_nat 5 = ''5''" "show_nat 7 = ''7''" by (simp_all add: show_nat.simps char_of_def bit_0)
  have "event_ok (event_example t)" for t by (simp add: event_example_def LOG_T_SIZE_def)
  then show ?thesis
    using log_reaches_every_output [of logger_example "empty_heap\<lparr>hoom := []\<rparr>" "[]" "[event_example 5, event_example 7, event_example 9]" 2]
      queue_init_rep [of "empty_heap\<lparr>hoom := []\<rparr>"] t [of 5] t [of 7] s
    by (auto simp: logger_example_def queue_init_def QUEUE_DEFAULT_MAX_SIZE_def)
qed

end
