(* ===== verification/Server_Cmd_Init.thy ===== *)
theory Server_Cmd_Init
  imports Server_Smtp_Cmd
begin

text \<open>
  The life of the compiled command patterns, \<^verbatim>\<open>smtp_cmd_init\<close>, \<^verbatim>\<open>smtp_cmd_destroy\<close> and
  \<^verbatim>\<open>smtp_cmd_get_named_substring\<close> of \<^verbatim>\<open>server/src/smtp_cmd.c\<close>: every entry of the table is
  compiled and studied, and what was allocated has to be released, also when a pattern in
  the middle of the table is refused.
\<close>

section \<open>The table and the blocks of the library\<close>

text \<open>
  A slot of the table: whether \<^verbatim>\<open>re_compiled\<close> and \<^verbatim>\<open>extra\<close> point to a block. The blocks the
  library handed out and that were not freed are kept in a set: \<open>(False, i)\<close> is the compiled
  pattern of slot \<open>i\<close>, \<open>(True, i)\<close> its study data.
\<close>

record smtp_cmd_t =
  cmd_type :: SMTP_CMD
  cmd_re :: string
  re_compiled :: bool
  extra :: bool

type_synonym pcre_blocks = "(bool \<times> nat) set"

definition SMTP_CMD_COUNT :: nat where "SMTP_CMD_COUNT = 9"

definition cmd_entry :: "SMTP_CMD \<Rightarrow> smtp_cmd_t" where
  "cmd_entry c = \<lparr>cmd_type = c, cmd_re = smtp_cmds c, re_compiled = False, extra = False\<rparr>"

definition cmd_table :: "smtp_cmd_t list" where
  "cmd_table = map cmd_entry [SMTP_CMD_HELO, SMTP_CMD_EHLO, SMTP_CMD_MAIL, SMTP_CMD_RCPT, SMTP_CMD_VRFY,
     SMTP_CMD_RSET, SMTP_CMD_QUIT, SMTP_CMD_DATA, SMTP_CMD_END_DATA]"

text \<open>What the library answers: whether a pattern compiles; an error of the study, or whether it has a result.\<close>

record pcre_compiler =
  pcre_compile :: "string \<Rightarrow> bool"
  pcre_study :: "string \<Rightarrow> bool option"

section \<open>Operations\<close>

text \<open>\<^verbatim>\<open>pcre_free\<close> of a compiled pattern; \<^verbatim>\<open>pcre_free\<close> of a null pointer does nothing.\<close>

definition pcre_free :: "bool \<Rightarrow> nat \<Rightarrow> bool \<Rightarrow> pcre_blocks \<Rightarrow> pcre_blocks run" where
  "pcre_free kind i set_ptr live =
     (if \<not> set_ptr then Done live else if (kind, i) \<in> live then Done (live - {(kind, i)}) else Fault Dangling)"

text \<open>The clean-up after a refused pattern frees the compiled patterns before slot \<open>i\<close> only.\<close>

fun free_compiled :: "smtp_cmd_t list \<Rightarrow> nat list \<Rightarrow> pcre_blocks \<Rightarrow> pcre_blocks run" where
  "free_compiled tab [] live = Done live"
| "free_compiled tab (j # js) live = rbind (pcre_free False j (re_compiled (tab ! j)) live) (free_compiled tab js)"

text \<open>The clean-up after a failed study, and the body of \<^verbatim>\<open>smtp_cmd_destroy\<close>.\<close>

fun free_slots :: "smtp_cmd_t list \<Rightarrow> nat list \<Rightarrow> pcre_blocks \<Rightarrow> pcre_blocks run" where
  "free_slots tab [] live = Done live"
| "free_slots tab (j # js) live =
     rbind (pcre_free False j (re_compiled (tab ! j)) live) (\<lambda>l1.
     rbind (pcre_free True j (extra (tab ! j)) l1) (free_slots tab js))"

fun init_slots :: "pcre_compiler \<Rightarrow> nat list \<Rightarrow> smtp_cmd_t list \<Rightarrow> pcre_blocks \<Rightarrow> (error_code \<times> smtp_cmd_t list \<times> pcre_blocks) run" where
  "init_slots C [] tab live = Done (CE_SUCCESS, tab, live)"
| "init_slots C (i # is) tab live =
     (if \<not> pcre_compile C (cmd_re (tab ! i))
      then rbind (free_compiled (tab[i := (tab ! i)\<lparr>re_compiled := False\<rparr>]) [0..<i] live) (\<lambda>l.
        Done (CE_INIT_3RD, tab[i := (tab ! i)\<lparr>re_compiled := False\<rparr>], l))
      else let l1 = insert (False, i) live; t1 = tab[i := (tab ! i)\<lparr>re_compiled := True\<rparr>] in
        case pcre_study C (cmd_re (tab ! i)) of
          None \<Rightarrow> let t2 = t1[i := (t1 ! i)\<lparr>extra := False\<rparr>] in
            rbind (free_slots t2 [0..<i] l1) (\<lambda>l. Done (CE_INIT_3RD, t2, l))
        | Some has_data \<Rightarrow>
            init_slots C is (t1[i := (t1 ! i)\<lparr>extra := has_data\<rparr>]) (if has_data then insert (True, i) l1 else l1))"

definition smtp_cmd_init :: "pcre_compiler \<Rightarrow> smtp_cmd_t list \<Rightarrow> pcre_blocks \<Rightarrow> (error_code \<times> smtp_cmd_t list \<times> pcre_blocks) run" where
  "smtp_cmd_init C tab live = init_slots C [0..<SMTP_CMD_COUNT] tab live"

definition smtp_cmd_destroy :: "smtp_cmd_t list \<Rightarrow> pcre_blocks \<Rightarrow> pcre_blocks run" where
  "smtp_cmd_destroy tab live = free_slots tab [0..<SMTP_CMD_COUNT] live"

text \<open>
  \<^verbatim>\<open>smtp_cmd_get_named_substring\<close>; \<open>copy_named\<close> is \<^verbatim>\<open>pcre_copy_named_substring\<close> for a pattern,
  a subject and a result vector. As with the numbered variant the buffer is tested even when
  the call stored nothing.
\<close>

definition smtp_cmd_get_named_substring ::
    "(string \<Rightarrow> string \<Rightarrow> int list \<Rightarrow> int \<Rightarrow> string \<Rightarrow> nat \<Rightarrow> string option) \<Rightarrow> match_info \<Rightarrow> string \<Rightarrow> string option \<Rightarrow> nat
     \<Rightarrow> (error_code \<times> string) run" where
  "smtp_cmd_get_named_substring copy_named mi name buf buf_size =
     (case copy_named (smtp_cmds (cmd mi)) (tested_line mi) (sub_str mi) (sub_str_count mi) name buf_size of
        Some s \<Rightarrow> Done (if c_str s = [] then CE_COMMON else CE_SUCCESS, c_str s)
      | None \<Rightarrow> (case buf of None \<Rightarrow> Fault Uninit_Read
                 | Some b \<Rightarrow> Done (if c_str b = [] then CE_COMMON else CE_SUCCESS, c_str b)))"

section \<open>What is allocated and what is left\<close>

text \<open>The blocks the slots of \<open>I\<close> refer to, and tables whose slots up to \<open>i\<close> are ready.\<close>

definition slot_blocks :: "smtp_cmd_t list \<Rightarrow> nat set \<Rightarrow> pcre_blocks" where
  "slot_blocks tab I = (\<lambda>i. (False, i)) ` I \<union> {(True, i) |i. i \<in> I \<and> extra (tab ! i)}"

definition ready_upto :: "nat \<Rightarrow> smtp_cmd_t list \<Rightarrow> bool" where
  "ready_upto i tab \<longleftrightarrow> i \<le> length tab \<and> (\<forall>j < i. re_compiled (tab ! j))"

lemma free_slots_ready:
  "\<forall>j \<in> set js. re_compiled (tab ! j) \<Longrightarrow> distinct js \<Longrightarrow> slot_blocks tab (set js) \<inter> rest = {} \<Longrightarrow>
     free_slots tab js (slot_blocks tab (set js) \<union> rest) = Done rest"
proof (induction js)
  case (Cons j js)
  let ?l = "slot_blocks tab (set (j # js)) \<union> rest"
  have mem: "(False, j) \<in> ?l" "extra (tab ! j) \<Longrightarrow> (True, j) \<in> ?l - {(False, j)}" by (auto simp: slot_blocks_def)
  have rem: "?l - {(False, j)} - (if extra (tab ! j) then {(True, j)} else {}) = slot_blocks tab (set js) \<union> rest"
    using Cons.prems(2,3) by (auto simp: slot_blocks_def)
  have "slot_blocks tab (set js) \<inter> rest = {}" using Cons.prems(3) by (auto simp: slot_blocks_def)
  then have "free_slots tab js (slot_blocks tab (set js) \<union> rest) = Done rest" using Cons by simp
  moreover have "free_slots tab (j # js) ?l = free_slots tab js (slot_blocks tab (set js) \<union> rest)"
    using Cons.prems(1) mem rem by (auto simp: pcre_free_def)
  ultimately show ?case by simp
qed (simp add: slot_blocks_def)

lemma free_compiled_ready:
  "\<forall>j \<in> set js. re_compiled (tab ! j) \<Longrightarrow> distinct js \<Longrightarrow> slot_blocks tab (set js) \<subseteq> live \<Longrightarrow>
     free_compiled tab js live = Done (live - (\<lambda>i. (False, i)) ` set js)"
proof (induction js arbitrary: live)
  case (Cons j js)
  have "(False, j) \<in> live" using Cons.prems(3) by (auto simp: slot_blocks_def)
  moreover have "free_compiled tab js (live - {(False, j)}) = Done (live - {(False, j)} - (\<lambda>i. (False, i)) ` set js)"
    using Cons.prems by (intro Cons.IH) (auto simp: slot_blocks_def)
  moreover have "live - {(False, j)} - (\<lambda>i. (False, i)) ` set js = live - (\<lambda>i. (False, i)) ` set (j # js)" by auto
  ultimately show ?case using Cons.prems(1) by (simp add: pcre_free_def)
qed simp

text \<open>The table after the first \<open>i\<close> patterns, and what a library makes of the patterns.\<close>

definition usable_cmd :: "pcre_compiler \<Rightarrow> nat \<Rightarrow> bool" where
  "usable_cmd C j \<longleftrightarrow> pcre_compile C (cmd_re (cmd_table ! j)) \<and> pcre_study C (cmd_re (cmd_table ! j)) \<noteq> None"

definition has_extra :: "pcre_compiler \<Rightarrow> nat \<Rightarrow> bool" where
  "has_extra C j \<longleftrightarrow> pcre_study C (cmd_re (cmd_table ! j)) = Some True"

definition table_at :: "pcre_compiler \<Rightarrow> nat \<Rightarrow> smtp_cmd_t list" where
  "table_at C i = map (\<lambda>j. if j < i then (cmd_table ! j)\<lparr>re_compiled := True, extra := has_extra C j\<rparr> else cmd_table ! j) [0..<SMTP_CMD_COUNT]"

lemma length_cmd_table [simp]: "length cmd_table = SMTP_CMD_COUNT"
  by (simp add: cmd_table_def SMTP_CMD_COUNT_def)

lemma length_table_at [simp]: "length (table_at C i) = SMTP_CMD_COUNT"
  by (simp add: table_at_def)

lemma nth_table_at [simp]:
  "j < SMTP_CMD_COUNT \<Longrightarrow> table_at C i ! j
     = (if j < i then (cmd_table ! j)\<lparr>re_compiled := True, extra := has_extra C j\<rparr> else cmd_table ! j)"
  by (simp add: table_at_def)

lemma table_at_0: "table_at C 0 = cmd_table"
  by (simp add: table_at_def map_nth [of cmd_table, unfolded length_cmd_table])

lemma table_at_Suc:
  "i < SMTP_CMD_COUNT \<Longrightarrow> table_at C (Suc i) = (table_at C i)[i := (cmd_table ! i)\<lparr>re_compiled := True, extra := has_extra C i\<rparr>]"
  by (rule nth_equalityI) (auto simp: nth_list_update less_Suc_eq)

definition blocks_upto :: "pcre_compiler \<Rightarrow> nat \<Rightarrow> pcre_blocks" where
  "blocks_upto C i = {(False, j) |j. j < i} \<union> {(True, j) |j. j < i \<and> has_extra C j}"

lemma blocks_upto_0 [simp]: "blocks_upto C 0 = {}"
  by (simp add: blocks_upto_def)

lemma blocks_upto_Suc: "blocks_upto C (Suc i) = blocks_upto C i \<union> {(False, i)} \<union> (if has_extra C i then {(True, i)} else {})"
  by (auto simp: blocks_upto_def less_Suc_eq)

lemma slot_blocks_upto: "i \<le> n \<Longrightarrow> n \<le> SMTP_CMD_COUNT \<Longrightarrow> slot_blocks (table_at C n) (set [0..<i]) = blocks_upto C i"
  by (auto simp: slot_blocks_def blocks_upto_def)

lemma slot_blocks_cong: "\<forall>j \<in> I. t ! j = t' ! j \<Longrightarrow> slot_blocks t I = slot_blocks t' I"
  by (simp add: slot_blocks_def cong: conj_cong)

lemma init_step:
  assumes "i < SMTP_CMD_COUNT" "usable_cmd C i"
  shows "init_slots C (i # is) (table_at C i) (blocks_upto C i) = init_slots C is (table_at C (Suc i)) (blocks_upto C (Suc i))"
proof -
  obtain b where b: "pcre_study C (cmd_re (cmd_table ! i)) = Some b" using assms(2) by (auto simp: usable_cmd_def)
  then have e: "has_extra C i = b" by (simp add: has_extra_def)
  have t: "(table_at C i)[i := (table_at C i ! i)\<lparr>re_compiled := True\<rparr>, i := (cmd_table ! i)\<lparr>re_compiled := True, extra := b\<rparr>]
      = table_at C (Suc i)" using table_at_Suc [OF assms(1), of C] e by simp
  have c: "cmd_re (table_at C i ! i) = cmd_re (cmd_table ! i)" "pcre_compile C (cmd_re (cmd_table ! i))" using assms by (simp_all add: usable_cmd_def)
  have l: "(if b then insert (True, i) (insert (False, i) (blocks_upto C i)) else insert (False, i) (blocks_upto C i)) = blocks_upto C (Suc i)"
    using e by (auto simp: blocks_upto_Suc)
  show ?thesis using assms(1) c b l t by (simp add: Let_def)
qed

lemma init_upto:
  "i \<le> n \<Longrightarrow> n \<le> SMTP_CMD_COUNT \<Longrightarrow> \<forall>j < i. usable_cmd C j \<Longrightarrow>
     init_slots C [0..<n] cmd_table {} = init_slots C [i..<n] (table_at C i) (blocks_upto C i)"
proof (induction i)
  case 0
  then show ?case by (simp add: table_at_0)
next
  case (Suc i)
  then have "init_slots C [0..<n] cmd_table {} = init_slots C (i # [Suc i..<n]) (table_at C i) (blocks_upto C i)"
    by (simp add: upt_conv_Cons [of i n])
  also have "\<dots> = init_slots C [Suc i..<n] (table_at C (Suc i)) (blocks_upto C (Suc i))"
    using Suc.prems by (intro init_step) auto
  finally show ?case .
qed

text \<open>
  C30: compiling the command table: when the library takes every pattern, each command has a
  compiled pattern afterwards and the clean-up of the program gives back every block; when a
  pattern is refused, initialisation fails, and what the patterns before it allocated for
  their study is lost; when its study fails, the pattern itself is lost.
\<close>

theorem smtp_cmd_init_outcome:
  assumes "n \<le> SMTP_CMD_COUNT" and "\<forall>j < n. usable_cmd C j" and "n < SMTP_CMD_COUNT \<Longrightarrow> \<not> usable_cmd C n"
  shows "\<exists>e tab live. smtp_cmd_init C cmd_table {} = Done (e, tab, live)
    \<and> (if n = SMTP_CMD_COUNT
       then e = CE_SUCCESS \<and> (\<forall>s \<in> set tab. re_compiled s) \<and> map cmd_re tab = map cmd_re cmd_table \<and> smtp_cmd_destroy tab live = Done {}
       else e = CE_INIT_3RD
         \<and> live = (if pcre_compile C (cmd_re (cmd_table ! n)) then {(False, n)} else {(True, j) |j. j < n \<and> has_extra C j}))"
proof -
  have init: "smtp_cmd_init C cmd_table {} = init_slots C [n..<SMTP_CMD_COUNT] (table_at C n) (blocks_upto C n)"
    unfolding smtp_cmd_init_def by (rule init_upto [OF assms(1) le_refl assms(2)])
  show ?thesis
  proof (cases "n = SMTP_CMD_COUNT")
    case True
    have "smtp_cmd_destroy (table_at C n) (blocks_upto C n) = Done {}"
      using free_slots_ready [of "[0..<n]" "table_at C n" "{}"] slot_blocks_upto [of n n C] True
      by (auto simp: smtp_cmd_destroy_def)
    moreover have "\<forall>s \<in> set (table_at C n). re_compiled s" using True by (auto simp: table_at_def)
    moreover have "map cmd_re (table_at C n) = map cmd_re cmd_table" by (rule nth_equalityI) simp_all
    ultimately show ?thesis using init True by simp
  next
    case False
    then have n: "n < SMTP_CMD_COUNT" "\<not> usable_cmd C n" using assms by auto
    have up: "[n..<SMTP_CMD_COUNT] = n # [Suc n..<SMTP_CMD_COUNT]" using n(1) by (simp add: upt_conv_Cons)
    have sb: "slot_blocks t (set [0..<n]) = blocks_upto C n" if "\<forall>j < n. t ! j = table_at C n ! j" for t
      using slot_blocks_cong [of "set [0..<n]" t "table_at C n"] slot_blocks_upto [of n n C] n(1) that by (simp del: set_upt) simp
    show ?thesis
    proof (cases "pcre_compile C (cmd_re (cmd_table ! n))")
      case True
      then have st: "pcre_study C (cmd_re (cmd_table ! n)) = None" using n(2) by (simp add: usable_cmd_def)
      let ?t = "(table_at C n)[n := (cmd_table ! n)\<lparr>re_compiled := True, extra := False\<rparr>]"
      have "free_slots ?t [0..<n] (slot_blocks ?t (set [0..<n]) \<union> {(False, n)}) = Done {(False, n)}"
        using n(1) by (intro free_slots_ready) (auto simp: slot_blocks_def)
      then have "free_slots ?t [0..<n] (insert (False, n) (blocks_upto C n)) = Done {(False, n)}" using sb [of ?t] by simp
      then show ?thesis using init up True st n(1) False by simp
    next
      case comp: False
      let ?t = "(table_at C n)[n := (cmd_table ! n)\<lparr>re_compiled := False\<rparr>]"
      have "free_compiled ?t [0..<n] (blocks_upto C n) = Done (blocks_upto C n - (\<lambda>i. (False, i)) ` set [0..<n])"
        using n(1) sb [of ?t] by (intro free_compiled_ready) auto
      moreover have "blocks_upto C n - (\<lambda>i. (False, i)) ` set [0..<n] = {(True, j) |j. j < n \<and> has_extra C j}"
        by (auto simp: blocks_upto_def)
      ultimately show ?thesis using init up comp n(1) False by simp
    qed
  qed
qed

text \<open>A library that takes every pattern but the fourth, with data from every study.\<close>

definition compiler_example :: pcre_compiler where
  "compiler_example = \<lparr>pcre_compile = (\<lambda>re. take 5 re \<noteq> ''^rcpt''), pcre_study = (\<lambda>re. Some True)\<rparr>"

theorem smtp_cmd_init_outcome_witness:
  "\<exists>e tab live. smtp_cmd_init compiler_example cmd_table {} = Done (e, tab, live) \<and> e = CE_INIT_3RD
     \<and> live = {(True, j) |j. j < 3 \<and> has_extra compiler_example j}"
proof -
  have e: "cmd_re (cmd_table ! 0) = RE_HELO" "cmd_re (cmd_table ! 1) = RE_EHLO" "cmd_re (cmd_table ! 2) = RE_MAIL" "cmd_re (cmd_table ! 3) = RE_RCPT"
    by (simp_all add: cmd_table_def cmd_entry_def)
  have p: "take 5 RE_HELO = ''^helo''" "take 5 RE_EHLO = ''^ehlo''" "take 5 RE_MAIL = ''^mail''" "take 5 RE_RCPT = ''^rcpt''"
    unfolding RE_HELO_def RE_EHLO_def RE_MAIL_def RE_RCPT_def by simp_all
  have "usable_cmd compiler_example 0" "usable_cmd compiler_example 1" "usable_cmd compiler_example 2"
    unfolding usable_cmd_def e compiler_example_def pcre_compiler.simps p by simp_all
  moreover have "j \<in> {0, 1, 2}" if "j < 3" for j :: nat using that by auto
  ultimately have r: "\<forall>j < 3. usable_cmd compiler_example j" by blast
  have c: "\<not> pcre_compile compiler_example (cmd_re (cmd_table ! 3))"
    unfolding e compiler_example_def pcre_compiler.simps p by simp
  then have u: "\<not> usable_cmd compiler_example 3" by (simp add: usable_cmd_def)
  show ?thesis using smtp_cmd_init_outcome [OF _ r u] c by (simp add: SMTP_CMD_COUNT_def del: One_nat_def)
qed

end
