(* ===== verification/Server_Startup.thy ===== *)
theory Server_Startup
  imports Server_Worker Server_Thread_Pool Server_Logger Server_Cmd_Init
begin

text \<open>
  Starting and stopping the server: the first part of \<^verbatim>\<open>server/src/smtp_server.c\<close> (the
  listening socket, dropping the rights of the superuser, the mail directories), the frame
  of \<^verbatim>\<open>smtp_server\<close>, \<^verbatim>\<open>end_program_handler.c\<close>, and \<^verbatim>\<open>main\<close> in \<^verbatim>\<open>server_main.c\<close>, which turns
  the options into a configuration.
\<close>

section \<open>The operating system\<close>

text \<open>
  What the process has: its sockets, its identity and the paths that exist. A bound socket
  knows its address, its port and the user who bound it.
\<close>

record sock =
  nonblock :: bool
  reuse :: bool
  bound :: "(string \<times> 16 word \<times> nat) option"
  backlog :: "nat option"

record os_state =
  socks :: "int \<rightharpoonup> sock"
  uid :: nat
  gid :: nat
  groups :: "nat list"
  paths :: "string set"

text \<open>
  The answers of the system: the descriptor of a new socket or a negative number, the bytes
  of an address, the entry of a user, the groups a user belongs to (\<open>None\<close>: the call fails).
\<close>

record os_calls =
  sys_socket :: int
  sys_setsockopt :: bool
  sys_pton :: "string \<Rightarrow> string option"
  sys_bind :: "string \<Rightarrow> 16 word \<Rightarrow> nat \<Rightarrow> bool"
  sys_listen :: bool
  sys_getpwnam :: "string \<Rightarrow> (string \<times> nat \<times> nat) option"
  sys_initgroups :: "string \<Rightarrow> nat \<Rightarrow> nat list option"
  sys_setgid :: "nat \<Rightarrow> bool"
  sys_setuid :: "nat \<Rightarrow> bool"
  sys_mkdir :: "string \<Rightarrow> os_state \<Rightarrow> bool"

definition close_fd :: "int \<Rightarrow> os_state \<Rightarrow> os_state" where
  "close_fd d s = s\<lparr>socks := (socks s)(d := None)\<rparr>"

definition update_sock :: "int \<Rightarrow> (sock \<Rightarrow> sock) \<Rightarrow> os_state \<Rightarrow> os_state" where
  "update_sock d f s = s\<lparr>socks := (socks s)(d := map_option f (socks s d))\<rparr>"

section \<open>The listening socket\<close>

definition set_socket_unblock :: "int \<Rightarrow> os_state \<Rightarrow> os_state" where
  "set_socket_unblock d s = update_sock d (nonblock_update (\<lambda>_. True)) s"

text \<open>\<open>port\<close> is converted to 16 bits for the network.\<close>

definition create_server_socket :: "os_calls \<Rightarrow> int \<Rightarrow> string \<Rightarrow> nat \<Rightarrow> os_state \<Rightarrow> world \<Rightarrow> error_code \<times> int \<times> os_state \<times> world" where
  "create_server_socket C port address backlog_queue_size s w =
     (let d = sys_socket C; fail = (\<lambda>s'. (CE_COMMON, d, close_fd d s', log_msg CRITICAL ''smtp_server'' w)) in
      if d < 0 then (CE_INIT_3RD, d, s, log_msg CRITICAL ''smtp_server'' w)
      else let s1 = s\<lparr>socks := (socks s)(d \<mapsto> \<lparr>nonblock = False, reuse = False, bound = None, backlog = None\<rparr>)\<rparr> in
      if \<not> sys_setsockopt C then fail s1
      else let s2 = set_socket_unblock d (update_sock d (reuse_update (\<lambda>_. True)) s1) in
      case sys_pton C address of
        None \<Rightarrow> fail s2
      | Some addr \<Rightarrow>
          if \<not> sys_bind C addr (word_of_int port) (uid s2) then fail s2
          else let s3 = update_sock d (bound_update (\<lambda>_. Some (addr, word_of_int port, uid s2))) s2 in
            if \<not> sys_listen C then fail s3
            else (CE_SUCCESS, d, update_sock d (backlog_update (\<lambda>_. Some backlog_queue_size)) s3, w))"

section \<open>Rights and directories\<close>

text \<open>The calls that change the identity are made in this order, the first failure ends them.\<close>

definition droproot :: "os_calls \<Rightarrow> string \<Rightarrow> os_state \<Rightarrow> world \<Rightarrow> error_code \<times> os_state \<times> world" where
  "droproot C username s w =
     (case sys_getpwnam C username of
        None \<Rightarrow> (CE_COMMON, s, log_msg CRITICAL ''smtp_server'' w)
      | Some (pw_name, pw_uid, pw_gid) \<Rightarrow>
          let fail = (\<lambda>s'. (CE_COMMON, s', log_msg CRITICAL ''smtp_server'' w)) in
          (case sys_initgroups C pw_name pw_gid of
             None \<Rightarrow> fail s
           | Some gs \<Rightarrow> let s1 = s\<lparr>groups := gs\<rparr> in
               if \<not> sys_setgid C pw_gid then fail s1
               else let s2 = s1\<lparr>gid := pw_gid\<rparr> in
               if \<not> sys_setuid C pw_uid then fail s2
               else (CE_SUCCESS, s2\<lparr>uid := pw_uid\<rparr>, w)))"

text \<open>A path that \<^verbatim>\<open>stat\<close> does not find is created; the result says whether the path is there.\<close>

definition make_dir :: "os_calls \<Rightarrow> string \<Rightarrow> os_state \<Rightarrow> bool \<times> os_state" where
  "make_dir C p s = (if p \<in> paths s then (True, s) else if sys_mkdir C p s then (True, s\<lparr>paths := insert p (paths s)\<rparr>) else (False, s))"

definition create_dirs :: "os_calls \<Rightarrow> string \<Rightarrow> string \<Rightarrow> os_state \<Rightarrow> world \<Rightarrow> error_code \<times> os_state \<times> world" where
  "create_dirs C local_dir client_dir s w =
     (let fail = (\<lambda>s'. (CE_COMMON, s', log_msg CRITICAL ''smtp_server'' w)); (ok1, s1) = make_dir C local_dir s in
      if \<not> ok1 then fail s1
      else let (ok2, s2) = make_dir C (snprintf 256 (local_dir @ ''tmp'')) s1 in
      if \<not> ok2 then fail s2
      else let (ok3, s3) = make_dir C client_dir s2 in
      if \<not> ok3 then fail s3 else (CE_SUCCESS, s3, w))"

section \<open>The server\<close>

text \<open>What is there when the accept loop begins; \<open>None\<close> when the server gave up before.\<close>

definition smtp_start :: "os_calls \<Rightarrow> smtp_server_cfg \<Rightarrow> unit thread_pool_t \<Rightarrow> bool \<times> bool \<Rightarrow> (nat \<Rightarrow> nat option) \<Rightarrow> node_heap \<Rightarrow> os_state \<Rightarrow> world
    \<Rightarrow> ((int \<times> unit thread_pool_t) option \<times> node_heap \<times> os_state \<times> world) run" where
  "smtp_start C c tp ok create h s w =
     (let (cerr, listener_fd, s1, w1) = create_server_socket C (uint (cfg_port c)) (cfg_address c) (cfg_backlog_queue_size c) s w in
      if cerr \<noteq> CE_SUCCESS then Done (None, h, s1, w1)
      else let (cerr, s2, w2) = (if strlen (as_array (cfg_user c)) \<noteq> 0 then droproot C (cfg_user c) s1 w1 else (CE_SUCCESS, s1, w1)) in
      if cerr \<noteq> CE_SUCCESS then Done (None, h, s2, w2)
      else let (cerr, s3, w3) = create_dirs C (cfg_local_maildir c) (cfg_client_maildir c) s2 w2 in
      if cerr \<noteq> CE_SUCCESS then Done (None, h, s3, w3)
      else rbind (thread_pool_init tp (cfg_thread_pool_size c) (Some ()) () ok create h w3) (\<lambda>(cerr, tp1, h1, w4).
        if cerr \<noteq> CE_SUCCESS then Done (None, h1, s3, log_msg CRITICAL ''smtp_server'' w4)
        else Done (Some (listener_fd, tp1\<lparr>job_destructor := False\<rparr>), h1, s3, w4)))"

text \<open>
  The accept loop while the worker threads run: before each turn, and before the pool is
  destroyed, they may have changed the queue (\<open>others\<close>).
\<close>

fun serve_loop :: "((queue_t \<times> node_heap \<Rightarrow> queue_t \<times> node_heap) \<times> bool \<times> poll_res \<times> accept_res) list \<Rightarrow> queue_t \<Rightarrow> node_heap \<Rightarrow> world
    \<Rightarrow> (queue_t \<times> node_heap \<times> world) run" where
  "serve_loop [] q h w = Done (q, h, w)"
| "serve_loop ((others, lk, pr, ar) # es) q h w =
     (let (q0, h0) = others (q, h) in rbind (accept_step lk pr ar q0 h0 w) (\<lambda>(q1, h1, w1). serve_loop es q1 h1 w1))"

definition smtp_server :: "os_calls \<Rightarrow> smtp_server_cfg \<Rightarrow> unit thread_pool_t \<Rightarrow> bool \<times> bool \<Rightarrow> (nat \<Rightarrow> nat option)
    \<Rightarrow> ((queue_t \<times> node_heap \<Rightarrow> queue_t \<times> node_heap) \<times> bool \<times> poll_res \<times> accept_res) list \<Rightarrow> (queue_t \<times> node_heap \<Rightarrow> queue_t \<times> node_heap)
    \<Rightarrow> node_heap \<Rightarrow> os_state \<Rightarrow> world \<Rightarrow> (nat list option \<times> os_state \<times> world) run" where
  "smtp_server C c tp ok create evs others h s w =
     rbind (smtp_start C c tp ok create h s w) (\<lambda>(started, h1, s1, w1).
       case started of None \<Rightarrow> Done (None, s1, w1)
       | Some (listener_fd, tp1) \<Rightarrow>
           rbind (serve_loop evs (job_queue tp1) h1 w1) (\<lambda>(q, h2, w2).
             let (q3, h3) = others (q, h2) in
             rbind (thread_pool_destroy (tp1\<lparr>job_queue := q3\<rparr>) h3) (\<lambda>(joined, _, _). Done (Some joined, s1, w2))))"

section \<open>Options and \<^verbatim>\<open>main\<close>\<close>

text \<open>The options of the command line, as AutoOpts delivers them: absent, or a value.\<close>

record server_options =
  opt_port :: "int option"
  opt_timeout :: "int option"
  opt_address :: "string option"
  opt_backlog_queue_size :: "int option"
  opt_thread_pool_size :: "int option"
  opt_domain :: "string option"
  opt_local_maildir :: "string option"
  opt_client_maildir :: "string option"
  opt_user :: "string option"
  opt_relay :: "string list"
  opt_log_path :: "string option"

definition DEFAULT_PORT :: int where "DEFAULT_PORT = 64999"
definition DEFAULT_ADDRESS :: string where "DEFAULT_ADDRESS = ''::''"
definition DEFAULT_BACKLOG_QUEUE_SIZE :: nat where "DEFAULT_BACKLOG_QUEUE_SIZE = 100"
definition DEFAULT_THREAD_POOL_SIZE :: nat where "DEFAULT_THREAD_POOL_SIZE = 4"
definition DEFAULT_DOMAIN :: string where "DEFAULT_DOMAIN = ''mysmtp.ru''"
definition DEFAULT_TIMEOUT :: nat where "DEFAULT_TIMEOUT = 300"
definition DEFAULT_LOCAL_MAILDIR :: string where "DEFAULT_LOCAL_MAILDIR = ''/tmp/mysmtp/''"
definition DEFAULT_CLIENT_MAILDIR :: string where "DEFAULT_CLIENT_MAILDIR = ''/tmp/mysmtp_client/''"
definition DEFAULT_LOG_PATH :: string where "DEFAULT_LOG_PATH = ''/tmp/mysmtp_log.csv''"

text \<open>A \<^verbatim>\<open>long\<close> stored in a \<^verbatim>\<open>size_t\<close>, and an option or its default.\<close>

definition to_size :: "int \<Rightarrow> nat" where
  "to_size x = nat (x mod 2 ^ 64)"

definition opt_or :: "'a \<Rightarrow> 'a option \<Rightarrow> 'a" where
  "opt_or d x = (case x of None \<Rightarrow> d | Some v \<Rightarrow> v)"

definition server_config :: "server_options \<Rightarrow> smtp_server_cfg" where
  "server_config opts =
     \<lparr>cfg_port = word_of_int (opt_or DEFAULT_PORT (opt_port opts)),
      cfg_address = opt_or DEFAULT_ADDRESS (opt_address opts),
      cfg_backlog_queue_size = opt_or DEFAULT_BACKLOG_QUEUE_SIZE (map_option to_size (opt_backlog_queue_size opts)),
      cfg_thread_pool_size = opt_or DEFAULT_THREAD_POOL_SIZE (map_option to_size (opt_thread_pool_size opts)),
      cfg_domain = opt_or DEFAULT_DOMAIN (opt_domain opts),
      cfg_local_maildir = opt_or DEFAULT_LOCAL_MAILDIR (opt_local_maildir opts),
      cfg_client_maildir = opt_or DEFAULT_CLIENT_MAILDIR (opt_client_maildir opts),
      cfg_user = opt_or [] (opt_user opts),
      cfg_relay_networks = opt_relay opts,
      cfg_timeout = opt_or DEFAULT_TIMEOUT (map_option to_size (opt_timeout opts))\<rparr>"

text \<open>Whether \<^verbatim>\<open>signal\<close> accepts the handler for the two signals; the handler clears the flag of the loops.\<close>

definition set_end_program_handler :: "bool \<Rightarrow> bool \<Rightarrow> int" where
  "set_end_program_handler sigint_ok sigquit_ok = (if \<not> sigint_ok then -1 else if \<not> sigquit_ok then -1 else 1)"

definition end_program_handler :: "int \<Rightarrow> bool \<Rightarrow> bool" where
  "end_program_handler signum while_true = False"

text \<open>
  \<^verbatim>\<open>main\<close>: \<open>server\<close> is the run of \<^verbatim>\<open>smtp_server\<close> on the configuration, \<open>relay_mem\<close> the answer of
  the allocator for the relay networks. The result has the exit code and the configuration
  the server ran with, if it did.
\<close>

definition server_main :: "server_options \<Rightarrow> bool \<Rightarrow> bool \<times> bool \<Rightarrow> (string \<Rightarrow> bool) \<Rightarrow> bool \<times> bool \<Rightarrow> logger_t \<Rightarrow> node_heap \<Rightarrow> pcre_compiler
    \<Rightarrow> (smtp_server_cfg \<Rightarrow> 'r run) \<Rightarrow> (int \<times> (smtp_server_cfg \<times> 'r) option) run" where
  "server_main opts relay_mem sigs log_opens log_ok lg h pcre server =
     (let cfg = server_config opts in
      if opt_relay opts \<noteq> [] \<and> \<not> relay_mem then Done (1, None)
      else if set_end_program_handler (fst sigs) (snd sigs) < 0 then Done (0, None)
      else let (e, lg1) = init_log (log_opens (opt_or DEFAULT_LOG_PATH (opt_log_path opts))) log_ok lg in
      if e \<noteq> CE_SUCCESS then Done (1, None)
      else let lg2 = snd (add_output [] lg1) in
      rbind (smtp_cmd_init pcre cmd_table {}) (\<lambda>(e, tab, live).
        if e \<noteq> CE_SUCCESS then Done (0, None)
        else rbind (server cfg) (\<lambda>r.
          rbind (smtp_cmd_destroy tab live) (\<lambda>_.
          rbind (destroy_logger (lg2\<lparr>log_end_flag := True\<rparr>) h) (\<lambda>_. Done (0, Some (cfg, r)))))))"

section \<open>What the start guarantees\<close>

lemma update_sock_simps [simp]: "socks (update_sock d f s) = (socks s)(d := map_option f (socks s d))" "uid (update_sock d f s) = uid s"
  "gid (update_sock d f s) = gid s" "groups (update_sock d f s) = groups s" "paths (update_sock d f s) = paths s"
  by (simp_all add: update_sock_def)

lemma close_fd_simps [simp]: "socks (close_fd d s) = (socks s)(d := None)" "uid (close_fd d s) = uid s" "gid (close_fd d s) = gid s"
  "groups (close_fd d s) = groups s" "paths (close_fd d s) = paths s"
  by (simp_all add: close_fd_def)

text \<open>The listening socket as it has to be.\<close>

definition listener_of :: "os_calls \<Rightarrow> int \<Rightarrow> string \<Rightarrow> nat \<Rightarrow> nat \<Rightarrow> sock \<Rightarrow> bool" where
  "listener_of C port address n u k \<longleftrightarrow> nonblock k \<and> reuse k \<and> backlog k = Some n
     \<and> (\<exists>addr. sys_pton C address = Some addr \<and> bound k = Some (addr, word_of_int port, u))"

text \<open>
  C29: the listening socket: on success it is the only new descriptor, does not block, may reuse
  its address, is bound to the address and to the port modulo 65536, and listens with the
  given backlog; on every failure no descriptor is left open.
\<close>

theorem create_server_socket_outcome:
  assumes "socks s (sys_socket C) = None" and "create_server_socket C port address n s w = (e, d, s', w')"
  shows "(e = CE_SUCCESS \<longrightarrow> d = sys_socket C \<and> 0 \<le> d \<and> w' = w
      \<and> (\<exists>k. socks s' = (socks s)(d \<mapsto> k) \<and> listener_of C port address n (uid s) k))
    \<and> (e \<noteq> CE_SUCCESS \<longrightarrow> socks s' = socks s \<and> logs w' = logs w @ [(CRITICAL, ''smtp_server'')])
    \<and> uid s' = uid s \<and> gid s' = gid s \<and> groups s' = groups s \<and> paths s' = paths s
    \<and> (e = CE_SUCCESS \<longleftrightarrow> 0 \<le> sys_socket C \<and> sys_setsockopt C \<and> sys_listen C
        \<and> (\<exists>addr. sys_pton C address = Some addr \<and> sys_bind C addr (word_of_int port) (uid s)))"
  using assms
  by (auto simp: create_server_socket_def Let_def set_socket_unblock_def listener_of_def log_msg_def fun_upd_idem split: if_splits option.splits)

lemma create_threads_started: "create_threads create is ws = (ws', None) \<Longrightarrow> \<forall>i \<in> set is. create i \<noteq> None"
  by (induction "is" arbitrary: ws) (auto split: option.splits)

lemma thread_pool_init_started:
  assumes "thread_pool_init tp n f dflt ok create h w = Done (CE_SUCCESS, tp', h', w')"
  shows "length (workers tp') = n" "\<forall>x \<in> set (workers tp'). \<exists>y t. x = Some y \<and> td y = Some t" "queue_rep (job_queue tp') h' [] []"
    "workers tp' = slots_at create n n" "\<forall>i < n. create i \<noteq> None" "pool_size tp' = n"
proof -
  obtain ws where ws: "create_threads create [0..<n] (replicate n None) = (ws, None)" "workers tp' = ws"
    and q: "queue_init (fst ok) (snd ok) = (CE_SUCCESS, job_queue tp')"
    using assms by (auto simp: thread_pool_init_def Let_def rbind_Done_iff split: prod.splits if_splits option.splits run.splits)
  have all: "\<forall>i < n. create i \<noteq> None" using create_threads_started [OF ws(1)] by simp
  then have "ws = slots_at create n n" using create_upto [OF le_refl, of n create] ws(1) by simp
  then show "length (workers tp') = n" "\<forall>x \<in> set (workers tp'). \<exists>y t. x = Some y \<and> td y = Some t"
    "workers tp' = slots_at create n n" "\<forall>i < n. create i \<noteq> None"
    using ws(2) all by (auto simp: slots_at_def started_slot_def)
  show "pool_size tp' = n" using assms
    by (auto simp: thread_pool_init_def Let_def rbind_Done_iff split: prod.splits if_splits option.splits run.splits)
  have "job_queue tp' = snd (queue_init True True)" using q by (auto simp: queue_init_def Let_def split: if_splits)
  then show "queue_rep (job_queue tp') h' [] []" by (simp add: queue_init_rep)
qed

lemma droproot_ok:
  assumes "droproot C u s w = (CE_SUCCESS, s', w')"
  shows "socks s' = socks s \<and> paths s' = paths s \<and> (\<exists>name. sys_getpwnam C u = Some (name, uid s', gid s')
    \<and> sys_initgroups C name (gid s') = Some (groups s'))"
  using assms by (auto simp: droproot_def Let_def split: option.splits if_splits)

lemma make_dir_ok: "make_dir C p s = (True, s') \<Longrightarrow> p \<in> paths s' \<and> paths s \<subseteq> paths s' \<and> socks s' = socks s \<and> uid s' = uid s
    \<and> gid s' = gid s \<and> groups s' = groups s"
  by (auto simp: make_dir_def split: if_splits)

lemma create_dirs_ok:
  assumes "create_dirs C l c s w = (CE_SUCCESS, s', w')"
  shows "{l, snprintf 256 (l @ ''tmp''), c} \<subseteq> paths s' \<and> socks s' = socks s \<and> uid s' = uid s \<and> gid s' = gid s \<and> groups s' = groups s"
  using assms by (auto simp: create_dirs_def Let_def split: if_splits prod.splits dest!: make_dir_ok)

text \<open>
  C11: the accept loop begins only when everything is in place: the listening socket was bound
  with the original rights and listens; if a user is named, the process has exactly the
  user, the group and the groups of that user; the mail directories exist, and so does the
  directory of every file the mail writer creates before delivery; every thread of the pool
  was started and the queue of connections is empty.
\<close>

theorem smtp_start_safe:
  assumes "smtp_start C c tp ok create h s w = Done (Some (d, tp'), h', s', w')"
    and "socks s (sys_socket C) = None" and "NUL \<notin> set (cfg_user c)"
  shows "(\<exists>k. socks s' = (socks s)(d \<mapsto> k) \<and> listener_of C (uint (cfg_port c)) (cfg_address c) (cfg_backlog_queue_size c) (uid s) k)
    \<and> (cfg_user c \<noteq> [] \<longrightarrow> (\<exists>name. sys_getpwnam C (cfg_user c) = Some (name, uid s', gid s')
        \<and> sys_initgroups C name (gid s') = Some (groups s')))
    \<and> (cfg_user c = [] \<longrightarrow> uid s' = uid s \<and> gid s' = gid s \<and> groups s' = groups s)
    \<and> cfg_local_maildir c \<in> paths s' \<and> cfg_client_maildir c \<in> paths s'
    \<and> (length (cfg_local_maildir c) \<le> 252 \<longrightarrow> (\<forall>si t n. cfg si = c \<longrightarrow>
        (\<exists>dir name. dir \<in> paths s' \<and> snd (tmp_path_of (mail_writer_of si) t n) = dir @ ''/'' @ name)))
    \<and> length (workers tp') = cfg_thread_pool_size c \<and> (\<forall>x \<in> set (workers tp'). \<exists>y t. x = Some y \<and> td y = Some t)
    \<and> queue_rep (job_queue tp') h' [] []"
proof -
  obtain s1 w1 where 1: "create_server_socket C (uint (cfg_port c)) (cfg_address c) (cfg_backlog_queue_size c) s w = (CE_SUCCESS, d, s1, w1)"
    and rest: "\<exists>s2 w2. (if cfg_user c \<noteq> [] then droproot C (cfg_user c) s1 w1 else (CE_SUCCESS, s1, w1)) = (CE_SUCCESS, s2, w2)
      \<and> (\<exists>w3. create_dirs C (cfg_local_maildir c) (cfg_client_maildir c) s2 w2 = (CE_SUCCESS, s', w3)
      \<and> (\<exists>tp1 w4. thread_pool_init tp (cfg_thread_pool_size c) (Some ()) () ok create h w3 = Done (CE_SUCCESS, tp1, h', w4)
        \<and> tp' = tp1\<lparr>job_destructor := False\<rparr>))"
    using assms(1,3) by (auto simp: smtp_start_def Let_def rbind_Done_iff split: prod.splits if_splits)
  obtain k where k: "socks s1 = (socks s)(d \<mapsto> k)" "listener_of C (uint (cfg_port c)) (cfg_address c) (cfg_backlog_queue_size c) (uid s) k"
    "uid s1 = uid s" "gid s1 = gid s" "groups s1 = groups s"
    using create_server_socket_outcome [OF assms(2) 1] by auto
  obtain s2 w2 w3 tp1 w4 where 2: "(if cfg_user c \<noteq> [] then droproot C (cfg_user c) s1 w1 else (CE_SUCCESS, s1, w1)) = (CE_SUCCESS, s2, w2)"
    and 3: "create_dirs C (cfg_local_maildir c) (cfg_client_maildir c) s2 w2 = (CE_SUCCESS, s', w3)"
    and 4: "thread_pool_init tp (cfg_thread_pool_size c) (Some ()) () ok create h w3 = Done (CE_SUCCESS, tp1, h', w4)"
    "tp' = tp1\<lparr>job_destructor := False\<rparr>" using rest by blast
  have d2: "socks s2 = socks s1" "cfg_user c \<noteq> [] \<longrightarrow> (\<exists>name. sys_getpwnam C (cfg_user c) = Some (name, uid s2, gid s2)
      \<and> sys_initgroups C name (gid s2) = Some (groups s2))" "cfg_user c = [] \<longrightarrow> uid s2 = uid s1 \<and> gid s2 = gid s1 \<and> groups s2 = groups s1"
    using 2 droproot_ok [of C "cfg_user c" s1 w1 s2 w2] by (auto split: if_splits)
  note d3 = create_dirs_ok [OF 3] and t = thread_pool_init_started [OF 4(1)]
  have tmp: "\<exists>dir name. dir \<in> paths s' \<and> snd (tmp_path_of (mail_writer_of si) t n) = dir @ ''/'' @ name"
    if "length (cfg_local_maildir c) \<le> 252" "cfg si = c" for si t n
  proof -
    let ?dir = "cfg_local_maildir c @ ''tmp''"
    have "snprintf 256 ?dir = ?dir" using that(1) by (intro snprintf_fits) simp
    then have "?dir \<in> paths s'" using d3 by simp
    moreover have "snd (tmp_path_of (mail_writer_of si) t n)
        = ?dir @ ''/'' @ take (995 - length (cfg_local_maildir c)) (fst (tmp_path_of (mail_writer_of si) t n))"
      using that by (simp add: tmp_path_of_def Let_def generate_file_path_def mail_writer_of_def snprintf_def)
    ultimately show ?thesis by blast
  qed
  show ?thesis using k d2 d3 t 4(2) tmp by auto
qed

section \<open>Stopping\<close>

text \<open>What the worker threads do keeps the queue a queue.\<close>

definition keeps_queue :: "(queue_t \<times> node_heap \<Rightarrow> queue_t \<times> node_heap) \<Rightarrow> bool" where
  "keeps_queue f \<longleftrightarrow> (\<forall>q h as vs. queue_rep q h as vs \<longrightarrow> (\<exists>as' vs'. queue_rep (fst (f (q, h))) (snd (f (q, h))) as' vs'))"

lemma keeps_queueD:
  assumes "keeps_queue f" "queue_rep q h as vs" "f (q, h) = (q', h')"
  shows "\<exists>as' vs'. queue_rep q' h' as' vs'"
proof -
  have "\<exists>as' vs'. queue_rep (fst (f (q, h))) (snd (f (q, h))) as' vs'" using assms(1,2) unfolding keeps_queue_def by blast
  then show ?thesis by (simp add: assms(3))
qed

lemma accept_step_total:
  assumes "queue_rep q h as vs"
  shows "\<exists>q' h' w'. accept_step lk pr ar q h w = Done (q', h', w')"
proof -
  have "\<exists>e q' h'. queue_push_back lk v q h = Done (e, q', h')" for v using queue_push_back_rep [OF assms, of lk v] by blast
  note push = this
  have "\<exists>q' h' w'. rbind (queue_push_back lk v q h) (\<lambda>(_, q1, h1). Done (q1, h1, w1)) = Done (q', h', w')" for v and w1 :: world
  proof -
    obtain e q' h' where "queue_push_back lk v q h = Done (e, q', h')" using push by blast
    then show ?thesis by simp
  qed
  then show ?thesis by (cases pr; cases ar) (auto simp: accept_step_def process_listener_def)
qed

lemma serve_loop_rep:
  "queue_rep q h as vs \<Longrightarrow> \<forall>e \<in> set es. keeps_queue (fst e) \<Longrightarrow>
     \<exists>q' h' w' as' vs'. serve_loop es q h w = Done (q', h', w') \<and> queue_rep q' h' as' vs'"
proof (induction es arbitrary: q h as vs w)
  case (Cons e es)
  obtain others lk pr ar where e: "e = (others, lk, pr, ar)" by (cases e)
  obtain q0 h0 where o: "others (q, h) = (q0, h0)" by force
  have "keeps_queue others" using Cons.prems(2) e by simp
  then obtain as0 vs0 where r0: "queue_rep q0 h0 as0 vs0" using keeps_queueD [of others q h as vs q0 h0] Cons.prems(1) o by blast
  obtain q1 h1 w1 where st: "accept_step lk pr ar q0 h0 w = Done (q1, h1, w1)" using accept_step_total [OF r0, of lk pr ar w] by blast
  obtain as1 vs1 where "queue_rep q1 h1 as1 vs1" using accept_step_queue [OF r0 st] by blast
  from Cons.IH [OF this, of w1] Cons.prems(2) st e o show ?case by auto
qed auto

text \<open>
  C22: a server that has started also stops: whatever \<^verbatim>\<open>poll\<close> and \<^verbatim>\<open>accept\<close> return in each
  turn and whatever the workers do to the queue meanwhile, the accept loop does not go
  wrong, and when it is left the server waits for every thread of the pool exactly once, in
  order, and returns. A wait ends only for a thread that was asked to end before: if a single
  flag were not set, the server would hang.
\<close>

theorem smtp_server_joins_all:
  assumes "smtp_start C c tp ok create h s w = Done (Some (d, tp'), h', s', w')"
    and "\<forall>e \<in> set evs. keeps_queue (fst e)" and "keeps_queue others"
  shows "\<exists>w''. smtp_server C c tp ok create evs others h s w = Done (Some (map (the \<circ> create) [0..<cfg_thread_pool_size c]), s', w'')
    \<and> (\<forall>i < cfg_thread_pool_size c. create i \<noteq> None)"
proof -
  obtain tp1 w3 w4 where i: "thread_pool_init tp (cfg_thread_pool_size c) (Some ()) () ok create h w3 = Done (CE_SUCCESS, tp1, h', w4)"
    "tp' = tp1\<lparr>job_destructor := False\<rparr>"
    using assms(1) by (auto simp: smtp_start_def Let_def rbind_Done_iff split: prod.splits if_splits)
  note t = thread_pool_init_started [OF i(1)]
  have "queue_rep (job_queue tp') h' [] []" using t(3) i(2) by simp
  then obtain q h2 w2 as2 vs2 where l: "serve_loop evs (job_queue tp') h' w' = Done (q, h2, w2)" "queue_rep q h2 as2 vs2"
    using serve_loop_rep [OF _ assms(2)] by blast
  obtain q3 h3 where o: "others (q, h2) = (q3, h3)" by force
  then obtain as3 vs3 where r3: "queue_rep q3 h3 as3 vs3" using keeps_queueD [OF assms(3) l(2)] by blast
  obtain tp3 h4 where "thread_pool_destroy (tp'\<lparr>job_queue := q3\<rparr>) h3 = Done (map (the \<circ> create) [0..<cfg_thread_pool_size c], tp3, h4)"
    using thread_pool_destroy_ok [of "tp'\<lparr>job_queue := q3\<rparr>" create "cfg_thread_pool_size c" h3 as3 vs3] t i(2) r3 by auto
  then show ?thesis using assms(1) l(1) o t(5) by (simp add: smtp_server_def)
qed

definition calls_example :: os_calls where
  "calls_example = \<lparr>sys_socket = 3, sys_setsockopt = True, sys_pton = (\<lambda>a. if a = ''::'' then Some (replicate 16 NUL) else None),
     sys_bind = (\<lambda>a p u. u = 0 \<or> 1024 \<le> p), sys_listen = True, sys_getpwnam = (\<lambda>n. if n = ''mail'' then Some (''mail'', 8, 12) else None),
     sys_initgroups = (\<lambda>n g. Some [g]), sys_setgid = (\<lambda>g. True), sys_setuid = (\<lambda>u. True), sys_mkdir = (\<lambda>p s. True)\<rparr>"

definition root_os :: os_state where
  "root_os = \<lparr>socks = Map.empty, uid = 0, gid = 0, groups = [0], paths = {}\<rparr>"

definition options_example :: server_options where
  "options_example = \<lparr>opt_port = Some 25, opt_timeout = None, opt_address = None, opt_backlog_queue_size = None, opt_thread_pool_size = Some 2,
     opt_domain = None, opt_local_maildir = None, opt_client_maildir = None, opt_user = Some ''mail'', opt_relay = [], opt_log_path = None\<rparr>"

definition blank_unit_pool :: "unit thread_pool_t" where
  "blank_unit_pool = \<lparr>main_func = (), job_queue = snd (queue_init True True), job_destructor = False, workers = [], pool_size = 0, is_ended = 0\<rparr>"

lemma server_config_example: "server_config options_example = \<lparr>cfg_port = 25, cfg_address = ''::'', cfg_backlog_queue_size = 100,
    cfg_thread_pool_size = 2, cfg_domain = ''mysmtp.ru'', cfg_local_maildir = ''/tmp/mysmtp/'', cfg_client_maildir = ''/tmp/mysmtp_client/'',
    cfg_user = ''mail'', cfg_relay_networks = [], cfg_timeout = 300\<rparr>"
  by (simp add: server_config_def options_example_def opt_or_def to_size_def DEFAULT_ADDRESS_def DEFAULT_BACKLOG_QUEUE_SIZE_def DEFAULT_DOMAIN_def
      DEFAULT_LOCAL_MAILDIR_def DEFAULT_CLIENT_MAILDIR_def DEFAULT_TIMEOUT_def)

theorem create_server_socket_outcome_witness:
  "\<exists>s' k. create_server_socket calls_example 25 ''::'' 100 root_os plenty = (CE_SUCCESS, 3, s', plenty)
     \<and> socks s' = [3 \<mapsto> k] \<and> listener_of calls_example 25 ''::'' 100 0 k"
proof -
  obtain e d s' w' where r: "create_server_socket calls_example 25 ''::'' 100 root_os plenty = (e, d, s', w')" by (metis prod_cases4)
  have "socks root_os (sys_socket calls_example) = None" by (simp add: root_os_def)
  from create_server_socket_outcome [OF this r] r show ?thesis by (auto simp: calls_example_def root_os_def)
qed

lemma smtp_start_example:
  "\<exists>tp' s' w'. smtp_start calls_example (server_config options_example) blank_unit_pool (True, True) (\<lambda>i. Some (7 + i)) empty_heap root_os plenty
     = Done (Some (3, tp'), empty_heap, s', w')"
  by (simp add: server_config_example smtp_start_def create_server_socket_def droproot_def create_dirs_def make_dir_def thread_pool_init_def
      calls_example_def root_os_def Let_def queue_init_def plenty_def upt_rec strlen_def set_socket_unblock_def snprintf_def
      blank_unit_pool_def as_array_def c_str_def)

theorem smtp_start_safe_witness:
  "\<exists>tp' s' w'. smtp_start calls_example (server_config options_example) blank_unit_pool (True, True) (\<lambda>i. Some (7 + i)) empty_heap root_os plenty
       = Done (Some (3, tp'), empty_heap, s', w')
     \<and> uid s' = 8 \<and> gid s' = 12 \<and> groups s' = [12] \<and> length (workers tp') = 2 \<and> (\<exists>k. socks s' 3 = Some k \<and> bound k = Some (replicate 16 NUL, 25, 0))"
proof -
  let ?c = "server_config options_example"
  obtain tp' s' w' where r: "smtp_start calls_example ?c blank_unit_pool (True, True) (\<lambda>i. Some (7 + i)) empty_heap root_os plenty
      = Done (Some (3, tp'), empty_heap, s', w')" using smtp_start_example by blast
  have u: "socks root_os (sys_socket calls_example) = None" "NUL \<notin> set (cfg_user ?c)" by (simp_all add: root_os_def server_config_example)
  from smtp_start_safe [OF r u] r show ?thesis
    by (auto simp: server_config_example listener_of_def calls_example_def root_os_def)
qed

theorem smtp_server_joins_all_witness:
  "\<exists>s' w'. smtp_server calls_example (server_config options_example) blank_unit_pool (True, True) (\<lambda>i. Some (7 + i))
       [(id, True, Poll_ready [POLLIN], Accepted 9), (id, True, Poll_timeout, Accept_error)] id empty_heap root_os plenty = Done (Some [7, 8], s', w')"
proof -
  obtain tp' s' w' where r: "smtp_start calls_example (server_config options_example) blank_unit_pool (True, True) (\<lambda>i. Some (7 + i)) empty_heap root_os plenty
      = Done (Some (3, tp'), empty_heap, s', w')" using smtp_start_example by blast
  have k: "keeps_queue id" by (auto simp: keeps_queue_def)
  have "map (the \<circ> (\<lambda>i. Some (7 + i))) [0..<cfg_thread_pool_size (server_config options_example)] = [7, 8]"
    by (simp add: server_config_example numeral_2_eq_2)
  with smtp_server_joins_all [OF r _ k, of "[(id, True, Poll_ready [POLLIN], Accepted 9), (id, True, Poll_timeout, Accept_error)]"] k
  show ?thesis by auto
qed

end
