(* ===== verification/Client_Fileparser.thy ===== *)
theory Client_Fileparser
  imports Client_Message "HOL-Library.Sublist"
begin

text \<open>
  Reading mails from the directory the server writes them to,
  \<^verbatim>\<open>client/src/fileparser.c\<close>: listing the directory, the host and the kind of address in the
  name of a file, the header lines with the recipients and the sender, and the text line by
  line. The directory and the files are arguments.
\<close>

section \<open>Listing a directory\<close>

text \<open>The entries \<^verbatim>\<open>readdir\<close> returns, each with the flag that it is a regular file; \<open>None\<close> when \<^verbatim>\<open>opendir\<close> fails.\<close>

type_synonym dir_listing = "(string \<times> bool) list option"

text \<open>A name that could not be allocated is freed through a null pointer whatever the queue did with it.\<close>

fun push_filenames :: "(string \<times> bool) list \<Rightarrow> string_t cqueue option \<Rightarrow> cworld \<Rightarrow> (string_t cqueue option \<times> cworld) run" where
  "push_filenames [] q w = Done (q, w)"
| "push_filenames ((name, regular) # es) q w =
     (if \<not> regular then push_filenames es q w
      else rbind (string_init2 (as_array name) (length name) w) (\<lambda>(fn, w1).
        case (q, fn) of
          (Some q0, Some f) \<Rightarrow> rbind (cqueue_push_back string_copy q0 f w1) (\<lambda>(_, q1, w2). push_filenames es (Some q1) w2)
        | _ \<Rightarrow> Fault Null_Deref))"

definition get_filenames :: "dir_listing \<Rightarrow> cworld \<Rightarrow> (string_t cqueue option \<times> cworld) run" where
  "get_filenames dir w =
     (case dir of None \<Rightarrow> Done (None, send_log ''get_filenames'' w)
      | Some es \<Rightarrow> let (q, w1) = cqueue_init w in push_filenames es q w1)"

section \<open>The host in the name of a file\<close>

definition SERVER_ADDR_SEP :: char where "SERVER_ADDR_SEP = CHR ''.''"
definition FILENAME_SEP :: char where "FILENAME_SEP = CHR ''/''"
definition TO_SEPARATOR :: char where "TO_SEPARATOR = CHR '',''"
definition X_DOMAIN_FROM :: string where "X_DOMAIN_FROM = ''X-mysmtp-from: ''"
definition X_DOMAIN_TO :: string where "X_DOMAIN_TO = ''X-mysmtp-to: ''"
definition MAX_LINE_LENGTH :: nat where "MAX_LINE_LENGTH = 1024"

text \<open>The loop from the terminator down to the last separator.\<close>

fun find_sep :: "string \<Rightarrow> nat \<Rightarrow> nat option" where
  "find_sep d 0 = (if d ! 0 = SERVER_ADDR_SEP then Some 0 else None)"
| "find_sep d (Suc i) = (if d ! Suc i = SERVER_ADDR_SEP then Some (Suc i) else find_sep d i)"

text \<open>
  The host, as a C string in a block filled with zeros, and the type, a digit read as a
  number. The fixed part of the log record has 50 bytes.
\<close>

definition get_addr :: "string_t \<Rightarrow> cworld \<Rightarrow> ((string \<times> int) option \<times> cworld) run" where
  "get_addr fn w =
     (if length (str_data fn) \<le> str_size fn then Fault Out_Of_Bounds
      else let meta_start = find_sep (str_data fn) (str_size fn) in
      case meta_start of
        Some m \<Rightarrow> if m < 4 then rbind (log_printf ''get_addr'' (50 + strlen (str_data fn)) w) (\<lambda>w1. Done (None, w1))
          else let ty = int (of_char (str_data fn ! (m - 1))) - 48; (ok, w1) = cmalloc w in
            if \<not> ok then Done (None, send_log ''get_addr'' w1)
            else Done (Some (c_str (take (m - 2) (str_data fn) @ [NUL]), ty), w1)
      | None \<Rightarrow> rbind (log_printf ''get_addr'' (50 + strlen (str_data fn)) w) (\<lambda>w1. Done (None, w1)))"

section \<open>Recipients\<close>

definition get_recipients_count :: "string \<Rightarrow> nat" where
  "get_recipients_count line = length (filter (\<lambda>c. c = TO_SEPARATOR) line) + 1"

text \<open>\<^verbatim>\<open>memcmp\<close> with a text of known length, byte by byte up to the first difference.\<close>

fun memcmp_run :: "string \<Rightarrow> string \<Rightarrow> bool run" where
  "memcmp_run b [] = Done True"
| "memcmp_run [] (c # cs) = Fault Out_Of_Bounds"
| "memcmp_run (x # xs) (c # cs) = (if x = c then memcmp_run xs cs else Done False)"

definition char_at :: "string \<Rightarrow> nat \<Rightarrow> char run" where
  "char_at b i = (if i < length b then Done (b ! i) else Fault Out_Of_Bounds)"

definition check_recipient :: "string \<Rightarrow> string \<Rightarrow> int \<Rightarrow> bool run" where
  "check_recipient rcpt addr a_type =
     (let b = as_array rcpt; at_idx = length (takeWhile (\<lambda>c. c \<noteq> CHR ''@'') rcpt) in
      rbind (memcmp_run (drop (at_idx + 1) b) DOMAIN_NAME) (\<lambda>here.
        if here then Done False
        else rbind (if a_type = 2 then memcmp_run (drop (at_idx + 1) b) addr else Done False) (\<lambda>host.
        if host then Done True
        else if a_type = 0
        then rbind (char_at b (at_idx + 1)) (\<lambda>c.
          if c \<noteq> CHR ''['' then Done False else memcmp_run (drop (at_idx + 2) b) addr)
        else if a_type = 1
        then rbind (char_at b (at_idx + 1)) (\<lambda>c.
          if c \<noteq> CHR ''['' then Done False else memcmp_run (drop (at_idx + 6) b) addr)
        else Done False)))"

text \<open>
  The loop of \<^verbatim>\<open>parse_recipients\<close>: \<open>i\<close> is the position in the line, \<open>count\<close> the recipients
  still counted, \<open>acc\<close> the ones kept in an array of \<open>room\<close> entries (none when \<open>have\<close> is
  false). A recipient of \<open>n\<close> bytes gets a block of \<open>n\<close> bytes and its terminator is written behind it.
\<close>

function recipients_loop :: "string \<Rightarrow> string \<Rightarrow> int \<Rightarrow> bool \<Rightarrow> nat \<Rightarrow> nat \<Rightarrow> nat \<Rightarrow> string list \<Rightarrow> cworld
    \<Rightarrow> (string list \<times> nat \<times> cworld) run" where
  "recipients_loop line addr ty have_array room i count acc w =
     (if i < length line
      then let rcpt = takeWhile (\<lambda>c. c \<noteq> TO_SEPARATOR) (drop i line); n = length rcpt; (ok, w1) = cmalloc w in
        if \<not> ok then Fault Null_Deref
        else if usable w1 n \<le> n then Fault Out_Of_Bounds
        else rbind (check_recipient rcpt addr ty) (\<lambda>keep.
          if \<not> keep then recipients_loop line addr ty have_array room (i + n + 2) (count - 1) acc w1
          else if \<not> have_array then Fault Null_Deref
          else if room \<le> length acc then Fault Out_Of_Bounds
          else recipients_loop line addr ty have_array room (i + n + 2) count (acc @ [rcpt]) w1)
      else Done (acc, count, w))"
  by pat_completeness auto
termination
  by (relation "measure (\<lambda>(line, addr, ty, ha, room, i, count, acc, w). length line - i)") auto

declare recipients_loop.simps [simp del]

definition parse_recipients :: "string \<Rightarrow> string \<Rightarrow> int \<Rightarrow> cworld \<Rightarrow> (string list \<times> nat \<times> cworld) run" where
  "parse_recipients line addr ty w =
     (let (ok, w1) = cmalloc w in
      recipients_loop line addr ty ok (get_recipients_count line) (length X_DOMAIN_TO) (get_recipients_count line) [] w1)"

text \<open>
  A line shorter than the header asks for a block of a wrapped, huge size, which no allocator
  has; a missing sender is the value \<open>None\<close>.
\<close>

definition parse_sender :: "string \<Rightarrow> cworld \<Rightarrow> (string option \<times> cworld) run" where
  "parse_sender line w =
     (let (ok, w1) = cmalloc w in
      if \<not> ok \<or> length line < length X_DOMAIN_FROM then Done (None, send_log ''parse_sender'' w1)
      else let n = length line - length X_DOMAIN_FROM in
      if usable w1 n \<le> n then Fault Out_Of_Bounds
      else Done (Some (drop (length X_DOMAIN_FROM) line), w1))"

fun trim_from :: "string \<Rightarrow> nat \<Rightarrow> string" where
  "trim_from s 0 = s"
| "trim_from s (Suc i) = (if s ! Suc i = LF \<or> s ! Suc i = CR then trim_from (take (Suc i) s) i else s)"

definition trim :: "string \<Rightarrow> string" where
  "trim s = trim_from s (length s - 1)"

section \<open>The mail file\<close>

text \<open>\<^verbatim>\<open>fgets\<close> with an array of \<open>n\<close> bytes: up to \<open>n - 1\<close> bytes, not beyond a line feed.\<close>

definition line_length :: "string \<Rightarrow> nat" where
  "line_length s = min (length s) (length (takeWhile (\<lambda>c. c \<noteq> LF) s) + 1)"

definition fgets :: "nat \<Rightarrow> string \<Rightarrow> string \<times> string" where
  "fgets n s = (let k = min (n - 1) (line_length s) in (take k s, drop k s))"

text \<open>
  One turn of the loop of \<^verbatim>\<open>parse_message\<close> with the trimmed line; the first component of the
  result says that the loop is left. \<open>have\<close> says whether the array of lines was allocated, \<open>mx\<close>
  is its size.
\<close>

definition parse_line :: "string \<Rightarrow> int \<Rightarrow> nat \<Rightarrow> string \<Rightarrow> bool \<times> nat \<Rightarrow> smtp_message_t \<Rightarrow> cworld
    \<Rightarrow> (bool \<times> (bool \<times> nat) \<times> smtp_message_t \<times> cworld) run" where
  "parse_line addr ty line_num line arr m w =
     (if line_num = 0
      then rbind (parse_recipients line addr ty w) (\<lambda>(rs, count, w1).
        Done (count \<le> 0, arr, m\<lparr>recipients_addr := rs, recipients_count := count\<rparr>, w1))
      else if line_num = 1
      then rbind (parse_sender line w) (\<lambda>(s, w1). Done (False, arr, m\<lparr>from_addr := s\<rparr>, w1))
      else let (have_array, mx) = arr;
        ((have1, mx1), w1) = (if mx = msg_lines m then let (ok, w1) = cmalloc w in ((ok, mx * 2), w1) else ((have_array, mx), w)) in
        rbind (string_init2 (as_array line) (length line) w1) (\<lambda>(s, w2).
          if \<not> have1 then Fault Null_Deref
          else Done (False, (have1, mx1), m\<lparr>msg_text := msg_text m @ [s], msg_lines := msg_lines m + 1\<rparr>, w2)))"

text \<open>The loop; the result has the line read last, which the log record of a mail without recipients names.\<close>

function parse_lines :: "string \<Rightarrow> string \<Rightarrow> int \<Rightarrow> nat \<Rightarrow> string \<Rightarrow> bool \<times> nat \<Rightarrow> smtp_message_t \<Rightarrow> cworld
    \<Rightarrow> (smtp_message_t \<times> string \<times> cworld) run" where
  "parse_lines file addr ty line_num prev arr m w =
     (if file = [] then Done (m, prev, w)
      else let line = trim (c_str (fst (fgets MAX_LINE_LENGTH file))) in
        rbind (parse_line addr ty line_num line arr m w) (\<lambda>(stop, arr1, m1, w1).
          if stop then Done (m1, line, w1)
          else parse_lines (snd (fgets MAX_LINE_LENGTH file)) addr ty (line_num + 1) line arr1 m1 w1))"
  by pat_completeness auto
termination
  by (relation "measure (\<lambda>(file, addr, ty, n, prev, arr, m, w). length file)")
    (auto simp: fgets_def Let_def line_length_def MAX_LINE_LENGTH_def)

declare parse_lines.simps [simp del]

text \<open>The path of a file; neither result is checked before it is dereferenced.\<close>

definition full_filename :: "string \<Rightarrow> string_t \<Rightarrow> cworld \<Rightarrow> (string_t \<times> cworld) run" where
  "full_filename queue_dir fn w =
     rbind (string_init2 (as_array queue_dir) (length queue_dir) w) (\<lambda>(d, w1).
       case d of None \<Rightarrow> Fault Null_Deref
       | Some dir \<Rightarrow> rbind (concat_with_sep dir fn FILENAME_SEP w1) (\<lambda>(f, w2).
           case f of None \<Rightarrow> Fault Null_Deref | Some path \<Rightarrow> Done (path, w2)))"

text \<open>
  The file is opened after its path was built; when that fails the path is printed after it
  was freed. The fixed part of the last log record has 77 bytes.
\<close>

type_synonym mail_files = "string \<Rightarrow> string option"

definition parse_message :: "worker_config_t \<Rightarrow> mail_files \<Rightarrow> string \<Rightarrow> string_t \<Rightarrow> cworld
    \<Rightarrow> (smtp_message_t option \<times> cworld) run" where
  "parse_message cfg files queue_dir fn w =
     rbind (get_addr fn w) (\<lambda>(a, w1).
       case a of None \<Rightarrow> Done (None, w1)
       | Some (addr, ty) \<Rightarrow> (case SMTP_message_init cfg w1 of (None, w2) \<Rightarrow> Done (None, w2)
         | (Some m, w2) \<Rightarrow> rbind (full_filename queue_dir fn w2) (\<lambda>(path, w3).
             let (ok, w4) = cmalloc w3 in
             case files (c_str (str_data path)) of None \<Rightarrow> Fault Dangling
             | Some file \<Rightarrow> rbind (parse_lines file addr ty 0 [] (ok, 64) m w4) (\<lambda>(m1, line, w5).
                 if recipients_count m1 \<le> 0
                 then rbind (log_printf ''parse_message'' (77 + length addr + length line) w5) (\<lambda>w6. Done (None, w6))
                 else Done (Some m1, w5)))))"

section \<open>Names of files\<close>

lemma find_sep_hit: "d ! i = SERVER_ADDR_SEP \<Longrightarrow> find_sep d i = Some i"
  by (cases i) simp_all

lemma find_sep_append: "j \<le> length s \<Longrightarrow> SERVER_ADDR_SEP \<notin> set s \<Longrightarrow> SERVER_ADDR_SEP \<noteq> c
    \<Longrightarrow> find_sep (p @ SERVER_ADDR_SEP # s @ [c]) (length p + 1 + j) = Some (length p)"
proof (induction j)
  case 0
  then show ?case using find_sep_hit [of "p @ SERVER_ADDR_SEP # s @ [c]" "length p"] by (cases s) (auto simp: nth_append)
next
  case (Suc j)
  have "(p @ SERVER_ADDR_SEP # s @ [c]) ! Suc (length p + 1 + j) = (s @ [c]) ! Suc j" by (simp add: nth_append)
  moreover have "(s @ [c]) ! Suc j \<noteq> SERVER_ADDR_SEP"
    using Suc.prems by (cases "Suc j < length s") (auto simp: nth_append dest: nth_mem)
  ultimately show ?case using Suc by simp
qed

text \<open>A name of the form host, separator, digit, separator, rest gives the host and the digit.\<close>

lemma get_addr_ok:
  assumes "2 \<le> length d" "NUL \<notin> set d" "SERVER_ADDR_SEP \<notin> set rest" "cmem w = []"
  shows "get_addr (mk_str (d @ SERVER_ADDR_SEP # c # SERVER_ADDR_SEP # rest)) w = Done (Some (d, int (of_char c) - 48), w)"
proof -
  let ?s = "d @ SERVER_ADDR_SEP # c # SERVER_ADDR_SEP # rest"
  have "find_sep ((d @ [SERVER_ADDR_SEP, c]) @ SERVER_ADDR_SEP # rest @ [NUL]) (length (d @ [SERVER_ADDR_SEP, c]) + 1 + length rest)
      = Some (length (d @ [SERVER_ADDR_SEP, c]))"
    using assms(3) by (intro find_sep_append) (simp_all add: SERVER_ADDR_SEP_def)
  then have m: "find_sep (?s @ [NUL]) (length ?s) = Some (length d + 2)" by simp
  have "(?s @ [NUL]) ! (length d + 1) = c" "take (length d) (?s @ [NUL]) = d" by (simp_all add: nth_append)
  with m assms show ?thesis by (simp add: get_addr_def c_str_append del: append_Cons append.append_Cons)
qed

section \<open>Recipient lines\<close>

definition host_part :: "string \<Rightarrow> string" where
  "host_part r = tl (dropWhile (\<lambda>c. c \<noteq> CHR ''@'') r)"

text \<open>Which recipients of a mail a connection to \<open>addr\<close> takes: a comparison of prefixes.\<close>

definition wanted :: "string \<Rightarrow> int \<Rightarrow> string \<Rightarrow> bool" where
  "wanted addr ty r \<longleftrightarrow> \<not> prefix DOMAIN_NAME (host_part r) \<and>
     (ty = 2 \<and> prefix addr (host_part r) \<or> ty = 0 \<and> prefix (CHR ''['' # addr) (host_part r)
      \<or> ty = 1 \<and> prefix ''['' (host_part r) \<and> prefix addr (drop 5 (host_part r)))"

definition rcpt_ok :: "string \<Rightarrow> bool" where
  "rcpt_ok r \<longleftrightarrow> CHR ''@'' \<in> set r \<and> set r \<inter> {NUL, CR, LF, TO_SEPARATOR} = {} \<and> 5 \<le> length (host_part r)"

lemma memcmp_run_prefix: "NUL \<notin> set s \<Longrightarrow> memcmp_run (h @ [NUL]) s = Done (prefix s h)"
proof (induction "h @ [NUL]" s arbitrary: h rule: memcmp_run.induct)
  case (3 x xs c cs)
  then show ?case by (cases h) auto
qed auto

lemma drop_host_part:
  "CHR ''@'' \<in> set r \<Longrightarrow> drop (length (takeWhile (\<lambda>c. c \<noteq> CHR ''@'') r) + 1) r = host_part r"
proof (induction r)
  case (Cons a r)
  then show ?case by (auto simp: host_part_def)
qed simp

lemma check_recipient_ok:
  assumes "rcpt_ok r" "NUL \<notin> set addr"
  shows "check_recipient r addr ty = Done (wanted addr ty r)"
proof -
  define q where "q = length (takeWhile (\<lambda>c. c \<noteq> CHR ''@'') r)"
  have at: "CHR ''@'' \<in> set r" and h5: "5 \<le> length (host_part r)" using assms(1) by (auto simp: rcpt_ok_def)
  define h where "h = host_part r"
  have hd: "drop (q + 1) r = h" using drop_host_part [OF at] by (simp add: q_def h_def)
  have "q + 1 \<le> length r" using hd h5 by (cases "q + 1 \<le> length r") (simp_all add: h_def)
  then have d: "drop (q + 1) (as_array r) = h @ [NUL]" using hd by (simp add: as_array_def)
  have "drop j (drop (q + 1) (as_array r)) = drop j h @ [NUL]" if "j \<le> 5" for j
    using d that h5 by (simp add: h_def)
  from this [of 1] this [of 5] have e: "drop (q + 2) (as_array r) = drop 1 h @ [NUL]" "drop (q + 6) (as_array r) = drop 5 h @ [NUL]"
    by (simp_all add: add.commute)
  have c0: "char_at (as_array r) (q + 1) = Done (h ! 0)"
  proof -
    have "q + 1 < length (as_array r)" using \<open>q + 1 \<le> length r\<close> by (simp add: as_array_def)
    moreover have "as_array r ! (q + 1) = (h @ [NUL]) ! 0" using arg_cong [OF d, of "\<lambda>xs. xs ! 0"] calculation by simp
    moreover have "h \<noteq> []" using h5 by (auto simp: h_def)
    ultimately show ?thesis by (simp add: char_at_def nth_append)
  qed
  have nul: "NUL \<notin> set DOMAIN_NAME" by (simp add: DOMAIN_NAME_def)
  note m = memcmp_run_prefix [OF nul] memcmp_run_prefix [OF assms(2)]
  obtain x xs where xs: "h = x # xs" using h5 by (cases h) (auto simp: h_def)
  have w: "wanted addr ty r \<longleftrightarrow> \<not> prefix DOMAIN_NAME h \<and> (ty = 2 \<and> prefix addr h
      \<or> ty = 0 \<and> h ! 0 = CHR ''['' \<and> prefix addr (drop 1 h) \<or> ty = 1 \<and> h ! 0 = CHR ''['' \<and> prefix addr (drop 5 h))"
    by (auto simp: wanted_def h_def [symmetric] xs)
  show ?thesis
    unfolding check_recipient_def Let_def q_def [symmetric] d e c0 w m rbind.simps
    by (cases "prefix DOMAIN_NAME h"; cases "prefix addr h") (simp_all add: m)
qed

section \<open>Parsing the lines of a mail\<close>

text \<open>
  The block of an address has a byte left for the terminator that is written behind it. The
  allocator of glibc rounds the sizes up to 8 less than a multiple of 16, at least 24: most
  addresses have such a byte, one of 24 or 40 bytes has none.
\<close>

definition spare :: "cworld \<Rightarrow> string \<Rightarrow> bool" where
  "spare w a \<longleftrightarrow> length a < usable w (length a)"

definition glibc_usable :: "nat \<Rightarrow> nat" where
  "glibc_usable n = max 24 ((n + 23) div 16 * 16 - 8)"

lemma glibc_usable_examples: "glibc_usable 0 = 24" "glibc_usable 23 = 24" "glibc_usable 24 = 24" "glibc_usable 25 = 40" "glibc_usable 40 = 40"
  by (simp_all add: glibc_usable_def)

text \<open>The recipients of a header line, as they are written one after the other.\<close>

fun join_rcpts :: "string list \<Rightarrow> string" where
  "join_rcpts [] = []"
| "join_rcpts [r] = r"
| "join_rcpts (r # rs) = r @ '', '' @ join_rcpts rs"

lemma rcpt_ok_not_Nil [simp]: "rcpt_ok r \<Longrightarrow> r \<noteq> []"
  by (auto simp: rcpt_ok_def)

lemma takeWhile_rcpt: "rcpt_ok r \<Longrightarrow> takeWhile (\<lambda>c. c \<noteq> TO_SEPARATOR) (r @ TO_SEPARATOR # s) = r"
  by (auto simp: rcpt_ok_def takeWhile_append)

lemma takeWhile_rcpt_end: "rcpt_ok r \<Longrightarrow> takeWhile (\<lambda>c. c \<noteq> TO_SEPARATOR) r = r"
  by (auto simp: rcpt_ok_def takeWhile_eq_all_conv)

text \<open>
  Every recipient of the line gets a block, wanted or not, so the first one without a spare
  byte ends the loop.
\<close>

lemma recipients_loop_ok:
  assumes "cmem w = []" "NUL \<notin> set addr"
  shows "rs \<noteq> [] \<Longrightarrow> drop i line = join_rcpts rs \<Longrightarrow> \<forall>r \<in> set rs. rcpt_ok r \<Longrightarrow> length acc + length rs \<le> room \<Longrightarrow>
    length rs \<le> count \<Longrightarrow>
    recipients_loop line addr ty True room i count acc w
      = (if \<forall>r \<in> set rs. spare w r
         then Done (acc @ filter (wanted addr ty) rs, count - length (filter (\<lambda>r. \<not> wanted addr ty r) rs), w)
         else Fault Out_Of_Bounds)"
proof (induction rs arbitrary: i acc count rule: join_rcpts.induct)
  case (2 r)
  have ok: "rcpt_ok r" using 2 by simp
  have "i < length line" using 2 ok by (metis drop_all join_rcpts.simps(2) not_le rcpt_ok_not_Nil)
  moreover have "length line = i + length r" using arg_cong [OF 2(2), of length] calculation by (simp add: less_imp_le diff_eq_eq)
  ultimately show ?case using 2 ok assms
    by (subst recipients_loop.simps)
      (simp add: takeWhile_rcpt_end check_recipient_ok spare_def not_le recipients_loop.simps [of _ _ _ _ _ "Suc (Suc (i + length r))"])
next
  case (3 r r' rs)
  have ok: "rcpt_ok r" using 3 by simp
  have dr: "drop i line = r @ TO_SEPARATOR # CHR '' '' # join_rcpts (r' # rs)" using 3 by (simp add: TO_SEPARATOR_def)
  then have i: "i < length line" by (metis drop_all append_is_Nil_conv list.simps(3) not_le)
  have tw: "takeWhile (\<lambda>c. c \<noteq> TO_SEPARATOR) (drop i line) = r" using dr takeWhile_rcpt [OF ok] by simp
  have "drop (length r + 2) (drop i line) = join_rcpts (r' # rs)" using dr by simp
  then have nx: "drop (i + length r + 2) line = join_rcpts (r' # rs)" by (simp add: add.commute add.left_commute)
  note ih = "3.IH" [OF _ nx]
  show ?case
  proof (cases "spare w r")
    case False
    then have "recipients_loop line addr ty True room i count acc w = Fault Out_Of_Bounds"
      using i tw assms by (subst recipients_loop.simps) (simp add: spare_def not_less)
    with False show ?thesis by simp
  next
    case sp: True
    show ?thesis
    proof (cases "wanted addr ty r")
      case True
      then have "recipients_loop line addr ty True room i count acc w
          = recipients_loop line addr ty True room (i + length r + 2) count (acc @ [r]) w"
        using i tw ok sp assms "3.prems" by (subst recipients_loop.simps) (simp add: check_recipient_ok spare_def)
      with ih [of "acc @ [r]" count] True sp "3.prems" show ?thesis by simp
    next
      case False
      then have "recipients_loop line addr ty True room i count acc w
          = recipients_loop line addr ty True room (i + length r + 2) (count - 1) acc w"
        using i tw ok sp assms "3.prems" by (subst recipients_loop.simps) (simp add: check_recipient_ok spare_def)
      with ih [of acc "count - 1"] False sp "3.prems" show ?thesis by simp
    qed
  qed
qed simp

lemma count_separators:
  "\<forall>r \<in> set rs. rcpt_ok r \<Longrightarrow> rs \<noteq> [] \<Longrightarrow> length (filter (\<lambda>c. c = TO_SEPARATOR) (join_rcpts rs)) = length rs - 1"
proof (induction rs rule: join_rcpts.induct)
  case (3 r r' rs)
  then have "filter (\<lambda>c. c = TO_SEPARATOR) r = []" by (auto simp: rcpt_ok_def filter_empty_conv)
  with 3 show ?case by (simp add: TO_SEPARATOR_def)
qed (auto simp: rcpt_ok_def filter_empty_conv)

text \<open>The header line of a mail gives the recipients the connection takes, and counts them.\<close>

lemma parse_recipients_ok:
  assumes "cmem w = []" "NUL \<notin> set addr" "rs \<noteq> []" "\<forall>r \<in> set rs. rcpt_ok r"
  shows "parse_recipients (X_DOMAIN_TO @ join_rcpts rs) addr ty w
    = (if \<forall>r \<in> set rs. spare w r then Done (filter (wanted addr ty) rs, length (filter (wanted addr ty) rs), w)
       else Fault Out_Of_Bounds)"
proof -
  have n: "get_recipients_count (X_DOMAIN_TO @ join_rcpts rs) = length rs"
    using count_separators [OF assms(4,3)] assms(3) by (cases rs) (simp_all add: get_recipients_count_def X_DOMAIN_TO_def TO_SEPARATOR_def)
  have "length rs - length (filter (\<lambda>r. \<not> wanted addr ty r) rs) = length (filter (wanted addr ty) rs)"
    using sum_length_filter_compl [of "wanted addr ty" rs] by simp
  then show ?thesis
    using recipients_loop_ok [OF assms(1,2,3) _ assms(4), of "length X_DOMAIN_TO" "X_DOMAIN_TO @ join_rcpts rs" "[]" "length rs" "length rs" ty]
      assms(1) by (simp add: parse_recipients_def n)
qed

section \<open>Parsing a mail file\<close>

lemma trim_id: "s \<noteq> [] \<Longrightarrow> last s \<notin> {CR, LF} \<Longrightarrow> trim s = s"
  by (cases "length s - 1") (auto simp: trim_def last_conv_nth)

lemma trim_CRLF: "s \<noteq> [] \<Longrightarrow> last s \<notin> {CR, LF} \<Longrightarrow> trim (s @ CRLF) = s"
proof -
  assume s: "s \<noteq> []" "last s \<notin> {CR, LF}"
  obtain n where n: "length s = Suc n" using s(1) by (cases s) auto
  have "trim_from s n = s" using trim_id [OF s] n by (simp add: trim_def)
  moreover have "trim_from (s @ [CR]) (Suc n) = trim_from s n" using n by (simp add: nth_append)
  moreover have "trim_from (s @ CRLF) (Suc (Suc n)) = trim_from (s @ [CR]) (Suc n)" using n by (simp add: nth_append del: trim_from.simps(2) add: trim_from.simps(2) [of _ "Suc n"])
  ultimately show ?thesis using n by (simp add: trim_def del: trim_from.simps)
qed

lemma trim_empty: "trim CRLF = [CR]"
  by (simp add: trim_def)

text \<open>What becomes of a line of the text: an empty one is not empty any more.\<close>

definition stored_line :: "string \<Rightarrow> string" where
  "stored_line l = (if l = [] then [CR] else l)"

definition text_line_ok :: "string \<Rightarrow> bool" where
  "text_line_ok l \<longleftrightarrow> set l \<inter> {NUL, CR, LF} = {} \<and> length l + 2 < MAX_LINE_LENGTH"

lemma trim_line: "text_line_ok l \<Longrightarrow> trim (l @ CRLF) = stored_line l"
proof (cases "l = []")
  case False
  moreover assume "text_line_ok l"
  ultimately have "last l \<notin> {CR, LF}" using last_in_set [OF False] unfolding text_line_ok_def by blast
  with False show ?thesis using trim_CRLF [of l] by (simp add: stored_line_def)
qed (use trim_empty in \<open>simp add: stored_line_def\<close>)

lemma fgets_line:
  assumes "text_line_ok l"
  shows "fgets MAX_LINE_LENGTH (l @ CRLF @ rest) = (l @ CRLF, rest)"
proof -
  have "takeWhile (\<lambda>c. c \<noteq> LF) (l @ CRLF @ rest) = l @ [CR]"
    using assms by (auto simp: text_line_ok_def takeWhile_append)
  then have "line_length (l @ CRLF @ rest) = length l + 2" by (simp add: line_length_def)
  then have "min (MAX_LINE_LENGTH - 1) (line_length (l @ CRLF @ rest)) = length l + 2"
    using assms by (auto simp: text_line_ok_def min_def)
  then show ?thesis by (simp add: fgets_def)
qed

lemma c_str_line: "text_line_ok l \<Longrightarrow> c_str (l @ CRLF) = l @ CRLF"
  by (rule c_str_id) (auto simp: text_line_ok_def)

text \<open>One turn of the loop on a complete line, where it goes on and where it faults.\<close>

lemma parse_lines_Cons:
  assumes "text_line_ok l" "parse_line addr ty n (stored_line l) arr m w = Done (False, arr1, m1, w1)"
  shows "parse_lines (l @ CRLF @ rest) addr ty n prev arr m w = parse_lines rest addr ty (n + 1) (stored_line l) arr1 m1 w1"
proof -
  have "l @ CRLF @ rest \<noteq> []" by simp
  then show ?thesis
    unfolding parse_lines.simps [of "l @ CRLF @ rest"] fgets_line [OF assms(1)] fst_conv snd_conv Let_def
      c_str_line [OF assms(1)] trim_line [OF assms(1)] assms(2) by simp
qed

lemma parse_lines_Fault:
  assumes "text_line_ok l" "parse_line addr ty n (stored_line l) arr m w = Fault e"
  shows "parse_lines (l @ CRLF @ rest) addr ty n prev arr m w = Fault e"
proof -
  have "l @ CRLF @ rest \<noteq> []" by simp
  then show ?thesis
    unfolding parse_lines.simps [of "l @ CRLF @ rest"] fgets_line [OF assms(1)] fst_conv snd_conv Let_def
      c_str_line [OF assms(1)] trim_line [OF assms(1)] assms(2) by simp
qed

lemma parse_lines_text:
  assumes "cmem w = []"
  shows "\<forall>l \<in> set ls. text_line_ok l \<Longrightarrow> 2 \<le> n \<Longrightarrow> \<exists>prev'. parse_lines (concat (map (\<lambda>l. l @ CRLF) ls)) addr ty n prev (True, mx) m w
    = Done (m\<lparr>msg_text := msg_text m @ map (\<lambda>l. Some (mk_str (stored_line l))) ls, msg_lines := msg_lines m + length ls\<rparr>, prev', w)"
proof (induction ls arbitrary: n prev mx m)
  case Nil
  then show ?case by (subst parse_lines.simps) simp
next
  case (Cons l ls)
  define mx1 where "mx1 = (if mx = msg_lines m then mx * 2 else mx)"
  define m1 where "m1 = m\<lparr>msg_text := msg_text m @ [Some (mk_str (stored_line l))], msg_lines := msg_lines m + 1\<rparr>"
  have "parse_line addr ty n (stored_line l) (True, mx) m w = Done (False, (True, mx1), m1, w)"
    using assms Cons.prems(2) by (simp add: parse_line_def mx1_def m1_def as_array_def)
  then have "parse_lines (concat (map (\<lambda>l. l @ CRLF) (l # ls))) addr ty n prev (True, mx) m w
      = parse_lines (concat (map (\<lambda>l. l @ CRLF) ls)) addr ty (n + 1) (stored_line l) (True, mx1) m1 w"
    using parse_lines_Cons [of l addr ty n "(True, mx)" m w "(True, mx1)" m1 w "concat (map (\<lambda>l. l @ CRLF) ls)" prev] Cons.prems(1) by simp
  moreover obtain prev' where "parse_lines (concat (map (\<lambda>l. l @ CRLF) ls)) addr ty (n + 1) (stored_line l) (True, mx1) m1 w
      = Done (m1\<lparr>msg_text := msg_text m1 @ map (\<lambda>l. Some (mk_str (stored_line l))) ls, msg_lines := msg_lines m1 + length ls\<rparr>, prev', w)"
    using Cons.IH [of "n + 1" "stored_line l" mx1 m1] Cons.prems by auto
  ultimately show ?case by (simp add: m1_def)
qed

text \<open>The text of a mail file in the format of the server.\<close>

definition mail_file :: "string list \<Rightarrow> string \<Rightarrow> string list \<Rightarrow> string" where
  "mail_file rs s ls = (X_DOMAIN_TO @ join_rcpts rs) @ CRLF @ (X_DOMAIN_FROM @ s) @ CRLF @ concat (map (\<lambda>l. l @ CRLF) ls)"

definition mail_file_ok :: "string list \<Rightarrow> string \<Rightarrow> string list \<Rightarrow> bool" where
  "mail_file_ok rs s ls \<longleftrightarrow> rs \<noteq> [] \<and> (\<forall>r \<in> set rs. rcpt_ok r) \<and> text_line_ok (X_DOMAIN_TO @ join_rcpts rs)
     \<and> text_line_ok (X_DOMAIN_FROM @ s) \<and> (\<forall>l \<in> set ls. text_line_ok l)"

lemma parse_lines_mail_file:
  assumes ok: "mail_file_ok rs s ls" and w: "cmem w = []" and a: "NUL \<notin> set addr"
    and some: "\<exists>r \<in> set rs. wanted addr ty r"
    and m: "msg_text m = []" "msg_lines m = 0"
  shows "if \<forall>r \<in> set (s # rs). spare w r
    then \<exists>prev. parse_lines (mail_file rs s ls) addr ty 0 [] (True, 64) m w
      = Done (m\<lparr>from_addr := Some s, recipients_addr := filter (wanted addr ty) rs, recipients_count := length (filter (wanted addr ty) rs),
          msg_text := map (\<lambda>l. Some (mk_str (stored_line l))) ls, msg_lines := length ls\<rparr>, prev, w)
    else parse_lines (mail_file rs s ls) addr ty 0 [] (True, 64) m w = Fault Out_Of_Bounds"
proof -
  let ?to = "X_DOMAIN_TO @ join_rcpts rs" and ?from = "X_DOMAIN_FROM @ s" and ?body = "concat (map (\<lambda>l. l @ CRLF) ls)"
  define m1 where "m1 = m\<lparr>recipients_addr := filter (wanted addr ty) rs, recipients_count := length (filter (wanted addr ty) rs)\<rparr>"
  define m2 where "m2 = m1\<lparr>from_addr := Some s\<rparr>"
  have st: "stored_line ?to = ?to" "stored_line ?from = ?from" by (simp_all add: stored_line_def X_DOMAIN_TO_def X_DOMAIN_FROM_def)
  have t: "text_line_ok ?to" "text_line_ok ?from" "\<forall>l \<in> set ls. text_line_ok l" using ok by (simp_all add: mail_file_ok_def)
  have "filter (wanted addr ty) rs \<noteq> []" using some by (simp add: filter_empty_conv)
  then have l0: "parse_line addr ty 0 (stored_line ?to) (True, 64) m w
      = (if \<forall>r \<in> set rs. spare w r then Done (False, (True, 64), m1, w) else Fault Out_Of_Bounds)"
    using ok w a unfolding st by (simp add: parse_line_def parse_recipients_ok mail_file_ok_def m1_def del: append_Cons)
  have l1: "parse_line addr ty 1 (stored_line ?from) (True, 64) m1 w
      = (if spare w s then Done (False, (True, 64), m2, w) else Fault Out_Of_Bounds)"
    using w unfolding st by (simp add: parse_line_def parse_sender_def m2_def spare_def)
  have mf: "mail_file rs s ls = ?to @ CRLF @ (?from @ CRLF @ ?body)" by (simp only: mail_file_def append_assoc)
  show ?thesis
  proof (cases "\<forall>r \<in> set rs. spare w r")
    case False
    then have "parse_lines (mail_file rs s ls) addr ty 0 [] (True, 64) m w = Fault Out_Of_Bounds"
      unfolding mf by (intro parse_lines_Fault [OF t(1)]) (simp only: l0 [unfolded if_not_P [OF False]])
    with False show ?thesis by auto
  next
    case rs: True
    have e0: "parse_lines (mail_file rs s ls) addr ty 0 [] (True, 64) m w = parse_lines (?from @ CRLF @ ?body) addr ty (0 + 1) (stored_line ?to) (True, 64) m1 w"
      unfolding mf by (rule parse_lines_Cons [OF t(1)]) (simp only: l0 [unfolded if_P [OF rs]])
    show ?thesis
    proof (cases "spare w s")
      case False
      have "parse_lines (?from @ CRLF @ ?body) addr ty 1 (stored_line ?to) (True, 64) m1 w = Fault Out_Of_Bounds"
        by (rule parse_lines_Fault [OF t(2)]) (simp only: l1 [unfolded if_not_P [OF False]])
      with e0 False show ?thesis by simp
    next
      case True
      have "parse_lines (?from @ CRLF @ ?body) addr ty 1 (stored_line ?to) (True, 64) m1 w
          = parse_lines ?body addr ty (1 + 1) (stored_line ?from) (True, 64) m2 w"
        by (rule parse_lines_Cons [OF t(2)]) (simp only: l1 [unfolded if_P [OF True]])
      with e0 have e: "parse_lines (mail_file rs s ls) addr ty 0 [] (True, 64) m w = parse_lines ?body addr ty 2 (stored_line ?from) (True, 64) m2 w"
        by (simp only: add_0 one_add_one)
      from parse_lines_text [OF w t(3), of 2 addr ty "stored_line ?from" 64 m2] obtain prev where
        "parse_lines ?body addr ty 2 (stored_line ?from) (True, 64) m2 w
          = Done (m2\<lparr>msg_text := msg_text m2 @ map (\<lambda>l. Some (mk_str (stored_line l))) ls, msg_lines := msg_lines m2 + length ls\<rparr>, prev, w)"
        by auto
      with e m rs True show ?thesis by (simp add: m2_def m1_def)
    qed
  qed
qed

lemma full_filename_ok:
  "cmem w = [] \<Longrightarrow> full_filename dir (mk_str f) w = Done (mk_str (dir @ FILENAME_SEP # f), w)"
  by (simp add: full_filename_def as_array_def)

text \<open>
  The mail file of a host is parsed to the mail with the recipients of the host, or the
  terminator of an address is written behind its block.
\<close>

lemma parse_message_ok:
  assumes ok: "mail_file_ok rs s ls" and w: "cmem w = []" and d: "2 \<le> length d" "NUL \<notin> set d"
    and rest: "SERVER_ADDR_SEP \<notin> set rest" and some: "\<exists>r \<in> set rs. wanted d (int (of_char c) - 48) r"
    and fn: "fn = d @ SERVER_ADDR_SEP # c # SERVER_ADDR_SEP # rest" "NUL \<notin> set (dir @ FILENAME_SEP # fn)"
    and fc: "files (dir @ FILENAME_SEP # fn) = Some (mail_file rs s ls)"
  shows "parse_message cfg files dir (mk_str fn) w = (if \<forall>a \<in> set (s # rs). spare w a
    then Done (Some
      \<lparr>from_addr = Some s, recipients_addr = filter (wanted d (int (of_char c) - 48)) rs,
       recipients_count = length (filter (wanted d (int (of_char c) - 48)) rs),
       msg_text = map (\<lambda>l. Some (mk_str (stored_line l))) ls, msg_lines = length ls,
       attempt_start_time = None, last_attempt_time = None, max_attempts_time = cfg_max_attempts_time cfg,
       min_interval_between_attempts = cfg_min_interval_between_attempts cfg\<rparr>, w)
    else Fault Out_Of_Bounds)"
proof -
  let ?ty = "int (of_char c) - 48"
  define m where "m = \<lparr>from_addr = None, recipients_addr = [], recipients_count = 0, msg_text = [], msg_lines = 0,
        attempt_start_time = None, last_attempt_time = None, max_attempts_time = cfg_max_attempts_time cfg,
        min_interval_between_attempts = cfg_min_interval_between_attempts cfg\<rparr>"
  have init: "SMTP_message_init cfg w = (Some m, w)" using w by (simp add: SMTP_message_init_def m_def)
  have path: "c_str (str_data (mk_str (dir @ FILENAME_SEP # fn))) = dir @ FILENAME_SEP # fn"
    using c_str_append [OF fn(2), of "[NUL]"] by simp
  note lines = parse_lines_mail_file [OF ok w d(2) some, of m]
  have rcpts: "filter (wanted d ?ty) rs \<noteq> []" using some by (simp add: filter_empty_conv)
  have pm: "parse_message cfg files dir (mk_str fn) w = rbind (parse_lines (mail_file rs s ls) d ?ty 0 [] (True, 64) m w) (\<lambda>(m1, line, w5).
      if recipients_count m1 \<le> 0 then rbind (log_printf ''parse_message'' (77 + length d + length line) w5) (\<lambda>w6. Done (None, w6))
      else Done (Some m1, w5))"
    using get_addr_ok [OF d rest w, of c] init full_filename_ok [OF w, of dir fn] path fc w
    unfolding parse_message_def fn(1) [symmetric] by simp
  show ?thesis
  proof (cases "\<forall>a \<in> set (s # rs). spare w a")
    case True
    with lines obtain prev where "parse_lines (mail_file rs s ls) d ?ty 0 [] (True, 64) m w
      = Done (m\<lparr>from_addr := Some s, recipients_addr := filter (wanted d ?ty) rs, recipients_count := length (filter (wanted d ?ty) rs),
          msg_text := map (\<lambda>l. Some (mk_str (stored_line l))) ls, msg_lines := length ls\<rparr>, prev, w)"
      by (auto simp: m_def)
    with pm rcpts True show ?thesis by (simp add: m_def)
  next
    case False
    with lines have "parse_lines (mail_file rs s ls) d ?ty 0 [] (True, 64) m w = Fault Out_Of_Bounds" by (simp add: m_def split: if_splits)
    with pm False show ?thesis by auto
  qed
qed

section \<open>Mails that are not sent as they are\<close>

text \<open>A mail none of whose recipients is for the host of its name is not returned; the record names the line.\<close>

lemma parse_message_unwanted:
  assumes ok: "mail_file_ok rs s ls" and cw: "cmem w = []" and sp: "\<forall>r \<in> set rs. spare w r"
    and d: "2 \<le> length d" "NUL \<notin> set d" "length d \<le> 900"
    and rest: "SERVER_ADDR_SEP \<notin> set rest" and no: "\<forall>r \<in> set rs. \<not> wanted d (int (of_char c) - 48) r"
    and fn: "fn = d @ SERVER_ADDR_SEP # c # SERVER_ADDR_SEP # rest" "NUL \<notin> set (dir @ FILENAME_SEP # fn)"
    and fc: "files (dir @ FILENAME_SEP # fn) = Some (mail_file rs s ls)"
  shows "parse_message cfg files dir (mk_str fn) w = Done (None, send_log ''parse_message'' w)"
proof -
  let ?ty = "int (of_char c) - 48" and ?to = "X_DOMAIN_TO @ join_rcpts rs"
  have path: "c_str (str_data (mk_str (dir @ FILENAME_SEP # fn))) = dir @ FILENAME_SEP # fn"
    using c_str_append [OF fn(2), of "[NUL]"] by simp
  obtain m where init: "SMTP_message_init cfg w = (Some m, w)" using cw by (simp add: SMTP_message_init_def)
  define m1 where "m1 = m\<lparr>recipients_addr := [], recipients_count := 0\<rparr>"
  have to: "text_line_ok ?to" "stored_line ?to = ?to" using ok by (simp_all add: mail_file_ok_def stored_line_def X_DOMAIN_TO_def)
  have "filter (wanted d ?ty) rs = []" using no by (simp add: filter_empty_conv)
  then have l: "parse_line d ?ty 0 ?to (True, 64) m w = Done (True, (True, 64), m1, w)"
    using ok cw sp d(2) by (simp add: parse_line_def parse_recipients_ok mail_file_ok_def m1_def del: append_Cons)
  obtain body where mf: "mail_file rs s ls = ?to @ CRLF @ body" by (simp add: mail_file_def)
  have "parse_lines (?to @ CRLF @ body) d ?ty 0 [] (True, 64) m w = Done (m1, ?to, w)"
    unfolding parse_lines.simps [of "?to @ CRLF @ body"] fgets_line [OF to(1)] fst_conv Let_def c_str_line [OF to(1)] trim_line [OF to(1)] to(2) l
    by simp
  moreover have "log_printf ''parse_message'' (77 + length d + length ?to) w = Done (send_log ''parse_message'' w)"
    using to(1) d(3) by (simp add: log_printf_def MAX_G_LOG_MESSAGE_def text_line_ok_def MAX_LINE_LENGTH_def)
  ultimately show ?thesis
    using get_addr_ok [OF d(1,2) rest cw, of c] init full_filename_ok [OF cw, of dir fn] path fc cw mf
    unfolding parse_message_def fn(1) [symmetric] by (simp add: m1_def)
qed

lemma own_domain_unwanted: "prefix DOMAIN_NAME (host_part r) \<Longrightarrow> \<not> wanted d ty r"
  by (simp add: wanted_def)

text \<open>
  Every address is written with its terminator one byte behind the block requested for
  it. On an allocator that hands out exactly what was asked for, parsing any mail file whose
  first line names a recipient writes outside a block.
\<close>

theorem address_blocks_too_small:
  assumes "cmem w = []" and "\<And>n. usable w n = n" and "2 \<le> length d" "NUL \<notin> set d" "SERVER_ADDR_SEP \<notin> set rest"
    and "fn = d @ SERVER_ADDR_SEP # c # SERVER_ADDR_SEP # rest" "NUL \<notin> set (dir @ FILENAME_SEP # fn)"
    and "files (dir @ FILENAME_SEP # fn) = Some (l @ CRLF @ body)" "text_line_ok l" "length X_DOMAIN_TO < length l"
  shows "parse_message cfg files dir (mk_str fn) w = Fault Out_Of_Bounds"
proof -
  have path: "c_str (str_data (mk_str (dir @ FILENAME_SEP # fn))) = dir @ FILENAME_SEP # fn"
    using c_str_append [OF assms(7), of "[NUL]"] by simp
  obtain m where init: "SMTP_message_init cfg w = (Some m, w)" using assms(1) by (simp add: SMTP_message_init_def)
  have st: "stored_line l = l" using assms(10) by (auto simp: stored_line_def)
  have "parse_recipients l d (int (of_char c) - 48) w = Fault Out_Of_Bounds"
    using assms(1,2,10) by (simp add: parse_recipients_def recipients_loop.simps)
  then have "parse_line d (int (of_char c) - 48) 0 l (True, 64) m w = Fault Out_Of_Bounds" by (simp add: parse_line_def)
  then have "parse_lines (l @ CRLF @ body) d (int (of_char c) - 48) 0 [] (True, 64) m w = Fault Out_Of_Bounds"
    unfolding parse_lines.simps [of "l @ CRLF @ body"] fgets_line [OF assms(9)] fst_conv Let_def c_str_line [OF assms(9)] trim_line [OF assms(9)] st
    by simp
  then show ?thesis
    using get_addr_ok [OF assms(3,4,5,1), of c] init full_filename_ok [OF assms(1), of dir fn] path assms(1,8)
    unfolding parse_message_def assms(6) [symmetric] by simp
qed

text \<open>
  A line of the text with more bytes than one \<^verbatim>\<open>fgets\<close> returns is stored as two lines, so
  the mail goes on with a line end the sender did not write.
\<close>

theorem long_line_is_split:
  assumes "cmem w = []" and "2 \<le> n" and l: "set l \<inter> {NUL, CR, LF} = {}" "MAX_LINE_LENGTH - 1 < length l" "length l + 2 < 2 * MAX_LINE_LENGTH - 1"
  shows "\<exists>prev'. parse_lines (l @ CRLF) addr ty n prev (True, mx) m w
    = Done (m\<lparr>msg_text := msg_text m @ [Some (mk_str (take 1023 l)), Some (mk_str (drop 1023 l))], msg_lines := msg_lines m + 2\<rparr>, prev', w)"
proof -
  let ?a = "take 1023 l" and ?b = "drop 1023 l"
  define mx1 where "mx1 = (if mx = msg_lines m then mx * 2 else mx)"
  define m1 where "m1 = m\<lparr>msg_text := msg_text m @ [Some (mk_str ?a)], msg_lines := msg_lines m + 1\<rparr>"
  have len: "1023 < length l" "length l + 2 < 2047" using l by (simp_all add: MAX_LINE_LENGTH_def)
  have "takeWhile (\<lambda>c. c \<noteq> LF) (l @ CRLF) = l @ [CR]" using l(1) by (auto simp: takeWhile_append)
  then have "line_length (l @ CRLF) = length l + 2" by (simp add: line_length_def)
  then have f: "fgets MAX_LINE_LENGTH (l @ CRLF) = (?a, ?b @ CRLF)" using len by (simp add: fgets_def MAX_LINE_LENGTH_def)
  have nul: "NUL \<notin> set ?a" using l(1) by (auto dest: in_set_takeD)
  have "?a \<noteq> []" using len by auto
  then have "last ?a \<in> set l" using last_in_set in_set_takeD by metis
  then have "last ?a \<notin> {CR, LF}" using l(1) by blast
  with \<open>?a \<noteq> []\<close> have t: "trim ?a = ?a" by (rule trim_id)
  have "parse_line addr ty n ?a (True, mx) m w = Done (False, (True, mx1), m1, w)"
    using assms(1,2) len by (simp add: parse_line_def mx1_def m1_def as_array_def min_def)
  then have e: "parse_lines (l @ CRLF) addr ty n prev (True, mx) m w = parse_lines (?b @ CRLF) addr ty (n + 1) ?a (True, mx1) m1 w"
    unfolding parse_lines.simps [of "l @ CRLF"] f fst_conv snd_conv Let_def c_str_id [OF nul] t by simp
  have b: "\<forall>l \<in> set [?b]. text_line_ok l"
    using l len by (auto simp: text_line_ok_def MAX_LINE_LENGTH_def dest: in_set_dropD)
  have "stored_line ?b = ?b" using len by (simp add: stored_line_def)
  with parse_lines_text [OF assms(1) b, of "n + 1" addr ty ?a mx1 m1] e assms(2) show ?thesis by (auto simp: m1_def)
qed

definition mail_dir_example :: mail_files where
  "mail_dir_example = (\<lambda>p. if p = ''/q/ya.ru.2.T5'' then Some (mail_file [''<a@ya.ru>'', ''<b@mysmtp.ru>''] ''<s@h>'' [''hi'']) else None)"

definition worker_cfg_example :: worker_config_t where
  "worker_cfg_example = \<lparr>cfg_queue_dir = ''/q'', cfg_parent_pipe_fd = 3, cfg_logger_fd = 4, cfg_max_attempts_time = 100,
     cfg_min_interval_between_attempts = 10, cfg_max_connect_count = 2, cfg_min_interval_between_connect = 5\<rparr>"

lemma mail_dir_parts:
  "cmem exact_world = []" "usable exact_world n = n" "2 \<le> length ''ya.ru''" "NUL \<notin> set ''ya.ru''" "SERVER_ADDR_SEP \<notin> set ''T5''"
  "''ya.ru.2.T5'' = ''ya.ru'' @ SERVER_ADDR_SEP # CHR ''2'' # SERVER_ADDR_SEP # ''T5''" "NUL \<notin> set (''/q'' @ FILENAME_SEP # ''ya.ru.2.T5'')"
  "mail_dir_example (''/q'' @ FILENAME_SEP # ''ya.ru.2.T5'')
     = Some ((X_DOMAIN_TO @ ''<a@ya.ru>, <b@mysmtp.ru>'') @ CRLF @ X_DOMAIN_FROM @ ''<s@h>'' @ CRLF @ ''hi'' @ CRLF)"
  "text_line_ok (X_DOMAIN_TO @ ''<a@ya.ru>, <b@mysmtp.ru>'')" "length X_DOMAIN_TO < length (X_DOMAIN_TO @ ''<a@ya.ru>, <b@mysmtp.ru>'')"
  by (simp_all add: exact_world_def SERVER_ADDR_SEP_def FILENAME_SEP_def mail_dir_example_def mail_file_def text_line_ok_def MAX_LINE_LENGTH_def
      X_DOMAIN_TO_def)

theorem address_blocks_too_small_witness:
  "parse_message worker_cfg_example mail_dir_example ''/q'' (mk_str ''ya.ru.2.T5'') exact_world = Fault Out_Of_Bounds"
  by (rule address_blocks_too_small [where d = "''ya.ru''" and c = "CHR ''2''" and rest = "''T5''" and fn = "''ya.ru.2.T5''" and dir = "''/q''"
        and files = mail_dir_example and w = exact_world, OF mail_dir_parts(1,2,3,4,5,6,7,8,9,10)])

definition split_example :: smtp_message_t where
  "split_example = \<lparr>from_addr = Some ''s'', recipients_addr = [''a@ya.ru''], recipients_count = 1, msg_text = [], msg_lines = 0,
     attempt_start_time = None, last_attempt_time = None, max_attempts_time = 1, min_interval_between_attempts = 1\<rparr>"

theorem long_line_is_split_witness:
  "\<exists>prev'. parse_lines (replicate 1024 CHR ''a'' @ CRLF) ''ya.ru'' 2 2 [] (True, 64) split_example exact_world
     = Done (split_example\<lparr>msg_text := msg_text split_example @ [Some (mk_str (take 1023 (replicate 1024 CHR ''a''))),
           Some (mk_str (drop 1023 (replicate 1024 CHR ''a'')))],
         msg_lines := msg_lines split_example + 2\<rparr>, prev', exact_world)"
  by (rule long_line_is_split) (simp_all add: mail_dir_parts(1) MAX_LINE_LENGTH_def)

end
