(* ===== verification/Mail_Exchange.thy ===== *)
theory Mail_Exchange
  imports Server_Mail_Writer Client_Fileparser
begin

text \<open>
  The interface between the two programs: the server writes mails for other hosts into a
  directory (\<^verbatim>\<open>server/src/mail_writer.c\<close>), the client reads them from there
  (\<^verbatim>\<open>client/src/fileparser.c\<close>). The name of a file carries the host and the kind of address,
  its first two lines the recipients and the sender.
\<close>

section \<open>The two formats\<close>

text \<open>A recipient as the server prints it into the header.\<close>

definition rcpt_text :: "receiver_t \<Rightarrow> string" where
  "rcpt_text r =
     (case domain_type r of
        DOMAIN_TYPE_IPV4 \<Rightarrow> ''<'' @ content (local_part r) @ ''@['' @ dom_of r @ '']>''
      | DOMAIN_TYPE_IPV6 \<Rightarrow> ''<'' @ content (local_part r) @ ''@[IPv6'' @ dom_of r @ '']>''
      | DOMAIN_TYPE_HOST \<Rightarrow> ''<'' @ content (local_part r) @ ''@'' @ dom_of r @ ''>'')"

lemma x_to_text_rcpt: "length (rcpt_text r) + length e < 199 \<Longrightarrow> x_to_text e r = CHR '' '' # rcpt_text r @ e"
  by (cases "domain_type r") (simp_all add: x_to_text_def rcpt_text_def snprintf_def)

lemma header_join:
  assumes "to \<noteq> []" "\<forall>r \<in> set to. length (rcpt_text r) < 197"
  shows "''X-mysmtp-to:'' @ concat (map (x_to_text '','') (butlast to)) @ x_to_text CRLF (last to)
    = X_DOMAIN_TO @ join_rcpts (map rcpt_text to) @ CRLF"
proof -
  have "concat (map (x_to_text '','') (butlast to)) @ x_to_text CRLF (last to) = CHR '' '' # join_rcpts (map rcpt_text to) @ CRLF"
    using assms
  proof (induction to rule: list_nonempty_induct)
    case (cons x xs)
    then obtain y ys where "xs = y # ys" by (cases xs) auto
    with cons show ?case by (simp add: x_to_text_rcpt)
  qed (simp add: x_to_text_rcpt)
  then show ?thesis by (simp add: X_DOMAIN_TO_def)
qed

lemma rcpt_text_host_part:
  assumes "CHR ''@'' \<notin> set (content (local_part r))"
  shows "host_part (rcpt_text r) = (case domain_type r of DOMAIN_TYPE_IPV4 \<Rightarrow> ''['' @ dom_of r @ '']>''
     | DOMAIN_TYPE_IPV6 \<Rightarrow> ''[IPv6'' @ dom_of r @ '']>'' | DOMAIN_TYPE_HOST \<Rightarrow> dom_of r @ ''>'')"
  using assms by (cases "domain_type r") (simp_all add: host_part_def rcpt_text_def dropWhile_append)

text \<open>The kind of address as a digit of a file name and as the number the client makes of it.\<close>

definition type_char :: "DOMAIN_TYPE \<Rightarrow> char" where
  "type_char ty = char_of (48 + domain_type_no ty)"

lemma type_char_simps [simp]: "show_nat (domain_type_no ty) = [type_char ty]" "int (of_char (type_char ty)) - 48 = int (domain_type_no ty)"
  by (cases ty; simp add: type_char_def show_nat.simps)+

lemma show_nat_plain [simp]: "SERVER_ADDR_SEP \<notin> set (show_nat n)" "NUL \<notin> set (show_nat n)"
  by (auto simp: SERVER_ADDR_SEP_def dest: show_nat_digits)

lemma type_char_not_NUL [simp]: "type_char ty \<noteq> NUL"
proof
  assume "type_char ty = NUL"
  then have "(of_char (type_char ty) :: nat) = 0" by simp
  then show False by (cases ty) (simp_all add: type_char_def)
qed

section \<open>File names\<close>

definition client_name :: "mail_writer_t \<Rightarrow> nat \<Rightarrow> nat \<Rightarrow> receiver_t \<Rightarrow> string" where
  "client_name mw t n r = snprintf 256 (dom_of r @ ''.'' @ show_nat (domain_type_no (domain_type r)) @ ''.T''
     @ show_nat (tid mw) @ ''N'' @ show_nat n @ ''M'' @ show_nat t)"

lemma client_name_split:
  assumes "length (dom_of r) \<le> 252"
  obtains rest where "client_name mw t n r = dom_of r @ SERVER_ADDR_SEP # type_char (domain_type r) # SERVER_ADDR_SEP # rest"
    "SERVER_ADDR_SEP \<notin> set rest" "NUL \<notin> set rest"
proof -
  let ?l = "''T'' @ show_nat (tid mw) @ ''N'' @ show_nat n @ ''M'' @ show_nat t"
  have "255 - length (dom_of r) = Suc (Suc (Suc (252 - length (dom_of r))))" using assms by simp
  then have "client_name mw t n r = dom_of r @ SERVER_ADDR_SEP # type_char (domain_type r) # SERVER_ADDR_SEP # take (252 - length (dom_of r)) ?l"
    using assms by (simp add: client_name_def snprintf_def SERVER_ADDR_SEP_def)
  moreover have "SERVER_ADDR_SEP \<notin> set ?l" "NUL \<notin> set ?l" using show_nat_plain(1) by (auto simp: SERVER_ADDR_SEP_def)
  ultimately show thesis using that by (meson in_set_takeD)
qed

lemma delivery_path_remote:
  assumes "\<not> is_to_local mw (dom_of r)" "client_maildir mw = dir @ ''/''" "length dir < 740"
  shows "delivery_path mw t n r = dir @ FILENAME_SEP # client_name mw t n r"
proof -
  have "length (client_name mw t n r) \<le> 255" using length_snprintf [of 256] by (simp add: client_name_def less_Suc_eq_le numeral_eq_Suc)
  moreover have "delivery_path mw t n r = generate_file_path (client_maildir mw) [] (client_name mw t n r) 1000"
    using assms(1) unfolding delivery_path_def client_name_def by (simp only: if_False)
  ultimately show ?thesis using assms(2,3) by (simp add: generate_file_path_def snprintf_def FILENAME_SEP_def)
qed

section \<open>From the server's recipients to the client's mail\<close>

text \<open>
  The recipients and the text of a mail that the client can read back: addresses without the
  separators, short enough for the buffers of both programs, a header line that fits one
  \<^verbatim>\<open>fgets\<close>, and text lines of the same kind.
\<close>

definition relay_ok :: "receiver_t list \<Rightarrow> msg_t \<Rightarrow> string \<Rightarrow> string list \<Rightarrow> bool" where
  "relay_ok to body s ls \<longleftrightarrow> mail_file_ok (map rcpt_text to) s ls \<and> (\<forall>r \<in> set to. length (rcpt_text r) < 197 \<and>
       CHR ''@'' \<notin> set (content (local_part r)) \<and> 2 \<le> length (dom_of r) \<and> length (dom_of r) \<le> 252 \<and> NUL \<notin> set (dom_of r))
     \<and> content body = X_DOMAIN_FROM @ s @ CRLF @ concat (map (\<lambda>l. l @ CRLF) ls)"

lemma wanted_own:
  assumes "CHR ''@'' \<notin> set (content (local_part r))" "\<not> prefix DOMAIN_NAME (dom_of r @ ''>'')"
  shows "wanted (dom_of r) (int (domain_type_no (domain_type r))) (rcpt_text r)"
  using assms by (cases "domain_type r") (simp_all add: wanted_def rcpt_text_host_part DOMAIN_NAME_def)

text \<open>The mail one connection of the client makes of a mail for the recipients \<open>to\<close>.\<close>

definition relayed_mail :: "worker_config_t \<Rightarrow> receiver_t list \<Rightarrow> receiver_t \<Rightarrow> string \<Rightarrow> string list \<Rightarrow> smtp_message_t" where
  "relayed_mail cfg to r s ls =
     (let rs = filter (wanted (dom_of r) (int (domain_type_no (domain_type r)))) (map rcpt_text to) in
      \<lparr>from_addr = Some s, recipients_addr = rs, recipients_count = length rs,
       msg_text = map (\<lambda>l. Some (mk_str (stored_line l))) ls, msg_lines = length ls,
       attempt_start_time = None, last_attempt_time = None, max_attempts_time = cfg_max_attempts_time cfg,
       min_interval_between_attempts = cfg_min_interval_between_attempts cfg\<rparr>)"

lemma relay_parse:
  assumes ok: "relay_ok to body s ls" and cw: "cmem cw = []" and r: "r \<in> set to"
    and own: "\<not> prefix DOMAIN_NAME (dom_of r @ ''>'')" and dir: "NUL \<notin> set dir"
    and fc: "fs (dir @ FILENAME_SEP # client_name mw t n r) = Some (''X-mysmtp-to:'' @ concat (map (x_to_text '','') (butlast to))
       @ x_to_text CRLF (last to) @ content body)"
  shows "parse_message cfg fs dir (mk_str (client_name mw t n r)) cw =
    (if \<forall>a \<in> set (s # map rcpt_text to). spare cw a then Done (Some (relayed_mail cfg to r s ls), cw) else Fault Out_Of_Bounds)"
proof -
  let ?ty = "int (domain_type_no (domain_type r))"
  have ne: "to \<noteq> []" using r by auto
  have q: "\<forall>r \<in> set to. length (rcpt_text r) < 197" using ok by (simp add: relay_ok_def)
  have ro: "2 \<le> length (dom_of r)" "length (dom_of r) \<le> 252" "NUL \<notin> set (dom_of r)" "CHR ''@'' \<notin> set (content (local_part r))"
    using ok r by (auto simp: relay_ok_def)
  obtain rest where rest: "client_name mw t n r = dom_of r @ SERVER_ADDR_SEP # type_char (domain_type r) # SERVER_ADDR_SEP # rest"
    "SERVER_ADDR_SEP \<notin> set rest" "NUL \<notin> set rest" using client_name_split [OF ro(2)] .
  have "''X-mysmtp-to:'' @ concat (map (x_to_text '','') (butlast to)) @ x_to_text CRLF (last to) @ content body
      = mail_file (map rcpt_text to) s ls"
    using header_join [OF ne q] ok by (simp add: relay_ok_def mail_file_def flip: append_assoc)
  then have fc': "fs (dir @ FILENAME_SEP # client_name mw t n r) = Some (mail_file (map rcpt_text to) s ls)" using fc by simp
  have some: "\<exists>q \<in> set (map rcpt_text to). wanted (dom_of r) (int (of_char (type_char (domain_type r))) - 48) q"
    using wanted_own [OF ro(4) own] r by auto
  have nul: "NUL \<notin> set (dir @ FILENAME_SEP # client_name mw t n r)"
    using dir ro(3) rest by (auto simp: FILENAME_SEP_def SERVER_ADDR_SEP_def type_char_not_NUL [symmetric])
  have mok: "mail_file_ok (map rcpt_text to) s ls" using ok by (simp add: relay_ok_def)
  show ?thesis
    using parse_message_ok [OF mok cw ro(1,3) rest(2) some rest(1) nul, of fs cfg] fc'
    by (simp add: relayed_mail_def Let_def)
qed

text \<open>What is read back can be sent: it has the form that the commands of the client need.\<close>

lemma relayed_mail_ok:
  assumes ok: "relay_ok to body s ls" and s: "length s < 240"
  shows "message_ok (relayed_mail cfg to r s ls)"
proof -
  have h: "mail_file_ok (map rcpt_text to) s ls" "\<forall>q \<in> set to. length (rcpt_text q) < 197" using ok by (simp_all add: relay_ok_def)
  have "addr_ok s" using h(1) s by (auto simp: mail_file_ok_def text_line_ok_def addr_ok_def)
  moreover have "addr_ok (rcpt_text q)" if "q \<in> set to" for q
    using h that by (auto simp: mail_file_ok_def rcpt_ok_def addr_ok_def)
  moreover have "line_ok (Some (mk_str (stored_line l)))" if "l \<in> set ls" for l
  proof -
    have "NUL \<notin> set (stored_line l)" "length (stored_line l) < 2000"
      using h(1) that by (auto simp: mail_file_ok_def text_line_ok_def stored_line_def MAX_LINE_LENGTH_def)
    then show ?thesis unfolding line_ok_def by blast
  qed
  ultimately show ?thesis by (auto simp: message_ok_def relayed_mail_def Let_def)
qed

section \<open>Relaying a mail\<close>

text \<open>
  C6: what the server accepts for other hosts, the client reads back. After \<^verbatim>\<open>write_mail\<close>, for
  every remote recipient that gets a link of its own there is a file in the directory the
  client scans; the client parses its name to the host and the kind of address and its text
  to a mail with the server's sender, the text lines, and those recipients whose address
  starts with that host: all recipients with the host and kind of the link are among them.
  Unless the sender is too long for the buffer of a command, the mail can then be sent.
  Empty lines of the text come back as a single carriage return. The client writes the
  terminator of every address, the sender's and those of all recipients, one byte behind the
  block it asked for: this holds where each of these blocks happens to be larger than that
  (\<open>spare\<close>), and otherwise reading the mail writes outside a block.
\<close>

theorem relayed_mail_is_read_back:
  assumes to: "to \<noteq> []" "length to < 2 ^ 64" "\<forall>r \<in> set to. rcv_ok r"
    and body: "msg_wf txt" and clk: "clock w = [t]"
    and tmp: "creatable w (snd (tmp_path_of mw t (mailN w)))"
    and dst: "\<forall>r \<in> set to. creatable w (delivery_path mw t (mailN w) r)
        \<and> files w (delivery_path mw t (mailN w) r) = None
        \<and> delivery_path mw t (mailN w) r \<noteq> snd (tmp_path_of mw t (mailN w))"
    and dir: "client_maildir mw = dir @ ''/''" "length dir < 740" "NUL \<notin> set dir"
    and fmt: "relay_ok to txt s ls" and cw: "cmem cw = []"
  shows "\<exists>to' w'. write_mail mw to txt w = Done (CE_SUCCESS, to', w')
    \<and> (\<forall>r \<in> set (link_targets mw to). \<not> is_to_local mw (dom_of r) \<and> \<not> prefix DOMAIN_NAME (dom_of r @ ''>'')
        \<longrightarrow> (if \<forall>a \<in> set (s # map rcpt_text to). spare cw a
          then \<exists>m. parse_message cfg (files w') dir (mk_str (client_name mw t (mailN w) r)) cw = Done (Some m, cw)
          \<and> from_addr m = Some s \<and> msg_text m = map (\<lambda>l. Some (mk_str (if l = [] then [CR] else l))) ls
          \<and> recipients_addr m = filter (wanted (dom_of r) (int (domain_type_no (domain_type r)))) (map rcpt_text to)
          \<and> (\<forall>q \<in> set to. dom_of q = dom_of r \<and> domain_type q = domain_type r \<longrightarrow> rcpt_text q \<in> set (recipients_addr m))
          \<and> (length s < 240 \<longrightarrow> message_ok m)
          else parse_message cfg (files w') dir (mk_str (client_name mw t (mailN w) r)) cw = Fault Out_Of_Bounds))"
proof -
  from write_mail_writes [OF to body clk tmp dst] obtain w' where
    w': "write_mail mw to txt w = Done (CE_SUCCESS, served_upto mw to (length to), w')"
      "\<forall>r \<in> set (link_targets mw to). files w' (delivery_path mw t (mailN w) r) =
         Some (''X-mysmtp-to:'' @ concat (map (x_to_text '','') (butlast to)) @ x_to_text CRLF (last to) @ content txt)" by blast
  have pm: "parse_message cfg (files w') dir (mk_str (client_name mw t (mailN w) r)) cw =
      (if \<forall>a \<in> set (s # map rcpt_text to). spare cw a then Done (Some (relayed_mail cfg to r s ls), cw) else Fault Out_Of_Bounds)"
    if r: "r \<in> set (link_targets mw to)" "\<not> is_to_local mw (dom_of r)" "\<not> prefix DOMAIN_NAME (dom_of r @ ''>'')" for r
  proof -
    have rt: "r \<in> set to" using r(1) by (auto simp: link_targets_def)
    show ?thesis
      using w'(2) r(1) by (intro relay_parse [OF fmt cw rt r(3) dir(3)]) (simp add: delivery_path_remote [OF r(2) dir(1,2), symmetric])
  qed
  have mail: "from_addr (relayed_mail cfg to r s ls) = Some s
      \<and> msg_text (relayed_mail cfg to r s ls) = map (\<lambda>l. Some (mk_str (if l = [] then [CR] else l))) ls
      \<and> recipients_addr (relayed_mail cfg to r s ls) = filter (wanted (dom_of r) (int (domain_type_no (domain_type r)))) (map rcpt_text to)
      \<and> (\<forall>q \<in> set to. dom_of q = dom_of r \<and> domain_type q = domain_type r \<longrightarrow> rcpt_text q \<in> set (recipients_addr (relayed_mail cfg to r s ls)))
      \<and> (length s < 240 \<longrightarrow> message_ok (relayed_mail cfg to r s ls))"
    if r: "\<not> prefix DOMAIN_NAME (dom_of r @ ''>'')" for r
  proof -
    have "\<forall>q \<in> set to. dom_of q = dom_of r \<and> domain_type q = domain_type r \<longrightarrow> wanted (dom_of r) (int (domain_type_no (domain_type r))) (rcpt_text q)"
      using r fmt wanted_own by (metis relay_ok_def)
    then show ?thesis using relayed_mail_ok [OF fmt] by (auto simp: relayed_mail_def Let_def stored_line_def)
  qed
  show ?thesis
  proof (cases "\<forall>a \<in> set (s # map rcpt_text to). spare cw a")
    case True
    have "\<exists>m. parse_message cfg (files w') dir (mk_str (client_name mw t (mailN w) r)) cw = Done (Some m, cw)
          \<and> from_addr m = Some s \<and> msg_text m = map (\<lambda>l. Some (mk_str (if l = [] then [CR] else l))) ls
          \<and> recipients_addr m = filter (wanted (dom_of r) (int (domain_type_no (domain_type r)))) (map rcpt_text to)
          \<and> (\<forall>q \<in> set to. dom_of q = dom_of r \<and> domain_type q = domain_type r \<longrightarrow> rcpt_text q \<in> set (recipients_addr m))
          \<and> (length s < 240 \<longrightarrow> message_ok m)"
      if "r \<in> set (link_targets mw to)" "\<not> is_to_local mw (dom_of r)" "\<not> prefix DOMAIN_NAME (dom_of r @ ''>'')" for r
      using pm [OF that, unfolded if_P [OF True]] mail [OF that(3)] by blast
    then show ?thesis using w'(1) unfolding if_P [OF True] by blast
  next
    case False
    show ?thesis using w'(1) pm [unfolded if_not_P [OF False]] unfolding if_not_P [OF False] by blast
  qed
qed

definition relay_example :: msg_t where
  "relay_example = buffer_with (X_DOMAIN_FROM @ ''<s@h>'' @ CRLF @ ''hi'' @ CRLF @ CRLF)"

definition cfg_example :: worker_config_t where
  "cfg_example = \<lparr>cfg_queue_dir = ''/q'', cfg_parent_pipe_fd = 3, cfg_logger_fd = 4, cfg_max_attempts_time = 100,
     cfg_min_interval_between_attempts = 10, cfg_max_connect_count = 2, cfg_min_interval_between_connect = 5\<rparr>"

definition glibc_world :: cworld where
  "glibc_world = \<lparr>cmem = [], usable = glibc_usable, cclock = [], clogs = []\<rparr>"

lemma relay_example_ok: "relay_ok rcpt_example relay_example ''<s@h>'' [''hi'', []]"
  by (simp add: relay_ok_def rcpt_example_def relay_example_def mail_file_ok_def rcpt_text_def rcpt_ok_def text_line_ok_def
      X_DOMAIN_TO_def X_DOMAIN_FROM_def TO_SEPARATOR_def host_part_def MAX_LINE_LENGTH_def)

lemma spare_example: "\<forall>a \<in> set (''<s@h>'' # map rcpt_text rcpt_example). spare glibc_world a"
  by (simp add: spare_def glibc_world_def glibc_usable_def rcpt_example_def rcpt_text_def)

theorem relayed_mail_is_read_back_witness:
  "\<exists>to' w' m. write_mail mw_example rcpt_example relay_example world_example = Done (CE_SUCCESS, to', w')
     \<and> parse_message cfg_example (files w') ''/q'' (mk_str ''ya.ru.2.T5N0M9'') glibc_world = Done (Some m, glibc_world)
     \<and> from_addr m = Some ''<s@h>'' \<and> recipients_addr m = [''<a@ya.ru>''] \<and> msg_text m = [Some (mk_str ''hi''), Some (mk_str [CR])]"
proof -
  have n: "mailN world_example = 0" by (simp add: world_example_def plenty_def)
  have "msg_wf relay_example" using buffer_with_cstr_ok [of "X_DOMAIN_FROM @ ''<s@h>'' @ CRLF @ ''hi'' @ CRLF @ CRLF"]
    by (simp add: cstr_ok_def relay_example_def X_DOMAIN_FROM_def)
  moreover have "\<forall>r \<in> set rcpt_example. creatable world_example (delivery_path mw_example 9 (mailN world_example) r)
      \<and> files world_example (delivery_path mw_example 9 (mailN world_example) r) = None
      \<and> delivery_path mw_example 9 (mailN world_example) r \<noteq> snd (tmp_path_of mw_example 9 (mailN world_example))"
    using rcpt_example_paths by (simp add: world_example_def plenty_def)
  ultimately have "\<exists>to' w'. write_mail mw_example rcpt_example relay_example world_example = Done (CE_SUCCESS, to', w')
    \<and> (\<forall>r \<in> set (link_targets mw_example rcpt_example). \<not> is_to_local mw_example (dom_of r) \<and> \<not> prefix DOMAIN_NAME (dom_of r @ ''>'')
        \<longrightarrow> (if \<forall>a \<in> set (''<s@h>'' # map rcpt_text rcpt_example). spare glibc_world a
          then \<exists>m. parse_message cfg_example (files w') ''/q'' (mk_str (client_name mw_example 9 (mailN world_example) r)) glibc_world = Done (Some m, glibc_world)
          \<and> from_addr m = Some ''<s@h>'' \<and> msg_text m = map (\<lambda>l. Some (mk_str (if l = [] then [CR] else l))) [''hi'', []]
          \<and> recipients_addr m = filter (wanted (dom_of r) (int (domain_type_no (domain_type r)))) (map rcpt_text rcpt_example)
          \<and> (\<forall>q \<in> set rcpt_example. dom_of q = dom_of r \<and> domain_type q = domain_type r \<longrightarrow> rcpt_text q \<in> set (recipients_addr m))
          \<and> (length ''<s@h>'' < 240 \<longrightarrow> message_ok m)
          else parse_message cfg_example (files w') ''/q'' (mk_str (client_name mw_example 9 (mailN world_example) r)) glibc_world = Fault Out_Of_Bounds))"
    by (intro relayed_mail_is_read_back)
      (use rcpt_example_ok relay_example_ok in \<open>simp_all add: rcpt_example_def world_example_def mw_example_def glibc_world_def\<close>)
  then obtain to' w' where w': "write_mail mw_example rcpt_example relay_example world_example = Done (CE_SUCCESS, to', w')"
    "\<forall>r \<in> set (link_targets mw_example rcpt_example). \<not> is_to_local mw_example (dom_of r) \<and> \<not> prefix DOMAIN_NAME (dom_of r @ ''>'')
        \<longrightarrow> (\<exists>m. parse_message cfg_example (files w') ''/q'' (mk_str (client_name mw_example 9 (mailN world_example) r)) glibc_world = Done (Some m, glibc_world)
          \<and> from_addr m = Some ''<s@h>'' \<and> msg_text m = map (\<lambda>l. Some (mk_str (if l = [] then [CR] else l))) [''hi'', []]
          \<and> recipients_addr m = filter (wanted (dom_of r) (int (domain_type_no (domain_type r)))) (map rcpt_text rcpt_example))"
    unfolding if_P [OF spare_example] by blast
  moreover have "rcpt_example ! 0 \<in> set (link_targets mw_example rcpt_example)"
  proof -
    have "is_target mw_example rcpt_example 0" by (simp add: is_target_def rcpt_example_def)
    then show ?thesis unfolding link_targets_def by (auto simp: rcpt_example_def)
  qed
  moreover have "\<not> is_to_local mw_example (dom_of (rcpt_example ! 0))" "\<not> prefix DOMAIN_NAME (dom_of (rcpt_example ! 0) @ ''>'')"
    by (simp_all add: rcpt_example_def is_to_local_def memcmp_eq_def as_array_def mw_example_def DOMAIN_NAME_def)
  moreover have "client_name mw_example 9 (mailN world_example) (rcpt_example ! 0) = ''ya.ru.2.T5N0M9''"
    by (simp add: client_name_def snprintf_def rcpt_example_def mw_example_def n show_nat.simps type_char_def char_of_def bit_0)
  moreover have "filter (wanted (dom_of (rcpt_example ! 0)) (int (domain_type_no (domain_type (rcpt_example ! 0))))) (map rcpt_text rcpt_example) = [''<a@ya.ru>'']"
    by (simp add: rcpt_example_def wanted_def rcpt_text_def host_part_def DOMAIN_NAME_def)
  ultimately show ?thesis by fastforce
qed

end
