(* ===== verification/Bounded_Map.thy ===== *)
theory Bounded_Map
  imports Smtp_Prelude
begin

text \<open>
  The contract of a finite map of bounded size: inserting fails exactly when the map is
  full, deleting needs the key to be there. Clients rely on the derived facts: replacing an
  entry, and whole sequences of operations against a reference map.
\<close>

datatype ('k, 'v) map_op = Ins 'k 'v | Del 'k

text \<open>The reference: an ordinary map with a bound on its size; a full map refuses updates as well.\<close>

fun ref_op :: "nat \<Rightarrow> ('k, 'v) map_op \<Rightarrow> ('k \<rightharpoonup> 'v) \<Rightarrow> ('k \<rightharpoonup> 'v)" where
  "ref_op cap (Ins k v) m = (if card (dom m) = cap then m else m(k \<mapsto> v))"
| "ref_op cap (Del k) m = m(k := None)"

fun op_ok :: "('k \<Rightarrow> bool) \<Rightarrow> ('k, 'v) map_op \<Rightarrow> ('k \<rightharpoonup> 'v) \<Rightarrow> bool" where
  "op_ok valid (Ins k v) m \<longleftrightarrow> valid k"
| "op_ok valid (Del k) m \<longleftrightarrow> k \<in> dom m"

fun ref_ops :: "nat \<Rightarrow> ('k, 'v) map_op list \<Rightarrow> ('k \<rightharpoonup> 'v) \<Rightarrow> ('k \<rightharpoonup> 'v)" where
  "ref_ops cap [] m = m"
| "ref_ops cap (x # xs) m = ref_ops cap xs (ref_op cap x m)"

fun ops_ok :: "nat \<Rightarrow> ('k \<Rightarrow> bool) \<Rightarrow> ('k, 'v) map_op list \<Rightarrow> ('k \<rightharpoonup> 'v) \<Rightarrow> bool" where
  "ops_ok cap valid [] m \<longleftrightarrow> True"
| "ops_ok cap valid (x # xs) m \<longleftrightarrow> op_ok valid x m \<and> ops_ok cap valid xs (ref_op cap x m)"

locale bounded_map =
  fixes inv :: "'t \<Rightarrow> bool"
    and look :: "'t \<Rightarrow> 'k \<Rightarrow> 'v option"
    and ins :: "'k \<Rightarrow> 'v \<Rightarrow> 't \<Rightarrow> (bool \<times> 't) run"
    and del :: "'k \<Rightarrow> 't \<Rightarrow> (bool \<times> 't) run"
    and cap :: nat
    and valid :: "'k \<Rightarrow> bool"
  assumes ins_law: "inv t \<Longrightarrow> card (dom (look t)) \<noteq> cap \<Longrightarrow> valid k \<Longrightarrow>
      \<exists>t'. ins k v t = Done (True, t') \<and> inv t' \<and> look t' = (look t)(k \<mapsto> v)"
    and full_law: "inv t \<Longrightarrow> card (dom (look t)) = cap \<Longrightarrow> ins k v t = Done (False, t)"
    and del_law: "inv t \<Longrightarrow> k \<in> dom (look t) \<Longrightarrow> \<exists>t'. del k t = Done (True, t') \<and> inv t' \<and> look t' = (look t)(k := None)"
    and finite_law: "inv t \<Longrightarrow> finite (dom (look t)) \<and> card (dom (look t)) \<le> cap"
begin

text \<open>An entry can be replaced even in a full map, by deleting it first.\<close>

lemma replace_law:
  assumes "inv t" "k \<in> dom (look t)" "valid k"
  shows "\<exists>t'. rbind (del k t) (\<lambda>(_, t1). ins k v t1) = Done (True, t') \<and> inv t' \<and> look t' = (look t)(k \<mapsto> v)"
proof -
  from del_law [OF assms(1,2)] obtain t1 where t1: "del k t = Done (True, t1)" "inv t1" "look t1 = (look t)(k := None)" by blast
  have "card (dom (look t1)) < card (dom (look t))"
    using assms(2) finite_law [OF assms(1)] card_Diff1_less [of "dom (look t)" k] by (simp add: t1(3))
  then have "card (dom (look t1)) \<noteq> cap" using finite_law [OF assms(1)] by simp
  from ins_law [OF t1(2) this assms(3), of v] t1 show ?thesis by auto
qed

fun run_ops :: "('k, 'v) map_op list \<Rightarrow> 't \<Rightarrow> 't run" where
  "run_ops [] t = Done t"
| "run_ops (Ins k v # xs) t = rbind (ins k v t) (\<lambda>(_, t'). run_ops xs t')"
| "run_ops (Del k # xs) t = rbind (del k t) (\<lambda>(_, t'). run_ops xs t')"

lemma run_ops_refine:
  "inv t \<Longrightarrow> ops_ok cap valid xs (look t) \<Longrightarrow> \<exists>t'. run_ops xs t = Done t' \<and> inv t' \<and> look t' = ref_ops cap xs (look t)"
proof (induction xs arbitrary: t)
  case (Cons x xs)
  have "\<exists>b t'. (case x of Ins k v \<Rightarrow> ins k v t | Del k \<Rightarrow> del k t) = Done (b, t') \<and> inv t' \<and> look t' = ref_op cap x (look t)"
  proof (cases x)
    case (Ins k v)
    with Cons.prems ins_law [of t k v] full_law [of t k v] show ?thesis by (cases "card (dom (look t)) = cap") auto
  next
    case (Del k)
    with Cons.prems del_law [of t k] show ?thesis by auto
  qed
  then obtain b t' where t': "(case x of Ins k v \<Rightarrow> ins k v t | Del k \<Rightarrow> del k t) = Done (b, t')" "inv t'"
    "look t' = ref_op cap x (look t)" by blast
  moreover have "ops_ok cap valid xs (look t')" using Cons.prems(2) t'(3) by simp
  ultimately obtain t'' where "run_ops xs t' = Done t''" "inv t''" "look t'' = ref_ops cap xs (ref_op cap x (look t))"
    using Cons.IH [of t'] t'(3) by metis
  with t'(1) show ?case by (cases x) auto
qed simp

end

end
