(* ===== verification/Client_Tree.thy ===== *)
theory Client_Tree
  imports Client_Base Bounded_Map
begin

text \<open>
  The unbalanced search tree of the client, \<^verbatim>\<open>client/src/tree.c\<close>, keyed by C strings in the
  order of \<^verbatim>\<open>strcmp\<close>: which worker serves an address, which files were handed out, and the
  connection of each host. Values are pointers (possibly null) and are copied with the copy
  constructor of the tree.
\<close>

section \<open>Nodes and operations\<close>

datatype 'v tnode = Tip | Node "'v tnode" string "'v option" "'v tnode"

record 'v tree_t =
  troot :: "'v tnode"
  tsize :: nat
  tmax_size :: nat

type_synonym 'v copy_ptr = "'v option \<Rightarrow> cworld \<Rightarrow> ('v option \<times> cworld) run"

definition TREE_DEFAULT_MAX_SIZE :: nat where "TREE_DEFAULT_MAX_SIZE = 10000"
definition KEY_SIZE :: nat where "KEY_SIZE = 255"

text \<open>The default copy constructor: \<^verbatim>\<open>malloc\<close> and \<^verbatim>\<open>memcpy\<close> without a test of the result.\<close>

definition default_copy :: "'v copy_ptr" where
  "default_copy v w =
     (case v of None \<Rightarrow> Done (None, w)
      | Some x \<Rightarrow> (let (ok, w1) = cmalloc w in if ok then Done (Some x, w1) else Fault Null_Deref))"

definition create_node :: "'v copy_ptr \<Rightarrow> string \<Rightarrow> 'v option \<Rightarrow> cworld \<Rightarrow> ('v tnode option \<times> cworld) run" where
  "create_node cp key value w =
     (let (ok, w1) = cmalloc w in
      if \<not> ok then Done (None, send_log ''create_node'' w1)
      else rbind (cp value w1) (\<lambda>(v, w2).
        if v = None \<and> value \<noteq> None then Done (None, w2)
        else if KEY_SIZE \<le> length key then Fault Out_Of_Bounds
        else Done (Some (Node Tip key v Tip), w2)))"

fun min_value_node :: "'v tnode \<Rightarrow> (string \<times> 'v option) option" where
  "min_value_node Tip = None"
| "min_value_node (Node Tip k v r) = Some (k, v)"
| "min_value_node (Node l k v r) = min_value_node l"

fun tree_node_insert :: "'v copy_ptr \<Rightarrow> nat \<Rightarrow> string \<Rightarrow> 'v option \<Rightarrow> 'v tnode \<Rightarrow> nat \<Rightarrow> cworld
    \<Rightarrow> (cerror \<times> 'v tnode \<times> nat \<times> cworld) run" where
  "tree_node_insert cp mx key value Tip n w =
     (if n = mx then Done (TREE_OVERFLOW, Tip, n, w)
      else rbind (create_node cp key value w) (\<lambda>(nd, w1).
        case nd of None \<Rightarrow> Done (MEMORY_ERROR, Tip, n, w1) | Some t \<Rightarrow> Done (SUCCESS, t, n + 1, w1)))"
| "tree_node_insert cp mx key value (Node l k x r) n w =
     (if n = mx then Done (TREE_OVERFLOW, Node l k x r, n, w)
      else if strcmp key k = 0
      then rbind (cp value w) (\<lambda>(v, w1).
        if v = None then Done (MEMORY_ERROR, Node l k None r, n, w1) else Done (SUCCESS, Node l k v r, n, w1))
      else if strcmp key k < 0
      then rbind (tree_node_insert cp mx key value l n w) (\<lambda>(e, l', n', w1). Done (e, Node l' k x r, n', w1))
      else rbind (tree_node_insert cp mx key value r n w) (\<lambda>(e, r', n', w1). Done (e, Node l k x r', n', w1)))"

fun tree_node_delete :: "'v copy_ptr \<Rightarrow> string \<Rightarrow> 'v tnode \<Rightarrow> nat \<Rightarrow> cworld \<Rightarrow> (cerror \<times> 'v tnode \<times> nat \<times> cworld) run" where
  "tree_node_delete cp key Tip n w = Fault Assert_Failed"
| "tree_node_delete cp key (Node l k x r) n w =
     (if n = 0 then Fault Assert_Failed
      else if strcmp key k = 0
      then (if l = Tip then Done (SUCCESS, r, n - 1, w)
            else if r = Tip then Done (SUCCESS, l, n - 1, w)
            else case min_value_node r of None \<Rightarrow> Fault Null_Deref
              | Some (k', x') \<Rightarrow> rbind (cp x' w) (\<lambda>(v, w1).
                  if v = None then Done (MEMORY_ERROR, Node l k' None r, n, w1)
                  else rbind (tree_node_delete cp k' r n w1) (\<lambda>(e, r', n', w2). Done (e, Node l k' v r', n', w2))))
      else if strcmp key k < 0
      then rbind (tree_node_delete cp key l n w) (\<lambda>(e, l', n', w1). Done (e, Node l' k x r, n', w1))
      else rbind (tree_node_delete cp key r n w) (\<lambda>(e, r', n', w1). Done (e, Node l k x r', n', w1)))"

definition tree_init :: "cworld \<Rightarrow> 'v tree_t option \<times> cworld" where
  "tree_init w =
     (let (ok, w1) = cmalloc w in
      if \<not> ok then (None, send_log ''tree_init'' w1)
      else (Some \<lparr>troot = Tip, tsize = 0, tmax_size = TREE_DEFAULT_MAX_SIZE\<rparr>, w1))"

definition tree_insert :: "'v copy_ptr \<Rightarrow> 'v tree_t \<Rightarrow> string \<Rightarrow> 'v option \<Rightarrow> cworld \<Rightarrow> (cerror \<times> 'v tree_t \<times> cworld) run" where
  "tree_insert cp t key value w =
     rbind (tree_node_insert cp (tmax_size t) key value (troot t) (tsize t) w)
       (\<lambda>(e, r, n, w1). Done (e, t\<lparr>troot := r, tsize := n\<rparr>, w1))"

fun tree_node_insert_all :: "'v copy_ptr \<Rightarrow> 'v tree_t \<Rightarrow> 'v tnode \<Rightarrow> cworld \<Rightarrow> (cerror \<times> 'v tree_t \<times> cworld) run" where
  "tree_node_insert_all cp dst Tip w = Fault Null_Deref"
| "tree_node_insert_all cp dst (Node l k x r) w =
     rbind (tree_insert cp dst k x w) (\<lambda>(e1, d1, w1).
     rbind (if e1 = SUCCESS \<and> l \<noteq> Tip then tree_node_insert_all cp d1 l w1 else Done (e1, d1, w1)) (\<lambda>(e2, d2, w2).
       if e2 = SUCCESS \<and> r \<noteq> Tip then tree_node_insert_all cp d2 r w2 else Done (e2, d2, w2)))"

definition tree_insert_all :: "'v copy_ptr \<Rightarrow> 'v tree_t \<Rightarrow> 'v tree_t \<Rightarrow> cworld \<Rightarrow> (cerror \<times> 'v tree_t \<times> cworld) run" where
  "tree_insert_all cp dst src w = tree_node_insert_all cp dst (troot src) w"

text \<open>The result of a search is the value of the node found.\<close>

fun node_search :: "'v tnode \<Rightarrow> string \<Rightarrow> 'v option option" where
  "node_search Tip key = None"
| "node_search (Node l k x r) key =
     (if strcmp key k = 0 then Some x else if strcmp key k < 0 then node_search l key else node_search r key)"

definition tree_search :: "'v tree_t \<Rightarrow> string \<Rightarrow> 'v option option" where
  "tree_search t key = node_search (troot t) key"

definition tree_delete :: "'v copy_ptr \<Rightarrow> 'v tree_t \<Rightarrow> string \<Rightarrow> cworld \<Rightarrow> (cerror \<times> 'v tree_t \<times> cworld) run" where
  "tree_delete cp t key w =
     rbind (tree_node_delete cp key (troot t) (tsize t) w) (\<lambda>(e, r, n, w1). Done (e, t\<lparr>troot := r, tsize := n\<rparr>, w1))"

text \<open>The nodes in preorder, with a final assertion on their number; no block is allocated for an empty tree.\<close>

fun preorder :: "'v tnode \<Rightarrow> (string \<times> 'v option) list" where
  "preorder Tip = []"
| "preorder (Node l k x r) = (k, x) # preorder l @ preorder r"

definition tree_nodes_to_array :: "'v tree_t \<Rightarrow> cworld \<Rightarrow> ((string \<times> 'v option) list option \<times> cworld) run" where
  "tree_nodes_to_array t w =
     (if troot t = Tip then (if tsize t = 0 then Done (None, w) else Fault Assert_Failed)
      else let (ok, w1) = cmalloc w in
      if \<not> ok then (if tsize t = 0 then Done (None, send_log ''nodes_to_array'' w1) else Fault Assert_Failed)
      else if tsize t < length (preorder (troot t)) then Fault Out_Of_Bounds
      else if tsize t = length (preorder (troot t)) then Done (Some (preorder (troot t)), w1) else Fault Assert_Failed)"

text \<open>\<^verbatim>\<open>tree_clear\<close> frees nothing when there is no array of nodes; the result says whether the tree was freed.\<close>

definition tree_clear :: "'v tree_t \<Rightarrow> cworld \<Rightarrow> (bool \<times> cworld) run" where
  "tree_clear t w = rbind (tree_nodes_to_array t w) (\<lambda>(ns, w1). Done (ns \<noteq> None, w1))"

section \<open>Search trees\<close>

fun tkeys :: "'v tnode \<Rightarrow> string set" where
  "tkeys Tip = {}"
| "tkeys (Node l k x r) = insert k (tkeys l \<union> tkeys r)"

fun bst :: "'v tnode \<Rightarrow> bool" where
  "bst Tip \<longleftrightarrow> True"
| "bst (Node l k x r) \<longleftrightarrow> (\<forall>y \<in> tkeys l. y < k) \<and> (\<forall>y \<in> tkeys r. k < y) \<and> bst l \<and> bst r"

fun tcount :: "'v tnode \<Rightarrow> nat" where
  "tcount Tip = 0"
| "tcount (Node l k x r) = tcount l + 1 + tcount r"

lemma length_preorder [simp]: "length (preorder t) = tcount t"
  by (induction t) auto

lemma tcount_0 [simp]: "tcount t = 0 \<longleftrightarrow> t = Tip"
  by (cases t) auto

lemma tkeys_empty [simp]: "tkeys t = {} \<longleftrightarrow> t = Tip"
  by (cases t) auto

lemma node_search_None: "bst t \<Longrightarrow> node_search t key = None \<longleftrightarrow> key \<notin> tkeys t"
  by (induction t) (auto dest: less_asym)

lemma node_search_notin [simp]: "bst t \<Longrightarrow> key \<notin> tkeys t \<Longrightarrow> node_search t key = None"
  by (simp add: node_search_None)

fun full_vals :: "'v tnode \<Rightarrow> bool" where
  "full_vals Tip \<longleftrightarrow> True"
| "full_vals (Node l k x r) \<longleftrightarrow> x \<noteq> None \<and> full_vals l \<and> full_vals r"

definition cp_ok :: "'v copy_ptr \<Rightarrow> cworld \<Rightarrow> bool" where
  "cp_ok cp w \<longleftrightarrow> (\<forall>x. cp (Some x) w = Done (Some x, w))"

lemma insert_ok:
  assumes "bst t" "n \<noteq> mx" "length key < KEY_SIZE" "cp_ok cp w" "cmem w = []"
  shows "\<exists>t'. tree_node_insert cp mx key (Some v) t n w = Done (SUCCESS, t', if key \<in> tkeys t then n else n + 1, w)
    \<and> bst t' \<and> tkeys t' = insert key (tkeys t) \<and> tcount t' = (if key \<in> tkeys t then tcount t else tcount t + 1)
    \<and> (full_vals t \<longrightarrow> full_vals t') \<and> (\<forall>k. node_search t' k = (if k = key then Some (Some v) else node_search t k))"
  using assms(1)
proof (induction t)
  case Tip
  show ?case using assms by (simp add: create_node_def cp_ok_def)
next
  case (Node l k x r)
  consider (eq) "key = k" | (lt) "key < k" | (gt) "k < key" by force
  then show ?case
  proof cases
    case eq
    then show ?thesis using assms Node.prems by (auto simp: cp_ok_def)
  next
    case lt
    then have "key \<notin> tkeys r" "strcmp key k \<noteq> 0" "strcmp key k < 0" using Node.prems by auto
    with lt Node.IH(1) Node.prems assms(2) show ?thesis by (auto simp del: strcmp_less_0_iff)
  next
    case gt
    then have "key \<notin> tkeys l" "strcmp key k \<noteq> 0" "\<not> strcmp key k < 0" using Node.prems by auto
    with gt Node.IH(2) Node.prems assms(2) show ?thesis by (auto simp del: strcmp_less_0_iff)
  qed
qed

text \<open>
  Deletion. The keys whose values are freed: the value of a node with two subtrees is replaced
  by a copy of the value of its successor, whose node is freed.
\<close>

fun freed_values :: "'v tnode \<Rightarrow> string \<Rightarrow> string list" where
  "freed_values Tip key = []"
| "freed_values (Node l k x r) key =
     (if strcmp key k = 0
      then (if l = Tip \<or> r = Tip then [k] else case min_value_node r of None \<Rightarrow> [k] | Some (k', _) \<Rightarrow> [k, k'])
      else if strcmp key k < 0 then freed_values l key else freed_values r key)"

fun tvals :: "'v tnode \<Rightarrow> 'v set" where
  "tvals Tip = {}"
| "tvals (Node l k x r) = set_option x \<union> tvals l \<union> tvals r"

lemma node_search_tvals: "node_search t k = Some (Some v) \<Longrightarrow> v \<in> tvals t"
  by (induction t) (auto split: if_splits)

lemma min_value_ok:
  "bst t \<Longrightarrow> full_vals t \<Longrightarrow> t \<noteq> Tip \<Longrightarrow>
     \<exists>k v. min_value_node t = Some (k, Some v) \<and> k \<in> tkeys t \<and> (\<forall>y \<in> tkeys t. k \<le> y) \<and> node_search t k = Some (Some v)
       \<and> freed_values t k = [k]"
proof (induction t rule: min_value_node.induct)
  case (2 k x r)
  then show ?case by (auto simp: less_imp_le)
next
  case (3 la ka xa ra k x r)
  then obtain k' v where m: "min_value_node (Node la ka xa ra) = Some (k', Some v)" "k' \<in> tkeys (Node la ka xa ra)"
    "\<forall>y \<in> tkeys (Node la ka xa ra). k' \<le> y" "node_search (Node la ka xa ra) k' = Some (Some v)" "freed_values (Node la ka xa ra) k' = [k']" by auto
  have "k' < k" using m(2) "3.prems"(1) by auto
  moreover have "\<forall>y \<in> tkeys r. k' \<le> y" using "3.prems"(1) \<open>k' < k\<close> by (auto intro: less_imp_le order_less_trans)
  moreover have "freed_values (Node (Node la ka xa ra) k x r) k' = [k']" using m(5) \<open>k' < k\<close> less_imp_neq [OF \<open>k' < k\<close>] by (subst freed_values.simps(2)) simp
  ultimately show ?case using m by (auto simp: less_imp_le)
qed simp

lemma freed_values_keys: "k \<in> set (freed_values t key) \<Longrightarrow> bst t \<Longrightarrow> full_vals t \<Longrightarrow> k \<in> tkeys t"
proof (induction t)
  case (Node l k1 x r)
  show ?case
  proof (cases "r = Tip")
    case False
    with Node.prems(2,3) min_value_ok [of r] obtain k' v where "min_value_node r = Some (k', Some v)" "k' \<in> tkeys r" by auto
    then show ?thesis using Node by (auto split: if_splits)
  qed (use Node in \<open>auto split: if_splits\<close>)
qed simp

text \<open>
  Deleting a key with a copy constructor that turns the values of the tree into \<open>g\<close> of them:
  the value of a successor that moved is \<open>g\<close> of what it was, all others are untouched.
\<close>

lemma delete_gen:
  assumes "bst t" "full_vals t" "key \<in> tkeys t" "tcount t \<le> n" "\<forall>v \<in> tvals t. cp (Some v) w = Done (Some (g v), w)"
  shows "\<exists>t'. tree_node_delete cp key t n w = Done (SUCCESS, t', n - 1, w) \<and> bst t' \<and> full_vals t' \<and> tkeys t' = tkeys t - {key}
    \<and> tcount t' = tcount t - 1 \<and> (\<forall>k. node_search t' k = (if k = key then None
        else if k \<in> set (freed_values t key) then map_option (map_option g) (node_search t k) else node_search t k))"
  using assms
proof (induction t arbitrary: key)
  case (Node l k x r)
  have n: "n \<noteq> 0" using Node.prems(4) by simp
  have bl: "bst l" "bst r" "full_vals l" "full_vals r" "\<forall>y \<in> tkeys l. y < k" "\<forall>y \<in> tkeys r. k < y" using Node.prems(1,2) by auto
  have cps: "\<forall>v \<in> tvals l. cp (Some v) w = Done (Some (g v), w)" "\<forall>v \<in> tvals r. cp (Some v) w = Done (Some (g v), w)"
    using Node.prems(5) by auto
  consider (lt) "key < k" | (gt) "k < key" | (left) "key = k" "l = Tip" | (right) "key = k" "l \<noteq> Tip" "r = Tip"
    | (both) "key = k" "l \<noteq> Tip" "r \<noteq> Tip" by force
  then show ?case
  proof cases
    case lt
    have nr: "key \<notin> tkeys r" using lt bl(6) by (auto dest: less_asym)
    with lt have kl: "key \<in> tkeys l" using Node.prems(3) by auto
    have "tcount l \<le> n" using Node.prems(4) by simp
    from Node.IH(1) [OF bl(1,3) kl this cps(1)] obtain l' where
      l': "tree_node_delete cp key l n w = Done (SUCCESS, l', n - 1, w)" "bst l'" "full_vals l'" "tkeys l' = tkeys l - {key}"
        "tcount l' = tcount l - 1" "\<forall>j. node_search l' j = (if j = key then None
           else if j \<in> set (freed_values l key) then map_option (map_option g) (node_search l j) else node_search l j)" by blast
    have "tree_node_delete cp key (Node l k x r) n w = Done (SUCCESS, Node l' k x r, n - 1, w)" using lt n l'(1) by auto
    moreover have "bst (Node l' k x r)" "full_vals (Node l' k x r)" "tkeys (Node l' k x r) = tkeys (Node l k x r) - {key}"
      using bl l' Node.prems(2) lt nr by auto
    moreover have "tcount (Node l' k x r) = tcount (Node l k x r) - 1" using l'(5) kl tcount_0 [of l] by (cases "tcount l") auto
    moreover have "node_search (Node l' k x r) j = (if j = key then None else if j \<in> set (freed_values (Node l k x r) key)
        then map_option (map_option g) (node_search (Node l k x r) j) else node_search (Node l k x r) j)" for j
      using l'(6) lt freed_values_keys [of j l key] bl by (auto dest: less_asym)
    ultimately show ?thesis by blast
  next
    case gt
    have nl: "key \<notin> tkeys l" using gt bl(5) by (auto dest: less_asym)
    with gt have kr: "key \<in> tkeys r" using Node.prems(3) by auto
    have "tcount r \<le> n" using Node.prems(4) by simp
    from Node.IH(2) [OF bl(2,4) kr this cps(2)] obtain r' where
      r': "tree_node_delete cp key r n w = Done (SUCCESS, r', n - 1, w)" "bst r'" "full_vals r'" "tkeys r' = tkeys r - {key}"
        "tcount r' = tcount r - 1" "\<forall>j. node_search r' j = (if j = key then None
           else if j \<in> set (freed_values r key) then map_option (map_option g) (node_search r j) else node_search r j)" by blast
    have cmp: "strcmp key k \<noteq> 0" "\<not> strcmp key k < 0" using gt by auto
    have "tree_node_delete cp key (Node l k x r) n w = Done (SUCCESS, Node l k x r', n - 1, w)" using cmp n r'(1) by simp
    moreover have "bst (Node l k x r')" "full_vals (Node l k x r')" "tkeys (Node l k x r') = tkeys (Node l k x r) - {key}"
      using bl r' Node.prems(2) gt nl by auto
    moreover have "tcount (Node l k x r') = tcount (Node l k x r) - 1" using r'(5) kr tcount_0 [of r] by (cases "tcount r") auto
    moreover have "node_search (Node l k x r') j = (if j = key then None else if j \<in> set (freed_values (Node l k x r) key)
        then map_option (map_option g) (node_search (Node l k x r) j) else node_search (Node l k x r) j)" for j
      using r'(6) gt freed_values_keys [of j r key] bl by (auto dest: less_asym)
    ultimately show ?thesis by blast
  next
    case left
    then have "key \<notin> tkeys r" using bl by auto
    moreover have "node_search (Node l k x r) j = (if j = key then Some x else node_search r j)" for j
      using left bl by (auto dest: less_asym intro!: node_search_notin [symmetric])
    ultimately show ?thesis using left bl n by (intro exI [of _ r]) (auto dest: less_asym intro!: node_search_notin)
  next
    case right
    then have "key \<notin> tkeys l" using bl by auto
    moreover have "node_search (Node l k x r) j = (if j = key then Some x else node_search l j)" for j
      using right bl by (auto dest: less_asym intro!: node_search_notin [symmetric])
    ultimately show ?thesis using right bl n by (intro exI [of _ l]) (auto dest: less_asym intro!: node_search_notin)
  next
    case both
    obtain k' v where m: "min_value_node r = Some (k', Some v)" "k' \<in> tkeys r" "\<forall>y \<in> tkeys r. k' \<le> y" "node_search r k' = Some (Some v)"
      "freed_values r k' = [k']" using min_value_ok [OF bl(2,4) both(3)] by blast
    have "tcount r \<le> n" using Node.prems(4) by simp
    from Node.IH(2) [OF bl(2,4) m(2) this cps(2)] m(5) obtain r' where
      r': "tree_node_delete cp k' r n w = Done (SUCCESS, r', n - 1, w)" "bst r'" "full_vals r'" "tkeys r' = tkeys r - {k'}"
        "tcount r' = tcount r - 1" "\<forall>j. node_search r' j = (if j = k' then None else node_search r j)" by auto
    have kk: "k < k'" using m(2) bl by auto
    have cv: "cp (Some v) w = Done (Some (g v), w)" using cps(2) node_search_tvals [OF m(4)] by blast
    have res: "tree_node_delete cp key (Node l k x r) n w = Done (SUCCESS, Node l k' (Some (g v)) r', n - 1, w)"
      using both n m(1) r'(1) cv by simp
    have fr: "freed_values (Node l k x r) key = [key, k']" using both m(1) by simp
    have lk: "\<forall>y \<in> tkeys l. y < k'" using bl kk by (auto intro: order_less_trans)
    have b: "bst (Node l k' (Some (g v)) r')" using bl r' m(3) lk by (auto simp: order_le_less)
    have ks: "tkeys (Node l k' (Some (g v)) r') = tkeys (Node l k x r) - {key}"
      using r'(4) m(2) both(1) bl kk by auto
    have sr: "node_search (Node l k' (Some (g v)) r') j = (if j = key then None else if j \<in> set (freed_values (Node l k x r) key)
        then map_option (map_option g) (node_search (Node l k x r) j) else node_search (Node l k x r) j)" for j
    proof (cases "j \<in> tkeys l \<or> j \<in> tkeys r")
      case True
      then show ?thesis
        using bl lk kk r'(6) m(3,4) both(1) fr by (auto dest: less_asym order_less_trans)
    next
      case False
      then have "j \<notin> tkeys (Node l k' (Some (g v)) r')" "j \<noteq> key \<longrightarrow> j \<notin> tkeys (Node l k x r)"
        using ks m(2) r'(4) both(1) by auto
      with node_search_notin [OF b] node_search_notin [OF Node.prems(1)] show ?thesis
        by (cases "j = key") (simp_all del: node_search.simps)
    qed
    have "0 < tcount r" using tcount_0 [of r] both(3) by (simp del: tcount_0)
    then have "tcount (Node l k' (Some (g v)) r') = tcount (Node l k x r) - 1" using r'(5) by simp
    moreover have "full_vals (Node l k' (Some (g v)) r')" using Node.prems(2) r'(3) by simp
    ultimately show ?thesis using res b ks sr by blast
  qed
qed simp

lemma delete_ok:
  assumes "bst t" "full_vals t" "key \<in> tkeys t" "tcount t \<le> n" "cp_ok cp w"
  shows "\<exists>t'. tree_node_delete cp key t n w = Done (SUCCESS, t', n - 1, w) \<and> bst t' \<and> full_vals t' \<and> tkeys t' = tkeys t - {key}
    \<and> tcount t' = tcount t - 1 \<and> (\<forall>k. node_search t' k = (if k = key then None else node_search t k))"
proof -
  have "map_option (map_option (\<lambda>v. v)) y = y" for y :: "'a option option" by (cases y) (simp_all add: option.map_ident)
  then show ?thesis using delete_gen [OF assms(1-4), of cp w "\<lambda>v. v"] assms(5) by (auto simp: cp_ok_def)
qed

section \<open>The tree is a bounded map\<close>

definition tree_inv :: "'v tree_t \<Rightarrow> bool" where
  "tree_inv t \<longleftrightarrow> bst (troot t) \<and> full_vals (troot t) \<and> tsize t = tcount (troot t) \<and> tsize t \<le> tmax_size t
     \<and> tmax_size t = TREE_DEFAULT_MAX_SIZE"

definition tree_lookup :: "'v tree_t \<Rightarrow> string \<Rightarrow> 'v option" where
  "tree_lookup t k = (case tree_search t k of Some (Some v) \<Rightarrow> Some v | _ \<Rightarrow> None)"

definition tree_ins :: "'v copy_ptr \<Rightarrow> cworld \<Rightarrow> string \<Rightarrow> 'v \<Rightarrow> 'v tree_t \<Rightarrow> (bool \<times> 'v tree_t) run" where
  "tree_ins cp w k v t = rbind (tree_insert cp t k (Some v) w) (\<lambda>(e, t', _). Done (e = SUCCESS, t'))"

definition tree_del :: "'v copy_ptr \<Rightarrow> cworld \<Rightarrow> string \<Rightarrow> 'v tree_t \<Rightarrow> (bool \<times> 'v tree_t) run" where
  "tree_del cp w k t = rbind (tree_delete cp t k w) (\<lambda>(e, t', _). Done (e = SUCCESS, t'))"

lemma finite_tkeys [simp]: "finite (tkeys t)"
  by (induction t) auto

lemma card_tkeys: "bst t \<Longrightarrow> card (tkeys t) = tcount t"
proof (induction t)
  case (Node l k x r)
  then have "k \<notin> tkeys l \<union> tkeys r" "tkeys l \<inter> tkeys r = {}" by (auto dest: less_asym)
  with Node show ?case by (simp add: card_Un_disjoint)
qed simp

lemma full_vals_search: "full_vals t \<Longrightarrow> node_search t k \<noteq> Some None"
  by (induction t) auto

lemma dom_tree_lookup: "tree_inv t \<Longrightarrow> dom (tree_lookup t) = tkeys (troot t)"
  using node_search_None [of "troot t"] full_vals_search [of "troot t"]
  by (force simp: tree_inv_def tree_lookup_def tree_search_def dom_def split: option.splits)

lemma tree_ins_ok:
  assumes inv: "tree_inv t" and room: "tsize t \<noteq> tmax_size t" and k: "length k < KEY_SIZE" and cp: "cp_ok cp w" and w: "cmem w = []"
  shows "\<exists>t'. tree_insert cp t k (Some v) w = Done (SUCCESS, t', w) \<and> tree_inv t' \<and> tree_lookup t' = (tree_lookup t)(k \<mapsto> v)"
proof -
  have b: "bst (troot t)" using inv by (simp add: tree_inv_def)
  from insert_ok [OF b room k cp w, of v] obtain r where
    r: "tree_node_insert cp (tmax_size t) k (Some v) (troot t) (tsize t) w
          = Done (SUCCESS, r, if k \<in> tkeys (troot t) then tsize t else tsize t + 1, w)" "bst r"
      "tcount r = (if k \<in> tkeys (troot t) then tcount (troot t) else tcount (troot t) + 1)" "full_vals (troot t) \<longrightarrow> full_vals r"
      "\<forall>j. node_search r j = (if j = k then Some (Some v) else node_search (troot t) j)" by blast
  with inv room show ?thesis
    by (auto simp: tree_insert_def tree_inv_def tree_lookup_def tree_search_def fun_eq_iff)
qed

lemma tree_del_ok:
  assumes inv: "tree_inv t" and k: "k \<in> tkeys (troot t)" and cp: "cp_ok cp w"
  shows "\<exists>t'. tree_delete cp t k w = Done (SUCCESS, t', w) \<and> tree_inv t' \<and> tree_lookup t' = (tree_lookup t)(k := None)"
proof -
  have b: "bst (troot t)" "full_vals (troot t)" "tcount (troot t) \<le> tsize t" using inv by (simp_all add: tree_inv_def)
  from delete_ok [OF b(1,2) k b(3) cp] obtain r where
    r: "tree_node_delete cp k (troot t) (tsize t) w = Done (SUCCESS, r, tsize t - 1, w)" "bst r" "full_vals r"
      "tcount r = tcount (troot t) - 1" "\<forall>j. node_search r j = (if j = k then None else node_search (troot t) j)" by blast
  with inv show ?thesis
    by (auto simp: tree_delete_def tree_inv_def tree_lookup_def tree_search_def fun_eq_iff)
qed

definition plenty_world :: cworld where
  "plenty_world = \<lparr>cmem = [], usable = (\<lambda>n. n + 16), cclock = [], clogs = []\<rparr>"

interpretation tm: bounded_map tree_inv tree_lookup "tree_ins default_copy plenty_world" "tree_del default_copy plenty_world"
  TREE_DEFAULT_MAX_SIZE "\<lambda>k. length k < KEY_SIZE"
proof unfold_locales
  have cp: "cp_ok default_copy plenty_world" and w: "cmem plenty_world = []"
    by (simp_all add: cp_ok_def default_copy_def plenty_world_def)
  fix t :: "'v tree_t" and k :: string and v :: 'v
  assume inv: "tree_inv t"
  have c: "card (dom (tree_lookup t)) = tsize t"
    using inv card_tkeys [of "troot t"] by (simp add: dom_tree_lookup) (simp add: tree_inv_def)
  show "finite (dom (tree_lookup t)) \<and> card (dom (tree_lookup t)) \<le> TREE_DEFAULT_MAX_SIZE"
    using inv c by (simp add: dom_tree_lookup) (simp add: tree_inv_def)
  {
    assume "card (dom (tree_lookup t)) \<noteq> TREE_DEFAULT_MAX_SIZE" "length k < KEY_SIZE"
    with tree_ins_ok [OF inv _ _ cp w, of k v] c inv
    show "\<exists>t'. tree_ins default_copy plenty_world k v t = Done (True, t') \<and> tree_inv t' \<and> tree_lookup t' = (tree_lookup t)(k \<mapsto> v)"
      by (fastforce simp: tree_ins_def tree_inv_def)
  next
    assume "card (dom (tree_lookup t)) = TREE_DEFAULT_MAX_SIZE"
    with c inv have "tsize t = tmax_size t" by (simp add: tree_inv_def)
    then show "tree_ins default_copy plenty_world k v t = Done (False, t)"
      by (cases "troot t") (simp_all add: tree_ins_def tree_insert_def)
  next
    assume "k \<in> dom (tree_lookup t)"
    then have "k \<in> tkeys (troot t)" using dom_tree_lookup [OF inv] by blast
    from tree_del_ok [OF inv this cp]
    show "\<exists>t'. tree_del default_copy plenty_world k t = Done (True, t') \<and> tree_inv t' \<and> tree_lookup t' = (tree_lookup t)(k := None)"
      by (auto simp: tree_del_def)
  }
qed

fun tree_run :: "(string, 'v) map_op list \<Rightarrow> 'v tree_t \<Rightarrow> 'v tree_t run" where
  "tree_run [] t = Done t"
| "tree_run (Ins k v # xs) t = rbind (tree_insert default_copy t k (Some v) plenty_world) (\<lambda>(_, t', _). tree_run xs t')"
| "tree_run (Del k # xs) t = rbind (tree_delete default_copy t k plenty_world) (\<lambda>(_, t', _). tree_run xs t')"

lemma tm_run_ops: "tm.run_ops xs t = tree_run xs t"
proof (induction xs arbitrary: t)
  case (Cons x xs)
  have ih: "tm.run_ops xs = tree_run xs" by (rule ext) (rule Cons.IH)
  show ?case
  proof (cases x)
    case (Ins k v)
    have "tm.run_ops (x # xs) t = rbind (tree_ins default_copy plenty_world k v t) (\<lambda>(_, t'). tree_run xs t')"
      by (simp only: Ins tm.run_ops.simps ih)
    also have "\<dots> = tree_run (x # xs) t" unfolding Ins tree_run.simps tree_ins_def by (simp add: rbind_assoc case_prod_unfold)
    finally show ?thesis .
  next
    case (Del k)
    have "tm.run_ops (x # xs) t = rbind (tree_del default_copy plenty_world k t) (\<lambda>(_, t'). tree_run xs t')"
      by (simp only: Del tm.run_ops.simps ih)
    also have "\<dots> = tree_run (x # xs) t" unfolding Del tree_run.simps tree_del_def by (simp add: rbind_assoc case_prod_unfold)
    finally show ?thesis .
  qed
qed simp

text \<open>
  C21: the search tree is a bounded map: over any sequence of insertions and deletions (of
  keys that are there), lookups in the tree agree with a reference map of at most 10000
  entries, which refuses every update, also of an entry it has, once it is full.
\<close>

theorem tree_refines_map:
  fixes t :: "'v tree_t"
  assumes "tree_inv t" and "ops_ok TREE_DEFAULT_MAX_SIZE (\<lambda>k. length k < KEY_SIZE) xs (tree_lookup t)"
  shows "\<exists>t'. tree_run xs t = Done t' \<and> tree_inv t' \<and> tree_lookup t' = ref_ops TREE_DEFAULT_MAX_SIZE xs (tree_lookup t)"
  using tm.run_ops_refine [OF assms] by (simp add: tm_run_ops)

text \<open>
  Deleting a key that is not in the tree aborts the process: the search for it reaches
  the assertion on an empty subtree, whatever the size recorded.
\<close>

theorem tree_delete_missing:
  assumes "bst (troot t)" and "k \<notin> tkeys (troot t)"
  shows "tree_delete cp t k w = Fault Assert_Failed"
proof -
  have "tree_node_delete cp k r n w = Fault Assert_Failed" if "bst r" "k \<notin> tkeys r" for r n
    using that by (induction r) auto
  with assms show ?thesis by (simp add: tree_delete_def)
qed

definition tree_example :: "nat tree_t" where
  "tree_example = \<lparr>troot = Node (Node Tip ''b'' (Some 1) Tip) ''m'' (Some 2) (Node Tip ''x'' (Some 3) Tip), tsize = 3, tmax_size = TREE_DEFAULT_MAX_SIZE\<rparr>"

lemma tree_example_inv: "tree_inv tree_example"
  by (simp add: tree_inv_def tree_example_def TREE_DEFAULT_MAX_SIZE_def less_char_def)

theorem tree_refines_map_witness:
  "\<exists>t'. tree_run [Ins ''n'' 9, Del ''m''] tree_example = Done t'
     \<and> tree_lookup t' ''n'' = Some 9 \<and> tree_lookup t' ''m'' = None \<and> tree_lookup t' ''b'' = Some 1"
proof -
  have l: "tree_lookup tree_example ''b'' = Some 1" "tree_lookup tree_example ''m'' = Some 2"
    by (simp_all add: tree_lookup_def tree_search_def tree_example_def less_char_def)
  have "card (dom (tree_lookup tree_example)) = 3"
    unfolding dom_tree_lookup [OF tree_example_inv] by (simp add: tree_example_def)
  with tree_refines_map [OF tree_example_inv, of "[Ins ''n'' 9, Del ''m'']"] l show ?thesis
    by (auto simp: KEY_SIZE_def TREE_DEFAULT_MAX_SIZE_def dom_def)
qed

theorem tree_delete_missing_witness: "tree_delete default_copy tree_example ''z'' plenty_world = Fault Assert_Failed"
  by (rule tree_delete_missing) (use tree_example_inv in \<open>simp_all add: tree_inv_def tree_example_def\<close>)

end
