(* ===== verification/Client_Select.thy ===== *)
theory Client_Select
  imports Client_Peer
begin

text \<open>
  Waiting for descriptors in the processes of the client,
  \<^verbatim>\<open>client/src/select_fd_storage.c\<close>: the two sets handed to \<^verbatim>\<open>select\<close>, and the step that
  receives and sends on every peer that is ready. What the kernel answers is an argument.
\<close>

section \<open>Sets of descriptors\<close>

definition FD_SETSIZE :: int where "FD_SETSIZE = 1024"

record select_fd_storage_t =
  read_fds :: "int set"
  write_fds :: "int set"

text \<open>\<^verbatim>\<open>FD_SET\<close> and \<^verbatim>\<open>FD_ISSET\<close> index an array of 1024 bits with the descriptor.\<close>

definition fd_set_add :: "int \<Rightarrow> int set \<Rightarrow> int set run" where
  "fd_set_add fd s = (if 0 \<le> fd \<and> fd < FD_SETSIZE then Done (insert fd s) else Fault Out_Of_Bounds)"

definition fd_isset :: "int \<Rightarrow> int set \<Rightarrow> bool run" where
  "fd_isset fd s = (if 0 \<le> fd \<and> fd < FD_SETSIZE then Done (fd \<in> s) else Fault Out_Of_Bounds)"

definition storage_init :: "cworld \<Rightarrow> select_fd_storage_t option \<times> cworld" where
  "storage_init w =
     (let (ok1, w1) = cmalloc w in
      if \<not> ok1 then (None, send_log ''storage_init'' w1)
      else let (ok2, w2) = cmalloc w1 in
      if \<not> ok2 then (None, send_log ''storage_init'' w2)
      else let (ok3, w3) = cmalloc w2 in
      if \<not> ok3 then (None, send_log ''storage_init'' w3)
      else (Some \<lparr>read_fds = {}, write_fds = {}\<rparr>, w3))"

definition zero_storage :: "select_fd_storage_t \<Rightarrow> select_fd_storage_t" where
  "zero_storage st = st\<lparr>read_fds := {}, write_fds := {}\<rparr>"

text \<open>Writing is only asked for while there is something in the queue.\<close>

definition build_storage :: "peer_t \<Rightarrow> select_fd_storage_t \<Rightarrow> select_fd_storage_t run" where
  "build_storage server st =
     (if pfd server > 0
      then rbind (fd_set_add (pfd server) (read_fds st)) (\<lambda>r.
        if \<not> cqueue_is_empty (messages_in server)
        then rbind (fd_set_add (pfd server) (write_fds st)) (\<lambda>wr. Done (st\<lparr>read_fds := r, write_fds := wr\<rparr>))
        else Done (st\<lparr>read_fds := r\<rparr>))
      else Done st)"

fun build_all :: "peer_t list \<Rightarrow> select_fd_storage_t \<Rightarrow> select_fd_storage_t run" where
  "build_all [] st = Done st"
| "build_all (p # ps) st = rbind (build_storage p st) (build_all ps)"

fun get_max_fd :: "peer_t list \<Rightarrow> int \<Rightarrow> int" where
  "get_max_fd [] mx = mx"
| "get_max_fd (p # ps) mx = get_max_fd ps (if pfd p > mx then pfd p else mx)"

section \<open>One step\<close>

text \<open>
  The kernel: the descriptors \<^verbatim>\<open>select\<close> leaves in the two sets (\<open>None\<close> for an error), what a
  receiving call returns on a descriptor and how much a sending call takes.
\<close>

record cio =
  io_select :: "int \<Rightarrow> int set \<Rightarrow> int set \<Rightarrow> (int set \<times> int set) option"
  io_recv :: "int \<Rightarrow> string option"
  io_send :: "int \<Rightarrow> nat option"

definition serve_peer :: "cio \<Rightarrow> select_fd_storage_t \<Rightarrow> peer_t \<Rightarrow> cworld \<Rightarrow> (peer_t \<times> string \<times> cworld) run" where
  "serve_peer io st p w =
     rbind (fd_isset (pfd p) (read_fds st)) (\<lambda>rd.
     rbind (if rd then rbind (peer_receive (io_recv io (pfd p)) p w) (\<lambda>(_, p1, w1). Done (p1, w1)) else Done (p, w)) (\<lambda>(p1, w1).
     rbind (fd_isset (pfd p1) (write_fds st)) (\<lambda>wr.
       if wr then rbind (peer_send (io_send io (pfd p1)) p1) (\<lambda>(_, p2, sent). Done (p2, sent, w1))
       else Done (p1, [], w1))))"

fun serve_peers :: "cio \<Rightarrow> select_fd_storage_t \<Rightarrow> peer_t list \<Rightarrow> cworld \<Rightarrow> ((peer_t \<times> string) list \<times> cworld) run" where
  "serve_peers io st [] w = Done ([], w)"
| "serve_peers io st (p # ps) w =
     rbind (serve_peer io st p w) (\<lambda>(p', sent, w1).
     rbind (serve_peers io st ps w1) (\<lambda>(rest, w2). Done ((p', sent) # rest, w2)))"

text \<open>
  The result has the return value, the two sets, every peer with the bytes that left it, and
  the environment. \<^verbatim>\<open>select\<close> only takes descriptors out of the sets.
\<close>

definition select_step :: "cio \<Rightarrow> select_fd_storage_t \<Rightarrow> peer_t list \<Rightarrow> cworld
    \<Rightarrow> (int \<times> select_fd_storage_t \<times> (peer_t \<times> string) list \<times> cworld) run" where
  "select_step io st peers w =
     rbind (build_all peers (zero_storage st)) (\<lambda>st1.
       case io_select io (get_max_fd peers (-1) + 1) (read_fds st1) (write_fds st1) of
         None \<Rightarrow> Done (-3, st1, map (\<lambda>p. (p, [])) peers, w)
       | Some (r, wr) \<Rightarrow>
           let st2 = st1\<lparr>read_fds := read_fds st1 \<inter> r, write_fds := write_fds st1 \<inter> wr\<rparr> in
           rbind (serve_peers io st2 peers w) (\<lambda>(res, w1).
             Done (int (card (read_fds st2) + card (write_fds st2)), st2, res, w1)))"

section \<open>What a step does to a peer\<close>

lemma build_storage_ok:
  assumes "pfd p < FD_SETSIZE"
  shows "build_storage p st = Done (st\<lparr>read_fds := read_fds st \<union> {d. d = pfd p \<and> 0 < d},
     write_fds := write_fds st \<union> {d. d = pfd p \<and> 0 < d \<and> qlen (messages_in p) \<noteq> 0}\<rparr>)"
proof (cases "0 < pfd p")
  case True
  then have "{d. d = pfd p \<and> 0 < d} = {pfd p}" "{d. d = pfd p \<and> 0 < d \<and> qlen (messages_in p) \<noteq> 0} = (if qlen (messages_in p) = 0 then {} else {pfd p})"
    by auto
  with True assms show ?thesis by (cases "qlen (messages_in p) = 0") (simp_all add: build_storage_def fd_set_add_def cqueue_is_empty_def)
next
  case False
  then have e: "{d. d = pfd p \<and> 0 < d} = {}" "{d. d = pfd p \<and> 0 < d \<and> qlen (messages_in p) \<noteq> 0} = {}" by auto
  show ?thesis unfolding e using False by (simp add: build_storage_def)
qed

lemma build_all_ok:
  "\<forall>p \<in> set ps. pfd p < FD_SETSIZE \<Longrightarrow> build_all ps st = Done (st\<lparr>read_fds := read_fds st \<union> {d \<in> pfd ` set ps. 0 < d},
     write_fds := write_fds st \<union> {d. 0 < d \<and> (\<exists>p \<in> set ps. d = pfd p \<and> qlen (messages_in p) \<noteq> 0)}\<rparr>)"
proof (induction ps arbitrary: st)
  case (Cons p ps)
  then have "build_all (p # ps) st = build_all ps (st\<lparr>read_fds := read_fds st \<union> {d. d = pfd p \<and> 0 < d},
     write_fds := write_fds st \<union> {d. d = pfd p \<and> 0 < d \<and> qlen (messages_in p) \<noteq> 0}\<rparr>)"
    by (simp add: build_storage_ok)
  with Cons show ?case by (auto intro!: arg_cong2 [of _ _ _ _ "\<lambda>r wr. st\<lparr>read_fds := r, write_fds := wr\<rparr>"])
qed simp

lemma build_all_range: "build_all ps st = Done st' \<Longrightarrow> \<forall>p \<in> set ps. pfd p < FD_SETSIZE"
  by (induction ps arbitrary: st) (auto simp: rbind_Done_iff build_storage_def fd_set_add_def FD_SETSIZE_def split: if_splits)

lemma serve_peers_nth:
  "serve_peers io st ps w = Done (res, w') \<Longrightarrow> length res = length ps
     \<and> (\<forall>i < length ps. \<exists>w1 w2. serve_peer io st (ps ! i) w1 = Done (fst (res ! i), snd (res ! i), w2))"
proof (induction ps arbitrary: w res)
  case (Cons p ps)
  then obtain p' sent w1 rest where 1: "serve_peer io st p w = Done (p', sent, w1)" "serve_peers io st ps w1 = Done (rest, w')"
    "res = (p', sent) # rest" by (auto simp: rbind_Done_iff)
  from Cons.IH [OF 1(2)] 1(1) show ?case unfolding 1(3) by (auto simp: nth_Cons split: nat.splits)
qed simp

lemma reduce_messages_in_pfd: "reduce_messages_in p m = Done p' \<Longrightarrow> pfd p' = pfd p"
  by (auto simp: reduce_messages_in_def add_data_to_buffer_in_def rbind_Done_iff Let_def split: if_splits)

text \<open>The two sets and the served peers of a step that returns.\<close>

lemma select_stepE:
  assumes "select_step io st ps w = Done (r, st', res, w')"
  obtains "res = map (\<lambda>p. (p, [])) ps" "w' = w"
  | st2 where "serve_peers io st2 ps w = Done (res, w')" "write_fds st2 \<subseteq> {d. 0 < d \<and> (\<exists>p \<in> set ps. d = pfd p \<and> qlen (messages_in p) \<noteq> 0)}"
    "read_fds st2 \<subseteq> {d \<in> pfd ` set ps. 0 < d}"
proof -
  obtain st1 where st1: "build_all ps (zero_storage st) = Done st1" using assms by (auto simp: select_step_def rbind_Done_iff)
  have w1: "write_fds st1 = {d. 0 < d \<and> (\<exists>p \<in> set ps. d = pfd p \<and> qlen (messages_in p) \<noteq> 0)}" "read_fds st1 = {d \<in> pfd ` set ps. 0 < d}"
    using st1 build_all_ok [OF build_all_range [OF st1], of "zero_storage st"] by (auto simp: zero_storage_def)
  show thesis
  proof (cases "io_select io (get_max_fd ps (-1) + 1) (read_fds st1) (write_fds st1)")
    case None
    with assms st1 that(1) show thesis by (simp add: select_step_def)
  next
    case (Some rs)
    obtain a b where rs: "rs = (a, b)" by force
    define st2 where "st2 = st1\<lparr>read_fds := read_fds st1 \<inter> a, write_fds := write_fds st1 \<inter> b\<rparr>"
    have "serve_peers io st2 ps w = Done (res, w')"
      using assms st1 Some rs by (auto simp: select_step_def rbind_Done_iff Let_def st2_def)
    then show thesis by (rule that(2)) (auto simp: st2_def w1)
  qed
qed

lemma peer_receive_frame:
  "peer_receive rx p w = Done (e, p', w') \<Longrightarrow> buffer_in p' = buffer_in p \<and> buffer_in_size p' = buffer_in_size p
     \<and> messages_in p' = messages_in p \<and> message_in_begin p' = message_in_begin p \<and> (pfd p' = pfd p \<or> pfd p' = -1)"
  by (auto simp: peer_receive_def Let_def split: if_splits option.splits)

fun select_steps :: "cio list \<Rightarrow> select_fd_storage_t \<Rightarrow> peer_t list \<Rightarrow> cworld \<Rightarrow> (peer_t list \<times> string list list \<times> cworld) run" where
  "select_steps [] st ps w = Done (ps, [], w)"
| "select_steps (io # ios) st ps w =
     rbind (select_step io st ps w) (\<lambda>(_, st1, res, w1).
     rbind (select_steps ios st1 (map fst res) w1) (\<lambda>(ps', outs, w2). Done (ps', map snd res # outs, w2)))"

text \<open>The queue of peer \<open>i\<close> is empty and no peer with something to send shares its descriptor.\<close>

definition idle_at :: "nat \<Rightarrow> peer_t list \<Rightarrow> bool" where
  "idle_at i ps \<longleftrightarrow> i < length ps \<and> qlen (messages_in (ps ! i)) = 0
     \<and> (\<forall>j < length ps. pfd (ps ! j) = pfd (ps ! i) \<and> 0 < pfd (ps ! i) \<longrightarrow> qlen (messages_in (ps ! j)) = 0)"

lemma fill_buffer_in_empty: "qlen (messages_in p) = 0 \<Longrightarrow> fill_buffer_in p = Done p"
  by (subst fill_buffer_in.simps) (simp add: cqueue_peek_def)

lemma fill_buffer_in_pfd: "fill_buffer_in p = Done p' \<Longrightarrow> pfd p' = pfd p"
proof (induction p rule: fill_buffer_in.induct)
  case (1 p)
  show ?case
  proof (cases "buffer_in_size p = MAX_BUFFER_SIZE")
    case True
    with 1(2) show ?thesis by (simp add: fill_buffer_in.simps)
  next
    case False
    with 1(2) obtain m where m: "cqueue_peek (messages_in p) = Done m"
      "(case m of None \<Rightarrow> Done p | Some msg \<Rightarrow> rbind (reduce_messages_in p msg) fill_buffer_in) = Done p'"
      by (subst (asm) fill_buffer_in.simps) (auto simp: rbind_Done_iff)
    show ?thesis
    proof (cases m)
      case (Some msg)
      then obtain p1 where p1: "reduce_messages_in p msg = Done p1" "fill_buffer_in p1 = Done p'" using m(2) by (auto simp: rbind_Done_iff)
      from 1(1) [OF False m(1) Some p1] reduce_messages_in_pfd [OF p1(1)] show ?thesis by simp
    qed (use m(2) in simp)
  qed
qed

lemma serve_peer_frame:
  assumes "serve_peer io st p w = Done (p', out, w')"
  shows "pfd p' = pfd p \<or> pfd p' = -1"
    and "qlen (messages_in p) = 0 \<Longrightarrow> qlen (messages_in p') = 0"
    and "pfd p \<notin> write_fds st \<Longrightarrow> out = [] \<and> buffer_in p' = buffer_in p \<and> buffer_in_size p' = buffer_in_size p"
proof -
  obtain rd where rd: "rbind (if rd then rbind (peer_receive (io_recv io (pfd p)) p w) (\<lambda>(_, p1, w1). Done (p1, w1)) else Done (p, w)) (\<lambda>(p1, w1).
     rbind (fd_isset (pfd p1) (write_fds st)) (\<lambda>wr.
       if wr then rbind (peer_send (io_send io (pfd p1)) p1) (\<lambda>(_, p2, sent). Done (p2, sent, w1))
       else Done (p1, [], w1))) = Done (p', out, w')"
    using assms unfolding serve_peer_def by (cases "fd_isset (pfd p) (read_fds st)") auto
  then obtain p1 w1 where in1: "(if rd then rbind (peer_receive (io_recv io (pfd p)) p w) (\<lambda>(_, p1, w1). Done (p1, w1)) else Done (p, w)) = Done (p1, w1)"
    and in2: "rbind (fd_isset (pfd p1) (write_fds st)) (\<lambda>wr.
       if wr then rbind (peer_send (io_send io (pfd p1)) p1) (\<lambda>(_, p2, sent). Done (p2, sent, w1)) else Done (p1, [], w1)) = Done (p', out, w')"
    unfolding rbind_Done_iff [of "if rd then _ else _"] by auto
  from in2 obtain wr where wr: "fd_isset (pfd p1) (write_fds st) = Done wr"
    "(if wr then rbind (peer_send (io_send io (pfd p1)) p1) (\<lambda>(_, p2, sent). Done (p2, sent, w1)) else Done (p1, [], w1)) = Done (p', out, w')"
    by (cases "fd_isset (pfd p1) (write_fds st)") auto
  have in1': "p1 = p \<or> (\<exists>rx e. peer_receive rx p w = Done (e, p1, w1))"
    using in1 by (cases rd) (auto simp: rbind_Done_iff)
  note p1 = in1' wr
  have f: "buffer_in p1 = buffer_in p" "buffer_in_size p1 = buffer_in_size p" "messages_in p1 = messages_in p" "pfd p1 = pfd p \<or> pfd p1 = -1"
    using p1(1) peer_receive_frame by blast+
  have r: "0 \<le> pfd p1" "wr \<longleftrightarrow> pfd p1 \<in> write_fds st" using p1(2) by (auto simp: fd_isset_def split: if_splits)
  then have pf: "pfd p1 = pfd p" using f(4) by auto
  show "pfd p' = pfd p \<or> pfd p' = -1"
  proof (cases wr)
    case True
    then obtain e where "peer_send (io_send io (pfd p1)) p1 = Done (e, p', out)" using p1(3) by (auto simp: rbind_Done_iff)
    then obtain q where "fill_buffer_in p1 = Done q" "pfd p' = pfd q \<or> pfd p' = -1"
      by (auto simp: peer_send_def rbind_Done_iff Let_def split: if_splits option.splits prod.splits)
    then show ?thesis using pf fill_buffer_in_pfd by auto
  qed (use p1(3) pf in simp)
  show "qlen (messages_in p') = 0" if "qlen (messages_in p) = 0"
    using that f(3) p1(3) fill_buffer_in_empty [of p1]
    by (cases wr) (auto simp: rbind_Done_iff peer_send_def Let_def split: if_splits option.splits prod.splits)
  show "out = [] \<and> buffer_in p' = buffer_in p \<and> buffer_in_size p' = buffer_in_size p" if "pfd p \<notin> write_fds st"
    using that r pf p1(3) f by auto
qed

lemma select_step_idle:
  assumes "select_step io st ps w = Done (r, st', res, w')" "idle_at i ps"
  shows "idle_at i (map fst res) \<and> length res = length ps \<and> snd (res ! i) = []
    \<and> buffer_in (fst (res ! i)) = buffer_in (ps ! i) \<and> buffer_in_size (fst (res ! i)) = buffer_in_size (ps ! i)"
  using assms(1)
proof (cases rule: select_stepE)
  case 1
  with assms(2) show ?thesis by (simp add: idle_at_def comp_def)
next
  case (2 st2)
  note n = serve_peers_nth [OF 2(1)]
  have i: "i < length ps" "pfd (ps ! i) \<notin> write_fds st2"
    using assms(2) 2(2) by (fastforce simp: idle_at_def in_set_conv_nth)+
  have p: "pfd (fst (res ! j)) = pfd (ps ! j) \<or> pfd (fst (res ! j)) = -1"
    "qlen (messages_in (ps ! j)) = 0 \<Longrightarrow> qlen (messages_in (fst (res ! j))) = 0" if "j < length ps" for j
    using n that serve_peer_frame(1,2) by blast+
  have "idle_at i (map fst res)"
    unfolding idle_at_def
  proof (intro conjI allI impI)
    show "i < length (map fst res)" "qlen (messages_in (map fst res ! i)) = 0"
      using i(1) n p(2) [OF i(1)] assms(2) by (simp_all add: idle_at_def)
    fix j assume j: "j < length (map fst res)" "pfd (map fst res ! j) = pfd (map fst res ! i) \<and> 0 < pfd (map fst res ! i)"
    then have "pfd (ps ! j) = pfd (ps ! i) \<and> 0 < pfd (ps ! i)" using p(1) [of i] p(1) [of j] i(1) n by auto
    with j(1) n assms(2) p(2) [of j] show "qlen (messages_in (map fst res ! j)) = 0" by (simp add: idle_at_def)
  qed
  moreover obtain w1 w2 where "serve_peer io st2 (ps ! i) w1 = Done (fst (res ! i), snd (res ! i), w2)" using n i(1) by blast
  ultimately show ?thesis using serve_peer_frame(3) i(2) n by blast
qed

text \<open>
  C35: bytes that did not leave with the call that took the last string out of the queue are
  stuck: writing is only asked for while the queue is not empty. However often the process
  waits, and whatever the other side does, a peer with an empty queue sends nothing and
  keeps what is left in its buffer.
\<close>

theorem unsent_bytes_stuck:
  assumes "select_steps ios st ps w = Done (ps', outs, w')" and "i < length ps" and "distinct (map pfd ps)"
    and "qlen (messages_in (ps ! i)) = 0"
  shows "(\<forall>out \<in> set outs. out ! i = []) \<and> buffer_in (ps' ! i) = buffer_in (ps ! i)
    \<and> buffer_in_size (ps' ! i) = buffer_in_size (ps ! i)"
proof -
  have "j = i" if "j < length ps" "pfd (ps ! j) = pfd (ps ! i)" for j
    using assms(2,3) that by (metis distinct_conv_nth length_map nth_map)
  then have "idle_at i ps" using assms(2,4) by (auto simp: idle_at_def)
  then show ?thesis using assms(1)
  proof (induction ios arbitrary: st ps w outs)
    case (Cons io ios)
    then obtain r st1 res w1 outs1 where s: "select_step io st ps w = Done (r, st1, res, w1)"
      "select_steps ios st1 (map fst res) w1 = Done (ps', outs1, w')" "outs = map snd res # outs1" by (auto simp: rbind_Done_iff)
    note f = select_step_idle [OF s(1) Cons.prems(1)]
    have "i < length res" using f by (simp add: idle_at_def)
    with Cons.IH [OF conjunct1 [OF f] s(2)] f s(3) show ?case by simp
  qed simp
qed

text \<open>
  Waiting with a peer that has no descriptor, as between two attempts to connect, never gets
  past the test whether it is ready.
\<close>

theorem closed_descriptor_tested:
  assumes "p \<in> set ps" and "pfd p < 0" and "\<And>n r wr. io_select io n r wr \<noteq> None"
  shows "select_step io st ps w \<noteq> Done res"
proof
  assume d: "select_step io st ps w = Done res"
  obtain r st' out w' where res: "res = (r, st', out, w')" by (metis prod_cases4)
  obtain st1 where st1: "build_all ps (zero_storage st) = Done st1" using d by (auto simp: select_step_def rbind_Done_iff)
  obtain a b where ab: "io_select io (get_max_fd ps (-1) + 1) (read_fds st1) (write_fds st1) = Some (a, b)" using assms(3) by fast
  obtain st2 where st2: "serve_peers io st2 ps w = Done (out, w')"
    using d st1 ab res by (auto simp: select_step_def rbind_Done_iff Let_def)
  obtain i where "i < length ps" "ps ! i = p" using assms(1) by (metis in_set_conv_nth)
  with serve_peers_nth [OF st2] assms(2) show False by (auto simp: serve_peer_def fd_isset_def)
qed

definition select_example :: cio where
  "select_example = \<lparr>io_select = (\<lambda>n r wr. Some (r, wr)), io_recv = (\<lambda>d. Some []), io_send = (\<lambda>d. Some 3)\<rparr>"

definition peer_of :: "int \<Rightarrow> nat \<Rightarrow> string \<Rightarrow> peer_t" where
  "peer_of d n s = \<lparr>pfd = d, ptype = FDT_SOCKET, messages_in = \<lparr>qitems = [], qlen = 0, qmax = 10000\<rparr>, message_in_begin = 0,
     buffer_in = s, buffer_in_size = n, messages_out = \<lparr>qitems = [], qlen = 0, qmax = 10000\<rparr>, buffer_out = replicate 1024 NUL, buffer_out_size = 0\<rparr>"

theorem unsent_bytes_stuck_witness:
  "\<exists>ps' outs. select_steps [select_example, select_example] \<lparr>read_fds = {}, write_fds = {}\<rparr> [peer_of 5 2 ''ab''] plenty_cworld = Done (ps', outs, plenty_cworld)
     \<and> buffer_in_size (ps' ! 0) = 2 \<and> (\<forall>out \<in> set outs. out ! 0 = [])"
proof -
  have "\<exists>ps' outs. select_steps [select_example, select_example] \<lparr>read_fds = {}, write_fds = {}\<rparr> [peer_of 5 2 ''ab''] plenty_cworld = Done (ps', outs, plenty_cworld)"
    by (simp add: select_example_def peer_of_def select_step_def zero_storage_def build_storage_def fd_set_add_def FD_SETSIZE_def cqueue_is_empty_def
        serve_peer_def fd_isset_def peer_receive_def MAX_BUFFER_SIZE_def FDT_SOCKET_def FDT_PIPE_def)
  then obtain ps' outs where s: "select_steps [select_example, select_example] \<lparr>read_fds = {}, write_fds = {}\<rparr> [peer_of 5 2 ''ab''] plenty_cworld = Done (ps', outs, plenty_cworld)"
    by blast
  from unsent_bytes_stuck [OF s, of 0] s show ?thesis by (auto simp: peer_of_def)
qed

theorem closed_descriptor_tested_witness:
  "select_step select_example \<lparr>read_fds = {}, write_fds = {}\<rparr> [peer_of (-1) 0 []] plenty_cworld \<noteq> Done (0, \<lparr>read_fds = {}, write_fds = {}\<rparr>, [], plenty_cworld)"
  by (rule closed_descriptor_tested [where p = "peer_of (-1) 0 []"]) (simp_all add: select_example_def peer_of_def)

end
