(* ===== verification/Client_Worker.thy ===== *)
theory Client_Worker
  imports Client_Tree Client_Connection Client_Fileparser Client_Select
begin

text \<open>
  A worker process of the client, \<^verbatim>\<open>client/src/worker.c\<close>: a search tree with one connection
  per mail host, a pipe on which the master announces mail files, and the loop that waits
  for descriptors, moves every connection one step and takes in new mails.

  The arrays \<^verbatim>\<open>conns\<close> and \<^verbatim>\<open>peers\<close> hold pointers into the nodes of the tree; here such a
  pointer is the key of the node at the time the array was filled, and the keys whose value
  was freed since then are carried along.
\<close>

section \<open>The environment of a round\<close>

text \<open>
  \<open>wraw\<close> is what new blocks hold, \<open>wbeyond\<close> what lies behind a short array on the stack, \<open>wdns\<close>
  the resolver, \<open>wnet\<close> the outcome of a connection attempt to a host.
\<close>

record worker_env =
  wio :: cio
  wraw :: "(string \<times> string) \<times> te_client_fsm_event"
  wbeyond :: string
  wdns :: resolver
  wnet :: "string \<Rightarrow> netres"

record worker_state =
  host_vs_conn_map :: "smtp_conn tree_t"
  wk_storage :: select_fd_storage_t
  wk_parent :: peer_t
  wk_logger :: peer_t

text \<open>The copy constructor of the tree.\<close>

definition conn_copy :: "string \<times> string \<Rightarrow> smtp_conn copy_ptr" where
  "conn_copy raw v w = (case v of None \<Rightarrow> Done (None, w) | Some c \<Rightarrow> SMTP_connection_copy raw c w)"

text \<open>Changing the value of a node through a pointer to it.\<close>

fun node_update :: "string \<Rightarrow> 'v \<Rightarrow> 'v tnode \<Rightarrow> 'v tnode" where
  "node_update key v Tip = Tip"
| "node_update key v (Node l k x r) =
     (if strcmp key k = 0 then Node l k (Some v) r
      else if strcmp key k < 0 then Node (node_update key v l) k x r else Node l k x (node_update key v r))"

definition tree_update :: "string \<Rightarrow> 'v \<Rightarrow> 'v tree_t \<Rightarrow> 'v tree_t" where
  "tree_update key v t = t\<lparr>troot := node_update key v (troot t)\<rparr>"

section \<open>The arrays of a round\<close>

definition get_SMTP_connections :: "smtp_conn tree_t \<Rightarrow> cworld \<Rightarrow> (string list option \<times> cworld) run" where
  "get_SMTP_connections t w =
     rbind (tree_nodes_to_array t w) (\<lambda>(nodes, w1).
       case nodes of None \<Rightarrow> Done (None, w1)
       | Some ns \<Rightarrow> let (ok, w2) = cmalloc w1 in
           if \<not> ok then Done (None, send_log ''get_SMTP_connections'' w2) else Done (Some (map fst ns), w2))"

fun conn_peers :: "smtp_conn tree_t \<Rightarrow> string list \<Rightarrow> peer_t list run" where
  "conn_peers t [] = Done []"
| "conn_peers t (k # ks) =
     (case tree_search t k of
        Some (Some c) \<Rightarrow> rbind (conn_peers t ks) (\<lambda>ps. Done (conn_peer c # ps))
      | _ \<Rightarrow> Fault Null_Deref)"

definition get_peers :: "smtp_conn tree_t \<Rightarrow> string list option \<Rightarrow> cworld \<Rightarrow> (peer_t list option \<times> cworld) run" where
  "get_peers t conns w =
     (let (ok, w1) = cmalloc w in
      if \<not> ok then Done (None, send_log ''get_peers'' w1)
      else case conns of None \<Rightarrow> if tsize t > 0 then Fault Null_Deref else Done (Some [], w1)
      | Some ks \<Rightarrow> rbind (conn_peers t ks) (\<lambda>ps. Done (Some ps, w1)))"

fun store_peers :: "string list \<Rightarrow> peer_t list \<Rightarrow> smtp_conn tree_t \<Rightarrow> smtp_conn tree_t" where
  "store_peers (k # ks) (p # ps) t =
     store_peers ks ps (case tree_search t k of Some (Some c) \<Rightarrow> tree_update k (c\<lparr>conn_peer := p\<rparr>) t | _ \<Rightarrow> t)"
| "store_peers _ _ t = t"

section \<open>New mails\<close>

text \<open>
  The connection for a file, by its key. A missing address is handed to \<^verbatim>\<open>printf\<close>; a failed
  insertion is noticed when the result of the search is dereferenced.
\<close>

definition get_conn_for_sending :: "worker_config_t \<Rightarrow> worker_env \<Rightarrow> smtp_conn tree_t \<Rightarrow> string_t \<Rightarrow> cworld
    \<Rightarrow> (string option \<times> smtp_conn tree_t \<times> cworld) run" where
  "get_conn_for_sending cfg env t fn w =
     rbind (get_addr fn w) (\<lambda>(a, w1).
       case a of None \<Rightarrow> Fault Null_Deref
       | Some (addr, ty) \<Rightarrow> (case tree_search t addr of
           Some v \<Rightarrow> Done (if v = None then None else Some addr, t, w1)
         | None \<Rightarrow> rbind (SMTP_connection_init (wraw env) cfg (wdns env) (wnet env addr) addr ty w1) (\<lambda>(c, w2).
             case c of None \<Rightarrow> Done (None, t, w2)
             | Some c0 \<Rightarrow> rbind (tree_insert (conn_copy (fst (wraw env))) t addr (Some c0) w2) (\<lambda>(_, t1, w3).
                 case tree_search t1 addr of None \<Rightarrow> Fault Null_Deref
                 | Some v \<Rightarrow> Done (if v = None then None else Some addr, t1, w3)))))"

definition cremove_file :: "mail_files \<Rightarrow> string \<Rightarrow> string_t \<Rightarrow> cworld \<Rightarrow> (mail_files \<times> cworld) run" where
  "cremove_file fs queue_dir fn w =
     rbind (full_filename queue_dir fn w) (\<lambda>(path, w1). Done (fs(c_str (str_data path) := None), w1))"

text \<open>A parsed mail is copied into the queue of the connection.\<close>

definition push_mail :: "string \<Rightarrow> smtp_message_t \<Rightarrow> smtp_conn tree_t \<Rightarrow> cworld \<Rightarrow> (smtp_conn tree_t \<times> cworld) run" where
  "push_mail key m t w =
     (case tree_search t key of
        Some (Some c) \<Rightarrow> rbind (cqueue_push_back SMTP_message_copy (conn_messages c) m w) (\<lambda>(_, q, w1).
          Done (tree_update key (c\<lparr>conn_messages := q\<rparr>) t, w1))
      | _ \<Rightarrow> Fault Null_Deref)"

text \<open>One turn of the loop over the announced files. The fixed part of the log record has 53 bytes.\<close>

definition process_file :: "worker_config_t \<Rightarrow> worker_env \<Rightarrow> smtp_conn tree_t \<Rightarrow> mail_files \<Rightarrow> string_t \<Rightarrow> cworld
    \<Rightarrow> (smtp_conn tree_t \<times> mail_files \<times> cworld) run" where
  "process_file cfg env t fs fn w =
     rbind (log_printf ''process_parent_messages'' (53 + strlen (str_data fn)) w) (\<lambda>w1.
     rbind (get_conn_for_sending cfg env t fn w1) (\<lambda>(conn, t1, w2).
     rbind (case conn of None \<Rightarrow> Done (t1, w2)
            | Some key \<Rightarrow> rbind (parse_message cfg fs (cfg_queue_dir cfg) fn w2) (\<lambda>(m, w3).
                case m of None \<Rightarrow> Done (t1, w3) | Some msg \<Rightarrow> push_mail key msg t1 w3)) (\<lambda>(t2, w4).
     rbind (cremove_file fs (cfg_queue_dir cfg) fn w4) (\<lambda>(fs1, w5). Done (t2, fs1, w5)))))"

function process_parent_messages :: "worker_config_t \<Rightarrow> worker_env \<Rightarrow> smtp_conn tree_t \<Rightarrow> mail_files \<Rightarrow> string_t cqueue \<Rightarrow> cworld
    \<Rightarrow> (smtp_conn tree_t \<times> mail_files \<times> string_t cqueue \<times> cworld) run" where
  "process_parent_messages cfg env t fs filenames w =
     rbind (cqueue_peek filenames) (\<lambda>current.
       case current of None \<Rightarrow> Done (t, fs, filenames, w)
       | Some fn \<Rightarrow> rbind (process_file cfg env t fs fn w) (\<lambda>(t1, fs1, w1).
           rbind (cqueue_pop_front filenames) (\<lambda>(_, q). process_parent_messages cfg env t1 fs1 q w1)))"
  by pat_completeness auto
termination
  by (relation "measure (\<lambda>(cfg, env, t, fs, q, w). qlen q)")
    (auto simp: cqueue_peek_def cqueue_pop_front_def split: if_splits list.splits)

declare process_parent_messages.simps [simp del]

section \<open>The loop over the connections\<close>

fun clear_values :: "smtp_conn tree_t \<Rightarrow> string list \<Rightarrow> unit run" where
  "clear_values t [] = Done ()"
| "clear_values t (k # ks) =
     (case tree_search t k of
        Some (Some c) \<Rightarrow> rbind (SMTP_connection_clear c) (\<lambda>_. clear_values t ks)
      | _ \<Rightarrow> clear_values t ks)"

text \<open>
  Closing a connection. When the copy of the successor cannot be allocated the node is left
  with a null value, which \<^verbatim>\<open>get_peers\<close> dereferences in the next round; this is where the
  model stops. The fixed part of the log record has 40 bytes.
\<close>

definition close_connection :: "string \<times> string \<Rightarrow> smtp_conn \<Rightarrow> smtp_conn tree_t \<Rightarrow> cworld
    \<Rightarrow> (string list \<times> smtp_conn tree_t \<times> cworld) run" where
  "close_connection raw c t w =
     (case conn_ip c of None \<Rightarrow> Fault Null_Deref
      | Some ip \<Rightarrow> rbind (log_printf ''closed'' (40 + length (conn_addr c) + strlen (str_data ip)) w) (\<lambda>w1.
          let gone = freed_values (troot t) (conn_addr c) in
          rbind (clear_values t gone) (\<lambda>_.
          rbind (tree_delete (conn_copy raw) t (conn_addr c) w1) (\<lambda>(e, t1, w2).
            if e \<noteq> SUCCESS then Fault Null_Deref else Done (gone, t1, w2)))))"

text \<open>The turn of one connection: a pointer to a freed value is used.\<close>

fun conns_loop :: "worker_env \<Rightarrow> string list \<Rightarrow> string list \<Rightarrow> smtp_conn tree_t \<Rightarrow> cworld \<Rightarrow> (smtp_conn tree_t \<times> cworld) run" where
  "conns_loop env [] freed t w = Done (t, w)"
| "conns_loop env (k # ks) freed t w =
     (if k \<in> set freed then Fault Dangling
      else case tree_search t k of
        Some (Some c) \<Rightarrow> rbind (conn_round (wnet env k) (wbeyond env) c w) (\<lambda>(c1, w1).
          let t1 = tree_update k c1 t in
          if conn_state c1 = CLIENT_FSM_ST_CLOSED_CONNECTION
          then rbind (close_connection (fst (wraw env)) c1 t1 w1) (\<lambda>(gone, t2, w2). conns_loop env ks (gone @ freed) t2 w2)
          else conns_loop env ks freed t1 w1)
      | _ \<Rightarrow> Fault Null_Deref)"

section \<open>A round and the start of a worker\<close>

text \<open>The result has the new state, the files that are left, the bytes sent on each peer and the environment.\<close>

definition worker_round :: "worker_config_t \<Rightarrow> worker_env \<Rightarrow> worker_state \<Rightarrow> mail_files \<Rightarrow> cworld
    \<Rightarrow> (worker_state \<times> mail_files \<times> string list \<times> cworld) run" where
  "worker_round cfg env ws fs w =
     rbind (get_SMTP_connections (host_vs_conn_map ws) w) (\<lambda>(conns, w1).
     rbind (get_peers (host_vs_conn_map ws) conns w1) (\<lambda>(peers, w2).
       case peers of None \<Rightarrow> Done (ws, fs, [], w2)
       | Some ps \<Rightarrow> let keys = (case conns of None \<Rightarrow> [] | Some ks \<Rightarrow> ks) in
         rbind (select_step (wio env) (wk_storage ws) (ps @ [wk_parent ws, wk_logger ws]) w2) (\<lambda>(_, st, res, w3).
         let n = length keys; served = map fst res in
         rbind (conns_loop env keys [] (store_peers keys (take n served) (host_vs_conn_map ws)) w3) (\<lambda>(t1, w4).
         rbind (fill_messages_out (served ! n) '' '' w4) (\<lambda>(_, parent, w5).
         rbind (process_parent_messages cfg env t1 fs (messages_out parent) w5) (\<lambda>(t2, fs1, q, w6).
           Done (ws\<lparr>host_vs_conn_map := t2, wk_storage := st, wk_parent := parent\<lparr>messages_out := q\<rparr>, wk_logger := served ! (n + 1)\<rparr>,
             fs1, map snd res, w6)))))))"

text \<open>What \<^verbatim>\<open>worker_main\<close> does before its loop; \<open>raw1\<close> and \<open>raw2\<close> are the contents of the new buffers.\<close>

definition worker_init :: "worker_config_t \<Rightarrow> string \<times> string \<Rightarrow> string \<times> string \<Rightarrow> cworld \<Rightarrow> cerror \<times> worker_state option \<times> cworld" where
  "worker_init cfg raw1 raw2 w =
     (case tree_init w of (None, w1) \<Rightarrow> (MEMORY_ERROR, None, w1)
      | (Some t, w1) \<Rightarrow> (case storage_init w1 of (None, w2) \<Rightarrow> (MEMORY_ERROR, None, w2)
        | (Some st, w2) \<Rightarrow> (case peer_init raw1 (cfg_parent_pipe_fd cfg) FDT_PIPE w2 of (None, w3) \<Rightarrow> (MEMORY_ERROR, None, w3)
          | (Some parent, w3) \<Rightarrow> (case peer_init raw2 (cfg_logger_fd cfg) FDT_PIPE w3 of (None, w4) \<Rightarrow> (MEMORY_ERROR, None, w4)
            | (Some logger, w4) \<Rightarrow> (SUCCESS, Some \<lparr>host_vs_conn_map = t, wk_storage = st, wk_parent = parent, wk_logger = logger\<rparr>, w4)))))"

text \<open>The loop, over the environments of its rounds.\<close>

fun worker_main :: "worker_config_t \<Rightarrow> worker_env list \<Rightarrow> worker_state \<Rightarrow> mail_files \<Rightarrow> cworld \<Rightarrow> (worker_state \<times> mail_files \<times> cworld) run" where
  "worker_main cfg [] ws fs w = Done (ws, fs, w)"
| "worker_main cfg (env # envs) ws fs w =
     rbind (worker_round cfg env ws fs w) (\<lambda>(ws1, fs1, _, w1). worker_main cfg envs ws1 fs1 w1)"

end
