(* ===== verification/Client_Worker_Loop.thy ===== *)
theory Client_Worker_Loop
  imports Client_Worker
begin

text \<open>
  What the loop of a worker over its connections (\<open>conns_loop\<close>, from
  \<^verbatim>\<open>client/src/worker.c\<close>) keeps, and where it breaks: closing a connection whose node in the tree
  has two subtrees frees the value another pointer of the array refers to. Then: what becomes
  of a mail file the master announced.
\<close>

section \<open>A round does not change whose connection it is\<close>

text \<open>Every value a run can return satisfies a predicate.\<close>

definition post :: "('a \<Rightarrow> bool) \<Rightarrow> 'a run \<Rightarrow> bool" where
  "post P m \<longleftrightarrow> (\<forall>x. m = Done x \<longrightarrow> P x)"

lemma post_simps [simp]: "post P (Done x) \<longleftrightarrow> P x" "post P (Fault e)"
  by (simp_all add: post_def)












section \<open>Values of the tree changed in place\<close>

lemma node_update_keys [simp]: "map fst (preorder (node_update k v t)) = map fst (preorder t)" "tkeys (node_update k v t) = tkeys t"
  "tcount (node_update k v t) = tcount t"
  by (induction t) auto

lemma node_update_bst [simp]: "bst (node_update k v t) = bst t" "full_vals t \<Longrightarrow> full_vals (node_update k v t)"
  by (induction t) auto

lemma node_search_update: "node_search (node_update k v t) j = (if j = k \<and> node_search t k \<noteq> None then Some (Some v) else node_search t j)"
  by (induction t) auto

lemma tree_update_inv:
  assumes "tree_inv t"
  shows "tree_inv (tree_update k v t)"
  using assms by (simp add: tree_inv_def tree_update_def)

lemma tree_lookup_update:
  "tree_lookup t k \<noteq> None \<Longrightarrow> tree_lookup (tree_update k v t) = (tree_lookup t)(k \<mapsto> v)"
  by (rule ext) (auto simp: tree_lookup_def tree_search_def tree_update_def node_search_update split: option.splits)



section \<open>Deleting a node with at most one subtree\<close>





section \<open>The loop over the connections\<close>

text \<open>
  Every connection satisfies its own invariant, sits under its own address and has an IP
  address.
\<close>

definition conns_inv :: "smtp_conn tree_t \<Rightarrow> bool" where
  "conns_inv t \<longleftrightarrow> tree_inv t \<and> (\<forall>k c. tree_lookup t k = Some c \<longrightarrow> conn_inv c \<and> conn_addr c = k \<and> length k < KEY_SIZE
     \<and> (\<exists>ip. conn_ip c = Some ip \<and> strlen (str_data ip) < 1000))"

text \<open>A connection that closes in this run of the loop sits, at that moment, at a node with two subtrees.\<close>

fun shared_close :: "worker_env \<Rightarrow> string list \<Rightarrow> smtp_conn tree_t \<Rightarrow> cworld \<Rightarrow> bool" where
  "shared_close env [] t w \<longleftrightarrow> False"
| "shared_close env (k # ks) t w \<longleftrightarrow>
     (case tree_search t k of
        Some (Some c) \<Rightarrow> (case conn_round (wnet env k) (wbeyond env) c w of
          Done (c1, w1) \<Rightarrow> let t1 = tree_update k c1 t in
            if conn_state c1 = CLIENT_FSM_ST_CLOSED_CONNECTION
            then freed_values (troot t1) k \<noteq> [k] \<or> (case close_connection (fst (wraw env)) c1 t1 w1 of
              Done (_, t2, w2) \<Rightarrow> shared_close env ks t2 w2 | _ \<Rightarrow> False)
            else shared_close env ks t1 w1
        | _ \<Rightarrow> False)
      | _ \<Rightarrow> False)"






definition lost_conn :: "string \<Rightarrow> smtp_conn" where
  "lost_conn k = conn_example\<lparr>conn_addr := k, conn_peer := peer_example\<lparr>pfd := -1\<rparr>, current_connection_num := 3\<rparr>"

definition lost_tree :: "smtp_conn tree_t" where
  "lost_tree = \<lparr>troot = Node (Node Tip ''a.ru'' (Some (lost_conn ''a.ru'')) Tip) ''m.ru'' (Some (lost_conn ''m.ru''))
       (Node Tip ''x.ru'' (Some (lost_conn ''x.ru'')) Tip), tsize = 3, tmax_size = TREE_DEFAULT_MAX_SIZE\<rparr>"

definition env_example :: worker_env where
  "env_example = \<lparr>wio = select_example, wraw = ((replicate 1024 NUL, replicate 1024 NUL), CLIENT_FSM_EV_NONE), wbeyond = [NUL],
     wdns = (\<lambda>h ty. None), wnet = (\<lambda>h. \<lparr>net_socket = 4, net_connect = True\<rparr>)\<rparr>"

lemma lost_conn_inv: "conn_inv (lost_conn k)"
proof -
  have "peer_wf (peer_example\<lparr>pfd := -1\<rparr>)" using peer_example_wf by (simp add: peer_wf_def)
  moreover have "data_ok conn_example" "phase_ok conn_example (conn_state conn_example) (conn_last_event conn_example)"
    using conn_example_inv by (simp_all add: conn_inv_def)
  ultimately show ?thesis
    by (simp add: conn_inv_def data_ok_def lost_conn_def phase_ok_def attempted_def) (simp add: conn_example_def)
qed

lemma lost_tree_inv: "conns_inv lost_tree"
proof -
  have i: "tree_inv lost_tree" by (simp add: tree_inv_def lost_tree_def TREE_DEFAULT_MAX_SIZE_def less_char_def)
  have "k \<in> {''a.ru'', ''m.ru'', ''x.ru''} \<and> c = lost_conn k" if "tree_lookup lost_tree k = Some c" for k c
    using that by (auto simp: tree_lookup_def tree_search_def lost_tree_def split: if_splits)
  then show ?thesis
    using i lost_conn_inv by (fastforce simp: conns_inv_def lost_conn_def conn_example_def KEY_SIZE_def strlen_def c_str_def)
qed

lemma lost_tree_shared: "shared_close env_example (map fst (preorder (troot lost_tree))) lost_tree plenty_cworld"
proof -
  have "generate_event n b (lost_conn k) w = Done (CLIENT_FSM_EV_CLOSE_CONNECTION, lost_conn k, w)" for n b k w
    by (simp add: generate_event_def lost_conn_def conn_example_def has_more_connection_attempts_def)
  moreover have "fill_messages_out (conn_peer (lost_conn k)) m w = Done (SUCCESS, conn_peer (lost_conn k), w)" for k m w
    by (simp add: fill_messages_out_def lost_conn_def peer_example_def)
  moreover have "client_fsm_step (conn_state (lost_conn k)) CLIENT_FSM_EV_CLOSE_CONNECTION = Done CLIENT_FSM_ST_CLOSED_CONNECTION" for k
    by (simp add: lost_conn_def conn_example_def client_fsm_step_outcome used_state_def fsm_outcome_def fsm_def_next_def)
  moreover have "(lost_conn k)\<lparr>conn_peer := conn_peer (lost_conn k)\<rparr> = lost_conn k" for k by (simp add: lost_conn_def)
  moreover have "conn_state (lost_conn k) = CLIENT_FSM_ST_INIT" for k by (simp add: lost_conn_def conn_example_def)
  ultimately have r: "conn_round n b (lost_conn k) w = Done ((lost_conn k)\<lparr>conn_state := CLIENT_FSM_ST_CLOSED_CONNECTION\<rparr>, w)" for n b k w
    by (simp add: conn_round_def)
  have s: "tree_search lost_tree ''m.ru'' = Some (Some (lost_conn ''m.ru''))" "map fst (preorder (troot lost_tree)) = [''m.ru'', ''a.ru'', ''x.ru'']"
    by (simp_all add: tree_search_def lost_tree_def)
  have "freed_values (troot (tree_update ''m.ru'' v lost_tree)) ''m.ru'' = [''m.ru'', ''x.ru'']" for v
    by (simp add: tree_update_def lost_tree_def)
  then show ?thesis unfolding s by (simp add: s r)
qed


section \<open>Announced mails\<close>

lemma file_name_c_str: "NUL \<notin> set f \<Longrightarrow> strlen (str_data (mk_str f)) = length f"
  using c_str_append [of f "[NUL]"] by (simp add: strlen_def)

lemma process_file_Fault:
  assumes "get_conn_for_sending cfg env t (mk_str f) (send_log ''process_parent_messages'' w) = Done (Some d, t1, w1)"
    and "parse_message cfg fs (cfg_queue_dir cfg) (mk_str f) w1 = Fault e"
    and "NUL \<notin> set (cfg_queue_dir cfg @ FILENAME_SEP # f)" and "length f < KEY_SIZE"
  shows "process_file cfg env t fs (mk_str f) w = Fault e"
proof -
  have "log_printf ''process_parent_messages'' (53 + strlen (str_data (mk_str f))) w = Done (send_log ''process_parent_messages'' w)"
    using file_name_c_str [of f] assms(3,4) by (simp add: log_printf_def MAX_G_LOG_MESSAGE_def KEY_SIZE_def)
  with assms(1,2) show ?thesis by (simp add: process_file_def)
qed

lemma process_file_parts:
  assumes "get_conn_for_sending cfg env t (mk_str f) (send_log ''process_parent_messages'' w) = Done (Some d, t1, w1)"
    and "parse_message cfg fs (cfg_queue_dir cfg) (mk_str f) w1 = Done (m, w2)" and "cmem w2 = []"
    and "case m of None \<Rightarrow> t2 = t1 \<and> w3 = w2 | Some msg \<Rightarrow> push_mail d msg t1 w2 = Done (t2, w3)" and "cmem w3 = []"
    and "NUL \<notin> set (cfg_queue_dir cfg @ FILENAME_SEP # f)" and "length f < KEY_SIZE"
  shows "process_file cfg env t fs (mk_str f) w = Done (t2, fs(cfg_queue_dir cfg @ FILENAME_SEP # f := None), w3)"
proof -
  have p: "full_filename (cfg_queue_dir cfg) (mk_str f) w3 = Done (mk_str (cfg_queue_dir cfg @ FILENAME_SEP # f), w3)"
    using full_filename_ok [OF assms(5)] .
  have c: "c_str (str_data (mk_str (cfg_queue_dir cfg @ FILENAME_SEP # f))) = cfg_queue_dir cfg @ FILENAME_SEP # f"
    using c_str_append [OF assms(6), of "[NUL]"] by simp
  have l: "log_printf ''process_parent_messages'' (53 + strlen (str_data (mk_str f))) w = Done (send_log ''process_parent_messages'' w)"
    using file_name_c_str [of f] assms(6,7) by (simp add: log_printf_def MAX_G_LOG_MESSAGE_def KEY_SIZE_def)
  have r: "cremove_file fs (cfg_queue_dir cfg) (mk_str f) w3 = Done (fs(cfg_queue_dir cfg @ FILENAME_SEP # f := None), w3)"
    using p c by (simp add: cremove_file_def)
  show ?thesis using assms(1,2,4) r l by (cases m) (simp_all add: process_file_def)
qed

lemma send_log_spare [simp]: "spare (send_log s w) a = spare w a"
  by (simp only: spare_def cmem_frame)

text \<open>The mail a connection to \<open>d\<close> gets out of a mail file.\<close>

definition mail_for :: "worker_config_t \<Rightarrow> string \<Rightarrow> int \<Rightarrow> string list \<Rightarrow> string \<Rightarrow> string list \<Rightarrow> smtp_message_t" where
  "mail_for cfg d ty rs s ls =
     \<lparr>from_addr = Some s, recipients_addr = filter (wanted d ty) rs, recipients_count = length (filter (wanted d ty) rs),
      msg_text = map (\<lambda>l. Some (mk_str (stored_line l))) ls, msg_lines = length ls, attempt_start_time = None, last_attempt_time = None,
      max_attempts_time = cfg_max_attempts_time cfg, min_interval_between_attempts = cfg_min_interval_between_attempts cfg\<rparr>"

lemma mail_for_ok:
  assumes "mail_file_ok rs s ls" "\<forall>a \<in> set (s # rs). length a < 240"
  shows "message_ok (mail_for cfg d ty rs s ls)"
proof -
  have n: "NUL \<notin> set s" "\<forall>r \<in> set rs. NUL \<notin> set r" and l: "\<forall>l \<in> set ls. NUL \<notin> set l \<and> length l + 2 < MAX_LINE_LENGTH"
    using assms(1) by (auto simp: mail_file_ok_def text_line_ok_def rcpt_ok_def)
  have "line_ok (Some (mk_str (stored_line x)))" if "x \<in> set ls" for x
    using l that by (intro line_ok_mk_str) (auto simp: stored_line_def MAX_LINE_LENGTH_def)
  moreover have "addr_ok s" "\<forall>r \<in> set rs. addr_ok r" using n assms(2) by (auto simp: addr_ok_def)
  ultimately show ?thesis by (simp add: message_ok_def mail_for_def)
qed

lemma push_mail_ok:
  assumes c: "tree_lookup t d = Some c" and m: "message_ok m" "attempt_start_time m = None" "last_attempt_time m = None"
    and room: "qlen (conn_messages c) < qmax (conn_messages c)" and w: "good_world w"
  shows "push_mail d m t w = Done (tree_update d (c\<lparr>conn_messages := (conn_messages c)\<lparr>qitems := qitems (conn_messages c) @ [m],
      qlen := qlen (conn_messages c) + 1\<rparr>\<rparr>) t, w)"
proof -
  have "m\<lparr>attempt_start_time := None, last_attempt_time := None\<rparr> = m" using m(2,3) by simp
  then have cp: "SMTP_message_copy m w = Done (Some m, w)" using SMTP_message_copy_plenty [OF _ m(1), of w] w by simp
  have ts: "tree_search t d = Some (Some c)" using c by (auto simp: tree_lookup_def split: option.splits)
  have "cqueue_push_back SMTP_message_copy (conn_messages c) m w = Done (SUCCESS, (conn_messages c)\<lparr>qitems := qitems (conn_messages c) @ [m],
      qlen := qlen (conn_messages c) + 1\<rparr>, w)" using room w cp by (simp add: cqueue_push_back_def)
  with ts show ?thesis by (simp add: push_mail_def)
qed

lemma conn_inv_more_mail:
  assumes "conn_inv c" "message_ok m" "qlen (conn_messages c) < qmax (conn_messages c)"
  shows "conn_inv (c\<lparr>conn_messages := (conn_messages c)\<lparr>qitems := qitems (conn_messages c) @ [m], qlen := qlen (conn_messages c) + 1\<rparr>\<rparr>)"
  using assms by (auto simp: conn_inv_def data_ok_def cq_wf_def phase_ok_def attempted_def)

text \<open>
  C16: a mail file the master announced, in the format of the server, for a host there is a
  connection to: its recipients on that host, sender and text are appended to the queue of
  that connection as a mail ready to be sent, no other connection changes, the invariant
  of the connections holds and the file is removed. This needs the spare byte behind the
  block of every address of the mail, where the client writes the terminator; where one of
  these blocks has none, the announcement makes the client write outside it. (Memory suffices,
  and a block of 8 bytes has 16, as it has with glibc.)
\<close>

theorem announced_mail_is_queued:
  assumes "mail_file_ok rs s ls" "\<forall>a \<in> set (s # rs). length a < 240" "good_world w" "conns_inv t" "tree_lookup t d = Some c"
    and "qlen (conn_messages c) < qmax (conn_messages c)" "2 \<le> length d" "NUL \<notin> set (cfg_queue_dir cfg @ FILENAME_SEP # f)"
    and "f = d @ SERVER_ADDR_SEP # ch # SERVER_ADDR_SEP # rest" "SERVER_ADDR_SEP \<notin> set rest" "length f < KEY_SIZE"
    and "\<exists>r \<in> set rs. wanted d (int (of_char ch) - 48) r" "fs (cfg_queue_dir cfg @ FILENAME_SEP # f) = Some (mail_file rs s ls)"
  shows "if \<forall>a \<in> set (s # rs). spare w a
    then \<exists>t' w'. process_file cfg env t fs (mk_str f) w = Done (t', fs(cfg_queue_dir cfg @ FILENAME_SEP # f := None), w') \<and> conns_inv t'
      \<and> tree_lookup t' = (tree_lookup t)(d \<mapsto> c\<lparr>conn_messages := (conn_messages c)\<lparr>qitems := qitems (conn_messages c)
          @ [mail_for cfg d (int (of_char ch) - 48) rs s ls], qlen := qlen (conn_messages c) + 1\<rparr>\<rparr>)
      \<and> message_ok (mail_for cfg d (int (of_char ch) - 48) rs s ls)
    else process_file cfg env t fs (mk_str f) w = Fault Out_Of_Bounds"
proof -
  let ?w = "send_log ''process_parent_messages'' w" and ?m = "mail_for cfg d (int (of_char ch) - 48) rs s ls"
  have nd: "NUL \<notin> set d" using assms(8,9) by auto
  have ts: "tree_search t d = Some (Some c)" using assms(5) by (auto simp: tree_lookup_def split: option.splits)
  have g: "get_conn_for_sending cfg env t (mk_str f) ?w = Done (Some d, t, ?w)"
    using get_addr_ok [OF assms(7) nd assms(10), of ?w ch] assms(3,9) ts by (simp add: get_conn_for_sending_def)
  have cw: "cmem ?w = []" using assms(3) by simp
  have p: "parse_message cfg fs (cfg_queue_dir cfg) (mk_str f) ?w
      = (if \<forall>a \<in> set (s # rs). spare w a then Done (Some ?m, ?w) else Fault Out_Of_Bounds)"
    using parse_message_ok [where w="?w" and cfg=cfg and fn=f and d=d and c=ch and rest=rest and rs=rs and s=s and ls=ls
        and dir="cfg_queue_dir cfg" and files=fs, OF assms(1) cw assms(7) nd assms(10,12,9,8,13)]
    by (simp only: mail_for_def send_log_spare)
  show ?thesis
  proof (cases "\<forall>a \<in> set (s # rs). spare w a")
    case False
    with p have "parse_message cfg fs (cfg_queue_dir cfg) (mk_str f) ?w = Fault Out_Of_Bounds" by auto
    then have "process_file cfg env t fs (mk_str f) w = Fault Out_Of_Bounds"
      by (rule process_file_Fault [OF g _ assms(8,11)])
    with False show ?thesis by auto
  next
    case True
    note p = p [unfolded if_P [OF True]]
    have mok: "message_ok ?m" by (rule mail_for_ok [OF assms(1,2)])
    let ?c = "c\<lparr>conn_messages := (conn_messages c)\<lparr>qitems := qitems (conn_messages c) @ [?m], qlen := qlen (conn_messages c) + 1\<rparr>\<rparr>"
    have u: "push_mail d ?m t ?w = Done (tree_update d ?c t, ?w)"
      by (rule push_mail_ok [OF assms(5) mok _ _ assms(6)]) (use assms(3) in \<open>simp_all add: mail_for_def\<close>)
    have l: "tree_lookup (tree_update d ?c t) = (tree_lookup t)(d \<mapsto> ?c)" using assms(5) by (simp add: tree_lookup_update)
    have "conn_inv ?c" using assms(4,5) by (intro conn_inv_more_mail [OF _ mok assms(6)]) (auto simp: conns_inv_def)
    then have "conns_inv (tree_update d ?c t)"
      using assms(4,5) l tree_update_inv [of t d ?c] by (auto simp: conns_inv_def)
    with process_file_parts [OF g p _ _ _ assms(8,11)] u l mok assms(3) show ?thesis unfolding if_P [OF True] by auto
  qed
qed

text \<open>
  A mail file none of whose recipients the client takes for the host of its name, as for
  every host whose name begins with the client's own domain, is removed without having been
  queued: no connection changes and the file is gone.
\<close>

theorem refused_mail_is_removed:
  assumes "mail_file_ok rs s ls" "cmem w = [] \<and> (\<forall>r \<in> set rs. spare w r)" "tree_lookup t d = Some c" "2 \<le> length d" "NUL \<notin> set (cfg_queue_dir cfg @ FILENAME_SEP # f)"
    and "f = d @ SERVER_ADDR_SEP # ch # SERVER_ADDR_SEP # rest" "SERVER_ADDR_SEP \<notin> set rest" "length f < KEY_SIZE"
    and "prefix DOMAIN_NAME d" "\<forall>r \<in> set rs. prefix d (host_part r)" "fs (cfg_queue_dir cfg @ FILENAME_SEP # f) = Some (mail_file rs s ls)"
  shows "\<exists>w'. process_file cfg env t fs (mk_str f) w = Done (t, fs(cfg_queue_dir cfg @ FILENAME_SEP # f := None), w')"
proof -
  let ?w = "send_log ''process_parent_messages'' w"
  have nd: "NUL \<notin> set d" using assms(5,6) by auto
  have ts: "tree_search t d = Some (Some c)" using assms(3) by (auto simp: tree_lookup_def split: option.splits)
  have g: "get_conn_for_sending cfg env t (mk_str f) ?w = Done (Some d, t, ?w)"
    using get_addr_ok [OF assms(4) nd assms(7), of ?w ch] assms(2,6) ts by (simp add: get_conn_for_sending_def)
  have no: "\<forall>r \<in> set rs. \<not> wanted d (int (of_char ch) - 48) r"
    using assms(9,10) own_domain_unwanted by (metis prefix_order.trans)
  have rw: "cmem ?w = []" "\<forall>r \<in> set rs. spare ?w r" and ld: "length d \<le> 900" using assms(2,6,8) by (simp_all add: KEY_SIZE_def)
  have p: "parse_message cfg fs (cfg_queue_dir cfg) (mk_str f) ?w = Done (None, send_log ''parse_message'' ?w)"
    by (rule parse_message_unwanted [where fn=f and d=d and c=ch and rest=rest and rs=rs and s=s and ls=ls
        and dir="cfg_queue_dir cfg" and files=fs, OF assms(1) rw(1,2) assms(4) nd ld assms(7) no assms(6,5,11)])
  from process_file_parts [OF g p _ _ _ assms(5,8), of t "send_log ''parse_message'' ?w"] assms(2) show ?thesis by auto
qed

definition glibc_cworld :: cworld where
  "glibc_cworld = plenty_cworld\<lparr>usable := glibc_usable\<rparr>"

definition queue_dir_example :: mail_files where
  "queue_dir_example = (\<lambda>p. if p = ''/q/m.ru.2.T5'' then Some (mail_file [''<a@m.ru>'', ''<b@x.ru>''] ''<s@h>'' [''hi''])
     else if p = ''/q/mysmtp.ru.2.T6'' then Some (mail_file [''<a@mysmtp.ru>''] ''<s@h>'' [''hi'']) else None)"

lemma glibc_cworld_ok: "good_world glibc_cworld" "\<forall>a \<in> set [''<s@h>'', ''<a@m.ru>'', ''<b@x.ru>'']. spare glibc_cworld a"
  "cmem glibc_cworld = [] \<and> (\<forall>a \<in> set [''<a@mysmtp.ru>'']. spare glibc_cworld a)"
  by (simp_all add: spare_def good_world_def glibc_cworld_def plenty_cworld_def glibc_usable_def)

lemma queue_dir_mail_ok: "mail_file_ok [''<a@m.ru>'', ''<b@x.ru>''] ''<s@h>'' [''hi'']" "mail_file_ok [''<a@mysmtp.ru>''] ''<s@h>'' [''hi'']"
  by (simp_all add: mail_file_ok_def rcpt_ok_def text_line_ok_def host_part_def X_DOMAIN_TO_def X_DOMAIN_FROM_def MAX_LINE_LENGTH_def
      TO_SEPARATOR_def)

theorem announced_mail_is_queued_witness:
  "\<exists>t' w'. process_file worker_cfg_example env_example lost_tree queue_dir_example (mk_str ''m.ru.2.T5'') glibc_cworld
       = Done (t', queue_dir_example(''/q/m.ru.2.T5'' := None), w') \<and> conns_inv t'
     \<and> conn_messages (the (tree_lookup t' ''m.ru'')) = \<lparr>qitems = [mail_example,
          mail_for worker_cfg_example ''m.ru'' 2 [''<a@m.ru>'', ''<b@x.ru>''] ''<s@h>'' [''hi'']], qlen = 2, qmax = 10000\<rparr>"
proof -
  have l: "tree_lookup lost_tree ''m.ru'' = Some (lost_conn ''m.ru'')" by (simp add: tree_lookup_def tree_search_def lost_tree_def)
  have q: "conn_messages (lost_conn ''m.ru'') = \<lparr>qitems = [mail_example], qlen = 1, qmax = 10000\<rparr>"
    by (simp add: lost_conn_def conn_example_def)
  have d: "cfg_queue_dir worker_cfg_example = ''/q''" by (simp add: worker_cfg_example_def)
  have w: "\<exists>r \<in> set [''<a@m.ru>'', ''<b@x.ru>'']. wanted ''m.ru'' (int (of_char CHR ''2'') - 48) r"
    by (simp add: wanted_def host_part_def DOMAIN_NAME_def)
  have e: "''/q'' @ FILENAME_SEP # ''m.ru.2.T5'' = ''/q/m.ru.2.T5''" by (simp add: FILENAME_SEP_def)
  have a: "\<forall>a \<in> set (''<s@h>'' # [''<a@m.ru>'', ''<b@x.ru>'']). length a < 240" by simp
  have r: "qlen (conn_messages (lost_conn ''m.ru'')) < qmax (conn_messages (lost_conn ''m.ru''))" "2 \<le> length ''m.ru''" by (simp_all add: q)
  have f: "NUL \<notin> set (cfg_queue_dir worker_cfg_example @ FILENAME_SEP # ''m.ru.2.T5'')" "length ''m.ru.2.T5'' < KEY_SIZE"
    "SERVER_ADDR_SEP \<notin> set ''T5''" "''m.ru.2.T5'' = ''m.ru'' @ SERVER_ADDR_SEP # CHR ''2'' # SERVER_ADDR_SEP # ''T5''"
    by (simp_all add: d e) (simp_all add: SERVER_ADDR_SEP_def FILENAME_SEP_def KEY_SIZE_def)
  have m: "queue_dir_example (cfg_queue_dir worker_cfg_example @ FILENAME_SEP # ''m.ru.2.T5'')
      = Some (mail_file [''<a@m.ru>'', ''<b@x.ru>''] ''<s@h>'' [''hi''])"
    by (simp only: d e) (simp add: queue_dir_example_def)
  have n: "int (of_char CHR ''2'') - 48 = (2 :: int)" by simp
  from announced_mail_is_queued [where cfg = worker_cfg_example and fs = queue_dir_example and ch = "CHR ''2''" and env = env_example,
      OF queue_dir_mail_ok(1) a glibc_cworld_ok(1) lost_tree_inv l r f(1) f(4) f(3) f(2) w m]
  show ?thesis unfolding d e n if_P [OF glibc_cworld_ok(2)] by (elim exE conjE) (rule exI, rule exI, intro conjI, assumption, assumption, simp add: q)
qed

theorem refused_mail_is_removed_witness:
  "\<exists>w'. process_file worker_cfg_example env_example (tree_update ''mysmtp.ru'' (lost_conn ''mysmtp.ru'') (lost_tree\<lparr>troot := Node Tip ''mysmtp.ru'' None Tip\<rparr>))
       queue_dir_example (mk_str ''mysmtp.ru.2.T6'') glibc_cworld
     = Done (tree_update ''mysmtp.ru'' (lost_conn ''mysmtp.ru'') (lost_tree\<lparr>troot := Node Tip ''mysmtp.ru'' None Tip\<rparr>),
         queue_dir_example(''/q/mysmtp.ru.2.T6'' := None), w')"
proof -
  let ?t = "tree_update ''mysmtp.ru'' (lost_conn ''mysmtp.ru'') (lost_tree\<lparr>troot := Node Tip ''mysmtp.ru'' None Tip\<rparr>)"
  have l: "tree_lookup ?t ''mysmtp.ru'' = Some (lost_conn ''mysmtp.ru'')"
    by (simp add: tree_lookup_def tree_search_def tree_update_def)
  have d: "cfg_queue_dir worker_cfg_example = ''/q''" by (simp add: worker_cfg_example_def)
  have e: "''/q'' @ FILENAME_SEP # ''mysmtp.ru.2.T6'' = ''/q/mysmtp.ru.2.T6''" by (simp add: FILENAME_SEP_def)
  have f: "2 \<le> length ''mysmtp.ru''" "NUL \<notin> set (cfg_queue_dir worker_cfg_example @ FILENAME_SEP # ''mysmtp.ru.2.T6'')"
    "length ''mysmtp.ru.2.T6'' < KEY_SIZE" "SERVER_ADDR_SEP \<notin> set ''T6''"
    "''mysmtp.ru.2.T6'' = ''mysmtp.ru'' @ SERVER_ADDR_SEP # CHR ''2'' # SERVER_ADDR_SEP # ''T6''"
    by (simp_all add: d e) (simp_all add: SERVER_ADDR_SEP_def FILENAME_SEP_def KEY_SIZE_def)
  have h: "prefix DOMAIN_NAME ''mysmtp.ru''" "\<forall>r \<in> set [''<a@mysmtp.ru>'']. prefix ''mysmtp.ru'' (host_part r)"
    by (simp_all add: DOMAIN_NAME_def host_part_def)
  have m: "queue_dir_example (cfg_queue_dir worker_cfg_example @ FILENAME_SEP # ''mysmtp.ru.2.T6'')
      = Some (mail_file [''<a@mysmtp.ru>''] ''<s@h>'' [''hi''])"
    by (simp only: d e) (simp add: queue_dir_example_def)
  from refused_mail_is_removed [where cfg = worker_cfg_example and fs = queue_dir_example and ch = "CHR ''2''" and env = env_example,
      OF queue_dir_mail_ok(2) glibc_cworld_ok(3) l f(1,2,5,4,3) h m]
  show ?thesis unfolding d e .
qed

end
