(* ===== verification/Client_Master.thy ===== *)
theory Client_Master
  imports Client_Tree Client_Message Client_Fileparser Client_Select
begin

text \<open>
  The master process of the client, \<^verbatim>\<open>client/src/master.c\<close>: it starts the logger and the
  workers, scans the mail directory and announces every file to one worker, chosen by the
  host in the name: the worker that served the host lately, or the next one in turn.
\<close>

section \<open>Data\<close>

record master_config_t =
  mc_queue_dir :: string
  mc_log_file :: string
  mc_workers_count :: nat
  mc_min_interval_working_with_addr :: int
  mc_max_attempts_time :: int
  mc_min_interval_between_attempts :: int
  mc_max_connect_count :: int
  mc_min_interval_between_connect :: int
  mc_logger_fd :: int

text \<open>
  The pointer to the peer of a worker is an index into the peers of the process, \<open>None\<close> when
  \<^verbatim>\<open>peer_init\<close> failed. An entry of the array of workers is \<open>None\<close> when it was never written.
\<close>

record worker_t =
  wpid :: int
  peer_write :: "nat option"

record worker_time_t =
  wt_worker :: worker_t
  last_time_working :: int

record state_t =
  addr_vs_worker :: "worker_time_t tree_t"
  sended_files :: "unit tree_t"
  rr_index :: nat

section \<open>Choosing a worker\<close>

text \<open>A count of zero divides by zero, which ends the process like a failed assertion.\<close>

definition pick_worker_by_rr :: "state_t \<Rightarrow> worker_t option list \<Rightarrow> nat \<Rightarrow> (worker_t \<times> state_t) run" where
  "pick_worker_by_rr s workers workers_count =
     (if length workers \<le> rr_index s then Fault Out_Of_Bounds
      else case workers ! rr_index s of None \<Rightarrow> Fault Uninit_Read
      | Some worker \<Rightarrow> if workers_count = 0 then Fault Assert_Failed
          else Done (worker, s\<lparr>rr_index := (rr_index s + 1) mod workers_count\<rparr>))"

definition is_time_expired :: "worker_time_t \<Rightarrow> int \<Rightarrow> cworld \<Rightarrow> bool \<times> cworld" where
  "is_time_expired wt min_interval w = (let (now, w1) = ctime w in (now - last_time_working wt > min_interval, w1))"

definition update_last_time_working :: "worker_time_t \<Rightarrow> cworld \<Rightarrow> worker_time_t \<times> cworld" where
  "update_last_time_working wt w = (let (now, w1) = ctime w in (wt\<lparr>last_time_working := now\<rparr>, w1))"

definition add_addr_vs_worker :: "worker_time_t tree_t \<Rightarrow> string \<Rightarrow> worker_t \<Rightarrow> cworld \<Rightarrow> (cerror \<times> worker_time_t tree_t \<times> cworld) run" where
  "add_addr_vs_worker t addr worker w =
     (let (now, w1) = ctime w in tree_insert default_copy t addr (Some \<lparr>wt_worker = worker, last_time_working = now\<rparr>) w1)"

text \<open>The next worker in turn is taken and remembered for the host; whether it was is not looked at.\<close>

definition pick_next :: "state_t \<Rightarrow> worker_t option list \<Rightarrow> string \<Rightarrow> master_config_t \<Rightarrow> cworld \<Rightarrow> (worker_t \<times> state_t \<times> cworld) run" where
  "pick_next s workers addr cfg w =
     rbind (pick_worker_by_rr s workers (mc_workers_count cfg)) (\<lambda>(worker, s1).
     rbind (add_addr_vs_worker (addr_vs_worker s1) addr worker w) (\<lambda>(_, t, w1). Done (worker, s1\<lparr>addr_vs_worker := t\<rparr>, w1)))"

text \<open>The time of the last use is updated in a local copy of the entry only.\<close>

definition pick_worker :: "state_t \<Rightarrow> worker_t option list \<Rightarrow> string \<Rightarrow> master_config_t \<Rightarrow> cworld \<Rightarrow> (worker_t \<times> state_t \<times> cworld) run" where
  "pick_worker s workers addr cfg w =
     (case tree_search (addr_vs_worker s) addr of
        None \<Rightarrow> pick_next s workers addr cfg w
      | Some None \<Rightarrow> Fault Null_Deref
      | Some (Some wt) \<Rightarrow>
          let (expired, w1) = is_time_expired wt (mc_min_interval_working_with_addr cfg) w in
          if expired
          then rbind (tree_delete default_copy (addr_vs_worker s) addr w1) (\<lambda>(_, t, w2).
            pick_next (s\<lparr>addr_vs_worker := t\<rparr>) workers addr cfg w2)
          else let (wt1, w2) = update_last_time_working wt w1 in Done (wt_worker wt1, s, w2))"

definition state_init :: "cworld \<Rightarrow> (state_t option \<times> cworld) run" where
  "state_init w =
     (let (ok, w1) = cmalloc w in
      if \<not> ok then Done (None, w1)
      else case tree_init w1 of (None, w2) \<Rightarrow> Done (None, w2)
      | (Some sf, w2) \<Rightarrow> (case tree_init w2 of
            (None, w3) \<Rightarrow> rbind (tree_clear sf w3) (\<lambda>(_, w4). Done (None, w4))
          | (Some av, w3) \<Rightarrow> Done (Some \<lparr>addr_vs_worker = av, sended_files = sf, rr_index = 0\<rparr>, w3)))"

definition state_clear :: "state_t \<Rightarrow> cworld \<Rightarrow> cworld run" where
  "state_clear s w = rbind (tree_clear (addr_vs_worker s) w) (\<lambda>(_, w1). rbind (tree_clear (sended_files s) w1) (\<lambda>(_, w2). Done w2))"

section \<open>Announcing files\<close>

text \<open>What the pointer \<^verbatim>\<open>addr\<close> is when a turn of the loop frees it.\<close>

datatype addr_var = Never_Set | Null_Ptr | Block_Ptr | Freed_Ptr

definition free_addr :: "addr_var \<Rightarrow> addr_var run" where
  "free_addr a = (case a of Never_Set \<Rightarrow> Fault Uninit_Read | Null_Ptr \<Rightarrow> Done Null_Ptr | Block_Ptr \<Rightarrow> Done Freed_Ptr | Freed_Ptr \<Rightarrow> Fault Dangling)"

definition PARENT_MESSAGE_END_MARKER :: string where "PARENT_MESSAGE_END_MARKER = '' ''"

definition add_filename_to_worker :: "worker_t \<Rightarrow> string_t \<Rightarrow> peer_t list \<Rightarrow> cworld \<Rightarrow> (cerror \<times> peer_t list \<times> cworld) run" where
  "add_filename_to_worker worker fn peers w =
     (case peer_write worker of None \<Rightarrow> Fault Null_Deref
      | Some i \<Rightarrow> if length peers \<le> i then Fault Dangling
          else rbind (add_message (peers ! i) fn (Some PARENT_MESSAGE_END_MARKER) w) (\<lambda>(e, p, w1). Done (e, peers[i := p], w1)))"

text \<open>A file that was not announced yet and whose name has a host.\<close>

definition announce :: "master_config_t \<Rightarrow> worker_t option list \<Rightarrow> string_t \<Rightarrow> string \<Rightarrow> state_t \<Rightarrow> peer_t list \<Rightarrow> cworld
    \<Rightarrow> (state_t \<times> peer_t list \<times> cworld) run" where
  "announce cfg workers fn addr s peers w =
     rbind (pick_worker s workers addr cfg w) (\<lambda>(worker, s1, w1).
     rbind (add_filename_to_worker worker fn peers w1) (\<lambda>(ret, peers1, w2).
       if ret = SUCCESS
       then rbind (tree_insert default_copy (sended_files s1) (c_str (str_data fn)) None w2) (\<lambda>(_, t, w3).
         Done (s1\<lparr>sended_files := t\<rparr>, peers1, w3))
       else Done (s1, peers1, w2)))"

fun add_filenames_loop :: "master_config_t \<Rightarrow> worker_t option list \<Rightarrow> string_t list \<Rightarrow> addr_var \<Rightarrow> state_t \<Rightarrow> peer_t list \<Rightarrow> cworld
    \<Rightarrow> (state_t \<times> peer_t list \<times> cworld) run" where
  "add_filenames_loop cfg workers [] a s peers w = Done (s, peers, w)"
| "add_filenames_loop cfg workers (fn # fns) a s peers w =
     rbind (if tree_search (sended_files s) (c_str (str_data fn)) = None
            then rbind (get_addr fn w) (\<lambda>(r, w1).
              case r of None \<Rightarrow> Done (Null_Ptr, s, peers, w1)
              | Some (addr, _) \<Rightarrow> rbind (announce cfg workers fn addr s peers w1) (\<lambda>(s1, peers1, w2). Done (Block_Ptr, s1, peers1, w2)))
            else Done (a, s, peers, w)) (\<lambda>(a1, s1, peers1, w1).
     rbind (free_addr a1) (\<lambda>a2. add_filenames_loop cfg workers fns a2 s1 peers1 w1))"

definition add_filenames_to_workers :: "master_config_t \<Rightarrow> worker_t option list \<Rightarrow> string_t cqueue \<Rightarrow> state_t \<Rightarrow> peer_t list \<Rightarrow> cworld
    \<Rightarrow> (state_t \<times> peer_t list \<times> cworld) run" where
  "add_filenames_to_workers cfg workers new_files s peers w = add_filenames_loop cfg workers (qitems new_files) Never_Set s peers w"

section \<open>Starting the logger\<close>

text \<open>
  \<open>pipe i\<close> is the pair of descriptors the call for slot \<open>i\<close> returns. The table of pipes keeps
  its slots, the two arrays of descriptors are filled without gaps; every failure lowers the
  count, which is also the bound of the loop.
\<close>

type_synonym pipe_oracle = "nat \<Rightarrow> (int \<times> int) option"

function open_log_pipes :: "pipe_oracle \<Rightarrow> nat \<Rightarrow> nat \<Rightarrow> (int \<times> int) option list \<Rightarrow> (int \<times> int) list
    \<Rightarrow> nat \<times> (int \<times> int) option list \<times> (int \<times> int) list" where
  "open_log_pipes pipe i count table fds =
     (if i < count
      then case pipe i of None \<Rightarrow> open_log_pipes pipe (i + 1) (count - 1) (table @ [None]) fds
        | Some p \<Rightarrow> open_log_pipes pipe (i + 1) count (table @ [Some p]) (fds @ [p])
      else (count, table, fds))"
  by pat_completeness auto
termination
  by (relation "measure (\<lambda>(pipe, i, count, table, fds). count - i)") auto

declare open_log_pipes.simps [simp del]

text \<open>Closing one end of the first \<open>n\<close> pipes of the table reads each slot.\<close>

fun close_ends :: "nat \<Rightarrow> (int \<times> int) option list \<Rightarrow> unit run" where
  "close_ends 0 table = Done ()"
| "close_ends (Suc n) [] = Fault Uninit_Read"
| "close_ends (Suc n) (None # table) = Fault Uninit_Read"
| "close_ends (Suc n) (Some p # table) = close_ends n table"

record logger_config_t =
  lc_log_file :: string
  lc_worker_pipe_fds :: "int list"
  lc_workers_count :: nat

text \<open>
  \<^verbatim>\<open>init_logger\<close> up to \<^verbatim>\<open>fork\<close>: both arrays have the original number of slots, the unused ones
  zero. The master goes on with its writing ends, the child with the configuration of the
  logger. The test after the second \<^verbatim>\<open>calloc\<close> looks at the address of the pointer, which is
  never null, and not at the pointer: when that call fails the pointer stays null (\<open>None\<close>), the
  loop goes on, and the first pipe that is opened is written through it.
\<close>

definition logger_pipes :: "master_config_t \<Rightarrow> pipe_oracle \<Rightarrow> cworld
    \<Rightarrow> ((nat \<times> (int \<times> int) option list \<times> int list \<times> int list option) option \<times> cworld) run" where
  "logger_pipes cfg pipe w =
     (let n = mc_workers_count cfg + 1; (ok1, w1) = cmalloc w in
      if \<not> ok1 then Done (None, w1)
      else let (ok2, w2) = cmalloc w1; (count, table, fds) = open_log_pipes pipe 0 n [] [] in
        if \<not> ok2 \<and> fds \<noteq> [] then Fault Null_Deref
        else Done (Some (count, table, map fst fds @ replicate (n - length fds) 0,
          if ok2 then Some (map snd fds @ replicate (n - length fds) 0) else None), w2))"

definition init_logger :: "master_config_t \<Rightarrow> pipe_oracle \<Rightarrow> int \<Rightarrow> cworld
    \<Rightarrow> (int \<times> master_config_t \<times> int list option \<times> cworld) run" where
  "init_logger cfg pipe pid w = rbind (logger_pipes cfg pipe w) (\<lambda>(ends, w1). case ends of
        None \<Rightarrow> Done (-1, cfg, None, w1)
      | Some (count, table, rfds, wfds) \<Rightarrow>
          let cfg1 = cfg\<lparr>mc_workers_count := mc_workers_count cfg - (mc_workers_count cfg + 1 - count)\<rparr> in
          if pid < 0 then Done (-1, cfg1, wfds, w1)
          else rbind (close_ends count table) (\<lambda>_. Done (pid, cfg1, wfds, w1)))"

definition init_logger_child :: "master_config_t \<Rightarrow> pipe_oracle \<Rightarrow> cworld \<Rightarrow> (logger_config_t option \<times> cworld) run" where
  "init_logger_child cfg pipe w = rbind (logger_pipes cfg pipe w) (\<lambda>(ends, w1). case ends of
        None \<Rightarrow> Done (None, w1)
      | Some (count, table, rfds, wfds) \<Rightarrow> rbind (close_ends count table) (\<lambda>_.
          Done (Some \<lparr>lc_log_file = mc_log_file cfg, lc_worker_pipe_fds = rfds, lc_workers_count = count\<rparr>, w1)))"

section \<open>Starting the workers\<close>

text \<open>The configuration of the child for slot \<open>i\<close>: it reads from its pipe and writes to its descriptor of the logger.\<close>

definition worker_child_config :: "master_config_t \<Rightarrow> int \<times> int \<Rightarrow> int list option \<Rightarrow> nat \<Rightarrow> worker_config_t run" where
  "worker_child_config cfg p logger_fds i =
     rbind (case logger_fds of None \<Rightarrow> Done (-1)
            | Some fds \<Rightarrow> if i < length fds then Done (fds ! i) else Fault Out_Of_Bounds) (\<lambda>lfd.
       Done \<lparr>cfg_queue_dir = mc_queue_dir cfg, cfg_parent_pipe_fd = fst p, cfg_logger_fd = lfd,
         cfg_max_attempts_time = mc_max_attempts_time cfg,
         cfg_min_interval_between_attempts = mc_min_interval_between_attempts cfg,
         cfg_max_connect_count = mc_max_connect_count cfg,
         cfg_min_interval_between_connect = mc_min_interval_between_connect cfg\<rparr>)"

text \<open>
  The loop of the parent over the slots: a failed call lowers the count and leaves its slot
  unwritten. \<open>pids\<close> are the results of \<^verbatim>\<open>fork\<close>, \<open>raws\<close> the contents of new buffers.
\<close>

fun start_workers :: "pipe_oracle \<Rightarrow> (nat \<Rightarrow> int) \<Rightarrow> (nat \<Rightarrow> string \<times> string) \<Rightarrow> nat list \<Rightarrow> master_config_t \<Rightarrow> worker_t option list
    \<Rightarrow> peer_t list \<Rightarrow> cworld \<Rightarrow> master_config_t \<times> worker_t option list \<times> peer_t list \<times> cworld" where
  "start_workers pipe pids raws [] cfg workers peers w = (cfg, workers, peers, w)"
| "start_workers pipe pids raws (i # is) cfg workers peers w =
     (let failed = start_workers pipe pids raws is (cfg\<lparr>mc_workers_count := mc_workers_count cfg - 1\<rparr>) (workers @ [None]) peers w in
      case pipe i of None \<Rightarrow> failed
      | Some p \<Rightarrow> if pids i < 0 then failed
          else case peer_init (raws i) (snd p) FDT_PIPE w of
            (None, w1) \<Rightarrow> start_workers pipe pids raws is cfg (workers @ [Some \<lparr>wpid = pids i, peer_write = None\<rparr>]) peers w1
          | (Some q, w1) \<Rightarrow>
              start_workers pipe pids raws is cfg (workers @ [Some \<lparr>wpid = pids i, peer_write = Some (length peers)\<rparr>]) (peers @ [q]) w1)"

definition init_workers :: "master_config_t \<Rightarrow> pipe_oracle \<Rightarrow> (nat \<Rightarrow> int) \<Rightarrow> (nat \<Rightarrow> string \<times> string) \<Rightarrow> cworld
    \<Rightarrow> (master_config_t \<times> worker_t option list \<times> peer_t list) option \<times> cworld" where
  "init_workers cfg pipe pids raws w =
     (let (ok, w1) = cmalloc w in
      if \<not> ok then (None, w1)
      else let (cfg1, workers, peers, w2) = start_workers pipe pids raws [0..<mc_workers_count cfg] cfg [] [] w1 in
        (Some (cfg1, workers, peers), w2))"

fun clear_workers :: "worker_t option list \<Rightarrow> nat \<Rightarrow> peer_t list \<Rightarrow> unit run" where
  "clear_workers workers 0 peers = Done ()"
| "clear_workers [] (Suc n) peers = Fault Out_Of_Bounds"
| "clear_workers (None # ws) (Suc n) peers = Fault Uninit_Read"
| "clear_workers (Some x # ws) (Suc n) peers =
     (case peer_write x of None \<Rightarrow> Fault Null_Deref
      | Some i \<Rightarrow> if length peers \<le> i then Fault Dangling
          else rbind (peer_clear (peers ! i)) (\<lambda>_. clear_workers ws n peers))"

section \<open>Dispatching\<close>

fun worker_peers :: "worker_t option list \<Rightarrow> nat \<Rightarrow> nat option list run" where
  "worker_peers workers 0 = Done []"
| "worker_peers [] (Suc n) = Fault Out_Of_Bounds"
| "worker_peers (None # ws) (Suc n) = Fault Uninit_Read"
| "worker_peers (Some x # ws) (Suc n) = rbind (worker_peers ws n) (\<lambda>ps. Done (peer_write x # ps))"

definition get_peers_from_workers :: "worker_t option list \<Rightarrow> nat \<Rightarrow> cworld \<Rightarrow> (nat option list option \<times> cworld) run" where
  "get_peers_from_workers workers workers_count w =
     (let (ok, w1) = cmalloc w in
      if \<not> ok then Done (None, w1) else rbind (worker_peers workers workers_count) (\<lambda>ps. Done (Some ps, w1)))"

text \<open>\<open>ms_slots\<close> is the array of pointers to the peers of the workers, without the logger at its end.\<close>

record master_state =
  ms_state :: state_t
  ms_workers :: "worker_t option list"
  ms_peers :: "peer_t list"
  ms_slots :: "nat option list"
  ms_logger :: peer_t
  ms_storage :: select_fd_storage_t

text \<open>\<^verbatim>\<open>dispatch\<close> up to its loop; when the storage fails the state is cleared twice.\<close>

definition dispatch_init :: "master_config_t \<Rightarrow> string \<times> string \<Rightarrow> worker_t option list \<Rightarrow> peer_t list \<Rightarrow> cworld
    \<Rightarrow> (cerror \<times> master_state option \<times> cworld) run" where
  "dispatch_init cfg raw workers peers w =
     (case peer_init raw (mc_logger_fd cfg) FDT_PIPE w of (None, w1) \<Rightarrow> Done (MEMORY_ERROR, None, w1)
      | (Some logger, w1) \<Rightarrow> rbind (state_init w1) (\<lambda>(s, w2).
        case s of None \<Rightarrow> Done (MEMORY_ERROR, None, w2)
        | Some st \<Rightarrow> (case storage_init w2 of (None, w3) \<Rightarrow> Fault Dangling
          | (Some storage, w3) \<Rightarrow> rbind (get_peers_from_workers workers (mc_workers_count cfg) w3) (\<lambda>(slots, w4).
              case slots of None \<Rightarrow> Done (MEMORY_ERROR, None, w4)
              | Some sl \<Rightarrow> Done (SUCCESS, Some \<lparr>ms_state = st, ms_workers = workers, ms_peers = peers, ms_slots = sl,
                  ms_logger = logger, ms_storage = storage\<rparr>, w4)))))"

fun slot_peers :: "nat option list \<Rightarrow> peer_t list \<Rightarrow> peer_t list run" where
  "slot_peers [] peers = Done []"
| "slot_peers (None # sl) peers = Fault Null_Deref"
| "slot_peers (Some i # sl) peers =
     (if length peers \<le> i then Fault Dangling else rbind (slot_peers sl peers) (\<lambda>ps. Done (peers ! i # ps)))"

fun store_slots :: "nat option list \<Rightarrow> peer_t list \<Rightarrow> peer_t list \<Rightarrow> peer_t list" where
  "store_slots (Some i # sl) (p # ps) peers = store_slots sl ps (peers[i := p])"
| "store_slots (None # sl) (p # ps) peers = store_slots sl ps peers"
| "store_slots _ _ peers = peers"

text \<open>One turn of the loop: the new files are announced, then the pipes are served. The bytes written are returned.\<close>

definition dispatch_round :: "master_config_t \<Rightarrow> dir_listing \<Rightarrow> cio \<Rightarrow> master_state \<Rightarrow> cworld \<Rightarrow> (master_state \<times> string list \<times> cworld) run" where
  "dispatch_round cfg dir io ms w =
     rbind (get_filenames dir w) (\<lambda>(new_files, w1).
     rbind (case new_files of None \<Rightarrow> Done (ms_state ms, ms_peers ms, w1)
            | Some q \<Rightarrow> rbind (add_filenames_to_workers cfg (ms_workers ms) q (ms_state ms) (ms_peers ms) w1) (\<lambda>(s, ps, w2).
                rbind (cqueue_clear q) (\<lambda>_. Done (s, ps, w2)))) (\<lambda>(s, ps, w3).
     rbind (slot_peers (ms_slots ms) ps) (\<lambda>sps.
     rbind (select_step io (ms_storage ms) (sps @ [ms_logger ms]) w3) (\<lambda>(_, storage, res, w4).
       let n = length (ms_slots ms); served = map fst res in
       Done (ms\<lparr>ms_state := s, ms_peers := store_slots (ms_slots ms) (take n served) ps, ms_logger := served ! n, ms_storage := storage\<rparr>,
         map snd res, w4)))))"

fun dispatch :: "master_config_t \<Rightarrow> (dir_listing \<times> cio) list \<Rightarrow> master_state \<Rightarrow> cworld \<Rightarrow> (master_state \<times> cworld) run" where
  "dispatch cfg [] ms w = Done (ms, w)"
| "dispatch cfg ((dir, io) # rounds) ms w =
     rbind (dispatch_round cfg dir io ms w) (\<lambda>(ms1, _, w1). dispatch cfg rounds ms1 w1)"

text \<open>The processes are started and the last descriptor of the logger is kept for the master itself.\<close>

definition master_main :: "master_config_t \<Rightarrow> pipe_oracle \<times> int \<Rightarrow> pipe_oracle \<times> (nat \<Rightarrow> int) \<Rightarrow> (nat \<Rightarrow> string \<times> string) \<Rightarrow> string \<times> string
    \<Rightarrow> cworld \<Rightarrow> ((master_config_t \<times> master_state) option \<times> cworld) run" where
  "master_main cfg log forks raws raw w =
     rbind (init_logger cfg (fst log) (snd log) w) (\<lambda>(lpid, cfg1, log_fds, w1).
       if lpid < 0 then Done (None, w1)
       else case init_workers cfg1 (fst forks) (snd forks) raws w1 of (None, w2) \<Rightarrow> Done (None, w2)
       | (Some (cfg2, workers, peers), w2) \<Rightarrow>
           (case log_fds of None \<Rightarrow> Fault Null_Deref
            | Some fds \<Rightarrow> if length fds \<le> mc_workers_count cfg2 then Fault Out_Of_Bounds
                else let cfg3 = cfg2\<lparr>mc_logger_fd := fds ! mc_workers_count cfg2\<rparr> in
                  rbind (dispatch_init cfg3 raw workers peers w2) (\<lambda>(_, ms, w3).
                    case ms of None \<Rightarrow> rbind (clear_workers workers (mc_workers_count cfg3) peers) (\<lambda>_. Done (None, w3))
                    | Some m \<Rightarrow> Done (Some (cfg3, m), w3))))"

end
