(* ===== verification/Client_Dispatch.thy ===== *)
theory Client_Dispatch
  imports Client_Master
begin

text \<open>
  What the dispatching of files in \<^verbatim>\<open>client/src/master.c\<close> promises: an abstract dispatcher, a map
  from hosts to worker numbers with the time of the assignment and the number of the next
  worker, and the proof that \<open>add_filenames_to_workers\<close> implements it. Files that are seen
  twice, failed starts of workers and the descriptors of the logger are treated at the end.
\<close>

section \<open>The abstract dispatcher\<close>

type_synonym assignment = "(string \<Rightarrow> (nat \<times> int) option) \<times> nat"

text \<open>
  The worker for a host among \<open>n\<close>: the one it was given at most \<open>interval\<close> seconds ago, or the
  next in turn.
\<close>

definition assign :: "nat \<Rightarrow> int \<Rightarrow> int \<Rightarrow> string \<Rightarrow> assignment \<Rightarrow> nat \<times> assignment" where
  "assign n interval now d a =
     (case fst a d of
        Some (k, t0) \<Rightarrow> if now - t0 > interval then (snd a, ((fst a)(d \<mapsto> (snd a, now)), (snd a + 1) mod n)) else (k, a)
      | None \<Rightarrow> (snd a, ((fst a)(d \<mapsto> (snd a, now)), (snd a + 1) mod n)))"

fun assign_all :: "nat \<Rightarrow> int \<Rightarrow> int \<Rightarrow> (string \<times> string) list \<Rightarrow> assignment \<Rightarrow> nat list \<times> assignment" where
  "assign_all n interval now [] a = ([], a)"
| "assign_all n interval now ((f, d) # fs) a =
     (let (k, a1) = assign n interval now d a; (ks, a2) = assign_all n interval now fs a1 in (k # ks, a2))"

lemma assign_all_Cons:
  "assign_all n iv now (fd # fs) a =
     (fst (assign n iv now (snd fd) a) # fst (assign_all n iv now fs (snd (assign n iv now (snd fd) a))),
      snd (assign_all n iv now fs (snd (assign n iv now (snd fd) a))))"
  by (cases fd) (simp add: Let_def split: prod.splits)

declare assign_all.simps(2) [simp del]

lemma length_assign_all [simp]: "length (fst (assign_all n iv now fs a)) = length fs"
  by (induction fs arbitrary: a) (simp_all add: assign_all_Cons)

lemma assign_fixed:
  "fst a d = Some (k, t0) \<Longrightarrow> now - t0 \<le> iv \<Longrightarrow> assign n iv now d a = (k, a)
     \<and> (\<forall>d'. fst (snd (assign n iv now d' a)) d = Some (k, t0))"
  by (auto simp: assign_def split: option.splits)

lemma assign_sets: "0 \<le> iv \<Longrightarrow> \<exists>t0. fst (snd (assign n iv now d a)) d = Some (fst (assign n iv now d a), t0) \<and> now - t0 \<le> iv"
  by (auto simp: assign_def split: option.splits)

lemma assign_all_fixed:
  "fst a d = Some (k, t0) \<Longrightarrow> now - t0 \<le> iv \<Longrightarrow> i < length fs \<Longrightarrow> snd (fs ! i) = d \<Longrightarrow> fst (assign_all n iv now fs a) ! i = k"
proof (induction fs arbitrary: a i)
  case (Cons fd fs)
  obtain f e where fd: "fd = (f, e)" by force
  note x = assign_fixed [OF Cons.prems(1,2), of n]
  have "fst (snd (assign n iv now e a)) d = Some (k, t0)" using x by blast
  note ih = Cons.IH [OF this Cons.prems(2)]
  show ?case
  proof (cases i)
    case 0
    then show ?thesis using x Cons.prems(4) fd by (simp add: assign_all_Cons)
  next
    case (Suc j)
    then show ?thesis using ih [of j] Cons.prems(3,4) fd by (simp add: assign_all_Cons)
  qed
qed simp

text \<open>All files of a host that are found together go to one worker.\<close>

lemma assign_all_same_host:
  "0 \<le> iv \<Longrightarrow> i < j \<Longrightarrow> j < length fs \<Longrightarrow> snd (fs ! i) = snd (fs ! j)
    \<Longrightarrow> fst (assign_all n iv now fs a) ! i = fst (assign_all n iv now fs a) ! j"
proof (induction fs arbitrary: a i j)
  case (Cons fd fs)
  obtain f e where fd: "fd = (f, e)" by force
  obtain t0 where t0: "fst (snd (assign n iv now e a)) e = Some (fst (assign n iv now e a), t0)" "now - t0 \<le> iv"
    using assign_sets [OF Cons.prems(1)] by blast
  obtain j' where j: "j = Suc j'" using Cons.prems(2) by (cases j) auto
  show ?case
  proof (cases i)
    case 0
    then show ?thesis using assign_all_fixed [OF t0, of j' fs n] Cons.prems(3,4) fd j by (simp add: assign_all_Cons)
  next
    case (Suc i')
    then show ?thesis using Cons.IH [of i' j' "snd (assign n iv now e a)"] Cons.prems fd j by (simp add: assign_all_Cons)
  qed
qed simp

section \<open>The set of announced files\<close>

definition set_inv :: "unit tree_t \<Rightarrow> bool" where
  "set_inv t \<longleftrightarrow> bst (troot t) \<and> tmax_size t = TREE_DEFAULT_MAX_SIZE"

lemma insert_null_ok:
  assumes "bst t" "n \<noteq> mx" "key \<notin> tkeys t" "length key < KEY_SIZE" "cmem w = []"
  shows "\<exists>t'. tree_node_insert default_copy mx key None t n w = Done (SUCCESS, t', n + 1, w) \<and> bst t' \<and> tkeys t' = insert key (tkeys t)"
  using assms(1,3)
proof (induction t)
  case Tip
  show ?case using assms by (simp add: create_node_def default_copy_def)
next
  case (Node l k x r)
  consider (lt) "key < k" | (gt) "k < key" using Node.prems by force
  then show ?case
  proof cases
    case lt
    then have "strcmp key k \<noteq> 0" "strcmp key k < 0" by auto
    with lt Node.IH(1) Node.prems assms(2) show ?thesis by (auto simp del: strcmp_less_0_iff)
  next
    case gt
    then have "strcmp key k \<noteq> 0" "\<not> strcmp key k < 0" by auto
    with gt Node.IH(2) Node.prems assms(2) show ?thesis by (auto simp del: strcmp_less_0_iff)
  qed
qed

lemma set_insert_ok:
  assumes "set_inv t" "tsize t < TREE_DEFAULT_MAX_SIZE" "key \<notin> tkeys (troot t)" "length key < KEY_SIZE" "cmem w = []"
  shows "\<exists>t'. tree_insert default_copy t key None w = Done (SUCCESS, t', w) \<and> set_inv t' \<and> tsize t' = tsize t + 1
    \<and> tkeys (troot t') = insert key (tkeys (troot t))"
  using insert_null_ok [of "troot t" "tsize t" "tmax_size t" key w] assms by (auto simp: tree_insert_def set_inv_def)

section \<open>The refinement\<close>

definition refines :: "worker_t option list \<Rightarrow> assignment \<Rightarrow> state_t \<Rightarrow> bool" where
  "refines ws a s \<longleftrightarrow> rr_index s = snd a \<and> snd a < length ws \<and> tree_inv (addr_vs_worker s)
     \<and> (\<forall>d. tree_lookup (addr_vs_worker s) d = map_option (\<lambda>(k, t0). \<lparr>wt_worker = the (ws ! k), last_time_working = t0\<rparr>) (fst a d))
     \<and> (\<forall>d k t0. fst a d = Some (k, t0) \<longrightarrow> k < length ws) \<and> (\<forall>k < length ws. \<exists>p. ws ! k = Some \<lparr>wpid = p, peer_write = Some k\<rparr>)"

lemma tree_search_lookup: "tree_inv t \<Longrightarrow> tree_search t d = (case tree_lookup t d of None \<Rightarrow> None | Some v \<Rightarrow> Some (Some v))"
  using full_vals_search [of "troot t" d] by (auto simp: tree_inv_def tree_lookup_def tree_search_def split: option.splits)

lemma tree_inv_tsize: "tree_inv t \<Longrightarrow> tsize t = card (dom (tree_lookup t))"
  using card_tkeys [of "troot t"] by (simp add: dom_tree_lookup) (simp add: tree_inv_def)

lemma cp_ok_default [simp]: "cmem w = [] \<Longrightarrow> cp_ok default_copy w"
  by (simp add: cp_ok_def default_copy_def)

lemma refines_next:
  assumes r: "refines ws a s" and w: "cmem w = []" "cclock w = [now]" and d: "length d < KEY_SIZE"
    and room: "tsize (addr_vs_worker s) < TREE_DEFAULT_MAX_SIZE" and cfg: "mc_workers_count cfg = length ws"
  shows "\<exists>s'. pick_next s ws d cfg w = Done (the (ws ! snd a), s', w) \<and> sended_files s' = sended_files s
    \<and> refines ws ((fst a)(d \<mapsto> (snd a, now)), (snd a + 1) mod length ws) s'"
proof -
  obtain p where p: "ws ! snd a = Some \<lparr>wpid = p, peer_write = Some (snd a)\<rparr>" "snd a < length ws" using r by (auto simp: refines_def)
  have inv: "tree_inv (addr_vs_worker s)" using r by (simp add: refines_def)
  have rm: "tsize (addr_vs_worker s) \<noteq> tmax_size (addr_vs_worker s)" using room inv by (simp add: tree_inv_def)
  let ?v = "\<lparr>wt_worker = the (ws ! snd a), last_time_working = now\<rparr>"
  obtain t' where t': "tree_insert default_copy (addr_vs_worker s) d (Some ?v) w = Done (SUCCESS, t', w)" "tree_inv t'"
    "tree_lookup t' = (tree_lookup (addr_vs_worker s))(d \<mapsto> ?v)" using tree_ins_ok [OF inv rm d _ w(1), of default_copy ?v] w(1) by auto
  have "ctime w = (now, w)" using w(2) by (simp add: ctime_def)
  then have "pick_next s ws d cfg w = Done (the (ws ! snd a), s\<lparr>rr_index := (snd a + 1) mod length ws, addr_vs_worker := t'\<rparr>, w)"
    using r p t'(1) cfg by (auto simp: pick_next_def pick_worker_by_rr_def add_addr_vs_worker_def refines_def)
  moreover have "refines ws ((fst a)(d \<mapsto> (snd a, now)), (snd a + 1) mod length ws) (s\<lparr>rr_index := (snd a + 1) mod length ws, addr_vs_worker := t'\<rparr>)"
    using r t'(2,3) mod_less_divisor [of "length ws" "snd a + 1"] less_imp_neq [OF le_less_trans [OF le0 p(2)]]
    by (simp add: refines_def del: mod_less_divisor)
  ultimately show ?thesis by auto
qed

lemma pick_worker_refines:
  assumes r: "refines ws a s" and w: "cmem w = []" "cclock w = [now]" and d: "length d < KEY_SIZE"
    and room: "tsize (addr_vs_worker s) < TREE_DEFAULT_MAX_SIZE" and cfg: "mc_workers_count cfg = length ws"
    and a': "assign (length ws) (mc_min_interval_working_with_addr cfg) now d a = (k, a')"
  shows "\<exists>s'. pick_worker s ws d cfg w = Done (the (ws ! k), s', w) \<and> sended_files s' = sended_files s \<and> refines ws a' s'
    \<and> k < length ws \<and> tsize (addr_vs_worker s') \<le> tsize (addr_vs_worker s) + 1"
proof -
  have inv: "tree_inv (addr_vs_worker s)" using r by (simp add: refines_def)
  note lk = tree_search_lookup [OF inv]
  have sz: "tsize (addr_vs_worker s') \<le> tsize (addr_vs_worker s) + 1" if "refines ws ((fst a)(d \<mapsto> x), m) s'" for x m s'
  proof -
    have i': "tree_inv (addr_vs_worker s')" using that by (simp add: refines_def)
    have "dom (tree_lookup (addr_vs_worker s)) = dom (fst a)" "dom (tree_lookup (addr_vs_worker s')) = insert d (dom (fst a))"
      using r that by (auto simp: refines_def dom_def)
    moreover have "finite (dom (fst a))" using dom_tree_lookup [OF inv] calculation(1) by simp
    ultimately show ?thesis using tree_inv_tsize [OF inv] tree_inv_tsize [OF i'] by (simp add: card_insert_if)
  qed
  have ct: "ctime w = (now, w)" using w(2) by (simp add: ctime_def)
  have k0: "snd a < length ws" using r by (simp add: refines_def)
  show ?thesis
  proof (cases "fst a d")
    case None
    then have "tree_search (addr_vs_worker s) d = None" using lk r by (simp add: refines_def)
    then have e: "pick_worker s ws d cfg w = pick_next s ws d cfg w" by (simp add: pick_worker_def)
    have k: "k = snd a" "a' = ((fst a)(d \<mapsto> (snd a, now)), (snd a + 1) mod length ws)" using a' None by (auto simp: assign_def)
    from refines_next [OF r w d room cfg] obtain s' where "pick_next s ws d cfg w = Done (the (ws ! snd a), s', w)"
      "sended_files s' = sended_files s" "refines ws a' s'" unfolding k by blast
    moreover have "tsize (addr_vs_worker s') \<le> tsize (addr_vs_worker s) + 1" using calculation(3) sz k(2) by simp
    ultimately show ?thesis using e k(1) k0 by auto
  next
    case (Some kt)
    obtain k1 t0 where kt: "kt = (k1, t0)" by force
    have ts: "tree_search (addr_vs_worker s) d = Some (Some \<lparr>wt_worker = the (ws ! k1), last_time_working = t0\<rparr>)"
      using lk r Some kt by (simp add: refines_def)
    show ?thesis
    proof (cases "now - t0 > mc_min_interval_working_with_addr cfg")
      case True
      have k: "k = snd a" "a' = ((fst a)(d \<mapsto> (snd a, now)), (snd a + 1) mod length ws)" using a' Some kt True by (auto simp: assign_def)
      have "d \<in> dom (tree_lookup (addr_vs_worker s))" using r Some kt by (simp add: refines_def dom_def)
      then have "d \<in> tkeys (troot (addr_vs_worker s))" using dom_tree_lookup [OF inv] by simp
      from tree_del_ok [OF inv this, of default_copy w] w(1) obtain t' where
        t': "tree_delete default_copy (addr_vs_worker s) d w = Done (SUCCESS, t', w)" "tree_inv t'"
          "tree_lookup t' = (tree_lookup (addr_vs_worker s))(d := None)" by auto
      have r': "refines ws ((fst a)(d := None), snd a) (s\<lparr>addr_vs_worker := t'\<rparr>)" using r t'(2,3) by (auto simp: refines_def)
      have fin: "finite (dom (tree_lookup (addr_vs_worker s)))" using dom_tree_lookup [OF inv] by simp
      have "tsize t' \<le> tsize (addr_vs_worker s)"
        unfolding tree_inv_tsize [OF inv] tree_inv_tsize [OF t'(2)] t'(3) by (rule card_mono [OF fin]) auto
      with room have room': "tsize (addr_vs_worker (s\<lparr>addr_vs_worker := t'\<rparr>)) < TREE_DEFAULT_MAX_SIZE" by simp
      have "pick_worker s ws d cfg w = pick_next (s\<lparr>addr_vs_worker := t'\<rparr>) ws d cfg w"
        using ts True t'(1) ct by (simp add: pick_worker_def is_time_expired_def)
      with refines_next [OF r' w d room' cfg] obtain s' where "pick_worker s ws d cfg w = Done (the (ws ! snd a), s', w)"
        "sended_files s' = sended_files s" "refines ws a' s'" unfolding k by auto
      moreover have "tsize (addr_vs_worker s') \<le> tsize (addr_vs_worker s) + 1" using calculation(3) sz k(2) by simp
      ultimately show ?thesis using k(1) k0 by auto
    next
      case False
      then have "k = k1" "a' = a" using a' Some kt by (simp_all add: assign_def)
      moreover have "k1 < length ws" using r Some kt by (auto simp: refines_def)
      ultimately show ?thesis using ts False ct r by (simp add: pick_worker_def is_time_expired_def update_last_time_working_def)
    qed
  qed
qed

text \<open>The files and announcements of one scan.\<close>

text \<open>A file name from which the client reads the host \<open>d\<close>.\<close>

definition file_of :: "string \<Rightarrow> string \<Rightarrow> bool" where
  "file_of d f \<longleftrightarrow> (\<exists>c rest. f = d @ SERVER_ADDR_SEP # c # SERVER_ADDR_SEP # rest \<and> SERVER_ADDR_SEP \<notin> set rest)
     \<and> 2 \<le> length d \<and> NUL \<notin> set f \<and> length f < KEY_SIZE"

lemma file_of_addr:
  assumes "file_of d f" "cmem w = []"
  obtains ty where "get_addr (mk_str f) w = Done (Some (d, ty), w)" "c_str (str_data (mk_str f)) = f" "length d < KEY_SIZE"
proof -
  obtain c rest where f: "f = d @ SERVER_ADDR_SEP # c # SERVER_ADDR_SEP # rest" "SERVER_ADDR_SEP \<notin> set rest" "2 \<le> length d"
    "NUL \<notin> set f" "length f < KEY_SIZE" using assms(1) by (auto simp: file_of_def)
  then have "get_addr (mk_str f) w = Done (Some (d, int (of_char c) - 48), w)" using get_addr_ok [OF f(3) _ f(2) assms(2), of c] by simp
  moreover have "c_str (str_data (mk_str f)) = f" using c_str_append [OF f(4), of "[NUL]"] by simp
  ultimately show thesis using f that by auto
qed

text \<open>What the pipe of worker \<open>k\<close> gets for the files \<open>fs\<close> with the workers \<open>ks\<close>.\<close>

definition announced_to :: "nat \<Rightarrow> nat list \<Rightarrow> (string \<times> string) list \<Rightarrow> string" where
  "announced_to k ks fs = concat (map (\<lambda>(i, f, d). if i = k then f @ PARENT_MESSAGE_END_MARKER else []) (zip ks fs))"

lemma announced_to_simps [simp]: "announced_to k [] fs = []"
  "announced_to k (i # ks) ((f, d) # fs) = (if i = k then f @ PARENT_MESSAGE_END_MARKER else []) @ announced_to k ks fs"
  by (simp_all add: announced_to_def)

definition peers_ok :: "nat \<Rightarrow> peer_t list \<Rightarrow> bool" where
  "peers_ok room peers \<longleftrightarrow> (\<forall>p \<in> set peers. peer_wf p \<and> qlen (messages_in p) + room \<le> qmax (messages_in p))"

lemma add_filename_ok:
  assumes "peers_ok (Suc room) peers" "k < length peers" "good_world w"
  shows "\<exists>peers'. add_filename_to_worker \<lparr>wpid = p, peer_write = Some k\<rparr> (mk_str f) peers w = Done (SUCCESS, peers', w)
    \<and> length peers' = length peers \<and> peers_ok room peers'
    \<and> (\<forall>i < length peers. pending (peers' ! i) = pending (peers ! i) @ (if k = i then f @ PARENT_MESSAGE_END_MARKER else []))"
proof -
  have k: "peer_wf (peers ! k)" "qlen (messages_in (peers ! k)) + Suc room \<le> qmax (messages_in (peers ! k))"
    using assms(1,2) by (auto simp: peers_ok_def)
  then obtain q where q: "add_message (peers ! k) (mk_str f) (Some PARENT_MESSAGE_END_MARKER) w = Done (SUCCESS, q, w)" "peer_wf q"
    "pending q = pending (peers ! k) @ f @ PARENT_MESSAGE_END_MARKER" "qlen (messages_in q) = qlen (messages_in (peers ! k)) + 1"
    "qmax (messages_in q) = qmax (messages_in (peers ! k))"
    using add_message_pending [of "peers ! k" w f PARENT_MESSAGE_END_MARKER] assms(3) by auto
  have "peers_ok room (peers[k := q])"
    using assms(1) q k(2) by (auto simp: peers_ok_def dest!: set_update_subset_insert [THEN subsetD])
  with q assms(2) show ?thesis by (auto simp: add_filename_to_worker_def nth_list_update)
qed

text \<open>One turn of the loop for a file that is not among those announced.\<close>

lemma new_file_announced:
  assumes w: "good_world w" "cclock w = [now]" and cfg: "mc_workers_count cfg = length ws" and r: "refines ws a s"
    and si: "set_inv (sended_files s)" and lp: "length peers = length ws" "peers_ok (Suc room) peers" and fo: "file_of d f"
    and new: "f \<notin> tkeys (troot (sended_files s))" and sz: "tsize (addr_vs_worker s) < TREE_DEFAULT_MAX_SIZE" "tsize (sended_files s) < TREE_DEFAULT_MAX_SIZE"
    and a1: "assign (length ws) (mc_min_interval_working_with_addr cfg) now d a = (k, a1)"
  shows "\<exists>s2 peers1. add_filenames_loop cfg ws (mk_str f # fns) av s peers w = add_filenames_loop cfg ws fns Freed_Ptr s2 peers1 w
    \<and> refines ws a1 s2 \<and> set_inv (sended_files s2) \<and> tkeys (troot (sended_files s2)) = insert f (tkeys (troot (sended_files s)))
    \<and> tsize (addr_vs_worker s2) \<le> tsize (addr_vs_worker s) + 1 \<and> tsize (sended_files s2) = tsize (sended_files s) + 1
    \<and> length peers1 = length ws \<and> peers_ok room peers1
    \<and> (\<forall>i < length ws. pending (peers1 ! i) = pending (peers ! i) @ (if k = i then f @ PARENT_MESSAGE_END_MARKER else []))"
proof -
  have mem: "cmem w = []" using w(1) by simp
  obtain ty where ty: "get_addr (mk_str f) w = Done (Some (d, ty), w)" "c_str (str_data (mk_str f)) = f" "length d < KEY_SIZE"
    using file_of_addr [OF fo mem] .
  from pick_worker_refines [OF r mem w(2) ty(3) sz(1) cfg a1] obtain s1 where
    s1: "pick_worker s ws d cfg w = Done (the (ws ! k), s1, w)" "sended_files s1 = sended_files s" "refines ws a1 s1" "k < length ws"
      "tsize (addr_vs_worker s1) \<le> tsize (addr_vs_worker s) + 1" by blast
  obtain p where p: "ws ! k = Some \<lparr>wpid = p, peer_write = Some k\<rparr>" using s1(3,4) by (auto simp: refines_def)
  obtain peers1 where peers1: "add_filename_to_worker \<lparr>wpid = p, peer_write = Some k\<rparr> (mk_str f) peers w = Done (SUCCESS, peers1, w)"
    "length peers1 = length peers" "peers_ok room peers1"
    "\<forall>i < length peers. pending (peers1 ! i) = pending (peers ! i) @ (if k = i then f @ PARENT_MESSAGE_END_MARKER else [])"
    using add_filename_ok [of room peers k w p f] lp s1(4) w(1) by auto
  have "set_inv (sended_files s1)" "tsize (sended_files s1) < TREE_DEFAULT_MAX_SIZE" "f \<notin> tkeys (troot (sended_files s1))"
    using si sz(2) new s1(2) by simp_all
  from set_insert_ok [OF this _ mem] fo obtain t1 where t1: "tree_insert default_copy (sended_files s1) f None w = Done (SUCCESS, t1, w)"
    "set_inv t1" "tsize t1 = tsize (sended_files s1) + 1" "tkeys (troot t1) = insert f (tkeys (troot (sended_files s1)))"
    by (auto simp: file_of_def)
  define s2 where "s2 = s1\<lparr>sended_files := t1\<rparr>"
  have ann: "announce cfg ws (mk_str f) d s peers w = Done (s2, peers1, w)"
    using s1(1) p peers1(1) t1(1) ty(2) by (simp add: announce_def s2_def)
  have "tree_search (sended_files s) f = None" using new si by (simp add: tree_search_def set_inv_def)
  then have "add_filenames_loop cfg ws (mk_str f # fns) av s peers w = add_filenames_loop cfg ws fns Freed_Ptr s2 peers1 w"
    using ty(1,2) ann by (simp add: free_addr_def)
  moreover have "refines ws a1 s2" using s1(3) by (simp add: refines_def s2_def)
  ultimately show ?thesis
    by (intro exI [of _ s2] exI [of _ peers1] conjI) (use t1 s1(2,5) peers1(2-4) lp(1) in \<open>simp_all add: s2_def\<close>)
qed

text \<open>A file that was announced before takes the pointer that the turn frees as it is.\<close>

lemma old_file_faults:
  assumes "set_inv (sended_files s)" "f \<in> tkeys (troot (sended_files s))" "NUL \<notin> set f" "av = Never_Set \<or> av = Freed_Ptr"
  shows "add_filenames_loop cfg ws (mk_str f # fns) av s peers w = Fault (if av = Never_Set then Uninit_Read else Dangling)"
proof -
  have "tree_search (sended_files s) f \<noteq> None" using assms(1,2) by (simp add: tree_search_def set_inv_def node_search_None del: not_None_eq)
  moreover have "c_str (str_data (mk_str f)) = f" using c_str_append [OF assms(3), of "[NUL]"] by simp
  ultimately show ?thesis using assms(4) by (auto simp: free_addr_def)
qed

lemma add_filenames_refines:
  assumes w: "good_world w" "cclock w = [now]" and cfg: "mc_workers_count cfg = length ws"
  shows "refines ws a s \<Longrightarrow> set_inv (sended_files s) \<Longrightarrow> length peers = length ws \<Longrightarrow> \<forall>(f, d) \<in> set fs. file_of d f
    \<Longrightarrow> distinct (map fst fs) \<Longrightarrow> fst ` set fs \<inter> tkeys (troot (sended_files s)) = {}
    \<Longrightarrow> tsize (addr_vs_worker s) + length fs \<le> TREE_DEFAULT_MAX_SIZE \<Longrightarrow> tsize (sended_files s) + length fs \<le> TREE_DEFAULT_MAX_SIZE
    \<Longrightarrow> peers_ok (length fs) peers
    \<Longrightarrow> \<exists>s' peers'. add_filenames_loop cfg ws (map (mk_str \<circ> fst) fs) av s peers w = Done (s', peers', w)
      \<and> refines ws (snd (assign_all (length ws) (mc_min_interval_working_with_addr cfg) now fs a)) s' \<and> set_inv (sended_files s')
      \<and> tkeys (troot (sended_files s')) = tkeys (troot (sended_files s)) \<union> fst ` set fs \<and> length peers' = length ws
      \<and> (\<forall>k < length ws. peer_wf (peers' ! k) \<and> pending (peers' ! k) = pending (peers ! k)
          @ announced_to k (fst (assign_all (length ws) (mc_min_interval_working_with_addr cfg) now fs a)) fs)"
proof (induction fs arbitrary: a s peers av)
  case Nil
  then show ?case by (simp add: peers_ok_def)
next
  case (Cons fd fs)
  obtain f d where fd: "fd = (f, d)" by force
  obtain k a1 where a1: "assign (length ws) (mc_min_interval_working_with_addr cfg) now d a = (k, a1)" by (metis surj_pair)
  have h: "peers_ok (Suc (length fs)) peers" "file_of d f" "f \<notin> tkeys (troot (sended_files s))"
    "tsize (addr_vs_worker s) < TREE_DEFAULT_MAX_SIZE" "tsize (sended_files s) < TREE_DEFAULT_MAX_SIZE"
    using Cons.prems(4,6-9) fd by auto
  from new_file_announced [OF w cfg Cons.prems(1-3) h a1, of "map (mk_str \<circ> fst) fs" av] obtain s2 peers1 where
    step: "add_filenames_loop cfg ws (map (mk_str \<circ> fst) (fd # fs)) av s peers w
      = add_filenames_loop cfg ws (map (mk_str \<circ> fst) fs) Freed_Ptr s2 peers1 w" "refines ws a1 s2"
    "set_inv (sended_files s2)" "tkeys (troot (sended_files s2)) = insert f (tkeys (troot (sended_files s)))"
    "tsize (addr_vs_worker s2) \<le> tsize (addr_vs_worker s) + 1" "tsize (sended_files s2) = tsize (sended_files s) + 1"
    "length peers1 = length ws" "peers_ok (length fs) peers1"
    "\<forall>i < length ws. pending (peers1 ! i) = pending (peers ! i) @ (if k = i then f @ PARENT_MESSAGE_END_MARKER else [])"
    using fd by auto
  have "\<exists>s' peers'. add_filenames_loop cfg ws (map (mk_str \<circ> fst) fs) Freed_Ptr s2 peers1 w = Done (s', peers', w)
      \<and> refines ws (snd (assign_all (length ws) (mc_min_interval_working_with_addr cfg) now fs a1)) s' \<and> set_inv (sended_files s')
      \<and> tkeys (troot (sended_files s')) = tkeys (troot (sended_files s2)) \<union> fst ` set fs \<and> length peers' = length ws
      \<and> (\<forall>k < length ws. peer_wf (peers' ! k) \<and> pending (peers' ! k) = pending (peers1 ! k)
          @ announced_to k (fst (assign_all (length ws) (mc_min_interval_working_with_addr cfg) now fs a1)) fs)"
    by (rule Cons.IH [OF step(2)]) (use Cons.prems fd step(3-9) in auto)
  then show ?case unfolding step(1) using a1 step(4,9) fd by (auto simp: assign_all_Cons)
qed

lemma add_filenames_rescan:
  assumes w: "good_world w" "cclock w = [now]" and cfg: "mc_workers_count cfg = length ws"
  shows "refines ws a s \<Longrightarrow> set_inv (sended_files s) \<Longrightarrow> length peers = length ws \<Longrightarrow> \<forall>(f, d) \<in> set fs. file_of d f
    \<Longrightarrow> distinct (map fst fs) \<Longrightarrow> fst ` set fs \<inter> tkeys (troot (sended_files s)) \<noteq> {}
    \<Longrightarrow> tsize (addr_vs_worker s) + length fs \<le> TREE_DEFAULT_MAX_SIZE \<Longrightarrow> tsize (sended_files s) + length fs \<le> TREE_DEFAULT_MAX_SIZE
    \<Longrightarrow> peers_ok (length fs) peers \<Longrightarrow> av = Never_Set \<or> av = Freed_Ptr
    \<Longrightarrow> add_filenames_loop cfg ws (map (mk_str \<circ> fst) fs) av s peers w
      = Fault (if av = Never_Set \<and> fst (hd fs) \<in> tkeys (troot (sended_files s)) then Uninit_Read else Dangling)"
proof (induction fs arbitrary: a s peers av)
  case (Cons fd fs)
  obtain f d where fd: "fd = (f, d)" by force
  have fo: "file_of d f" using Cons.prems(4) fd by simp
  show ?case
  proof (cases "f \<in> tkeys (troot (sended_files s))")
    case True
    moreover have "NUL \<notin> set f" using fo by (simp add: file_of_def)
    ultimately show ?thesis using old_file_faults [OF Cons.prems(2), of f av] Cons.prems(10) fd by simp
  next
    case False
    obtain k a1 where a1: "assign (length ws) (mc_min_interval_working_with_addr cfg) now d a = (k, a1)" by (metis surj_pair)
    have h: "peers_ok (Suc (length fs)) peers" "tsize (addr_vs_worker s) < TREE_DEFAULT_MAX_SIZE" "tsize (sended_files s) < TREE_DEFAULT_MAX_SIZE"
      using Cons.prems(7-9) by auto
    from new_file_announced [OF w cfg Cons.prems(1-3) h(1) fo False h(2,3) a1, of "map (mk_str \<circ> fst) fs" av] obtain s2 peers1 where
      step: "add_filenames_loop cfg ws (map (mk_str \<circ> fst) (fd # fs)) av s peers w
        = add_filenames_loop cfg ws (map (mk_str \<circ> fst) fs) Freed_Ptr s2 peers1 w" "refines ws a1 s2"
      "set_inv (sended_files s2)" "tkeys (troot (sended_files s2)) = insert f (tkeys (troot (sended_files s)))"
      "tsize (addr_vs_worker s2) \<le> tsize (addr_vs_worker s) + 1" "tsize (sended_files s2) = tsize (sended_files s) + 1"
      "length peers1 = length ws" "peers_ok (length fs) peers1" using fd by auto
    have "add_filenames_loop cfg ws (map (mk_str \<circ> fst) fs) Freed_Ptr s2 peers1 w
      = Fault (if Freed_Ptr = Never_Set \<and> fst (hd fs) \<in> tkeys (troot (sended_files s2)) then Uninit_Read else Dangling)"
      by (rule Cons.IH [OF step(2)]) (use Cons.prems fd False step(3-8) in auto)
    then show ?thesis unfolding step(1) using False fd by simp
  qed
qed simp

text \<open>
  The time kept for a host is the time it was given to its worker: \<^verbatim>\<open>update_last_time_working\<close>
  renews a local copy (\<^verbatim>\<open>master.c:106\<close>). So a host that is in use all the time, each mail soon after the
  one before, still goes to another worker when the interval has passed since the first mail.
\<close>

lemma busy_host_changes_worker:
  assumes r: "refines ws a s" "fst a d = Some (k, t0)" and cfg: "mc_workers_count cfg = length ws" and d: "length d < KEY_SIZE"
    and room: "tsize (addr_vs_worker s) + 1 < TREE_DEFAULT_MAX_SIZE" and w: "cmem w1 = []" "cclock w1 = [t1]" "cmem w2 = []" "cclock w2 = [t2]"
    and t: "t1 - t0 \<le> mc_min_interval_working_with_addr cfg" "t2 - t1 \<le> mc_min_interval_working_with_addr cfg"
      "mc_min_interval_working_with_addr cfg < t2 - t0"
  shows "\<exists>s1 s2. pick_worker s ws d cfg w1 = Done (the (ws ! k), s1, w1) \<and> pick_worker s1 ws d cfg w2 = Done (the (ws ! snd a), s2, w2)"
proof -
  have a: "assign (length ws) (mc_min_interval_working_with_addr cfg) t1 d a = (k, a)" using r(2) t(1) by (simp add: assign_def)
  have "tsize (addr_vs_worker s) < TREE_DEFAULT_MAX_SIZE" using room by simp
  from pick_worker_refines [OF r(1) w(1,2) d this cfg a] obtain s1 where
    s1: "pick_worker s ws d cfg w1 = Done (the (ws ! k), s1, w1)" "refines ws a s1" "tsize (addr_vs_worker s1) \<le> tsize (addr_vs_worker s) + 1" by blast
  obtain a2 where a2: "assign (length ws) (mc_min_interval_working_with_addr cfg) t2 d a = (snd a, a2)" using r(2) t(3) by (simp add: assign_def)
  have "tsize (addr_vs_worker s1) < TREE_DEFAULT_MAX_SIZE" using s1(3) room by simp
  from pick_worker_refines [OF s1(2) w(3,4) d this cfg a2] s1(1) show ?thesis by blast
qed

section \<open>Properties\<close>

text \<open>
  C14: one scan of the directory implements the abstract dispatcher, as long as it lists no
  file that was announced before. Every file is then announced exactly once, in the order of
  the listing, to the pipe of the worker the dispatcher assigns to its host (and to no other
  pipe), the table of hosts and the next worker are those of the dispatcher, and files of one
  host go to one worker. If the scan lists a file that was announced before, it is not
  announced again but the turn frees a pointer that it did not set: one that was never set
  when the file is the first, one that was freed already otherwise.
  The dispatcher keeps for a host the time it was given to its worker, which later mails do
  not renew; the report speaks of the time of the last one.
\<close>

theorem scan_implements_dispatcher:
  assumes "good_world w" "cclock w = [now]" "mc_workers_count cfg = length ws"
    and "refines ws a s" "set_inv (sended_files s)" "length peers = length ws" "peers_ok (length fs) peers"
    and "\<forall>(f, d) \<in> set fs. file_of d f" "distinct (map fst fs)"
    and "tsize (addr_vs_worker s) + length fs \<le> TREE_DEFAULT_MAX_SIZE" "tsize (sended_files s) + length fs \<le> TREE_DEFAULT_MAX_SIZE"
    and "qitems q = map (mk_str \<circ> fst) fs" and "assign_all (length ws) (mc_min_interval_working_with_addr cfg) now fs a = (ks, a')"
    and "0 \<le> mc_min_interval_working_with_addr cfg"
  shows "if fst ` set fs \<inter> tkeys (troot (sended_files s)) = {}
    then \<exists>s' peers'. add_filenames_to_workers cfg ws q s peers w = Done (s', peers', w) \<and> refines ws a' s'
      \<and> tkeys (troot (sended_files s')) = tkeys (troot (sended_files s)) \<union> fst ` set fs
      \<and> (\<forall>k < length ws. pending (peers' ! k) = pending (peers ! k) @ announced_to k ks fs)
      \<and> (\<forall>i j. i < j \<and> j < length fs \<and> snd (fs ! i) = snd (fs ! j) \<longrightarrow> ks ! i = ks ! j)
    else add_filenames_to_workers cfg ws q s peers w
      = Fault (if fst (hd fs) \<in> tkeys (troot (sended_files s)) then Uninit_Read else Dangling)"
proof (cases "fst ` set fs \<inter> tkeys (troot (sended_files s)) = {}")
  case True
  then show ?thesis
    using add_filenames_refines [OF assms(1-6,8,9) True assms(10,11,7), of Never_Set]
      assign_all_same_host [OF assms(14), of _ _ fs "length ws" now a] assms(12,13)
    by (auto simp: add_filenames_to_workers_def)
next
  case False
  then show ?thesis
    using add_filenames_rescan [OF assms(1-6,8,9) False assms(10,11,7), of Never_Set] assms(12)
    by (simp add: add_filenames_to_workers_def)
qed

lemma push_filenames_ok:
  "good_world w \<Longrightarrow> cq_wf q \<Longrightarrow> qlen q + length es \<le> qmax q \<Longrightarrow>
     push_filenames es (Some q) w = Done (Some (q\<lparr>qitems := qitems q @ map (mk_str \<circ> fst) (filter snd es),
       qlen := qlen q + length (filter snd es)\<rparr>), w)"
proof (induction es arbitrary: q)
  case (Cons e es)
  obtain name reg where e: "e = (name, reg)" by force
  show ?case
  proof (cases reg)
    case True
    let ?q = "q\<lparr>qitems := qitems q @ [mk_str name], qlen := qlen q + 1\<rparr>"
    have "string_init2 (as_array name) (length name) w = Done (Some (mk_str name), w)" using Cons.prems(1) by (simp add: as_array_def)
    moreover have "cqueue_push_back string_copy q (mk_str name) w = Done (SUCCESS, ?q, w)"
      using Cons.prems by (simp add: cqueue_push_back_def)
    ultimately have "push_filenames (e # es) (Some q) w = push_filenames es (Some ?q) w" using e True by simp
    with Cons.IH [of ?q] Cons.prems e True show ?thesis by (simp add: cq_wf_def)
  qed (use Cons e in simp)
qed simp

lemma get_filenames_ok:
  assumes "good_world w" "length es \<le> CQUEUE_DEFAULT_MAX_SIZE"
  shows "\<exists>q. get_filenames (Some es) w = Done (Some q, w) \<and> qitems q = map (mk_str \<circ> fst) (filter snd es)"
  using assms push_filenames_ok [of w "\<lparr>qitems = [], qlen = 0, qmax = CQUEUE_DEFAULT_MAX_SIZE\<rparr>" es]
  by (simp add: get_filenames_def cqueue_init_def cq_wf_def)

text \<open>
  C37: the pointer that is freed at the end of every turn is only set for a file that is new. A
  scan whose first file was announced before, because its worker has not removed it yet,
  frees a pointer that was never set.
\<close>

theorem rescan_frees_unset_pointer:
  assumes "good_world w" and "length es \<le> CQUEUE_DEFAULT_MAX_SIZE" and "filter snd es = (f, True) # rest"
    and "NUL \<notin> set f" and "tree_search (sended_files (ms_state ms)) f \<noteq> None"
  shows "dispatch_round cfg (Some es) io ms w = Fault Uninit_Read"
proof -
  obtain q where q: "get_filenames (Some es) w = Done (Some q, w)" "qitems q = mk_str f # map (mk_str \<circ> fst) rest"
    using get_filenames_ok [OF assms(1,2)] assms(3) by auto
  obtain y where y: "tree_search (sended_files (ms_state ms)) f = Some y" using assms(5) by auto
  have "c_str (str_data (mk_str f)) = f" using c_str_append [OF assms(4), of "[NUL]"] by simp
  then have "add_filenames_to_workers cfg (ms_workers ms) q (ms_state ms) (ms_peers ms) w = Fault Uninit_Read"
    using q(2) y by (simp add: add_filenames_to_workers_def free_addr_def)
  with q(1) show ?thesis by (simp add: dispatch_round_def)
qed

section \<open>Starting the processes\<close>

lemma open_log_pipes_all:
  "\<forall>i < n. pipe i \<noteq> None \<Longrightarrow> j \<le> n \<Longrightarrow> open_log_pipes pipe j n table fds
     = (n, table @ map pipe [j..<n], fds @ map (the \<circ> pipe) [j..<n])"
proof (induction "n - j" arbitrary: j table fds)
  case 0
  then show ?case by (subst open_log_pipes.simps) simp
next
  case (Suc m)
  then obtain p where "pipe j = Some p" "j < n" by fastforce
  with Suc show ?case by (subst open_log_pipes.simps) (simp add: upt_conv_Cons)
qed

lemma close_ends_all: "close_ends (length ps) (map Some ps) = Done ()"
  by (induction ps) simp_all

text \<open>When every pipe is opened the child of the logger gets as many descriptors as it is told there are.\<close>

lemma init_logger_child_ok:
  assumes "\<forall>i < mc_workers_count cfg + 1. pipe i \<noteq> None" "cmem w = []"
  shows "init_logger_child cfg pipe w = Done (Some \<lparr>lc_log_file = mc_log_file cfg,
     lc_worker_pipe_fds = map (fst \<circ> the \<circ> pipe) [0..<mc_workers_count cfg + 1], lc_workers_count = mc_workers_count cfg + 1\<rparr>, w)"
proof -
  let ?n = "mc_workers_count cfg + 1"
  have e: "map pipe [0..<?n] = map Some (map (the \<circ> pipe) [0..<?n])" using assms(1) by (simp add: less_Suc_eq)
  have "close_ends ?n (map pipe [0..<?n]) = Done ()"
    unfolding e using close_ends_all [of "map (the \<circ> pipe) [0..<?n]"] by (simp only: length_map length_upt diff_zero)
  then show ?thesis
    using open_log_pipes_all [OF assms(1), of 0 "[]" "[]"] assms(2)
    by (simp add: init_logger_child_def logger_pipes_def comp_def)
qed

text \<open>
  When only the second array cannot be allocated the master writes the first descriptor
  through the null pointer.
\<close>

lemma open_log_pipes_keeps: "fds \<noteq> [] \<Longrightarrow> snd (snd (open_log_pipes pipe i n table fds)) \<noteq> []"
proof (induction pipe i n table fds rule: open_log_pipes.induct)
  case (1 pipe i n table fds)
  then show ?case by (subst open_log_pipes.simps) (auto split: option.splits)
qed

lemma second_calloc_fails:
  assumes "cmem w = True # False # m" "pipe 0 \<noteq> None"
  shows "init_logger cfg pipe pid w = Fault Null_Deref"
proof -
  obtain p where p: "pipe 0 = Some p" using assms(2) by blast
  have "open_log_pipes pipe 0 (mc_workers_count cfg + 1) [] [] = open_log_pipes pipe 1 (mc_workers_count cfg + 1) [Some p] [p]"
    by (subst open_log_pipes.simps) (simp add: p)
  then have "snd (snd (open_log_pipes pipe 0 (mc_workers_count cfg + 1) [] [])) \<noteq> []" using open_log_pipes_keeps by auto
  with assms(1) show ?thesis by (auto simp: init_logger_def logger_pipes_def cmalloc_def split: prod.splits)
qed

text \<open>The workers of the master, when nothing fails and when the call for one slot fails.\<close>

definition started :: "(nat \<Rightarrow> int) \<Rightarrow> nat \<Rightarrow> nat \<Rightarrow> worker_t" where
  "started pids i k = \<lparr>wpid = pids i, peer_write = Some k\<rparr>"

lemma start_workers_ok:
  assumes "cmem w = []"
  shows "\<forall>i \<in> set is. pipe i \<noteq> None \<and> 0 \<le> pids i \<Longrightarrow>
    \<exists>new. start_workers pipe pids raws is cfg workers peers w
      = (cfg, workers @ map (\<lambda>j. Some (started pids (is ! j) (length peers + j))) [0..<length is], peers @ new, w) \<and> length new = length is"
proof (induction "is" arbitrary: workers peers)
  case (Cons i "is")
  obtain p where p: "pipe i = Some p" "0 \<le> pids i" using Cons.prems by auto
  obtain q where q: "peer_init (raws i) (snd p) FDT_PIPE w = (Some q, w)" using assms by (simp add: peer_init_def cqueue_init_def)
  have "\<forall>i \<in> set is. pipe i \<noteq> None \<and> 0 \<le> pids i" using Cons.prems by auto
  from Cons.IH [OF this, of "workers @ [Some \<lparr>wpid = pids i, peer_write = Some (length peers)\<rparr>]" "peers @ [q]"] obtain new where
    "start_workers pipe pids raws is cfg (workers @ [Some \<lparr>wpid = pids i, peer_write = Some (length peers)\<rparr>]) (peers @ [q]) w
      = (cfg, (workers @ [Some \<lparr>wpid = pids i, peer_write = Some (length peers)\<rparr>])
          @ map (\<lambda>j. Some (started pids (is ! j) (length (peers @ [q]) + j))) [0..<length is], (peers @ [q]) @ new, w)" "length new = length is" by blast
  moreover have "[0..<length (i # is)] = 0 # map Suc [0..<length is]" by (simp add: upt_conv_Cons map_Suc_upt del: upt_Suc)
  ultimately show ?case using p q by (intro exI [of _ "q # new"]) (simp add: started_def comp_def del: upt_Suc)
qed simp

lemma worker_peers_hole: "i < n \<Longrightarrow> n \<le> length ws \<Longrightarrow> ws ! i = None \<Longrightarrow> worker_peers ws n = Fault Uninit_Read"
proof (induction ws n arbitrary: i rule: worker_peers.induct)
  case (4 x ws n)
  then obtain j where "i = Suc j" by (cases i) auto
  with 4 show ?case by simp
qed auto

lemma start_workers_append:
  "start_workers pipe pids raws (xs @ ys) cfg workers peers w
     = (case start_workers pipe pids raws xs cfg workers peers w of (cfg1, ws1, ps1, w1) \<Rightarrow> start_workers pipe pids raws ys cfg1 ws1 ps1 w1)"
  by (induction xs arbitrary: cfg workers peers w) (auto simp: Let_def split: option.splits prod.splits)

text \<open>
  A worker that could not be started leaves its slot of the array unwritten while the
  count shrinks, so unless it was the last one, the slot is among those that are used: after
  a failed \<^verbatim>\<open>pipe\<close> or \<^verbatim>\<open>fork\<close> for a slot before the last, the master reads the unwritten slot.
\<close>

theorem unstarted_worker_is_used:
  assumes "cmem w = []" and "i + 1 < mc_workers_count cfg"
    and "\<forall>j < mc_workers_count cfg. j \<noteq> i \<longrightarrow> pipe j \<noteq> None \<and> 0 \<le> pids j" and "pipe i = None \<or> pids i < 0"
  shows "\<exists>cfg' workers peers. init_workers cfg pipe pids raws w = (Some (cfg', workers, peers), w)
    \<and> dispatch_init cfg' raw workers peers w = Fault Uninit_Read"
proof -
  let ?n = "mc_workers_count cfg" and ?cfg = "cfg\<lparr>mc_workers_count := mc_workers_count cfg - 1\<rparr>"
  have split: "[0..<?n] = [0..<i] @ i # [i + 1..<?n]" using assms(2) upt_add_eq_append [of 0 i "?n - i"] by (simp add: upt_conv_Cons)
  obtain new where a: "start_workers pipe pids raws [0..<i] cfg [] [] w
      = (cfg, map (\<lambda>j. Some (started pids ([0..<i] ! j) j)) [0..<i], new, w)" "length new = i"
    using start_workers_ok [OF assms(1), of "[0..<i]" pipe pids raws cfg "[]" "[]"] assms(2,3) by auto
  let ?ws = "map (\<lambda>j. Some (started pids ([0..<i] ! j) j)) [0..<i]"
  obtain new2 where b: "start_workers pipe pids raws [i + 1..<?n] ?cfg (?ws @ [None]) new w
      = (?cfg, (?ws @ [None]) @ map (\<lambda>j. Some (started pids ([i + 1..<?n] ! j) (length new + j))) [0..<length [i + 1..<?n]], new @ new2, w)"
    using start_workers_ok [OF assms(1), of "[i + 1..<?n]" pipe pids raws ?cfg "?ws @ [None]" new] assms(3) by auto
  define ws where "ws = (?ws @ [None]) @ map (\<lambda>j. Some (started pids ([i + 1..<?n] ! j) (length new + j))) [0..<length [i + 1..<?n]]"
  have "start_workers pipe pids raws (i # [i + 1..<?n]) cfg ?ws new w = (?cfg, ws, new @ new2, w)"
    using b assms(4) by (auto simp: ws_def Let_def split: option.splits)
  then have "start_workers pipe pids raws [0..<?n] cfg [] [] w = (?cfg, ws, new @ new2, w)"
    unfolding split start_workers_append a(1) by simp
  then have "init_workers cfg pipe pids raws w = (Some (?cfg, ws, new @ new2), w)" using assms(1) by (simp add: init_workers_def)
  moreover have "ws ! i = None" "length ws = ?n" using assms(2) by (simp_all add: ws_def nth_append)
  then have "worker_peers ws (?n - 1) = Fault Uninit_Read" using worker_peers_hole [of i "?n - 1" ws] assms(2) by simp
  then have "dispatch_init ?cfg raw ws (new @ new2) w = Fault Uninit_Read"
    using assms(1) by (simp add: dispatch_init_def peer_init_def cqueue_init_def state_init_def tree_init_def storage_init_def
        get_peers_from_workers_def)
  ultimately show ?thesis by blast
qed

section \<open>Examples\<close>

definition master_example :: master_config_t where
  "master_example = \<lparr>mc_queue_dir = ''/q'', mc_log_file = ''/l'', mc_workers_count = 2, mc_min_interval_working_with_addr = 10,
     mc_max_attempts_time = 30, mc_min_interval_between_attempts = 5, mc_max_connect_count = 5, mc_min_interval_between_connect = 1, mc_logger_fd = 9\<rparr>"

definition workers_example :: "worker_t option list" where
  "workers_example = [Some \<lparr>wpid = 10, peer_write = Some 0\<rparr>, Some \<lparr>wpid = 11, peer_write = Some 1\<rparr>]"

definition pipe_peer :: peer_t where
  "pipe_peer = \<lparr>pfd = 5, ptype = FDT_PIPE, messages_in = \<lparr>qitems = [], qlen = 0, qmax = 10000\<rparr>, message_in_begin = 0,
     buffer_in = replicate 1024 NUL, buffer_in_size = 0, messages_out = \<lparr>qitems = [], qlen = 0, qmax = 10000\<rparr>,
     buffer_out = replicate 1024 NUL, buffer_out_size = 0\<rparr>"

definition empty_tree :: "'v tree_t" where
  "empty_tree = \<lparr>troot = Tip, tsize = 0, tmax_size = TREE_DEFAULT_MAX_SIZE\<rparr>"

definition clock_world :: cworld where
  "clock_world = \<lparr>cmem = [], usable = (\<lambda>n. n + 16), cclock = [50], clogs = []\<rparr>"

definition scan_example :: "(string \<times> string) list" where
  "scan_example = [(''ya.ru.2.T1'', ''ya.ru''), (''b.ru.2.T1'', ''b.ru''), (''ya.ru.2.T2'', ''ya.ru'')]"

lemma file_of_simple: "f = d @ ''.2.'' @ rest \<Longrightarrow> CHR ''.'' \<notin> set rest \<Longrightarrow> 2 \<le> length d \<Longrightarrow> NUL \<notin> set f \<Longrightarrow> length f < 255 \<Longrightarrow> file_of d f"
  unfolding file_of_def SERVER_ADDR_SEP_def KEY_SIZE_def by (intro conjI exI [of _ "CHR ''2''"] exI [of _ rest]) simp_all

lemma pipe_peer_wf: "peer_wf pipe_peer" "pending pipe_peer = []"
  by (simp_all add: pipe_peer_def peer_wf_def MAX_BUFFER_SIZE_def cq_wf_def pending_def)

definition state_example :: "unit tnode \<Rightarrow> nat \<Rightarrow> state_t" where
  "state_example t n = \<lparr>addr_vs_worker = empty_tree, sended_files = \<lparr>troot = t, tsize = n, tmax_size = TREE_DEFAULT_MAX_SIZE\<rparr>, rr_index = 0\<rparr>"

definition queue_example :: "string_t cqueue" where
  "queue_example = \<lparr>qitems = map (mk_str \<circ> fst) scan_example, qlen = 3, qmax = 10000\<rparr>"

theorem scan_implements_dispatcher_witness:
  "(\<exists>s' peers'. add_filenames_to_workers master_example workers_example queue_example (state_example Tip 0) [pipe_peer, pipe_peer] clock_world
       = Done (s', peers', clock_world)
     \<and> pending (peers' ! 0) = ''ya.ru.2.T1 ya.ru.2.T2 '' \<and> pending (peers' ! 1) = ''b.ru.2.T1 '' \<and> rr_index s' = 0)
   \<and> add_filenames_to_workers master_example workers_example queue_example (state_example (Node Tip ''b.ru.2.T1'' None Tip) 1)
       [pipe_peer, pipe_peer] clock_world = Fault Dangling"
proof -
  have l: "tree_lookup empty_tree = Map.empty" by (rule ext) (simp add: tree_lookup_def tree_search_def empty_tree_def)
  have r: "refines workers_example (Map.empty, 0) (state_example t n)" for t n
    unfolding refines_def by (auto simp: l tree_inv_def less_Suc_eq workers_example_def state_example_def) (simp_all add: empty_tree_def TREE_DEFAULT_MAX_SIZE_def)
  have f: "\<forall>(f, d) \<in> set scan_example. file_of d f"
    using file_of_simple [of "''ya.ru.2.T1''" "''ya.ru''" "''T1''"] file_of_simple [of "''b.ru.2.T1''" "''b.ru''" "''T1''"]
      file_of_simple [of "''ya.ru.2.T2''" "''ya.ru''" "''T2''"] by (simp add: scan_example_def)
  have g: "good_world clock_world" "cclock clock_world = [50]" "mc_workers_count master_example = length workers_example"
    by (simp_all add: good_world_def clock_world_def master_example_def workers_example_def)
  have p: "peers_ok (length scan_example) [pipe_peer, pipe_peer]" "length [pipe_peer, pipe_peer] = length workers_example"
    using pipe_peer_wf(1) by (simp_all add: peers_ok_def scan_example_def workers_example_def) (simp add: pipe_peer_def)
  have si: "set_inv (sended_files (state_example Tip 0))" "set_inv (sended_files (state_example (Node Tip ''b.ru.2.T1'' None Tip) 1))"
    by (simp_all add: set_inv_def state_example_def)
  have n: "distinct (map fst scan_example)" "qitems queue_example = map (mk_str \<circ> fst) scan_example"
    "tsize (addr_vs_worker (state_example t n)) + length scan_example \<le> TREE_DEFAULT_MAX_SIZE"
    "n \<le> 1 \<Longrightarrow> tsize (sended_files (state_example t n)) + length scan_example \<le> TREE_DEFAULT_MAX_SIZE" for t n
    by (simp_all add: scan_example_def empty_tree_def TREE_DEFAULT_MAX_SIZE_def state_example_def queue_example_def)
  have aa: "assign_all (length workers_example) (mc_min_interval_working_with_addr master_example) 50 scan_example (Map.empty, 0)
    = ([0, 1, 0], (Map.empty(''ya.ru'' \<mapsto> (0, 50), ''b.ru'' \<mapsto> (1, 50)), 0))" "0 \<le> mc_min_interval_working_with_addr master_example"
    by (simp_all add: workers_example_def master_example_def scan_example_def assign_all_Cons assign_def)
  note scan = scan_implements_dispatcher [OF g r _ p(2,1) f n(1,3) _ n(2) aa]
  have k: "tkeys (troot (sended_files (state_example t n))) = tkeys t" for t n by (simp add: state_example_def)
  have "add_filenames_to_workers master_example workers_example queue_example (state_example (Node Tip ''b.ru.2.T1'' None Tip) 1)
       [pipe_peer, pipe_peer] clock_world = Fault Dangling"
    using scan [OF si(2) n(4)] unfolding k by (simp add: scan_example_def)
  moreover obtain s' peers' where "add_filenames_to_workers master_example workers_example
       queue_example (state_example Tip 0) [pipe_peer, pipe_peer] clock_world = Done (s', peers', clock_world)"
    "refines workers_example (Map.empty(''ya.ru'' \<mapsto> (0, 50), ''b.ru'' \<mapsto> (1, 50)), 0) s'"
    "\<forall>k < length workers_example. pending (peers' ! k) = pending ([pipe_peer, pipe_peer] ! k) @ announced_to k [0, 1, 0] scan_example"
    using scan [OF si(1) n(4)] unfolding k by auto
  ultimately show ?thesis
    by (auto simp: workers_example_def pipe_peer_wf(2) scan_example_def PARENT_MESSAGE_END_MARKER_def less_Suc_eq refines_def)
qed

definition rescan_example :: master_state where
  "rescan_example = \<lparr>ms_state = \<lparr>addr_vs_worker = empty_tree,
       sended_files = \<lparr>troot = Node Tip ''ya.ru.2.T1'' None Tip, tsize = 1, tmax_size = TREE_DEFAULT_MAX_SIZE\<rparr>, rr_index = 0\<rparr>,
     ms_workers = workers_example, ms_peers = [pipe_peer, pipe_peer], ms_slots = [Some 0, Some 1], ms_logger = pipe_peer,
     ms_storage = \<lparr>read_fds = {}, write_fds = {}\<rparr>\<rparr>"

theorem rescan_frees_unset_pointer_witness:
  "dispatch_round master_example (Some [(''ya.ru.2.T1'', True)]) select_example rescan_example clock_world = Fault Uninit_Read"
  by (rule rescan_frees_unset_pointer [where f = "''ya.ru.2.T1''" and rest = "[]"])
    (simp_all add: good_world_def clock_world_def CQUEUE_DEFAULT_MAX_SIZE_def rescan_example_def tree_search_def)

theorem unstarted_worker_is_used_witness:
  "\<exists>cfg' workers peers. init_workers master_example (\<lambda>i. Some (4, 5)) (\<lambda>i. if i = 0 then -1 else 7) (\<lambda>i. ([], [])) clock_world
       = (Some (cfg', workers, peers), clock_world)
     \<and> dispatch_init cfg' ([], []) workers peers clock_world = Fault Uninit_Read"
  by (rule unstarted_worker_is_used [where i = 0]) (simp_all add: clock_world_def master_example_def)

end
