(* ===== verification/Client_Logger.thy ===== *)
theory Client_Logger
  imports Client_Dispatch
begin

text \<open>
  The logging process of the client, \<^verbatim>\<open>client/src/logger.c\<close>: it reads the pipes of the master
  and of the workers, cuts the bytes at the mark \<^verbatim>\<open>123\<close> and appends every record to the log
  file with the descriptor it came from.
\<close>

section \<open>Operations\<close>

definition LOG_END_MARKER :: string where "LOG_END_MARKER = ''123''"

text \<open>The line of a record; \<^verbatim>\<open>printf\<close> and \<^verbatim>\<open>fprintf\<close> write the same text.\<close>

definition log_line :: "int \<Rightarrow> string_t \<Rightarrow> string" where
  "log_line worker_fd l = ''['' @ show_int worker_fd @ ''] '' @ c_str (str_data l) @ [LF]"

function process_logs :: "string_t cqueue \<Rightarrow> string \<Rightarrow> int \<Rightarrow> (string_t cqueue \<times> string) run" where
  "process_logs logs logf worker_fd =
     rbind (cqueue_peek logs) (\<lambda>l.
       case l of None \<Rightarrow> Done (logs, logf)
       | Some r \<Rightarrow> rbind (cqueue_pop_front logs) (\<lambda>(_, q). process_logs q (logf @ log_line worker_fd r) worker_fd))"
  by pat_completeness auto
termination
  by (relation "measure (\<lambda>(q, f, d). qlen q)") (auto simp: cqueue_peek_def cqueue_pop_front_def split: if_splits list.splits)

declare process_logs.simps [simp del]

text \<open>The loop that makes the peers; a failed allocation lowers the count, which is also its bound.\<close>

function logger_peers :: "int list \<Rightarrow> (nat \<Rightarrow> string \<times> string) \<Rightarrow> nat \<Rightarrow> nat \<Rightarrow> peer_t list \<Rightarrow> cworld \<Rightarrow> (peer_t list \<times> nat \<times> cworld) run" where
  "logger_peers fds raws i workers_count acc w =
     (if i < workers_count
      then if length fds \<le> i then Fault Out_Of_Bounds
        else case peer_init (raws i) (fds ! i) FDT_PIPE w of
          (None, w1) \<Rightarrow> logger_peers fds raws (i + 1) (workers_count - 1) acc w1
        | (Some p, w1) \<Rightarrow> logger_peers fds raws (i + 1) workers_count (acc @ [p]) w1
      else Done (acc, workers_count, w))"
  by pat_completeness auto
termination
  by (relation "measure (\<lambda>(fds, raws, i, n, acc, w). n - i)") auto

declare logger_peers.simps [simp del]

text \<open>\<^verbatim>\<open>logger_main\<close> up to its loop; \<open>opened\<close> says whether the log file could be opened.\<close>

definition logger_init :: "logger_config_t \<Rightarrow> bool \<Rightarrow> (nat \<Rightarrow> string \<times> string) \<Rightarrow> cworld
    \<Rightarrow> (cerror \<times> (select_fd_storage_t \<times> peer_t list \<times> nat) option \<times> cworld) run" where
  "logger_init config opened raws w =
     (if \<not> opened then Done (LOG_FILE_OPEN_ERROR, None, w)
      else let workers_count = lc_workers_count config + 1 in
        case storage_init w of (None, w1) \<Rightarrow> Done (MEMORY_ERROR, None, w1)
        | (Some storage, w1) \<Rightarrow> let (ok, w2) = cmalloc w1 in
            if \<not> ok then Done (MEMORY_ERROR, None, w2)
            else rbind (logger_peers (lc_worker_pipe_fds config) raws 0 workers_count [] w2) (\<lambda>(peers, n, w3).
              Done (SUCCESS, Some (storage, peers, n), w3)))"

fun log_peers :: "peer_t list \<Rightarrow> string \<Rightarrow> cworld \<Rightarrow> (peer_t list \<times> string \<times> cworld) run" where
  "log_peers [] logf w = Done ([], logf, w)"
| "log_peers (p # ps) logf w =
     rbind (fill_messages_out p LOG_END_MARKER w) (\<lambda>(_, p1, w1).
     rbind (process_logs (messages_out p1) logf (pfd p1)) (\<lambda>(q, logf1).
     rbind (log_peers ps logf1 w1) (\<lambda>(rest, logf2, w2). Done (p1\<lparr>messages_out := q\<rparr> # rest, logf2, w2))))"

definition logger_round :: "cio \<Rightarrow> select_fd_storage_t \<times> peer_t list \<Rightarrow> string \<Rightarrow> cworld
    \<Rightarrow> ((select_fd_storage_t \<times> peer_t list) \<times> string \<times> cworld) run" where
  "logger_round io st logf w =
     rbind (select_step io (fst st) (snd st) w) (\<lambda>(_, storage, res, w1).
     rbind (log_peers (map fst res) logf w1) (\<lambda>(peers, logf1, w2). Done ((storage, peers), logf1, w2)))"

section \<open>Properties\<close>

lemma logger_peers_overrun:
  "cmem w = [] \<Longrightarrow> i \<le> length fds \<Longrightarrow> length fds < n \<Longrightarrow> logger_peers fds raws i n acc w = Fault Out_Of_Bounds"
proof (induction "length fds - i" arbitrary: i acc)
  case 0
  then show ?case by (subst logger_peers.simps) simp
next
  case (Suc m)
  moreover obtain p where "peer_init (raws i) (fds ! i) FDT_PIPE w = (Some p, w)" using Suc.prems(1) by (simp add: peer_init_def cqueue_init_def)
  ultimately show ?case by (subst logger_peers.simps) simp
qed

text \<open>
  C40: the master and the logger both count the descriptor of the master, so the logger reads
  one descriptor more than the array has: started as the master starts it, with every pipe
  open, it never reaches its loop.
\<close>

theorem logger_reads_past_descriptors:
  assumes "\<forall>i < mc_workers_count cfg + 1. pipe i \<noteq> None" and "cmem w = []"
  shows "rbind (init_logger_child cfg pipe w) (\<lambda>(lc, w1). case lc of None \<Rightarrow> Done None | Some c \<Rightarrow> rbind (logger_init c True raws w1) (\<lambda>r. Done (Some r)))
    = Fault Out_Of_Bounds"
  using init_logger_child_ok [OF assms] logger_peers_overrun [OF assms(2), of 0] assms(2)
  by (simp add: logger_init_def storage_init_def Let_def del: upt_Suc)

theorem logger_reads_past_descriptors_witness:
  "rbind (init_logger_child master_example (\<lambda>i. Some (3, 4)) clock_world)
     (\<lambda>(lc, w1). case lc of None \<Rightarrow> Done None | Some c \<Rightarrow> rbind (logger_init c True (\<lambda>i. ([], [])) w1) (\<lambda>r. Done (Some r))) = Fault Out_Of_Bounds"
  by (rule logger_reads_past_descriptors) (simp_all add: clock_world_def)

text \<open>All records that wait are written in order, each once.\<close>

lemma process_logs_ok:
  "cq_wf logs \<Longrightarrow> \<exists>q. process_logs logs logf d = Done (q, logf @ concat (map (log_line d) (qitems logs))) \<and> qitems q = [] \<and> cq_wf q"
proof (induction "qitems logs" arbitrary: logs logf)
  case Nil
  then show ?case by (subst process_logs.simps) (simp add: cqueue_peek_def cq_wf_def)
next
  case (Cons r rs)
  let ?q = "logs\<lparr>qitems := rs, qlen := qlen logs - 1\<rparr>"
  have "cqueue_pop_front logs = Done (SUCCESS, ?q)" "cq_wf ?q" using cqueue_pop_front_ok [OF Cons.prems Cons.hyps(2) [symmetric]] by auto
  moreover have "cqueue_peek logs = Done (Some r)" using Cons.hyps(2) [symmetric] Cons.prems by (simp add: cqueue_peek_def cq_wf_def)
  moreover obtain q where "process_logs ?q (logf @ log_line d r) d = Done (q, (logf @ log_line d r) @ concat (map (log_line d) rs))" "qitems q = []" "cq_wf q"
    using Cons.hyps(1) [of ?q "logf @ log_line d r"] calculation(2) by auto
  ultimately show ?case using Cons.hyps(2) [symmetric] by (subst process_logs.simps) simp
qed

lemma log_line_mk_str: "NUL \<notin> set x \<Longrightarrow> log_line d (mk_str x) = ''['' @ show_int d @ ''] '' @ x @ [LF]"
  using c_str_append [of x "[NUL]"] by (simp add: log_line_def)

text \<open>The records the logger cuts a text into, and the lines it writes for them.\<close>

definition log_lines :: "int \<Rightarrow> string list \<Rightarrow> string" where
  "log_lines d ys = concat (map (\<lambda>x. ''['' @ show_int d @ ''] '' @ x @ [LF]) ys)"

lemma LOG_END_MARKER_simps: "LOG_END_MARKER \<noteq> []" "NUL \<notin> set LOG_END_MARKER"
  by (simp_all add: LOG_END_MARKER_def)

lemma log_peers_cut:
  assumes "\<forall>x \<in> set ys. frames LOG_END_MARKER x" "uncut LOG_END_MARKER part" "NUL \<notin> set (framed LOG_END_MARKER ys)"
    and "peer_wf p" "qitems (messages_out p) = []" "length ys \<le> qmax (messages_out p)"
    and "take (buffer_out_size p) (buffer_out p) = framed LOG_END_MARKER ys @ part" and "good_world w"
  shows "\<exists>p'. log_peers [p] logf w = Done ([p'], logf @ log_lines (pfd p) ys, w)
    \<and> qitems (messages_out p') = [] \<and> take (buffer_out_size p') (buffer_out p') = part"
proof -
  have q: "qlen (messages_out p) + length ys \<le> qmax (messages_out p)" "cq_wf (messages_out p)" using assms(4-6) by (auto simp: peer_wf_def cq_wf_def)
  let ?q = "(messages_out p)\<lparr>qitems := qitems (messages_out p) @ map mk_str ys, qlen := qlen (messages_out p) + length ys\<rparr>"
  obtain buf where f: "fill_messages_out p LOG_END_MARKER w = Done (SUCCESS, p\<lparr>messages_out := ?q, buffer_out := buf, buffer_out_size := length part\<rparr>, w)"
    "take (length part) buf = part"
    using fill_messages_out_lines [OF LOG_END_MARKER_simps assms(1,2,4,7) q(1), of w] assms(8) by auto
  have nul: "\<And>x. x \<in> set ys \<Longrightarrow> NUL \<notin> set x" using assms(3) by (auto split: if_splits)
  have "cq_wf ?q" using q by (simp add: cq_wf_def)
  from process_logs_ok [OF this, of logf "pfd p"] obtain q' where
    "process_logs ?q logf (pfd p) = Done (q', logf @ concat (map (log_line (pfd p)) (qitems ?q)))" "qitems q' = []" by blast
  moreover have "concat (map (log_line (pfd p)) (qitems ?q)) = log_lines (pfd p) ys"
    using assms(5) nul by (simp add: log_lines_def comp_def log_line_mk_str cong: map_cong)
  ultimately show ?thesis using f by simp
qed

text \<open>
  C32: what a round of the logger does with the bytes a pipe has delivered, whatever they are
  (but for NUL): they are cut, in exactly one way, into records that the search for the mark
  passes and is back at its start behind, each with its mark, and a rest in which it finds no
  mark; every record becomes one line of the log, in order and with the descriptor, and the
  rest stays in the buffer for the next round. So the records that were sent become one line
  each when the search passes each of them so. It does not when a record ends with a
  beginning of the mark, like the digit 1: such a record and the next become a single line.
\<close>

theorem records_reach_log_file:
  assumes "NUL \<notin> set (take (buffer_out_size p) (buffer_out p))" and "peer_wf p" "qitems (messages_out p) = []"
    and "MAX_BUFFER_SIZE \<le> qmax (messages_out p)" and "good_world w"
  shows "\<exists>ys part p'. take (buffer_out_size p) (buffer_out p) = framed LOG_END_MARKER ys @ part
    \<and> (\<forall>x \<in> set ys. frames LOG_END_MARKER x) \<and> uncut LOG_END_MARKER part
    \<and> log_peers [p] logf w = Done ([p'], logf @ log_lines (pfd p) ys, w)
    \<and> qitems (messages_out p') = [] \<and> take (buffer_out_size p') (buffer_out p') = part
    \<and> (\<forall>rs r. take (buffer_out_size p) (buffer_out p) = framed LOG_END_MARKER rs @ r
         \<and> (\<forall>x \<in> set rs. frames LOG_END_MARKER x) \<and> uncut LOG_END_MARKER r \<longrightarrow> rs = ys \<and> r = part)"
proof -
  let ?s = "take (buffer_out_size p) (buffer_out p)"
  obtain ys part where c: "?s = framed LOG_END_MARKER ys @ part" "\<forall>x \<in> set ys. frames LOG_END_MARKER x" "uncut LOG_END_MARKER part"
    using cut_exists [OF LOG_END_MARKER_simps(1) assms(1)] by blast
  have "length (framed LOG_END_MARKER ys) \<le> length ?s" unfolding c(1) by simp
  then have "length ys \<le> qmax (messages_out p)"
    using length_framed [OF LOG_END_MARKER_simps(1), of ys] assms(2,4) by (simp add: peer_wf_def)
  moreover have "NUL \<notin> set (framed LOG_END_MARKER ys)" using assms(1) unfolding c(1) by simp
  ultimately obtain p' where p': "log_peers [p] logf w = Done ([p'], logf @ log_lines (pfd p) ys, w)"
    "qitems (messages_out p') = []" "take (buffer_out_size p') (buffer_out p') = part"
    using log_peers_cut [OF c(2,3) _ assms(2,3) _ c(1) assms(5)] by blast
  have "rs = ys \<and> r = part" if "?s = framed LOG_END_MARKER rs @ r" "\<forall>x \<in> set rs. frames LOG_END_MARKER x" "uncut LOG_END_MARKER r" for rs r
    using cut_unique [OF LOG_END_MARKER_simps, of rs r ys part] that c by simp
  with c p' show ?thesis by blast
qed

lemma parse_step:
  assumes "i < n" "i < length buf" "j' = (if buf ! i = (mk @ [NUL]) ! j then j + 1 else 0)" "j' \<noteq> length mk" "i' = i + 1"
  shows "parse_loop buf n mk i j b p q w = parse_loop buf n mk i' j' b p q w"
  using assms by (subst parse_loop.simps) simp

text \<open>
  The mark is not found when the record before it ends with the mark's first digit: the
  search does not go back, so this record and the next one come out as a single record
  with the mark inside.
\<close>

theorem log_records_merge:
  assumes "CHR ''1'' \<notin> set x" and "CHR ''1'' \<notin> set y" and "good_world w" and "peer_wf p"
    and "qlen (messages_out p) < qmax (messages_out p)"
    and "take (buffer_out_size p) (buffer_out p) = (x @ ''1'') @ LOG_END_MARKER @ y @ LOG_END_MARKER"
  shows "\<exists>p'. fill_messages_out p LOG_END_MARKER w = Done (SUCCESS, p', w)
    \<and> qitems (messages_out p') = qitems (messages_out p) @ [mk_str (x @ ''1123'' @ y)] \<and> buffer_out_size p' = 0"
proof -
  let ?b = "buffer_out p" and ?n = "buffer_out_size p" and ?q0 = "\<lparr>qitems = [], qlen = 0, qmax = CQUEUE_DEFAULT_MAX_SIZE\<rparr> :: string_t cqueue"
  let ?m = "x @ ''1123'' @ y"
  let ?q1 = "\<lparr>qitems = [mk_str ?m], qlen = 1, qmax = CQUEUE_DEFAULT_MAX_SIZE\<rparr> :: string_t cqueue"
  have le: "?n \<le> length ?b" using assms(4) by (simp add: peer_wf_def)
  then have len: "?n \<le> length ?b" "?n = length x + 4 + length y + 3"
    using arg_cong [OF assms(6), of length] by (simp_all add: LOG_END_MARKER_def)
  define post where "post = drop ?n ?b"
  have b: "?b = x @ ''1123'' @ y @ ''123'' @ post"
    using append_take_drop_id [of ?n ?b] assms(6) by (simp add: post_def LOG_END_MARKER_def)
  have mk: "LOG_END_MARKER \<noteq> []" "hd LOG_END_MARKER = CHR ''1''" "length LOG_END_MARKER = 3" by (simp_all add: LOG_END_MARKER_def)
  have at: "?b ! (length x) = CHR ''1''" "?b ! (length x + 1) = CHR ''1''" "?b ! (length x + 2) = CHR ''2''" "?b ! (length x + 3) = CHR ''3''"
    unfolding b by (simp_all add: nth_append)
  have s1: "parse_loop ?b ?n LOG_END_MARKER 0 0 0 0 ?q0 w = parse_loop ?b ?n LOG_END_MARKER (length x) 0 0 0 ?q0 w"
    using parse_skip [of ?b "[]" x "''1123'' @ y @ ''123'' @ post" LOG_END_MARKER ?n 0 0 ?q0 w] b assms(1) mk len by simp
  have l4: "length (x @ ''1123'') = length x + 4" and l7: "length (x @ ''1123'' @ y) = length x + 4 + length y" "length ''123'' = 3" by simp_all
  have lt: "length x + 3 < ?n" using len by simp
  have s2: "parse_loop ?b ?n LOG_END_MARKER (length x) 0 0 0 ?q0 w = parse_loop ?b ?n LOG_END_MARKER (length x + 1) 1 0 0 ?q0 w"
    by (rule parse_step) (use at lt le in \<open>simp_all add: LOG_END_MARKER_def\<close>)
  have s3: "parse_loop ?b ?n LOG_END_MARKER (length x + 1) 1 0 0 ?q0 w = parse_loop ?b ?n LOG_END_MARKER (length x + 2) 0 0 0 ?q0 w"
    by (rule parse_step) (use at lt le in \<open>simp_all add: LOG_END_MARKER_def\<close>)
  have s4: "parse_loop ?b ?n LOG_END_MARKER (length x + 2) 0 0 0 ?q0 w = parse_loop ?b ?n LOG_END_MARKER (length x + 3) 0 0 0 ?q0 w"
    by (rule parse_step) (use at lt le in \<open>simp_all add: LOG_END_MARKER_def\<close>)
  have s5: "parse_loop ?b ?n LOG_END_MARKER (length x + 3) 0 0 0 ?q0 w = parse_loop ?b ?n LOG_END_MARKER (length x + 4) 0 0 0 ?q0 w"
    by (rule parse_step) (use at lt le in \<open>simp_all add: LOG_END_MARKER_def\<close>)
  have s6: "parse_loop ?b ?n LOG_END_MARKER (length x + 4) 0 0 0 ?q0 w = parse_loop ?b ?n LOG_END_MARKER (length x + 4 + length y) 0 0 0 ?q0 w"
    by (rule parse_skip [of ?b "x @ ''1123''" y "''123'' @ post" LOG_END_MARKER ?n, unfolded l4 l7])
      (use b assms(2) mk len in simp_all)
  have s7: "parse_loop ?b ?n LOG_END_MARKER (length x + 4 + length y) 0 0 0 ?q0 w = emit ?b ?n LOG_END_MARKER (length x + 4 + length y + 3) 0 ?q0 w"
    by (rule parse_match [of ?b "x @ ''1123'' @ y" "''123''" post LOG_END_MARKER "[]" ?n, unfolded l4 l7 list.size(3)])
      (use b len in \<open>simp_all add: LOG_END_MARKER_def\<close>)
  have init: "string_init2 ?b (length ?m) w = Done (Some (mk_str ?m), w)"
  proof -
    have "?b = ?m @ ''123'' @ post" using b by simp
    then have "take (length ?m) ?b = ?m" "length ?m \<le> length ?b" by (metis append_eq_conv_conj) (metis \<open>?b = ?m @ ''123'' @ post\<close> length_append le_add1)
    then show ?thesis using string_init2_plenty [of "length ?m" ?b w] assms(3) by simp
  qed
  have push: "cqueue_push_back string_copy ?q0 (mk_str ?m) w = Done (SUCCESS, ?q1, w)"
    using assms(3) by (simp add: cqueue_push_back_def CQUEUE_DEFAULT_MAX_SIZE_def)
  have "emit ?b ?n LOG_END_MARKER (length x + 4 + length y + 3) 0 ?q0 w = Done (?q1, ?n, w)"
  proof -
    have e: "length x + 4 + length y + 3 = ?n" "?n - length LOG_END_MARKER - 0 = length ?m" using len mk(3) by simp_all
    have last: "parse_loop ?b ?n LOG_END_MARKER ?n 0 ?n ?n ?q1 w = Done (?q1, ?n, w)" by (subst parse_loop.simps) simp
    show ?thesis unfolding e(1) emit_def e(2) drop_0 init using push last by simp
  qed
  then have pb: "parse_buffer ?b ?n LOG_END_MARKER w = Done (Some ?q1, ?n, w)"
    using s1 s2 s3 s4 s5 s6 s7 assms(3) by (simp add: parse_buffer_def cqueue_init_def)
  have "cqueue_push_all string_copy (messages_out p) ?q1 w
      = Done (SUCCESS, (messages_out p)\<lparr>qitems := qitems (messages_out p) @ [mk_str ?m], qlen := qlen (messages_out p) + 1\<rparr>, w)"
    using push_items_plenty [of "messages_out p" "[mk_str ?m]" string_copy w] assms(3,4,5) by (simp add: cqueue_push_all_def peer_wf_def)
  with pb len show ?thesis by (simp add: fill_messages_out_def cqueue_clear_def reduce_buffer_def)
qed

definition log_peer :: "string \<Rightarrow> peer_t" where
  "log_peer s = pipe_peer\<lparr>buffer_out := s @ replicate (1024 - length s) NUL, buffer_out_size := length s\<rparr>"

lemma log_peer_wf: "length s \<le> 1024 \<Longrightarrow> peer_wf (log_peer s)"
  by (simp add: log_peer_def pipe_peer_def peer_wf_def MAX_BUFFER_SIZE_def cq_wf_def)

theorem records_reach_log_file_witness:
  "\<exists>p'. log_peers [log_peer ''up1123no1 12 ok123down1''] [] clock_world = Done ([p'], ''[5] up1123no1 12 ok'' @ [LF], clock_world)
     \<and> qitems (messages_out p') = [] \<and> take (buffer_out_size p') (buffer_out p') = ''down1''"
proof -
  let ?p = "log_peer ''up1123no1 12 ok123down1''"
  have d: "show_int (pfd ?p) = ''5''" by (simp add: log_peer_def pipe_peer_def show_int_def show_nat.simps char_of_def bit_0)
  have s: "take (buffer_out_size ?p) (buffer_out ?p) = ''up1123no1 12 ok123down1''" by (simp add: log_peer_def)
  have c: "take (buffer_out_size ?p) (buffer_out ?p) = framed LOG_END_MARKER [''up1123no1 12 ok''] @ ''down1''"
    "\<forall>x \<in> set [''up1123no1 12 ok'']. frames LOG_END_MARKER x" "uncut LOG_END_MARKER ''down1''"
    unfolding s by (simp_all add: LOG_END_MARKER_def frames_def uncut_def)
  have h: "NUL \<notin> set (take (buffer_out_size ?p) (buffer_out ?p))" "peer_wf ?p" "qitems (messages_out ?p) = []"
    "MAX_BUFFER_SIZE \<le> qmax (messages_out ?p)" "good_world clock_world"
    using log_peer_wf [of "''up1123no1 12 ok123down1''"] unfolding s
    by (simp_all add: log_peer_def pipe_peer_def good_world_def clock_world_def MAX_BUFFER_SIZE_def)
  from records_reach_log_file [OF h, of "[]"] obtain ys part p' where r: "log_peers [?p] [] clock_world = Done ([p'], log_lines (pfd ?p) ys, clock_world)"
    "qitems (messages_out p') = []" "take (buffer_out_size p') (buffer_out p') = part"
    "\<forall>rs r. take (buffer_out_size ?p) (buffer_out ?p) = framed LOG_END_MARKER rs @ r
         \<and> (\<forall>x \<in> set rs. frames LOG_END_MARKER x) \<and> uncut LOG_END_MARKER r \<longrightarrow> rs = ys \<and> r = part" by auto
  from r(4) c have "ys = [''up1123no1 12 ok'']" "part = ''down1''" by blast+
  with r(1-3) d show ?thesis by (intro exI [of _ p']) (simp add: log_lines_def)
qed

theorem log_records_merge_witness:
  "\<exists>p'. fill_messages_out (log_peer ''fd 1123ok123'') LOG_END_MARKER clock_world = Done (SUCCESS, p', clock_world)
     \<and> qitems (messages_out p') = [mk_str ''fd 1123ok'']"
  using log_records_merge [of "''fd ''" "''ok''" clock_world "log_peer ''fd 1123ok123''"] log_peer_wf [of "''fd 1123ok123''"]
  by (auto simp: log_peer_def pipe_peer_def LOG_END_MARKER_def good_world_def clock_world_def)

end
