(* ===== verification/Client_Start.thy ===== *)
theory Client_Start
  imports Client_Dispatch
begin

text \<open>
  Starting the client: \<^verbatim>\<open>main\<close> in \<^verbatim>\<open>client/src/client_main.c\<close> with the options and their
  defaults, the handler of \<^verbatim>\<open>end_program_handler.c\<close>, and what the master has in hand when
  nothing fails on the way to its loop.
\<close>

section \<open>Options and \<^verbatim>\<open>main\<close>\<close>

text \<open>An option is absent, or has a value of type \<^verbatim>\<open>long\<close> or a text.\<close>

record client_options =
  co_queue_dir :: "string option"
  co_log_file :: "string option"
  co_workers_count :: "int option"
  co_min_interval_working_with_addr :: "int option"
  co_max_attempts_time :: "int option"
  co_min_interval_between_attempts :: "int option"
  co_max_connect_count :: "int option"
  co_min_interval_between_connect :: "int option"

definition DEFAULT_QUEUE_DIR :: string where "DEFAULT_QUEUE_DIR = ''/home/olga/pvs_kp/client/queue_dir''"
definition DEFAULT_LOG_FILE :: string where "DEFAULT_LOG_FILE = ''/home/olga/pvs_kp/client/log.log''"
definition DEFAULT_WORKERS_COUNT :: int where "DEFAULT_WORKERS_COUNT = 2"
definition DEFAULT_MIN_INTERVAL_WORKING_WITH_ADDR :: int where "DEFAULT_MIN_INTERVAL_WORKING_WITH_ADDR = 10"
definition DEFAULT_MAX_ATTEMPTS_TIME :: int where "DEFAULT_MAX_ATTEMPTS_TIME = 30"
definition DEFAULT_MIN_INTERVAL_BETWEEN_ATTEMPTS :: int where "DEFAULT_MIN_INTERVAL_BETWEEN_ATTEMPTS = 5"
definition DEFAULT_MAX_CONNECT_COUNT :: int where "DEFAULT_MAX_CONNECT_COUNT = 5"
definition DEFAULT_MIN_INTERVAL_BETWEEN_CONNECT :: int where "DEFAULT_MIN_INTERVAL_BETWEEN_CONNECT = 1"

text \<open>A \<^verbatim>\<open>long\<close> stored in an \<^verbatim>\<open>int\<close>; the counts and intervals of the configuration.\<close>

definition to_int :: "int \<Rightarrow> int" where
  "to_int x = (x + 2 ^ 31) mod 2 ^ 32 - 2 ^ 31"

definition option_or :: "'a \<Rightarrow> 'a option \<Rightarrow> 'a" where
  "option_or d x = (case x of None \<Rightarrow> d | Some v \<Rightarrow> v)"

text \<open>The descriptor of the logger is zero until the master sets it.\<close>

definition client_config :: "client_options \<Rightarrow> master_config_t" where
  "client_config opts =
     \<lparr>mc_queue_dir = option_or DEFAULT_QUEUE_DIR (co_queue_dir opts),
      mc_log_file = option_or DEFAULT_LOG_FILE (co_log_file opts),
      mc_workers_count = nat (to_int (option_or DEFAULT_WORKERS_COUNT (co_workers_count opts))),
      mc_min_interval_working_with_addr = to_int (option_or DEFAULT_MIN_INTERVAL_WORKING_WITH_ADDR (co_min_interval_working_with_addr opts)),
      mc_max_attempts_time = option_or DEFAULT_MAX_ATTEMPTS_TIME (co_max_attempts_time opts),
      mc_min_interval_between_attempts = option_or DEFAULT_MIN_INTERVAL_BETWEEN_ATTEMPTS (co_min_interval_between_attempts opts),
      mc_max_connect_count = to_int (option_or DEFAULT_MAX_CONNECT_COUNT (co_max_connect_count opts)),
      mc_min_interval_between_connect = option_or DEFAULT_MIN_INTERVAL_BETWEEN_CONNECT (co_min_interval_between_connect opts),
      mc_logger_fd = 0\<rparr>"

definition set_end_handler :: "bool \<Rightarrow> bool \<Rightarrow> cerror" where
  "set_end_handler sigint_ok sigquit_ok = (if \<not> sigint_ok then SIGNAL_ERROR else if \<not> sigquit_ok then SIGNAL_ERROR else SUCCESS)"

definition client_main :: "client_options \<Rightarrow> bool \<times> bool \<Rightarrow> pipe_oracle \<times> int \<Rightarrow> pipe_oracle \<times> (nat \<Rightarrow> int) \<Rightarrow> (nat \<Rightarrow> string \<times> string)
    \<Rightarrow> string \<times> string \<Rightarrow> cworld \<Rightarrow> ((master_config_t \<times> master_state) option \<times> cworld) run" where
  "client_main opts sigs log forks raws raw w =
     (if set_end_handler (fst sigs) (snd sigs) \<noteq> SUCCESS then Done (None, w)
      else master_main (client_config opts) log forks raws raw w)"

section \<open>The master before its loop\<close>

definition fresh_peer :: "peer_t \<Rightarrow> bool" where
  "fresh_peer p \<longleftrightarrow> peer_wf p \<and> pending p = [] \<and> qlen (messages_in p) = 0 \<and> qmax (messages_in p) = CQUEUE_DEFAULT_MAX_SIZE"

lemma peer_init_fresh:
  assumes "cmem w = []" "length (fst raw) = MAX_BUFFER_SIZE" "length (snd raw) = MAX_BUFFER_SIZE"
  obtains p where "peer_init raw d ty w = (Some p, w)" "fresh_peer p" "pfd p = d"
  using assms that by (simp add: peer_init_def cqueue_init_def fresh_peer_def peer_wf_def cq_wf_def pending_def)

lemma start_workers_fresh:
  assumes "cmem w = []" and "\<forall>i. length (fst (raws i)) = MAX_BUFFER_SIZE \<and> length (snd (raws i)) = MAX_BUFFER_SIZE"
  shows "\<forall>i \<in> set is. pipe i \<noteq> None \<and> 0 \<le> pids i \<Longrightarrow>
    \<exists>new. start_workers pipe pids raws is cfg workers peers w
      = (cfg, workers @ map (\<lambda>j. Some (started pids (is ! j) (length peers + j))) [0..<length is], peers @ new, w)
      \<and> length new = length is \<and> (\<forall>p \<in> set new. fresh_peer p) \<and> map pfd new = map (snd \<circ> the \<circ> pipe) is"
proof (induction "is" arbitrary: workers peers)
  case (Cons i "is")
  obtain p where p: "pipe i = Some p" "0 \<le> pids i" using Cons.prems by auto
  obtain q where q: "peer_init (raws i) (snd p) FDT_PIPE w = (Some q, w)" "fresh_peer q" "pfd q = snd p"
    using peer_init_fresh [of w "raws i" "snd p" FDT_PIPE] assms by blast
  have "\<forall>i \<in> set is. pipe i \<noteq> None \<and> 0 \<le> pids i" using Cons.prems by auto
  from Cons.IH [OF this, of "workers @ [Some \<lparr>wpid = pids i, peer_write = Some (length peers)\<rparr>]" "peers @ [q]"] obtain new where
    "start_workers pipe pids raws is cfg (workers @ [Some \<lparr>wpid = pids i, peer_write = Some (length peers)\<rparr>]) (peers @ [q]) w
      = (cfg, (workers @ [Some \<lparr>wpid = pids i, peer_write = Some (length peers)\<rparr>])
          @ map (\<lambda>j. Some (started pids (is ! j) (length (peers @ [q]) + j))) [0..<length is], (peers @ [q]) @ new, w)" "length new = length is"
    "\<forall>p \<in> set new. fresh_peer p" "map pfd new = map (snd \<circ> the \<circ> pipe) is" by blast
  moreover have "[0..<length (i # is)] = 0 # map Suc [0..<length is]" by (simp add: upt_conv_Cons map_Suc_upt del: upt_Suc)
  ultimately show ?case using p q by (intro exI [of _ "q # new"]) (simp add: started_def comp_def del: upt_Suc)
qed simp

lemma worker_peers_all: "(\<forall>x \<in> set ws. \<exists>y. x = Some y) \<Longrightarrow> worker_peers ws (length ws) = Done (map (peer_write \<circ> the) ws)"
  by (induction ws) auto

lemma tree_lookup_Tip [simp]: "tree_lookup \<lparr>troot = Tip, tsize = n, tmax_size = k\<rparr> = Map.empty"
  by (rule ext) (simp add: tree_lookup_def tree_search_def)

text \<open>
  C13: when no call fails, the master reaches its loop with everything in place: it owns the
  writing end of one pipe per worker, in order, with nothing queued yet, keeps the last
  descriptor of the logger for itself, and its empty tables are the start of the abstract
  dispatcher.
\<close>

theorem master_starts_dispatching:
  assumes "cmem w = []" and "0 < mc_workers_count cfg" and "0 \<le> lpid" and "\<forall>i < mc_workers_count cfg + 1. lp i \<noteq> None"
    and "\<forall>i < mc_workers_count cfg. wp i \<noteq> None \<and> 0 \<le> pids i"
    and "\<forall>i. length (fst (raws i)) = MAX_BUFFER_SIZE \<and> length (snd (raws i)) = MAX_BUFFER_SIZE"
  shows "\<exists>m. master_main cfg (lp, lpid) (wp, pids) raws raw w
        = Done (Some (cfg\<lparr>mc_logger_fd := snd (the (lp (mc_workers_count cfg)))\<rparr>, m), w)
    \<and> refines (ms_workers m) (Map.empty, 0) (ms_state m) \<and> length (ms_workers m) = mc_workers_count cfg
    \<and> set_inv (sended_files (ms_state m)) \<and> tkeys (troot (sended_files (ms_state m))) = {}
    \<and> map pfd (ms_peers m) = map (snd \<circ> the \<circ> wp) [0..<mc_workers_count cfg] \<and> (\<forall>p \<in> set (ms_peers m). fresh_peer p)
    \<and> peers_ok CQUEUE_DEFAULT_MAX_SIZE (ms_peers m) \<and> ms_slots m = map Some [0..<mc_workers_count cfg]
    \<and> pfd (ms_logger m) = snd (the (lp (mc_workers_count cfg)))"
proof -
  let ?n = "mc_workers_count cfg" and ?wfds = "map (snd \<circ> the \<circ> lp) [0..<mc_workers_count cfg + 1]"
  have e: "map lp [0..<?n + 1] = map Some (map (the \<circ> lp) [0..<?n + 1])" using assms(4) by (simp add: less_Suc_eq)
  have ce: "close_ends (?n + 1) (map lp [0..<?n + 1]) = Done ()"
    unfolding e using close_ends_all [of "map (the \<circ> lp) [0..<?n + 1]"] by (simp only: length_map length_upt diff_zero)
  have il: "init_logger cfg lp lpid w = Done (lpid, cfg, Some ?wfds, w)"
    using open_log_pipes_all [OF assms(4), of 0 "[]" "[]"] ce assms(1,3) by (simp add: init_logger_def logger_pipes_def comp_def del: upt_Suc)
  obtain new where st: "start_workers wp pids raws [0..<?n] cfg [] [] w
      = (cfg, map (\<lambda>j. Some (started pids ([0..<?n] ! j) j)) [0..<?n], new, w)"
    and new: "length new = ?n" "\<forall>p \<in> set new. fresh_peer p" "map pfd new = map (snd \<circ> the \<circ> wp) [0..<?n]"
    using start_workers_fresh [OF assms(1,6), of "[0..<?n]" wp pids cfg "[]" "[]"] assms(5) by auto
  define ws where "ws = map (\<lambda>j. Some (started pids j j)) [0..<?n]"
  have ws: "map (\<lambda>j. Some (started pids ([0..<?n] ! j) j)) [0..<?n] = ws" by (simp add: ws_def)
  have iw: "init_workers cfg wp pids raws w = (Some (cfg, ws, new), w)" using st assms(1) unfolding ws by (simp add: init_workers_def)
  have lf: "\<not> length ?wfds \<le> ?n" "?wfds ! ?n = snd (the (lp ?n))" by (simp_all add: nth_append)
  have wp: "worker_peers ws ?n = Done (map Some [0..<?n])"
    using worker_peers_all [of ws] by (simp add: ws_def started_def comp_def)
  let ?t = "\<lparr>troot = Tip, tsize = 0, tmax_size = TREE_DEFAULT_MAX_SIZE\<rparr>"
  let ?cfg = "cfg\<lparr>mc_logger_fd := snd (the (lp ?n))\<rparr>"
  obtain lg st0 where di: "dispatch_init ?cfg raw ws new w = Done (SUCCESS, Some \<lparr>ms_state = \<lparr>addr_vs_worker = ?t, sended_files = ?t, rr_index = 0\<rparr>,
      ms_workers = ws, ms_peers = new, ms_slots = map Some [0..<?n], ms_logger = lg, ms_storage = st0\<rparr>, w)" "pfd lg = snd (the (lp ?n))"
    using assms(1) wp by (simp add: dispatch_init_def peer_init_def cqueue_init_def state_init_def tree_init_def storage_init_def get_peers_from_workers_def)
  have "master_main cfg (lp, lpid) (wp, pids) raws raw w = Done (Some (?cfg, \<lparr>ms_state = \<lparr>addr_vs_worker = ?t, sended_files = ?t, rr_index = 0\<rparr>,
      ms_workers = ws, ms_peers = new, ms_slots = map Some [0..<?n], ms_logger = lg, ms_storage = st0\<rparr>), w)"
    using il iw lf di(1) assms(3) by (simp add: master_main_def del: upt_Suc)
  moreover have "refines ws (Map.empty, 0) \<lparr>addr_vs_worker = ?t, sended_files = ?t, rr_index = 0\<rparr>"
    using assms(2) by (simp add: refines_def tree_inv_def ws_def started_def TREE_DEFAULT_MAX_SIZE_def)
  ultimately show ?thesis using new di(2)
    by (auto simp: ws_def set_inv_def peers_ok_def fresh_peer_def)
qed

theorem master_starts_dispatching_witness:
  "\<exists>m. client_main \<lparr>co_queue_dir = Some ''/q'', co_log_file = None, co_workers_count = Some 3, co_min_interval_working_with_addr = None,
        co_max_attempts_time = None, co_min_interval_between_attempts = None, co_max_connect_count = None, co_min_interval_between_connect = None\<rparr>
      (True, True) ((\<lambda>i. Some (10 + 2 * int i, 11 + 2 * int i)), 100) ((\<lambda>i. Some (30 + 2 * int i, 31 + 2 * int i)), \<lambda>i. 101 + int i)
      (\<lambda>i. (replicate 1024 NUL, replicate 1024 NUL)) ([], []) clock_world = Done (Some m, clock_world)
    \<and> map pfd (ms_peers (snd m)) = [31, 33, 35] \<and> pfd (ms_logger (snd m)) = 17 \<and> ms_slots (snd m) = [Some 0, Some 1, Some 2]"
proof -
  let ?o = "\<lparr>co_queue_dir = Some ''/q'', co_log_file = None, co_workers_count = Some 3, co_min_interval_working_with_addr = None,
        co_max_attempts_time = None, co_min_interval_between_attempts = None, co_max_connect_count = None, co_min_interval_between_connect = None\<rparr>"
  have n: "mc_workers_count (client_config ?o) = 3" by (simp add: client_config_def option_or_def to_int_def)
  have u: "[0..<3] = [0, 1, 2 :: nat]" by (simp add: upt_rec)
  obtain m where m: "master_main (client_config ?o) ((\<lambda>i. Some (10 + 2 * int i, 11 + 2 * int i)), 100)
      ((\<lambda>i. Some (30 + 2 * int i, 31 + 2 * int i)), \<lambda>i. 101 + int i) (\<lambda>i. (replicate 1024 NUL, replicate 1024 NUL)) ([], []) clock_world
      = Done (Some ((client_config ?o)\<lparr>mc_logger_fd := 17\<rparr>, m), clock_world)"
    "map pfd (ms_peers m) = [31, 33, 35]" "pfd (ms_logger m) = 17" "ms_slots m = [Some 0, Some 1, Some 2]"
    using master_starts_dispatching [of clock_world "client_config ?o" 100 "\<lambda>i. Some (10 + 2 * int i, 11 + 2 * int i)"
        "\<lambda>i. Some (30 + 2 * int i, 31 + 2 * int i)" "\<lambda>i. 101 + int i" "\<lambda>i. (replicate 1024 NUL, replicate 1024 NUL)" "([], [])"]
    unfolding n u by (auto simp: clock_world_def MAX_BUFFER_SIZE_def)
  then show ?thesis by (auto simp: client_main_def set_end_handler_def)
qed

end
