(* ===== verification/Spec2Isabelle.thy ===== *)
theory Spec2Isabelle
  imports Mail_Transfer Server_System Server_Closing Server_Startup Mail_Exchange Client_Worker_Loop Client_Logger Client_Start
begin

text \<open>
  Verification of a mail transfer agent: an SMTP server (\<^verbatim>\<open>src/server\<close>) that receives mail
  and stores it in local mailboxes and in queues for remote domains, and an SMTP client
  (\<^verbatim>\<open>src/client\<close>) that takes queued mails and sends them to the hosts responsible for them.

  \<^bold>\<open>The server.\<close> A listening thread accepts connections and puts their descriptors into a
  queue; worker threads take them, each serving its own table of connections with
  \<^verbatim>\<open>poll\<close>. Every connection has a session: received lines are matched against regular
  expressions, the resulting event drives a table automaton whose callbacks change the
  session and prepare replies, and the end of a mail hands it to the mail writer.

  \<^item> \<open>Server_Base\<close>: error codes, protocol constants, the environment (allocator, clock, log,
    files).
  \<^item> \<open>Server_Msg\<close> (\<^verbatim>\<open>msg.c\<close>): growing text buffers; appending, receiving and sending keep the
    content, whatever allocations fail.
  \<^item> \<open>Server_Smtp_Cmd\<close> (\<^verbatim>\<open>smtp_cmd.c\<close>, \<^verbatim>\<open>re_definitions.h\<close>): the command patterns and the choice of a
    command; PCRE is a parameter, and the group indices are checked against the patterns.
  \<^item> \<open>Server_Mail_Writer\<close> (\<^verbatim>\<open>mail_writer.c\<close>): delivery to local mailboxes and remote queues.
  \<^item> \<open>Server_Session\<close>, \<open>Server_Fsm\<close>, \<open>Server_Client\<close> (\<^verbatim>\<open>client.c\<close>, \<^verbatim>\<open>client-fsm.c\<close>, \<^verbatim>\<open>client.def\<close>): the
    session, every callback and row of the table, the entry points; reachable sessions are
    well formed. \<open>Server_Dialogue\<close> and \<open>Server_Transaction\<close> state what whole dialogues do, up to
    the transaction that takes a mail.
  \<^item> \<open>Server_Queue\<close> (\<^verbatim>\<open>queue.c\<close>, \<^verbatim>\<open>node.c\<close>): the linked queue in an explicit heap; it refines the
    contract \<open>Bounded_Fifo\<close>.
  \<^item> \<open>Server_Info\<close>, \<open>Server_Poll\<close>, \<open>Server_Worker\<close> (\<^verbatim>\<open>server_info.c\<close>, \<^verbatim>\<open>smtp_server.c\<close>): the table of
    connections, a round of \<^verbatim>\<open>process_poll\<close>, the loops of the listener and of a worker.
    \<open>Server_Memory\<close> shows that no call of a session uses up memory that is there, and
    \<open>Server_Closing\<close> follows QUIT to the closed descriptor.
  \<^item> \<open>Server_System\<close>: the interleaving of the listener with any number of workers, with the
    invariant that no connection has two owners and the account of every step: which
    connections come in, which are closed, and when the code loses one.
  \<^item> \<open>Server_Cmd_Init\<close> (\<^verbatim>\<open>smtp_cmd.c\<close>): compiling and releasing the command patterns.
  \<^item> \<open>Server_Thread_Pool\<close> (\<^verbatim>\<open>thread_pool.c\<close>, \<^verbatim>\<open>job.c\<close>), \<open>Server_Logger\<close> (\<^verbatim>\<open>logger.c\<close>): starting
    and joining threads; from the calls that log to the text of every output.
  \<^item> \<open>Server_Startup\<close> (\<^verbatim>\<open>smtp_server.c\<close>, \<^verbatim>\<open>server_main.c\<close>, \<^verbatim>\<open>end_program_handler.c\<close>): options,
    listening socket, rights, directories, the frame of the accept loop; what holds when it
    begins, and that it ends with every thread asked to end and waited for.

  \<^bold>\<open>The client.\<close> A master process scans the queue directory and hands file names through
  pipes to worker processes; a worker keeps a map from hosts to connections, each with a
  queue of mails and a table automaton; a logger process writes the log. All of them
  exchange strings through peers: a queue of strings and two fixed buffers around a
  descriptor.

  \<^item> \<open>Client_Base\<close> (\<^verbatim>\<open>errors.h\<close>, \<^verbatim>\<open>mstring.c\<close>): error codes, environment, sized strings.
  \<^item> \<open>Client_Queue\<close> (\<^verbatim>\<open>queue.c\<close>): the queue, again an instance of \<open>Bounded_Fifo\<close>.
  \<^item> \<open>Client_Tree\<close> (\<^verbatim>\<open>tree.c\<close>): the binary search tree; it refines the contract \<open>Bounded_Map\<close>.
  \<^item> \<open>Client_Peer\<close> (\<^verbatim>\<open>peer.c\<close>): moving strings through the buffers and cutting received bytes
    at an end marker; conservation, framing and safety for arbitrary input. What the search
    for the mark does to a text is the function \<open>scan\<close>; every text is cut in exactly one way.
  \<^item> \<open>Client_Message\<close> (\<^verbatim>\<open>SMTP_message.c\<close>, \<^verbatim>\<open>SMTP_command_factory.c\<close>): mails and commands.
  \<^item> \<open>Client_Fsm\<close> (\<^verbatim>\<open>client-fsm.c\<close>, \<^verbatim>\<open>client.def\<close>): the automaton; its table implements its list.
  \<^item> \<open>Client_Connection\<close> (\<^verbatim>\<open>SMTP_connection.c\<close>): connecting and \<^verbatim>\<open>generate_event\<close>; the invariant
    of a connection and its preservation by a round of the worker.
  \<^item> \<open>Client_Transaction\<close>: the commands sent for one mail, and the end of a mail that takes
    too long.
  \<^item> \<open>Client_Fileparser\<close> (\<^verbatim>\<open>fileparser.c\<close>): listing the mail directory, the host in a file name,
    reading a mail file; \<open>Mail_Exchange\<close>: the files the server writes are read back as the
    mails they were, where \<^verbatim>\<open>malloc\<close> happens to return blocks with the byte that the client
    writes behind each address, and only there.
  \<^item> \<open>Client_Select\<close> (\<^verbatim>\<open>select_fd_storage.c\<close>): one call of \<^verbatim>\<open>select\<close> and the service of the peers.
  \<^item> \<open>Client_Worker\<close>, \<open>Client_Worker_Loop\<close> (\<^verbatim>\<open>worker.c\<close>): announced files become mails of
    connections, a round over all connections, the invariant of the tree of connections.
  \<^item> \<open>Client_Master\<close>, \<open>Client_Dispatch\<close> (\<^verbatim>\<open>master.c\<close>): starting the processes and announcing files;
    a scan of the directory without old files implements an abstract dispatcher that assigns
    hosts to workers, and one with an old file frees a bad pointer.
  \<^item> \<open>Client_Logger\<close> (\<^verbatim>\<open>logger.c\<close>): from the bytes of the pipes to the lines of the log file.
  \<^item> \<open>Client_Start\<close> (\<^verbatim>\<open>client_main.c\<close>): options and \<^verbatim>\<open>main\<close>; the state of the master before its
    loop is the start of the abstract dispatcher.

  \<^bold>\<open>Both together.\<close> \<open>Mail_Transfer\<close> lets the two programs talk: the line that a round of the
  client's loop queues is received by the server, whose reply the client gets in its next
  round: a whole mail goes through, and a line that ends the mail early stops the client.
  \<open>Mail_Exchange\<close> is the other way in which they meet, the files of the queue directory.

  \<^bold>\<open>Conventions.\<close> A C function returns \<open>Done\<close> or ends in a \<open>Fault\<close> (\<open>Smtp_Prelude\<close>): null
  dereference, access outside a block, read of an object that was never written, failed
  assertion, \<^verbatim>\<open>exit\<close>, a wait that never ends. The allocator is a list of answers, the clock a list of times, system calls on
  sockets, files and the resolver are inputs with the results the manual pages allow; PCRE
  is a parameter with its documented return codes. Byte blocks are lists of exactly the
  allocated length; on the client, where strings are written past the size that was asked for,
  \<open>usable\<close> says how large the block really is, and the results are stated for blocks with and
  without the missing byte. What lies behind the reply code that \<^verbatim>\<open>atoi\<close> reads without a terminator
  is the parameter \<open>beyond\<close>, and a read behind it is a fault. Counters of type \<^verbatim>\<open>size_t\<close> are
  natural numbers; where the code lets one wrap, the wrap is written out. Freeing memory is modelled where nodes are linked (the server's
  queue) and otherwise has no effect on values. \<open>Table_Fsm\<close>, \<open>Bounded_Fifo\<close> and \<open>Bounded_Map\<close> are the interfaces; each
  is interpreted on the model's own operations.

  \<^bold>\<open>Bounds and fuel.\<close> Loops are recursive functions with termination proofs. Fuel occurs only where
  the source itself bounds a loop (100 calls of \<^verbatim>\<open>recv\<close>, 500 of \<^verbatim>\<open>send\<close>) and where a linked list
  is read: there the fuel is the number of nodes.

  \<^bold>\<open>Not modelled.\<close> The parsers of the command line (generated by AutoGen) are inputs. On the
  server a record of the log is its level and subsystem, except in \<open>Server_Logger\<close>, where the
  texts are followed to the outputs; the interleaving of threads is that of whole iterations,
  which hold the lock of the queue while they use it. On the client a record is the place that
  writes it and its length; that it passes through the peer of the logger like any other
  string is shown for peers in general, but the worker's own records are not followed there.
  In \<open>Mail_Transfer\<close> a line passes from one program to the other as a whole; that the buffers
  and descriptors in between keep the bytes is shown apart, in \<open>Client_Peer\<close>, \<open>Server_Msg\<close> and
  \<open>Server_Poll\<close>, which also shows where the code does not (bytes of another connection).
  The time spent waiting (\<^verbatim>\<open>select\<close>, \<^verbatim>\<open>poll\<close>, \<^verbatim>\<open>sleep\<close>) is not time of the model, and functions that
  only free memory or print have no definition. Tests, scripts, build files and the vendored
  \<^verbatim>\<open>dot2tex\<close> are not part of the running program.
\<close>

end
